(* ===== verification/PyText.thy ===== *)
theory PyText
  imports Prelude
begin

text \<open>
  The operations of Python's \<open>str\<close> and \<open>bytes\<close> that the program uses: case
  conversion, stripping, splitting and joining, decimal and hexadecimal text, UTF-8
  and base64.  A \<open>str\<close> is a \<open>string\<close> whose characters are the code points U+0000 to
  U+00FF; \<open>lower\<close>, \<open>strip\<close> and \<open>encode\<close> are exact on that range.
\<close>

section \<open>Case, whitespace, prefixes\<close>

definition lower_char :: "char \<Rightarrow> char" where
  "lower_char c = (let n = of_char c :: nat in
     if (65 \<le> n \<and> n \<le> 90) \<or> (192 \<le> n \<and> n \<le> 222 \<and> n \<noteq> 215) then char_of (n + 32) else c)"

definition py_lower :: "string \<Rightarrow> string" where
  "py_lower s = map lower_char s"

text \<open>\<open>upper\<close> maps the sharp s (U+00DF) to two letters; the two Latin-1 letters whose
  capitals lie outside the range (U+00B5, U+00FF) are left unchanged.\<close>

definition upper_char :: "char \<Rightarrow> string" where
  "upper_char c = (let n = of_char c :: nat in
     if n = 223 then ''SS''
     else if (97 \<le> n \<and> n \<le> 122) \<or> (224 \<le> n \<and> n \<le> 254 \<and> n \<noteq> 247) then [char_of (n - 32)] else [c])"

definition py_upper :: "string \<Rightarrow> string" where
  "py_upper s = concat (map upper_char s)"

definition is_space :: "char \<Rightarrow> bool" where
  "is_space c = (let n = of_char c :: nat in
     (9 \<le> n \<and> n \<le> 13) \<or> (28 \<le> n \<and> n \<le> 32) \<or> n = 133 \<or> n = 160)"

definition py_lstrip :: "string \<Rightarrow> string" where
  "py_lstrip s = dropWhile is_space s"

definition rstrip_while :: "(char \<Rightarrow> bool) \<Rightarrow> string \<Rightarrow> string" where
  "rstrip_while P s = rev (dropWhile P (rev s))"

definition py_strip :: "string \<Rightarrow> string" where
  "py_strip s = rstrip_while is_space (py_lstrip s)"

fun starts_with :: "string \<Rightarrow> string \<Rightarrow> bool" where
  "starts_with s [] = True"
| "starts_with [] (p # ps) = False"
| "starts_with (c # s) (p # ps) = (c = p \<and> starts_with s ps)"

definition ends_with :: "string \<Rightarrow> string \<Rightarrow> bool" where
  "ends_with s p = starts_with (rev s) (rev p)"

lemma starts_with_iff: "starts_with s p \<longleftrightarrow> (\<exists>r. s = p @ r)"
  by (induction s p rule: starts_with.induct) auto

lemma starts_with_append [simp]: "starts_with (p @ r) p"
  by (auto simp: starts_with_iff)

lemma of_char_char_of_nat: "n < 256 \<Longrightarrow> (of_char (char_of n :: char) :: nat) = n"
  by simp

lemma lower_char_idem [simp]: "lower_char (lower_char c) = lower_char c"
  by (auto simp: lower_char_def Let_def)

lemma py_lower_idem [simp]: "py_lower (py_lower s) = py_lower s"
  by (simp add: py_lower_def comp_def)

lemma py_lower_append: "py_lower (s @ t) = py_lower s @ py_lower t"
  by (simp add: py_lower_def)

lemma py_lower_Nil [simp]: "py_lower [] = []"
  by (simp add: py_lower_def)

lemma py_lower_eq_Nil [simp]: "py_lower s = [] \<longleftrightarrow> s = []"
  by (simp add: py_lower_def)

lemma length_py_lower [simp]: "length (py_lower s) = length s"
  by (simp add: py_lower_def)

lemma is_space_lower_char [simp]: "is_space (lower_char c) = is_space c"
  by (auto simp: lower_char_def is_space_def Let_def)

lemma rstrip_while_id: "s = [] \<or> \<not> P (last s) \<Longrightarrow> rstrip_while P s = s"
  by (cases s rule: rev_cases) (auto simp: rstrip_while_def)

lemma rstrip_while_last: "rstrip_while P s = [] \<or> \<not> P (last (rstrip_while P s))"
  by (induction s rule: rev_induct) (auto simp: rstrip_while_def)

lemma rstrip_while_prefix: "\<exists>t. s = rstrip_while P s @ t \<and> (\<forall>c\<in>set t. P c)"
proof -
  have "rev s = takeWhile P (rev s) @ dropWhile P (rev s)" by simp
  then have "s = rev (dropWhile P (rev s)) @ rev (takeWhile P (rev s))"
    by (metis rev_append rev_rev_ident)
  then show ?thesis
    unfolding rstrip_while_def by (metis set_rev set_takeWhileD)
qed

lemma py_lstrip_id: "s = [] \<or> \<not> is_space (hd s) \<Longrightarrow> py_lstrip s = s"
  by (cases s) (auto simp: py_lstrip_def)

lemma py_strip_id:
  "s = [] \<or> (\<not> is_space (hd s) \<and> \<not> is_space (last s)) \<Longrightarrow> py_strip s = s"
  by (auto simp: py_strip_def py_lstrip_id intro: rstrip_while_id)

lemma py_strip_ends:
  "py_strip s = [] \<or> (\<not> is_space (hd (py_strip s)) \<and> \<not> is_space (last (py_strip s)))"
proof (cases "py_strip s = []")
  case False
  let ?l = "py_lstrip s"
  obtain t where t: "?l = py_strip s @ t"
    using rstrip_while_prefix[of ?l is_space] by (auto simp: py_strip_def)
  with False have "hd ?l = hd (py_strip s)" by simp
  moreover have "?l = [] \<or> \<not> is_space (hd ?l)"
    by (metis hd_dropWhile py_lstrip_def)
  moreover have "?l \<noteq> []" using t False by auto
  moreover have "\<not> is_space (last (py_strip s))"
    using False rstrip_while_last[of is_space ?l] by (auto simp: py_strip_def)
  ultimately show ?thesis by simp
qed simp

lemma py_strip_idem [simp]: "py_strip (py_strip s) = py_strip s"
  using py_strip_ends py_strip_id by blast

lemma py_strip_no_space: "\<forall>c\<in>set s. \<not> is_space c \<Longrightarrow> py_strip s = s"
  by (rule py_strip_id) (metis hd_in_set last_in_set)

section \<open>Splitting and joining\<close>

fun split_on :: "char \<Rightarrow> string \<Rightarrow> string list" where
  "split_on c [] = [[]]"
| "split_on c (x # xs) =
     (if x = c then [] # split_on c xs
      else (case split_on c xs of [] \<Rightarrow> [[x]] | w # ws \<Rightarrow> (x # w) # ws))"

fun py_join :: "string \<Rightarrow> string list \<Rightarrow> string" where
  "py_join sep [] = []"
| "py_join sep [w] = w"
| "py_join sep (w # v # ws) = w @ sep @ py_join sep (v # ws)"

lemma split_on_nonempty [simp]: "split_on c s \<noteq> []"
  by (cases s) (auto split: list.splits)

lemma split_on_no_sep: "c \<notin> set s \<Longrightarrow> split_on c s = [s]"
  by (induction s) auto

lemma split_on_append:
  "c \<notin> set w \<Longrightarrow> split_on c (w @ c # s) = w # split_on c s"
  by (induction w) auto

lemma split_on_join:
  assumes "ws \<noteq> []" and "\<forall>w\<in>set ws. c \<notin> set w"
  shows "split_on c (py_join [c] ws) = ws"
  using assms
proof (induction "[c]" ws rule: py_join.induct)
  case (3 w v ws)
  then show ?case using split_on_append[of c w] by simp
qed (auto simp: split_on_no_sep)

lemma join_split_on: "py_join [c] (split_on c s) = s"
proof (induction s)
  case (Cons x xs)
  obtain w ws where w: "split_on c xs = w # ws"
    using split_on_nonempty[of c xs] by (cases "split_on c xs") auto
  with Cons show ?case by (cases ws) auto
qed simp

lemma split_on_words: "w \<in> set (split_on c s) \<Longrightarrow> c \<notin> set w \<and> set w \<subseteq> set s"
proof (induction s arbitrary: w)
  case (Cons x xs)
  obtain v ws where v: "split_on c xs = v # ws"
    using split_on_nonempty[of c xs] by (cases "split_on c xs") auto
  with Cons.IH have IH: "c \<notin> set u \<and> set u \<subseteq> set xs" if "u \<in> set (v # ws)" for u
    using that by simp
  from Cons.prems v consider "x = c" "w = []" | "x = c" "w \<in> set (v # ws)"
    | "x \<noteq> c" "w = x # v" | "x \<noteq> c" "w \<in> set ws"
    by (auto split: if_splits)
  then show ?case using IH[of w] IH[of v] by cases auto
qed simp


section \<open>Decimal text\<close>

definition digit_char :: "nat \<Rightarrow> char" where
  "digit_char d = char_of (48 + d)"

definition is_digit :: "char \<Rightarrow> bool" where
  "is_digit c = (let n = of_char c :: nat in 48 \<le> n \<and> n \<le> 57)"

definition digit_val :: "char \<Rightarrow> nat" where
  "digit_val c = of_char c - 48"

fun dec_of_nat :: "nat \<Rightarrow> string" where
  "dec_of_nat n = (if n < 10 then [digit_char n] else dec_of_nat (n div 10) @ [digit_char (n mod 10)])"

declare dec_of_nat.simps [simp del]

definition dec_of_int :: "int \<Rightarrow> string" where
  "dec_of_int i = (if i < 0 then CHR ''-'' # dec_of_nat (nat (- i)) else dec_of_nat (nat i))"

definition nat_of_dec :: "string \<Rightarrow> nat" where
  "nat_of_dec s = foldl (\<lambda>a c. 10 * a + digit_val c) 0 s"

lemma digit_char_props [simp]:
  "d < 10 \<Longrightarrow> is_digit (digit_char d)"
  "d < 10 \<Longrightarrow> digit_val (digit_char d) = d"
  by (simp_all add: is_digit_def digit_char_def digit_val_def Let_def)

lemma dec_of_nat_digits: "\<forall>c\<in>set (dec_of_nat n). is_digit c"
proof (induction n rule: dec_of_nat.induct)
  case (1 n)
  then show ?case by (subst dec_of_nat.simps) auto
qed

lemma dec_of_nat_nonempty [simp]: "dec_of_nat n \<noteq> []"
  by (subst dec_of_nat.simps) simp

lemma nat_of_dec_of_nat [simp]: "nat_of_dec (dec_of_nat n) = n"
proof (induction n rule: dec_of_nat.induct)
  case (1 n)
  then show ?case
    by (subst dec_of_nat.simps) (auto simp: nat_of_dec_def)
qed

lemma dec_of_nat_inj: "dec_of_nat m = dec_of_nat n \<Longrightarrow> m = n"
  by (metis nat_of_dec_of_nat)

lemma minus_not_digit [simp]: "\<not> is_digit (CHR ''-'')"
  by (simp add: is_digit_def)

text \<open>A decimal literal is delimited by whatever is not a digit: two integers followed by
  such a rest are read back uniquely.\<close>

lemma dec_of_int_unique:
  assumes "dec_of_int i @ r = dec_of_int j @ s"
    and "r = [] \<or> \<not> is_digit (hd r)" and "s = [] \<or> \<not> is_digit (hd s)"
  shows "i = j \<and> r = s"
proof -
  have sign: "dec_of_nat m @ r' \<noteq> CHR ''-'' # x" for m r' x
    using dec_of_nat_digits[of m] dec_of_nat_nonempty[of m]
    by (cases "dec_of_nat m") auto
  have nats: "m = n \<and> r = s" if "dec_of_nat m @ r = dec_of_nat n @ s" for m n
    using append_eq_append_conv_nondigit[OF that dec_of_nat_digits dec_of_nat_digits assms(2,3)]
      dec_of_nat_inj by blast
  show ?thesis
  proof (cases "i < 0"; cases "j < 0")
    assume "i < 0" "j < 0"
    with assms(1) nats[of "nat (- i)" "nat (- j)"] show ?thesis
      by (auto simp: dec_of_int_def)
  next
    assume "i < 0" "\<not> j < 0"
    with assms(1) sign[of "nat j" s] show ?thesis by (auto simp: dec_of_int_def) metis
  next
    assume "\<not> i < 0" "j < 0"
    with assms(1) sign[of "nat i" r] show ?thesis by (auto simp: dec_of_int_def)
  next
    assume "\<not> i < 0" "\<not> j < 0"
    with assms(1) nats[of "nat i" "nat j"] show ?thesis by (auto simp: dec_of_int_def)
  qed
qed

lemma dec_of_int_inj: "dec_of_int i = dec_of_int j \<Longrightarrow> i = j"
  using dec_of_int_unique[of i "[]" j "[]"] by simp

text \<open>\<open>int(text)\<close>: surrounding whitespace, one sign, decimal digits with single underscores
  between digits; everything else raises \<open>ValueError\<close>.\<close>

fun digits_with_underscores :: "string \<Rightarrow> string option" where
  "digits_with_underscores [] = None"
| "digits_with_underscores [c] = (if is_digit c then Some [c] else None)"
| "digits_with_underscores (c # d # s) =
     (if \<not> is_digit c then None
      else if d = CHR ''_'' then map_option (Cons c) (digits_with_underscores s)
      else map_option (Cons c) (digits_with_underscores (d # s)))"

definition py_int_of_str :: "string \<Rightarrow> int res" where
  "py_int_of_str s = (let t = py_strip s;
      (sg, body) = (case t of [] \<Rightarrow> (1, []) | c # cs \<Rightarrow>
        if c = CHR ''-'' then (- 1, cs) else if c = CHR ''+'' then (1, cs) else (1, t)) in
     case digits_with_underscores body of
       None \<Rightarrow> Raise (ValueError ''invalid literal for int()'')
     | Some ds \<Rightarrow> Ret (sg * int (nat_of_dec ds)))"

lemma digits_with_underscores_digits:
  "s \<noteq> [] \<Longrightarrow> \<forall>c\<in>set s. is_digit c \<Longrightarrow> digits_with_underscores s = Some s"
proof (induction s rule: digits_with_underscores.induct)
  case (3 c d s)
  then have "d \<noteq> CHR ''_''" by (auto simp: is_digit_def)
  with 3 show ?case by simp
qed auto

lemma digit_not_space: "is_digit c \<Longrightarrow> \<not> is_space c"
  by (auto simp: is_digit_def is_space_def Let_def)

lemma py_int_dec_of_nat: "py_int_of_str (dec_of_nat n) = Ret (int n)"
proof -
  have d: "\<forall>c\<in>set (dec_of_nat n). is_digit c" by (rule dec_of_nat_digits)
  then have st: "py_strip (dec_of_nat n) = dec_of_nat n"
    by (intro py_strip_no_space) (auto dest: digit_not_space)
  obtain c cs where c: "dec_of_nat n = c # cs" by (cases "dec_of_nat n") auto
  then have "c \<noteq> CHR ''-''" "c \<noteq> CHR ''+''" using d by (auto simp: is_digit_def)
  moreover have "digits_with_underscores (c # cs) = Some (c # cs)"
    using digits_with_underscores_digits[of "c # cs"] d c by simp
  ultimately show ?thesis
    using st nat_of_dec_of_nat[of n] by (simp add: py_int_of_str_def c Let_def)
qed

end
