(* ===== verification/PyBytes.thy ===== *)
theory PyBytes
  imports PyText
begin

text \<open>
  Byte strings: \<open>str.encode("utf-8")\<close>, \<open>bytes.hex\<close>, \<open>bytes.fromhex\<close>, big-endian
  integers, and \<open>base64\<close> as CPython's \<open>binascii\<close> implements it (the decoder skips
  characters outside the alphabet and stops at a complete padding).
\<close>

section \<open>UTF-8\<close>

definition utf8_char :: "char \<Rightarrow> bytes" where
  "utf8_char c = (let n = of_char c :: nat in
     if n < 128 then [of_nat n] else [of_nat (192 + n div 64), of_nat (128 + n mod 64)])"

definition utf8_encode :: "string \<Rightarrow> bytes" where
  "utf8_encode s = concat (map utf8_char s)"

lemma unat_of_nat8 [simp]: "unat (of_nat n :: byte) = n mod 256"
  by (simp add: unat_of_nat)

lemma of_nat8_eq: "(of_nat m :: byte) = of_nat n \<longleftrightarrow> m mod 256 = n mod 256"
  by (simp add: word_of_nat_eq_iff take_bit_eq_mod)

lemma unat8_less [simp]: "unat (b :: byte) < 256"
  using unsigned_less[of b, where 'a = nat] by simp

lemma of_char_less [simp]: "(of_char c :: nat) < 256"
  by (simp add: of_char_def)

lemma utf8_encode_simps [simp]:
  "utf8_encode [] = []"
  "utf8_encode (c # s) = utf8_char c @ utf8_encode s"
  "utf8_encode (s @ t) = utf8_encode s @ utf8_encode t"
  by (simp_all add: utf8_encode_def)

lemma utf8_char_lead:
  "\<exists>b bs. utf8_char c = b # bs \<and>
     unat b = (if (of_char c :: nat) < 128 then of_char c else 192 + of_char c div 64)"
proof -
  have "(of_char c :: nat) div 64 < 4" by (rule less_mult_imp_div_less) simp
  then show ?thesis by (auto simp: utf8_char_def Let_def simp del: of_nat_add)
qed

lemma utf8_char_prefix:
  assumes "utf8_char c @ r = utf8_char d @ s"
  shows "c = d \<and> r = s"
proof -
  let ?m = "of_char c :: nat" and ?n = "of_char d :: nat"
  have lead: "(if ?m < 128 then ?m else 192 + ?m div 64) = (if ?n < 128 then ?n else 192 + ?n div 64)"
    using assms utf8_char_lead[of c] utf8_char_lead[of d] by (metis append_Cons list.inject)
  then consider "?m < 128" "?m = ?n" | "\<not> ?m < 128" "\<not> ?n < 128" "?m div 64 = ?n div 64"
    by (auto split: if_splits)
  then have "?m = ?n \<and> r = s"
  proof cases
    case 1
    then show ?thesis using assms by (auto simp: utf8_char_def Let_def)
  next
    case 2
    with assms have rest: "(of_nat (128 + ?m mod 64) :: byte) = of_nat (128 + ?n mod 64)" "r = s"
      by (auto simp: utf8_char_def Let_def simp del: of_nat_add)
    have "?m mod 64 < 64" "?n mod 64 < 64" by simp_all
    with rest have "?m mod 64 = ?n mod 64"
      by (simp add: of_nat8_eq del: of_nat_add)
    with 2 rest show ?thesis by (metis div_mult_mod_eq)
  qed
  then show ?thesis by (metis char_of_char)
qed

lemma utf8_encode_inj: "utf8_encode s = utf8_encode t \<Longrightarrow> s = t"
proof (induction s arbitrary: t)
  case Nil
  then show ?case by (cases t) (auto simp: utf8_char_def Let_def split: if_splits)
next
  case (Cons c s)
  then show ?case
  proof (cases t)
    case Nil
    with Cons.prems show ?thesis by (auto simp: utf8_char_def Let_def split: if_splits)
  next
    case (Cons d u)
    with Cons.prems have "c = d \<and> utf8_encode s = utf8_encode u"
      using utf8_char_prefix[of c "utf8_encode s" d "utf8_encode u"] by simp
    with Cons.IH Cons show ?thesis by blast
  qed
qed

section \<open>Hexadecimal text\<close>

definition hex_digit :: "nat \<Rightarrow> char" where
  "hex_digit d = (if d < 10 then char_of (48 + d) else char_of (87 + d))"

definition hex_val :: "char \<Rightarrow> nat option" where
  "hex_val c = (let n = of_char c :: nat in
     if 48 \<le> n \<and> n \<le> 57 then Some (n - 48)
     else if 97 \<le> n \<and> n \<le> 102 then Some (n - 87)
     else if 65 \<le> n \<and> n \<le> 70 then Some (n - 55) else None)"

definition hex_of_byte :: "byte \<Rightarrow> string" where
  "hex_of_byte b = [hex_digit (unat b div 16), hex_digit (unat b mod 16)]"

definition hex_of_bytes :: "bytes \<Rightarrow> string" where
  "hex_of_bytes bs = concat (map hex_of_byte bs)"

definition is_ascii_space :: "char \<Rightarrow> bool" where
  "is_ascii_space c = (let n = of_char c :: nat in (9 \<le> n \<and> n \<le> 13) \<or> n = 32)"

fun bytes_fromhex :: "string \<Rightarrow> bytes res" where
  "bytes_fromhex [] = Ret []"
| "bytes_fromhex (c # cs) =
     (if is_ascii_space c then bytes_fromhex cs
      else case cs of
        [] \<Rightarrow> Raise (ValueError ''non-hexadecimal number found in fromhex() arg'')
      | d # ds \<Rightarrow>
          (case (hex_val c, hex_val d) of
             (Some h, Some l) \<Rightarrow>
               bind_res (bytes_fromhex ds) (\<lambda>r. Ret (of_nat (16 * h + l) # r))
           | _ \<Rightarrow> Raise (ValueError ''non-hexadecimal number found in fromhex() arg'')))"

lemma hex_val_digit [simp]: "d < 16 \<Longrightarrow> hex_val (hex_digit d) = Some d"
  by (auto simp: hex_val_def hex_digit_def Let_def)

lemma hex_digit_not_space: "d < 16 \<Longrightarrow> \<not> is_ascii_space (hex_digit d)"
  by (auto simp: is_ascii_space_def hex_digit_def Let_def)

lemma lower_hex_digit: "d < 16 \<Longrightarrow> lower_char (hex_digit d) = hex_digit d"
  by (auto simp: lower_char_def hex_digit_def Let_def)

lemma hex_of_bytes_simps [simp]:
  "hex_of_bytes [] = []"
  "hex_of_bytes (b # bs) = hex_of_byte b @ hex_of_bytes bs"
  by (simp_all add: hex_of_bytes_def)

lemma length_hex_of_bytes [simp]: "length (hex_of_bytes bs) = 2 * length bs"
  by (induction bs) (simp_all add: hex_of_byte_def)

lemma byte_split: "16 * (unat (b :: byte) div 16) + unat b mod 16 = unat b"
  by simp

lemma bytes_fromhex_hex [simp]: "bytes_fromhex (hex_of_bytes bs) = Ret bs"
proof (induction bs)
  case (Cons b bs)
  have "unat b div 16 < 16" by (rule less_mult_imp_div_less) simp
  with Cons show ?case
    by (simp add: hex_of_byte_def hex_digit_not_space)
qed simp

lemma hex_of_bytes_inj: "hex_of_bytes a = hex_of_bytes b \<Longrightarrow> a = b"
  by (metis bytes_fromhex_hex sum.inject(2))

lemma py_lower_hex [simp]: "py_lower (hex_of_bytes bs) = hex_of_bytes bs"
proof (induction bs)
  case (Cons b bs)
  have "unat b div 16 < 16" by (rule less_mult_imp_div_less) simp
  with Cons show ?case
    by (simp add: hex_of_byte_def py_lower_append lower_hex_digit py_lower_def)
qed simp

text \<open>Reading text as hexadecimal does not see the case of the letters.\<close>

lemma hex_val_lower [simp]: "hex_val (lower_char c) = hex_val c"
  by (auto simp: hex_val_def lower_char_def Let_def)

lemma is_ascii_space_lower [simp]: "is_ascii_space (lower_char c) = is_ascii_space c"
  by (auto simp: is_ascii_space_def lower_char_def Let_def)

lemma bytes_fromhex_lower [simp]: "bytes_fromhex (py_lower s) = bytes_fromhex s"
proof (induction s rule: bytes_fromhex.induct)
  case (2 c cs)
  then show ?case
    by (cases cs) (auto simp: py_lower_def split: option.splits)
qed (simp add: py_lower_def)

section \<open>Big-endian integers\<close>

definition int_from_bytes_be :: "bytes \<Rightarrow> nat" where
  "int_from_bytes_be bs = foldl (\<lambda>a b. 256 * a + unat b) 0 bs"

text \<open>\<open>n.to_bytes(2, "big")\<close>; it raises when the value does not fit.\<close>

definition nat_to_bytes2 :: "nat \<Rightarrow> bytes res" where
  "nat_to_bytes2 n = (if n < 65536 then Ret [of_nat (n div 256), of_nat (n mod 256)]
     else Raise (OverflowError ''int too big to convert''))"

lemma int_from_bytes_be_2: "int_from_bytes_be [a, b] = 256 * unat a + unat b"
  by (simp add: int_from_bytes_be_def)

lemma nat_to_bytes2_roundtrip:
  "nat_to_bytes2 n = Inr bs \<Longrightarrow> int_from_bytes_be bs = n \<and> length bs = 2"
  by (auto simp: nat_to_bytes2_def int_from_bytes_be_2 less_mult_imp_div_less split: if_splits)

end
