(* ===== verification/IpAddress.thy ===== *)
theory IpAddress
  imports PyBytes
begin

text \<open>
  The part of the standard module \<open>ipaddress\<close> that \<open>models/endpoint.py\<close> relies on:
  \<open>str(ip_address(text))\<close> for IPv4 and IPv6 text.  An IPv4 address is the list of its four
  octets, an IPv6 address the list of its eight 16-bit groups with an optional scope.  The
  main result is that the printed form is a fixed point: printing and parsing it again gives
  the same text.
\<close>

section \<open>Hexadecimal groups\<close>

fun hex_of_nat :: "nat \<Rightarrow> string" where
  "hex_of_nat n = (if n < 16 then [hex_digit n] else hex_of_nat (n div 16) @ [hex_digit (n mod 16)])"

declare hex_of_nat.simps [simp del]

definition is_hex :: "char \<Rightarrow> bool" where
  "is_hex c = (hex_val c \<noteq> None)"

definition nat_of_hex :: "string \<Rightarrow> nat" where
  "nat_of_hex s = foldl (\<lambda>a c. 16 * a + the (hex_val c)) 0 s"

definition parse_hextet :: "string \<Rightarrow> nat option" where
  "parse_hextet s = (if list_all is_hex s \<and> s \<noteq> [] \<and> length s \<le> 4 then Some (nat_of_hex s) else None)"

section \<open>IPv4\<close>

definition parse_octet :: "string \<Rightarrow> nat option" where
  "parse_octet s =
     (if s = [] \<or> \<not> list_all is_digit s \<or> length s > 3 \<or> (s \<noteq> ''0'' \<and> hd s = CHR ''0'') then None
      else if nat_of_dec s > 255 then None else Some (nat_of_dec s))"

fun all_some :: "'a option list \<Rightarrow> 'a list option" where
  "all_some [] = Some []"
| "all_some (None # xs) = None"
| "all_some (Some x # xs) = map_option (Cons x) (all_some xs)"

definition parse_ipv4 :: "string \<Rightarrow> nat list option" where
  "parse_ipv4 s = (let parts = split_on CHR ''.'' s in
     if CHR ''/'' \<in> set s \<or> length parts \<noteq> 4 then None else all_some (map parse_octet parts))"

definition print_ipv4 :: "nat list \<Rightarrow> string" where
  "print_ipv4 os = py_join ''.'' (map dec_of_nat os)"

section \<open>IPv6\<close>

definition expand_ipv4_suffix :: "string list \<Rightarrow> string list option" where
  "expand_ipv4_suffix parts =
     (if CHR ''.'' \<in> set (last parts)
      then (case parse_ipv4 (last parts) of
              Some [a, b, c, d] \<Rightarrow> Some (butlast parts @ [hex_of_nat (256 * a + b), hex_of_nat (256 * c + d)])
            | _ \<Rightarrow> None)
      else Some parts)"

definition skip_positions :: "string list \<Rightarrow> nat list" where
  "skip_positions parts = filter (\<lambda>i. parts ! i = []) [1..<length parts - 1]"

definition hextets_of_parts :: "string list \<Rightarrow> nat list option" where
  "hextets_of_parts parts =
     (case skip_positions parts of
        [] \<Rightarrow> if length parts \<noteq> 8 then None else all_some (map parse_hextet parts)
      | [i] \<Rightarrow>
          let hi = (if hd parts = [] then i - 1 else i);
              lo = (if last parts = [] then length parts - i - 2 else length parts - i - 1)
          in if (hd parts = [] \<and> hi \<noteq> 0) \<or> (last parts = [] \<and> lo \<noteq> 0) \<or> 8 < hi + lo + 1 then None
             else (case (all_some (map parse_hextet (take hi parts)),
                         all_some (map parse_hextet (drop (length parts - lo) parts))) of
                     (Some as, Some bs) \<Rightarrow> Some (as @ replicate (8 - (hi + lo)) 0 @ bs)
                   | _ \<Rightarrow> None)
      | _ \<Rightarrow> None)"

definition parse_ipv6_groups :: "string \<Rightarrow> nat list option" where
  "parse_ipv6_groups s = (let parts = split_on CHR '':'' s in
     if s = [] \<or> length parts < 3 then None
     else (case expand_ipv4_suffix parts of
             None \<Rightarrow> None
           | Some ps \<Rightarrow> if length ps > 9 then None else hextets_of_parts ps))"

text \<open>\<open>addr%scope\<close>: an empty scope or a second percent sign is an error.\<close>

definition split_scope :: "string \<Rightarrow> (string \<times> string option) option" where
  "split_scope s =
     (case split_on CHR ''%'' s of
        [a] \<Rightarrow> Some (a, None)
      | [a, sc] \<Rightarrow> if sc = [] then None else Some (a, Some sc)
      | _ \<Rightarrow> None)"

definition parse_ipv6 :: "string \<Rightarrow> (nat list \<times> string option) option" where
  "parse_ipv6 s =
     (if CHR ''/'' \<in> set s then None
      else (case split_scope s of
              None \<Rightarrow> None
            | Some (a, sc) \<Rightarrow> map_option (\<lambda>gs. (gs, sc)) (parse_ipv6_groups a)))"

text \<open>The first of the longest runs of zero groups, as start and length: the loop of
  \<open>_compress_hextets\<close>, with the current run and the best run so far.\<close>

fun best_zero_run :: "nat \<Rightarrow> nat \<times> nat \<Rightarrow> nat \<times> nat \<Rightarrow> nat list \<Rightarrow> nat \<times> nat" where
  "best_zero_run i cur best [] = best"
| "best_zero_run i (cs, cl) (bs, bl) (g # gs) =
     (if g = 0
      then (let cs' = (if cl = 0 then i else cs); cl' = cl + 1 in
            best_zero_run (i + 1) (cs', cl') (if cl' > bl then (cs', cl') else (bs, bl)) gs)
      else best_zero_run (i + 1) (0, 0) (bs, bl) gs)"

definition compress_groups :: "nat list \<Rightarrow> string list" where
  "compress_groups gs = (let (st, n) = best_zero_run 0 (0, 0) (0, 0) gs in
     if n > 1
     then (if st = 0 then [[]] else []) @ map hex_of_nat (take st gs) @ [[]]
        @ map hex_of_nat (drop (st + n) gs) @ (if st + n = length gs then [[]] else [])
     else map hex_of_nat gs)"

definition print_groups :: "nat list \<Rightarrow> string" where
  "print_groups gs = py_join '':'' (compress_groups gs)"

text \<open>An IPv4-mapped address is printed with its dotted suffix.\<close>

definition print_ipv6 :: "nat list \<times> string option \<Rightarrow> string" where
  "print_ipv6 a =
     (let gs = fst a;
          body = (if take 6 gs = [0, 0, 0, 0, 0, 65535]
                  then ''::ffff:'' @ print_ipv4 [gs ! 6 div 256, gs ! 6 mod 256, gs ! 7 div 256, gs ! 7 mod 256]
                  else print_groups gs)
      in case snd a of None \<Rightarrow> body | Some sc \<Rightarrow> body @ CHR ''%'' # sc)"

definition ip_address_str :: "string \<Rightarrow> string res" where
  "ip_address_str s =
     (case parse_ipv4 s of
        Some os \<Rightarrow> Ret (print_ipv4 os)
      | None \<Rightarrow> (case parse_ipv6 s of
          Some a \<Rightarrow> Ret (print_ipv6 a)
        | None \<Rightarrow> Raise (ValueError ''does not appear to be an IPv4 or IPv6 address'')))"

section \<open>Printing and parsing\<close>
lemma hex_of_nat_hex: "list_all is_hex (hex_of_nat n)"
proof (induction n rule: hex_of_nat.induct)
  case (1 n) then show ?case by (subst hex_of_nat.simps) (simp add: is_hex_def[of "hex_digit _"])
qed

lemma hex_of_nat_nonempty [simp]: "hex_of_nat n \<noteq> []"
  by (subst hex_of_nat.simps) simp

lemma nat_of_hex_of_nat [simp]: "nat_of_hex (hex_of_nat n) = n"
proof (induction n rule: hex_of_nat.induct)
  case (1 n) then show ?case by (subst hex_of_nat.simps) (auto simp: nat_of_hex_def)
qed

lemma length_hex_of_nat: "n < 16 ^ Suc k \<Longrightarrow> length (hex_of_nat n) \<le> Suc k"
proof (induction k arbitrary: n)
  case 0 then show ?case by (subst hex_of_nat.simps) simp
next
  case (Suc k)
  show ?case
  proof (cases "n < 16")
    case False
    have "n div 16 < 16 ^ Suc k" using Suc.prems by (simp add: less_mult_imp_div_less mult.commute)
    from Suc.IH[OF this] False show ?thesis by (subst hex_of_nat.simps) simp
  qed (subst hex_of_nat.simps, simp)
qed

lemma parse_hextet_print [simp]: "n < 65536 \<Longrightarrow> parse_hextet (hex_of_nat n) = Some n"
  using length_hex_of_nat[of n 3] hex_of_nat_hex[of n] by (simp add: parse_hextet_def)

lemma length_dec_of_nat: "n < 10 ^ Suc k \<Longrightarrow> length (dec_of_nat n) \<le> Suc k"
proof (induction k arbitrary: n)
  case 0 then show ?case by (subst dec_of_nat.simps) simp
next
  case (Suc k)
  show ?case
  proof (cases "n < 10")
    case False
    have "n div 10 < 10 ^ Suc k" using Suc.prems by (simp add: less_mult_imp_div_less mult.commute)
    from Suc.IH[OF this] False show ?thesis by (subst dec_of_nat.simps) simp
  qed (subst dec_of_nat.simps, simp)
qed

lemma dec_of_nat_no_leading_zero: "0 < n \<Longrightarrow> hd (dec_of_nat n) \<noteq> CHR ''0''"
proof (induction n rule: dec_of_nat.induct)
  case (1 n)
  show ?case
  proof (cases "n < 10")
    case True
    have "digit_val (digit_char n) = n" using True by simp
    then have "digit_char n \<noteq> CHR ''0''" using 1(2) by (auto simp: digit_val_def)
    then show ?thesis using True by (subst dec_of_nat.simps) simp
  next
    case False
    then have "0 < n div 10" by (simp add: div_greater_zero_iff)
    from 1(1)[OF False this] False show ?thesis by (subst dec_of_nat.simps) simp
  qed
qed

lemma parse_octet_print [simp]: "n < 256 \<Longrightarrow> parse_octet (dec_of_nat n) = Some n"
proof -
  assume n: "n < 256"
  have "list_all is_digit (dec_of_nat n)" using dec_of_nat_digits by (simp add: list_all_iff)
  moreover have "length (dec_of_nat n) \<le> 3" using length_dec_of_nat[of n 2] n by simp
  moreover have z: "nat_of_dec ''0'' = 0" by (simp add: nat_of_dec_def digit_val_def)
  moreover have "digit_char 0 = CHR ''0''" by (simp add: digit_char_def char_of_def bit_0)
  then have "dec_of_nat 0 = ''0''" by (simp add: dec_of_nat.simps)
  ultimately show ?thesis using n dec_of_nat_no_leading_zero[of n] z
    by (cases "n = 0") (auto simp: parse_octet_def dest: arg_cong[of _ _ nat_of_dec])
qed

lemma all_some_map: "(\<And>x. x \<in> set xs \<Longrightarrow> f x = Some (g x)) \<Longrightarrow> all_some (map f xs) = Some (map g xs)"
  by (induction xs) auto

lemma all_some_Some: "all_some xs = Some ys \<longleftrightarrow> xs = map Some ys"
proof (induction xs arbitrary: ys)
  case (Cons x xs) then show ?case by (cases x; cases ys) auto
qed auto

lemma parse_octet_range: "parse_octet s = Some n \<Longrightarrow> n < 256"
  by (auto simp: parse_octet_def split: if_splits)

lemma parse_ipv4_range: "parse_ipv4 s = Some os \<Longrightarrow> length os = 4 \<and> (\<forall>n\<in>set os. n < 256)"
proof -
  assume "parse_ipv4 s = Some os"
  then have "length (split_on CHR ''.'' s) = 4" and m: "map parse_octet (split_on CHR ''.'' s) = map Some os"
    by (auto simp: parse_ipv4_def Let_def all_some_Some split: if_splits)
  then have "length os = 4" by (metis length_map)
  moreover have "n < 256" if "n \<in> set os" for n
  proof -
    have "Some n \<in> set (map parse_octet (split_on CHR ''.'' s))" using that m by auto
    then show ?thesis using parse_octet_range by fastforce
  qed
  ultimately show ?thesis by blast
qed

lemma set_py_join: "set (py_join sep ws) \<subseteq> set sep \<union> \<Union> (set (map set ws))"
  by (induction sep ws rule: py_join.induct) auto

lemma digit_facts: "is_digit c \<Longrightarrow> c \<noteq> CHR ''.'' \<and> c \<noteq> CHR ''/'' \<and> c \<noteq> CHR ''%'' \<and> c \<noteq> CHR '':''"
  by (auto simp: is_digit_def)

lemma hex_facts: "is_hex c \<Longrightarrow> c \<noteq> CHR ''.'' \<and> c \<noteq> CHR ''/'' \<and> c \<noteq> CHR ''%'' \<and> c \<noteq> CHR '':'' \<and> \<not> is_space c"
  by (auto simp: is_hex_def hex_val_def is_space_def Let_def split: if_splits)

lemma print_ipv4_chars: "c \<in> set (print_ipv4 os) \<Longrightarrow> is_digit c \<or> c = CHR ''.''"
  using set_py_join[of "''.''" "map dec_of_nat os"] dec_of_nat_digits by (fastforce simp: print_ipv4_def)

lemma parse_print_ipv4:
  assumes "length os = 4" "\<forall>n\<in>set os. n < 256"
  shows "parse_ipv4 (print_ipv4 os) = Some os"
proof -
  have sp: "split_on CHR ''.'' (print_ipv4 os) = map dec_of_nat os"
    unfolding print_ipv4_def using assms(1) dec_of_nat_digits digit_facts
    by (intro split_on_join) auto
  have sl: "CHR ''/'' \<notin> set (print_ipv4 os)" using print_ipv4_chars digit_facts by fastforce
  have "all_some (map parse_octet (map dec_of_nat os)) = Some os"
    using assms(2) by (simp add: all_some_Some)
  then show ?thesis using sp sl assms(1) by (simp add: parse_ipv4_def)
qed

(* best run *)
definition zero_run :: "nat list \<Rightarrow> nat \<times> nat \<Rightarrow> bool" where
  "zero_run gs r \<longleftrightarrow> fst r + snd r \<le> length gs \<and> (\<forall>j. fst r \<le> j \<and> j < fst r + snd r \<longrightarrow> gs ! j = 0)"

lemma best_zero_run_sound:
  assumes "zero_run all best" "zero_run all cur" "snd cur = 0 \<or> fst cur + snd cur = i"
    "all = pre @ gs" "length pre = i"
  shows "zero_run all (best_zero_run i cur best gs)"
  using assms
proof (induction i cur best gs arbitrary: pre rule: best_zero_run.induct)
  case (2 i cs cl bs bl g gs)
  have l: "length all = i + Suc (length gs)" and g: "all ! i = g" using 2(6,7) by (auto simp: nth_append)
  have pre': "all = (pre @ [g]) @ gs" "length (pre @ [g]) = i + 1" using 2(6,7) by auto
  show ?case
  proof (cases "g = 0")
    case True
    define cs' where "cs' = (if cl = 0 then i else cs)"
    have run: "zero_run all (cs', cl + 1)"
      using 2(4,5) True l g unfolding zero_run_def cs'_def by (auto simp: less_Suc_eq)
    have "cs' + (cl + 1) = i + 1" using 2(5) by (auto simp: cs'_def)
    then show ?thesis using 2(1)[OF True _ _ _ _ _ pre'] True run 2(3)
      by (auto simp: cs'_def Let_def)
  next
    case False
    then show ?thesis using 2(2)[OF False 2(3) _ _ pre'] by (simp add: zero_run_def)
  qed
qed simp


lemma filter_eq_singleton: "1 \<le> m \<Longrightarrow> m < k \<Longrightarrow> filter (\<lambda>i. i = m) [1..<k] = [m]"
proof (induction k)
  case (Suc k)
  show ?case
  proof (cases "m = k")
    case True
    then show ?thesis using Suc.prems by (auto simp: filter_empty_conv)
  next
    case False
    then have "filter (\<lambda>i. i = m) [1..<k] = [m]" using Suc by simp
    then show ?thesis using Suc.prems False by simp
  qed
qed simp

lemma skip_positions_single:
  assumes "\<forall>w\<in>set A. w \<noteq> []" "\<forall>w\<in>set B. w \<noteq> []"
    and "P = (if A = [] then [[]] else [])" "S = (if B = [] then [[]] else [])"
  shows "skip_positions (P @ A @ [[]] @ B @ S) = [length P + length A]"
proof -
  let ?ps = "P @ A @ [[]] @ B @ S" and ?m = "length P + length A"
  have eq: "?ps ! i = [] \<longleftrightarrow> i = ?m" if "i \<in> set [1..<length ?ps - 1]" for i
  proof -
    consider "i < length P" | "length P \<le> i" "i < ?m" | "i = ?m" | "?m < i" "i < ?m + 1 + length B"
      | "?m + 1 + length B \<le> i" by linarith
    then show ?thesis
    proof cases
      case 1 then show ?thesis using that assms(3) by (auto split: if_splits)
    next
      case 2
      then have "i - length P < length A" by simp
      with 2 have "?ps ! i = A ! (i - length P)" by (simp add: nth_append)
      moreover have "A ! (i - length P) \<in> set A" using 2 by (intro nth_mem) simp
      ultimately show ?thesis using 2 assms(1) by auto
    next
      case 3 then show ?thesis by (simp add: nth_append)
    next
      case 4
      then have "i - ?m - 1 < length B" "\<not> i - length P < length A" "i - ?m = Suc (i - ?m - 1)" by linarith+
      with 4 have "?ps ! i = B ! (i - ?m - 1)" by (simp add: nth_append)
      moreover have "B ! (i - ?m - 1) \<in> set B" using 4 by (intro nth_mem) simp
      ultimately show ?thesis using 4 assms(2) by auto
    next
      case 5 then show ?thesis using that assms(4) by (auto split: if_splits)
    qed
  qed
  have "skip_positions ?ps = filter (\<lambda>i. i = ?m) [1..<length ?ps - 1]"
    unfolding skip_positions_def using eq by (rule filter_cong[OF refl])
  also have "\<dots> = [?m]"
    using assms(3,4) by (intro filter_eq_singleton) (auto simp: Suc_le_eq)
  finally show ?thesis .
qed

definition groups_ok :: "nat list \<Rightarrow> bool" where
  "groups_ok gs \<longleftrightarrow> length gs = 8 \<and> (\<forall>g\<in>set gs. g < 65536)"

lemma parse_hextets_print: "\<forall>g\<in>set gs. g < 65536 \<Longrightarrow> all_some (map parse_hextet (map hex_of_nat gs)) = Some gs"
  by (simp add: all_some_Some)

lemma hextets_of_compressed:
  assumes gs: "groups_ok gs" and run: "zero_run gs (st, n)" "0 < n"
    and ps: "ps = (if st = 0 then [[]] else []) @ map hex_of_nat (take st gs) @ [[]]
        @ map hex_of_nat (drop (st + n) gs) @ (if st + n = length gs then [[]] else [])"
  shows "hextets_of_parts ps = Some gs"
proof -
  define A where "A = map hex_of_nat (take st gs)"
  define B where "B = map hex_of_nat (drop (st + n) gs)"
  define P where "P = (if A = [] then [[]] else [] :: string list)"
  define S where "S = (if B = [] then [[]] else [] :: string list)"
  have len: "length gs = 8" "st + n \<le> 8" using gs run by (auto simp: groups_ok_def zero_run_def)
  have lenA: "length A = st" and lenB: "length B = 8 - (st + n)" using len by (auto simp: A_def B_def)
  have ps': "ps = P @ A @ [[]] @ B @ S"
    unfolding ps P_def S_def using lenA lenB len by (auto simp: A_def B_def)
  have ne: "\<forall>w\<in>set A. w \<noteq> []" "\<forall>w\<in>set B. w \<noteq> []" by (auto simp: A_def B_def)
  have skip: "skip_positions ps = [length P + length A]"
    unfolding ps' by (rule skip_positions_single[OF ne P_def S_def])
  have hd: "hd ps = [] \<longleftrightarrow> A = []" unfolding ps' P_def using ne by (cases A) auto
  have last: "last ps = [] \<longleftrightarrow> B = []" unfolding ps' S_def using ne by (cases B rule: rev_cases) auto
  have hi: "(if hd ps = [] then length P + length A - 1 else length P + length A) = st"
    unfolding hd using lenA by (auto simp: P_def)
  have lo: "(if last ps = [] then length ps - (length P + length A) - 2 else length ps - (length P + length A) - 1) = length B"
    unfolding last by (auto simp: S_def ps')
  have take: "take st ps = A" unfolding ps' P_def using lenA by (auto)
  have drop: "drop (length ps - length B) ps = B" unfolding ps' S_def by auto
  have "gs = take st gs @ take n (drop st gs) @ drop (st + n) gs"
    by (metis append_take_drop_id drop_drop add.commute)
  moreover have "take n (drop st gs) = replicate n 0"
  proof (rule nth_equalityI)
    show "length (take n (drop st gs)) = length (replicate n (0::nat))" using len by simp
    show "take n (drop st gs) ! i = replicate n 0 ! i" if "i < length (take n (drop st gs))" for i
      using that run(1) len by (simp add: zero_run_def)
  qed
  ultimately have split: "gs = take st gs @ replicate n 0 @ drop (st + n) gs" by simp
  have sub: "\<forall>g\<in>set (take st gs). g < 65536" "\<forall>g\<in>set (drop (st + n) gs). g < 65536"
    using gs by (auto simp: groups_ok_def dest: in_set_takeD in_set_dropD)
  have parsed: "all_some (map parse_hextet A) = Some (take st gs)"
    "all_some (map parse_hextet B) = Some (drop (st + n) gs)"
    unfolding A_def B_def using parse_hextets_print[OF sub(1)] parse_hextets_print[OF sub(2)] by simp_all
  have cond: "\<not> ((hd ps = [] \<and> st \<noteq> 0) \<or> (last ps = [] \<and> length B \<noteq> 0) \<or> 8 < st + length B + 1)"
    using hd last lenA lenB len run(2) by auto
  have "8 - (st + length B) = n" using lenB len by simp
  then show ?thesis
    unfolding hextets_of_parts_def skip using hi lo cond take drop parsed split
    by (simp add: Let_def)
qed

lemma hextets_of_compress: "groups_ok gs \<Longrightarrow> hextets_of_parts (compress_groups gs) = Some gs"
proof -
  assume gs: "groups_ok gs"
  obtain st n where r: "best_zero_run 0 (0, 0) (0, 0) gs = (st, n)" by fastforce
  have run: "zero_run gs (st, n)"
    using best_zero_run_sound[of gs "(0,0)" "(0,0)" 0 "[]" gs] r by (simp add: zero_run_def)
  show ?thesis
  proof (cases "n > 1")
    case True
    then show ?thesis using hextets_of_compressed[OF gs run] r by (simp add: compress_groups_def)
  next
    case False
    then have c: "compress_groups gs = map hex_of_nat gs" using r by (simp add: compress_groups_def)
    have "map hex_of_nat gs ! i \<noteq> []" if "i < length gs" for i using that by simp
    then have "skip_positions (map hex_of_nat gs) = []"
      using gs by (auto simp: skip_positions_def groups_ok_def filter_empty_conv)
    then show ?thesis using gs parse_hextets_print[of gs]
      by (simp add: hextets_of_parts_def c groups_ok_def)
  qed
qed

lemma compress_groups_parts:
  assumes "groups_ok gs"
  shows "3 \<le> length (compress_groups gs) \<and> length (compress_groups gs) \<le> 9 \<and>
    (\<forall>w\<in>set (compress_groups gs). list_all is_hex w)"
proof -
  obtain st n where r: "best_zero_run 0 (0, 0) (0, 0) gs = (st, n)" by fastforce
  have run: "zero_run gs (st, n)"
    using best_zero_run_sound[of gs "(0,0)" "(0,0)" 0 "[]" gs] r by (simp add: zero_run_def)
  then show ?thesis using r assms hex_of_nat_hex
    by (auto simp: compress_groups_def groups_ok_def zero_run_def)
qed

lemma print_groups_chars: "groups_ok gs \<Longrightarrow> c \<in> set (print_groups gs) \<Longrightarrow> is_hex c \<or> c = CHR '':''"
  using set_py_join[of "'':''" "compress_groups gs"] compress_groups_parts[of gs]
  by (fastforce simp: print_groups_def list_all_iff)

lemma split_print_groups: "groups_ok gs \<Longrightarrow> split_on CHR '':'' (print_groups gs) = compress_groups gs"
  unfolding print_groups_def using compress_groups_parts[of gs] hex_facts
  by (intro split_on_join) (fastforce simp: list_all_iff)+

lemma parse_print_groups:
  assumes gs: "groups_ok gs"
  shows "parse_ipv6_groups (print_groups gs) = Some gs"
proof -
  note c = compress_groups_parts[OF gs] 
  have s: "print_groups gs \<noteq> []"
  proof
    assume "print_groups gs = []"
    then have "compress_groups gs = [[]]" using split_print_groups[OF gs] by simp
    then show False using c by simp
  qed
  have "compress_groups gs \<noteq> []" using c by auto
  then have "last (compress_groups gs) \<in> set (compress_groups gs)" by (rule last_in_set)
  with c have "list_all is_hex (last (compress_groups gs))" by blast
  then have "CHR ''.'' \<notin> set (last (compress_groups gs))" using hex_facts by (auto simp: list_all_iff)
  then show ?thesis
    using split_print_groups[OF gs] c s hextets_of_compress[OF gs]
    by (simp add: parse_ipv6_groups_def expand_ipv4_suffix_def Let_def)
qed

lemma print_ipv4_dot: "length os = 4 \<Longrightarrow> CHR ''.'' \<in> set (print_ipv4 os)"
proof -
  assume "length os = 4"
  then obtain a b r where "os = a # b # r" by (metis length_0_conv length_Cons list.exhaust numeral_eq_iff one_eq_numeral_iff semiring_norm(83) zero_neq_numeral One_nat_def list.size(3))
  then show ?thesis by (cases r) (auto simp: print_ipv4_def)
qed

lemma parse_print_mapped:
  assumes gs: "groups_ok gs" and m: "take 6 gs = [0, 0, 0, 0, 0, 65535]"
    and os: "os = [gs ! 6 div 256, gs ! 6 mod 256, gs ! 7 div 256, gs ! 7 mod 256]"
  shows "parse_ipv6_groups (''::ffff:'' @ print_ipv4 os) = Some gs"
proof -
  have g: "gs ! 6 < 65536" "gs ! 7 < 65536" using gs by (auto simp: groups_ok_def)
  have gs': "gs = [0, 0, 0, 0, 0, 65535, gs ! 6, gs ! 7]"
  proof -
    have "drop 6 gs = gs ! 6 # drop 7 gs" "drop 7 gs = gs ! 7 # drop 8 gs"
      using gs Cons_nth_drop_Suc[of 6 gs] Cons_nth_drop_Suc[of 7 gs] by (simp_all add: groups_ok_def)
    then have "gs = take 6 gs @ [gs ! 6, gs ! 7]"
      using gs append_take_drop_id[of 6 gs] by (simp add: groups_ok_def)
    then show ?thesis using m by simp
  qed
  have rng: "length os = 4" "\<forall>n\<in>set os. n < 256" using g unfolding os by (auto simp: less_mult_imp_div_less)
  have v4: "parse_ipv4 (print_ipv4 os) = Some os" by (rule parse_print_ipv4[OF rng])
  have nc: "CHR '':'' \<notin> set (print_ipv4 os)" using print_ipv4_chars digit_facts by fastforce
  have sp: "split_on CHR '':'' (''::ffff:'' @ print_ipv4 os) = [[], [], ''ffff'', print_ipv4 os]"
    by (simp add: split_on_no_sep[OF nc])
  have ex: "expand_ipv4_suffix [[], [], ''ffff'', print_ipv4 os] = Some [[], [], ''ffff'', hex_of_nat (gs ! 6), hex_of_nat (gs ! 7)]"
    using print_ipv4_dot[OF rng(1)] v4 by (simp add: expand_ipv4_suffix_def os)
  have ff: "parse_hextet ''ffff'' = Some 65535"
    by (simp add: parse_hextet_def is_hex_def hex_val_def nat_of_hex_def)
  have rep: "replicate 5 (0::nat) = [0, 0, 0, 0, 0]" by (simp add: numeral_eq_Suc)
  have sk: "skip_positions [[], [], ''ffff'', hex_of_nat (gs ! 6), hex_of_nat (gs ! 7)] = [1]"
    by (simp add: skip_positions_def upt_rec)
  have "hextets_of_parts [[], [], ''ffff'', hex_of_nat (gs ! 6), hex_of_nat (gs ! 7)] = Some [0,0,0,0,0,65535, gs ! 6, gs ! 7]"
    unfolding hextets_of_parts_def sk using g ff rep by simp
  then show ?thesis using sp ex gs' by (simp add: parse_ipv6_groups_def)
qed

definition ipv6_ok :: "nat list \<times> string option \<Rightarrow> bool" where
  "ipv6_ok a \<longleftrightarrow> groups_ok (fst a) \<and>
     (case snd a of None \<Rightarrow> True | Some sc \<Rightarrow> sc \<noteq> [] \<and> CHR ''%'' \<notin> set sc \<and> CHR ''/'' \<notin> set sc)"

definition print_body :: "nat list \<Rightarrow> string" where
  "print_body gs = (if take 6 gs = [0, 0, 0, 0, 0, 65535]
                  then ''::ffff:'' @ print_ipv4 [gs ! 6 div 256, gs ! 6 mod 256, gs ! 7 div 256, gs ! 7 mod 256]
                  else print_groups gs)"

lemma print_ipv6_body: "print_ipv6 a = print_body (fst a) @ (case snd a of None \<Rightarrow> [] | Some sc \<Rightarrow> CHR ''%'' # sc)"
  by (simp add: print_ipv6_def print_body_def Let_def split: option.split)

lemma parse_print_body: "groups_ok gs \<Longrightarrow> parse_ipv6_groups (print_body gs) = Some gs"
  using parse_print_mapped[of gs] parse_print_groups[of gs] by (simp add: print_body_def)

lemma print_body_chars:
  "groups_ok gs \<Longrightarrow> c \<in> set (print_body gs) \<Longrightarrow> is_hex c \<or> c = CHR '':'' \<or> c = CHR ''.''"
proof -
  assume gs: "groups_ok gs" and c: "c \<in> set (print_body gs)"
  have d: "is_hex c" if "is_digit c" for c using that by (auto simp: is_digit_def is_hex_def hex_val_def Let_def)
  have f: "is_hex CHR ''f''" by (simp add: is_hex_def hex_val_def)
  show ?thesis
    using c print_groups_chars[OF gs] print_ipv4_chars d f by (auto simp: print_body_def split: if_splits)
qed

lemma print_body_colon: "groups_ok gs \<Longrightarrow> CHR '':'' \<in> set (print_body gs)"
proof (rule ccontr)
  assume gs: "groups_ok gs" and "CHR '':'' \<notin> set (print_body gs)"
  then have "split_on CHR '':'' (print_body gs) = [print_body gs]" by (simp add: split_on_no_sep)
  then show False using parse_print_body[OF gs] by (simp add: parse_ipv6_groups_def)
qed

lemma parse_ipv4_chars:
  assumes "parse_ipv4 s = Some os" "c \<in> set s"
  shows "is_digit c \<or> c = CHR ''.''"
proof -
  let ?ps = "split_on CHR ''.'' s"
  have m: "map parse_octet ?ps = map Some os"
    using assms(1) by (auto simp: parse_ipv4_def Let_def all_some_Some split: if_splits)
  have "parse_octet w \<noteq> None" if "w \<in> set ?ps" for w
  proof -
    have "parse_octet w \<in> set (map Some os)" using that m by (metis image_eqI set_map)
    then show ?thesis by auto
  qed
  then have "list_all is_digit w" if "w \<in> set ?ps" for w
    using that by (fastforce simp: parse_octet_def split: if_splits)
  moreover have "c \<in> {CHR ''.''} \<union> \<Union> (set (map set ?ps))"
    using set_py_join[of "''.''" ?ps] assms(2) by (auto simp: join_split_on)
  ultimately show ?thesis by (auto simp: list_all_iff)
qed

lemma parse_print_ipv6:
  assumes "ipv6_ok a"
  shows "parse_ipv4 (print_ipv6 a) = None \<and> parse_ipv6 (print_ipv6 a) = Some a"
proof -
  let ?b = "print_body (fst a)"
  have gs: "groups_ok (fst a)" using assms by (simp add: ipv6_ok_def)
  have b: "CHR ''/'' \<notin> set ?b" "CHR ''%'' \<notin> set ?b"
    using print_body_chars[OF gs] hex_facts by fastforce+
  have "parse_ipv4 (print_ipv6 a) = None"
    using parse_ipv4_chars[of "print_ipv6 a" _ "CHR '':''"] print_body_colon[OF gs] digit_facts
    by (cases "parse_ipv4 (print_ipv6 a)") (auto simp: print_ipv6_body)
  moreover have "parse_ipv6 (print_ipv6 a) = Some a"
  proof (cases "snd a")
    case None
    then show ?thesis using b parse_print_body[OF gs]
      by (cases a) (simp add: parse_ipv6_def print_ipv6_body split_scope_def split_on_no_sep)
  next
    case (Some sc)
    then have "sc \<noteq> []" "CHR ''%'' \<notin> set sc" "CHR ''/'' \<notin> set sc" using assms by (auto simp: ipv6_ok_def)
    then show ?thesis using Some b parse_print_body[OF gs]
      by (cases a) (simp add: parse_ipv6_def print_ipv6_body split_scope_def split_on_append split_on_no_sep)
  qed
  ultimately show ?thesis ..
qed

lemma nat_of_hex_bound: "list_all is_hex s \<Longrightarrow> nat_of_hex s < 16 ^ length s"
proof (induction s rule: rev_induct)
  case (snoc c s)
  have "the (hex_val c) < 16" using snoc.prems
    by (auto simp: is_hex_def hex_val_def Let_def split: if_splits)
  then show ?case using snoc by (simp add: nat_of_hex_def)
qed (simp add: nat_of_hex_def)

lemma parse_hextet_range: "parse_hextet s = Some n \<Longrightarrow> n < 65536"
proof -
  assume a: "parse_hextet s = Some n"
  then have "n < 16 ^ length s" "length s \<le> 4"
    using nat_of_hex_bound by (auto simp: parse_hextet_def split: if_splits)
  then show ?thesis using power_increasing[of "length s" 4 "16::nat"] by simp
qed

lemma all_some_hextets: "all_some (map parse_hextet ws) = Some gs \<Longrightarrow> length gs = length ws \<and> (\<forall>g\<in>set gs. g < 65536)"
proof -
  assume "all_some (map parse_hextet ws) = Some gs"
  then have m: "map parse_hextet ws = map Some gs" by (simp add: all_some_Some)
  have "g < 65536" if "g \<in> set gs" for g
  proof -
    have "Some g \<in> set (map parse_hextet ws)" using that m by auto
    then show ?thesis using parse_hextet_range by fastforce
  qed
  moreover have "length gs = length ws" using m by (metis length_map)
  ultimately show ?thesis by blast
qed

lemma hextets_of_parts_ok: "hextets_of_parts ps = Some gs \<Longrightarrow> groups_ok gs"
proof -
  assume a: "hextets_of_parts ps = Some gs"
  consider "skip_positions ps = []" | i where "skip_positions ps = [i]" | i j r where "skip_positions ps = i # j # r"
    by (metis neq_Nil_conv)
  then show ?thesis
  proof cases
    case 1
    then show ?thesis using a all_some_hextets[of ps gs]
      by (simp add: hextets_of_parts_def groups_ok_def split: if_splits)
  next
    case (2 i)
    then have "i \<in> set (skip_positions ps)" by simp
    then have i: "i < length ps - 1" by (simp add: skip_positions_def)
    define hi where "hi = (if hd ps = [] then i - 1 else i)"
    define lo where "lo = (if last ps = [] then length ps - i - 2 else length ps - i - 1)"
    obtain as bs where ab: "all_some (map parse_hextet (take hi ps)) = Some as"
      "all_some (map parse_hextet (drop (length ps - lo) ps)) = Some bs"
      "gs = as @ replicate (8 - (hi + lo)) 0 @ bs" "\<not> 8 < hi + lo + 1"
      using a unfolding hextets_of_parts_def 2 hi_def[symmetric] lo_def[symmetric] Let_def list.case
      by (auto split: if_splits option.splits)
    have "length as = hi" "length bs = lo" "\<forall>g\<in>set as. g < 65536" "\<forall>g\<in>set bs. g < 65536"
      using all_some_hextets[OF ab(1)] all_some_hextets[OF ab(2)] i by (auto simp: hi_def lo_def)
    then show ?thesis using ab(3,4) by (auto simp: groups_ok_def)
  next
    case 3 then show ?thesis using a by (simp add: hextets_of_parts_def)
  qed
qed

lemma parse_ipv6_ok: "parse_ipv6 s = Some a \<Longrightarrow> ipv6_ok a"
proof -
  assume a: "parse_ipv6 s = Some a"
  then obtain h sc where h: "split_scope s = Some (h, sc)" "parse_ipv6_groups h = Some (fst a)" "snd a = sc" "CHR ''/'' \<notin> set s"
    by (auto simp: parse_ipv6_def split: if_splits option.splits)
  have "groups_ok (fst a)" using h(2) hextets_of_parts_ok
    by (auto simp: parse_ipv6_groups_def Let_def split: if_splits option.splits)
  moreover have "case sc of None \<Rightarrow> True | Some x \<Rightarrow> x \<noteq> [] \<and> CHR ''%'' \<notin> set x \<and> CHR ''/'' \<notin> set x"
    using h(1,4) split_on_words[of _ "CHR ''%''" s]
    by (fastforce simp: split_scope_def split: list.splits if_splits)
  ultimately show ?thesis using h(3) by (simp add: ipv6_ok_def)
qed

theorem ip_address_str_fixed: "ip_address_str s = Ret t \<Longrightarrow> ip_address_str t = Ret t"
proof -
  assume a: "ip_address_str s = Ret t"
  show ?thesis
  proof (cases "parse_ipv4 s")
    case (Some os)
    then show ?thesis using a parse_print_ipv4[of os] parse_ipv4_range[OF Some]
      by (auto simp: ip_address_str_def)
  next
    case None
    then obtain x where "parse_ipv6 s = Some x" "t = print_ipv6 x"
      using a by (auto simp: ip_address_str_def split: option.splits)
    then show ?thesis using parse_print_ipv6[OF parse_ipv6_ok] by (simp add: ip_address_str_def)
  qed
qed

lemma scope_suffix: "split_scope s = Some (h, Some sc) \<Longrightarrow> s = h @ CHR ''%'' # sc"
proof -
  assume "split_scope s = Some (h, Some sc)"
  then have "split_on CHR ''%'' s = [h, sc]" by (auto simp: split_scope_def split: list.splits if_splits)
  then show ?thesis using join_split_on[of "CHR ''%''" s] by simp
qed

theorem ip_address_str_stripped:
  assumes "ip_address_str (py_strip s) = Ret t"
  shows "py_strip t = t"
proof (cases "parse_ipv4 (py_strip s)")
  case (Some os)
  then have "t = print_ipv4 os" using assms by (simp add: ip_address_str_def)
  then show ?thesis using print_ipv4_chars digit_not_space
    by (intro py_strip_no_space) (auto simp: is_space_def dest!: print_ipv4_chars)
next
  case None
  then obtain x where x: "parse_ipv6 (py_strip s) = Some x" "t = print_ipv6 x"
    using assms by (auto simp: ip_address_str_def split: option.splits)
  have gs: "groups_ok (fst x)" using parse_ipv6_ok[OF x(1)] by (simp add: ipv6_ok_def)
  have ns: "\<not> is_space c" if "c \<in> set (print_body (fst x))" for c
    using print_body_chars[OF gs that] hex_facts by (auto simp: is_space_def)
  have ne: "print_body (fst x) \<noteq> []" using print_body_colon[OF gs] by auto
  then have h: "\<not> is_space (hd t)" using ns x(2) by (auto simp: print_ipv6_body)
  have "\<not> is_space (last t)"
  proof (cases "snd x")
    case None
    then show ?thesis using x(2) ns ne by (simp add: print_ipv6_body)
  next
    case (Some sc)
    then obtain h where "split_scope (py_strip s) = Some (h, Some sc)"
      using x(1) by (auto simp: parse_ipv6_def split: if_splits option.splits)
    from scope_suffix[OF this] have st: "py_strip s = h @ CHR ''%'' # sc" .
    have "sc \<noteq> []" using parse_ipv6_ok[OF x(1)] Some by (simp add: ipv6_ok_def)
    then have "last t = last (py_strip s)" using Some x(2) st by (simp add: print_ipv6_body)
    then show ?thesis using py_strip_ends[of s] st by auto
  qed
  with h show ?thesis by (intro py_strip_id) simp
qed

end
