(* ===== verification/Url.thy ===== *)
theory Url
  imports IpAddress
begin

text \<open>
  \<open>urlparse\<close> and \<open>urlunparse\<close> of the standard library, as far as \<open>canonical_uri\<close> in
  \<open>models/endpoint.py\<close> uses them (text argument, no default scheme, fragments allowed).
\<close>

definition remove_chars :: "char list \<Rightarrow> string \<Rightarrow> string" where
  "remove_chars cs s = filter (\<lambda>c. c \<notin> set cs) s"

text \<open>\<open>s.partition(c)\<close> without the separator, and whether it was found.\<close>

definition partition_at :: "char \<Rightarrow> string \<Rightarrow> string \<times> bool \<times> string" where
  "partition_at c s = (let a = takeWhile (\<lambda>x. x \<noteq> c) s; r = dropWhile (\<lambda>x. x \<noteq> c) s in
     (a, r \<noteq> [], tl r))"

definition is_alpha :: "char \<Rightarrow> bool" where
  "is_alpha c = (let n = of_char c :: nat in (65 \<le> n \<and> n \<le> 90) \<or> (97 \<le> n \<and> n \<le> 122))"

definition is_scheme_char :: "char \<Rightarrow> bool" where
  "is_scheme_char c = (is_alpha c \<or> is_digit c \<or> c = CHR ''+'' \<or> c = CHR ''-'' \<or> c = CHR ''.'')"

definition is_c0_or_space :: "char \<Rightarrow> bool" where
  "is_c0_or_space c = ((of_char c :: nat) \<le> 32)"

record url_parts =
  u_scheme :: string
  u_netloc :: string
  u_path :: string
  u_query :: string

definition split_scheme :: "string \<Rightarrow> string \<times> string" where
  "split_scheme url = (let (s, found, rest) = partition_at CHR '':'' url in
     if found \<and> s \<noteq> [] \<and> is_alpha (hd s) \<and> list_all is_scheme_char s then (py_lower s, rest) else ([], url))"

definition is_netloc_end :: "char \<Rightarrow> bool" where
  "is_netloc_end c = (c = CHR ''/'' \<or> c = CHR ''?'' \<or> c = CHR ''#'')"

definition after_last_at :: "string \<Rightarrow> string" where
  "after_last_at s = rev (takeWhile (\<lambda>c. c \<noteq> CHR ''@'') (rev s))"

text \<open>A bracketed host is an IPv6 literal or \<open>v\<close>, hexadecimal digits, a dot and at least one
  character that is not a line break.\<close>

definition bracketed_host_ok :: "string \<Rightarrow> bool" where
  "bracketed_host_ok h =
     (case h of
        c # r \<Rightarrow> if c = CHR ''v''
                 then (let ds = takeWhile is_hex r; rest = dropWhile is_hex r in
                       ds \<noteq> [] \<and> (case rest of d # t \<Rightarrow> d = CHR ''.'' \<and> t \<noteq> [] \<and> CHR 0x0A \<notin> set t | [] \<Rightarrow> False))
                 else parse_ipv4 h = None \<and> parse_ipv6 h \<noteq> None
      | [] \<Rightarrow> False)"

definition bracketed_netloc_ok :: "string \<Rightarrow> bool" where
  "bracketed_netloc_ok netloc =
     (let hp = after_last_at netloc; (pre, have_open, bracketed) = partition_at CHR ''['' hp in
      if have_open
      then (let (host, _, port) = partition_at CHR '']'' bracketed in
            pre = [] \<and> (port = [] \<or> hd port = CHR '':'') \<and> bracketed_host_ok host)
      else bracketed_host_ok (fst (partition_at CHR '':'' hp)))"

definition netloc_ok :: "string \<Rightarrow> bool" where
  "netloc_ok n = (let opn = CHR ''['' \<in> set n; cl = CHR '']'' \<in> set n in
     opn = cl \<and> (opn \<longrightarrow> bracketed_netloc_ok n))"

definition uses_params :: "string list" where
  "uses_params = [[], ''ftp'', ''hdl'', ''prospero'', ''http'', ''https'', ''shttp'', ''rtsp'', ''rtsps'',
     ''rtspu'', ''sip'', ''sips'', ''mms'', ''sftp'', ''tel'']"

definition uses_netloc :: "string list" where
  "uses_netloc = [[], ''ftp'', ''http'', ''gopher'', ''nntp'', ''telnet'', ''imap'', ''wais'', ''file'', ''mms'',
     ''https'', ''shttp'', ''snews'', ''prospero'', ''rtsp'', ''rtsps'', ''rtspu'', ''rsync'', ''svn'',
     ''svn+ssh'', ''sftp'', ''nfs'', ''git'', ''git+ssh'', ''ws'', ''wss'', ''itms-services'']"

text \<open>The path without the parameters of its last segment.\<close>

definition drop_params :: "string \<Rightarrow> string" where
  "drop_params p =
     (let last_seg = rev (takeWhile (\<lambda>c. c \<noteq> CHR ''/'') (rev p));
          pre = rev (dropWhile (\<lambda>c. c \<noteq> CHR ''/'') (rev p))
      in pre @ takeWhile (\<lambda>c. c \<noteq> CHR '';'') last_seg)"

definition urlparse :: "string \<Rightarrow> url_parts res" where
  "urlparse s =
     (let s1 = remove_chars [CHR 0x09, CHR 0x0D, CHR 0x0A] (dropWhile is_c0_or_space s);
          (scheme, s2) = split_scheme s1;
          has_loc = starts_with s2 ''//'';
          netloc = (if has_loc then takeWhile (\<lambda>c. \<not> is_netloc_end c) (drop 2 s2) else []);
          s3 = (if has_loc then dropWhile (\<lambda>c. \<not> is_netloc_end c) (drop 2 s2) else s2);
          s4 = fst (partition_at CHR ''#'' s3);
          (path, _, query) = partition_at CHR ''?'' s4
      in if has_loc \<and> \<not> netloc_ok netloc then Raise (ValueError ''Invalid IPv6 URL'')
         else Ret \<lparr>u_scheme = scheme, u_netloc = netloc,
                   u_path = (if scheme \<in> set uses_params then drop_params path else path),
                   u_query = query\<rparr>)"

definition urlunparse :: "url_parts \<Rightarrow> string" where
  "urlunparse u =
     (let p = u_path u;
          p1 = (if u_netloc u \<noteq> [] then ''//'' @ u_netloc u @ (if p \<noteq> [] \<and> hd p \<noteq> CHR ''/'' then CHR ''/'' # p else p)
                else if starts_with p ''//'' then ''//'' @ p
                else if u_scheme u \<noteq> [] \<and> u_scheme u \<in> set uses_netloc \<and> (p = [] \<or> hd p = CHR ''/'')
                then ''//'' @ p else p);
          p2 = (if u_scheme u \<noteq> [] then u_scheme u @ CHR '':'' # p1 else p1)
      in if u_query u \<noteq> [] then p2 @ CHR ''?'' # u_query u else p2)"

end
