(* ===== verification/Base64.thy ===== *)
theory Base64
  imports PyBytes
begin

text \<open>
  \<open>base64.b64encode\<close> and \<open>base64.b64decode\<close> of the standard library.  The decoder is
  CPython's state machine: \<open>q\<close> is the position in the current group of four, \<open>l\<close> the
  bits left over from the previous character, \<open>p\<close> the number of padding characters seen.
\<close>

definition b64_char :: "nat \<Rightarrow> char" where
  "b64_char v = (if v < 26 then char_of (65 + v) else if v < 52 then char_of (71 + v)
     else if v < 62 then char_of (v - 4) else if v = 62 then CHR ''+'' else CHR ''/'')"

definition b64_index :: "char \<Rightarrow> nat option" where
  "b64_index c = (let n = of_char c :: nat in
     if 65 \<le> n \<and> n \<le> 90 then Some (n - 65)
     else if 97 \<le> n \<and> n \<le> 122 then Some (n - 71)
     else if 48 \<le> n \<and> n \<le> 57 then Some (n + 4)
     else if n = 43 then Some 62 else if n = 47 then Some 63 else None)"

fun b64encode :: "bytes \<Rightarrow> string" where
  "b64encode [] = []"
| "b64encode [a] =
     [b64_char (unat a div 4), b64_char (unat a mod 4 * 16), CHR ''='', CHR ''='']"
| "b64encode [a, b] =
     [b64_char (unat a div 4), b64_char (unat a mod 4 * 16 + unat b div 16),
      b64_char (unat b mod 16 * 4), CHR ''='']"
| "b64encode (a # b # c # bs) =
     [b64_char (unat a div 4), b64_char (unat a mod 4 * 16 + unat b div 16),
      b64_char (unat b mod 16 * 4 + unat c div 64), b64_char (unat c mod 64)] @ b64encode bs"

fun a2b_base64 :: "nat \<Rightarrow> nat \<Rightarrow> nat \<Rightarrow> string \<Rightarrow> bytes res" where
  "a2b_base64 q l p [] = (if q = 0 then Ret [] else Raise (ValueError ''Incorrect padding''))"
| "a2b_base64 q l p (c # cs) =
     (if c = CHR ''='' then
        (if 2 \<le> q then (if 4 \<le> q + (p + 1) then Ret [] else a2b_base64 q l (p + 1) cs)
         else a2b_base64 q l p cs)
      else case b64_index c of
        None \<Rightarrow> a2b_base64 q l p cs
      | Some v \<Rightarrow>
          (if q = 0 then a2b_base64 1 v 0 cs
           else if q = 1 then
             bind_res (a2b_base64 2 (v mod 16) 0 cs) (\<lambda>r. Ret (of_nat (4 * l + v div 16) # r))
           else if q = 2 then
             bind_res (a2b_base64 3 (v mod 4) 0 cs) (\<lambda>r. Ret (of_nat (16 * l + v div 4) # r))
           else
             bind_res (a2b_base64 0 0 0 cs) (\<lambda>r. Ret (of_nat (64 * l + v) # r))))"

definition is_ascii :: "string \<Rightarrow> bool" where
  "is_ascii s = list_all (\<lambda>c. (of_char c :: nat) < 128) s"

definition b64decode :: "string \<Rightarrow> bytes res" where
  "b64decode s = (if is_ascii s then a2b_base64 0 0 0 s
     else Raise (ValueError ''string argument should contain only ASCII characters''))"

lemma b64_index_char [simp]: "v < 64 \<Longrightarrow> b64_index (b64_char v) = Some v"
  by (auto simp: b64_index_def b64_char_def Let_def)

lemma b64_char_not_pad [simp]: "v < 64 \<Longrightarrow> b64_char v \<noteq> CHR ''=''"
proof
  assume "v < 64" "b64_char v = CHR ''=''"
  then have "b64_index (CHR ''='') = Some v" using b64_index_char[of v] by simp
  then show False by (simp add: b64_index_def)
qed

lemma b64_char_ascii: "v < 64 \<Longrightarrow> (of_char (b64_char v) :: nat) < 128"
  by (auto simp: b64_char_def)

lemma unat8_parts [simp]:
  "unat (b :: byte) div 4 < 64" "unat b div 16 < 16" "unat b div 64 < 4"
  "unat b mod 4 * 16 < 64" "unat b mod 16 * 4 < 64"
  by (simp_all add: less_mult_imp_div_less)

lemma sextet_bounds [simp]:
  "x mod 4 * 16 + unat (b :: byte) div 16 < 64"
  "x mod 16 * 4 + unat b div 64 < 64"
proof -
  have "x mod 4 \<le> 3" "x mod 16 \<le> 15" by (simp_all add: less_Suc_eq_le[symmetric])
  moreover have "unat b div 16 < 16" "unat b div 64 < 4" by simp_all
  ultimately show "x mod 4 * 16 + unat b div 16 < 64" "x mod 16 * 4 + unat b div 64 < 64"
    by linarith+
qed

lemma sextet_recombine [simp]:
  "(x mod 4 * 16 + unat (b :: byte) div 16) div 16 = x mod 4"
  "(x mod 4 * 16 + unat b div 16) mod 16 = unat b div 16"
  "(x mod 16 * 4 + unat b div 64) div 4 = x mod 16"
  "(x mod 16 * 4 + unat b div 64) mod 4 = unat b div 64"
  by simp_all

lemma byte_recombine [simp]:
  "4 * (unat (b :: byte) div 4) + unat b mod 4 = unat b"
  "16 * (unat b div 16) + unat b mod 16 = unat b"
  "64 * (unat b div 64) + unat b mod 64 = unat b"
  by simp_all

theorem a2b_b64encode: "a2b_base64 0 0 0 (b64encode bs) = Ret bs"
proof (induction bs rule: b64encode.induct)
  case (2 a)
  then show ?case by simp
next
  case (3 a b)
  then show ?case by (simp del: of_nat_add)
next
  case (4 a b c bs)
  then show ?case by (simp del: of_nat_add)
qed simp

lemma is_ascii_b64encode: "is_ascii (b64encode bs)"
  by (induction bs rule: b64encode.induct) (simp_all add: is_ascii_def b64_char_ascii)

lemma b64decode_encode [simp]: "b64decode (b64encode bs) = Ret bs"
  by (simp add: b64decode_def is_ascii_b64encode a2b_b64encode)

lemma b64encode_inj: "b64encode a = b64encode b \<Longrightarrow> a = b"
  by (metis b64decode_encode sum.inject(2))

end
