(* ===== verification/Sha256.thy ===== *)
theory Sha256
  imports PyBytes
begin

text \<open>
  \<open>hashlib.sha256\<close> (FIPS 180-4) and \<open>hmac.new(key, msg, sha256).digest()\<close> (RFC 2104) of
  the standard library, on lists of bytes.
\<close>

section \<open>Round functions and constants\<close>

type_synonym w32 = "32 word"
type_synonym sha_state = "w32 \<times> w32 \<times> w32 \<times> w32 \<times> w32 \<times> w32 \<times> w32 \<times> w32"

definition rotr :: "nat \<Rightarrow> w32 \<Rightarrow> w32" where
  "rotr n w = drop_bit n w OR push_bit (32 - n) w"

definition sha_big0 :: "w32 \<Rightarrow> w32" where "sha_big0 a = rotr 2 a XOR rotr 13 a XOR rotr 22 a"
definition sha_big1 :: "w32 \<Rightarrow> w32" where "sha_big1 e = rotr 6 e XOR rotr 11 e XOR rotr 25 e"
definition sha_small0 :: "w32 \<Rightarrow> w32" where "sha_small0 x = rotr 7 x XOR rotr 18 x XOR drop_bit 3 x"
definition sha_small1 :: "w32 \<Rightarrow> w32" where "sha_small1 x = rotr 17 x XOR rotr 19 x XOR drop_bit 10 x"
definition sha_ch :: "w32 \<Rightarrow> w32 \<Rightarrow> w32 \<Rightarrow> w32" where "sha_ch e f g = (e AND f) XOR (NOT e AND g)"
definition sha_maj :: "w32 \<Rightarrow> w32 \<Rightarrow> w32 \<Rightarrow> w32" where
  "sha_maj a b c = (a AND b) XOR (a AND c) XOR (b AND c)"

definition sha_k :: "w32 list" where
  "sha_k =
    [1116352408, 1899447441, 3049323471, 3921009573, 961987163, 1508970993, 2453635748, 2870763221,
     3624381080, 310598401, 607225278, 1426881987, 1925078388, 2162078206, 2614888103, 3248222580,
     3835390401, 4022224774, 264347078, 604807628, 770255983, 1249150122, 1555081692, 1996064986,
     2554220882, 2821834349, 2952996808, 3210313671, 3336571891, 3584528711, 113926993, 338241895,
     666307205, 773529912, 1294757372, 1396182291, 1695183700, 1986661051, 2177026350, 2456956037,
     2730485921, 2820302411, 3259730800, 3345764771, 3516065817, 3600352804, 4094571909, 275423344,
     430227734, 506948616, 659060556, 883997877, 958139571, 1322822218, 1537002063, 1747873779,
     1955562222, 2024104815, 2227730452, 2361852424, 2428436474, 2756734187, 3204031479, 3329325298]"

definition sha_init :: sha_state where
  "sha_init = (1779033703, 3144134277, 1013904242, 2773480762, 1359893119, 2600822924, 528734635, 1541459225)"

section \<open>Message schedule, compression, padding\<close>

text \<open>The schedule is kept newest word first: \<open>ws ! 1\<close> is \<open>W[t-2]\<close>, \<open>ws ! 15\<close> is \<open>W[t-16]\<close>.\<close>

fun sha_schedule :: "nat \<Rightarrow> w32 list \<Rightarrow> w32 list" where
  "sha_schedule 0 ws = rev ws"
| "sha_schedule (Suc n) ws =
     sha_schedule n ((sha_small1 (ws ! 1) + ws ! 6 + sha_small0 (ws ! 14) + ws ! 15) # ws)"

fun sha_t1 :: "w32 \<Rightarrow> w32 \<Rightarrow> sha_state \<Rightarrow> w32" where
  "sha_t1 k w (a, b, c, d, e, f, g, h) = h + sha_big1 e + sha_ch e f g + k + w"

fun sha_t2 :: "sha_state \<Rightarrow> w32" where
  "sha_t2 (a, b, c, d, e, f, g, h) = sha_big0 a + sha_maj a b c"

fun sha_mix :: "w32 \<Rightarrow> w32 \<Rightarrow> sha_state \<Rightarrow> sha_state" where
  "sha_mix t1 t2 (a, b, c, d, e, f, g, h) = (t1 + t2, a, b, c, d + t1, e, f, g)"

fun sha_rounds :: "w32 list \<Rightarrow> w32 list \<Rightarrow> sha_state \<Rightarrow> sha_state" where
  "sha_rounds (k # ks) (w # ws) s = sha_rounds ks ws (sha_mix (sha_t1 k w s) (sha_t2 s) s)"
| "sha_rounds _ _ s = s"

fun sha_add :: "sha_state \<Rightarrow> sha_state \<Rightarrow> sha_state" where
  "sha_add (a, b, c, d, e, f, g, h) (a', b', c', d', e', f', g', h') =
     (a + a', b + b', c + c', d + d', e + e', f + f', g + g', h + h')"

fun be_words :: "bytes \<Rightarrow> w32 list" where
  "be_words (a # b # c # d # bs) =
     of_nat (16777216 * unat a + 65536 * unat b + 256 * unat c + unat d) # be_words bs"
| "be_words _ = []"

definition sha_block :: "sha_state \<Rightarrow> bytes \<Rightarrow> sha_state" where
  "sha_block s blk = sha_add s (sha_rounds sha_k (sha_schedule 48 (rev (be_words blk))) s)"

definition sha_pad :: "bytes \<Rightarrow> bytes" where
  "sha_pad m = (let n = length m; z = (119 - n mod 64) mod 64 in
     m @ [128] @ replicate z 0 @ map (\<lambda>i. of_nat (8 * n div 256 ^ (7 - i))) [0..<8])"

function sha_blocks :: "sha_state \<Rightarrow> bytes \<Rightarrow> sha_state" where
  "sha_blocks s m = (if length m < 64 then s else sha_blocks (sha_block s (take 64 m)) (drop 64 m))"
  by pat_completeness auto
termination by (relation "measure (\<lambda>(s, m). length m)") auto

declare sha_blocks.simps [simp del]

definition word_bytes :: "w32 \<Rightarrow> bytes" where
  "word_bytes w = [of_nat (unat w div 16777216), of_nat (unat w div 65536), of_nat (unat w div 256), of_nat (unat w)]"

fun sha_digest :: "sha_state \<Rightarrow> bytes" where
  "sha_digest (a, b, c, d, e, f, g, h) = concat (map word_bytes [a, b, c, d, e, f, g, h])"

definition sha256 :: "bytes \<Rightarrow> bytes" where
  "sha256 m = sha_digest (sha_blocks sha_init (sha_pad m))"

lemma length_sha_pad: "length (sha_pad m) mod 64 = 0"
proof -
  let ?n = "length m" and ?r = "length m mod 64"
  have len: "length (sha_pad m) = ?n + (9 + (119 - ?r) mod 64)"
    by (simp add: sha_pad_def Let_def)
  have "?r + (9 + (119 - ?r) mod 64) = 64 \<or> ?r + (9 + (119 - ?r) mod 64) = 128"
  proof (cases "?r \<le> 55")
    case True
    then have "(119 - ?r) mod 64 = (119 - ?r - 64) mod 64" by (intro le_mod_geq) simp
    also have "\<dots> = 55 - ?r" by simp
    finally show ?thesis using True by simp
  next
    case False
    moreover have "?r < 64" by simp
    ultimately show ?thesis by simp
  qed
  moreover have "x mod 64 = 0" if "x = 64 \<or> x = 128" for x :: nat
    using that by auto
  ultimately have "(?r + (9 + (119 - ?r) mod 64)) mod 64 = 0" by blast
  then show ?thesis unfolding len by (metis mod_add_left_eq)
qed

lemma length_sha_digest: "length (sha_digest s) = 32"
  by (cases s rule: sha_digest.cases) (simp add: word_bytes_def)

lemma length_sha256 [simp]: "length (sha256 m) = 32"
  by (simp add: sha256_def length_sha_digest)

section \<open>HMAC\<close>

definition hmac_sha256 :: "bytes \<Rightarrow> bytes \<Rightarrow> bytes" where
  "hmac_sha256 key msg =
     (let k0 = (if length key > 64 then sha256 key else key);
          k = k0 @ replicate (64 - length k0) 0
      in sha256 (map (\<lambda>b. b XOR 92) k @ sha256 (map (\<lambda>b. b XOR 54) k @ msg)))"

lemma length_hmac_sha256 [simp]: "length (hmac_sha256 key msg) = 32"
  by (simp add: hmac_sha256_def Let_def)

end
