(* ===== verification/Json.thy ===== *)
theory Json
  imports Base64 Sha256
begin

text \<open>
  JSON values as the program handles them (\<open>dict\<close>, \<open>list\<close>, \<open>str\<close>, \<open>int\<close>, \<open>bool\<close> and
  \<open>None\<close>; no floating-point numbers), \<open>json.dumps\<close> with \<open>ensure_ascii=False\<close> and compact
  separators, and \<open>crypto/canonical_json.py\<close>.  The main results: the compact text of a
  value determines the value, and hence the canonical bytes determine the value up to key
  order and up to the members named \<open>signature\<close>.
\<close>

section \<open>Values\<close>

datatype json =
    JNull
  | JBool bool
  | JInt int
  | JStr string
  | JArr "json list"
  | JObj "(string \<times> json) list"

type_synonym jdict = "(string, json) dict"

text \<open>Python truth values.\<close>

fun truthy :: "json \<Rightarrow> bool" where
  "truthy JNull = False"
| "truthy (JBool b) = b"
| "truthy (JInt i) = (i \<noteq> 0)"
| "truthy (JStr s) = (s \<noteq> [])"
| "truthy (JArr xs) = (xs \<noteq> [])"
| "truthy (JObj d) = (d \<noteq> [])"

text \<open>\<open>d.get(key, default)\<close>, \<open>d.get(key)\<close>, \<open>d[key]\<close> and \<open>a or b\<close>.\<close>

definition jget :: "jdict \<Rightarrow> string \<Rightarrow> json \<Rightarrow> json" where
  "jget d k dflt = (case dict_get d k of None \<Rightarrow> dflt | Some v \<Rightarrow> v)"

abbreviation jget0 :: "jdict \<Rightarrow> string \<Rightarrow> json" where
  "jget0 d k \<equiv> jget d k JNull"

definition jitem :: "jdict \<Rightarrow> string \<Rightarrow> json res" where
  "jitem d k = (case dict_get d k of None \<Rightarrow> Raise (KeyError k) | Some v \<Rightarrow> Ret v)"

definition jor :: "json \<Rightarrow> json \<Rightarrow> json" where
  "jor a b = (if truthy a then a else b)"

text \<open>Uses of a value that raise when it has another type: a \<open>str\<close> method, a \<open>dict\<close> method,
  iteration, \<open>int(\<dots>)\<close>.\<close>

fun as_str :: "json \<Rightarrow> string res" where
  "as_str (JStr s) = Ret s"
| "as_str _ = Raise (AttributeError ''not a str'')"

fun as_dict :: "json \<Rightarrow> jdict res" where
  "as_dict (JObj d) = Ret d"
| "as_dict _ = Raise (AttributeError ''not a dict'')"

text \<open>\<open>v[key]\<close> on a value that need not be a dictionary.\<close>

fun json_item :: "json \<Rightarrow> string \<Rightarrow> json res" where
  "json_item (JObj d) k = jitem d k"
| "json_item _ k = Raise (TypeError ''object is not subscriptable by a string'')"

text \<open>\<open>list(v)\<close>: a list is copied, a string gives its characters, a dictionary its keys.\<close>

fun as_list :: "json \<Rightarrow> json list res" where
  "as_list (JArr xs) = Ret xs"
| "as_list (JStr s) = Ret (map (\<lambda>c. JStr [c]) s)"
| "as_list (JObj d) = Ret (map (JStr \<circ> fst) d)"
| "as_list _ = Raise (TypeError ''object is not iterable'')"

fun json_int :: "json \<Rightarrow> int res" where
  "json_int (JInt i) = Ret i"
| "json_int (JBool b) = Ret (if b then 1 else 0)"
| "json_int (JStr s) = py_int_of_str s"
| "json_int _ = Raise (TypeError ''int() argument must be a string or a number'')"

fun is_jstr :: "json \<Rightarrow> bool" where
  "is_jstr (JStr s) = True"
| "is_jstr _ = False"

primrec json_wf :: "json \<Rightarrow> bool" where
  "json_wf JNull = True"
| "json_wf (JBool b) = True"
| "json_wf (JInt i) = True"
| "json_wf (JStr s) = True"
| "json_wf (JArr xs) = list_all id (map json_wf xs)"
| "json_wf (JObj d) = (distinct (map fst d) \<and> list_all id (map snd (map (map_prod id json_wf) d)))"

lemma jget_simps [simp]:
  "jget [] k dflt = dflt"
  "jget ((k', v) # d) k dflt = (if k' = k then v else jget d k dflt)"
  by (simp_all add: jget_def)

lemma jget_set [simp]: "jget (dict_set d k v) k' dflt = (if k' = k then v else jget d k' dflt)"
  by (simp add: jget_def)

lemma as_str_Inr [simp]: "as_str v = Inr s \<longleftrightarrow> v = JStr s"
  by (cases v) auto

lemma json_item_Inr: "json_item v k = Inr x \<longleftrightarrow> (\<exists>d. v = JObj d \<and> dict_get d k = Some x)"
  by (cases v) (auto simp: jitem_def split: option.splits)

lemma as_dict_Inr [simp]: "as_dict v = Inr d \<longleftrightarrow> v = JObj d"
  by (cases v) auto

text \<open>Values that may be used as a dictionary key.\<close>

fun hashable :: "json \<Rightarrow> bool" where
  "hashable (JArr _) = False"
| "hashable (JObj _) = False"
| "hashable _ = True"

section \<open>Compact text\<close>

definition json_escape :: "char \<Rightarrow> string" where
  "json_escape c = (let n = of_char c :: nat in
     if n = 34 then [CHR 0x5C, CHR 0x22]
     else if n = 92 then [CHR 0x5C, CHR 0x5C]
     else if n = 10 then [CHR 0x5C, CHR ''n'']
     else if n = 13 then [CHR 0x5C, CHR ''r'']
     else if n = 9 then [CHR 0x5C, CHR ''t'']
     else if n = 12 then [CHR 0x5C, CHR ''f'']
     else if n = 8 then [CHR 0x5C, CHR ''b'']
     else if n < 32 then [CHR 0x5C, CHR ''u'', CHR ''0'', CHR ''0'', hex_digit (n div 16), hex_digit (n mod 16)]
     else [c])"

definition dump_str :: "string \<Rightarrow> string" where
  "dump_str s = CHR 0x22 # concat (map json_escape s) @ [CHR 0x22]"

primrec json_dumps :: "json \<Rightarrow> string" where
  "json_dumps JNull = ''null''"
| "json_dumps (JBool b) = (if b then ''true'' else ''false'')"
| "json_dumps (JInt i) = dec_of_int i"
| "json_dumps (JStr s) = dump_str s"
| "json_dumps (JArr xs) = CHR ''['' # py_join '','' (map json_dumps xs) @ '']''"
| "json_dumps (JObj d) =
     CHR ''{'' # py_join '','' (map (\<lambda>kt. dump_str (fst kt) @ CHR '':'' # snd kt)
        (map (map_prod id json_dumps) d)) @ ''}''"

section \<open>crypto/canonical\_json.py\<close>

primrec strip_signature :: "json \<Rightarrow> json" where
  "strip_signature JNull = JNull"
| "strip_signature (JBool b) = JBool b"
| "strip_signature (JInt i) = JInt i"
| "strip_signature (JStr s) = JStr s"
| "strip_signature (JArr xs) = JArr (map strip_signature xs)"
| "strip_signature (JObj d) =
     JObj (filter (\<lambda>kv. fst kv \<noteq> ''signature'') (map (map_prod id strip_signature) d))"

text \<open>\<open>sort_keys=True\<close>: the members of every object in the order of their keys.\<close>

primrec sort_keys :: "json \<Rightarrow> json" where
  "sort_keys JNull = JNull"
| "sort_keys (JBool b) = JBool b"
| "sort_keys (JInt i) = JInt i"
| "sort_keys (JStr s) = JStr s"
| "sort_keys (JArr xs) = JArr (map sort_keys xs)"
| "sort_keys (JObj d) = JObj (sort_key fst (map (map_prod id sort_keys) d))"

definition canonical_json_text :: "json \<Rightarrow> string" where
  "canonical_json_text v = json_dumps (sort_keys (strip_signature v))"

definition canonical_json_bytes :: "json \<Rightarrow> bytes" where
  "canonical_json_bytes v = utf8_encode (canonical_json_text v)"

section \<open>The text determines the value\<close>

definition delimited :: "string \<Rightarrow> bool" where
  "delimited r \<longleftrightarrow> r = [] \<or> \<not> is_digit (hd r)"

definition readable :: "('a \<Rightarrow> string) \<Rightarrow> 'a \<Rightarrow> bool" where
  "readable f x \<longleftrightarrow> (\<forall>y r s. f x @ r = f y @ s \<longrightarrow> delimited r \<longrightarrow> delimited s \<longrightarrow> x = y \<and> r = s)"

fun tail_print :: "('a \<Rightarrow> string) \<Rightarrow> char \<Rightarrow> 'a list \<Rightarrow> string" where
  "tail_print f z [] = [z]"
| "tail_print f z (x # xs) = CHR '','' # f x @ tail_print f z xs"

lemma join_tail_print: "py_join '','' (map f (x # xs)) @ [z] = f x @ tail_print f z xs"
  by (induction xs arbitrary: x) auto

lemma tail_print_delimited [simp]: "\<not> is_digit z \<Longrightarrow> delimited (tail_print f z xs @ r)"
  by (cases xs) (auto simp: delimited_def is_digit_def)

lemma tail_print_unique:
  assumes "\<forall>x\<in>set xs. readable f x" and "z \<noteq> CHR '',''" and "\<not> is_digit z"
    and "tail_print f z xs @ r = tail_print f z ys @ s"
  shows "xs = ys \<and> r = s"
  using assms(1,4)
proof (induction xs arbitrary: ys)
  case Nil
  then show ?case using assms(2) by (cases ys) auto
next
  case (Cons x xs)
  then obtain y ys' where ys: "ys = y # ys'" using assms(2) by (cases ys) auto
  with Cons.prems have "f x @ (tail_print f z xs @ r) = f y @ (tail_print f z ys' @ s)" by simp
  then have "x = y" "tail_print f z xs @ r = tail_print f z ys' @ s"
    using Cons.prems(1) assms(3) tail_print_delimited unfolding readable_def by (meson list.set_intros(1))+
  with Cons ys show ?case by auto
qed

lemma list_print_unique:
  assumes "\<forall>x\<in>set xs. readable f x" and z: "z \<noteq> CHR '',''" "\<not> is_digit z"
    and hd: "\<And>x. f x \<noteq> [] \<and> hd (f x) \<noteq> z"
    and eq: "py_join '','' (map f xs) @ z # r = py_join '','' (map f ys) @ z # s"
  shows "xs = ys \<and> r = s"
proof (cases xs; cases ys)
  fix x xs' y ys'
  assume xs: "xs = x # xs'" and ys: "ys = y # ys'"
  have "f x @ (tail_print f z xs' @ r) = f y @ (tail_print f z ys' @ s)"
    using eq join_tail_print[of f x xs' z] join_tail_print[of f y ys' z]
    unfolding xs ys by (metis append.assoc append_Cons append_Nil)
  then have "x = y" "tail_print f z xs' @ r = tail_print f z ys' @ s"
    using assms(1) z(2) tail_print_delimited unfolding readable_def xs by (meson list.set_intros(1))+
  moreover have "xs' = ys' \<and> r = s"
    using tail_print_unique[OF _ z \<open>tail_print f z xs' @ r = _\<close>] assms(1) xs by simp
  ultimately show ?thesis using xs ys by simp
next
  assume "xs = []" "ys = []"
  with eq show ?thesis by simp
next
  fix y ys'
  assume e: "xs = []" "ys = y # ys'"
  then have "hd (py_join '','' (map f ys)) = hd (f y) \<and> py_join '','' (map f ys) \<noteq> []"
    using hd[of y] by (cases ys') auto
  with eq e hd[of y] show ?thesis by (metis append_Nil hd_append2 list.sel(1) list.simps(8) py_join.simps(1))
next
  fix x xs'
  assume e: "xs = x # xs'" "ys = []"
  then have "hd (py_join '','' (map f xs)) = hd (f x) \<and> py_join '','' (map f xs) \<noteq> []"
    using hd[of x] by (cases xs') auto
  with eq e hd[of x] show ?thesis by (metis append_Nil hd_append2 list.sel(1) list.simps(8) py_join.simps(1))
qed

text \<open>One unit of an escaped string is read back by looking at its first characters.\<close>

fun read_escape :: "string \<Rightarrow> char \<times> string" where
  "read_escape (h # t) =
     (if h \<noteq> CHR 0x5C then (h, t)
      else case t of
        [] \<Rightarrow> (h, t)
      | x # t' \<Rightarrow>
          if x = CHR 0x22 then (CHR 0x22, t') else if x = CHR 0x5C then (CHR 0x5C, t')
          else if x = CHR ''n'' then (CHR 0x0A, t') else if x = CHR ''r'' then (CHR 0x0D, t')
          else if x = CHR ''t'' then (CHR 0x09, t') else if x = CHR ''f'' then (CHR 0x0C, t')
          else if x = CHR ''b'' then (CHR 0x08, t')
          else (char_of (16 * the (hex_val (t' ! 2)) + the (hex_val (t' ! 3)) :: nat), drop 4 t'))"
| "read_escape [] = (CHR 0x00, [])"

lemma of_char_eq_iff: "(of_char c :: nat) = n \<longleftrightarrow> c = char_of n \<and> n < 256"
  by (metis char_of_char of_char_less of_char_char_of_nat)

lemma read_escape_json_escape: "read_escape (json_escape c @ r) = (c, r)"
proof -
  let ?n = "of_char c :: nat"
  consider "?n \<in> {34, 92, 10, 13, 9, 12, 8}" | "?n \<notin> {34, 92, 10, 13, 9, 12, 8}" "?n < 32"
    | "?n \<notin> {34, 92, 10, 13, 9, 12, 8}" "\<not> ?n < 32"
    by blast
  then show ?thesis
  proof cases
    case 1
    then show ?thesis by (auto simp: json_escape_def Let_def) (auto simp: of_char_eq_iff char_of_def bit_0)
  next
    case 2
    have "?n div 16 < 16" by (rule less_mult_imp_div_less) simp
    with 2 show ?thesis by (simp add: json_escape_def Let_def)
  next
    case 3
    moreover have "c \<noteq> CHR 0x5C" using 3 by auto
    ultimately show ?thesis by (simp add: json_escape_def Let_def)
  qed
qed

lemma json_escape_prefix: "json_escape c @ r = json_escape d @ s \<Longrightarrow> c = d \<and> r = s"
  by (metis prod.inject read_escape_json_escape)

lemma json_escape_not_quote: "\<exists>h t. json_escape c = h # t \<and> h \<noteq> CHR 0x22"
proof -
  have "json_escape c \<noteq> []" by (simp add: json_escape_def Let_def)
  then obtain h t where ht: "json_escape c = h # t" by (cases "json_escape c") auto
  have "h \<noteq> CHR 0x22"
  proof
    assume "h = CHR 0x22"
    with ht read_escape_json_escape[of c "[]"] have "c = CHR 0x22" by simp
    then have "json_escape c = [CHR 0x5C, CHR 0x22]" by (simp add: json_escape_def)
    with ht \<open>h = CHR 0x22\<close> show False by simp
  qed
  with ht show ?thesis by blast
qed

lemma dump_str_unique: "dump_str a @ r = dump_str b @ s \<Longrightarrow> a = b \<and> r = s"
proof -
  have "concat (map json_escape a) @ CHR 0x22 # r = concat (map json_escape b) @ CHR 0x22 # s \<Longrightarrow> a = b \<and> r = s"
  proof (induction a arbitrary: b)
    case Nil
    then show ?case using json_escape_not_quote by (cases b) (auto, metis append_Cons list.inject)
  next
    case (Cons c a)
    show ?case
    proof (cases b)
      case Nil
      with Cons.prems json_escape_not_quote[of c] show ?thesis by auto
    next
      case (Cons d b')
      with Cons.prems have "json_escape c @ (concat (map json_escape a) @ CHR 0x22 # r)
          = json_escape d @ (concat (map json_escape b') @ CHR 0x22 # s)" by simp
      then have "c = d" "concat (map json_escape a) @ CHR 0x22 # r = concat (map json_escape b') @ CHR 0x22 # s"
        using json_escape_prefix by blast+
      with Cons.IH Cons show ?thesis by blast
    qed
  qed
  then show "dump_str a @ r = dump_str b @ s \<Longrightarrow> a = b \<and> r = s" by (simp add: dump_str_def)
qed

text \<open>The first character tells the constructor.\<close>

lemma dec_of_int_head: "\<exists>h t. dec_of_int i = h # t \<and> (h = CHR ''-'' \<or> is_digit h)"
proof (cases "i < 0")
  case True
  then show ?thesis by (simp add: dec_of_int_def)
next
  case False
  then show ?thesis using dec_of_nat_digits[of "nat i"] dec_of_nat_nonempty[of "nat i"]
    by (cases "dec_of_nat (nat i)") (auto simp: dec_of_int_def)
qed

fun head_kind :: "char \<Rightarrow> nat" where
  "head_kind c = (if c = CHR ''n'' then 0 else if c = CHR ''t'' then 1 else if c = CHR ''f'' then 2
     else if c = CHR ''-'' \<or> is_digit c then 3 else if c = CHR 0x22 then 4
     else if c = CHR ''['' then 5 else if c = CHR ''{'' then 6 else 7)"

fun json_kind :: "json \<Rightarrow> nat" where
  "json_kind JNull = 0"
| "json_kind (JBool b) = (if b then 1 else 2)"
| "json_kind (JInt i) = 3"
| "json_kind (JStr s) = 4"
| "json_kind (JArr xs) = 5"
| "json_kind (JObj d) = 6"

lemma not_digits [simp]:
  "\<not> is_digit (CHR ''n'')" "\<not> is_digit (CHR ''t'')" "\<not> is_digit (CHR ''f'')"
  "\<not> is_digit (CHR 0x22)" "\<not> is_digit (CHR ''['')" "\<not> is_digit (CHR ''{'')"
  "\<not> is_digit (CHR '']'')" "\<not> is_digit (CHR ''}'')" "\<not> is_digit (CHR '','')" "\<not> is_digit (CHR '':'')"
  by (simp_all add: is_digit_def)

lemma json_dumps_head: "\<exists>h t. json_dumps v = h # t \<and> head_kind h = json_kind v"
proof (cases v)
  case (JInt i)
  obtain h t where h: "dec_of_int i = h # t" "h = CHR ''-'' \<or> is_digit h"
    using dec_of_int_head by blast
  then have "head_kind h = 3" by auto
  with h JInt show ?thesis by simp
qed (simp_all add: dump_str_def)

lemma json_dumps_same_kind: "json_dumps v @ r = json_dumps w @ s \<Longrightarrow> json_kind v = json_kind w"
  using json_dumps_head[of v] json_dumps_head[of w] by (metis append_Cons list.inject)

lemma json_kind_less: "json_kind v < 7"
  by (cases v) auto

lemma json_dumps_not_head: "head_kind z = 7 \<Longrightarrow> json_dumps v \<noteq> [] \<and> hd (json_dumps v) \<noteq> z"
  using json_dumps_head[of v] json_kind_less[of v] by (metis less_irrefl list.discI list.sel(1))

definition dump_member :: "string \<times> json \<Rightarrow> string" where
  "dump_member kv = dump_str (fst kv) @ CHR '':'' # json_dumps (snd kv)"

lemma json_dumps_JObj:
  "json_dumps (JObj d) = CHR ''{'' # py_join '','' (map dump_member d) @ ''}''"
  by (simp add: dump_member_def[abs_def] comp_def)

lemma readable_dump_member: "readable json_dumps (snd kv) \<Longrightarrow> readable dump_member kv"
  unfolding readable_def dump_member_def
  by (auto dest!: dump_str_unique simp: prod_eq_iff)

theorem json_dumps_readable: "readable json_dumps v"
proof (induction v)
  case (JInt i)
  show ?case unfolding readable_def
  proof (intro allI impI)
    fix w r s
    assume h: "json_dumps (JInt i) @ r = json_dumps w @ s" "delimited r" "delimited s"
    then have "json_kind w = 3" using json_dumps_same_kind[OF h(1)] by simp
    then obtain j where "w = JInt j" by (cases w) (auto split: if_splits)
    with h dec_of_int_unique[of i r j s] show "JInt i = w \<and> r = s" by (auto simp: delimited_def)
  qed
next
  case (JArr xs)
  show ?case unfolding readable_def
  proof (intro allI impI)
    fix w r s
    assume h: "json_dumps (JArr xs) @ r = json_dumps w @ s" "delimited r" "delimited s"
    then have "json_kind w = 5" using json_dumps_same_kind[OF h(1)] by simp
    then obtain ys where w: "w = JArr ys" by (cases w) (auto split: if_splits)
    have "xs = ys \<and> r = s"
      by (rule list_print_unique[where f = json_dumps and z = "CHR '']''"])
        (use h w JArr json_dumps_not_head[of "CHR '']''"] in auto)
    with w show "JArr xs = w \<and> r = s" by simp
  qed
next
  case (JObj d)
  show ?case unfolding readable_def
  proof (intro allI impI)
    fix w r s
    assume h: "json_dumps (JObj d) @ r = json_dumps w @ s" "delimited r" "delimited s"
    then have "json_kind w = 6" using json_dumps_same_kind[OF h(1)] by simp
    then obtain e where w: "w = JObj e" by (cases w) (auto split: if_splits)
    have mem: "\<forall>kv\<in>set d. readable dump_member kv"
      using JObj by (auto intro!: readable_dump_member simp: prod_set_defs)
    have "d = e \<and> r = s"
      by (rule list_print_unique[where f = dump_member and z = "CHR ''}''"])
        (use h w mem in \<open>auto simp only: json_dumps_JObj append_Cons append_assoc append_Nil list.inject
          dump_member_def dump_str_def not_digits list.sel list.discI simp_thms char.inject\<close>)
    with w show "JObj d = w \<and> r = s" by simp
  qed
next
  case JNull
  show ?case unfolding readable_def
  proof (intro allI impI)
    fix w r s
    assume h: "json_dumps JNull @ r = json_dumps w @ s" "delimited r"
    then have "json_kind w = 0" using json_dumps_same_kind[OF h(1)] by simp
    then have "w = JNull" by (cases w) (auto split: if_splits)
    with h(1) show "JNull = w \<and> r = s" by simp
  qed
next
  case (JBool b)
  show ?case unfolding readable_def
  proof (intro allI impI)
    fix w r s
    assume h: "json_dumps (JBool b) @ r = json_dumps w @ s" "delimited r"
    then have "json_kind w = (if b then 1 else 2)" using json_dumps_same_kind[OF h(1)] by simp
    then have "w = JBool b" by (cases w) (auto split: if_splits)
    with h(1) show "JBool b = w \<and> r = s" by simp
  qed
next
  case (JStr t)
  show ?case unfolding readable_def
  proof (intro allI impI)
    fix w r s
    assume h: "json_dumps (JStr t) @ r = json_dumps w @ s" "delimited r"
    then have "json_kind w = 4" using json_dumps_same_kind[OF h(1)] by simp
    then obtain u where "w = JStr u" by (cases w) (auto split: if_splits)
    with h(1) dump_str_unique[of t r u s] show "JStr t = w \<and> r = s" by simp
  qed
qed

lemma json_dumps_inj: "json_dumps v = json_dumps w \<Longrightarrow> v = w"
  using json_dumps_readable[of v] unfolding readable_def delimited_def by (metis append_Nil2)

text \<open>Equal canonical bytes: equal values up to key order and \<open>signature\<close> members.\<close>

lemma canonical_json_text_inj:
  "canonical_json_text v = canonical_json_text w \<Longrightarrow>
     sort_keys (strip_signature v) = sort_keys (strip_signature w)"
  by (simp add: canonical_json_text_def json_dumps_inj)

end
