(* ===== verification/Endpoint.thy ===== *)
theory Endpoint
  imports Url Json
begin

text \<open>
  \<open>models/endpoint.py\<close>: resolver endpoints, their canonical form and the comparison of a
  registered endpoint with an observed one.  Fields that the class passes through without a
  check keep the dynamic type \<open>json\<close>; operations on them raise when the value has another
  type.
\<close>

section \<open>Canonical text forms\<close>

definition canonical_ip :: "string \<Rightarrow> string res" where
  "canonical_ip value = ip_address_str (py_strip value)"

definition normalize_name :: "string \<Rightarrow> string" where
  "normalize_name value = py_lower (rstrip_while (\<lambda>c. c = CHR ''.'') (py_strip value))"

definition canonical_uri :: "string \<Rightarrow> string res" where
  "canonical_uri value =
     bind_res (urlparse (py_strip value)) (\<lambda>p.
       Ret (urlunparse \<lparr>u_scheme = py_lower (u_scheme p), u_netloc = py_lower (u_netloc p),
              u_path = (if u_path p \<noteq> [] then u_path p else ''/''), u_query = u_query p\<rparr>))"

definition default_port :: "string \<Rightarrow> int" where
  "default_port transport = (let t = py_lower transport in
     if t = ''udp'' then 53 else if t = ''tcp'' then 53 else if t = ''dot'' then 853
     else if t = ''doh'' then 443 else if t = ''doq'' then 853 else 53)"

section \<open>The class\<close>

record endpoint =
  e_endpoint_id :: json
  e_ip :: json
  e_port :: json
  e_transport :: json
  e_uri :: json
  e_server_name :: json
  e_alpn :: "json list"

text \<open>\<open>f(value) if value else None\<close> for a function on \<open>str\<close>.\<close>

definition if_truthy_str :: "(string \<Rightarrow> string res) \<Rightarrow> json \<Rightarrow> json res" where
  "if_truthy_str f v = (if truthy v then bind_res (as_str v) (\<lambda>s. bind_res (f s) (\<lambda>t. Ret (JStr t))) else Ret JNull)"

definition normalized_port :: "json \<Rightarrow> json \<Rightarrow> json res" where
  "normalized_port port transport =
     (if port \<noteq> JNull then bind_res (json_int port) (\<lambda>i. Ret (JInt i))
      else bind_res (as_str transport) (\<lambda>t. Ret (JInt (default_port t))))"

definition lower_value :: "json \<Rightarrow> json res" where
  "lower_value v = bind_res (as_str v) (\<lambda>s. Ret (JStr (py_lower s)))"

definition normalized :: "endpoint \<Rightarrow> endpoint res" where
  "normalized e =
     bind_res (if_truthy_str canonical_ip (e_ip e)) (\<lambda>ip_norm.
     bind_res (if_truthy_str (\<lambda>s. Ret (normalize_name s)) (e_server_name e)) (\<lambda>server_name.
     bind_res (if_truthy_str canonical_uri (e_uri e)) (\<lambda>uri.
     bind_res (normalized_port (e_port e) (e_transport e)) (\<lambda>port.
     bind_res (lower_value (e_transport e)) (\<lambda>transport.
     bind_res (map_res lower_value (e_alpn e)) (\<lambda>alpn.
     Ret \<lparr>e_endpoint_id = e_endpoint_id e, e_ip = ip_norm, e_port = port, e_transport = transport,
          e_uri = uri, e_server_name = server_name, e_alpn = alpn\<rparr>))))))"

definition endpoint_from_dict :: "jdict \<Rightarrow> endpoint res" where
  "endpoint_from_dict data =
     bind_res (lower_value (jor (jget0 data ''transport'') (JStr ''udp''))) (\<lambda>transport.
     bind_res (as_list (jor (jget0 data ''alpn'') (JArr []))) (\<lambda>alpn.
     normalized \<lparr>e_endpoint_id = jget0 data ''endpoint_id'', e_ip = jget0 data ''ip'',
       e_port = jget0 data ''port'', e_transport = transport, e_uri = jget0 data ''uri'',
       e_server_name = jget0 data ''server_name'', e_alpn = alpn\<rparr>))"

definition endpoint_to_dict :: "endpoint \<Rightarrow> jdict" where
  "endpoint_to_dict e =
     filter (\<lambda>kv. snd kv \<noteq> JNull \<and> snd kv \<noteq> JArr [])
       [(''endpoint_id'', e_endpoint_id e), (''ip'', e_ip e), (''port'', e_port e),
        (''transport'', e_transport e), (''uri'', e_uri e), (''server_name'', e_server_name e),
        (''alpn'', JArr (e_alpn e))]"

text \<open>The comparison on two normalized endpoints, and the method, which normalizes both.\<close>

definition both_differ :: "json \<Rightarrow> json \<Rightarrow> bool" where
  "both_differ a b = (truthy a \<and> truthy b \<and> a \<noteq> b)"

definition both_given :: "json \<Rightarrow> json \<Rightarrow> bool" where
  "both_given a b = (truthy a \<and> truthy b)"

definition matches_normalized :: "endpoint \<Rightarrow> endpoint \<Rightarrow> bool" where
  "matches_normalized expected observed =
     (if e_transport expected \<noteq> e_transport observed then False
      else if e_port expected \<noteq> e_port observed then False
      else if both_differ (e_ip expected) (e_ip observed) then False
      else if both_differ (e_uri expected) (e_uri observed) then False
      else if both_differ (e_server_name expected) (e_server_name observed) then False
      else both_given (e_ip expected) (e_ip observed) \<or> both_given (e_uri expected) (e_uri observed)
         \<or> both_given (e_server_name expected) (e_server_name observed))"

definition matches :: "endpoint \<Rightarrow> endpoint \<Rightarrow> bool res" where
  "matches self observed =
     bind_res (normalized self) (\<lambda>e. bind_res (normalized observed) (\<lambda>obs. Ret (matches_normalized e obs)))"

section \<open>Canonical forms and comparison\<close>
lemma canonical_ip_fixed: "canonical_ip s = Ret t \<Longrightarrow> canonical_ip t = Ret t"
  using ip_address_str_fixed[of "py_strip s" t] ip_address_str_stripped[of s t]
  by (simp add: canonical_ip_def)

lemma normalize_name_lower [simp]: "py_lower (normalize_name s) = normalize_name s"
  by (simp add: normalize_name_def)

lemma normalize_name_fixed:
  assumes "\<forall>c\<in>set s. \<not> is_space c"
  shows "normalize_name (normalize_name s) = normalize_name s"
proof -
  let ?dot = "\<lambda>c. c = CHR ''.''" and ?r = "rstrip_while (\<lambda>c. c = CHR ''.'') s"
  have s: "py_strip s = s" using assms by (rule py_strip_no_space)
  obtain t where t: "s = ?r @ t" using rstrip_while_prefix[of s ?dot] by blast
  have ns: "\<forall>c\<in>set (py_lower ?r). \<not> is_space c"
    using assms t by (auto simp: py_lower_def) (metis UnCI set_append)
  have "lower_char c = CHR ''.'' \<Longrightarrow> c = CHR ''.''" for c
    by (auto simp: lower_char_def Let_def of_char_eq_iff split: if_splits dest: arg_cong[of _ _ "of_char :: char \<Rightarrow> nat"])
  moreover have "?r = [] \<or> last ?r \<noteq> CHR ''.''" using rstrip_while_last[of ?dot s] by simp
  ultimately have "py_lower ?r = [] \<or> last (py_lower ?r) \<noteq> CHR ''.''"
    by (auto simp: py_lower_def last_map)
  then have "rstrip_while ?dot (py_lower ?r) = py_lower ?r" by (intro rstrip_while_id) simp
  then show ?thesis using s ns by (simp add: normalize_name_def py_strip_no_space)
qed

lemma matches_normalized_sym: "matches_normalized a b = matches_normalized b a"
  by (auto simp: matches_normalized_def both_differ_def both_given_def)

lemma matches_Inr: "matches a b = Inr r \<longleftrightarrow>
   (\<exists>na nb. normalized a = Inr na \<and> normalized b = Inr nb \<and> r = matches_normalized na nb)"
  by (auto simp: matches_def)

lemma if_truthy_str_Inr:
  "if_truthy_str f v = Inr w \<longleftrightarrow> (\<not> truthy v \<and> w = JNull) \<or> (\<exists>s t. v = JStr s \<and> s \<noteq> [] \<and> f s = Inr t \<and> w = JStr t)"
  by (cases v) (auto simp: if_truthy_str_def)

lemma lower_value_Inr: "lower_value v = Inr w \<longleftrightarrow> (\<exists>s. v = JStr s \<and> w = JStr (py_lower s))"
  by (auto simp: lower_value_def)

lemma lower_value_fixed: "lower_value v = Inr w \<Longrightarrow> lower_value w = Inr w"
  by (auto simp: lower_value_Inr)

lemma normalized_Inr:
  "normalized e = Inr n \<longleftrightarrow>
     if_truthy_str canonical_ip (e_ip e) = Inr (e_ip n) \<and>
     if_truthy_str (\<lambda>s. Ret (normalize_name s)) (e_server_name e) = Inr (e_server_name n) \<and>
     if_truthy_str canonical_uri (e_uri e) = Inr (e_uri n) \<and>
     normalized_port (e_port e) (e_transport e) = Inr (e_port n) \<and>
     lower_value (e_transport e) = Inr (e_transport n) \<and>
     map_res lower_value (e_alpn e) = Inr (e_alpn n) \<and> e_endpoint_id n = e_endpoint_id e"
  by (cases n) (auto simp: normalized_def)

lemma normalized_port_Inr: "normalized_port p t = Inr q \<Longrightarrow> \<exists>i. q = JInt i"
  by (auto simp: normalized_port_def split: if_splits)

definition name_fixed :: "json \<Rightarrow> bool" where
  "name_fixed v = (case v of JStr s \<Rightarrow> s \<noteq> [] \<longrightarrow> normalize_name s = s | _ \<Rightarrow> True)"

definition uri_fixed :: "json \<Rightarrow> bool" where
  "uri_fixed v = (case v of JStr s \<Rightarrow> s \<noteq> [] \<longrightarrow> canonical_uri s = Ret s | _ \<Rightarrow> True)"

text \<open>An empty canonical text becomes \<open>None\<close> on the next normalization.\<close>

definition not_empty_text :: "json \<Rightarrow> bool" where
  "not_empty_text v \<longleftrightarrow> v \<noteq> JStr []"

lemma canonical_ip_nonempty: "canonical_ip s = Ret t \<Longrightarrow> t \<noteq> []"
proof
  assume "canonical_ip s = Ret t" "t = []"
  then have "canonical_ip [] = Ret []" using canonical_ip_fixed by blast
  then show False
    by (simp add: canonical_ip_def ip_address_str_def py_strip_def py_lstrip_def rstrip_while_def parse_ipv4_def
        parse_ipv6_def split_scope_def parse_ipv6_groups_def)
qed

lemma map_res_lower_fixed: "map_res lower_value xs = Inr ys \<Longrightarrow> map_res lower_value ys = Inr ys"
  by (induction xs arbitrary: ys) (auto dest: lower_value_fixed)

lemma normalized_fixed:
  assumes "normalized e = Ret n"
    and "name_fixed (e_server_name n)" "not_empty_text (e_server_name n)"
    and "uri_fixed (e_uri n)" "not_empty_text (e_uri n)"
  shows "normalized n = Ret n"
proof -
  have n: "if_truthy_str canonical_ip (e_ip e) = Inr (e_ip n)"
     "if_truthy_str (\<lambda>s. Ret (normalize_name s)) (e_server_name e) = Inr (e_server_name n)"
     "if_truthy_str canonical_uri (e_uri e) = Inr (e_uri n)"
     "normalized_port (e_port e) (e_transport e) = Inr (e_port n)"
     "lower_value (e_transport e) = Inr (e_transport n)"
     "map_res lower_value (e_alpn e) = Inr (e_alpn n)"
    using assms(1) by (auto simp: normalized_Inr)
  have "if_truthy_str canonical_ip (e_ip n) = Inr (e_ip n)"
    using n(1) canonical_ip_fixed canonical_ip_nonempty by (auto simp: if_truthy_str_Inr)
  moreover have "if_truthy_str (\<lambda>s. Ret (normalize_name s)) (e_server_name n) = Inr (e_server_name n)"
    using n(2) assms(2,3) by (auto simp: if_truthy_str_Inr name_fixed_def not_empty_text_def)
  moreover have "if_truthy_str canonical_uri (e_uri n) = Inr (e_uri n)"
    using n(3) assms(4,5) by (auto simp: if_truthy_str_Inr uri_fixed_def not_empty_text_def)
  moreover have "normalized_port (e_port n) (e_transport n) = Inr (e_port n)"
    using normalized_port_Inr[OF n(4)] by (auto simp: normalized_port_def)
  ultimately show ?thesis
    using lower_value_fixed[OF n(5)] map_res_lower_fixed[OF n(6)] by (simp add: normalized_Inr)
qed

lemma endpoint_dict_roundtrip:
  assumes "normalized e = Ret n" and "e_transport n \<noteq> JStr []" and "e_endpoint_id n \<noteq> JArr []"
  shows "endpoint_from_dict (endpoint_to_dict n) = normalized n"
proof -
  have n: "if_truthy_str canonical_ip (e_ip e) = Inr (e_ip n)"
     "if_truthy_str (\<lambda>s. Ret (normalize_name s)) (e_server_name e) = Inr (e_server_name n)"
     "if_truthy_str canonical_uri (e_uri e) = Inr (e_uri n)"
     "normalized_port (e_port e) (e_transport e) = Inr (e_port n)"
     "lower_value (e_transport e) = Inr (e_transport n)"
    using assms(1) by (auto simp: normalized_Inr)
  obtain p where p: "e_port n = JInt p" using normalized_port_Inr[OF n(4)] by blast
  obtain t where t: "e_transport n = JStr t" "t \<noteq> []" "py_lower t = t"
    using n(5) assms(2) by (auto simp: lower_value_Inr)
  have na: "e_ip n \<noteq> JArr []" "e_uri n \<noteq> JArr []" "e_server_name n \<noteq> JArr []"
    using n(1,2,3) by (auto simp: if_truthy_str_Inr)
  have get: "jget0 (endpoint_to_dict n) ''transport'' = JStr t" "jget0 (endpoint_to_dict n) ''endpoint_id'' = e_endpoint_id n"
    "jget0 (endpoint_to_dict n) ''ip'' = e_ip n" "jget0 (endpoint_to_dict n) ''port'' = JInt p"
    "jget0 (endpoint_to_dict n) ''uri'' = e_uri n" "jget0 (endpoint_to_dict n) ''server_name'' = e_server_name n"
    "jor (jget0 (endpoint_to_dict n) ''alpn'') (JArr []) = JArr (e_alpn n)"
    using na assms(3) p t by (auto simp: endpoint_to_dict_def jor_def)
  show ?thesis
    unfolding endpoint_from_dict_def get using t p
    by (cases n) (simp add: jor_def lower_value_def)
qed

end
