(* ===== verification/Hashes.thy ===== *)
theory Hashes
  imports Endpoint
begin

text \<open>
  \<open>crypto/hashes.py\<close>: hexadecimal SHA-256 digests, the hash of an authenticity object and
  the lookup keys.  Facts that rest on the collision resistance of SHA-256 have the form
  ``the conclusion holds, or the named finite set of messages contains a collision''.
\<close>

definition sha256_hex :: "bytes \<Rightarrow> string" where
  "sha256_hex data = ''0x'' @ hex_of_bytes (sha256 data)"

abbreviation sha256_hex_str :: "string \<Rightarrow> string" where
  "sha256_hex_str s \<equiv> sha256_hex (utf8_encode s)"

definition object_hash :: "jdict \<Rightarrow> string" where
  "object_hash obj_dict = sha256_hex (canonical_json_bytes (JObj obj_dict))"

definition ip_lookup_key :: "string \<Rightarrow> string res" where
  "ip_lookup_key ip = bind_res (canonical_ip ip) (\<lambda>c. Ret (sha256_hex_str (''ip:'' @ c)))"

definition name_lookup_key :: "string \<Rightarrow> string" where
  "name_lookup_key name = sha256_hex_str (''name:'' @ normalize_name name)"

definition resolver_id_key :: "string \<Rightarrow> string" where
  "resolver_id_key resolver_id = sha256_hex_str (''resolver-id:'' @ normalize_name resolver_id)"

section \<open>Digests\<close>

definition sha256_collision :: "bytes set \<Rightarrow> bool" where
  "sha256_collision M \<longleftrightarrow> (\<exists>x\<in>M. \<exists>y\<in>M. x \<noteq> y \<and> sha256 x = sha256 y)"

lemma no_collision: "\<not> sha256_collision M \<Longrightarrow> x \<in> M \<Longrightarrow> y \<in> M \<Longrightarrow> sha256 x = sha256 y \<Longrightarrow> x = y"
  by (auto simp: sha256_collision_def)

lemma collisionI: "x \<in> M \<Longrightarrow> y \<in> M \<Longrightarrow> sha256 x = sha256 y \<Longrightarrow> x = y \<or> sha256_collision M"
  by (auto simp: sha256_collision_def)

lemma sha256_hex_eq [simp]: "sha256_hex a = sha256_hex b \<longleftrightarrow> sha256 a = sha256 b"
  by (auto simp: sha256_hex_def dest: hex_of_bytes_inj)

lemma py_lower_0x: "py_lower (''0x'' @ s) = ''0x'' @ py_lower s"
  by (simp add: py_lower_def lower_char_def)

lemma py_lower_sha256_hex [simp]: "py_lower (sha256_hex m) = sha256_hex m"
  unfolding sha256_hex_def py_lower_0x by simp

lemma length_sha256_hex [simp]: "length (sha256_hex m) = 66"
  by (simp add: sha256_hex_def)

lemma sha256_hex_nonempty [simp]: "sha256_hex m \<noteq> []"
  by (simp add: sha256_hex_def)

lemma utf8_encode_append: "utf8_encode (s @ t) = utf8_encode s @ utf8_encode t"
  by (simp add: utf8_encode_def)

section \<open>The object hash\<close>

lemma filter_map_prod_signature:
  "filter (\<lambda>kv. fst kv \<noteq> k) (map (map_prod id f) (dict_set d k v)) = filter (\<lambda>kv. fst kv \<noteq> k) (map (map_prod id f) d)"
  by (induction d k v rule: dict_set.induct) auto

text \<open>Signing an object does not change the bytes that are hashed and signed.\<close>

lemma canonical_json_bytes_signature [simp]:
  "canonical_json_bytes (JObj (dict_set d ''signature'' v)) = canonical_json_bytes (JObj d)"
  by (simp only: canonical_json_bytes_def canonical_json_text_def strip_signature.simps filter_map_prod_signature)

lemma filter_map_prod_pop:
  "filter (\<lambda>kv. fst kv \<noteq> k) (map (map_prod id f) (dict_pop d k)) = filter (\<lambda>kv. fst kv \<noteq> k) (map (map_prod id f) d)"
  by (induction d) (auto simp: dict_pop_def)

lemma canonical_json_bytes_pop_signature [simp]:
  "canonical_json_bytes (JObj (dict_pop d ''signature'')) = canonical_json_bytes (JObj d)"
  by (simp only: canonical_json_bytes_def canonical_json_text_def strip_signature.simps filter_map_prod_pop)

lemma canonical_json_bytes_eq:
  "canonical_json_bytes v = canonical_json_bytes w \<longleftrightarrow> sort_keys (strip_signature v) = sort_keys (strip_signature w)"
  using canonical_json_text_inj[of v w] utf8_encode_inj
  by (auto simp: canonical_json_bytes_def canonical_json_text_def)

section \<open>What the hashes bind\<close>

text \<open>Two objects with the same object hash are equal up to the order of their members and up
  to members named \<open>signature\<close>, or their canonical bytes are a SHA-256 collision.\<close>

theorem object_hash_binding:
  assumes "object_hash a = object_hash b"
  shows "sort_keys (strip_signature (JObj a)) = sort_keys (strip_signature (JObj b)) \<or>
     sha256_collision {canonical_json_bytes (JObj a), canonical_json_bytes (JObj b)}"
  using assms collisionI[of "canonical_json_bytes (JObj a)" "{canonical_json_bytes (JObj a), canonical_json_bytes (JObj b)}"
      "canonical_json_bytes (JObj b)"]
  by (auto simp: object_hash_def canonical_json_bytes_eq)

theorem object_hash_binding_witness:
  "sort_keys (strip_signature (JObj [(''b'', JInt 1), (''a'', JNull), (''signature'', JStr ''x'')])) =
     sort_keys (strip_signature (JObj [(''a'', JNull), (''b'', JInt 1)])) \<or>
   sha256_collision {canonical_json_bytes (JObj [(''b'', JInt 1), (''a'', JNull), (''signature'', JStr ''x'')]),
     canonical_json_bytes (JObj [(''a'', JNull), (''b'', JInt 1)])}"
proof (rule object_hash_binding)
  have "strip_signature (JObj [(''b'', JInt 1), (''a'', JNull), (''signature'', JStr ''x'')]) = JObj [(''b'', JInt 1), (''a'', JNull)]"
    and "strip_signature (JObj [(''a'', JNull), (''b'', JInt 1)]) = JObj [(''a'', JNull), (''b'', JInt 1)]"
    by code_simp+
  moreover have "sort_keys (JObj [(''b'', JInt 1), (''a'', JNull)]) = sort_keys (JObj [(''a'', JNull), (''b'', JInt 1)])"
    by code_simp
  ultimately show "object_hash [(''b'', JInt 1), (''a'', JNull), (''signature'', JStr ''x'')] = object_hash [(''a'', JNull), (''b'', JInt 1)]"
    by (simp only: object_hash_def canonical_json_bytes_def canonical_json_text_def)
qed

text \<open>Members named \<open>signature\<close> are left out at every depth: changing one inside a nested
  member changes neither the object hash nor the signed bytes.\<close>

theorem nested_signature_not_hashed:
  "object_hash (dict_set d k (JObj (dict_set inner ''signature'' v))) = object_hash (dict_set d k (JObj inner))"
proof -
  have s: "strip_signature (JObj (dict_set inner ''signature'' v)) = strip_signature (JObj inner)"
    by (simp only: strip_signature.simps filter_map_prod_signature)
  have m: "map (map_prod id strip_signature) (dict_set d k x) = dict_set (map (map_prod id strip_signature) d) k (strip_signature x)" for x
    by (induction d k x rule: dict_set.induct) auto
  show ?thesis
    unfolding object_hash_def canonical_json_bytes_def canonical_json_text_def strip_signature.simps(6)[of "dict_set d k _"] m s ..
qed

lemma lookup_texts_differ: "''ip:'' @ a \<noteq> ''name:'' @ b" "''ip:'' @ a \<noteq> ''resolver-id:'' @ c" "''name:'' @ b \<noteq> ''resolver-id:'' @ c"
  by simp_all

text \<open>Lookup keys are canonical and separated by kind: the canonical text of an address has the
  same key as the address, and an address key equals a name key only if the two hashed texts are
  a SHA-256 collision.\<close>

theorem lookup_keys_canonical_and_separated:
  assumes "canonical_ip ip = Ret c"
  shows "ip_lookup_key c = ip_lookup_key ip \<and>
    (ip_lookup_key ip \<noteq> Ret (name_lookup_key name) \<or>
     sha256_collision {utf8_encode (''ip:'' @ c), utf8_encode (''name:'' @ normalize_name name)})"
proof -
  have ne: "utf8_encode (''ip:'' @ c) \<noteq> utf8_encode (''name:'' @ normalize_name name)"
    using lookup_texts_differ(1) utf8_encode_inj by blast
  have "sha256_collision {utf8_encode (''ip:'' @ c), utf8_encode (''name:'' @ normalize_name name)}"
    if "ip_lookup_key ip = Ret (name_lookup_key name)"
  proof -
    have "sha256 (utf8_encode (''ip:'' @ c)) = sha256 (utf8_encode (''name:'' @ normalize_name name))"
      using that assms by (simp only: ip_lookup_key_def name_lookup_key_def sum.inject bind_res_simps sha256_hex_eq)
    with ne show ?thesis unfolding sha256_collision_def by blast
  qed
  then show ?thesis using canonical_ip_fixed[OF assms] assms by (auto simp: ip_lookup_key_def)
qed

theorem lookup_keys_canonical_and_separated_witness:
  "ip_lookup_key ''192.0.2.1'' = ip_lookup_key '' 192.0.2.1'' \<and>
    \<not> (ip_lookup_key '' 192.0.2.1'' = Ret (name_lookup_key ''r1.example'') \<and>
     \<not> sha256_collision {utf8_encode (''ip:'' @ ''192.0.2.1''), utf8_encode (''name:'' @ normalize_name ''r1.example'')})"
proof -
  have "canonical_ip '' 192.0.2.1'' = Ret ''192.0.2.1''" by code_simp
  from lookup_keys_canonical_and_separated[OF this, of "''r1.example''"] show ?thesis by blast
qed

end
