(* ===== verification/RfcTime.thy ===== *)
theory RfcTime
  imports PyText
begin

text \<open>
  \<open>common/time.py\<close>.  An aware \<open>datetime\<close> is the number of microseconds since
  1970-01-01T00:00:00 UTC, between the first and the last instant of the years 1 to 9999.  The
  model of \<open>datetime.fromisoformat\<close> reads the extended calendar format
  \<open>YYYY-MM-DD[xHH:MM[:SS[.f]][Z|+HH:MM[:SS]|-HH:MM[:SS]]]\<close>, the format every writer of the program
  produces; ordinal, week and compact forms of ISO 8601 are outside the model and raise.
  The main result is that reading a formatted instant gives the instant, truncated to seconds.
\<close>

section \<open>The calendar\<close>

definition is_leap :: "int \<Rightarrow> bool" where
  "is_leap y = (y mod 4 = 0 \<and> (y mod 100 \<noteq> 0 \<or> y mod 400 = 0))"

definition days_before_year :: "int \<Rightarrow> int" where
  "days_before_year y = (y - 1) * 365 + (y - 1) div 4 - (y - 1) div 100 + (y - 1) div 400"

definition month_starts :: "bool \<Rightarrow> int list" where
  "month_starts leap = (if leap then [0, 31, 60, 91, 121, 152, 182, 213, 244, 274, 305, 335, 366]
     else [0, 31, 59, 90, 120, 151, 181, 212, 243, 273, 304, 334, 365])"

definition days_in_month :: "int \<Rightarrow> nat \<Rightarrow> int" where
  "days_in_month y m = month_starts (is_leap y) ! m - month_starts (is_leap y) ! (m - 1)"

definition date_ok :: "int \<Rightarrow> nat \<Rightarrow> int \<Rightarrow> bool" where
  "date_ok y m d = (1 \<le> y \<and> y \<le> 9999 \<and> 1 \<le> m \<and> m \<le> 12 \<and> 1 \<le> d \<and> d \<le> days_in_month y m)"

text \<open>Days since 0001-01-01.\<close>

definition days_of_date :: "int \<Rightarrow> nat \<Rightarrow> int \<Rightarrow> int" where
  "days_of_date y m d = days_before_year y + month_starts (is_leap y) ! (m - 1) + (d - 1)"

lemma year_length: "days_before_year (y + 1) - days_before_year y = (if is_leap y then 366 else 365)"
proof -
  have step: "y div k - (y - 1) div k = (if y mod k = 0 then 1 else 0)" if "k > 0" for k :: int
  proof -
    have "y div k * k + y mod k = y" "(y - 1) div k * k + (y - 1) mod k = y - 1" by simp_all
    moreover have "0 \<le> y mod k" "y mod k < k" "0 \<le> (y - 1) mod k" "(y - 1) mod k < k" using that by simp_all
    ultimately have e: "(y div k - (y - 1) div k) * k = 1 + (y - 1) mod k - y mod k"
      and b: "0 \<le> y mod k" "y mod k < k" "0 \<le> (y - 1) mod k" "(y - 1) mod k < k" by (simp_all add: algebra_simps)
    define q where "q = y div k - (y - 1) div k"
    have q: "q * k = 1 + (y - 1) mod k - y mod k" using e by (simp add: q_def)
    have "q * k < 2 * k" "q * k > - 1 * k" using q b by linarith+
    then have "q < 2" "- 1 < q" using that mult_right_less_imp_less[of q k 2] mult_right_less_imp_less[of "- 1" k q] by simp_all
    then have q01: "q = 0 \<or> q = 1" by arith
    show ?thesis
    proof (cases "y mod k = 0")
      case True
      then have "q * k > 0" using q b by simp
      then show ?thesis using q01 True by (auto simp: q_def)
    next
      case False
      then have "y mod k \<ge> 1" using b(1) by linarith
      then have "q * k < k" using q b by linarith
      then have "q \<noteq> 1" by auto
      then show ?thesis using q01 False by (auto simp: q_def)
    qed
  qed
  have m: "y mod 400 = 0 \<Longrightarrow> y mod 100 = 0" "y mod 100 = 0 \<Longrightarrow> y mod 4 = 0"
    using dvd_trans[of 100 400 y] dvd_trans[of 4 100 y] by (simp_all add: mod_eq_0_iff_dvd)
  have "days_before_year (y + 1) - days_before_year y =
      365 + (y div 4 - (y - 1) div 4) - (y div 100 - (y - 1) div 100) + (y div 400 - (y - 1) div 400)"
    by (simp add: days_before_year_def)
  also have "\<dots> = 365 + (if y mod 4 = 0 then 1 else 0) - (if y mod 100 = 0 then 1 else 0) + (if y mod 400 = 0 then 1 else 0)"
    by (simp only: step[of 4] step[of 100] step[of 400] zero_less_numeral)
  also have "\<dots> = (if is_leap y then 366 else 365)" using m unfolding is_leap_def
    by (cases "y mod 4 = 0"; cases "y mod 100 = 0"; cases "y mod 400 = 0") simp_all
  finally show ?thesis .
qed

function year_from :: "int \<Rightarrow> int \<Rightarrow> int" where
  "year_from n y = (if days_before_year (y + 1) \<le> n then year_from n (y + 1) else y)"
  by pat_completeness auto

termination
proof (relation "measure (\<lambda>(n, y). nat (n + 1 - days_before_year y))")
  fix n y :: int
  assume "days_before_year (y + 1) \<le> n"
  then show "((n, y + 1), (n, y)) \<in> measure (\<lambda>(n, y). nat (n + 1 - days_before_year y))"
    using year_length[of y] by (simp split: if_splits)
qed simp

declare year_from.simps [simp del]

fun month_from :: "int list \<Rightarrow> int \<Rightarrow> nat \<Rightarrow> nat" where
  "month_from [] r m = m"
| "month_from (s # ss) r m = (if r < s then m else month_from ss r (m + 1))"

definition year_of_days :: "int \<Rightarrow> int" where
  "year_of_days n = year_from n (n div 366 + 1)"

definition month_of_days :: "int \<Rightarrow> nat" where
  "month_of_days n = (let y = year_of_days n in month_from (tl (month_starts (is_leap y))) (n - days_before_year y) 1)"

definition day_of_days :: "int \<Rightarrow> int" where
  "day_of_days n = (let y = year_of_days n in
     n - days_before_year y - month_starts (is_leap y) ! (month_of_days n - 1) + 1)"

section \<open>Instants and their text\<close>

definition EPOCH_DAYS :: int where "EPOCH_DAYS = 719162"
definition DAY_US :: int where "DAY_US = 86400000000"

text \<open>0001-01-01T00:00:00 and 9999-12-31T23:59:59.999999.\<close>

definition dt_ok :: "int \<Rightarrow> bool" where
  "dt_ok t = (- EPOCH_DAYS * DAY_US \<le> t \<and> t < (3652059 - EPOCH_DAYS) * DAY_US)"

definition dt_add :: "int \<Rightarrow> int \<Rightarrow> int res" where
  "dt_add t us = (if dt_ok (t + us) then Ret (t + us) else Raise (OverflowError ''date value out of range''))"

definition pad2 :: "nat \<Rightarrow> string" where
  "pad2 n = [digit_char (n div 10 mod 10), digit_char (n mod 10)]"

definition pad4 :: "nat \<Rightarrow> string" where
  "pad4 n = pad2 (n div 100) @ pad2 (n mod 100)"

definition format_rfc3339 :: "int \<Rightarrow> string" where
  "format_rfc3339 t =
     (let days = t div DAY_US + EPOCH_DAYS; s = nat (t mod DAY_US div 1000000) in
      pad4 (nat (year_of_days days)) @ ''-'' @ pad2 (month_of_days days) @ ''-'' @ pad2 (nat (day_of_days days)) @ ''T'' @
      pad2 (s div 3600) @ '':'' @ pad2 (s div 60 mod 60) @ '':'' @ pad2 (s mod 60) @ ''Z'')"

fun read_digits :: "nat \<Rightarrow> string \<Rightarrow> (nat \<times> string) option" where
  "read_digits 0 s = Some (0, s)"
| "read_digits (Suc k) [] = None"
| "read_digits (Suc k) (c # s) =
     (if is_digit c then map_option (\<lambda>(v, r). (digit_val c * 10 ^ k + v, r)) (read_digits k s) else None)"

fun read_char :: "char \<Rightarrow> string \<Rightarrow> string option" where
  "read_char c [] = None"
| "read_char c (x # s) = (if x = c then Some s else None)"

text \<open>Fractional seconds: at least one digit, truncated to microseconds.\<close>

definition read_fraction :: "string \<Rightarrow> (int \<times> string) option" where
  "read_fraction s =
     (case s of
        c # r \<Rightarrow> if c = CHR ''.'' \<or> c = CHR '',''
                 then (let ds = takeWhile is_digit r in
                       if ds = [] then None
                       else Some (int (nat_of_dec (take 6 (ds @ replicate 6 (CHR ''0'')))), dropWhile is_digit r))
                 else Some (0, s)
      | [] \<Rightarrow> Some (0, s))"

text \<open>\<open>HH:MM[:SS[.f]]\<close> as microseconds.\<close>

definition read_clock :: "string \<Rightarrow> (int \<times> string) option" where
  "read_clock s =
     Option.bind (read_digits 2 s) (\<lambda>(h, s1). Option.bind (read_char CHR '':'' s1) (\<lambda>s2.
     Option.bind (read_digits 2 s2) (\<lambda>(m, s3).
       if h > 23 \<or> m > 59 then None
       else (case read_char CHR '':'' s3 of
               None \<Rightarrow> Some (int (h * 3600 + m * 60) * 1000000, s3)
             | Some s4 \<Rightarrow> Option.bind (read_digits 2 s4) (\<lambda>(sec, s5).
                 if sec > 59 then None
                 else map_option (\<lambda>(us, r). (int (h * 3600 + m * 60 + sec) * 1000000 + us, r)) (read_fraction s5))))))"

text \<open>The offset from UTC in microseconds; text without an offset is taken as UTC by
  \<open>parse_rfc3339\<close>.\<close>

definition read_offset :: "string \<Rightarrow> int option" where
  "read_offset s =
     (case s of
        [] \<Rightarrow> Some 0
      | c # r \<Rightarrow>
          if s = ''Z'' then Some 0
          else if c = CHR ''+'' \<or> c = CHR ''-''
          then Option.bind (read_clock r) (\<lambda>(us, rest).
                 if rest \<noteq> [] then None else Some (if c = CHR ''-'' then - us else us))
          else None)"

definition fromisoformat :: "string \<Rightarrow> (int \<times> int) option" where
  "fromisoformat s =
     Option.bind (read_digits 4 s) (\<lambda>(y, s1). Option.bind (read_char CHR ''-'' s1) (\<lambda>s2.
     Option.bind (read_digits 2 s2) (\<lambda>(m, s3). Option.bind (read_char CHR ''-'' s3) (\<lambda>s4.
     Option.bind (read_digits 2 s4) (\<lambda>(d, s5).
       if \<not> date_ok (int y) m (int d) then None
       else (let base = (days_of_date (int y) m (int d) - EPOCH_DAYS) * DAY_US in
         case s5 of
           [] \<Rightarrow> Some (base, 0)
         | _ # s6 \<Rightarrow> Option.bind (read_clock s6) (\<lambda>(us, s7).
             map_option (\<lambda>off. (base + us, off)) (read_offset s7))))))))"

definition parse_rfc3339 :: "string \<Rightarrow> int res" where
  "parse_rfc3339 value =
     (let v = (if ends_with value ''Z'' then butlast value @ ''+00:00'' else value) in
      case fromisoformat v of
        None \<Rightarrow> Raise (ValueError ''Invalid isoformat string'')
      | Some (local, off) \<Rightarrow> dt_add local (- off))"

section \<open>Reading what was formatted\<close>
lemma year_from_spec: "days_before_year y \<le> n \<Longrightarrow>
    days_before_year (year_from n y) \<le> n \<and> n < days_before_year (year_from n y + 1) \<and> y \<le> year_from n y"
proof (induction n y rule: year_from.induct)
  case (1 n y)
  then show ?case by (subst (1 2 3) year_from.simps) force
qed

lemma days_before_year_le: "1 \<le> y \<Longrightarrow> days_before_year y \<le> (y - 1) * 366"
proof -
  assume "1 \<le> y"
  then have "(y - 1) div 4 \<le> y - 1" "0 \<le> (y - 1) div 100" "(y - 1) div 400 \<le> (y - 1) div 100"
    by (auto intro: zdiv_mono2)
  moreover have "(y - 1) div 4 - (y - 1) div 100 + (y - 1) div 400 \<le> y - 1" using calculation by linarith
  ultimately show ?thesis by (simp add: days_before_year_def)
qed

lemma year_of_days_spec:
  assumes "0 \<le> n"
  shows "days_before_year (year_of_days n) \<le> n" "n < days_before_year (year_of_days n + 1)" "1 \<le> year_of_days n"
proof -
  have "1 \<le> n div 366 + 1" using assms by simp
  from days_before_year_le[OF this] have "days_before_year (n div 366 + 1) \<le> n div 366 * 366" by simp
  also have "\<dots> \<le> n" by (simp add: minus_mod_eq_div_mult[symmetric])
  finally show "days_before_year (year_of_days n) \<le> n" "n < days_before_year (year_of_days n + 1)" "1 \<le> year_of_days n"
    using year_from_spec[of "n div 366 + 1" n] assms by (auto simp: year_of_days_def)
qed

lemma days_before_year_mono: "x \<le> y \<Longrightarrow> days_before_year x \<le> days_before_year y"
proof (induction y rule: int_ge_induct)
  case (step i)
  then show ?case using year_length[of i] by (auto split: if_splits)
qed simp

lemma year_of_days_le: "0 \<le> n \<Longrightarrow> n < 3652059 \<Longrightarrow> year_of_days n \<le> 9999"
proof (rule ccontr)
  assume a: "0 \<le> n" "n < 3652059" "\<not> year_of_days n \<le> 9999"
  then have "days_before_year 10000 \<le> days_before_year (year_of_days n)" by (intro days_before_year_mono) simp
  also have "\<dots> \<le> n" using year_of_days_spec[OF a(1)] by simp
  finally show False using a(2) by (simp add: days_before_year_def)
qed

lemma month_from_spec:
  assumes "0 \<le> r" "r < (if leap then 366 else 365)" and "m = month_from (tl (month_starts leap)) r 1"
  shows "1 \<le> m \<and> m \<le> 12 \<and> month_starts leap ! (m - 1) \<le> r \<and> r < month_starts leap ! m"
proof (cases leap)
  case True
  then have ms: "month_starts leap = [0, 31, 60, 91, 121, 152, 182, 213, 244, 274, 305, 335, 366]" by (simp add: month_starts_def)
  show ?thesis unfolding assms(3) ms using assms(1,2) True by simp
next
  case False
  then have ms: "month_starts leap = [0, 31, 59, 90, 120, 151, 181, 212, 243, 273, 304, 334, 365]" by (simp add: month_starts_def)
  show ?thesis unfolding assms(3) ms using assms(1,2) False by simp
qed

lemma date_of_days:
  assumes "0 \<le> n" "n < 3652059"
  shows "date_ok (year_of_days n) (month_of_days n) (day_of_days n) \<and>
    days_of_date (year_of_days n) (month_of_days n) (day_of_days n) = n"
proof -
  let ?y = "year_of_days n" and ?m = "month_of_days n"
  note y = year_of_days_spec[OF assms(1)]
  have r: "0 \<le> n - days_before_year ?y" "n - days_before_year ?y < (if is_leap ?y then 366 else 365)"
    using y year_length[of ?y] by auto
  have m: "1 \<le> ?m" "?m \<le> 12" "month_starts (is_leap ?y) ! (?m - 1) \<le> n - days_before_year ?y"
    "n - days_before_year ?y < month_starts (is_leap ?y) ! ?m"
    using month_from_spec[OF r refl] by (auto simp: month_of_days_def Let_def)
  then show ?thesis using y year_of_days_le[OF assms]
    by (auto simp: date_ok_def days_in_month_def day_of_days_def Let_def days_of_date_def)
qed

lemma days_in_month_le: "1 \<le> m \<Longrightarrow> m \<le> 12 \<Longrightarrow> days_in_month y m \<le> 31"
proof -
  assume "1 \<le> m" "m \<le> 12"
  then have "m = 1 \<or> m = 2 \<or> m = 3 \<or> m = 4 \<or> m = 5 \<or> m = 6 \<or> m = 7 \<or> m = 8 \<or> m = 9 \<or> m = 10 \<or> m = 11 \<or> m = 12"
    by arith
  then show ?thesis by (auto simp: days_in_month_def month_starts_def)
qed

lemma read_pad2: "n < 100 \<Longrightarrow> read_digits 2 (pad2 n @ r) = Some (n, r)"
  by (simp add: numeral_2_eq_2 pad2_def less_mult_imp_div_less)

lemma read_pad4: "n < 10000 \<Longrightarrow> read_digits 4 (pad4 n @ r) = Some (n, r)"
proof -
  assume n: "n < 10000"
  have d: "n div 100 div 10 mod 10 < 10" "n div 100 mod 10 < 10" "n mod 100 div 10 mod 10 < 10" "n mod 100 mod 10 < 10" by simp_all
  have "n div 100 div 10 mod 10 * 1000 + (n div 100 mod 10 * 100 + (n mod 100 div 10 mod 10 * 10 + n mod 100 mod 10)) = n"
  proof -
    have two: "x div 10 mod 10 * 10 + x mod 10 = x" if "x < 100" for x :: nat
      using that by (simp add: less_mult_imp_div_less)
    have "n div 100 div 10 mod 10 * 10 + n div 100 mod 10 = n div 100" using n by (intro two) (simp add: less_mult_imp_div_less)
    moreover have "n mod 100 div 10 mod 10 * 10 + n mod 100 mod 10 = n mod 100" by (intro two) simp
    moreover have "n div 100 * 100 + n mod 100 = n" by simp
    ultimately show ?thesis by linarith
  qed
  moreover have "read_digits 4 (pad4 n @ r) = Some (n div 100 div 10 mod 10 * 1000 + (n div 100 mod 10 * 100 + (n mod 100 div 10 mod 10 * 10 + n mod 100 mod 10)), r)"
  proof -
    have four: "(4 :: nat) = Suc (Suc (Suc (Suc 0)))" by simp
    show ?thesis unfolding pad4_def pad2_def four using d by (simp del: One_nat_def)
  qed
  ultimately show ?thesis by (simp only:)
qed

lemma EPOCH_DAY: "EPOCH_DAYS = 719162" "DAY_US = 86400000000"
  by (simp_all add: EPOCH_DAYS_def DAY_US_def)

lemma read_clock_pad:
  assumes "h < 24" "m < 60" "s < 60" "r \<noteq> [] \<longrightarrow> hd r \<noteq> CHR ''.'' \<and> hd r \<noteq> CHR '',''"
  shows "read_clock (pad2 h @ CHR '':'' # pad2 m @ CHR '':'' # pad2 s @ r) = Some (int (h * 3600 + m * 60 + s) * 1000000, r)"
  using assms read_pad2[of h] read_pad2[of m] read_pad2[of s]
    read_pad2[of s "[]"]
  by (cases r) (simp_all add: read_clock_def read_fraction_def)

lemma parse_format_rfc3339:
  assumes "dt_ok t"
  shows "parse_rfc3339 (format_rfc3339 t) = Ret (t div 1000000 * 1000000)"
proof -
  define days where "days = t div DAY_US + EPOCH_DAYS"
  define sec where "sec = nat (t mod DAY_US div 1000000)"
  let ?y = "year_of_days days" and ?m = "month_of_days days" and ?d = "day_of_days days"
  have tr: "- EPOCH_DAYS \<le> t div DAY_US" "t div DAY_US < 3652059 - EPOCH_DAYS"
    using assms zdiv_mono1[of "- EPOCH_DAYS * DAY_US" t DAY_US]
    by (auto simp: dt_ok_def EPOCH_DAY div_less_iff_less_mult)
  then have n: "0 \<le> days" "days < 3652059" by (simp_all add: days_def)
  have sec: "sec < 86400" by (simp add: sec_def EPOCH_DAY nat_less_iff)
  note dd = date_of_days[OF n]
  have dok: "1 \<le> ?y" "?y \<le> 9999" "1 \<le> ?m" "?m \<le> 12" "1 \<le> ?d" "?d \<le> 31"
    using dd days_in_month_le[of ?m ?y] by (auto simp: date_ok_def)
  let ?hms = "pad2 (sec div 3600) @ CHR '':'' # pad2 (sec div 60 mod 60) @ CHR '':'' # pad2 (sec mod 60)"
  let ?body = "pad4 (nat ?y) @ CHR ''-'' # pad2 ?m @ CHR ''-'' # pad2 (nat ?d) @ CHR ''T'' # ?hms"
  have fmt: "format_rfc3339 t = ?body @ ''Z''"
    by (simp add: format_rfc3339_def days_def sec_def Let_def)
  have clock: "read_clock (?hms @ ''+00:00'') = Some (int (sec div 3600 * 3600 + sec div 60 mod 60 * 60 + sec mod 60) * 1000000, ''+00:00'')"
    using read_clock_pad[of "sec div 3600" "sec div 60 mod 60" "sec mod 60" "''+00:00''"] sec by (simp add: less_mult_imp_div_less)
  have hms: "sec div 3600 * 3600 + sec div 60 mod 60 * 60 + sec mod 60 = sec"
  proof -
    have "sec div 3600 = sec div 60 div 60" by (simp add: div_mult2_eq[symmetric])
    moreover have "sec div 60 div 60 * 60 + sec div 60 mod 60 = sec div 60" "sec div 60 * 60 + sec mod 60 = sec" by simp_all
    ultimately show ?thesis by linarith
  qed
  have off: "read_offset ''+00:00'' = Some 0" by code_simp
  have iso: "fromisoformat (?body @ ''+00:00'') = Some ((days - EPOCH_DAYS) * DAY_US + int sec * 1000000, 0)"
    unfolding fromisoformat_def using dok dd clock off hms
    by (simp add: read_pad4 read_pad2)
  have parse: "parse_rfc3339 (format_rfc3339 t) = dt_add ((days - EPOCH_DAYS) * DAY_US + int sec * 1000000) 0"
    unfolding parse_rfc3339_def fmt Let_def using iso by (simp add: ends_with_def butlast_append)
  have "(days - EPOCH_DAYS) * DAY_US + int sec * 1000000 = t div 1000000 * 1000000"
  proof -
    have "t mod DAY_US div 1000000 * 1000000 = t mod DAY_US - t mod DAY_US mod 1000000" by (simp add: minus_mod_eq_div_mult)
    moreover have "t mod DAY_US mod 1000000 = t mod 1000000" by (simp add: EPOCH_DAY mod_mod_cancel)
    moreover have "t div 1000000 * 1000000 = t - t mod 1000000" "t div DAY_US * DAY_US = t - t mod DAY_US"
      by (simp_all add: minus_mod_eq_div_mult)
    moreover have "int sec = t mod DAY_US div 1000000" by (simp add: sec_def EPOCH_DAY)
    ultimately show ?thesis by (simp add: days_def)
  qed
  moreover have "dt_ok (t div 1000000 * 1000000)" 
  proof -
    have "t div 1000000 * 1000000 = t - t mod 1000000" "0 \<le> t mod 1000000" by (simp_all add: minus_mod_eq_div_mult)
    moreover have "- EPOCH_DAYS * DAY_US div 1000000 \<le> t div 1000000"
      using assms by (intro zdiv_mono1) (simp_all add: dt_ok_def)
    ultimately show ?thesis using assms unfolding dt_ok_def EPOCH_DAY by (simp; linarith)
  qed
  ultimately show ?thesis using parse by (simp add: dt_add_def)
qed

lemma parse_rfc3339_ok: "parse_rfc3339 s = Ret t \<Longrightarrow> dt_ok t"
  by (auto simp: parse_rfc3339_def dt_add_def Let_def split: option.splits if_splits)

lemma dt_add_Inr: "dt_add t us = Inr u \<longleftrightarrow> u = t + us \<and> dt_ok u"
  by (auto simp: dt_add_def)

lemma trunc_second_le: "t div 1000000 * 1000000 \<le> (t :: int)"
  using minus_mod_eq_div_mult[of t 1000000] pos_mod_sign[of 1000000 t] by linarith

text \<open>Time stamps survive the text form: parsing the RFC 3339 text of an instant gives the instant
  truncated to whole seconds, for every instant that Python can represent.\<close>

theorem rfc3339_roundtrip:
  assumes "dt_ok t"
  shows "parse_rfc3339 (format_rfc3339 t) = Ret (t div 1000000 * 1000000)"
  using assms by (rule parse_format_rfc3339)

theorem rfc3339_roundtrip_witness:
  "parse_rfc3339 (format_rfc3339 1709210096250000) = Ret 1709210096000000"
proof -
  have "dt_ok 1709210096250000" by (simp add: dt_ok_def EPOCH_DAYS_def DAY_US_def)
  from rfc3339_roundtrip[OF this] show ?thesis by simp
qed

end
