(* ===== verification/Objects.thy ===== *)
theory Objects
  imports Endpoint RfcTime
begin

text \<open>
  \<open>models/authenticity_object.py\<close>, \<open>models/verification.py\<close> and \<open>admin/object_builder.py\<close>:
  authenticity objects, their dictionary form, and verification results.
\<close>

section \<open>Authenticity objects\<close>

record operator_info =
  op_operator_id :: json
  op_name :: json
  op_trust_domain :: json

definition operator_from_dict :: "json \<Rightarrow> operator_info res" where
  "operator_from_dict data =
     bind_res (json_item data ''operator_id'') (\<lambda>i. bind_res (json_item data ''name'') (\<lambda>n.
     bind_res (as_dict data) (\<lambda>d.
       Ret \<lparr>op_operator_id = i, op_name = n, op_trust_domain = jget0 d ''trust_domain''\<rparr>)))"

definition operator_to_dict :: "operator_info \<Rightarrow> jdict" where
  "operator_to_dict op = filter (\<lambda>kv. snd kv \<noteq> JNull)
     [(''operator_id'', op_operator_id op), (''name'', op_name op), (''trust_domain'', op_trust_domain op)]"

record auth_object =
  o_resolver_id :: json
  o_resolver_type :: json
  o_operator :: operator_info
  o_endpoints :: "endpoint list"
  o_valid_from :: json
  o_valid_until :: json
  o_object_version :: int
  o_issuer :: json
  o_key_id :: json
  o_schema_version :: json
  o_canonical_version :: int
  o_status :: json
  o_attestation :: jdict
  o_signature :: json

text \<open>\<open>dict(v)\<close>: the copy of a dictionary, or the dictionary of a list of (text, value) pairs.\<close>

fun dict_of_json :: "json \<Rightarrow> jdict res" where
  "dict_of_json (JObj d) = Ret d"
| "dict_of_json (JArr xs) =
     bind_res (map_res (\<lambda>x. case x of JArr [JStr k, v] \<Rightarrow> Ret (k, v)
       | _ \<Rightarrow> Raise (TypeError ''cannot convert dictionary update sequence element'')) xs) (\<lambda>kvs.
     Ret (dict_update [] kvs))"
| "dict_of_json (JStr s) = Raise (ValueError ''dictionary update sequence element has length 1; 2 is required'')"
| "dict_of_json _ = Raise (TypeError ''object is not iterable'')"

definition object_from_dict :: "jdict \<Rightarrow> auth_object res" where
  "object_from_dict data =
     bind_res (json_int (jget data ''canonical_version'' (JInt 1))) (\<lambda>canonical_version.
     bind_res (jitem data ''resolver_id'') (\<lambda>resolver_id.
     bind_res (bind_res (jitem data ''operator'') operator_from_dict) (\<lambda>operator.
     bind_res (bind_res (as_list (jget data ''endpoints'' (JArr [])))
        (map_res (\<lambda>e. bind_res (as_dict e) endpoint_from_dict))) (\<lambda>endpoints.
     bind_res (dict_of_json (jor (jget0 data ''attestation'') (JObj []))) (\<lambda>attestation.
     bind_res (jitem data ''valid_from'') (\<lambda>valid_from.
     bind_res (jitem data ''valid_until'') (\<lambda>valid_until.
     bind_res (json_int (jget data ''object_version'' (JInt 1))) (\<lambda>object_version.
     bind_res (jitem data ''issuer'') (\<lambda>issuer.
     bind_res (jitem data ''key_id'') (\<lambda>key_id.
     Ret \<lparr>o_resolver_id = resolver_id,
          o_resolver_type = jget data ''resolver_type'' (JStr ''recursive-forwarder''),
          o_operator = operator, o_endpoints = endpoints, o_valid_from = valid_from,
          o_valid_until = valid_until, o_object_version = object_version, o_issuer = issuer,
          o_key_id = key_id, o_schema_version = jget data ''schema_version'' (JStr ''resolver-auth-object-v1''),
          o_canonical_version = canonical_version, o_status = jget data ''status'' (JStr ''ACTIVE''),
          o_attestation = attestation, o_signature = jget0 data ''signature''\<rparr>))))))))))"

definition endpoint_dict_normalized :: "endpoint \<Rightarrow> json res" where
  "endpoint_dict_normalized e = bind_res (normalized e) (\<lambda>n. Ret (JObj (endpoint_to_dict n)))"

definition object_to_dict :: "bool \<Rightarrow> auth_object \<Rightarrow> jdict res" where
  "object_to_dict include_signature ob =
     bind_res (map_res endpoint_dict_normalized (o_endpoints ob)) (\<lambda>endpoints.
     Ret ([(''schema_version'', o_schema_version ob),
           (''canonical_version'', JInt (o_canonical_version ob)),
           (''resolver_id'', o_resolver_id ob),
           (''resolver_type'', o_resolver_type ob),
           (''operator'', JObj (operator_to_dict (o_operator ob))),
           (''endpoints'', JArr endpoints),
           (''attestation'', JObj (o_attestation ob)),
           (''valid_from'', o_valid_from ob),
           (''valid_until'', o_valid_until ob),
           (''status'', o_status ob),
           (''object_version'', JInt (o_object_version ob)),
           (''issuer'', o_issuer ob),
           (''key_id'', o_key_id ob)]
          @ (if include_signature \<and> o_signature ob \<noteq> JNull then [(''signature'', o_signature ob)] else [])))"

section \<open>Building objects\<close>

definition build_resolver_object ::
  "string \<Rightarrow> string \<Rightarrow> string \<Rightarrow> json list \<Rightarrow> string \<Rightarrow> string \<Rightarrow> string \<Rightarrow> string \<Rightarrow> int \<Rightarrow> string \<Rightarrow>
   string option \<Rightarrow> string \<Rightarrow> auth_object res" where
  "build_resolver_object resolver_id operator_id operator_name endpoints valid_from valid_until issuer key_id
     object_version status agent_public_key_b64 agent_key_id =
     (let attestation = [(''type'', JStr ''operator-signature''), (''value'', JStr ''prototype'')] @
        (case agent_public_key_b64 of
           None \<Rightarrow> []
         | Some pk \<Rightarrow> if pk = [] then [] else
             [(''agent'', JObj [(''algorithm'', JStr ''ed25519''), (''public_key'', JStr pk), (''key_id'', JStr agent_key_id)])])
      in bind_res (map_res (\<lambda>e. bind_res (as_dict e) endpoint_from_dict) endpoints) (\<lambda>eps.
         Ret \<lparr>o_resolver_id = JStr resolver_id, o_resolver_type = JStr ''recursive-forwarder'',
              o_operator = \<lparr>op_operator_id = JStr operator_id, op_name = JStr operator_name,
                            op_trust_domain = JStr (operator_id @ ''.example'')\<rparr>,
              o_endpoints = eps, o_valid_from = JStr valid_from, o_valid_until = JStr valid_until,
              o_object_version = object_version, o_issuer = JStr issuer, o_key_id = JStr key_id,
              o_schema_version = JStr ''resolver-auth-object-v1'', o_canonical_version = 1,
              o_status = JStr status, o_attestation = attestation, o_signature = JNull\<rparr>))"

section \<open>Verification results\<close>

record verification_result =
  vr_accepted :: bool
  vr_status :: string
  vr_resolver_id :: json
  vr_reasons :: "string list"
  vr_evidence :: jdict

definition vr_accept :: "json \<Rightarrow> string \<Rightarrow> jdict \<Rightarrow> verification_result" where
  "vr_accept resolver_id status evidence =
     \<lparr>vr_accepted = True, vr_status = status, vr_resolver_id = resolver_id, vr_reasons = [], vr_evidence = evidence\<rparr>"

definition vr_reject :: "string \<Rightarrow> json \<Rightarrow> jdict \<Rightarrow> verification_result" where
  "vr_reject reason resolver_id evidence =
     \<lparr>vr_accepted = False, vr_status = ''REJECTED'', vr_resolver_id = resolver_id, vr_reasons = [reason], vr_evidence = evidence\<rparr>"

definition vr_to_dict :: "verification_result \<Rightarrow> jdict" where
  "vr_to_dict r = [(''accepted'', JBool (vr_accepted r)), (''status'', JStr (vr_status r)),
     (''resolver_id'', vr_resolver_id r), (''reasons'', JArr (map JStr (vr_reasons r))), (''evidence'', JObj (vr_evidence r))]"

lemma vr_accept_sel [simp]:
  "vr_accepted (vr_accept i s ev)" "vr_status (vr_accept i s ev) = s" "vr_resolver_id (vr_accept i s ev) = i"
  "vr_evidence (vr_accept i s ev) = ev" "vr_reasons (vr_accept i s ev) = []"
  by (simp_all add: vr_accept_def)

lemma vr_reject_sel [simp]:
  "\<not> vr_accepted (vr_reject r i ev)" "vr_status (vr_reject r i ev) = ''REJECTED''" "vr_reasons (vr_reject r i ev) = [r]"
  "vr_resolver_id (vr_reject r i ev) = i" "vr_evidence (vr_reject r i ev) = ev"
  by (simp_all add: vr_reject_def)

lemma accept_neq_reject [simp]: "vr_accept i s ev \<noteq> vr_reject r j ev'" "vr_reject r j ev' \<noteq> vr_accept i s ev"
  by (auto simp: vr_accept_def vr_reject_def)

section \<open>The dictionary form\<close>

text \<open>An endpoint as the class produces it, on which normalization has no further effect, with a
  transport.\<close>

definition endpoint_stable :: "endpoint \<Rightarrow> bool" where
  "endpoint_stable e \<longleftrightarrow> normalized e = Ret e \<and> e_transport e \<noteq> JStr [] \<and> e_endpoint_id e \<noteq> JArr []"

definition operator_complete :: "operator_info \<Rightarrow> bool" where
  "operator_complete op \<longleftrightarrow> op_operator_id op \<noteq> JNull \<and> op_name op \<noteq> JNull"

lemma endpoint_stable_roundtrip: "endpoint_stable e \<Longrightarrow> endpoint_from_dict (endpoint_to_dict e) = Ret e"
  using endpoint_dict_roundtrip[of e e] by (simp add: endpoint_stable_def)

lemma operator_roundtrip: "operator_complete op \<Longrightarrow> operator_from_dict (JObj (operator_to_dict op)) = Ret op"
  by (cases op) (auto simp: operator_complete_def operator_from_dict_def operator_to_dict_def jitem_def)

lemma map_res_normalized_stable:
  "\<forall>e\<in>set es. endpoint_stable e \<Longrightarrow> map_res endpoint_dict_normalized es = Ret (map (\<lambda>e. JObj (endpoint_to_dict e)) es)"
  by (rule map_res_Ret) (auto simp: endpoint_dict_normalized_def endpoint_stable_def)

lemma map_res_from_dict_stable:
  "\<forall>e\<in>set es. endpoint_stable e \<Longrightarrow>
     map_res (\<lambda>e. bind_res (as_dict e) endpoint_from_dict) (map (\<lambda>e. JObj (endpoint_to_dict e)) es) = Ret es"
  by (induction es) (auto simp: endpoint_stable_roundtrip)

definition object_stable :: "auth_object \<Rightarrow> bool" where
  "object_stable ob \<longleftrightarrow> (\<forall>e\<in>set (o_endpoints ob). endpoint_stable e) \<and> operator_complete (o_operator ob)"

lemma object_to_dict_stable:
  assumes "object_stable ob"
  shows "\<exists>d. object_to_dict inc ob = Ret d \<and> object_from_dict d = Ret (if inc then ob else ob\<lparr>o_signature := JNull\<rparr>)"
proof -
  let ?eps = "map (\<lambda>e. JObj (endpoint_to_dict e)) (o_endpoints ob)"
  have eps: "map_res endpoint_dict_normalized (o_endpoints ob) = Ret ?eps"
    "map_res (\<lambda>e. bind_res (as_dict e) endpoint_from_dict) ?eps = Ret (o_endpoints ob)"
    using assms map_res_normalized_stable map_res_from_dict_stable by (auto simp: object_stable_def)
  have op: "operator_from_dict (JObj (operator_to_dict (o_operator ob))) = Ret (o_operator ob)"
    using assms by (simp add: object_stable_def operator_roundtrip)
  have att: "dict_of_json (jor (JObj (o_attestation ob)) (JObj [])) = Ret (o_attestation ob)"
    by (simp add: jor_def)
  show ?thesis
    unfolding object_to_dict_def eps(1) bind_res_simps using eps(2) op att
    by (cases ob) (auto simp: object_from_dict_def jitem_def)
qed

text \<open>The dictionary form keeps an object: if its endpoints are in canonical form and its operator is
  named, \<open>to_dict\<close> and \<open>from_dict\<close> return, and reading the dictionary gives the object again
  (without its signature when that was left out).\<close>

theorem object_dict_roundtrip:
  assumes "\<forall>e\<in>set (o_endpoints ob). endpoint_stable e" and "operator_complete (o_operator ob)"
  shows "\<exists>d. object_to_dict inc ob = Ret d \<and> object_from_dict d = Ret (if inc then ob else ob\<lparr>o_signature := JNull\<rparr>)"
  using assms by (intro object_to_dict_stable) (simp add: object_stable_def)

definition demo_endpoint :: endpoint where
  "demo_endpoint = \<lparr>e_endpoint_id = JStr ''ep1'', e_ip = JStr ''192.0.2.53'', e_port = JInt 53,
     e_transport = JStr ''udp'', e_uri = JNull, e_server_name = JStr ''r1.example'', e_alpn = []\<rparr>"

definition demo_object :: auth_object where
  "demo_object = \<lparr>o_resolver_id = JStr ''resolver-1'', o_resolver_type = JStr ''recursive-forwarder'',
     o_operator = \<lparr>op_operator_id = JStr ''op1'', op_name = JStr ''Operator'', op_trust_domain = JNull\<rparr>,
     o_endpoints = [demo_endpoint], o_valid_from = JStr ''2024-01-01T00:00:00Z'', o_valid_until = JStr ''2030-01-01T00:00:00Z'',
     o_object_version = 3, o_issuer = JStr ''issuer'', o_key_id = JStr ''k1'',
     o_schema_version = JStr ''resolver-auth-object-v1'', o_canonical_version = 1, o_status = JStr ''ACTIVE'',
     o_attestation = [(''type'', JStr ''operator-signature'')], o_signature = JNull\<rparr>"

lemma demo_endpoint_stable: "endpoint_stable demo_endpoint"
proof -
  have "canonical_ip ''192.0.2.53'' = Ret ''192.0.2.53''" by code_simp
  moreover have "normalize_name ''r1.example'' = ''r1.example''" by code_simp
  moreover have "py_lower ''udp'' = ''udp''" by code_simp
  ultimately show ?thesis
    by (simp add: endpoint_stable_def demo_endpoint_def normalized_def if_truthy_str_def normalized_port_def lower_value_def)
qed

theorem object_dict_roundtrip_witness:
  "\<exists>d. object_to_dict True demo_object = Ret d \<and> object_from_dict d = Ret demo_object"
  using object_dict_roundtrip[of demo_object True] demo_endpoint_stable
  by (simp add: demo_object_def operator_complete_def)

end
