(* ===== verification/EndpointKeys.thy ===== *)
theory EndpointKeys
  imports Hashes Objects
begin

text \<open>
  The keys of an endpoint: \<open>endpoint_lookup_key\<close> of \<open>admin/publisher.py\<close>, which the registry
  binds, and \<open>trusted_cache_key\<close> of \<open>verifier/cache_keys.py\<close>, which identifies a cached
  verification.
\<close>

definition binding_text :: "endpoint \<Rightarrow> string" where
  "binding_text n = ''endpoint-v2:'' @ canonical_json_text (JObj (dict_pop (endpoint_to_dict n) ''endpoint_id''))"

definition endpoint_lookup_key :: "endpoint \<Rightarrow> string res" where
  "endpoint_lookup_key ep =
     bind_res (normalized ep) (\<lambda>n.
       if \<not> (truthy (e_ip n) \<or> truthy (e_server_name n) \<or> truthy (e_uri n))
       then Raise (ValueError ''endpoint must include ip, server_name, or uri'')
       else Ret (sha256_hex_str (binding_text n)))"

text \<open>\<open>v or ""\<close> in a list that is joined: what is not text raises.\<close>

definition text_or_empty :: "json \<Rightarrow> string res" where
  "text_or_empty v = (if truthy v then (case v of JStr s \<Rightarrow> Ret s | _ \<Rightarrow> Raise (TypeError ''sequence item: expected str instance'')) else Ret [])"

definition port_text :: "json \<Rightarrow> string" where
  "port_text v = (case v of JInt i \<Rightarrow> if i = 0 then [] else dec_of_int i | _ \<Rightarrow> [])"

definition cache_key_text :: "endpoint \<Rightarrow> string \<Rightarrow> int option \<Rightarrow> string res" where
  "cache_key_text n resolver_id object_version =
     bind_res (text_or_empty (e_ip n)) (\<lambda>ip. bind_res (text_or_empty (e_transport n)) (\<lambda>tr.
     bind_res (text_or_empty (e_server_name n)) (\<lambda>sn. bind_res (text_or_empty (e_uri n)) (\<lambda>ur.
       Ret (py_join ''|'' [''trusted-cache-v1'', resolver_id, ip, port_text (e_port n), tr, sn, ur,
          (case object_version of None \<Rightarrow> [] | Some v \<Rightarrow> dec_of_int v)])))))"

definition trusted_cache_key :: "endpoint \<Rightarrow> string \<Rightarrow> int option \<Rightarrow> string res" where
  "trusted_cache_key ep resolver_id object_version =
     bind_res (normalized ep) (\<lambda>n. bind_res (cache_key_text n resolver_id object_version) (\<lambda>t. Ret (sha256_hex_str t)))"

section \<open>Facts\<close>

lemma endpoint_lookup_key_stable:
  assumes "endpoint_stable e"
  shows "endpoint_lookup_key e = (if truthy (e_ip e) \<or> truthy (e_server_name e) \<or> truthy (e_uri e)
    then Ret (sha256_hex_str (binding_text e)) else Raise (ValueError ''endpoint must include ip, server_name, or uri''))"
  using assms by (simp add: endpoint_lookup_key_def endpoint_stable_def)

lemma normalized_text_fields:
  assumes "normalized e = Ret n"
  shows "\<exists>ip sn ur tr p. text_or_empty (e_ip n) = Ret ip \<and> text_or_empty (e_server_name n) = Ret sn \<and>
    text_or_empty (e_uri n) = Ret ur \<and> text_or_empty (e_transport n) = Ret tr \<and> e_port n = JInt p"
proof -
  have tx: "\<exists>s. text_or_empty w = Ret s" if "if_truthy_str f v = Inr w" for f v w
    using that by (auto simp: if_truthy_str_Inr text_or_empty_def)
  have n: "if_truthy_str canonical_ip (e_ip e) = Inr (e_ip n)"
     "if_truthy_str (\<lambda>s. Ret (normalize_name s)) (e_server_name e) = Inr (e_server_name n)"
     "if_truthy_str canonical_uri (e_uri e) = Inr (e_uri n)"
     "normalized_port (e_port e) (e_transport e) = Inr (e_port n)"
     "lower_value (e_transport e) = Inr (e_transport n)"
    using assms by (auto simp: normalized_Inr)
  have "\<exists>s. text_or_empty (e_transport n) = Ret s"
  proof -
    obtain t where "e_transport n = JStr t" using n(5) by (auto simp: lower_value_Inr)
    then show ?thesis by (cases "t = []") (simp_all add: text_or_empty_def)
  qed
  then show ?thesis using tx[OF n(1)] tx[OF n(2)] tx[OF n(3)] normalized_port_Inr[OF n(4)] by blast
qed

text \<open>Once an endpoint normalizes, its cache key exists.\<close>

lemma trusted_cache_key_total:
  assumes "normalized e = Ret n" "normalized n = Ret n'"
  shows "\<exists>k. trusted_cache_key n i v = Ret k"
proof -
  obtain ip sn ur tr where "text_or_empty (e_ip n') = Ret ip" "text_or_empty (e_server_name n') = Ret sn"
    "text_or_empty (e_uri n') = Ret ur" "text_or_empty (e_transport n') = Ret tr"
    using normalized_text_fields[OF assms(2)] by blast
  then show ?thesis unfolding trusted_cache_key_def cache_key_text_def assms(2) bind_res_simps by (simp only: bind_res_simps) blast
qed

text \<open>The binding text of two endpoints is equal only if they agree on everything but their id.\<close>

definition endpoint_identity :: "endpoint \<Rightarrow> jdict" where
  "endpoint_identity n = dict_pop (endpoint_to_dict n) ''endpoint_id''"

lemma endpoint_identity_eq:
  "endpoint_identity n = filter (\<lambda>kv. snd kv \<noteq> JNull \<and> snd kv \<noteq> JArr [])
       [(''ip'', e_ip n), (''port'', e_port n), (''transport'', e_transport n), (''uri'', e_uri n),
        (''server_name'', e_server_name n), (''alpn'', JArr (e_alpn n))]"
proof -
  have comm: "filter Q (filter P xs) = filter P (filter Q xs)" for P Q and xs :: "(string \<times> json) list"
    by (induction xs) auto
  have keys: "filter (\<lambda>kv. fst kv \<noteq> ''endpoint_id'') [(''endpoint_id'', x0), (''ip'', x1), (''port'', x2), (''transport'', x3),
      (''uri'', x4), (''server_name'', x5), (''alpn'', x6)] =
      [(''ip'', x1), (''port'', x2), (''transport'', x3), (''uri'', x4), (''server_name'', x5), (''alpn'', x6)]"
    for x0 x1 x2 x3 x4 x5 x6 :: json by simp
  show ?thesis
    unfolding endpoint_identity_def endpoint_to_dict_def dict_pop_def comm[of "\<lambda>kv. fst kv \<noteq> ''endpoint_id''"] keys ..
qed

end
