(* ===== verification/Effects.thy ===== *)
theory Effects
  imports Prelude
begin

text \<open>
  State with exceptions.  An operation that changes state and may raise is a function from the
  state to the outcome and the state it leaves, so that the effects made before an exception
  stay visible, as they do in the program.
\<close>

type_synonym ('s, 'a) op = "'s \<Rightarrow> 'a res \<times> 's"

definition retS :: "'a \<Rightarrow> ('s, 'a) op" where "retS x s = (Inr x, s)"
definition raiseS :: "pyerr \<Rightarrow> ('s, 'a) op" where "raiseS e s = (Inl e, s)"
definition liftS :: "'a res \<Rightarrow> ('s, 'a) op" where "liftS r s = (r, s)"
definition getS :: "('s \<Rightarrow> 'a) \<Rightarrow> ('s, 'a) op" where "getS f s = (Inr (f s), s)"
definition modS :: "('s \<Rightarrow> 's) \<Rightarrow> ('s, unit) op" where "modS f s = (Inr (), f s)"

definition bindS :: "('s, 'a) op \<Rightarrow> ('a \<Rightarrow> ('s, 'b) op) \<Rightarrow> ('s, 'b) op" where
  "bindS m f s = (case m s of (Inl e, s') \<Rightarrow> (Inl e, s') | (Inr x, s') \<Rightarrow> f x s')"

definition seqS :: "('s, 'a) op \<Rightarrow> ('s, 'b) op \<Rightarrow> ('s, 'b) op" where
  "seqS m n = bindS m (\<lambda>_. n)"

fun forS :: "'a list \<Rightarrow> ('a \<Rightarrow> ('s, unit) op) \<Rightarrow> ('s, unit) op" where
  "forS [] f = retS ()"
| "forS (x # xs) f = seqS (f x) (forS xs f)"

text \<open>Running an operation on a part of a larger state.\<close>

definition zoomS :: "('t \<Rightarrow> 's) \<Rightarrow> ('s \<Rightarrow> 't \<Rightarrow> 't) \<Rightarrow> ('s, 'a) op \<Rightarrow> ('t, 'a) op" where
  "zoomS get put m t = (case m (get t) of (r, s) \<Rightarrow> (r, put s t))"

lemma runS [simp]:
  "retS x s = (Inr x, s)" "raiseS e s = (Inl e, s)" "liftS r s = (r, s)" "getS g s = (Inr (g s), s)" "modS h s = (Inr (), h s)"
  by (simp_all add: retS_def raiseS_def liftS_def getS_def modS_def)

lemma bindS_Inr: "bindS m f s = (Inr y, t) \<longleftrightarrow> (\<exists>x u. m s = (Inr x, u) \<and> f x u = (Inr y, t))"
  by (auto simp: bindS_def split: prod.splits sum.splits)

lemma bindS_eq: "m s = (Inr x, u) \<Longrightarrow> bindS m f s = f x u" "m s = (Inl e, u) \<Longrightarrow> bindS m f s = (Inl e, u)"
  by (simp_all add: bindS_def)

lemma bindS_simps [simp]:
  "bindS (retS x) f = f x" "bindS (raiseS e) f = raiseS e" "bindS (liftS (Inr x)) f = f x"
  "bindS (liftS (Inl e)) f = raiseS e"
  "bindS (getS g) f s = f (g s) s" "bindS (modS h) k s = k () (h s)"
  by (auto simp: bindS_def fun_eq_iff)

lemma seqS_simps [simp]:
  "seqS (retS x) n = n" "seqS (modS h) n s = n (h s)" "seqS (raiseS e) n = raiseS e"
  by (simp_all add: seqS_def fun_eq_iff)

lemma seqS_Inr: "seqS m n s = (Inr y, t) \<longleftrightarrow> (\<exists>x u. m s = (Inr x, u) \<and> n u = (Inr y, t))"
  by (simp add: seqS_def bindS_Inr)

lemma seqS_eq: "m s = (Inr x, u) \<Longrightarrow> seqS m n s = n u" "m s = (Inl e, u) \<Longrightarrow> seqS m n s = (Inl e, u)"
  by (simp_all add: seqS_def bindS_eq)

lemma zoomS_eq: "m (get t) = (r, s) \<Longrightarrow> zoomS get put m t = (r, put s t)"
  by (simp add: zoomS_def)

section \<open>Invariants of operations\<close>

text \<open>An operation keeps a predicate whether it returns or raises.\<close>

definition keeps :: "('s \<Rightarrow> bool) \<Rightarrow> ('s, 'a) op \<Rightarrow> bool" where
  "keeps I m \<longleftrightarrow> (\<forall>s. I s \<longrightarrow> I (snd (m s)))"

lemma keepsI: "(\<And>s. I s \<Longrightarrow> I (snd (m s))) \<Longrightarrow> keeps I m"
  by (simp add: keeps_def)

lemma keepsD: "keeps I m \<Longrightarrow> I s \<Longrightarrow> I (snd (m s))"
  by (simp add: keeps_def)

lemma keeps_basic [intro, simp]:
  "keeps I (retS x)" "keeps I (raiseS e)" "keeps I (liftS r)" "keeps I (getS g)"
  by (simp_all add: keeps_def)

lemma keeps_modS: "(\<And>s. I s \<Longrightarrow> I (h s)) \<Longrightarrow> keeps I (modS h)"
  by (simp add: keeps_def)

lemma keeps_bindS: "keeps I m \<Longrightarrow> (\<And>x. keeps I (f x)) \<Longrightarrow> keeps I (bindS m f)"
  unfolding keeps_def bindS_def by (auto split: prod.splits sum.splits simp: prod_eq_iff) (metis prod.exhaust_sel snd_conv)?

lemma keeps_seqS: "keeps I m \<Longrightarrow> keeps I n \<Longrightarrow> keeps I (seqS m n)"
  by (simp add: seqS_def keeps_bindS)

lemma keeps_forS: "(\<And>x. x \<in> set xs \<Longrightarrow> keeps I (f x)) \<Longrightarrow> keeps I (forS xs f)"
  by (induction xs) (auto intro: keeps_seqS)

lemma keeps_if: "keeps I m \<Longrightarrow> keeps I n \<Longrightarrow> keeps I (if b then m else n)"
  by simp

end
