(* ===== verification/Database.thy ===== *)
theory Database
  imports Effects Objects Hashes
begin

text \<open>
  \<open>db/schema.py\<close> and the repositories of \<open>db/repositories.py\<close> that every component uses: the
  tables of the SQLite database, the audit log and the runtime state.  A table is the list of
  its rows in the order of their row ids; columns that hold JSON text hold the value.  Statements
  are executed one at a time under the connection's lock.
\<close>

section \<open>Tables\<close>

record object_row =
  ro_resolver_id :: string
  ro_resolver_id_key :: string
  ro_object_json :: jdict
  ro_object_hash :: string
  ro_object_version :: int
  ro_status :: json
  ro_valid_from :: json
  ro_valid_until :: json
  ro_state_root :: string
  ro_issuer :: json
  ro_key_id :: json

record endpoint_row =
  re_resolver_id :: string
  re_endpoint_json :: jdict
  re_endpoint_key :: string

record lookup_row =
  rl_lookup_key :: string
  rl_resolver_id_key :: string
  rl_resolver_id :: string

record proof_row =
  rp_resolver_id :: string
  rp_leaf_hash :: string
  rp_proof_json :: jdict
  rp_state_root :: string

record audit_row =
  au_id :: int
  au_event_type :: string
  au_payload :: jdict
  au_created_at :: int

record cache_row =
  cr_cache_key :: string
  cr_endpoint_lookup_key :: string
  cr_resolver_id :: string
  cr_endpoint :: jdict
  cr_object_hash :: string
  cr_object_version :: int
  cr_state_root :: string
  cr_status :: string
  cr_verified_at :: string
  cr_soft_expire_at :: string
  cr_hard_expire_at :: string
  cr_evidence :: jdict

record anchor =
  an_resolver_id_key :: string
  an_object_hash :: string
  an_state_root :: string
  an_object_version :: int
  an_valid_until :: int
  an_status :: string

record db =
  db_clock :: int
  db_user_version :: int
  db_audit_seq :: int
  t_resolver_objects :: "object_row list"
  t_resolver_endpoints :: "endpoint_row list"
  t_lookup :: "lookup_row list"
  t_proofs :: "proof_row list"
  t_state_roots :: "(string, string) dict"
  t_audit :: "audit_row list"
  t_cache :: "cache_row list"
  t_anchors :: "(string, anchor) dict"
  t_bindings :: "(string, string) dict"
  t_roots :: "(string, string) dict"
  t_runtime :: "(string, string) dict"

type_synonym 'a dbop = "(db, 'a) op"

definition SCHEMA_VERSION :: int where "SCHEMA_VERSION = 1"

definition empty_db :: "int \<Rightarrow> db" where
  "empty_db now = \<lparr>db_clock = now, db_user_version = 0, db_audit_seq = 0, t_resolver_objects = [], t_resolver_endpoints = [],
     t_lookup = [], t_proofs = [], t_state_roots = [], t_audit = [], t_cache = [], t_anchors = [],
     t_bindings = [], t_roots = [], t_runtime = []\<rparr>"

text \<open>\<open>init_db\<close>: the tables exist in the model from the start; the version guard is what remains.\<close>

definition init_db :: "unit dbop" where
  "init_db = bindS (getS db_user_version) (\<lambda>v.
     if v > SCHEMA_VERSION then raiseS (RuntimeError ''database schema version is newer than supported version'')
     else if v < SCHEMA_VERSION then modS (\<lambda>d. d\<lparr>db_user_version := SCHEMA_VERSION\<rparr>) else retS ())"

text \<open>Values that SQLite stores: 64-bit integers, and no \<open>None\<close> in a \<open>NOT NULL\<close> column.\<close>

definition sql_int :: "int \<Rightarrow> (db, unit) op" where
  "sql_int i = (if - (2 ^ 63) \<le> i \<and> i < 2 ^ 63 then retS ()
     else raiseS (OverflowError ''Python int too large to convert to SQLite INTEGER''))"

definition sql_value :: "json \<Rightarrow> unit dbop" where
  "sql_value v = (case v of
      JNull \<Rightarrow> raiseS (IntegrityError ''NOT NULL constraint failed'')
    | JArr _ \<Rightarrow> raiseS (RuntimeError ''Error binding parameter'')
    | JObj _ \<Rightarrow> raiseS (RuntimeError ''Error binding parameter'')
    | JInt i \<Rightarrow> sql_int i
    | _ \<Rightarrow> retS ())"

section \<open>AuditLogRepository\<close>

text \<open>\<open>AUTOINCREMENT\<close>: ids are never reused.\<close>

definition audit_record :: "string \<Rightarrow> jdict \<Rightarrow> unit dbop" where
  "audit_record event_type payload = modS (\<lambda>d. d\<lparr>db_audit_seq := db_audit_seq d + 1, t_audit := t_audit d @
     [\<lparr>au_id = db_audit_seq d + 1, au_event_type = event_type, au_payload = payload, au_created_at = db_clock d\<rparr>]\<rparr>)"

definition audit_list :: "int \<Rightarrow> audit_row list dbop" where
  "audit_list limit = getS (\<lambda>d. take (nat (max 1 (min limit 1000))) (rev (t_audit d)))"

definition purge_older_than_days :: "int \<Rightarrow> int dbop" where
  "purge_older_than_days days =
     (if days < 1 then raiseS (ValueError ''audit retention must be at least one day'')
      else bindS (getS (\<lambda>d. filter (\<lambda>r. au_created_at r < db_clock d - days * 86400) (t_audit d))) (\<lambda>old.
           seqS (modS (\<lambda>d. d\<lparr>t_audit := filter (\<lambda>r. \<not> au_created_at r < db_clock d - days * 86400) (t_audit d)\<rparr>))
             (retS (int (length old)))))"

section \<open>RuntimeStateRepository\<close>

definition runtime_get :: "string \<Rightarrow> string option dbop" where
  "runtime_get key = getS (\<lambda>d. dict_get (t_runtime d) key)"

definition runtime_set :: "string \<Rightarrow> string \<Rightarrow> unit dbop" where
  "runtime_set key value = modS (\<lambda>d. d\<lparr>t_runtime := dict_set (t_runtime d) key value\<rparr>)"

definition runtime_delete :: "string \<Rightarrow> unit dbop" where
  "runtime_delete key = modS (\<lambda>d. d\<lparr>t_runtime := dict_pop (t_runtime d) key\<rparr>)"

section \<open>Facts\<close>

lemma audit_record_run [simp]:
  "audit_record t p d = (Inr (), d\<lparr>db_audit_seq := db_audit_seq d + 1, t_audit := t_audit d @
     [\<lparr>au_id = db_audit_seq d + 1, au_event_type = t, au_payload = p, au_created_at = db_clock d\<rparr>]\<rparr>)"
  by (simp add: audit_record_def)

definition audit_ok :: "db \<Rightarrow> bool" where
  "audit_ok d \<longleftrightarrow> sorted_wrt (<) (map au_id (t_audit d)) \<and> (\<forall>r\<in>set (t_audit d). au_id r \<le> db_audit_seq d)"

lemma audit_record_ok: "keeps audit_ok (audit_record t p)"
  by (rule keepsI) (auto simp: audit_ok_def sorted_wrt_append)

lemma purge_ok: "keeps audit_ok (purge_older_than_days n)"
proof (rule keepsI)
  fix d assume "audit_ok d"
  then have "audit_ok (d\<lparr>t_audit := filter (\<lambda>r. \<not> au_created_at r < db_clock d - n * 86400) (t_audit d)\<rparr>)"
    by (auto simp: audit_ok_def sorted_wrt_map intro: sorted_wrt_filter)
  then show "audit_ok (snd (purge_older_than_days n d))"
    using \<open>audit_ok d\<close> by (simp add: purge_older_than_days_def)
qed

text \<open>The audit log: ids are unique and increasing whatever was purged before, a record appears first in
  the next listing, a listing never exceeds 1000 rows (nor is it empty while the log is not), and
  purging removes exactly the rows older than the retention period, which must be a day or
  more.\<close>

theorem audit_log_behaviour:
  assumes "audit_ok d" and "n \<ge> 1"
  shows "audit_ok (snd (audit_record t p d)) \<and> audit_ok (snd (purge_older_than_days n d)) \<and>
    (\<exists>r rest. audit_list limit (snd (audit_record t p d)) = (Ret (r # rest), snd (audit_record t p d)) \<and>
       au_event_type r = t \<and> au_payload r = p \<and> length rest < 1000 \<and> (\<forall>x\<in>set rest. au_id x < au_id r)) \<and>
    set (t_audit (snd (purge_older_than_days n d))) = {r \<in> set (t_audit d). db_clock d - n * 86400 \<le> au_created_at r} \<and>
    purge_older_than_days 0 d = (Raise (ValueError ''audit retention must be at least one day''), d)"
proof (intro conjI)
  show "audit_ok (snd (audit_record t p d))" "audit_ok (snd (purge_older_than_days n d))"
    using keepsD[OF audit_record_ok assms(1)] keepsD[OF purge_ok assms(1)] by simp_all
  obtain k where k: "nat (max 1 (min limit 1000)) = Suc k" "k < 1000"
    by (cases "nat (max 1 (min limit 1000))") auto
  show "\<exists>r rest. audit_list limit (snd (audit_record t p d)) = (Ret (r # rest), snd (audit_record t p d)) \<and>
       au_event_type r = t \<and> au_payload r = p \<and> length rest < 1000 \<and> (\<forall>x\<in>set rest. au_id x < au_id r)"
    using assms k by (auto simp: audit_list_def audit_ok_def dest!: in_set_takeD)
  show "set (t_audit (snd (purge_older_than_days n d))) = {r \<in> set (t_audit d). db_clock d - n * 86400 \<le> au_created_at r}"
    using assms(2) by (auto simp: purge_older_than_days_def)
  show "purge_older_than_days 0 d = (Raise (ValueError ''audit retention must be at least one day''), d)"
    by (simp add: purge_older_than_days_def)
qed

theorem audit_log_behaviour_witness:
  "audit_ok (snd (audit_record ''RootPublished'' [] (empty_db 1000))) \<and>
   set (t_audit (snd (purge_older_than_days 1 (empty_db 1000)))) = {}"
proof -
  have "audit_ok (empty_db 1000)" by (simp add: audit_ok_def empty_db_def)
  from audit_log_behaviour[OF this, of 1 "''RootPublished''" "[]" 5] show ?thesis by (simp add: empty_db_def)
qed

end
