(* ===== verification/Registry.thy ===== *)
theory Registry
  imports Database
begin

text \<open>
  \<open>chain/backend.py\<close>, \<open>RegistryRepository\<close> of \<open>db/repositories.py\<close> and
  \<open>chain/sqlite_backend.py\<close>: status codes, 32-byte values, the decoding of chain anchors, and the
  registry of anchors, endpoint bindings and state roots.  The protocol \<open>RegistryBackend\<close> is the
  locale \<open>registry_backend\<close>, with the laws its clients rely on; the SQLite registry is its
  instance.
\<close>

section \<open>Statuses and 32-byte values\<close>

definition STATUS_BY_ID :: "(int, string) dict" where
  "STATUS_BY_ID = [(0, ''UNKNOWN''), (1, ''ACTIVE''), (2, ''SUSPENDED''), (3, ''REVOKED''), (4, ''EXPIRED'')]"

definition STATUS_TO_ID :: "(string, int) dict" where
  "STATUS_TO_ID = map (\<lambda>(k, v). (v, k)) STATUS_BY_ID"

text \<open>A value from the chain: a JSON value or raw bytes.\<close>

datatype chain_value = CJson json | CBytes bytes

text \<open>\<open>int(raw, 16)\<close> as a check: surrounding whitespace, a sign, a \<open>0x\<close> prefix and single underscores
  between digits are allowed.\<close>

fun hex_with_underscores :: "string \<Rightarrow> string option" where
  "hex_with_underscores [] = None"
| "hex_with_underscores [c] = (if is_hex c then Some [c] else None)"
| "hex_with_underscores (c # d # s) =
     (if \<not> is_hex c then None
      else if d = CHR ''_'' then map_option (Cons c) (hex_with_underscores s)
      else map_option (Cons c) (hex_with_underscores (d # s)))"

definition int16_body :: "int \<Rightarrow> string \<Rightarrow> int res" where
  "int16_body sg b =
     (case hex_with_underscores
             (if py_lower (take 2 b) = ''0x'' then (if starts_with (drop 2 b) ''_'' then drop 3 b else drop 2 b) else b) of
        None \<Rightarrow> Raise (ValueError ''invalid literal for int() with base 16'')
      | Some ds \<Rightarrow> Ret (sg * int (nat_of_hex ds)))"

definition py_int16 :: "string \<Rightarrow> int res" where
  "py_int16 s =
     (case py_strip s of
        [] \<Rightarrow> int16_body 1 []
      | c # cs \<Rightarrow> if c = CHR ''-'' then int16_body (- 1) cs else if c = CHR ''+'' then int16_body 1 cs
                  else int16_body 1 (c # cs))"

definition normalize_bytes32 :: "chain_value \<Rightarrow> string res" where
  "normalize_bytes32 value =
     (case value of
        CBytes b \<Rightarrow> if length b \<noteq> 32 then Raise (ValueError ''bytes32 value must be exactly 32 bytes'')
                    else Ret (''0x'' @ hex_of_bytes b)
      | CJson (JStr s) \<Rightarrow>
          (let raw = (if py_lower (take 2 s) = ''0x'' then drop 2 s else s) in
           if length raw \<noteq> 64 then Raise (ValueError ''bytes32 hex value must be 32 bytes'')
           else bind_res (py_int16 raw) (\<lambda>_. Ret (''0x'' @ py_lower raw)))
      | _ \<Rightarrow> Raise (TypeError ''bytes32 value must be str or bytes''))"

definition bytes32_to_bytes :: "chain_value \<Rightarrow> bytes res" where
  "bytes32_to_bytes value = bind_res (normalize_bytes32 value) (\<lambda>s. bytes_fromhex (drop 2 s))"

text \<open>\<open>str.isdigit\<close>: decimal digits and the superscripts two, three and one.\<close>

definition py_isdigit :: "string \<Rightarrow> bool" where
  "py_isdigit s = (s \<noteq> [] \<and> list_all (\<lambda>c. is_digit c \<or> of_char c \<in> {178 :: nat, 179, 185}) s)"

definition status_by_id :: "int \<Rightarrow> string" where
  "status_by_id i = (case dict_get STATUS_BY_ID i of Some s \<Rightarrow> s | None \<Rightarrow> ''UNKNOWN'')"

definition decode_status :: "json \<Rightarrow> string res" where
  "decode_status value =
     (case value of
        JStr s \<Rightarrow>
          (let upper = py_upper s in
           if dict_get STATUS_TO_ID upper \<noteq> None then Ret upper
           else if py_isdigit s then bind_res (py_int_of_str s) (\<lambda>i. Ret (status_by_id i))
           else Ret upper)
      | _ \<Rightarrow> bind_res (json_int value) (\<lambda>i. Ret (status_by_id i)))"

definition encode_status :: "json \<Rightarrow> int res" where
  "encode_status value =
     (case value of
        JInt i \<Rightarrow> Ret i
      | JBool b \<Rightarrow> Ret (if b then 1 else 0)
      | _ \<Rightarrow> bind_res (as_str value) (\<lambda>s.
          case dict_get STATUS_TO_ID (py_upper s) of Some i \<Rightarrow> Ret i | None \<Rightarrow> Raise (KeyError (py_upper s))))"

datatype raw_anchor = RawDict "(string, chain_value) dict" | RawTuple "chain_value list"

fun cv_truthy :: "chain_value \<Rightarrow> bool" where
  "cv_truthy (CJson j) = truthy j"
| "cv_truthy (CBytes b) = (b \<noteq> [])"

definition cv_get :: "(string, chain_value) dict \<Rightarrow> string \<Rightarrow> chain_value" where
  "cv_get d k = (case dict_get d k of None \<Rightarrow> CJson JNull | Some v \<Rightarrow> v)"

definition cv_get_or :: "(string, chain_value) dict \<Rightarrow> string \<Rightarrow> string \<Rightarrow> chain_value" where
  "cv_get_or d k1 k2 = (if cv_truthy (cv_get d k1) then cv_get d k1 else cv_get d k2)"

fun cv_int :: "chain_value \<Rightarrow> int res" where
  "cv_int (CJson j) = json_int j"
| "cv_int (CBytes b) = json_int (JStr (map (\<lambda>x. char_of (unat x)) b))"

fun cv_status :: "chain_value \<Rightarrow> string res" where
  "cv_status (CJson j) = decode_status j"
| "cv_status (CBytes b) = bind_res (cv_int (CBytes b)) (\<lambda>i. Ret (status_by_id i))"

definition raw_anchor_fields :: "raw_anchor \<Rightarrow> chain_value list res" where
  "raw_anchor_fields raw =
     (case raw of
        RawDict d \<Rightarrow> Ret [cv_get_or d ''resolverIdKey'' ''resolver_id_key'', cv_get_or d ''objectHash'' ''object_hash'',
                          cv_get_or d ''stateRoot'' ''state_root'', cv_get_or d ''objectVersion'' ''object_version'',
                          cv_get_or d ''validUntil'' ''valid_until'', cv_get d ''status'']
      | RawTuple vs \<Rightarrow> if length vs = 6 then Ret vs else Raise (ValueError ''wrong number of values to unpack''))"

definition decode_anchor :: "raw_anchor option \<Rightarrow> anchor option res" where
  "decode_anchor raw0 =
     (case raw0 of
        None \<Rightarrow> Ret None
      | Some raw \<Rightarrow>
          bind_res (raw_anchor_fields raw) (\<lambda>f.
          bind_res (normalize_bytes32 (f ! 0)) (\<lambda>rid.
          bind_res (py_int16 rid) (\<lambda>z.
            if z = 0 then Ret None
            else bind_res (normalize_bytes32 (f ! 1)) (\<lambda>oh.
                 bind_res (normalize_bytes32 (f ! 2)) (\<lambda>sr.
                 bind_res (cv_int (f ! 3)) (\<lambda>ov.
                 bind_res (cv_int (f ! 4)) (\<lambda>vu.
                 bind_res (cv_status (f ! 5)) (\<lambda>st.
                 Ret (Some \<lparr>an_resolver_id_key = rid, an_object_hash = oh, an_state_root = sr,
                        an_object_version = ov, an_valid_until = vu, an_status = st\<rparr>))))))))))"

section \<open>RegistryRepository\<close>

definition reg_get_anchor :: "string \<Rightarrow> anchor option dbop" where
  "reg_get_anchor key = getS (\<lambda>d. dict_get (t_anchors d) key)"

definition reg_get_endpoint_binding :: "string \<Rightarrow> string option dbop" where
  "reg_get_endpoint_binding key = getS (\<lambda>d. dict_get (t_bindings d) key)"

definition reg_get_root_status :: "string \<Rightarrow> string option dbop" where
  "reg_get_root_status root = getS (\<lambda>d. dict_get (t_roots d) root)"

definition opt_text :: "string option \<Rightarrow> json" where
  "opt_text v = (case v of None \<Rightarrow> JNull | Some s \<Rightarrow> JStr s)"

definition publish_anchor :: "string \<Rightarrow> string \<Rightarrow> string \<Rightarrow> int \<Rightarrow> int \<Rightarrow> string \<Rightarrow> unit dbop" where
  "publish_anchor rid_key obj_hash state_root object_version valid_until status =
     bindS (reg_get_anchor rid_key) (\<lambda>existing.
     seqS (sql_int object_version) (seqS (sql_int valid_until)
     (seqS (modS (\<lambda>d. d\<lparr>t_anchors := dict_set (t_anchors d) rid_key
        \<lparr>an_resolver_id_key = rid_key, an_object_hash = obj_hash, an_state_root = state_root,
         an_object_version = object_version, an_valid_until = valid_until, an_status = status\<rparr>\<rparr>))
     (audit_record (if existing \<noteq> None then ''ResolverUpdated'' else ''ResolverPublished'')
        [(''resolver_id_key'', JStr rid_key), (''object_hash'', JStr obj_hash), (''state_root'', JStr state_root),
         (''object_version'', JInt object_version), (''valid_until'', JInt valid_until), (''status'', JStr status)]))))"

definition reg_bind_endpoint :: "string \<Rightarrow> string \<Rightarrow> unit dbop" where
  "reg_bind_endpoint endpoint_key rid_key =
     seqS (modS (\<lambda>d. d\<lparr>t_bindings := dict_set (t_bindings d) endpoint_key rid_key\<rparr>))
     (audit_record ''EndpointBound'' [(''endpoint_key'', JStr endpoint_key), (''resolver_id_key'', JStr rid_key)])"

definition reg_unbind_endpoint :: "string \<Rightarrow> unit dbop" where
  "reg_unbind_endpoint endpoint_key =
     bindS (reg_get_endpoint_binding endpoint_key) (\<lambda>rid_key.
     seqS (modS (\<lambda>d. d\<lparr>t_bindings := dict_pop (t_bindings d) endpoint_key\<rparr>))
     (audit_record ''EndpointUnbound'' [(''endpoint_key'', JStr endpoint_key), (''resolver_id_key'', opt_text rid_key)]))"

definition reg_publish_root :: "string \<Rightarrow> string \<Rightarrow> unit dbop" where
  "reg_publish_root state_root status =
     seqS (modS (\<lambda>d. d\<lparr>t_roots := dict_set (t_roots d) state_root status\<rparr>))
     (audit_record (if status = ''ACTIVE'' then ''RootPublished'' else ''RootRevoked'')
        [(''state_root'', JStr state_root), (''status'', JStr status)])"

definition set_anchor_status :: "string \<Rightarrow> string \<Rightarrow> (string, anchor) dict \<Rightarrow> (string, anchor) dict" where
  "set_anchor_status key status anchors = map (\<lambda>(k, a). if k = key then (k, a\<lparr>an_status := status\<rparr>) else (k, a)) anchors"

definition reg_revoke_resolver :: "string \<Rightarrow> unit dbop" where
  "reg_revoke_resolver rid_key =
     seqS (modS (\<lambda>d. d\<lparr>t_anchors := set_anchor_status rid_key ''REVOKED'' (t_anchors d)\<rparr>))
     (audit_record ''ResolverRevoked'' [(''resolver_id_key'', JStr rid_key)])"

section \<open>SQLiteRegistryBackend\<close>

definition sqlite_publish_resolver :: "string \<Rightarrow> string \<Rightarrow> string \<Rightarrow> int \<Rightarrow> int \<Rightarrow> string \<Rightarrow> unit dbop" where
  "sqlite_publish_resolver = publish_anchor"

definition sqlite_update_resolver :: "string \<Rightarrow> string \<Rightarrow> string \<Rightarrow> int \<Rightarrow> int \<Rightarrow> string \<Rightarrow> unit dbop" where
  "sqlite_update_resolver = publish_anchor"

definition sqlite_publish_root :: "string \<Rightarrow> string \<Rightarrow> int \<Rightarrow> unit dbop" where
  "sqlite_publish_root state_root status version = reg_publish_root state_root status"

definition sqlite_revoke_root :: "string \<Rightarrow> unit dbop" where
  "sqlite_revoke_root state_root = reg_publish_root state_root ''REVOKED''"

definition sqlite_lookup_resolver_by_endpoint :: "string \<Rightarrow> string option dbop" where
  "sqlite_lookup_resolver_by_endpoint endpoint_key = reg_get_endpoint_binding endpoint_key"

definition sqlite_get_resolver_anchor :: "string \<Rightarrow> anchor option dbop" where
  "sqlite_get_resolver_anchor rid_key = reg_get_anchor rid_key"

section \<open>What clients rely on\<close>
text \<open>What a client reads of a registry; a read over the network may raise.\<close>

record registry_view =
  rv_binding :: "string \<Rightarrow> string option res"
  rv_anchor :: "string \<Rightarrow> anchor option res"
  rv_root :: "string \<Rightarrow> string option res"

definition db_view :: "db \<Rightarrow> registry_view" where
  "db_view d = \<lparr>rv_binding = (\<lambda>k. Ret (dict_get (t_bindings d) k)), rv_anchor = (\<lambda>k. Ret (dict_get (t_anchors d) k)),
     rv_root = (\<lambda>r. Ret (dict_get (t_roots d) r))\<rparr>"

text \<open>The registry vouches for an endpoint: it is bound to the resolver, whose anchor is active with
  the given object hash and version under an active state root.\<close>

definition authorizes :: "registry_view \<Rightarrow> string \<Rightarrow> string \<Rightarrow> string \<Rightarrow> int \<Rightarrow> string \<Rightarrow> bool" where
  "authorizes v ek k h ver root \<longleftrightarrow> rv_binding v ek = Ret (Some k) \<and> rv_root v root = Ret (Some ''ACTIVE'') \<and>
     (\<exists>a. rv_anchor v k = Ret (Some a) \<and> an_status a = ''ACTIVE'' \<and> an_object_hash a = h \<and>
        an_object_version a = ver \<and> an_state_root a = root)"

section \<open>The interface\<close>

locale registry_backend =
  fixes view :: "'s \<Rightarrow> registry_view"
    and publish :: "string \<Rightarrow> string \<Rightarrow> string \<Rightarrow> int \<Rightarrow> int \<Rightarrow> string \<Rightarrow> ('s, unit) op"
    and revoke :: "string \<Rightarrow> ('s, unit) op"
    and bind :: "string \<Rightarrow> string \<Rightarrow> ('s, unit) op"
    and unbind :: "string \<Rightarrow> ('s, unit) op"
    and set_root :: "string \<Rightarrow> string \<Rightarrow> ('s, unit) op"
  assumes publish_law: "publish k h r v u st s = (Ret (), t) \<Longrightarrow>
        rv_anchor (view t) = (rv_anchor (view s))(k := Ret (Some \<lparr>an_resolver_id_key = k, an_object_hash = h,
           an_state_root = r, an_object_version = v, an_valid_until = u, an_status = st\<rparr>)) \<and>
        rv_binding (view t) = rv_binding (view s) \<and> rv_root (view t) = rv_root (view s)"
    and publish_raises: "publish k h r v u st s = (Raise e, t) \<Longrightarrow> view t = view s"
    and revoke_law: "revoke k s = (Ret (), t) \<Longrightarrow>
        (\<forall>a. rv_anchor (view t) k = Ret (Some a) \<longrightarrow> an_status a = ''REVOKED'') \<and>
        (\<forall>k'. k' \<noteq> k \<longrightarrow> rv_anchor (view t) k' = rv_anchor (view s) k') \<and>
        rv_binding (view t) = rv_binding (view s) \<and> rv_root (view t) = rv_root (view s)"
    and bind_law: "bind ek k s = (Ret (), t) \<Longrightarrow> rv_binding (view t) = (rv_binding (view s))(ek := Ret (Some k)) \<and>
        rv_anchor (view t) = rv_anchor (view s) \<and> rv_root (view t) = rv_root (view s)"
    and unbind_law: "unbind ek s = (Ret (), t) \<Longrightarrow> rv_binding (view t) = (rv_binding (view s))(ek := Ret None) \<and>
        rv_anchor (view t) = rv_anchor (view s) \<and> rv_root (view t) = rv_root (view s)"
    and set_root_law: "set_root r st s = (Ret (), t) \<Longrightarrow> rv_root (view t) = (rv_root (view s))(r := Ret (Some st)) \<and>
        rv_anchor (view t) = rv_anchor (view s) \<and> rv_binding (view t) = rv_binding (view s)"
begin

lemma revoke_denies: "revoke k s = (Ret (), t) \<Longrightarrow> \<not> authorizes (view t) ek k h v r"
  using revoke_law[of k s t] by (auto simp: authorizes_def)

lemma unbind_denies: "unbind ek s = (Ret (), t) \<Longrightarrow> \<not> authorizes (view t) ek k h v r"
  using unbind_law[of ek s t] by (simp add: authorizes_def)

lemma root_denies: "set_root r st s = (Ret (), t) \<Longrightarrow> st \<noteq> ''ACTIVE'' \<Longrightarrow> \<not> authorizes (view t) ek k h v r"
  using set_root_law[of r st s t] by (simp add: authorizes_def)

lemma rebind_denies: "bind ek k' s = (Ret (), t) \<Longrightarrow> k' \<noteq> k \<Longrightarrow> \<not> authorizes (view t) ek k h v r"
  using bind_law[of ek k' s t] by (simp add: authorizes_def)

lemma publish_bind_authorizes:
  assumes "set_root r ''ACTIVE'' s0 = (Ret (), s1)" "publish k h r v u ''ACTIVE'' s1 = (Ret (), s2)" "bind ek k s2 = (Ret (), s3)"
  shows "authorizes (view s3) ek k h v r"
  using set_root_law[OF assms(1)] publish_law[OF assms(2)] bind_law[OF assms(3)] by (simp add: authorizes_def)

lemma update_retires_version:
  "publish k h' r' v' u st s = (Ret (), t) \<Longrightarrow> v' \<noteq> v \<Longrightarrow> \<not> authorizes (view t) ek k h v r"
  using publish_law[of k h' r' v' u st s t] by (simp add: authorizes_def)

text \<open>Changes to other resolvers and endpoints do not touch an authorization.\<close>

lemma others_keep:
  assumes "authorizes (view s) ek k h v r"
  shows "revoke k' s = (Ret (), t) \<Longrightarrow> k' \<noteq> k \<Longrightarrow> authorizes (view t) ek k h v r"
    and "unbind ek' s = (Ret (), t) \<Longrightarrow> ek' \<noteq> ek \<Longrightarrow> authorizes (view t) ek k h v r"
    and "bind ek' k' s = (Ret (), t) \<Longrightarrow> ek' \<noteq> ek \<Longrightarrow> authorizes (view t) ek k h v r"
    and "publish k' h' r' v' u st s = (Ret (), t) \<Longrightarrow> k' \<noteq> k \<Longrightarrow> authorizes (view t) ek k h v r"
  using assms revoke_law[of k' s t] unbind_law[of ek' s t] bind_law[of ek' k' s t] publish_law[of k' h' r' v' u st s t]
  by (auto simp: authorizes_def)

end

section \<open>The SQLite registry\<close>

lemma dict_get_set_anchor_status:
  "dict_get (set_anchor_status k st d) k' = (if k' = k then map_option (\<lambda>a. a\<lparr>an_status := st\<rparr>) (dict_get d k') else dict_get d k')"
  by (induction d) (auto simp: set_anchor_status_def)

lemma sql_int_cases: "sql_int i s = (Ret (), s) \<or> (\<exists>e. sql_int i s = (Raise e, s))"
  by (auto simp: sql_int_def)

lemma publish_anchor_cases:
  assumes "publish_anchor k h r v u st d = (res, d')"
  shows "(\<exists>e. res = Raise e \<and> d' = d) \<or>
   (res = Ret () \<and> t_bindings d' = t_bindings d \<and> t_roots d' = t_roots d \<and>
    t_anchors d' = dict_set (t_anchors d) k \<lparr>an_resolver_id_key = k, an_object_hash = h, an_state_root = r,
         an_object_version = v, an_valid_until = u, an_status = st\<rparr>)"
  using assms sql_int_cases[of v d] sql_int_cases[of u d]
  by (auto simp: publish_anchor_def reg_get_anchor_def seqS_eq)

interpretation sqlite: registry_backend db_view publish_anchor reg_revoke_resolver reg_bind_endpoint
  reg_unbind_endpoint reg_publish_root
proof unfold_locales
  fix k h r v u st s t e
  show "publish_anchor k h r v u st s = (Ret (), t) \<Longrightarrow>
        rv_anchor (db_view t) = (rv_anchor (db_view s))(k := Ret (Some \<lparr>an_resolver_id_key = k, an_object_hash = h,
           an_state_root = r, an_object_version = v, an_valid_until = u, an_status = st\<rparr>)) \<and>
        rv_binding (db_view t) = rv_binding (db_view s) \<and> rv_root (db_view t) = rv_root (db_view s)"
    by (drule publish_anchor_cases) (auto simp: db_view_def fun_eq_iff)
  show "publish_anchor k h r v u st s = (Raise e, t) \<Longrightarrow> db_view t = db_view s"
    by (drule publish_anchor_cases) auto
qed (auto simp: reg_revoke_resolver_def reg_bind_endpoint_def reg_unbind_endpoint_def reg_publish_root_def
       reg_get_endpoint_binding_def db_view_def dict_get_set_anchor_status fun_eq_iff)

text \<open>Withdrawing trust takes effect at once: after revoking a resolver, revoking a state root,
  unbinding an endpoint or binding it to another resolver, the registry no longer vouches for the
  endpoint under that resolver and root.\<close>

theorem registry_withdrawal_is_effective:
  "\<not> authorizes (db_view (snd (reg_revoke_resolver k d))) ek k h v r \<and>
   \<not> authorizes (db_view (snd (sqlite_revoke_root r d))) ek k h v r \<and>
   \<not> authorizes (db_view (snd (reg_unbind_endpoint ek d))) ek k h v r \<and>
   (k' \<noteq> k \<longrightarrow> \<not> authorizes (db_view (snd (reg_bind_endpoint ek k' d))) ek k h v r)"
proof (intro conjI impI)
  show "\<not> authorizes (db_view (snd (reg_revoke_resolver k d))) ek k h v r"
    by (rule sqlite.revoke_denies[of k d]) (simp add: reg_revoke_resolver_def)
  show "\<not> authorizes (db_view (snd (sqlite_revoke_root r d))) ek k h v r"
    unfolding sqlite_revoke_root_def by (rule sqlite.root_denies[of r "''REVOKED''" d]) (simp_all add: reg_publish_root_def)
  show "\<not> authorizes (db_view (snd (reg_unbind_endpoint ek d))) ek k h v r"
    by (rule sqlite.unbind_denies[of ek d]) (simp add: reg_unbind_endpoint_def reg_get_endpoint_binding_def)
  show "\<not> authorizes (db_view (snd (reg_bind_endpoint ek k' d))) ek k h v r" if "k' \<noteq> k"
    by (rule sqlite.rebind_denies[of ek k' d]) (simp_all add: reg_bind_endpoint_def that)
qed

theorem registry_withdrawal_is_effective_witness:
  "\<not> authorizes (db_view (snd (reg_bind_endpoint ''e'' ''k2'' (empty_db 0)))) ''e'' ''k1'' ''h'' 1 ''r''"
  using registry_withdrawal_is_effective[of "''k1''" "empty_db 0" "''e''" "''h''" 1 "''r''" "''k2''"] by simp

section \<open>Chain values\<close>

lemma lower_char_special:
  "lower_char c = CHR ''-'' \<longleftrightarrow> c = CHR ''-''" "lower_char c = CHR ''+'' \<longleftrightarrow> c = CHR ''+''" "lower_char c = CHR ''_'' \<longleftrightarrow> c = CHR ''_''"
  by (auto simp: lower_char_def Let_def of_char_eq_iff split: if_splits dest: arg_cong[of _ _ "of_char :: char \<Rightarrow> nat"])

lemma is_hex_lower [simp]: "is_hex (lower_char c) = is_hex c"
  by (simp add: is_hex_def)

lemma hex_with_underscores_lower: "hex_with_underscores (py_lower s) = map_option py_lower (hex_with_underscores s)"
  by (induction s rule: hex_with_underscores.induct)
    (auto simp: py_lower_def lower_char_special option.map_comp comp_def)

lemma nat_of_hex_lower: "nat_of_hex (py_lower s) = nat_of_hex s"
proof -
  have "foldl (\<lambda>a c. 16 * a + the (hex_val c)) n (map lower_char s) = foldl (\<lambda>a c. 16 * a + the (hex_val c)) n s" for n
    by (induction s arbitrary: n) auto
  then show ?thesis by (simp add: nat_of_hex_def py_lower_def)
qed

lemma py_strip_lower: "py_strip (py_lower s) = py_lower (py_strip s)"
  by (simp add: py_strip_def py_lstrip_def rstrip_while_def py_lower_def dropWhile_map comp_def rev_map)

lemma starts_underscore_lower: "starts_with (py_lower s) ''_'' = starts_with s ''_''"
  by (cases s) (auto simp: py_lower_def lower_char_special)

lemma py_lower_take_drop: "py_lower (take n s) = take n (py_lower s)" "py_lower (drop n s) = drop n (py_lower s)"
  by (simp_all add: py_lower_def take_map drop_map)

lemma int16_body_lower: "int16_body sg (py_lower b) = int16_body sg b"
proof -
  let ?b = "\<lambda>b. if py_lower (take 2 b) = ''0x'' then (if starts_with (drop 2 b) ''_'' then drop 3 b else drop 2 b) else b"
  have "?b (py_lower b) = py_lower (?b b)"
    by (auto simp: py_lower_take_drop[symmetric] starts_underscore_lower)
  then show ?thesis
    by (simp add: int16_body_def hex_with_underscores_lower nat_of_hex_lower split: option.split del: if_split)
qed

lemma py_int16_lower: "py_int16 (py_lower s) = py_int16 s"
proof (cases "py_strip s")
  case (Cons c cs)
  then have "py_lower (py_strip s) = lower_char c # py_lower cs" by (simp add: py_lower_def)
  moreover have "int16_body sg (lower_char c # py_lower cs) = int16_body sg (c # cs)" for sg
    using int16_body_lower[of sg "c # cs"] by (simp add: py_lower_def)
  ultimately show ?thesis using Cons int16_body_lower[of _ cs]
    by (simp add: py_int16_def py_strip_lower lower_char_special)
qed (simp add: py_int16_def py_strip_lower)

lemma hex_of_bytes_is_hex: "list_all is_hex (hex_of_bytes b)"
proof -
  have "is_hex (hex_digit n)" if "n < 16" for n using that by (simp add: is_hex_def)
  then show ?thesis by (induction b) (auto simp: hex_of_bytes_def hex_of_byte_def less_mult_imp_div_less)
qed

lemma hex_with_underscores_hex: "list_all is_hex s \<Longrightarrow> s \<noteq> [] \<Longrightarrow> hex_with_underscores s = Some s"
proof (induction s rule: hex_with_underscores.induct)
  case (3 c d s)
  then have "d \<noteq> CHR ''_''" by (auto simp: is_hex_def hex_val_def)
  with 3 show ?case by simp
qed auto

lemma py_int16_hex:
  assumes "list_all is_hex s" "s \<noteq> []"
  shows "py_int16 s = Ret (int (nat_of_hex s))"
proof -
  obtain c cs where s: "s = c # cs" using assms(2) by (cases s) auto
  have st: "py_strip s = s" using assms(1) hex_facts by (intro py_strip_no_space) (auto simp: list_all_iff)
  have "c \<noteq> CHR ''-''" "c \<noteq> CHR ''+''" using assms(1) by (auto simp: s is_hex_def hex_val_def)
  moreover have "py_lower (take 2 s) \<noteq> ''0x''"
  proof
    assume x: "py_lower (take 2 s) = ''0x''"
    then have "CHR ''x'' \<in> set (py_lower (take 2 s))" by simp
    then obtain d where "d \<in> set s" "lower_char d = CHR ''x''" by (auto simp: py_lower_def dest: in_set_takeD)
    then have "is_hex CHR ''x''" using assms(1) is_hex_lower[of d] by (auto simp: list_all_iff)
    then show False by (simp add: is_hex_def hex_val_def)
  qed
  ultimately show ?thesis using st s hex_with_underscores_hex[OF assms] by (simp add: py_int16_def int16_body_def)
qed

lemma normalize_bytes32_fixed:
  assumes "normalize_bytes32 v = Ret s"
  shows "normalize_bytes32 (CJson (JStr s)) = Ret s"
proof (cases v)
  case (CJson j)
  then obtain t where "j = JStr t" using assms by (auto simp: normalize_bytes32_def split: json.splits)
  then obtain raw where raw: "length raw = 64" "\<exists>z. py_int16 raw = Ret z" "s = ''0x'' @ py_lower raw"
    using assms CJson by (auto simp: normalize_bytes32_def Let_def split: if_splits)
  moreover have "py_lower (take 2 (''0x'' @ py_lower raw)) = ''0x''" by (simp add: py_lower_def lower_char_def)
  ultimately show ?thesis by (auto simp: normalize_bytes32_def py_int16_lower)
next
  case (CBytes b)
  then have b: "length b = 32" "s = ''0x'' @ hex_of_bytes b" using assms by (auto simp: normalize_bytes32_def split: if_splits)
  have "py_int16 (hex_of_bytes b) = Ret (int (nat_of_hex (hex_of_bytes b)))"
  proof (rule py_int16_hex[OF hex_of_bytes_is_hex])
    have "length (hex_of_bytes b) = 64" using b(1) by simp
    then show "hex_of_bytes b \<noteq> []" by (metis list.size(3) zero_neq_numeral)
  qed
  moreover have "py_lower (take 2 (''0x'' @ hex_of_bytes b)) = ''0x''" by (simp add: py_lower_def lower_char_def)
  ultimately show ?thesis using b by (simp add: normalize_bytes32_def)
qed

text \<open>Decoded chain anchors are in normal form: the identifier, hash and root of a decoded anchor are fixed
  points of \<open>normalize_bytes32\<close>, so comparing them as text compares the values; a record whose
  identifier is zero is no anchor.\<close>

theorem decoded_anchor_normal:
  assumes "decode_anchor (Some raw) = Ret (Some a)"
  shows "normalize_bytes32 (CJson (JStr (an_resolver_id_key a))) = Ret (an_resolver_id_key a) \<and>
     normalize_bytes32 (CJson (JStr (an_object_hash a))) = Ret (an_object_hash a) \<and>
     normalize_bytes32 (CJson (JStr (an_state_root a))) = Ret (an_state_root a) \<and>
     py_int16 (an_resolver_id_key a) \<noteq> Ret 0"
proof -
  obtain f z where f: "normalize_bytes32 (f ! 0) = Ret (an_resolver_id_key a)" "py_int16 (an_resolver_id_key a) = Ret z" "z \<noteq> 0"
    "normalize_bytes32 (f ! 1) = Ret (an_object_hash a)" "normalize_bytes32 (f ! 2) = Ret (an_state_root a)"
    using assms by (auto simp: decode_anchor_def split: if_splits)
  then show ?thesis using normalize_bytes32_fixed[OF f(1)] normalize_bytes32_fixed[OF f(4)] normalize_bytes32_fixed[OF f(5)] by simp
qed

lemma ones_hex: "list_all is_hex (replicate n CHR ''1'')"
  by (simp add: is_hex_def hex_val_def list_all_iff)

lemma nat_of_hex_ones: "nat_of_hex (replicate (Suc n) CHR ''1'') \<noteq> 0"
proof -
  have "nat_of_hex (s @ [CHR ''1'']) \<noteq> 0" for s by (simp add: nat_of_hex_def hex_val_def)
  then show ?thesis by (metis replicate_append_same replicate_Suc)
qed

lemma demo_bytes32:
  "normalize_bytes32 (CJson (JStr (''0X'' @ replicate 64 CHR ''1''))) = Ret (''0x'' @ replicate 64 CHR ''1'')"
  "\<exists>z. z \<noteq> 0 \<and> py_int16 (''0x'' @ replicate 64 CHR ''1'') = Ret z"
proof -
  have ne: "replicate 64 CHR ''1'' \<noteq> ([] :: string)" by simp
  have low: "py_lower (replicate 64 CHR ''1'') = replicate 64 CHR ''1''" by (simp add: py_lower_def lower_char_def)
  have pre: "py_lower (take 2 (''0X'' @ r)) = ''0x''" "py_lower (take 2 (''0x'' @ r)) = ''0x''" for r
    by (simp_all add: py_lower_def lower_char_def char_of_def bit_0)
  show "normalize_bytes32 (CJson (JStr (''0X'' @ replicate 64 CHR ''1''))) = Ret (''0x'' @ replicate 64 CHR ''1'')"
    unfolding normalize_bytes32_def using py_int16_hex[OF ones_hex ne] low pre(1)[of "replicate 64 CHR ''1''"] by simp
  have st: "py_strip (''0x'' @ replicate 64 CHR ''1'') = ''0x'' @ replicate 64 CHR ''1''"
    by (rule py_strip_id) (simp add: is_space_def)
  have us: "\<not> starts_with (replicate 64 CHR ''1'') ''_''" by (simp add: numeral_eq_Suc)
  have z: "nat_of_hex (replicate 64 CHR ''1'') \<noteq> 0" using nat_of_hex_ones[of 63] by simp
  have "int16_body 1 (''0x'' @ replicate 64 CHR ''1'') = Ret (int (nat_of_hex (replicate 64 CHR ''1'')))"
    unfolding int16_body_def using pre(2)[of "replicate 64 CHR ''1''"] us hex_with_underscores_hex[OF ones_hex ne] by simp
  then show "\<exists>z. z \<noteq> 0 \<and> py_int16 (''0x'' @ replicate 64 CHR ''1'') = Ret z"
    using z st by (simp add: py_int16_def)
qed

theorem decoded_anchor_normal_witness:
  "normalize_bytes32 (CJson (JStr (''0x'' @ replicate 64 CHR ''1''))) = Ret (''0x'' @ replicate 64 CHR ''1'')"
proof -
  let ?s = "CJson (JStr (''0X'' @ replicate 64 CHR ''1''))" and ?t = "''0x'' @ replicate 64 CHR ''1''"
  have "decode_status (JStr ''active'') = Ret ''ACTIVE''" by code_simp
  then have "decode_anchor (Some (RawTuple [?s, ?s, ?s, CJson (JInt 1), CJson (JInt 5), CJson (JStr ''active'')])) =
    Ret (Some \<lparr>an_resolver_id_key = ?t, an_object_hash = ?t, an_state_root = ?t, an_object_version = 1, an_valid_until = 5, an_status = ''ACTIVE''\<rparr>)"
    unfolding decode_anchor_def raw_anchor_fields_def using demo_bytes32 by auto
  from decoded_anchor_normal[OF this] show ?thesis by simp
qed

text \<open>\<open>normalize_bytes32\<close> accepts texts that are not hexadecimal: \<open>int(raw, 16)\<close> tolerates a sign or
  underscores among the 64 characters, and \<open>bytes32_to_bytes\<close> then raises on the accepted
  value.\<close>

theorem normalize_bytes32_accepts_non_hex:
  "normalize_bytes32 (CJson (JStr (CHR ''+'' # replicate 63 CHR ''1''))) = Ret (''0x'' @ CHR ''+'' # replicate 63 CHR ''1'') \<and>
   bytes32_to_bytes (CJson (JStr (CHR ''+'' # replicate 63 CHR ''1''))) =
     Raise (ValueError ''non-hexadecimal number found in fromhex() arg'')"
proof -
  let ?o = "replicate 63 CHR ''1''"
  have ne: "?o \<noteq> ([] :: string)" by simp
  have st: "py_strip (CHR ''+'' # ?o) = CHR ''+'' # ?o" by (rule py_strip_id) (simp add: is_space_def)
  have o: "?o = CHR ''1'' # CHR ''1'' # replicate 61 CHR ''1''" by (simp add: numeral_eq_Suc)
  have low: "py_lower (CHR ''+'' # ?o) = CHR ''+'' # ?o" by (simp add: py_lower_def lower_char_def)
  have "py_lower (take 2 ?o) \<noteq> ''0x''" unfolding o by (simp add: py_lower_def lower_char_def)
  then have "int16_body 1 ?o = Ret (int (nat_of_hex ?o))"
    unfolding int16_body_def using hex_with_underscores_hex[OF ones_hex ne] by simp
  then have i: "py_int16 (CHR ''+'' # ?o) = Ret (int (nat_of_hex ?o))" by (simp add: py_int16_def st)
  have "py_lower (take 2 (CHR ''+'' # ?o)) \<noteq> ''0x''" unfolding o by (simp add: py_lower_def lower_char_def)
  then have n: "normalize_bytes32 (CJson (JStr (CHR ''+'' # ?o))) = Ret (''0x'' @ CHR ''+'' # ?o)"
    unfolding normalize_bytes32_def using i low by simp
  moreover have "bytes_fromhex (CHR ''+'' # ?o) = Raise (ValueError ''non-hexadecimal number found in fromhex() arg'')"
    unfolding o by (simp add: is_ascii_space_def hex_val_def)
  ultimately show ?thesis unfolding bytes32_to_bytes_def n by simp
qed

end
