(* ===== verification/TrustedCache.thy ===== *)
theory TrustedCache
  imports EndpointKeys Registry
begin

text \<open>
  \<open>TrustedCacheRepository\<close> of \<open>db/repositories.py\<close> and \<open>verifier/cache_manager.py\<close>.  The manager
  keeps, beside the repository, a memory of the rows it used last; a generation counter in the
  database is bumped by every invalidation, so that a verification that started before an
  invalidation cannot be stored after it.  What other processes do to the database between two
  reads of one call is an argument \<open>interf\<close>.
\<close>

section \<open>TrustedCacheRepository\<close>

text \<open>\<open>CAST(state_value AS INTEGER)\<close>: the longest numeric prefix.\<close>

definition sqlite_cast_int :: "string \<Rightarrow> int" where
  "sqlite_cast_int s =
     (let t = dropWhile is_ascii_space s;
          (sg, body) = (case t of [] \<Rightarrow> (1, []) | c # cs \<Rightarrow>
             if c = CHR ''-'' then (- 1, cs) else if c = CHR ''+'' then (1, cs) else (1, t))
      in sg * int (nat_of_dec (takeWhile is_digit body)))"

definition current_generation :: "int dbop" where
  "current_generation = bindS (getS (\<lambda>d. dict_get (t_runtime d) ''cache_generation'')) (\<lambda>v.
     case v of None \<Rightarrow> retS 0 | Some s \<Rightarrow> liftS (py_int_of_str s))"

definition bump_generation :: "int dbop" where
  "bump_generation =
     seqS (modS (\<lambda>d. d\<lparr>t_runtime := dict_set (t_runtime d) ''cache_generation''
        (case dict_get (t_runtime d) ''cache_generation'' of
           None \<Rightarrow> ''1'' | Some s \<Rightarrow> dec_of_int (sqlite_cast_int s + 1))\<rparr>))
     current_generation"

definition cache_insert :: "cache_row \<Rightarrow> db \<Rightarrow> db" where
  "cache_insert row d = d\<lparr>t_cache := filter (\<lambda>r. cr_cache_key r \<noteq> cr_cache_key row) (t_cache d) @ [row]\<rparr>"

definition cache_put :: "cache_row \<Rightarrow> unit dbop" where
  "cache_put row = seqS (sql_int (cr_object_version row)) (modS (cache_insert row))"

text \<open>The transaction is rolled back on every path that does not commit.\<close>

definition put_if_generation :: "cache_row \<Rightarrow> int \<Rightarrow> bool dbop" where
  "put_if_generation row expected_generation d =
     (case bindS current_generation (\<lambda>current.
             if current \<noteq> expected_generation then retS False
             else seqS (sql_int (cr_object_version row)) (seqS (modS (cache_insert row)) (retS True))) d of
        (Inl e, _) \<Rightarrow> (Inl e, d)
      | (Inr b, d') \<Rightarrow> (Inr b, d'))"

definition cache_get :: "string \<Rightarrow> cache_row option dbop" where
  "cache_get key = getS (\<lambda>d. find (\<lambda>r. cr_cache_key r = key) (t_cache d))"

text \<open>\<open>ORDER BY verified_at DESC\<close>; rows with the same time stay in the order of their row ids.\<close>

definition newest_first :: "cache_row list \<Rightarrow> cache_row list" where
  "newest_first rows = rev (sort_key cr_verified_at (rev rows))"

definition newest_for :: "string \<Rightarrow> db \<Rightarrow> cache_row option" where
  "newest_for key d = (case newest_first (filter (\<lambda>r. cr_endpoint_lookup_key r = key) (t_cache d)) of
     [] \<Rightarrow> None | r # _ \<Rightarrow> Some r)"

definition get_by_endpoint_lookup_key :: "string \<Rightarrow> cache_row option dbop" where
  "get_by_endpoint_lookup_key key = getS (newest_for key)"

definition set_status :: "(cache_row \<Rightarrow> bool) \<Rightarrow> string \<Rightarrow> db \<Rightarrow> db" where
  "set_status P status d = d\<lparr>t_cache := map (\<lambda>r. if P r then r\<lparr>cr_status := status\<rparr> else r) (t_cache d)\<rparr>"

definition update_status :: "string \<Rightarrow> string \<Rightarrow> unit dbop" where
  "update_status cache_key status =
     seqS (modS (set_status (\<lambda>r. cr_cache_key r = cache_key) status))
     (audit_record ''TrustedCacheStatusUpdated'' [(''cache_key'', JStr cache_key), (''status'', JStr status)])"

definition mark_status_by_resolver :: "string \<Rightarrow> string \<Rightarrow> unit dbop" where
  "mark_status_by_resolver resolver_id status =
     seqS (modS (set_status (\<lambda>r. cr_resolver_id r = resolver_id) status))
     (audit_record ''TrustedCacheStatusMarked'' [(''resolver_id'', JStr resolver_id), (''status'', JStr status)])"

definition mark_status_by_root :: "string \<Rightarrow> string \<Rightarrow> unit dbop" where
  "mark_status_by_root state_root status =
     seqS (modS (set_status (\<lambda>r. cr_state_root r = state_root) status))
     (audit_record ''TrustedCacheRootStatusMarked'' [(''state_root'', JStr state_root), (''status'', JStr status)])"

definition mark_stale_versions :: "string \<Rightarrow> int \<Rightarrow> unit dbop" where
  "mark_stale_versions resolver_id object_version =
     seqS (modS (set_status (\<lambda>r. cr_resolver_id r = resolver_id \<and> cr_object_version r \<noteq> object_version) ''EXPIRED''))
     (audit_record ''TrustedCacheStaleVersionsExpired'' [(''resolver_id'', JStr resolver_id), (''object_version'', JInt object_version)])"

definition cache_list :: "cache_row list dbop" where
  "cache_list = getS (\<lambda>d. newest_first (t_cache d))"

section \<open>CacheManager\<close>

record cache_mgr =
  cm_db :: db
  cm_memory :: "(string, cache_row) dict"
  cm_owner :: string

type_synonym 'a cmop = "(cache_mgr, 'a) op"

definition on_db :: "'a dbop \<Rightarrow> 'a cmop" where
  "on_db m = zoomS cm_db (\<lambda>d c. c\<lparr>cm_db := d\<rparr>) m"

definition mem_set_status :: "(cache_row \<Rightarrow> bool) \<Rightarrow> string \<Rightarrow> unit cmop" where
  "mem_set_status P status = modS (\<lambda>c. c\<lparr>cm_memory :=
     map (\<lambda>(k, r). (k, if P r then r\<lparr>cr_status := status\<rparr> else r)) (cm_memory c)\<rparr>)"

definition invalidate_cache_key :: "string \<Rightarrow> string \<Rightarrow> unit cmop" where
  "invalidate_cache_key cache_key status =
     seqS (on_db bump_generation)
     (seqS (mem_set_status (\<lambda>r. cr_cache_key r = cache_key) status)
     (on_db (update_status cache_key status)))"

definition mem_get :: "string \<Rightarrow> cache_row option cmop" where
  "mem_get key = getS (\<lambda>c. dict_get (cm_memory c) key)"

definition mem_pop :: "string \<Rightarrow> unit cmop" where
  "mem_pop key = modS (\<lambda>c. c\<lparr>cm_memory := dict_pop (cm_memory c) key\<rparr>)"

definition mem_put :: "string \<Rightarrow> cache_row \<Rightarrow> unit cmop" where
  "mem_put key row = modS (\<lambda>c. c\<lparr>cm_memory := dict_set (cm_memory c) key row\<rparr>)"

text \<open>\<open>VerificationResult.accept(resolver_id, status=\<dots>, **evidence)\<close>: evidence that repeats one of the
  named arguments raises.\<close>

definition accept_kwargs :: "json \<Rightarrow> string \<Rightarrow> jdict \<Rightarrow> verification_result res" where
  "accept_kwargs resolver_id status evidence =
     (if dict_get evidence ''status'' \<noteq> None \<or> dict_get evidence ''resolver_id'' \<noteq> None \<or> dict_get evidence ''cls'' \<noteq> None
      then Raise (TypeError ''got multiple values for argument'')
      else Ret (vr_accept resolver_id status evidence))"

definition hit_evidence :: "cache_row \<Rightarrow> string \<Rightarrow> int \<Rightarrow> string \<Rightarrow> jdict" where
  "hit_evidence row effective_status generation owner =
     dict_update (cr_evidence row)
       [(''cache'', JStr (if effective_status = ''VERIFIED'' then ''hit'' else ''stale-hit-refreshing'')),
        (''object_hash'', JStr (cr_object_hash row)), (''object_version'', JInt (cr_object_version row)),
        (''state_root'', JStr (cr_state_root row)), (''cache_generation'', JInt generation),
        (''cache_generation_owner'', JStr owner)]"

text \<open>The part of \<open>get_valid\<close> after a row with a usable status was found.\<close>

definition use_row :: "string \<Rightarrow> endpoint \<Rightarrow> int \<Rightarrow> int \<Rightarrow> cache_row \<Rightarrow> verification_result option cmop" where
  "use_row endpoint_key observed now generation row =
     bindS (liftS (parse_rfc3339 (cr_hard_expire_at row))) (\<lambda>hard.
     if hard \<le> now
     then seqS (invalidate_cache_key (cr_cache_key row) ''EXPIRED'') (seqS (mem_pop endpoint_key) (retS None))
     else bindS (liftS (endpoint_from_dict (cr_endpoint row))) (\<lambda>cached_endpoint.
          bindS (liftS (matches cached_endpoint observed)) (\<lambda>m.
          if \<not> m then retS (Some (vr_reject ''cache_endpoint_mismatch'' (JStr (cr_resolver_id row)) []))
          else bindS (liftS (trusted_cache_key cached_endpoint (cr_resolver_id row) (Some (cr_object_version row)))) (\<lambda>expected.
               if cr_cache_key row \<noteq> expected
               then retS (Some (vr_reject ''cache_binding_mismatch'' (JStr (cr_resolver_id row)) []))
               else bindS (liftS (parse_rfc3339 (cr_soft_expire_at row))) (\<lambda>soft.
                    let effective_status = (if soft \<le> now then ''REFRESHING'' else ''VERIFIED'');
                        row' = row\<lparr>cr_status := effective_status\<rparr> in
                    seqS (if effective_status \<noteq> cr_status row
                          then on_db (update_status (cr_cache_key row) effective_status) else retS ())
                    (seqS (mem_put endpoint_key row')
                    (bindS (getS cm_owner) (\<lambda>owner.
                     bindS (liftS (accept_kwargs (JStr (cr_resolver_id row)) effective_status
                        (hit_evidence row' effective_status generation owner))) (\<lambda>r. retS (Some r))))))))))"

definition get_valid :: "(db \<Rightarrow> db) \<Rightarrow> string \<Rightarrow> endpoint \<Rightarrow> int \<Rightarrow> verification_result option cmop" where
  "get_valid interf endpoint_key observed now =
     bindS (on_db current_generation) (\<lambda>generation.
     bindS (on_db (get_by_endpoint_lookup_key endpoint_key)) (\<lambda>stored.
     bindS (mem_get endpoint_key) (\<lambda>remembered.
     seqS (on_db (modS interf))
     (bindS (on_db current_generation) (\<lambda>generation2.
      if generation \<noteq> generation2 then retS None
      else case (case stored of Some r \<Rightarrow> Some r | None \<Rightarrow> remembered) of
             None \<Rightarrow> retS None
           | Some row \<Rightarrow>
               if cr_status row = ''REVOKED'' then retS (Some (vr_reject ''cache_revoked'' (JStr (cr_resolver_id row)) []))
               else if cr_status row \<noteq> ''VERIFIED'' \<and> cr_status row \<noteq> ''REFRESHING'' then retS None
               else use_row endpoint_key observed now generation row)))))"

definition store_verified ::
  "string \<Rightarrow> string \<Rightarrow> endpoint \<Rightarrow> string \<Rightarrow> int \<Rightarrow> string \<Rightarrow> string \<Rightarrow> string \<Rightarrow> jdict \<Rightarrow> int option \<Rightarrow> int \<Rightarrow> bool cmop" where
  "store_verified endpoint_key resolver_id ep obj_hash object_version state_root soft_expire_at hard_expire_at
     evidence expected_generation now =
     bindS (liftS (normalized ep)) (\<lambda>n.
     bindS (liftS (trusted_cache_key n resolver_id (Some object_version))) (\<lambda>cache_key.
     bindS (case expected_generation of None \<Rightarrow> on_db current_generation | Some g \<Rightarrow> retS g) (\<lambda>generation.
     bindS (getS cm_owner) (\<lambda>owner.
     let row = \<lparr>cr_cache_key = cache_key, cr_endpoint_lookup_key = endpoint_key, cr_resolver_id = resolver_id,
                cr_endpoint = endpoint_to_dict n, cr_object_hash = obj_hash, cr_object_version = object_version,
                cr_state_root = state_root, cr_status = ''VERIFIED'', cr_verified_at = format_rfc3339 now,
                cr_soft_expire_at = soft_expire_at, cr_hard_expire_at = hard_expire_at,
                cr_evidence = dict_update evidence [(''cache_generation'', JInt generation), (''cache_generation_owner'', JStr owner)]\<rparr>
     in bindS (on_db (put_if_generation row generation)) (\<lambda>stored.
        if stored then seqS (mem_put endpoint_key row) (retS True) else retS False)))))"

definition result_is_current :: "verification_result \<Rightarrow> bool cmop" where
  "result_is_current result =
     bindS (getS cm_owner) (\<lambda>owner.
     if jget0 (vr_evidence result) ''cache_generation_owner'' \<noteq> JStr owner then retS True
     else (case jget0 (vr_evidence result) ''cache_generation'' of
             JNull \<Rightarrow> retS True
           | g \<Rightarrow> bindS (liftS (json_int g)) (\<lambda>i. bindS (on_db current_generation) (\<lambda>c. retS (i = c)))))"

definition invalidate_endpoint_key :: "string \<Rightarrow> string \<Rightarrow> unit cmop" where
  "invalidate_endpoint_key endpoint_key status =
     bindS (mem_get endpoint_key) (\<lambda>remembered.
     bindS (case remembered of Some r \<Rightarrow> retS (Some r) | None \<Rightarrow> on_db (get_by_endpoint_lookup_key endpoint_key)) (\<lambda>row.
     seqS (case row of Some r \<Rightarrow> invalidate_cache_key (cr_cache_key r) status | None \<Rightarrow> retS ())
     (mem_pop endpoint_key)))"

definition invalidate_endpoint :: "endpoint \<Rightarrow> string \<Rightarrow> unit cmop" where
  "invalidate_endpoint ep status =
     bindS (liftS (endpoint_lookup_key ep)) (\<lambda>key. invalidate_endpoint_key key status)"

definition invalidate_resolver :: "string \<Rightarrow> string \<Rightarrow> unit cmop" where
  "invalidate_resolver resolver_id status =
     seqS (on_db bump_generation)
     (seqS (mem_set_status (\<lambda>r. cr_resolver_id r = resolver_id) status)
     (on_db (mark_status_by_resolver resolver_id status)))"

definition has_rid_key :: "string \<Rightarrow> cache_row \<Rightarrow> bool" where
  "has_rid_key rid_key r = (jget0 (cr_evidence r) ''resolver_id_key'' = JStr rid_key)"

definition invalidate_resolver_key :: "string \<Rightarrow> string \<Rightarrow> unit cmop" where
  "invalidate_resolver_key rid_key status =
     seqS (on_db bump_generation)
     (seqS (mem_set_status (has_rid_key rid_key) status)
     (bindS (on_db cache_list) (\<lambda>rows.
      forS (filter (has_rid_key rid_key) rows) (\<lambda>r. invalidate_cache_key (cr_cache_key r) status))))"

definition invalidate_object_version_by_resolver_key :: "string \<Rightarrow> int \<Rightarrow> unit cmop" where
  "invalidate_object_version_by_resolver_key rid_key object_version =
     seqS (on_db bump_generation)
     (seqS (mem_set_status (\<lambda>r. has_rid_key rid_key r \<and> cr_object_version r \<noteq> object_version) ''EXPIRED'')
     (bindS (on_db cache_list) (\<lambda>rows.
      forS (filter (\<lambda>r. has_rid_key rid_key r \<and> cr_object_version r \<noteq> object_version) rows)
        (\<lambda>r. invalidate_cache_key (cr_cache_key r) ''EXPIRED''))))"

definition invalidate_root :: "string \<Rightarrow> string \<Rightarrow> unit cmop" where
  "invalidate_root state_root status =
     seqS (on_db bump_generation)
     (seqS (mem_set_status (\<lambda>r. cr_state_root r = state_root) status)
     (on_db (mark_status_by_root state_root status)))"

definition invalidate_object_version :: "string \<Rightarrow> int \<Rightarrow> unit cmop" where
  "invalidate_object_version resolver_id object_version =
     seqS (on_db bump_generation)
     (seqS (mem_set_status (\<lambda>r. cr_resolver_id r = resolver_id \<and> cr_object_version r \<noteq> object_version) ''EXPIRED'')
     (on_db (mark_stale_versions resolver_id object_version)))"

definition expire_all :: "string \<Rightarrow> int cmop" where
  "expire_all status =
     bindS (on_db cache_list) (\<lambda>rows.
     seqS (forS rows (\<lambda>r. invalidate_cache_key (cr_cache_key r) status))
     (seqS (modS (\<lambda>c. c\<lparr>cm_memory := []\<rparr>)) (retS (int (length rows)))))"

text \<open>\<open>refresh_registry_state\<close>: one row, then the loop with the counters checked, expired and
  revoked.\<close>

definition refresh_verdict :: "registry_view \<Rightarrow> cache_row \<Rightarrow> string option res" where
  "refresh_verdict reg row =
     (let endpoint_key = (if cr_endpoint_lookup_key row \<noteq> [] then JStr (cr_endpoint_lookup_key row) else jget0 (cr_evidence row) ''endpoint_key'');
          rid_key = jget0 (cr_evidence row) ''resolver_id_key'' in
      if \<not> truthy endpoint_key \<or> \<not> truthy rid_key then Ret None
      else bind_res (as_str endpoint_key) (\<lambda>ek. bind_res (as_str rid_key) (\<lambda>rk.
           bind_res (rv_binding reg ek) (\<lambda>bound. bind_res (rv_anchor reg rk) (\<lambda>anchor. bind_res (rv_root reg (cr_state_root row)) (\<lambda>root_status.
           Ret (if root_status = Some ''REVOKED'' \<or> (case anchor of Some a \<Rightarrow> an_status a = ''REVOKED'' | None \<Rightarrow> False) then Some ''REVOKED''
                else if bound \<noteq> Some rk \<or> (case anchor of None \<Rightarrow> True | Some a \<Rightarrow>
                   an_object_version a \<noteq> cr_object_version row \<or> an_object_hash a \<noteq> cr_object_hash row \<or> an_state_root a \<noteq> cr_state_root row)
                then Some ''EXPIRED'' else None)))))))"

fun refresh_rows :: "registry_view \<Rightarrow> cache_row list \<Rightarrow> int \<times> int \<times> int \<Rightarrow> (int \<times> int \<times> int) cmop" where
  "refresh_rows reg [] counts = retS counts"
| "refresh_rows reg (row # rows) (checked, expired, revoked) =
     bindS (liftS (refresh_verdict reg row)) (\<lambda>verdict.
     case verdict of
       None \<Rightarrow> refresh_rows reg rows (checked + 1, expired, revoked)
     | Some st \<Rightarrow> seqS (invalidate_cache_key (cr_cache_key row) st)
         (refresh_rows reg rows (if st = ''REVOKED'' then (checked + 1, expired, revoked + 1) else (checked + 1, expired + 1, revoked))))"

definition refresh_registry_state :: "registry_view \<Rightarrow> (int \<times> int \<times> int) cmop" where
  "refresh_registry_state reg = bindS (on_db cache_list) (\<lambda>rows. refresh_rows reg rows (0, 0, 0))"

section \<open>Behaviour of the trusted cache\<close>
section \<open>The generation counter\<close>

definition gen_is :: "db \<Rightarrow> nat \<Rightarrow> bool" where
  "gen_is d n \<longleftrightarrow> (case dict_get (t_runtime d) ''cache_generation'' of None \<Rightarrow> n = 0 | Some s \<Rightarrow> s = dec_of_nat n)"

definition db_gen_ge :: "nat \<Rightarrow> db \<Rightarrow> bool" where
  "db_gen_ge n d \<longleftrightarrow> (\<exists>m\<ge>n. gen_is d m)"

definition gen_ge :: "nat \<Rightarrow> cache_mgr \<Rightarrow> bool" where
  "gen_ge n c \<longleftrightarrow> db_gen_ge n (cm_db c)"

lemma current_generation_is: "gen_is d n \<Longrightarrow> current_generation d = (Ret (int n), d)"
  by (auto simp: gen_is_def current_generation_def py_int_dec_of_nat split: option.splits)

lemma gen_is_unique: "gen_is d n \<Longrightarrow> gen_is d m \<Longrightarrow> n = m"
  by (auto simp: gen_is_def split: option.splits dest: dec_of_nat_inj)

lemma takeWhile_digits: "takeWhile is_digit (dec_of_nat n) = dec_of_nat n"
  using dec_of_nat_digits by (simp add: takeWhile_eq_all_conv)

lemma sqlite_cast_dec: "sqlite_cast_int (dec_of_nat n) = int n"
proof -
  obtain c cs where c: "dec_of_nat n = c # cs" by (cases "dec_of_nat n") auto
  then have d: "is_digit c" using dec_of_nat_digits[of n] by auto
  then have "\<not> is_ascii_space c" "c \<noteq> CHR ''-''" "c \<noteq> CHR ''+''" by (auto simp: is_digit_def is_ascii_space_def Let_def)
  then show ?thesis using c takeWhile_digits[of n] nat_of_dec_of_nat[of n] by (simp add: sqlite_cast_int_def)
qed

lemma bump_generation_is:
  assumes "gen_is d n"
  shows "\<exists>d'. bump_generation d = (Ret (int (Suc n)), d') \<and> gen_is d' (Suc n) \<and> d' = d\<lparr>t_runtime := t_runtime d'\<rparr>"
proof -
  let ?v = "(case dict_get (t_runtime d) ''cache_generation'' of None \<Rightarrow> ''1'' | Some s \<Rightarrow> dec_of_int (sqlite_cast_int s + 1))"
  let ?d = "d\<lparr>t_runtime := dict_set (t_runtime d) ''cache_generation'' ?v\<rparr>"
  have one: "dec_of_nat (Suc 0) = ''1''" by (simp add: dec_of_nat.simps digit_char_def char_of_def bit_0)
  have v: "?v = dec_of_nat (Suc n)"
  proof (cases "dict_get (t_runtime d) ''cache_generation''")
    case None
    then show ?thesis using assms one by (simp add: gen_is_def)
  next
    case (Some s)
    then have s: "s = dec_of_nat n" using assms by (simp add: gen_is_def)
    have "nat (int n + 1) = Suc n" by simp
    then show ?thesis using Some by (simp add: s sqlite_cast_dec dec_of_int_def)
  qed
  then have g: "gen_is ?d (Suc n)" by (simp add: gen_is_def)
  have "bump_generation d = (Ret (int (Suc n)), ?d)"
    using current_generation_is[OF g] by (simp add: bump_generation_def)
  then show ?thesis using g by (intro exI[of _ ?d]) simp
qed

lemma bump_generation_gt: "db_gen_ge n d \<Longrightarrow> db_gen_ge (Suc n) (snd (bump_generation d))"
  using bump_generation_is by (fastforce simp: db_gen_ge_def)

lemma gen_is_other: "t_runtime d' = t_runtime d \<Longrightarrow> gen_is d' n = gen_is d n"
  by (simp add: gen_is_def)

named_theorems keeps_gen

lemma keeps_gen_db [keeps_gen]:
  "keeps (db_gen_ge n) current_generation" "keeps (db_gen_ge n) bump_generation"
  "keeps (db_gen_ge n) (get_by_endpoint_lookup_key k)" "keeps (db_gen_ge n) (update_status k st)"
  "keeps (db_gen_ge n) (mark_status_by_resolver k st)" "keeps (db_gen_ge n) (mark_status_by_root k st)"
  "keeps (db_gen_ge n) (mark_stale_versions k v)" "keeps (db_gen_ge n) cache_list"
  "keeps (db_gen_ge n) (put_if_generation row g)" "keeps (db_gen_ge n) (modS (\<lambda>d. d))"
proof -
  show "keeps (db_gen_ge n) bump_generation"
  proof (rule keepsI)
    fix d assume "db_gen_ge n d"
    from bump_generation_gt[OF this] show "db_gen_ge n (snd (bump_generation d))" by (auto simp: db_gen_ge_def intro: Suc_leD)
  qed
  have upd: "db_gen_ge n (d\<lparr>t_cache := x\<rparr>) = db_gen_ge n d" "db_gen_ge n (d\<lparr>db_audit_seq := q, t_audit := l\<rparr>) = db_gen_ge n d"
    "db_gen_ge n (d\<lparr>t_cache := x, db_audit_seq := q, t_audit := l\<rparr>) = db_gen_ge n d" for d x q l
    by (simp_all add: db_gen_ge_def gen_is_def)
  show "keeps (db_gen_ge n) current_generation"
    by (auto simp: keeps_def current_generation_def bindS_def split: option.split sum.split)
  then show "keeps (db_gen_ge n) (put_if_generation row g)"
    by (auto simp: keeps_def put_if_generation_def current_generation_def bindS_def seqS_def cache_insert_def upd sql_int_def split: option.split sum.split prod.split)
  show "keeps (db_gen_ge n) (get_by_endpoint_lookup_key k)" "keeps (db_gen_ge n) cache_list" "keeps (db_gen_ge n) (modS (\<lambda>d. d))"
    by (simp_all add: keeps_def get_by_endpoint_lookup_key_def cache_list_def)
  show "keeps (db_gen_ge n) (update_status k st)" "keeps (db_gen_ge n) (mark_status_by_resolver k st)" "keeps (db_gen_ge n) (mark_status_by_root k st)"
    "keeps (db_gen_ge n) (mark_stale_versions k v)"
    by (simp_all add: keeps_def update_status_def mark_status_by_resolver_def mark_status_by_root_def mark_stale_versions_def set_status_def upd)
qed

lemma keeps_on_db: "keeps (db_gen_ge n) m \<Longrightarrow> keeps (gen_ge n) (on_db m)"
  by (auto simp: keeps_def gen_ge_def on_db_def zoomS_def split: prod.splits)

lemma keeps_gen_mem [keeps_gen]:
  "keeps (gen_ge n) (mem_set_status P st)" "keeps (gen_ge n) (mem_get k)" "keeps (gen_ge n) (mem_pop k)" "keeps (gen_ge n) (mem_put k r)"
  "keeps (gen_ge n) (modS (\<lambda>c. c\<lparr>cm_memory := m\<rparr>))"
  by (simp_all add: keeps_def mem_set_status_def mem_get_def mem_pop_def mem_put_def gen_ge_def)

lemma keeps_option: "(\<And>x. keeps I (f x)) \<Longrightarrow> keeps I g \<Longrightarrow> keeps I (case o' of None \<Rightarrow> g | Some x \<Rightarrow> f x)"
  by (simp split: option.split)

lemmas keeps_struct = keeps_bindS keeps_seqS keeps_basic keeps_if keeps_option keeps_forS keeps_on_db keeps_gen

lemma keeps_gen_invalidate_cache_key [keeps_gen]: "keeps (gen_ge n) (invalidate_cache_key k st)"
  unfolding invalidate_cache_key_def by (intro keeps_struct)

lemma keeps_gen_use_row [keeps_gen]: "keeps (gen_ge n) (use_row ek obs now g row)"
  unfolding use_row_def Let_def by (intro keeps_struct keeps_gen_invalidate_cache_key)

lemma keeps_gen_get_valid [keeps_gen]: "keeps (gen_ge n) (get_valid (\<lambda>d. d) ek obs now)"
  unfolding get_valid_def by (intro keeps_struct keeps_gen_use_row)

lemma keeps_gen_store [keeps_gen]: "keeps (gen_ge n) (store_verified ek i ep h v r so ha ev eg now)"
  unfolding store_verified_def Let_def by (intro keeps_struct)

lemma keeps_gen_invalidate [keeps_gen]:
  "keeps (gen_ge n) (invalidate_endpoint_key ek st)" "keeps (gen_ge n) (invalidate_endpoint ep st)"
  "keeps (gen_ge n) (invalidate_resolver i st)" "keeps (gen_ge n) (invalidate_resolver_key rk st)"
  "keeps (gen_ge n) (invalidate_object_version_by_resolver_key rk v)" "keeps (gen_ge n) (invalidate_root r st)"
  "keeps (gen_ge n) (invalidate_object_version i v)" "keeps (gen_ge n) (expire_all st)"
  unfolding invalidate_endpoint_key_def invalidate_endpoint_def invalidate_resolver_def invalidate_resolver_key_def
    invalidate_object_version_by_resolver_key_def invalidate_root_def invalidate_object_version_def expire_all_def
  by (intro keeps_struct keeps_gen_invalidate_cache_key)+

lemma keeps_gen_refresh_rows: "keeps (gen_ge n) (refresh_rows reg rows counts)"
proof (induction rows arbitrary: counts)
  case (Cons r rows)
  obtain a b c where "counts = (a, b, c)" by (cases counts)
  then show ?case using Cons by (auto intro!: keeps_struct keeps_gen_invalidate_cache_key)
qed simp

lemma keeps_gen_refresh [keeps_gen]: "keeps (gen_ge n) (refresh_registry_state reg)"
  unfolding refresh_registry_state_def by (intro keeps_struct keeps_gen_refresh_rows)

lemma on_db_bump_gt: "gen_ge n c \<Longrightarrow> \<exists>x c'. on_db bump_generation c = (Ret x, c') \<and> gen_ge (Suc n) c'"
proof -
  assume "gen_ge n c"
  then obtain m where m: "n \<le> m" "gen_is (cm_db c) m" by (auto simp: gen_ge_def db_gen_ge_def)
  from bump_generation_is[OF m(2)] obtain d' where d': "bump_generation (cm_db c) = (Ret (int (Suc m)), d')" "gen_is d' (Suc m)" by blast
  then have "on_db bump_generation c = (Ret (int (Suc m)), c\<lparr>cm_db := d'\<rparr>)" by (simp add: on_db_def zoomS_def)
  moreover have "gen_ge (Suc n) (c\<lparr>cm_db := d'\<rparr>)" using d'(2) m(1) by (auto simp: gen_ge_def db_gen_ge_def)
  ultimately show ?thesis by blast
qed

lemma bump_first:
  assumes "keeps (gen_ge (Suc n)) m" "gen_ge n c"
  shows "gen_ge (Suc n) (snd (seqS (on_db bump_generation) m c))"
proof -
  obtain x c' where "on_db bump_generation c = (Ret x, c')" "gen_ge (Suc n) c'" using on_db_bump_gt[OF assms(2)] by blast
  then show ?thesis using assms(1) by (simp add: seqS_eq keepsD)
qed

section \<open>No stale commit\<close>

text \<open>The interface that protects in-flight verifications: steps never decrease the generation,
  invalidations increase it, and a commit checks it.\<close>

locale generation_store =
  fixes at_least :: "nat \<Rightarrow> 's \<Rightarrow> bool"
    and step :: "'a \<Rightarrow> 's \<Rightarrow> 's"
    and invalidates :: "'a \<Rightarrow> bool"
    and commit :: "'v \<Rightarrow> nat \<Rightarrow> 's \<Rightarrow> bool res \<times> 's"
  assumes step_keeps: "at_least n s \<Longrightarrow> at_least n (step a s)"
    and step_invalidates: "at_least n s \<Longrightarrow> invalidates a \<Longrightarrow> at_least (Suc n) (step a s)"
    and commit_refuses: "at_least (Suc n) s \<Longrightarrow> commit v n s = (Ret False, s)"
begin

lemma run_keeps: "at_least n s \<Longrightarrow> at_least n (fold step as s)"
  by (induction as arbitrary: s) (auto intro: step_keeps)

lemma run_invalidates: "at_least n s \<Longrightarrow> \<exists>a\<in>set as. invalidates a \<Longrightarrow> at_least (Suc n) (fold step as s)"
proof (induction as arbitrary: s)
  case (Cons a as)
  show ?case
  proof (cases "invalidates a")
    case True
    then have "at_least (Suc n) (step a s)" using Cons.prems step_invalidates by blast
    then show ?thesis by (simp add: run_keeps)
  next
    case False
    then show ?thesis using Cons step_keeps by auto
  qed
qed simp

lemma stale_commit_refused:
  "at_least n s \<Longrightarrow> \<exists>a\<in>set as. invalidates a \<Longrightarrow> commit v n (fold step as s) = (Ret False, fold step as s)"
  by (intro commit_refuses run_invalidates)

end

text \<open>Calls of the cache manager by any thread; a call that raises keeps the effects it had.\<close>

datatype cache_call =
    GetValid string endpoint int
  | Store string string endpoint string int string string string jdict "int option" int
  | InvalidateCacheKey string string
  | InvalidateEndpointKey string string
  | InvalidateEndpoint endpoint string
  | InvalidateResolver string string
  | InvalidateResolverKey string string
  | InvalidateVersionByKey string int
  | InvalidateRoot string string
  | InvalidateVersion string int
  | ExpireAll string
  | Refresh registry_view

fun run_cache :: "cache_call \<Rightarrow> cache_mgr \<Rightarrow> cache_mgr" where
  "run_cache (GetValid ek obs now) c = snd (get_valid (\<lambda>d. d) ek obs now c)"
| "run_cache (Store ek i ep h v r so ha ev eg now) c = snd (store_verified ek i ep h v r so ha ev eg now c)"
| "run_cache (InvalidateCacheKey k st) c = snd (invalidate_cache_key k st c)"
| "run_cache (InvalidateEndpointKey ek st) c = snd (invalidate_endpoint_key ek st c)"
| "run_cache (InvalidateEndpoint ep st) c = snd (invalidate_endpoint ep st c)"
| "run_cache (InvalidateResolver i st) c = snd (invalidate_resolver i st c)"
| "run_cache (InvalidateResolverKey rk st) c = snd (invalidate_resolver_key rk st c)"
| "run_cache (InvalidateVersionByKey rk v) c = snd (invalidate_object_version_by_resolver_key rk v c)"
| "run_cache (InvalidateRoot r st) c = snd (invalidate_root r st c)"
| "run_cache (InvalidateVersion i v) c = snd (invalidate_object_version i v c)"
| "run_cache (ExpireAll st) c = snd (expire_all st c)"
| "run_cache (Refresh reg) c = snd (refresh_registry_state reg c)"

fun is_invalidation :: "cache_call \<Rightarrow> bool" where
  "is_invalidation (InvalidateCacheKey k st) = True"
| "is_invalidation (InvalidateResolver i st) = True"
| "is_invalidation (InvalidateResolverKey rk st) = True"
| "is_invalidation (InvalidateVersionByKey rk v) = True"
| "is_invalidation (InvalidateRoot r st) = True"
| "is_invalidation (InvalidateVersion i v) = True"
| "is_invalidation _ = False"

definition commit_row :: "cache_row \<Rightarrow> nat \<Rightarrow> bool cmop" where
  "commit_row row g = on_db (put_if_generation row (int g))"

lemma keeps_run_cache: "gen_ge n c \<Longrightarrow> gen_ge n (run_cache call c)"
  by (cases call) (auto intro: keepsD keeps_gen)

lemma invalidation_bumps: "gen_ge n c \<Longrightarrow> is_invalidation call \<Longrightarrow> gen_ge (Suc n) (run_cache call c)"
  by (cases call)
    (auto simp: invalidate_cache_key_def invalidate_resolver_def invalidate_resolver_key_def
      invalidate_object_version_by_resolver_key_def invalidate_root_def invalidate_object_version_def
      intro!: bump_first keeps_struct keeps_gen_invalidate_cache_key)

lemma commit_refused:
  assumes "gen_ge (Suc n) c"
  shows "commit_row row n c = (Ret False, c)"
proof -
  obtain m where m: "Suc n \<le> m" "gen_is (cm_db c) m" using assms by (auto simp: gen_ge_def db_gen_ge_def)
  have "put_if_generation row (int n) (cm_db c) = (Ret False, cm_db c)"
    using m current_generation_is[OF m(2)] by (simp add: put_if_generation_def bindS_eq)
  then show ?thesis by (simp add: commit_row_def on_db_def zoomS_def)
qed

interpretation cache_gen: generation_store gen_ge run_cache is_invalidation commit_row
  by unfold_locales (auto intro: keeps_run_cache invalidation_bumps commit_refused)

text \<open>C36. No verification survives an invalidation: a verification that read generation \<open>n\<close> and, after any
  sequence of cache calls with at least one invalidation among them, tries to store its result is
  refused, and neither the database nor the memory changes.\<close>

theorem stale_verification_not_stored:
  assumes "gen_is (cm_db c) n" and "\<exists>a\<in>set calls. is_invalidation a"
    and "normalized ep = Ret ep'" and "trusted_cache_key ep' i (Some v) = Ret k"
  shows "store_verified ek i ep h v r so ha ev (Some (int n)) now (fold run_cache calls c) = (Ret False, fold run_cache calls c)"
proof -
  have "gen_ge n c" using assms(1) by (auto simp: gen_ge_def db_gen_ge_def)
  then have "commit_row row n (fold run_cache calls c) = (Ret False, fold run_cache calls c)" for row
    using assms(2) cache_gen.stale_commit_refused by blast
  then show ?thesis
    unfolding store_verified_def assms(3) bindS_simps assms(4) option.case Let_def commit_row_def by (simp add: bindS_def)
qed

lemma empty_gen: "gen_is (empty_db t) 0"
  by (simp add: gen_is_def empty_db_def)

lemma demo_cache_key: "\<exists>k. trusted_cache_key demo_endpoint i v = Ret k"
  using trusted_cache_key_total[of demo_endpoint demo_endpoint demo_endpoint] demo_endpoint_stable by (simp add: endpoint_stable_def)

theorem stale_verification_not_stored_witness:
  "store_verified ''ek'' ''r1'' demo_endpoint ''h'' 1 ''root'' ''s'' ''t'' [] (Some 0) 0
     (run_cache (InvalidateResolver ''r9'' ''REVOKED'') \<lparr>cm_db = empty_db 0, cm_memory = [], cm_owner = ''o''\<rparr>) =
   (Ret False, run_cache (InvalidateResolver ''r9'' ''REVOKED'') \<lparr>cm_db = empty_db 0, cm_memory = [], cm_owner = ''o''\<rparr>)"
proof -
  obtain k where k: "trusted_cache_key demo_endpoint ''r1'' (Some 1) = Ret k" using demo_cache_key by blast
  have n: "normalized demo_endpoint = Ret demo_endpoint" using demo_endpoint_stable by (simp add: endpoint_stable_def)
  have g: "gen_is (cm_db \<lparr>cm_db = empty_db 0, cm_memory = [], cm_owner = ''o''\<rparr>) 0" by (simp add: empty_gen)
  from stale_verification_not_stored[OF g _ n k, of "[InvalidateResolver ''r9'' ''REVOKED'']"] show ?thesis by simp
qed

section \<open>What a cache hit means\<close>

lemma on_db_Inr: "on_db m c = (x, c') \<longleftrightarrow> (\<exists>d'. m (cm_db c) = (x, d') \<and> c' = c\<lparr>cm_db := d'\<rparr>)"
  by (auto simp: on_db_def zoomS_def split: prod.splits)

lemma current_generation_state: "current_generation d = (x, d') \<Longrightarrow> d' = d"
  by (auto simp: current_generation_def split: option.splits)

definition row_usable :: "cache_row \<Rightarrow> endpoint \<Rightarrow> int \<Rightarrow> bool" where
  "row_usable row observed now \<longleftrightarrow>
     (cr_status row = ''VERIFIED'' \<or> cr_status row = ''REFRESHING'') \<and>
     (\<exists>hard. parse_rfc3339 (cr_hard_expire_at row) = Ret hard \<and> now < hard) \<and>
     (\<exists>ce. endpoint_from_dict (cr_endpoint row) = Ret ce \<and> matches ce observed = Ret True \<and>
        trusted_cache_key ce (cr_resolver_id row) (Some (cr_object_version row)) = Ret (cr_cache_key row))"

lemma use_row_accepts:
  assumes "use_row ek obs now g row c = (Ret (Some r), c')" and "vr_accepted r"
    and "cr_status row = ''VERIFIED'' \<or> cr_status row = ''REFRESHING''"
  shows "row_usable row obs now \<and> vr_resolver_id r = JStr (cr_resolver_id row) \<and>
     (\<exists>soft. parse_rfc3339 (cr_soft_expire_at row) = Ret soft \<and> vr_status r = (if soft \<le> now then ''REFRESHING'' else ''VERIFIED'')) \<and>
     jget0 (vr_evidence r) ''cache_generation'' = JInt g \<and> jget0 (vr_evidence r) ''cache_generation_owner'' = JStr (cm_owner c)"
proof -
  obtain hard where h: "parse_rfc3339 (cr_hard_expire_at row) = Ret hard"
    using assms(1) by (auto simp: use_row_def bindS_Inr)
  have nh: "\<not> hard \<le> now"
    using assms(1) h by (auto simp: use_row_def seqS_Inr split: if_splits)
  obtain ce where ce: "endpoint_from_dict (cr_endpoint row) = Ret ce"
    using assms(1) h nh by (auto simp: use_row_def bindS_Inr)
  have m: "matches ce obs = Ret True"
    using assms(1,2) h nh ce by (auto simp: use_row_def bindS_Inr split: if_splits)
  obtain k where k: "trusted_cache_key ce (cr_resolver_id row) (Some (cr_object_version row)) = Ret k"
    using assms(1) h nh ce m by (auto simp: use_row_def bindS_Inr)
  have kk: "cr_cache_key row = k" using assms(1,2) h nh ce m k by (auto simp: use_row_def split: if_splits)
  obtain soft where so: "parse_rfc3339 (cr_soft_expire_at row) = Ret soft"
    using assms(1) h nh ce m k kk by (auto simp: use_row_def bindS_Inr)
  let ?st = "if soft \<le> now then ''REFRESHING'' else ''VERIFIED''"
  have "accept_kwargs (JStr (cr_resolver_id row)) ?st (hit_evidence (row\<lparr>cr_status := ?st\<rparr>) ?st g (cm_owner c)) = Ret r"
    using assms(1) h nh ce m k so
    by (auto simp: use_row_def kk Let_def seqS_Inr bindS_Inr mem_put_def on_db_Inr split: if_splits)
  then show ?thesis using h nh ce m k kk so assms(3)
    by (auto simp: row_usable_def accept_kwargs_def hit_evidence_def split: if_splits)
qed

lemma cache_hit_row:
  assumes "get_valid interf ek obs now c = (Ret (Some r), c')" and "vr_accepted r"
  shows "\<exists>row g. (newest_for ek (cm_db c) = Some row \<or> (newest_for ek (cm_db c) = None \<and> dict_get (cm_memory c) ek = Some row)) \<and>
     row_usable row obs now \<and> cr_status row \<noteq> ''REVOKED'' \<and> vr_resolver_id r = JStr (cr_resolver_id row) \<and>
     fst (current_generation (cm_db c)) = Ret g \<and> fst (current_generation (interf (cm_db c))) = Ret g \<and>
     jget0 (vr_evidence r) ''cache_generation'' = JInt g"
proof -
  obtain g where g: "current_generation (cm_db c) = (Ret g, cm_db c)"
    using assms(1) by (auto simp: get_valid_def bindS_Inr on_db_Inr dest: current_generation_state)
  define row where "row = (case newest_for ek (cm_db c) of Some r \<Rightarrow> Some r | None \<Rightarrow> dict_get (cm_memory c) ek)"
  define F where "F = (\<lambda>generation2. if g \<noteq> generation2 then retS None
      else case row of
             None \<Rightarrow> retS None
           | Some row \<Rightarrow>
               if cr_status row = ''REVOKED'' then retS (Some (vr_reject ''cache_revoked'' (JStr (cr_resolver_id row)) []))
               else if cr_status row \<noteq> ''VERIFIED'' \<and> cr_status row \<noteq> ''REFRESHING'' then retS None
               else use_row ek obs now g row)"
  let ?c = "c\<lparr>cm_db := interf (cm_db c)\<rparr>"
  have "get_valid interf ek obs now c = bindS (on_db current_generation) F ?c"
    unfolding get_valid_def row_def F_def
    by (simp add: bindS_def on_db_def zoomS_def g get_by_endpoint_lookup_key_def mem_get_def seqS_def)
  then have "bindS (on_db current_generation) F ?c = (Ret (Some r), c')" using assms(1) by simp
  then obtain g2 where g2: "current_generation (interf (cm_db c)) = (Ret g2, interf (cm_db c))" and F: "F g2 ?c = (Ret (Some r), c')"
    by (auto simp: bindS_Inr on_db_Inr dest: current_generation_state)
  have eq: "g2 = g" and "row \<noteq> None" using F by (auto simp: F_def split: if_splits option.splits)
  then obtain rw where rw: "row = Some rw" by blast
  have st: "cr_status rw = ''VERIFIED'' \<or> cr_status rw = ''REFRESHING''" and u: "use_row ek obs now g rw ?c = (Ret (Some r), c')"
    using F eq rw assms(2) by (auto simp: F_def split: if_splits)
  from use_row_accepts[OF u assms(2) st] have "row_usable rw obs now" "vr_resolver_id r = JStr (cr_resolver_id rw)"
    "jget0 (vr_evidence r) ''cache_generation'' = JInt g" by auto
  moreover have "newest_for ek (cm_db c) = Some rw \<or> (newest_for ek (cm_db c) = None \<and> dict_get (cm_memory c) ek = Some rw)"
    using rw by (auto simp: row_def split: option.splits)
  moreover have "cr_status rw \<noteq> ''REVOKED''" using st by auto
  ultimately show ?thesis using g g2 eq by (intro exI[of _ rw] exI[of _ g]) simp
qed

text \<open>C35. A cache hit is justified: if \<open>get_valid\<close> answers with an accepted result, whatever other processes do to
  the database during the call, then the row it used is the newest one stored for the endpoint key or, when none is
  stored, the one this process remembers in memory; its status is VERIFIED or REFRESHING, its hard expiry
  lies in the future (the soft expiry may be past: the answer then carries the status REFRESHING), its endpoint
  matches the observed one, its key is the binding key of that endpoint, resolver and object version, the answer
  names its resolver, and the cache generation was the same before and after the reading.\<close>

theorem cache_hit_justified:
  assumes "get_valid interf ek obs now c = (Ret (Some r), c')" and "vr_accepted r"
  shows "\<exists>row g. (newest_for ek (cm_db c) = Some row \<or> (newest_for ek (cm_db c) = None \<and> dict_get (cm_memory c) ek = Some row)) \<and>
     row_usable row obs now \<and> cr_status row \<noteq> ''REVOKED'' \<and> vr_resolver_id r = JStr (cr_resolver_id row) \<and>
     fst (current_generation (cm_db c)) = Ret g \<and> fst (current_generation (interf (cm_db c))) = Ret g \<and>
     jget0 (vr_evidence r) ''cache_generation'' = JInt g"
  using assms by (rule cache_hit_row)

section \<open>Storing and finding\<close>

lemma insort_greatest: "\<forall>y\<in>set ys. f y < f x \<Longrightarrow> insort_key f x ys = ys @ [x :: cache_row]"
  for f :: "cache_row \<Rightarrow> string"
  by (induction ys) auto

lemma newest_first_greatest:
  "\<forall>y\<in>set xs. cr_verified_at y < cr_verified_at x \<Longrightarrow> newest_first (xs @ [x]) = x # newest_first xs"
  by (simp add: newest_first_def insort_greatest)

lemma set_newest_first [simp]: "set (newest_first rows) = set rows"
  by (simp add: newest_first_def)

lemma newest_for_Some: "newest_for ek d = Some r \<Longrightarrow> r \<in> set (t_cache d) \<and> cr_endpoint_lookup_key r = ek"
proof -
  assume "newest_for ek d = Some r"
  then obtain rs where "newest_first (filter (\<lambda>r. cr_endpoint_lookup_key r = ek) (t_cache d)) = r # rs"
    by (auto simp: newest_for_def split: list.splits)
  then have "r \<in> set (newest_first (filter (\<lambda>r. cr_endpoint_lookup_key r = ek) (t_cache d)))" by (simp only: list.set_intros(1))
  then show ?thesis by simp
qed

lemma newest_for_inserted:
  assumes "\<forall>y\<in>set (t_cache d). cr_endpoint_lookup_key y = cr_endpoint_lookup_key row \<and> cr_cache_key y \<noteq> cr_cache_key row \<longrightarrow> cr_verified_at y < cr_verified_at row"
  shows "newest_for (cr_endpoint_lookup_key row) (cache_insert row d) = Some row"
proof -
  let ?xs = "filter (\<lambda>r. cr_endpoint_lookup_key r = cr_endpoint_lookup_key row) (filter (\<lambda>r. cr_cache_key r \<noteq> cr_cache_key row) (t_cache d))"
  have "newest_first (?xs @ [row]) = row # newest_first ?xs" using assms by (intro newest_first_greatest) auto
  then show ?thesis by (simp add: newest_for_def cache_insert_def)
qed

lemma put_if_generation_stores:
  assumes "gen_is d n" and "- (2 ^ 63) \<le> cr_object_version row" and "cr_object_version row < 2 ^ 63"
  shows "put_if_generation row (int n) d = (Ret True, cache_insert row d)"
  using assms current_generation_is[OF assms(1)] by (simp add: put_if_generation_def bindS_eq sql_int_def)

lemma gen_is_cache_insert [simp]: "gen_is (cache_insert row d) n = gen_is d n"
  by (simp add: gen_is_def cache_insert_def)

lemma matches_self:
  assumes "endpoint_stable e" "truthy (e_ip e) \<or> truthy (e_server_name e) \<or> truthy (e_uri e)"
  shows "matches e e = Ret True"
  using assms by (auto simp: matches_def endpoint_stable_def matches_normalized_def both_differ_def both_given_def)

text \<open>The row that \<open>store_verified\<close> writes for a canonical endpoint.\<close>

definition stored_row :: "string \<Rightarrow> string \<Rightarrow> endpoint \<Rightarrow> string \<Rightarrow> int \<Rightarrow> string \<Rightarrow> string \<Rightarrow> string \<Rightarrow> jdict \<Rightarrow> int \<Rightarrow> int \<Rightarrow> string \<Rightarrow> string \<Rightarrow> cache_row" where
  "stored_row ek i ep h v r so ha ev g now owner k =
     \<lparr>cr_cache_key = k, cr_endpoint_lookup_key = ek, cr_resolver_id = i,
      cr_endpoint = endpoint_to_dict ep, cr_object_hash = h, cr_object_version = v,
      cr_state_root = r, cr_status = ''VERIFIED'', cr_verified_at = format_rfc3339 now,
      cr_soft_expire_at = so, cr_hard_expire_at = ha,
      cr_evidence = dict_update ev [(''cache_generation'', JInt g), (''cache_generation_owner'', JStr owner)]\<rparr>"

lemma store_verified_stores:
  assumes "gen_is (cm_db c) n" and "endpoint_stable ep" and "trusted_cache_key ep i (Some v) = Ret k"
    and "- (2 ^ 63) \<le> v" "v < 2 ^ 63"
    and row_def: "row = stored_row ek i ep h v r so ha ev (int n) now (cm_owner c) k"
  shows "store_verified ek i ep h v r so ha ev (Some (int n)) now c =
     (Ret True, c\<lparr>cm_db := cache_insert row (cm_db c), cm_memory := dict_set (cm_memory c) ek row\<rparr>)"
proof -
  have n: "normalized ep = Ret ep" using assms(2) by (simp add: endpoint_stable_def)
  have "put_if_generation row (int n) (cm_db c) = (Ret True, cache_insert row (cm_db c))"
    using assms(1,4,5) by (intro put_if_generation_stores) (simp_all add: row_def stored_row_def)
  then have "on_db (put_if_generation row (int n)) c = (Ret True, c\<lparr>cm_db := cache_insert row (cm_db c)\<rparr>)"
    by (simp add: on_db_def zoomS_def)
  then show ?thesis
    unfolding store_verified_def n bindS_simps assms(3) option.case Let_def row_def stored_row_def
    by (simp add: bindS_def seqS_def mem_put_def)
qed

lemma get_valid_uses:
  assumes "gen_is (cm_db c) n" and "newest_for ek (cm_db c) = Some row" and "cr_status row = ''VERIFIED''"
  shows "get_valid (\<lambda>d. d) ek obs now c = use_row ek obs now (int n) row c"
proof -
  have "on_db current_generation c = (Ret (int n), c)" using current_generation_is[OF assms(1)] by (simp add: on_db_def zoomS_def)
  moreover have "on_db (get_by_endpoint_lookup_key ek) c = (Ret (Some row), c)"
    by (simp add: on_db_def zoomS_def get_by_endpoint_lookup_key_def assms(2))
  moreover have "on_db (modS (\<lambda>d. d)) c = (Ret (), c)" by (simp add: on_db_def zoomS_def)
  ultimately show ?thesis using assms(3) by (simp add: get_valid_def bindS_eq seqS_eq mem_get_def)
qed

definition evidence_plain :: "jdict \<Rightarrow> bool" where
  "evidence_plain ev \<longleftrightarrow> dict_get ev ''status'' = None \<and> dict_get ev ''resolver_id'' = None \<and> dict_get ev ''cls'' = None"

lemma use_row_stored:
  assumes "endpoint_stable ep" "truthy (e_ip ep) \<or> truthy (e_server_name ep) \<or> truthy (e_uri ep)"
    and "trusted_cache_key ep i (Some v) = Ret k" and "evidence_plain ev"
    and "parse_rfc3339 ha = Ret hard" "now < hard" "parse_rfc3339 so = Ret soft" "now < soft"
    and row_def: "row = stored_row ek i ep h v r so ha ev g now0 owner k"
  shows "\<exists>ev' c'. use_row ek ep now g row c = (Ret (Some (vr_accept (JStr i) ''VERIFIED'' ev')), c') \<and>
     jget0 ev' ''object_hash'' = JStr h \<and> jget0 ev' ''object_version'' = JInt v \<and> jget0 ev' ''state_root'' = JStr r \<and>
     cm_db c' = cm_db c \<and> cm_owner c' = cm_owner c"
proof -
  have f: "endpoint_from_dict (cr_endpoint row) = Ret ep" using endpoint_stable_roundtrip[OF assms(1)] by (simp add: row_def stored_row_def)
  have m: "matches ep ep = Ret True" by (rule matches_self[OF assms(1,2)])
  have row: "cr_cache_key row = k" "cr_resolver_id row = i" "cr_object_version row = v" "cr_hard_expire_at row = ha"
    "cr_soft_expire_at row = so" "cr_status row = ''VERIFIED''" "cr_object_hash row = h" "cr_state_root row = r"
    by (simp_all add: row_def stored_row_def)
  have plain: "evidence_plain (hit_evidence row st g' ow)" for st g' ow
    using assms(4) by (simp add: evidence_plain_def hit_evidence_def row_def stored_row_def)
  then have "accept_kwargs (JStr i) ''VERIFIED'' (hit_evidence row ''VERIFIED'' g (cm_owner c)) = Ret (vr_accept (JStr i) ''VERIFIED'' (hit_evidence row ''VERIFIED'' g (cm_owner c)))"
    by (simp add: accept_kwargs_def evidence_plain_def)
  moreover have same: "row\<lparr>cr_status := ''VERIFIED''\<rparr> = row" by (simp add: row_def stored_row_def)
  ultimately have "use_row ek ep now g row c = (Ret (Some (vr_accept (JStr i) ''VERIFIED'' (hit_evidence row ''VERIFIED'' g (cm_owner c)))),
       c\<lparr>cm_memory := dict_set (cm_memory c) ek row\<rparr>)"
    using assms(3,5-8) by (simp add: use_row_def f m row mem_put_def Let_def same)
  then show ?thesis by (auto simp: hit_evidence_def row)
qed

text \<open>A stored verification is found again: after \<open>store_verified\<close> for a canonical endpoint under the
  current generation, \<open>get_valid\<close> accepts the endpoint for the resolver, with the stored hash,
  version and root, as long as neither expiry is reached and no newer row exists for the key.\<close>

theorem stored_verification_found:
  assumes "gen_is (cm_db c) n" and "endpoint_stable ep"
    and "truthy (e_ip ep) \<or> truthy (e_server_name ep) \<or> truthy (e_uri ep)"
    and "trusted_cache_key ep i (Some v) = Ret k" and "- (2 ^ 63) \<le> v" "v < 2 ^ 63" and "evidence_plain ev"
    and "\<forall>y\<in>set (t_cache (cm_db c)). cr_endpoint_lookup_key y = ek \<and> cr_cache_key y \<noteq> k \<longrightarrow> cr_verified_at y < format_rfc3339 now0"
    and "parse_rfc3339 ha = Ret hard" "now < hard" "parse_rfc3339 so = Ret soft" "now < soft"
  shows "\<exists>c1 c2 ev'. store_verified ek i ep h v r so ha ev (Some (int n)) now0 c = (Ret True, c1) \<and>
     get_valid (\<lambda>d. d) ek ep now c1 = (Ret (Some (vr_accept (JStr i) ''VERIFIED'' ev')), c2) \<and>
     jget0 ev' ''object_hash'' = JStr h \<and> jget0 ev' ''object_version'' = JInt v \<and> jget0 ev' ''state_root'' = JStr r"
proof -
  define row where "row = stored_row ek i ep h v r so ha ev (int n) now0 (cm_owner c) k"
  define c1 where "c1 = c\<lparr>cm_db := cache_insert row (cm_db c), cm_memory := dict_set (cm_memory c) ek row\<rparr>"
  have st: "store_verified ek i ep h v r so ha ev (Some (int n)) now0 c = (Ret True, c1)"
    using store_verified_stores[OF assms(1,2,4,5,6) row_def] by (simp add: c1_def)
  have "newest_for (cr_endpoint_lookup_key row) (cache_insert row (cm_db c)) = Some row"
    using assms(8) by (intro newest_for_inserted) (simp add: row_def stored_row_def)
  then have nf: "newest_for ek (cm_db c1) = Some row" by (simp add: c1_def row_def stored_row_def)
  have "get_valid (\<lambda>d. d) ek ep now c1 = use_row ek ep now (int n) row c1"
    using assms(1) by (intro get_valid_uses[OF _ nf]) (simp_all add: c1_def row_def stored_row_def)
  then show ?thesis using st use_row_stored[OF assms(2,3,4,7,9-12) row_def, of c1] by auto
qed

text \<open>A manager over an empty database, and the expiry instants used in the examples.\<close>

definition demo_cache :: cache_mgr where
  "demo_cache = \<lparr>cm_db = empty_db 0, cm_memory = [], cm_owner = ''owner-1''\<rparr>"

lemma demo_expiry: "parse_rfc3339 (format_rfc3339 2000000000) = Ret 2000000000"
  using parse_format_rfc3339[of 2000000000] by (simp add: dt_ok_def EPOCH_DAYS_def DAY_US_def)

theorem stored_verification_found_witness:
  "\<exists>c1 c2 ev'. store_verified ''ek'' ''resolver-1'' demo_endpoint ''0xaa'' 3 ''0xbb'' (format_rfc3339 2000000000) (format_rfc3339 2000000000) []
       (Some (int 0)) 1000000000 demo_cache = (Ret True, c1) \<and>
     get_valid (\<lambda>d. d) ''ek'' demo_endpoint 1500000000 c1 = (Ret (Some (vr_accept (JStr ''resolver-1'') ''VERIFIED'' ev')), c2) \<and>
     jget0 ev' ''object_hash'' = JStr ''0xaa'' \<and> jget0 ev' ''object_version'' = JInt 3 \<and> jget0 ev' ''state_root'' = JStr ''0xbb''"
proof -
  obtain k where k: "trusted_cache_key demo_endpoint ''resolver-1'' (Some 3) = Ret k" using demo_cache_key by blast
  show ?thesis
  proof (rule stored_verification_found[OF _ demo_endpoint_stable _ k _ _ _ _ demo_expiry _ demo_expiry])
    show "gen_is (cm_db demo_cache) 0" by (simp add: demo_cache_def empty_gen)
    show "truthy (e_ip demo_endpoint) \<or> truthy (e_server_name demo_endpoint) \<or> truthy (e_uri demo_endpoint)" by (simp add: demo_endpoint_def)
    show "\<forall>y\<in>set (t_cache (cm_db demo_cache)). cr_endpoint_lookup_key y = ''ek'' \<and> cr_cache_key y \<noteq> k \<longrightarrow> cr_verified_at y < format_rfc3339 1000000000"
      by (simp add: demo_cache_def empty_db_def)
  qed (simp_all add: evidence_plain_def)
qed

lemma demo_hit:
  "\<exists>c1 c2 ev'. newest_for ''ek'' (cm_db c1) \<noteq> None \<and>
     get_valid (\<lambda>d. d) ''ek'' demo_endpoint 1500000000 c1 = (Ret (Some (vr_accept (JStr ''resolver-1'') ''VERIFIED'' ev')), c2)"
proof -
  obtain k where k: "trusted_cache_key demo_endpoint ''resolver-1'' (Some 3) = Ret k" using demo_cache_key by blast
  define row where "row = stored_row ''ek'' ''resolver-1'' demo_endpoint ''0xaa'' 3 ''0xbb'' (format_rfc3339 2000000000) (format_rfc3339 2000000000) [] 0 0 ''o'' k"
  define c1 where "c1 = demo_cache\<lparr>cm_db := cache_insert row (empty_db 0)\<rparr>"
  have "newest_for (cr_endpoint_lookup_key row) (cache_insert row (empty_db 0)) = Some row"
    by (rule newest_for_inserted) (simp add: empty_db_def)
  then have nf: "newest_for ''ek'' (cm_db c1) = Some row" by (simp add: c1_def row_def stored_row_def)
  have "get_valid (\<lambda>d. d) ''ek'' demo_endpoint 1500000000 c1 = use_row ''ek'' demo_endpoint 1500000000 (int 0) row c1"
    by (intro get_valid_uses[OF _ nf]) (simp_all add: c1_def row_def stored_row_def empty_gen)
  moreover have "\<exists>ev' c'. use_row ''ek'' demo_endpoint 1500000000 (int 0) row c1 = (Ret (Some (vr_accept (JStr ''resolver-1'') ''VERIFIED'' ev')), c')"
    using use_row_stored[OF demo_endpoint_stable _ k _ demo_expiry _ demo_expiry _ row_def, where now = 1500000000 and c = c1]
    by (auto simp: demo_endpoint_def evidence_plain_def)
  ultimately obtain ev' c' where "get_valid (\<lambda>d. d) ''ek'' demo_endpoint 1500000000 c1 = (Ret (Some (vr_accept (JStr ''resolver-1'') ''VERIFIED'' ev')), c')"
    by auto
  then show ?thesis using nf by (metis option.distinct(1))
qed

theorem cache_hit_justified_witness:
  "\<exists>(c1 :: cache_mgr) c2 r row. get_valid (\<lambda>d. d) ''ek'' demo_endpoint 1500000000 c1 = (Ret (Some r), c2) \<and> vr_accepted r \<and>
     newest_for ''ek'' (cm_db c1) = Some row \<and> row_usable row demo_endpoint 1500000000 \<and> vr_resolver_id r = JStr (cr_resolver_id row)"
proof -
  obtain c1 c2 ev' where h: "newest_for ''ek'' (cm_db c1) \<noteq> None"
    "get_valid (\<lambda>d. d) ''ek'' demo_endpoint 1500000000 c1 = (Ret (Some (vr_accept (JStr ''resolver-1'') ''VERIFIED'' ev')), c2)"
    using demo_hit by blast
  let ?r = "vr_accept (JStr ''resolver-1'') ''VERIFIED'' ev'"
  have acc: "vr_accepted ?r" by simp
  from cache_hit_justified[OF h(2) acc] h(1) obtain row where "newest_for ''ek'' (cm_db c1) = Some row"
    "row_usable row demo_endpoint 1500000000" "vr_resolver_id ?r = JStr (cr_resolver_id row)"
    by auto
  then show ?thesis using h(2) acc by blast
qed

section \<open>Withdrawal and refresh\<close>

lemma mem_dict_get:
  "dict_get (map (\<lambda>(k, r). (k, if P r then r\<lparr>cr_status := st\<rparr> else r)) m) ek = map_option (\<lambda>r. if P r then r\<lparr>cr_status := st\<rparr> else r) (dict_get m ek)"
  by (induction m) auto

text \<open>After a resolver is invalidated, all its rows, stored and remembered, have the given status.\<close>

lemma bump_seq: "on_db bump_generation c = (Ret y, c1) \<Longrightarrow> seqS (on_db bump_generation) m c = m c1"
  by (simp add: seqS_def bindS_def)

lemma invalidate_resolver_rows:
  assumes "gen_is (cm_db c) n" and "invalidate_resolver i st c = (x, c')"
  shows "x = Ret () \<and> gen_is (cm_db c') (Suc n) \<and>
     t_cache (cm_db c') = map (\<lambda>r. if cr_resolver_id r = i then r\<lparr>cr_status := st\<rparr> else r) (t_cache (cm_db c)) \<and>
     cm_memory c' = map (\<lambda>(k, r). (k, if cr_resolver_id r = i then r\<lparr>cr_status := st\<rparr> else r)) (cm_memory c)"
proof -
  obtain d1 where b: "bump_generation (cm_db c) = (Ret (int (Suc n)), d1)" "gen_is d1 (Suc n)" "d1 = (cm_db c)\<lparr>t_runtime := t_runtime d1\<rparr>"
    using bump_generation_is[OF assms(1)] by blast
  have tc: "t_cache d1 = t_cache (cm_db c)" by (subst b(3)) simp
  have "on_db bump_generation c = (Ret (int (Suc n)), c\<lparr>cm_db := d1\<rparr>)" by (simp add: on_db_def zoomS_def b(1))
  then have "invalidate_resolver i st c = seqS (mem_set_status (\<lambda>r. cr_resolver_id r = i) st) (on_db (mark_status_by_resolver i st)) (c\<lparr>cm_db := d1\<rparr>)"
    unfolding invalidate_resolver_def by (rule bump_seq)
  then have "(x, c') = (Ret (), c\<lparr>cm_db := snd (mark_status_by_resolver i st d1),
      cm_memory := map (\<lambda>(k, r). (k, if cr_resolver_id r = i then r\<lparr>cr_status := st\<rparr> else r)) (cm_memory c)\<rparr>)"
    using assms(2) by (simp add: mem_set_status_def on_db_def zoomS_def mark_status_by_resolver_def)
  then show ?thesis using b(2) tc by (simp add: mark_status_by_resolver_def set_status_def gen_is_def)
qed

lemma invalidate_root_rows:
  assumes "gen_is (cm_db c) n" and "invalidate_root i st c = (x, c')"
  shows "x = Ret () \<and> gen_is (cm_db c') (Suc n) \<and>
     t_cache (cm_db c') = map (\<lambda>r. if cr_state_root r = i then r\<lparr>cr_status := st\<rparr> else r) (t_cache (cm_db c)) \<and>
     cm_memory c' = map (\<lambda>(k, r). (k, if cr_state_root r = i then r\<lparr>cr_status := st\<rparr> else r)) (cm_memory c)"
proof -
  obtain d1 where b: "bump_generation (cm_db c) = (Ret (int (Suc n)), d1)" "gen_is d1 (Suc n)" "d1 = (cm_db c)\<lparr>t_runtime := t_runtime d1\<rparr>"
    using bump_generation_is[OF assms(1)] by blast
  have tc: "t_cache d1 = t_cache (cm_db c)" by (subst b(3)) simp
  have "on_db bump_generation c = (Ret (int (Suc n)), c\<lparr>cm_db := d1\<rparr>)" by (simp add: on_db_def zoomS_def b(1))
  then have "invalidate_root i st c = seqS (mem_set_status (\<lambda>r. cr_state_root r = i) st) (on_db (mark_status_by_root i st)) (c\<lparr>cm_db := d1\<rparr>)"
    unfolding invalidate_root_def by (rule bump_seq)
  then have "(x, c') = (Ret (), c\<lparr>cm_db := snd (mark_status_by_root i st d1),
      cm_memory := map (\<lambda>(k, r). (k, if cr_state_root r = i then r\<lparr>cr_status := st\<rparr> else r)) (cm_memory c)\<rparr>)"
    using assms(2) by (simp add: mem_set_status_def on_db_def zoomS_def mark_status_by_root_def)
  then show ?thesis using b(2) tc by (simp add: mark_status_by_root_def set_status_def gen_is_def)
qed

lemma row_of_mapped:
  "row \<in> set (map f xs) \<or> (k, row) \<in> set (map (\<lambda>(k, r). (k, f r)) m) \<Longrightarrow> \<exists>r0. (r0 \<in> set xs \<or> (k, r0) \<in> set m) \<and> row = f r0"
  by auto

lemma get_valid_revoked:
  assumes "gen_is (cm_db c) n" and "newest_for ek (cm_db c) = Some row" and "cr_status row = ''REVOKED''"
  shows "get_valid (\<lambda>d. d) ek obs now c = (Ret (Some (vr_reject ''cache_revoked'' (JStr (cr_resolver_id row)) [])), c)"
proof -
  have "on_db current_generation c = (Ret (int n), c)" using current_generation_is[OF assms(1)] by (simp add: on_db_def zoomS_def)
  moreover have "on_db (get_by_endpoint_lookup_key ek) c = (Ret (Some row), c)"
    by (simp add: on_db_def zoomS_def get_by_endpoint_lookup_key_def assms(2))
  moreover have "on_db (modS (\<lambda>d. d)) c = (Ret (), c)" by (simp add: on_db_def zoomS_def)
  ultimately show ?thesis using assms(3) by (simp add: get_valid_def bindS_eq seqS_eq mem_get_def)
qed

text \<open>Revocation reaches the cache at once: after \<open>invalidate_resolver\<close> (or \<open>invalidate_root\<close>) with status
  \<open>REVOKED\<close>, no later \<open>get_valid\<close> on that state accepts any endpoint for the resolver (for a row
  under the root), neither from the database nor from memory.\<close>

theorem revocation_reaches_cache:
  assumes "gen_is (cm_db c) n"
    and "get_valid (\<lambda>d. d) ek obs now (snd (invalidate_resolver i ''REVOKED'' c)) = (Ret (Some r), c')"
    and "get_valid (\<lambda>d. d) ek obs now (snd (invalidate_root root ''REVOKED'' c)) = (Ret (Some r2), c2)"
  shows "(vr_accepted r \<longrightarrow> vr_resolver_id r \<noteq> JStr i) \<and>
    (vr_accepted r2 \<longrightarrow> (\<exists>row. (row \<in> set (t_cache (cm_db c)) \<or> (ek, row) \<in> set (cm_memory c)) \<and> cr_state_root row \<noteq> root \<and>
       vr_resolver_id r2 = JStr (cr_resolver_id row)))"
proof (intro conjI impI notI)
  assume acc: "vr_accepted r" and id: "vr_resolver_id r = JStr i"
  obtain x c1 where inv: "invalidate_resolver i ''REVOKED'' c = (x, c1)" by fastforce
  note rows = invalidate_resolver_rows[OF assms(1) inv]
  obtain row where row: "newest_for ek (cm_db c1) = Some row \<or> (newest_for ek (cm_db c1) = None \<and> dict_get (cm_memory c1) ek = Some row)"
    "cr_status row \<noteq> ''REVOKED''" "cr_resolver_id row = i"
    using cache_hit_row[OF assms(2)[unfolded inv snd_conv] acc] id by auto
  have "row \<in> set (t_cache (cm_db c1)) \<or> (ek, row) \<in> set (cm_memory c1)"
    using row(1) newest_for_Some[of ek "cm_db c1" row] dict_get_in_set[of "cm_memory c1" ek row] by auto
  then have "row \<in> set (map (\<lambda>r. if cr_resolver_id r = i then r\<lparr>cr_status := ''REVOKED''\<rparr> else r) (t_cache (cm_db c))) \<or>
      (ek, row) \<in> set (map (\<lambda>(k, r). (k, if cr_resolver_id r = i then r\<lparr>cr_status := ''REVOKED''\<rparr> else r)) (cm_memory c))"
    using rows by simp
  note this[THEN row_of_mapped]
  then obtain r0 where "row = (if cr_resolver_id r0 = i then r0\<lparr>cr_status := ''REVOKED''\<rparr> else r0)" by blast
  then show False using row(2,3) by (cases "cr_resolver_id r0 = i") simp_all
next
  assume acc: "vr_accepted r2"
  obtain x c1 where inv: "invalidate_root root ''REVOKED'' c = (x, c1)" by fastforce
  note rows = invalidate_root_rows[OF assms(1) inv]
  obtain row where row: "newest_for ek (cm_db c1) = Some row \<or> (newest_for ek (cm_db c1) = None \<and> dict_get (cm_memory c1) ek = Some row)"
    "cr_status row \<noteq> ''REVOKED''" "vr_resolver_id r2 = JStr (cr_resolver_id row)"
    using cache_hit_row[OF assms(3)[unfolded inv snd_conv] acc] by auto
  have "row \<in> set (t_cache (cm_db c1)) \<or> (ek, row) \<in> set (cm_memory c1)"
    using row(1) newest_for_Some[of ek "cm_db c1" row] dict_get_in_set[of "cm_memory c1" ek row] by auto
  then have "row \<in> set (map (\<lambda>r. if cr_state_root r = root then r\<lparr>cr_status := ''REVOKED''\<rparr> else r) (t_cache (cm_db c))) \<or>
      (ek, row) \<in> set (map (\<lambda>(k, r). (k, if cr_state_root r = root then r\<lparr>cr_status := ''REVOKED''\<rparr> else r)) (cm_memory c))"
    using rows by simp
  note this[THEN row_of_mapped]
  then obtain r0 where r0: "r0 \<in> set (t_cache (cm_db c)) \<or> (ek, r0) \<in> set (cm_memory c)"
    "row = (if cr_state_root r0 = root then r0\<lparr>cr_status := ''REVOKED''\<rparr> else r0)" by blast
  then have "cr_state_root r0 \<noteq> root" "row = r0" using row(2) by (cases "cr_state_root r0 = root"; simp)+
  then show "\<exists>row. (row \<in> set (t_cache (cm_db c)) \<or> (ek, row) \<in> set (cm_memory c)) \<and> cr_state_root row \<noteq> root \<and>
       vr_resolver_id r2 = JStr (cr_resolver_id row)"
    using r0(1) row(3) by blast
qed

lemma newest_for_single: "t_cache d = [row] \<Longrightarrow> cr_endpoint_lookup_key row = ek \<Longrightarrow> newest_for ek d = Some row"
  by (simp add: newest_for_def newest_first_def)

theorem revocation_reaches_cache_witness:
  "\<exists>(c :: cache_mgr) r c'. newest_for ''ek'' (cm_db c) \<noteq> None \<and>
     get_valid (\<lambda>d. d) ''ek'' demo_endpoint 1500000000 (snd (invalidate_resolver ''resolver-1'' ''REVOKED'' c)) = (Ret (Some r), c') \<and>
     \<not> (vr_accepted r \<and> vr_resolver_id r = JStr ''resolver-1'')"
proof -
  define row where "row = stored_row ''ek'' ''resolver-1'' demo_endpoint ''0xaa'' 3 ''0xbb'' ''s'' ''t'' [] 0 0 ''o'' ''k''"
  define c where "c = demo_cache\<lparr>cm_db := cache_insert row (empty_db 0)\<rparr>"
  have g: "gen_is (cm_db c) 0" by (simp add: c_def empty_gen)
  have tc: "t_cache (cm_db c) = [row]" by (simp add: c_def cache_insert_def empty_db_def)
  have nf: "newest_for ''ek'' (cm_db c) \<noteq> None" using newest_for_single[OF tc, of "''ek''"] by (simp add: row_def stored_row_def)
  obtain x c1 where i1: "invalidate_resolver ''resolver-1'' ''REVOKED'' c = (x, c1)" by fastforce
  note r1 = invalidate_resolver_rows[OF g i1]
  obtain y c3 where i2: "invalidate_root ''0xbb'' ''REVOKED'' c = (y, c3)" by fastforce
  note r2 = invalidate_root_rows[OF g i2]
  let ?row = "row\<lparr>cr_status := ''REVOKED''\<rparr>"
  have t1: "t_cache (cm_db c1) = [?row]" and t3: "t_cache (cm_db c3) = [?row]" using r1 r2 tc by (simp_all add: row_def stored_row_def)
  have "get_valid (\<lambda>d. d) ''ek'' demo_endpoint 1500000000 c1 = (Ret (Some (vr_reject ''cache_revoked'' (JStr (cr_resolver_id ?row)) [])), c1)"
    using r1 newest_for_single[OF t1, of "''ek''"] by (intro get_valid_revoked[of c1 1]) (simp_all add: row_def stored_row_def)
  moreover have "get_valid (\<lambda>d. d) ''ek'' demo_endpoint 1500000000 c3 = (Ret (Some (vr_reject ''cache_revoked'' (JStr (cr_resolver_id ?row)) [])), c3)"
    using r2 newest_for_single[OF t3, of "''ek''"] by (intro get_valid_revoked[of c3 1]) (simp_all add: row_def stored_row_def)
  ultimately have gets: "get_valid (\<lambda>d. d) ''ek'' demo_endpoint 1500000000 (snd (invalidate_resolver ''resolver-1'' ''REVOKED'' c)) =
      (Ret (Some (vr_reject ''cache_revoked'' (JStr (cr_resolver_id ?row)) [])), c1)"
    "get_valid (\<lambda>d. d) ''ek'' demo_endpoint 1500000000 (snd (invalidate_root ''0xbb'' ''REVOKED'' c)) =
      (Ret (Some (vr_reject ''cache_revoked'' (JStr (cr_resolver_id ?row)) [])), c3)"
    using i1 i2 by simp_all
  show ?thesis by (intro exI conjI, rule nf, rule gets(1)) (use revocation_reaches_cache[OF g gets] in blast)
qed

end
