(* ===== verification/Indexer.thy ===== *)
theory Indexer
  imports Registry
begin

text \<open>
  \<open>IndexerRepository\<close> of \<open>db/repositories.py\<close>: the published objects, their endpoints and
  proofs, and the lookup index.  The constraints of \<open>db/schema.py\<close> that the statements run into
  are written out: primary keys, the uniqueness of \<open>resolver_id_key\<close> and \<open>endpoint_key\<close>, and the
  foreign keys to \<open>resolver_objects\<close>.
\<close>

definition get_resolver :: "string \<Rightarrow> object_row option dbop" where
  "get_resolver resolver_id = getS (\<lambda>d. find (\<lambda>r. ro_resolver_id r = resolver_id) (t_resolver_objects d))"

definition has_resolver :: "db \<Rightarrow> string \<Rightarrow> bool" where
  "has_resolver d resolver_id = list_ex (\<lambda>r. ro_resolver_id r = resolver_id) (t_resolver_objects d)"

definition fk_check :: "string \<Rightarrow> unit dbop" where
  "fk_check resolver_id = bindS (getS (\<lambda>d. has_resolver d resolver_id)) (\<lambda>ok.
     if ok then retS () else raiseS (IntegrityError ''FOREIGN KEY constraint failed''))"

fun upsert_row :: "object_row \<Rightarrow> object_row list \<Rightarrow> object_row list" where
  "upsert_row r [] = [r]"
| "upsert_row r (x # xs) = (if ro_resolver_id x = ro_resolver_id r then r # xs else x # upsert_row r xs)"

definition upsert_resolver_object :: "auth_object \<Rightarrow> string \<Rightarrow> string \<Rightarrow> unit dbop" where
  "upsert_resolver_object ob obj_hash state_root =
     bindS (liftS (as_str (o_resolver_id ob))) (\<lambda>rid. let rid_key = resolver_id_key rid in
     bindS (liftS (object_to_dict True ob)) (\<lambda>obj_json.
     seqS (sql_int (o_object_version ob)) (seqS (sql_value (o_status ob)) (seqS (sql_value (o_valid_from ob))
     (seqS (sql_value (o_valid_until ob)) (seqS (sql_value (o_issuer ob)) (seqS (sql_value (o_key_id ob))
     (bindS (getS (\<lambda>d. list_ex (\<lambda>r. ro_resolver_id_key r = rid_key \<and> ro_resolver_id r \<noteq> rid) (t_resolver_objects d))) (\<lambda>clash.
     if clash then raiseS (IntegrityError ''UNIQUE constraint failed: resolver_objects.resolver_id_key'')
     else seqS (modS (\<lambda>d. d\<lparr>t_resolver_objects := upsert_row
            \<lparr>ro_resolver_id = rid, ro_resolver_id_key = rid_key, ro_object_json = obj_json, ro_object_hash = obj_hash,
             ro_object_version = o_object_version ob, ro_status = o_status ob, ro_valid_from = o_valid_from ob,
             ro_valid_until = o_valid_until ob, ro_state_root = state_root, ro_issuer = o_issuer ob,
             ro_key_id = o_key_id ob\<rparr> (t_resolver_objects d)\<rparr>))
          (audit_record ''IndexerResolverObjectUpserted''
             [(''resolver_id'', JStr rid), (''resolver_id_key'', JStr rid_key), (''object_hash'', JStr obj_hash),
              (''object_version'', JInt (o_object_version ob)), (''status'', o_status ob), (''state_root'', JStr state_root)]))))))))))"

definition insert_endpoint :: "string \<Rightarrow> endpoint \<Rightarrow> string \<Rightarrow> unit dbop" where
  "insert_endpoint resolver_id ep key =
     bindS (liftS (normalized ep)) (\<lambda>n.
     seqS (fk_check resolver_id)
     (modS (\<lambda>d. d\<lparr>t_resolver_endpoints := filter (\<lambda>r. re_endpoint_key r \<noteq> key) (t_resolver_endpoints d) @
        [\<lparr>re_resolver_id = resolver_id, re_endpoint_json = endpoint_to_dict n, re_endpoint_key = key\<rparr>]\<rparr>)))"

definition replace_endpoints :: "string \<Rightarrow> (endpoint \<times> string) list \<Rightarrow> unit dbop" where
  "replace_endpoints resolver_id endpoints =
     seqS (modS (\<lambda>d. d\<lparr>t_resolver_endpoints := filter (\<lambda>r. re_resolver_id r \<noteq> resolver_id) (t_resolver_endpoints d)\<rparr>))
     (seqS (forS endpoints (\<lambda>(ep, key). insert_endpoint resolver_id ep key))
     (audit_record ''IndexerEndpointsReplaced''
        [(''resolver_id'', JStr resolver_id), (''endpoint_keys'', JArr (map (JStr \<circ> snd) endpoints))]))"

definition put_lookup :: "string \<Rightarrow> string \<Rightarrow> unit dbop" where
  "put_lookup lookup_key resolver_id = modS (\<lambda>d. d\<lparr>t_lookup :=
     filter (\<lambda>r. rl_lookup_key r \<noteq> lookup_key) (t_lookup d) @
     [\<lparr>rl_lookup_key = lookup_key, rl_resolver_id_key = resolver_id_key resolver_id, rl_resolver_id = resolver_id\<rparr>]\<rparr>)"

definition delete_lookup :: "string \<Rightarrow> string option \<Rightarrow> unit dbop" where
  "delete_lookup lookup_key resolver_id = modS (\<lambda>d. d\<lparr>t_lookup :=
     filter (\<lambda>r. \<not> (rl_lookup_key r = lookup_key \<and>
       (case resolver_id of None \<Rightarrow> True | Some i \<Rightarrow> rl_resolver_id r = i))) (t_lookup d)\<rparr>)"

definition idx_publish_root :: "string \<Rightarrow> string \<Rightarrow> unit dbop" where
  "idx_publish_root state_root status =
     seqS (modS (\<lambda>d. d\<lparr>t_state_roots := dict_set (t_state_roots d) state_root status\<rparr>))
     (audit_record ''IndexerRootPublished'' [(''state_root'', JStr state_root), (''status'', JStr status)])"

definition put_proof :: "string \<Rightarrow> string \<Rightarrow> jdict \<Rightarrow> string \<Rightarrow> unit dbop" where
  "put_proof resolver_id leaf_hash proof state_root =
     seqS (fk_check resolver_id)
     (seqS (modS (\<lambda>d. d\<lparr>t_proofs := filter (\<lambda>r. rp_resolver_id r \<noteq> resolver_id) (t_proofs d) @
        [\<lparr>rp_resolver_id = resolver_id, rp_leaf_hash = leaf_hash, rp_proof_json = proof, rp_state_root = state_root\<rparr>]\<rparr>))
     (audit_record ''IndexerProofStored''
        [(''resolver_id'', JStr resolver_id), (''leaf_hash'', JStr leaf_hash), (''state_root'', JStr state_root)]))"

text \<open>A proof row as the dictionary that \<open>get_proof\<close> returns.\<close>

definition proof_row_dict :: "proof_row \<Rightarrow> jdict" where
  "proof_row_dict r = [(''resolver_id'', JStr (rp_resolver_id r)), (''leaf_hash'', JStr (rp_leaf_hash r)),
     (''state_root'', JStr (rp_state_root r)), (''proof'', JObj (rp_proof_json r))]"

definition get_proof :: "string \<Rightarrow> jdict option dbop" where
  "get_proof resolver_id = getS (\<lambda>d. map_option proof_row_dict (find (\<lambda>r. rp_resolver_id r = resolver_id) (t_proofs d)))"

definition lookup :: "string \<Rightarrow> lookup_row option dbop" where
  "lookup lookup_key = getS (\<lambda>d. find (\<lambda>r. rl_lookup_key r = lookup_key) (t_lookup d))"

definition list_endpoint_keys :: "string \<Rightarrow> string list dbop" where
  "list_endpoint_keys resolver_id = getS (\<lambda>d. map re_endpoint_key
     (filter (\<lambda>r. re_resolver_id r = resolver_id) (t_resolver_endpoints d)))"

definition get_root :: "string \<Rightarrow> (string \<times> string) option dbop" where
  "get_root state_root = getS (\<lambda>d. map_option (\<lambda>st. (state_root, st)) (dict_get (t_state_roots d) state_root))"

section \<open>The integrity of the tables\<close>

definition indexer_ok :: "db \<Rightarrow> bool" where
  "indexer_ok d \<longleftrightarrow>
     distinct (map ro_resolver_id (t_resolver_objects d)) \<and>
     distinct (map ro_resolver_id_key (t_resolver_objects d)) \<and>
     (\<forall>r\<in>set (t_resolver_objects d). ro_resolver_id_key r = resolver_id_key (ro_resolver_id r)) \<and>
     distinct (map rl_lookup_key (t_lookup d)) \<and>
     (\<forall>r\<in>set (t_lookup d). rl_resolver_id_key r = resolver_id_key (rl_resolver_id r)) \<and>
     distinct (map rp_resolver_id (t_proofs d)) \<and> (\<forall>r\<in>set (t_proofs d). has_resolver d (rp_resolver_id r)) \<and>
     distinct (map re_endpoint_key (t_resolver_endpoints d)) \<and>
     (\<forall>r\<in>set (t_resolver_endpoints d). has_resolver d (re_resolver_id r))"

lemma set_upsert_row: "set (upsert_row r xs) \<subseteq> insert r (set xs)"
  by (induction xs) auto

lemma upsert_row_ids: "ro_resolver_id ` set (upsert_row r xs) = insert (ro_resolver_id r) (ro_resolver_id ` set xs)"
  by (induction xs) auto

lemma distinct_upsert_row:
  "distinct (map ro_resolver_id xs) \<Longrightarrow> distinct (map ro_resolver_id (upsert_row r xs))"
proof (induction xs)
  case (Cons x xs)
  then show ?case using upsert_row_ids[of r xs] by (cases "ro_resolver_id x = ro_resolver_id r") auto
qed simp

lemma distinct_upsert_key:
  assumes "distinct (map ro_resolver_id_key xs)" "distinct (map ro_resolver_id xs)"
    and "\<forall>x\<in>set xs. ro_resolver_id_key x = ro_resolver_id_key r \<longrightarrow> ro_resolver_id x = ro_resolver_id r"
  shows "distinct (map ro_resolver_id_key (upsert_row r xs))"
  using assms
proof (induction xs)
  case (Cons x xs)
  have sub: "ro_resolver_id_key ` set (upsert_row r xs) \<subseteq> insert (ro_resolver_id_key r) (ro_resolver_id_key ` set xs)"
    using set_upsert_row[of r xs] by blast
  show ?case
  proof (cases "ro_resolver_id x = ro_resolver_id r")
    case True
    have "ro_resolver_id_key r \<notin> ro_resolver_id_key ` set xs"
    proof
      assume "ro_resolver_id_key r \<in> ro_resolver_id_key ` set xs"
      then obtain y where "y \<in> set xs" "ro_resolver_id_key y = ro_resolver_id_key r" by auto
      then have "ro_resolver_id y = ro_resolver_id x" using Cons.prems(3) True by simp
      then show False using Cons.prems(2) \<open>y \<in> set xs\<close> by (auto simp: image_iff)
    qed
    then show ?thesis using Cons.prems(1) True by simp
  next
    case False
    then have "ro_resolver_id_key x \<noteq> ro_resolver_id_key r" using Cons.prems(3) by auto
    then show ?thesis using Cons False sub by auto
  qed
qed simp

lemma find_upsert_row:
  "find (\<lambda>x. ro_resolver_id x = i) (upsert_row r xs) =
     (if i = ro_resolver_id r then Some r else find (\<lambda>x. ro_resolver_id x = i) xs)"
  by (induction xs) auto

lemma find_append: "find P (xs @ ys) = (case find P xs of None \<Rightarrow> find P ys | Some x \<Rightarrow> Some x)"
  by (induction xs) auto

lemma find_filter_neq: "k \<noteq> k' \<Longrightarrow> find (\<lambda>r. f r = k) (filter (\<lambda>r. f r \<noteq> k') xs) = find (\<lambda>r. f r = k) xs"
  by (induction xs) auto

lemma find_filter_eq: "find (\<lambda>r. f r = k) (filter (\<lambda>r. f r \<noteq> k) xs) = None"
  by (auto simp: find_None_iff)

lemma find_replace:
  "find (\<lambda>r. f r = k) (filter (\<lambda>r. f r \<noteq> k') xs @ [x]) =
     (if f x = k \<and> k = k' then Some x else if k = k' then None
      else case find (\<lambda>r. f r = k) xs of None \<Rightarrow> (if f x = k then Some x else None) | Some y \<Rightarrow> Some y)"
  by (auto simp: find_append find_filter_eq find_filter_neq split: option.splits)

lemma distinct_replace: "distinct (map f xs) \<Longrightarrow> distinct (map f (filter (\<lambda>r. f r \<noteq> f x) xs @ [x]))"
  by (auto simp: distinct_map_filter)

lemma sql_checks_state [simp]: "snd (sql_int i s) = s" "snd (sql_value v s) = s"
  by (auto simp: sql_int_def sql_value_def split: json.split)

lemma sql_state: "sql_int i s = (x, u) \<Longrightarrow> u = s" "sql_value v s = (x, u) \<Longrightarrow> u = s"
  using sql_checks_state by (metis snd_conv)+

lemma keeps_sql [simp]: "keeps I (sql_int i)" "keeps I (sql_value v)"
  by (simp_all add: keeps_def)

lemma indexer_ok_audit [simp]: "indexer_ok (d\<lparr>db_audit_seq := n, t_audit := l\<rparr>) = indexer_ok d"
  by (simp add: indexer_ok_def has_resolver_def)

lemma keeps_audit_indexer: "keeps indexer_ok (audit_record t p)"
  by (rule keepsI) simp

lemma keeps_put_lookup: "keeps indexer_ok (put_lookup k i)"
  by (rule keepsI) (auto simp: put_lookup_def indexer_ok_def has_resolver_def distinct_map_filter)

lemma keeps_delete_lookup: "keeps indexer_ok (delete_lookup k i)"
  by (rule keepsI) (auto simp: delete_lookup_def indexer_ok_def has_resolver_def distinct_map_filter)

lemma keeps_idx_publish_root: "keeps indexer_ok (idx_publish_root r st)"
  unfolding idx_publish_root_def
  by (intro keeps_seqS keeps_audit_indexer keeps_modS) (simp add: indexer_ok_def has_resolver_def)

lemma keeps_put_proof: "keeps indexer_ok (put_proof i l p r)"
  by (rule keepsI)
    (auto simp: put_proof_def fk_check_def seqS_def bindS_def indexer_ok_def has_resolver_def distinct_map_filter split: prod.splits)

lemma keeps_insert_endpoint: "keeps indexer_ok (insert_endpoint i ep k)"
  by (rule keepsI)
    (auto simp: insert_endpoint_def fk_check_def seqS_def bindS_def indexer_ok_def has_resolver_def distinct_map_filter
      split: prod.splits sum.splits)

lemma keeps_replace_endpoints: "keeps indexer_ok (replace_endpoints i eps)"
  unfolding replace_endpoints_def
  by (intro keeps_seqS keeps_audit_indexer keeps_modS keeps_forS)
    (auto simp: indexer_ok_def has_resolver_def distinct_map_filter keeps_insert_endpoint)

lemma upsert_row_ok:
  assumes ok: "indexer_ok d" and key: "ro_resolver_id_key r = resolver_id_key (ro_resolver_id r)"
    and free: "\<not> list_ex (\<lambda>x. ro_resolver_id_key x = ro_resolver_id_key r \<and> ro_resolver_id x \<noteq> ro_resolver_id r) (t_resolver_objects d)"
  shows "indexer_ok (d\<lparr>t_resolver_objects := upsert_row r (t_resolver_objects d)\<rparr>)"
proof -
  have ids: "has_resolver (d\<lparr>t_resolver_objects := upsert_row r (t_resolver_objects d)\<rparr>) i" if "has_resolver d i" for i
    using that upsert_row_ids[of r "t_resolver_objects d"] by (auto simp: has_resolver_def list_ex_iff image_iff set_eq_iff) metis
  have "distinct (map ro_resolver_id_key (upsert_row r (t_resolver_objects d)))"
    using ok free by (intro distinct_upsert_key) (auto simp: indexer_ok_def list_ex_iff)
  then show ?thesis
    using ok key ids set_upsert_row[of r "t_resolver_objects d"]
    by (auto simp: indexer_ok_def distinct_upsert_row)
qed

lemma keeps_upsert: "keeps indexer_ok (upsert_resolver_object ob h r)"
proof -
  have final: "keeps indexer_ok (bindS (getS (\<lambda>d. list_ex (\<lambda>r. ro_resolver_id_key r = k \<and> ro_resolver_id r \<noteq> i) (t_resolver_objects d))) (\<lambda>clash.
     if clash then raiseS e else seqS (modS (\<lambda>d. d\<lparr>t_resolver_objects := upsert_row row (t_resolver_objects d)\<rparr>)) (audit_record t p)))"
    if "ro_resolver_id row = i" "ro_resolver_id_key row = k" "k = resolver_id_key i" for row i k e t p
  proof (rule keepsI)
    fix d assume "indexer_ok d"
    then show "indexer_ok (snd (bindS (getS (\<lambda>d. list_ex (\<lambda>r. ro_resolver_id_key r = k \<and> ro_resolver_id r \<noteq> i) (t_resolver_objects d))) (\<lambda>clash.
     if clash then raiseS e else seqS (modS (\<lambda>d. d\<lparr>t_resolver_objects := upsert_row row (t_resolver_objects d)\<rparr>)) (audit_record t p)) d))"
      using upsert_row_ok[of d row] that
        indexer_ok_audit[where d = "d\<lparr>t_resolver_objects := upsert_row row (t_resolver_objects d)\<rparr>"] by auto
  qed
  show ?thesis unfolding upsert_resolver_object_def Let_def
    by (intro keeps_bindS keeps_seqS keeps_basic keeps_sql final) simp_all
qed

lemma upsert_resolver_object_run:
  assumes "upsert_resolver_object ob h r d = (Ret (), d')" and "o_resolver_id ob = JStr i"
  shows "\<exists>dict. object_to_dict True ob = Ret dict \<and>
     t_resolver_objects d' = upsert_row \<lparr>ro_resolver_id = i, ro_resolver_id_key = resolver_id_key i, ro_object_json = dict, ro_object_hash = h,
             ro_object_version = o_object_version ob, ro_status = o_status ob, ro_valid_from = o_valid_from ob,
             ro_valid_until = o_valid_until ob, ro_state_root = r, ro_issuer = o_issuer ob,
             ro_key_id = o_key_id ob\<rparr> (t_resolver_objects d) \<and>
     t_lookup d' = t_lookup d \<and> t_proofs d' = t_proofs d \<and> t_resolver_endpoints d' = t_resolver_endpoints d \<and>
     t_anchors d' = t_anchors d \<and> t_bindings d' = t_bindings d \<and> t_roots d' = t_roots d \<and> t_cache d' = t_cache d \<and>
     t_runtime d' = t_runtime d"
  using assms unfolding upsert_resolver_object_def Let_def
  by (auto simp: bindS_Inr seqS_Inr split: if_splits dest!: sql_state)

section \<open>Sequences of operations\<close>

text \<open>The calls a client of the repository can make, in any order.\<close>

datatype indexer_call =
    CUpsert auth_object string string
  | CReplaceEndpoints string "(endpoint \<times> string) list"
  | CPutLookup string string
  | CDeleteLookup string "string option"
  | CPublishRoot string string
  | CPutProof string string jdict string

fun run_indexer :: "indexer_call \<Rightarrow> unit dbop" where
  "run_indexer (CUpsert ob h r) = upsert_resolver_object ob h r"
| "run_indexer (CReplaceEndpoints i eps) = replace_endpoints i eps"
| "run_indexer (CPutLookup k i) = put_lookup k i"
| "run_indexer (CDeleteLookup k i) = delete_lookup k i"
| "run_indexer (CPublishRoot r st) = idx_publish_root r st"
| "run_indexer (CPutProof i l p r) = put_proof i l p r"

lemma keeps_run_indexer: "keeps indexer_ok (run_indexer c)"
  by (cases c) (simp_all add: keeps_upsert keeps_replace_endpoints keeps_put_lookup keeps_delete_lookup
      keeps_idx_publish_root keeps_put_proof)

lemma indexer_ok_empty: "indexer_ok (empty_db now)"
  by (simp add: indexer_ok_def empty_db_def)

text \<open>Integrity of the index: whatever sequence of repository calls is made on a fresh database, failing
  calls included, keys stay unique, every row carries the key of its own resolver id, and every
  proof and endpoint belongs to a stored object.\<close>

theorem indexer_integrity:
  "indexer_ok (fold (\<lambda>c d. snd (run_indexer c d)) calls (empty_db now))"
proof -
  have "indexer_ok d \<Longrightarrow> indexer_ok (fold (\<lambda>c d. snd (run_indexer c d)) calls d)" for d
    by (induction calls arbitrary: d) (auto intro: keepsD[OF keeps_run_indexer])
  then show ?thesis using indexer_ok_empty by blast
qed

text \<open>Reading back what was stored: after \<open>put_lookup\<close> the key finds exactly that resolver and every
  other key finds what it found before; after a successful \<open>upsert_resolver_object\<close> the resolver's
  row holds the object's dictionary, hash and root, and the rows of other resolvers are unchanged;
  \<open>delete_lookup\<close> for a resolver removes the key only if it points to that resolver.\<close>

theorem indexer_read_back:
  assumes "upsert_resolver_object ob h r d = (Ret (), d1)" and "o_resolver_id ob = JStr i"
  shows "fst (lookup k' (snd (put_lookup k i d))) =
      (if k' = k then Ret (Some \<lparr>rl_lookup_key = k, rl_resolver_id_key = resolver_id_key i, rl_resolver_id = i\<rparr>) else fst (lookup k' d)) \<and>
    (\<exists>row. fst (get_resolver i d1) = Ret (Some row) \<and> object_to_dict True ob = Ret (ro_object_json row) \<and>
       ro_object_hash row = h \<and> ro_state_root row = r \<and> ro_object_version row = o_object_version ob) \<and>
    (j \<noteq> i \<longrightarrow> fst (get_resolver j d1) = fst (get_resolver j d)) \<and>
    fst (lookup k (snd (delete_lookup k (Some j) (snd (put_lookup k i d))))) =
      (if j = i then Ret None else fst (lookup k (snd (put_lookup k i d))))"
proof -
  from upsert_resolver_object_run[OF assms] obtain dict where u: "object_to_dict True ob = Ret dict"
    "t_resolver_objects d1 = upsert_row \<lparr>ro_resolver_id = i, ro_resolver_id_key = resolver_id_key i, ro_object_json = dict, ro_object_hash = h,
             ro_object_version = o_object_version ob, ro_status = o_status ob, ro_valid_from = o_valid_from ob,
             ro_valid_until = o_valid_until ob, ro_state_root = r, ro_issuer = o_issuer ob,
             ro_key_id = o_key_id ob\<rparr> (t_resolver_objects d)" by blast
  have flt: "find (\<lambda>x. rl_lookup_key x = k) (filter (\<lambda>x. rl_lookup_key x \<noteq> k \<and> Q x) xs) = None" for Q and xs :: "lookup_row list"
    by (auto simp: find_None_iff)
  show ?thesis
  proof (intro conjI impI)
    show "fst (lookup k' (snd (put_lookup k i d))) =
      (if k' = k then Ret (Some \<lparr>rl_lookup_key = k, rl_resolver_id_key = resolver_id_key i, rl_resolver_id = i\<rparr>) else fst (lookup k' d))"
      by (auto simp: lookup_def put_lookup_def find_replace split: option.split)
    show "\<exists>row. fst (get_resolver i d1) = Ret (Some row) \<and> object_to_dict True ob = Ret (ro_object_json row) \<and>
       ro_object_hash row = h \<and> ro_state_root row = r \<and> ro_object_version row = o_object_version ob"
      using u by (simp add: get_resolver_def find_upsert_row)
    show "fst (get_resolver j d1) = fst (get_resolver j d)" if "j \<noteq> i"
      using u that by (simp add: get_resolver_def find_upsert_row)
    show "fst (lookup k (snd (delete_lookup k (Some j) (snd (put_lookup k i d))))) =
      (if j = i then Ret None else fst (lookup k (snd (put_lookup k i d))))"
      by (auto simp: lookup_def put_lookup_def delete_lookup_def flt find_append find_filter_eq)
  qed
qed

lemma demo_fields:
  "o_resolver_id demo_object = JStr ''resolver-1''" "o_object_version demo_object = 3" "o_status demo_object = JStr ''ACTIVE''"
  "o_valid_from demo_object = JStr ''2024-01-01T00:00:00Z''" "o_valid_until demo_object = JStr ''2030-01-01T00:00:00Z''"
  "o_issuer demo_object = JStr ''issuer''" "o_key_id demo_object = JStr ''k1''"
  by (simp_all add: demo_object_def)

lemma demo_upsert: "\<exists>d1. upsert_resolver_object demo_object h r (empty_db 0) = (Ret (), d1)"
proof -
  have st: "object_stable demo_object"
    using demo_endpoint_stable by (simp add: object_stable_def demo_object_def operator_complete_def)
  obtain dict where "object_to_dict True demo_object = Ret dict" using object_to_dict_stable[OF st] by blast
  then show ?thesis
    by (simp add: upsert_resolver_object_def seqS_def bindS_def sql_int_def sql_value_def empty_db_def demo_fields Let_def)
qed

theorem indexer_read_back_witness:
  "\<exists>d1 row. upsert_resolver_object demo_object ''0xaa'' ''0xbb'' (empty_db 0) = (Ret (), d1) \<and>
     fst (get_resolver ''resolver-1'' d1) = Ret (Some row) \<and> ro_object_hash row = ''0xaa''"
proof -
  obtain d1 where d1: "upsert_resolver_object demo_object ''0xaa'' ''0xbb'' (empty_db 0) = (Ret (), d1)" using demo_upsert by blast
  have "o_resolver_id demo_object = JStr ''resolver-1''" by (simp add: demo_object_def)
  from indexer_read_back[OF d1 this] d1 show ?thesis by blast
qed

end
