(* ===== verification/Merkle.thy ===== *)
theory Merkle
  imports Hashes
begin

text \<open>
  \<open>crypto/merkle.py\<close>: leaves, the root of a list of leaves, inclusion proofs and their
  verification.  Hashes are hexadecimal text; \<open>bytes.fromhex\<close> may raise, so every operation
  that combines hashes does.
\<close>

definition hex_to_bytes :: "string \<Rightarrow> bytes res" where
  "hex_to_bytes value = bytes_fromhex (if starts_with value ''0x'' then drop 2 value else value)"

definition bytes_to_hex :: "bytes \<Rightarrow> string" where
  "bytes_to_hex value = ''0x'' @ hex_of_bytes value"

definition merkle_leaf_payload :: "string \<Rightarrow> string \<Rightarrow> int \<Rightarrow> string \<Rightarrow> string" where
  "merkle_leaf_payload rid_key obj_hash object_version status =
     py_join ''|'' [''resolver-leaf-v1'', py_lower rid_key, py_lower obj_hash, dec_of_int object_version, py_upper status]"

definition merkle_leaf :: "string \<Rightarrow> string \<Rightarrow> int \<Rightarrow> string \<Rightarrow> string" where
  "merkle_leaf rid_key obj_hash object_version status =
     sha256_hex_str (merkle_leaf_payload rid_key obj_hash object_version status)"

definition node_msg :: "bytes \<Rightarrow> bytes \<Rightarrow> bytes" where
  "node_msg l r = utf8_encode ''node-v1'' @ l @ r"

definition merkle_parent :: "string \<Rightarrow> string \<Rightarrow> string res" where
  "merkle_parent left right =
     bind_res (hex_to_bytes left) (\<lambda>l. bind_res (hex_to_bytes right) (\<lambda>r.
       Ret (bytes_to_hex (sha256 (node_msg l r)))))"

text \<open>One pass of the inner loop: neighbours are combined, an odd last element with itself.\<close>

fun merkle_level :: "string list \<Rightarrow> string list res" where
  "merkle_level [] = Ret []"
| "merkle_level [x] = bind_res (merkle_parent x x) (\<lambda>p. Ret [p])"
| "merkle_level (x # y # r) =
     bind_res (merkle_parent x y) (\<lambda>p. bind_res (merkle_level r) (\<lambda>ps. Ret (p # ps)))"

lemma length_merkle_level: "merkle_level xs = Inr ys \<Longrightarrow> length ys = (length xs + 1) div 2"
  by (induction xs arbitrary: ys rule: merkle_level.induct) auto

function merkle_reduce :: "string list \<Rightarrow> string res" where
  "merkle_reduce level =
     (if length level > 1 then bind_res (merkle_level level) merkle_reduce else Ret (hd level))"
  by pat_completeness auto

termination
  by (relation "measure length") (auto dest: length_merkle_level)

declare merkle_reduce.simps [simp del]

definition merkle_root :: "string list \<Rightarrow> string res" where
  "merkle_root leaves =
     (if leaves = [] then Ret (sha256_hex_str ''empty-root-v1'') else merkle_reduce (map py_lower leaves))"

definition sibling_index :: "nat \<Rightarrow> nat \<Rightarrow> nat" where
  "sibling_index index len = (let s = index XOR 1 in if s \<ge> len then index else s)"

definition proof_item :: "nat \<Rightarrow> string list \<Rightarrow> json" where
  "proof_item index level = (let s = sibling_index index (length level) in
     JObj [(''position'', JStr (if s < index then ''left'' else ''right'')), (''hash'', JStr (level ! s))])"

function merkle_proof_loop :: "nat \<Rightarrow> string list \<Rightarrow> (json list \<times> string) res" where
  "merkle_proof_loop index level =
     (if length level > 1
      then bind_res (merkle_level level) (\<lambda>next.
             bind_res (merkle_proof_loop (index div 2) next) (\<lambda>(items, root).
               Ret (proof_item index level # items, root)))
      else Ret ([], hd level))"
  by pat_completeness auto

termination
  by (relation "measure (length \<circ> snd)") (auto dest: length_merkle_level)

declare merkle_proof_loop.simps [simp del]

definition build_merkle_proof :: "string list \<Rightarrow> int \<Rightarrow> jdict res" where
  "build_merkle_proof leaves target_index =
     (if target_index < 0 \<or> target_index \<ge> int (length leaves)
      then Raise (IndexError ''target_index outside leaves'')
      else bind_res (merkle_proof_loop (nat target_index) (map py_lower leaves)) (\<lambda>(items, root).
        Ret [(''leaf_hash'', JStr (py_lower (leaves ! nat target_index))), (''siblings'', JArr items),
             (''root'', JStr root)]))"

definition verify_step :: "string \<Rightarrow> json \<Rightarrow> string res" where
  "verify_step current it =
     bind_res (json_item it ''hash'') (\<lambda>h. bind_res (as_str h) (\<lambda>hs. bind_res (as_dict it) (\<lambda>item.
       let sibling = py_lower hs in
       if jget0 item ''position'' = JStr ''left'' then merkle_parent sibling current
       else merkle_parent current sibling)))"

fun verify_fold :: "string \<Rightarrow> json list \<Rightarrow> string res" where
  "verify_fold current [] = Ret current"
| "verify_fold current (it # its) = bind_res (verify_step current it) (\<lambda>c. verify_fold c its)"

definition verify_merkle_proof :: "string \<Rightarrow> jdict \<Rightarrow> string \<Rightarrow> bool res" where
  "verify_merkle_proof leaf_hash proof expected_root =
     bind_res (as_list (jget proof ''siblings'' (JArr []))) (\<lambda>items.
     bind_res (verify_fold (py_lower leaf_hash) items) (\<lambda>current.
       if py_lower current \<noteq> py_lower expected_root then Ret False
       else bind_res (as_str (jget proof ''root'' (JStr expected_root))) (\<lambda>r.
         Ret (py_lower r = py_lower expected_root))))"

section \<open>Completeness\<close>

lemma hex_to_bytes_to_hex [simp]: "hex_to_bytes (bytes_to_hex b) = Ret b"
  by (simp add: hex_to_bytes_def bytes_to_hex_def)

lemma py_lower_bytes_to_hex [simp]: "py_lower (bytes_to_hex b) = bytes_to_hex b"
  unfolding bytes_to_hex_def py_lower_0x by simp

lemma bytes_to_hex_inj [simp]: "bytes_to_hex a = bytes_to_hex b \<longleftrightarrow> a = b"
  by (auto simp: bytes_to_hex_def dest: hex_of_bytes_inj)

lemma sha256_hex_bytes: "sha256_hex m = bytes_to_hex (sha256 m)"
  by (simp add: sha256_hex_def bytes_to_hex_def)

lemma merkle_parent_lower: "merkle_parent a b = Inr p \<Longrightarrow> py_lower p = p"
  by (auto simp: merkle_parent_def)

lemma merkle_level_lower: "merkle_level xs = Inr ys \<Longrightarrow> \<forall>y\<in>set ys. py_lower y = y"
  by (induction xs arbitrary: ys rule: merkle_level.induct) (auto dest: merkle_parent_lower)

lemma merkle_proof_loop_root:
  "merkle_proof_loop i level = Inr (items, root) \<Longrightarrow> merkle_reduce level = Inr root"
proof (induction i level arbitrary: items rule: merkle_proof_loop.induct)
  case (1 i level)
  show ?case
  proof (cases "length level > 1")
    case True
    then obtain nxt its where "merkle_level level = Inr nxt" "merkle_proof_loop (i div 2) nxt = Inr (its, root)"
      using 1(2) by (auto simp: merkle_proof_loop.simps[of i level])
    with 1(1)[OF True this] True show ?thesis by (simp add: merkle_reduce.simps[of level])
  next
    case False
    then show ?thesis using 1(2) by (simp add: merkle_proof_loop.simps[of i level] merkle_reduce.simps[of level])
  qed
qed

lemma merkle_proof_loop_total: "merkle_reduce level = Inr root \<Longrightarrow> \<exists>items. merkle_proof_loop i level = Inr (items, root)"
proof (induction level arbitrary: i rule: merkle_reduce.induct)
  case (1 level)
  show ?case
  proof (cases "length level > 1")
    case True
    then obtain nxt where n: "merkle_level level = Inr nxt" "merkle_reduce nxt = Inr root"
      using 1(2) by (auto simp: merkle_reduce.simps[of level])
    from 1(1)[OF True this, of "i div 2"] n True show ?thesis
      by (auto simp: merkle_proof_loop.simps[of i level])
  next
    case False
    then show ?thesis using 1(2) by (simp add: merkle_proof_loop.simps[of i level] merkle_reduce.simps[of level])
  qed
qed

text \<open>The parent of position \<open>i\<close> combines the element with its sibling, on the side the proof
  records.\<close>

lemma merkle_level_nth:
  "merkle_level xs = Inr ys \<Longrightarrow> i < length xs \<Longrightarrow>
     Inr (ys ! (i div 2)) = (let s = sibling_index i (length xs) in
       if s < i then merkle_parent (xs ! s) (xs ! i) else merkle_parent (xs ! i) (xs ! s))"
proof (induction xs arbitrary: ys i rule: merkle_level.induct)
  case (2 x)
  then show ?case by (auto simp: sibling_index_def Let_def)
next
  case (3 x y r)
  then obtain p ps where p: "merkle_parent x y = Inr p" "merkle_level r = Inr ps" "ys = p # ps" by auto
  consider "i = 0" | "i = 1" | j where "i = j + 2" by (metis One_nat_def Suc_eq_plus1 add_2_eq_Suc' not0_implies_Suc)
  then show ?case
  proof cases
    case (3 j)
    have "(j + 2) XOR 1 = (j XOR 1) + 2" by (auto simp: xor_Suc_0_eq elim: oddE)
    then show ?thesis using 3 p \<open>i < length (x # y # r)\<close> "3.IH"[OF p(1) p(2)] by (auto simp: sibling_index_def Let_def)
  qed (use p in \<open>auto simp: sibling_index_def Let_def\<close>)
qed simp

lemma verify_proof_item:
  assumes "merkle_level level = Inr nxt" "i < length level" "\<forall>x\<in>set level. py_lower x = x"
  shows "verify_step (level ! i) (proof_item i level) = Inr (nxt ! (i div 2))"
proof -
  have s: "sibling_index i (length level) < length level"
    using assms(2) by (auto simp: sibling_index_def Let_def)
  then have "py_lower (level ! sibling_index i (length level)) = level ! sibling_index i (length level)"
    using assms(3) by simp
  then show ?thesis using merkle_level_nth[OF assms(1,2)]
    by (auto simp: verify_step_def proof_item_def jitem_def Let_def split: if_splits)
qed

lemma verify_fold_proof:
  assumes "merkle_proof_loop i level = Inr (items, root)" "i < length level" "\<forall>x\<in>set level. py_lower x = x"
  shows "verify_fold (level ! i) items = Inr root"
  using assms
proof (induction i level arbitrary: items rule: merkle_proof_loop.induct)
  case (1 i level)
  show ?case
  proof (cases "length level > 1")
    case True
    then obtain nxt its where n: "merkle_level level = Inr nxt" "merkle_proof_loop (i div 2) nxt = Inr (its, root)"
      "items = proof_item i level # its"
      using 1(2) by (auto simp: merkle_proof_loop.simps[of i level])
    have "i div 2 < length nxt" using length_merkle_level[OF n(1)] 1(3) by simp
    from 1(1)[OF True n(1,2) this merkle_level_lower[OF n(1)]]
    show ?thesis using verify_proof_item[OF n(1) 1(3,4)] n(3) by simp
  next
    case False
    then have "items = []" "root = hd level" "i = 0" "level \<noteq> []"
      using 1(2,3) by (auto simp: merkle_proof_loop.simps[of i level])
    then show ?thesis by (simp add: hd_conv_nth)
  qed
qed

lemma merkle_reduce_lower:
  "merkle_reduce level = Inr root \<Longrightarrow> level \<noteq> [] \<Longrightarrow> \<forall>x\<in>set level. py_lower x = x \<Longrightarrow> py_lower root = root"
proof (induction level rule: merkle_reduce.induct)
  case (1 level)
  show ?case
  proof (cases "length level > 1")
    case True
    then obtain nxt where n: "merkle_level level = Inr nxt" "merkle_reduce nxt = Inr root"
      using 1(2) by (auto simp: merkle_reduce.simps[of level])
    have "nxt \<noteq> []" using length_merkle_level[OF n(1)] True by auto
    then show ?thesis using 1(1)[OF True n(1,2) _ merkle_level_lower[OF n(1)]] by simp
  next
    case False
    then have "root = hd level" using 1(2) by (simp add: merkle_reduce.simps[of level])
    then show ?thesis using 1(3,4) by simp
  qed
qed

lemma merkle_root_Inr_loop:
  assumes "merkle_root leaves = Ret root" "0 \<le> i" "i < int (length leaves)"
  shows "\<exists>items. build_merkle_proof leaves i = Ret [(''leaf_hash'', JStr (py_lower (leaves ! nat i))),
            (''siblings'', JArr items), (''root'', JStr root)]
          \<and> verify_fold (py_lower (leaves ! nat i)) items = Ret root \<and> py_lower root = root"
proof -
  let ?lv = "map py_lower leaves"
  have ne: "leaves \<noteq> []" using assms(2,3) by auto
  then have red: "merkle_reduce ?lv = Inr root" using assms(1) by (simp add: merkle_root_def)
  then obtain items where it: "merkle_proof_loop (nat i) ?lv = Inr (items, root)"
    using merkle_proof_loop_total by blast
  have i: "nat i < length ?lv" using assms by simp
  have "verify_fold (?lv ! nat i) items = Inr root" by (rule verify_fold_proof[OF it i]) simp
  moreover have "py_lower root = root" using merkle_reduce_lower[OF red] ne by simp
  ultimately show ?thesis using it i assms(2,3) by (auto simp: build_merkle_proof_def)
qed

section \<open>When the root exists\<close>

definition hex_ok :: "string \<Rightarrow> bool" where
  "hex_ok s = (case hex_to_bytes s of Inr _ \<Rightarrow> True | Inl _ \<Rightarrow> False)"

lemma hex_ok_bytes_to_hex [simp]: "hex_ok (bytes_to_hex b)"
  by (simp add: hex_ok_def)

lemma merkle_parent_ok: "hex_ok a \<Longrightarrow> hex_ok b \<Longrightarrow> \<exists>p. merkle_parent a b = Inr p \<and> hex_ok p"
  by (cases "hex_to_bytes a"; cases "hex_to_bytes b") (auto simp: hex_ok_def merkle_parent_def)

lemma merkle_level_ok: "\<forall>x\<in>set xs. hex_ok x \<Longrightarrow> \<exists>ys. merkle_level xs = Inr ys \<and> (\<forall>y\<in>set ys. hex_ok y)"
proof (induction xs rule: merkle_level.induct)
  case (2 x)
  then show ?case using merkle_parent_ok[of x x] by auto
next
  case (3 x y r)
  then obtain p where p: "merkle_parent x y = Inr p" "hex_ok p" using merkle_parent_ok[of x y] by auto
  with 3 show ?case by auto
qed auto

lemma merkle_reduce_ok: "\<forall>x\<in>set xs. hex_ok x \<Longrightarrow> \<exists>r. merkle_reduce xs = Inr r"
proof (induction xs rule: merkle_reduce.induct)
  case (1 level)
  show ?case
  proof (cases "length level > 1")
    case True
    obtain ys where "merkle_level level = Inr ys" "\<forall>y\<in>set ys. hex_ok y" using merkle_level_ok[OF 1(2)] by blast
    with 1(1)[OF True] True show ?thesis by (simp add: merkle_reduce.simps[of level])
  qed (simp add: merkle_reduce.simps)
qed

lemma hex_to_bytes_lower: "starts_with s ''0x'' \<Longrightarrow> hex_to_bytes (py_lower s) = hex_to_bytes s"
proof -
  assume "starts_with s ''0x''"
  then obtain r where "s = ''0x'' @ r" by (auto simp: starts_with_iff)
  then show ?thesis using py_lower_0x[of r] by (simp add: hex_to_bytes_def)
qed

lemma merkle_leaf_hex: "merkle_leaf a b v s = bytes_to_hex (sha256 (utf8_encode (merkle_leaf_payload a b v s)))"
  by (simp add: merkle_leaf_def sha256_hex_bytes)

section \<open>Soundness\<close>

text \<open>The messages hashed while the root of a list is computed, and while a proof is checked.\<close>

definition raw :: "string \<Rightarrow> bytes" where
  "raw s = (case hex_to_bytes s of Inr b \<Rightarrow> b | Inl _ \<Rightarrow> [])"

fun level_msgs :: "string list \<Rightarrow> bytes set" where
  "level_msgs [] = {}"
| "level_msgs [x] = {node_msg (raw x) (raw x)}"
| "level_msgs (x # y # r) = insert (node_msg (raw x) (raw y)) (level_msgs r)"

function tree_msgs :: "string list \<Rightarrow> bytes set" where
  "tree_msgs level =
     (if length level > 1
      then level_msgs level \<union> (case merkle_level level of Inr nxt \<Rightarrow> tree_msgs nxt | Inl _ \<Rightarrow> {})
      else {})"
  by pat_completeness auto

termination
  by (relation "measure length") (auto dest: length_merkle_level)

declare tree_msgs.simps [simp del]

definition step_args :: "string \<Rightarrow> json \<Rightarrow> (string \<times> string) res" where
  "step_args current it =
     bind_res (json_item it ''hash'') (\<lambda>h. bind_res (as_str h) (\<lambda>hs. bind_res (as_dict it) (\<lambda>item.
       Ret (if jget0 item ''position'' = JStr ''left'' then (py_lower hs, current) else (current, py_lower hs)))))"

definition step_msgs :: "string \<Rightarrow> json \<Rightarrow> bytes set" where
  "step_msgs current it = (case step_args current it of Inr (l, r) \<Rightarrow> {node_msg (raw l) (raw r)} | Inl _ \<Rightarrow> {})"

fun path_msgs :: "string \<Rightarrow> json list \<Rightarrow> bytes set" where
  "path_msgs current [] = {}"
| "path_msgs current (it # its) =
     step_msgs current it \<union> (case verify_step current it of Inr c \<Rightarrow> path_msgs c its | Inl _ \<Rightarrow> {})"

definition is_digest :: "string \<Rightarrow> bool" where
  "is_digest s \<longleftrightarrow> (\<exists>b. length b = 32 \<and> s = bytes_to_hex b)"

lemma is_digest_sha [simp]: "is_digest (bytes_to_hex (sha256 m))"
  by (auto simp: is_digest_def)

lemma raw_bytes_to_hex [simp]: "raw (bytes_to_hex b) = b"
  by (simp add: raw_def)

lemma digest_raw: "is_digest s \<Longrightarrow> bytes_to_hex (raw s) = s \<and> length (raw s) = 32"
  by (auto simp: is_digest_def)

lemma merkle_parent_msg: "merkle_parent a b = Inr p \<Longrightarrow> p = bytes_to_hex (sha256 (node_msg (raw a) (raw b)))"
  by (auto simp: merkle_parent_def raw_def)

lemma verify_step_args:
  "verify_step c it = bind_res (step_args c it) (\<lambda>(l, r). merkle_parent l r)"
  by (auto simp: verify_step_def step_args_def Let_def bind_res_def split: sum.splits)

lemma step_args_sides: "step_args c it = Inr (l, r) \<Longrightarrow> l = c \<or> r = c"
  by (auto simp: step_args_def split: if_splits)

lemma verify_step_msg:
  assumes "verify_step c it = Inr p"
  obtains l r where "l = c \<or> r = c" "p = bytes_to_hex (sha256 (node_msg (raw l) (raw r)))"
    "node_msg (raw l) (raw r) \<in> step_msgs c it"
proof -
  obtain l r where lr: "step_args c it = Inr (l, r)" "merkle_parent l r = Inr p"
    using assms by (auto simp: verify_step_args)
  show thesis
  proof (rule that)
    show "l = c \<or> r = c" using step_args_sides[OF lr(1)] .
    show "p = bytes_to_hex (sha256 (node_msg (raw l) (raw r)))" using merkle_parent_msg[OF lr(2)] .
    show "node_msg (raw l) (raw r) \<in> step_msgs c it" using lr(1) by (simp add: step_msgs_def)
  qed
qed

lemma node_msg_inj:
  assumes "node_msg a b = node_msg c d" "length c = 32" "length d = 32" "length a = 32 \<or> length b = 32"
  shows "a = c \<and> b = d"
proof -
  have eq: "a @ b = c @ d" using assms(1) by (simp only: node_msg_def same_append_eq)
  then have "length a + length b = 64" using assms(2,3) by (metis length_append numeral_Bit0)
  then have "length a = 32" using assms(4) by auto
  then show ?thesis using eq assms(2) by simp
qed

lemma level_msgs_elem:
  assumes "merkle_level xs = Inr ys" "y \<in> set ys"
  shows "\<exists>c\<in>set xs. \<exists>d\<in>set xs. y = bytes_to_hex (sha256 (node_msg (raw c) (raw d))) \<and> node_msg (raw c) (raw d) \<in> level_msgs xs"
  using assms
proof (induction xs arbitrary: ys rule: merkle_level.induct)
  case (3 x y' r)
  then obtain p ps where p: "merkle_parent x y' = Inr p" "merkle_level r = Inr ps" "ys = p # ps" by auto
  show ?case
  proof (cases "y = p")
    case True
    then show ?thesis using merkle_parent_msg[OF p(1)] by auto
  next
    case False
    then show ?thesis using 3(1)[OF p(1,2)] 3(3) p(3) by auto
  qed
qed (auto dest: merkle_parent_msg)

lemma verify_fold_snoc: "verify_fold c (its @ [it]) = bind_res (verify_fold c its) (\<lambda>y. verify_step y it)"
  by (induction its arbitrary: c) (auto simp: bind_res_def split: sum.splits)

lemma path_msgs_step:
  "verify_fold c its = Inr y \<Longrightarrow> step_msgs y it \<subseteq> path_msgs c (its @ it # rest)"
proof (induction its arbitrary: c)
  case (Cons a its)
  then obtain c' where "verify_step c a = Inr c'" "verify_fold c' its = Inr y" by auto
  with Cons.IH show ?case by auto
qed auto

lemma verify_fold_digest: "verify_fold c its = Inr y \<Longrightarrow> is_digest c \<Longrightarrow> is_digest y"
proof (induction its arbitrary: c)
  case (Cons it its)
  then obtain p where p: "verify_step c it = Inr p" "verify_fold p its = Inr y" by auto
  have "is_digest p" using p(1) by (rule verify_step_msg) simp
  with Cons p show ?case by blast
qed simp

definition non_node :: "bytes \<Rightarrow> bool" where
  "non_node m \<longleftrightarrow> (\<forall>l r. m \<noteq> node_msg l r)"

text \<open>A partial run of the verifier that ends in a level of the tree steps back into the level
  below.\<close>

lemma step_back:
  assumes nc: "\<not> sha256_collision M" and lv: "merkle_level level = Inr nxt" "level_msgs level \<subseteq> M"
    and dg: "\<forall>x\<in>set level. is_digest x"
    and m: "m \<in> M" "non_node m" and pm: "path_msgs (bytes_to_hex (sha256 m)) (its1 @ its2) \<subseteq> M"
    and fold: "verify_fold (bytes_to_hex (sha256 m)) its1 = Inr x" "x \<in> set nxt"
  shows "\<exists>its0 it y. its1 = its0 @ [it] \<and> verify_fold (bytes_to_hex (sha256 m)) its0 = Inr y \<and> y \<in> set level"
proof -
  let ?c = "bytes_to_hex (sha256 m)"
  obtain c d where cd: "c \<in> set level" "d \<in> set level" "x = bytes_to_hex (sha256 (node_msg (raw c) (raw d)))"
    "node_msg (raw c) (raw d) \<in> level_msgs level"
    using level_msgs_elem[OF lv(1) fold(2)] by blast
  have "its1 \<noteq> []"
  proof
    assume "its1 = []"
    then have "sha256 m = sha256 (node_msg (raw c) (raw d))" using fold(1) cd(3) by simp
    then have "m = node_msg (raw c) (raw d)" using no_collision[OF nc m(1)] cd(4) lv(2) by blast
    then show False using m(2) unfolding non_node_def by blast
  qed
  then obtain its0 it where its: "its1 = its0 @ [it]" by (metis append_butlast_last_id)
  then obtain y where y: "verify_fold ?c its0 = Inr y" "verify_step y it = Inr x"
    using fold(1) by (auto simp: verify_fold_snoc)
  from y(2) obtain l r where lr: "l = y \<or> r = y" "x = bytes_to_hex (sha256 (node_msg (raw l) (raw r)))"
    "node_msg (raw l) (raw r) \<in> step_msgs y it" by (rule verify_step_msg)
  have "step_msgs y it \<subseteq> M" using path_msgs_step[OF y(1), of it its2] pm its by simp
  then have eq: "node_msg (raw l) (raw r) = node_msg (raw c) (raw d)"
    using no_collision[OF nc] lr(2,3) cd(3,4) lv(2) by (metis bytes_to_hex_inj subsetD)
  have yd: "is_digest y" using verify_fold_digest[OF y(1)] by simp
  have "length (raw l) = 32 \<or> length (raw r) = 32" using lr(1) digest_raw[OF yd] by blast
  then have "raw l = raw c \<and> raw r = raw d"
    using node_msg_inj[OF eq] digest_raw dg cd(1,2) by blast
  then have "y = c \<or> y = d" using lr(1) digest_raw[OF yd] digest_raw dg cd(1,2) by metis
  then show ?thesis using its y(1) cd by blast
qed

lemma reach_down:
  assumes "\<not> sha256_collision M" "m \<in> M" "non_node m"
    and "path_msgs (bytes_to_hex (sha256 m)) items \<subseteq> M"
    and "verify_fold (bytes_to_hex (sha256 m)) items = Inr root"
  shows "merkle_reduce level = Inr root \<Longrightarrow> level \<noteq> [] \<Longrightarrow> \<forall>x\<in>set level. is_digest x \<Longrightarrow> tree_msgs level \<subseteq> M \<Longrightarrow>
    \<exists>its1 its2 x. items = its1 @ its2 \<and> verify_fold (bytes_to_hex (sha256 m)) its1 = Inr x \<and> x \<in> set level"
proof (induction level rule: merkle_reduce.induct)
  case (1 level)
  show ?case
  proof (cases "length level > 1")
    case True
    then obtain nxt where n: "merkle_level level = Inr nxt" "merkle_reduce nxt = Inr root"
      using 1(2) by (auto simp: merkle_reduce.simps[of level])
    have sub: "level_msgs level \<subseteq> M" "tree_msgs nxt \<subseteq> M"
      using 1(5) n(1) True by (auto simp: tree_msgs.simps[of level])
    have "nxt \<noteq> []" using length_merkle_level[OF n(1)] True by auto
    moreover have "\<forall>x\<in>set nxt. is_digest x" using level_msgs_elem[OF n(1)] by fastforce
    ultimately obtain its1 its2 x where r: "items = its1 @ its2"
      "verify_fold (bytes_to_hex (sha256 m)) its1 = Inr x" "x \<in> set nxt"
      using 1(1)[OF True n(1,2)] sub(2) by blast
    from step_back[OF assms(1) n(1) sub(1) 1(4) assms(2,3) _ r(2,3), of its2] assms(4) r(1)
    show ?thesis by fastforce
  next
    case False
    then have "root = hd level" using 1(2) by (simp add: merkle_reduce.simps[of level])
    then have "root \<in> set level" using 1(3) by simp
    then show ?thesis using assms(5) by (metis append_Nil2)
  qed
qed

lemma verify_fold_in_leaves:
  assumes nc: "\<not> sha256_collision M" and m: "m \<in> M" "non_node m"
    and leaves: "level = map (\<lambda>n. bytes_to_hex (sha256 n)) ms" "ms \<noteq> []" "set ms \<subseteq> M" "\<forall>n\<in>set ms. non_node n"
    and red: "merkle_reduce level = Inr root" "tree_msgs level \<subseteq> M"
    and fold: "verify_fold (bytes_to_hex (sha256 m)) items = Inr root"
      "path_msgs (bytes_to_hex (sha256 m)) items \<subseteq> M"
  shows "m \<in> set ms"
proof -
  have dg: "\<forall>x\<in>set level. is_digest x" "level \<noteq> []" using leaves by auto
  obtain its1 its2 x where r: "items = its1 @ its2" "verify_fold (bytes_to_hex (sha256 m)) its1 = Inr x" "x \<in> set level"
    using reach_down[OF nc m fold(2,1) red(1) dg(2,1) red(2)] by blast
  then obtain n where n: "n \<in> set ms" "x = bytes_to_hex (sha256 n)" using leaves(1) by auto
  show ?thesis
  proof (cases its1 rule: rev_cases)
    case Nil
    then have "sha256 m = sha256 n" using r(2) n(2) by simp
    then show ?thesis using no_collision[OF nc m(1)] n(1) leaves(3) by blast
  next
    case (snoc its0 it)
    then obtain y where y: "verify_fold (bytes_to_hex (sha256 m)) its0 = Inr y" "verify_step y it = Inr x"
      using r(2) by (auto simp: verify_fold_snoc)
    from y(2) obtain l k where lk: "x = bytes_to_hex (sha256 (node_msg (raw l) (raw k)))"
      "node_msg (raw l) (raw k) \<in> step_msgs y it" by (rule verify_step_msg)
    have "step_msgs y it \<subseteq> M" using path_msgs_step[OF y(1), of it its2] fold(2) r(1) snoc by simp
    then have "n = node_msg (raw l) (raw k)" using no_collision[OF nc] n leaves(3) lk by (metis bytes_to_hex_inj subsetD)
    then show ?thesis using leaves(4) n(1) unfolding non_node_def by blast
  qed
qed

lemma leaf_payload_non_node: "non_node (utf8_encode (merkle_leaf_payload a b v s))"
proof -
  have "hd (utf8_encode (merkle_leaf_payload a b v s)) = 114"
    by (simp add: merkle_leaf_payload_def utf8_encode_def utf8_char_def)
  moreover have "hd (node_msg l r) = 110" for l r
    by (simp add: node_msg_def utf8_encode_def utf8_char_def)
  moreover have "(114 :: byte) \<noteq> 110" by simp
  ultimately show ?thesis unfolding non_node_def by metis
qed

section \<open>The theorems about proofs\<close>

text \<open>Completeness of inclusion proofs.  For every list of hexadecimal leaf hashes and every
  index into it, \<open>merkle_root\<close> and \<open>build_merkle_proof\<close> return, the proof carries that root, and
  \<open>verify_merkle_proof\<close> accepts the leaf at that index with it.\<close>

theorem merkle_proof_complete:
  assumes "\<forall>x\<in>set leaves. hex_ok (py_lower x)" and "0 \<le> i" and "i < int (length leaves)"
  shows "\<exists>root p. merkle_root leaves = Ret root \<and> build_merkle_proof leaves i = Ret p \<and>
     jget0 p ''root'' = JStr root \<and> verify_merkle_proof (leaves ! nat i) p root = Ret True"
proof -
  have ne: "leaves \<noteq> []" using assms(2,3) by auto
  obtain root where "merkle_reduce (map py_lower leaves) = Inr root"
    using merkle_reduce_ok[of "map py_lower leaves"] assms(1) by auto
  then have root: "merkle_root leaves = Ret root" using ne by (simp add: merkle_root_def)
  obtain items where p: "build_merkle_proof leaves i = Ret [(''leaf_hash'', JStr (py_lower (leaves ! nat i))),
            (''siblings'', JArr items), (''root'', JStr root)]"
    "verify_fold (py_lower (leaves ! nat i)) items = Ret root" "py_lower root = root"
    using merkle_root_Inr_loop[OF root assms(2,3)] by blast
  then show ?thesis using root by (auto simp: verify_merkle_proof_def)
qed

theorem merkle_proof_complete_witness:
  "\<exists>root p. merkle_root [''0x0a'', ''0x0B'', ''0c''] = Ret root \<and> build_merkle_proof [''0x0a'', ''0x0B'', ''0c''] 2 = Ret p \<and>
     jget0 p ''root'' = JStr root \<and> verify_merkle_proof ''0c'' p root = Ret True"
proof -
  have "\<forall>x\<in>set [''0x0a'', ''0x0B'', ''0c'']. hex_ok (py_lower x)" by code_simp
  from merkle_proof_complete[OF this, of 2] show ?thesis by simp
qed

text \<open>C33. Soundness of inclusion proofs.  If \<open>verify_merkle_proof\<close> accepts the leaf of a registry
  entry, with any proof of any length, under the root of a list of entries, then the list
  contains an entry with the same leaf text, or the messages hashed on the two sides contain a
  SHA-256 collision.  The prefixes of leaves and inner nodes are what rules out that an inner
  node is passed off as a leaf.\<close>

theorem merkle_proof_sound:
  assumes "entries \<noteq> []"
    and "merkle_root (map (\<lambda>(k, h, v, s). merkle_leaf k h v s) entries) = Ret root"
    and "verify_merkle_proof (merkle_leaf k h v s) p root = Ret True"
    and "as_list (jget p ''siblings'' (JArr [])) = Ret items"
  shows "(\<exists>(k', h', v', s') \<in> set entries. merkle_leaf_payload k' h' v' s' = merkle_leaf_payload k h v s) \<or>
     sha256_collision (insert (utf8_encode (merkle_leaf_payload k h v s))
       ((\<lambda>(k, h, v, s). utf8_encode (merkle_leaf_payload k h v s)) ` set entries \<union>
        tree_msgs (map (\<lambda>(k, h, v, s). merkle_leaf k h v s) entries) \<union> path_msgs (merkle_leaf k h v s) items))"
    (is "_ \<or> sha256_collision ?M")
proof (cases "sha256_collision ?M")
  case False
  let ?msg = "\<lambda>(k, h, v, s). utf8_encode (merkle_leaf_payload k h v s)"
  let ?ms = "map ?msg entries" and ?lv = "map (\<lambda>(k, h, v, s). merkle_leaf k h v s) entries"
  have lv: "?lv = map (\<lambda>n. bytes_to_hex (sha256 n)) ?ms" by (auto simp: merkle_leaf_hex)
  have low': "\<forall>x\<in>set ?lv. py_lower x = x" by (auto simp: merkle_leaf_hex)
  then have low: "map py_lower ?lv = ?lv" by (simp only: map_idI)
  have red: "merkle_reduce ?lv = Inr root" using assms(1,2) unfolding merkle_root_def low by simp
  have root: "py_lower root = root" using merkle_reduce_lower[OF red _ low'] assms(1) by simp
  have fold: "verify_fold (merkle_leaf k h v s) items = Inr c \<Longrightarrow> py_lower c = c" for c
    using verify_fold_digest[of "merkle_leaf k h v s" items c] by (auto simp: merkle_leaf_hex is_digest_def)
  have "verify_fold (merkle_leaf k h v s) items = Inr root"
    using assms(3,4) root fold by (auto simp: verify_merkle_proof_def merkle_leaf_hex split: if_splits)
  then have vf: "verify_fold (bytes_to_hex (sha256 (?msg (k, h, v, s)))) items = Inr root"
    by (simp add: merkle_leaf_hex)
  have "?msg (k, h, v, s) \<in> set ?ms"
  proof (rule verify_fold_in_leaves[OF False _ _ lv _ _ _ red _ vf])
    show "?msg (k, h, v, s) \<in> ?M" "tree_msgs ?lv \<subseteq> ?M" by auto
    show "set ?ms \<subseteq> ?M" unfolding set_map by blast
    show "path_msgs (bytes_to_hex (sha256 (?msg (k, h, v, s)))) items \<subseteq> ?M" by (auto simp: merkle_leaf_hex)
    show "non_node (?msg (k, h, v, s))" "\<forall>n\<in>set ?ms. non_node n" by (auto simp: leaf_payload_non_node)
    show "?ms \<noteq> []" using assms(1) by simp
  qed
  then obtain e where e: "e \<in> set entries" "?msg (k, h, v, s) = ?msg e" by auto
  then have "case e of (k', h', v', s') \<Rightarrow> merkle_leaf_payload k' h' v' s' = merkle_leaf_payload k h v s"
    by (cases e) (auto dest: utf8_encode_inj)
  then show ?thesis using e(1) by blast
qed simp

theorem merkle_proof_sound_witness:
  "\<exists>root p items. build_merkle_proof [merkle_leaf ''0x01'' ''0x02'' 1 ''ACTIVE'', merkle_leaf ''0x03'' ''0x04'' 7 ''ACTIVE''] 1 = Ret p \<and>
    as_list (jget p ''siblings'' (JArr [])) = Ret items \<and>
    merkle_root (map (\<lambda>(k, h, v, s). merkle_leaf k h v s) [(''0x01'', ''0x02'', 1, ''ACTIVE''), (''0x03'', ''0x04'', 7, ''ACTIVE'')]) = Ret root \<and>
    ((\<exists>(k', h', v', s') \<in> set [(''0x01'', ''0x02'', 1, ''ACTIVE''), (''0x03'', ''0x04'', 7, ''ACTIVE'')].
        merkle_leaf_payload k' h' v' s' = merkle_leaf_payload ''0x03'' ''0x04'' 7 ''ACTIVE'') \<or>
     sha256_collision (insert (utf8_encode (merkle_leaf_payload ''0x03'' ''0x04'' 7 ''ACTIVE''))
       ((\<lambda>(k, h, v, s). utf8_encode (merkle_leaf_payload k h v s)) ` set [(''0x01'', ''0x02'', 1, ''ACTIVE''), (''0x03'', ''0x04'', 7, ''ACTIVE'')] \<union>
        tree_msgs (map (\<lambda>(k, h, v, s). merkle_leaf k h v s) [(''0x01'', ''0x02'', 1, ''ACTIVE''), (''0x03'', ''0x04'', 7, ''ACTIVE'')]) \<union>
        path_msgs (merkle_leaf ''0x03'' ''0x04'' 7 ''ACTIVE'') items)))"
proof -
  let ?es = "[(''0x01'', ''0x02'', 1, ''ACTIVE''), (''0x03'', ''0x04'', 7 :: int, ''ACTIVE'')]"
  let ?ls = "map (\<lambda>(k, h, v, s). merkle_leaf k h v s) ?es"
  obtain root where r0: "merkle_reduce (map py_lower ?ls) = Inr root"
    using merkle_reduce_ok[of "map py_lower ?ls"] by (auto simp: merkle_leaf_hex)
  then have root: "merkle_root ?ls = Ret root" by (simp add: merkle_root_def)
  obtain items where p: "build_merkle_proof ?ls 1 = Ret [(''leaf_hash'', JStr (py_lower (?ls ! nat 1))),
            (''siblings'', JArr items), (''root'', JStr root)]"
    "verify_fold (py_lower (?ls ! nat 1)) items = Ret root" "py_lower root = root"
    using merkle_root_Inr_loop[OF root, of 1] by auto
  let ?p = "[(''leaf_hash'', JStr (py_lower (?ls ! nat 1))), (''siblings'', JArr items), (''root'', JStr root)]"
  have v: "verify_merkle_proof (merkle_leaf ''0x03'' ''0x04'' 7 ''ACTIVE'') ?p root = Ret True"
    using p by (simp add: verify_merkle_proof_def)
  have i: "as_list (jget ?p ''siblings'' (JArr [])) = Ret items" by simp
  show ?thesis
    using merkle_proof_sound[OF _ root v i] p(1) root i by (intro exI[of _ root] exI[of _ ?p] exI[of _ items]) simp
qed

lemma merkle_level_dup: "even (length xs) \<Longrightarrow> merkle_level (xs @ [x]) = merkle_level (xs @ [x, x])"
  by (induction xs rule: merkle_level.induct) (auto intro: bind_res_cong)

text \<open>The root does not determine the number of leaves: repeating the last leaf of a list of odd
  length (of at least three leaves) gives the same root.\<close>

theorem merkle_root_repeated_last_leaf:
  assumes "even (length ls)" and "ls \<noteq> []"
  shows "merkle_root (ls @ [x]) = merkle_root (ls @ [x, x])"
proof -
  have "length ls \<ge> 2" using assms by (cases ls; cases "tl ls") auto
  then show ?thesis
    using assms merkle_level_dup[of "map py_lower ls" "py_lower x"]
    by (simp add: merkle_root_def merkle_reduce.simps[of "_ @ _"])
qed

theorem merkle_root_repeated_last_leaf_witness:
  "merkle_root ([''0x0a'', ''0x0b''] @ [''0x0c'']) = merkle_root ([''0x0a'', ''0x0b''] @ [''0x0c'', ''0x0c''])"
  by (rule merkle_root_repeated_last_leaf) simp_all

end
