(* ===== verification/Signatures.thy ===== *)
theory Signatures
  imports Hashes
begin

text \<open>
  \<open>crypto/keys.py\<close>, \<open>crypto/key_material.py\<close> and \<open>crypto/signatures.py\<close>: the registry of
  issuer keys, key files, and HMAC and Ed25519 signatures over canonical JSON.  HMAC-SHA-256 and
  base64 are the concrete functions; Ed25519 comes from the package \<open>cryptography\<close> and is a
  parameter, a record of its functions, whose documented law is the predicate
  \<open>ed25519_correct\<close>.
\<close>

section \<open>Issuer keys\<close>

record issuer_key =
  ik_issuer :: json
  ik_key_id :: json
  ik_algorithm :: json
  ik_public_key :: json

type_synonym key_registry = "(json \<times> json, issuer_key) dict"

definition registry_add :: "key_registry \<Rightarrow> issuer_key \<Rightarrow> key_registry res" where
  "registry_add keys key =
     (if hashable (ik_issuer key) \<and> hashable (ik_key_id key)
      then Ret (dict_set keys (ik_issuer key, ik_key_id key) key)
      else Raise (TypeError ''unhashable type''))"

fun registry_add_all :: "key_registry \<Rightarrow> issuer_key list \<Rightarrow> key_registry res" where
  "registry_add_all keys [] = Ret keys"
| "registry_add_all keys (k # ks) = bind_res (registry_add keys k) (\<lambda>keys'. registry_add_all keys' ks)"

definition registry_get :: "key_registry \<Rightarrow> json \<Rightarrow> json \<Rightarrow> issuer_key option res" where
  "registry_get keys issuer key_id =
     (if hashable issuer \<and> hashable key_id then Ret (dict_get keys (issuer, key_id))
      else Raise (TypeError ''unhashable type''))"

definition issuer_key_of_item :: "json \<Rightarrow> issuer_key res" where
  "issuer_key_of_item item =
     bind_res (json_item item ''issuer'') (\<lambda>i. bind_res (json_item item ''key_id'') (\<lambda>k.
     bind_res (json_item item ''algorithm'') (\<lambda>a. bind_res (json_item item ''public_key'') (\<lambda>p.
       Ret \<lparr>ik_issuer = i, ik_key_id = k, ik_algorithm = a, ik_public_key = p\<rparr>))))"

definition registry_from_dicts :: "json list \<Rightarrow> key_registry res" where
  "registry_from_dicts items = bind_res (map_res issuer_key_of_item items) (registry_add_all [])"

text \<open>\<open>str(v).lower() == "ed25519"\<close>: the text of a value that is not a string is never that
  word.\<close>

definition is_ed25519_name :: "json \<Rightarrow> bool" where
  "is_ed25519_name v = (case v of JStr s \<Rightarrow> py_lower s = ''ed25519'' | _ \<Rightarrow> False)"

text \<open>\<open>from_file\<close> on the parsed content of the file.\<close>

definition registry_from_file :: "json \<Rightarrow> key_registry res" where
  "registry_from_file data =
     (case (case data of JObj d \<Rightarrow> jget0 d ''keys'' | _ \<Rightarrow> data) of
        JArr (i # is) \<Rightarrow>
          bind_res (registry_from_dicts (i # is)) (\<lambda>registry.
          bind_res (map_res (\<lambda>item. bind_res (as_dict item) (\<lambda>d.
             if is_ed25519_name (jget d ''algorithm'' (JStr [])) then Ret ()
             else Raise (ValueError ''issuer key bundle only supports Ed25519 keys''))) (i # is)) (\<lambda>_.
          Ret registry))
      | _ \<Rightarrow> Raise (ValueError ''issuer key bundle must contain a non-empty keys list''))"

definition load_issuer_key_registry :: "(string \<Rightarrow> json res) \<Rightarrow> string \<Rightarrow> key_registry option res" where
  "load_issuer_key_registry read_json path =
     (if path = [] then Ret None
      else bind_res (bind_res (read_json path) registry_from_file) (\<lambda>r. Ret (Some r)))"

section \<open>The Ed25519 library\<close>

record ed25519 =
  ed_private_ok :: "bytes \<Rightarrow> bool"
  ed_public_ok :: "bytes \<Rightarrow> bool"
  ed_public :: "bytes \<Rightarrow> bytes"
  ed_sign :: "bytes \<Rightarrow> bytes \<Rightarrow> bytes"
  ed_verify :: "bytes \<Rightarrow> bytes \<Rightarrow> bytes \<Rightarrow> bool"

text \<open>The documented contract: the public key of an accepted private key is accepted, and
  \<open>verify\<close> accepts what \<open>sign\<close> made with it.\<close>

definition ed25519_correct :: "ed25519 \<Rightarrow> bool" where
  "ed25519_correct lib \<longleftrightarrow>
     (\<forall>sk. ed_private_ok lib sk \<longrightarrow> ed_public_ok lib (ed_public lib sk) \<and>
        (\<forall>m. ed_verify lib (ed_public lib sk) (ed_sign lib sk m) m))"

section \<open>Key files\<close>

record key_file =
  kf_is_file :: bool
  kf_is_symlink :: bool
  kf_size :: nat
  kf_mode :: nat
  kf_content :: "bytes res"

definition key_error :: "string \<Rightarrow> 'a res" where
  "key_error msg = Raise (ValueError (''KeyMaterialError: '' @ msg))"

text \<open>The permission bits \<open>0o777\<close> are 511, the required mode \<open>0o600\<close> is 384.\<close>

definition key_read :: "key_file \<Rightarrow> bytes res" where
  "key_read f =
     (if \<not> kf_is_file f \<or> kf_is_symlink f \<or> kf_size f = 0 then key_error ''key is not a non-empty regular file''
      else if kf_mode f AND 511 \<noteq> 384 then key_error ''key permissions must be 0600''
      else case kf_content f of Inl _ \<Rightarrow> key_error ''key cannot be read'' | Inr b \<Rightarrow> Ret b)"

fun bytes_start :: "bytes \<Rightarrow> bytes \<Rightarrow> bool" where
  "bytes_start s [] = True"
| "bytes_start [] (p # ps) = False"
| "bytes_start (c # s) (p # ps) = (c = p \<and> bytes_start s ps)"

fun bytes_contain :: "bytes \<Rightarrow> bytes \<Rightarrow> bool" where
  "bytes_contain p [] = (p = [])"
| "bytes_contain p (c # s) = (bytes_start (c # s) p \<or> bytes_contain p s)"

definition pem_header :: "string \<Rightarrow> bytes" where
  "pem_header label = utf8_encode (''-----BEGIN '' @ label @ ''-----'')"

text \<open>What the serialization module returns for the content of a key file, \<open>None\<close> when it raises
  \<open>ValueError\<close>, \<open>TypeError\<close> or \<open>UnsupportedAlgorithm\<close>.\<close>

datatype loaded_key = Ed25519Private bytes | OtherPrivate

definition load_private_key :: "(bytes \<Rightarrow> bool) \<Rightarrow> string \<Rightarrow> string \<Rightarrow> (bytes \<Rightarrow> loaded_key option) \<Rightarrow> key_file \<Rightarrow> bytes res" where
  "load_private_key header_ok header_msg invalid_msg load f =
     bind_res (key_read f) (\<lambda>data.
       if \<not> header_ok data then key_error header_msg
       else case load data of
              None \<Rightarrow> key_error invalid_msg
            | Some OtherPrivate \<Rightarrow> key_error ''key algorithm must be Ed25519''
            | Some (Ed25519Private sk) \<Rightarrow> Ret sk)"

definition load_pkcs8_ed25519_private_key :: "(bytes \<Rightarrow> loaded_key option) \<Rightarrow> key_file \<Rightarrow> bytes res" where
  "load_pkcs8_ed25519_private_key load_pem f =
     load_private_key
       (\<lambda>data. bytes_start data (pem_header ''PRIVATE KEY'') \<and> \<not> bytes_contain (pem_header ''ENCRYPTED PRIVATE KEY'') data)
       ''issuer key must be unencrypted PKCS#8 PEM'' ''issuer key is not valid unencrypted PKCS#8 PEM'' load_pem f"

definition load_openssh_ed25519_private_key :: "(bytes \<Rightarrow> loaded_key option) \<Rightarrow> key_file \<Rightarrow> bytes res" where
  "load_openssh_ed25519_private_key load_ssh f =
     load_private_key (\<lambda>data. bytes_start data (pem_header ''OPENSSH PRIVATE KEY''))
       ''publication identity must be OpenSSH private key''
       ''publication identity is not valid unencrypted OpenSSH Ed25519'' load_ssh f"

definition load_management_issuer_key :: "(bytes \<Rightarrow> loaded_key option) \<Rightarrow> key_file \<Rightarrow> bytes res" where
  "load_management_issuer_key load_pem f = load_pkcs8_ed25519_private_key load_pem f"

section \<open>Signing and verifying\<close>

definition HMAC_PREFIX :: string where "HMAC_PREFIX = ''base64:hmac-sha256:''"
definition ED25519_PREFIX :: string where "ED25519_PREFIX = ''base64:ed25519:''"

definition sign_object_hmac :: "jdict \<Rightarrow> string \<Rightarrow> string" where
  "sign_object_hmac obj_dict secret =
     HMAC_PREFIX @ b64encode (hmac_sha256 (utf8_encode secret) (canonical_json_bytes (JObj obj_dict)))"

definition sign_object :: "jdict \<Rightarrow> string \<Rightarrow> string" where
  "sign_object obj_dict secret = sign_object_hmac obj_dict secret"

text \<open>\<open>hmac.compare_digest\<close> on two texts raises when one of them is not ASCII.\<close>

definition compare_digest :: "string \<Rightarrow> string \<Rightarrow> bool res" where
  "compare_digest a b =
     (if is_ascii a \<and> is_ascii b then Ret (a = b)
      else Raise (TypeError ''comparing strings with non-ASCII characters is not supported''))"

definition verify_object_signature :: "jdict \<Rightarrow> string \<Rightarrow> bool res" where
  "verify_object_signature obj_dict secret =
     (case jget0 obj_dict ''signature'' of
        JStr signature \<Rightarrow>
          if starts_with signature HMAC_PREFIX then compare_digest signature (sign_object_hmac obj_dict secret)
          else Ret False
      | _ \<Rightarrow> Ret False)"

definition sign_object_ed25519_key :: "ed25519 \<Rightarrow> jdict \<Rightarrow> bytes \<Rightarrow> string" where
  "sign_object_ed25519_key lib obj_dict sk =
     ED25519_PREFIX @ b64encode (ed_sign lib sk (canonical_json_bytes (JObj obj_dict)))"

definition sign_object_ed25519_file ::
  "ed25519 \<Rightarrow> (bytes \<Rightarrow> loaded_key option) \<Rightarrow> jdict \<Rightarrow> key_file \<Rightarrow> string \<Rightarrow> string res" where
  "sign_object_ed25519_file lib load_pem obj_dict f format_name =
     (if format_name \<noteq> ''pkcs8-pem'' then Raise (ValueError ''Management signing files must use pkcs8-pem'')
      else bind_res (load_management_issuer_key load_pem f) (\<lambda>sk. Ret (sign_object_ed25519_key lib obj_dict sk)))"

definition sign_object_ed25519 :: "ed25519 \<Rightarrow> jdict \<Rightarrow> string \<Rightarrow> string res" where
  "sign_object_ed25519 lib obj_dict private_key_b64 =
     bind_res (b64decode private_key_b64) (\<lambda>raw.
       if \<not> ed_private_ok lib raw then Raise (ValueError ''An Ed25519 private key is 32 bytes long'')
       else Ret (ED25519_PREFIX @ b64encode (ed_sign lib raw (canonical_json_bytes (JObj obj_dict)))))"

text \<open>The body of the \<open>try\<close> blocks: whatever raises in them makes the result \<open>False\<close>.\<close>

definition ed25519_check :: "ed25519 \<Rightarrow> json \<Rightarrow> string \<Rightarrow> bytes \<Rightarrow> bool" where
  "ed25519_check lib public_key signature msg =
     (case bind_res (as_str public_key) b64decode of
        Inl _ \<Rightarrow> False
      | Inr raw_public \<Rightarrow> (case b64decode (drop (length ED25519_PREFIX) signature) of
            Inl _ \<Rightarrow> False
          | Inr raw_signature \<Rightarrow> ed_public_ok lib raw_public \<and> ed_verify lib raw_public raw_signature msg))"

definition verify_ed25519_signature :: "ed25519 \<Rightarrow> jdict \<Rightarrow> string \<Rightarrow> bool" where
  "verify_ed25519_signature lib obj_dict public_key_b64 =
     (case jget0 obj_dict ''signature'' of
        JStr signature \<Rightarrow> starts_with signature ED25519_PREFIX \<and>
          ed25519_check lib (JStr public_key_b64) signature (canonical_json_bytes (JObj obj_dict))
      | _ \<Rightarrow> False)"

definition verify_object_signature_with_registry ::
  "ed25519 \<Rightarrow> jdict \<Rightarrow> key_registry option \<Rightarrow> string option \<Rightarrow> bool res" where
  "verify_object_signature_with_registry lib obj_dict registry fallback_secret =
     (case jget0 obj_dict ''signature'' of
        JStr signature \<Rightarrow>
          if starts_with signature HMAC_PREFIX
          then (case fallback_secret of None \<Rightarrow> Ret False | Some secret \<Rightarrow> verify_object_signature obj_dict secret)
          else if \<not> starts_with signature ED25519_PREFIX then Ret False
          else (case registry of
                  None \<Rightarrow> Ret False
                | Some keys \<Rightarrow>
                    bind_res (registry_get keys (jget obj_dict ''issuer'' (JStr [])) (jget obj_dict ''key_id'' (JStr []))) (\<lambda>key.
                      case key of
                        None \<Rightarrow> Ret False
                      | Some k \<Rightarrow> bind_res (as_str (ik_algorithm k)) (\<lambda>alg.
                          if py_lower alg \<noteq> ''ed25519'' then Ret False
                          else Ret (ed25519_check lib (ik_public_key k) signature (canonical_json_bytes (JObj obj_dict))))))
      | _ \<Rightarrow> Ret False)"

text \<open>\<open>generate_ed25519_keypair\<close> for the random private bytes that the library draws.\<close>

definition generate_ed25519_keypair :: "ed25519 \<Rightarrow> bytes \<Rightarrow> string \<times> string" where
  "generate_ed25519_keypair lib sk = (b64encode sk, b64encode (ed_public lib sk))"

section \<open>Lemmas\<close>

lemma prefixes_apart: "starts_with s ED25519_PREFIX \<Longrightarrow> \<not> starts_with s HMAC_PREFIX"
  by (auto simp: starts_with_iff ED25519_PREFIX_def HMAC_PREFIX_def)

lemma is_ascii_append: "is_ascii (a @ b) \<longleftrightarrow> is_ascii a \<and> is_ascii b"
  by (simp add: is_ascii_def)

lemma is_ascii_sign_hmac: "is_ascii (sign_object_hmac d secret)"
  unfolding sign_object_hmac_def is_ascii_append
  by (simp add: is_ascii_b64encode) (simp add: HMAC_PREFIX_def is_ascii_def)

lemma sign_object_hmac_signature [simp]: "sign_object_hmac (dict_set d ''signature'' v) secret = sign_object_hmac d secret"
  by (simp add: sign_object_hmac_def)

lemma sign_object_ed25519_key_signature [simp]:
  "sign_object_ed25519_key lib (dict_set d ''signature'' v) sk = sign_object_ed25519_key lib d sk"
  by (simp add: sign_object_ed25519_key_def)

lemma verify_object_signature_True:
  "verify_object_signature d secret = Inr True \<longleftrightarrow> jget0 d ''signature'' = JStr (sign_object_hmac d secret)"
proof
  assume "verify_object_signature d secret = Inr True"
  then show "jget0 d ''signature'' = JStr (sign_object_hmac d secret)"
    by (auto simp: verify_object_signature_def compare_digest_def split: json.splits if_splits)
next
  assume "jget0 d ''signature'' = JStr (sign_object_hmac d secret)"
  moreover have "starts_with (sign_object_hmac d secret) HMAC_PREFIX" by (simp add: sign_object_hmac_def)
  ultimately show "verify_object_signature d secret = Inr True"
    by (simp add: verify_object_signature_def compare_digest_def is_ascii_sign_hmac)
qed

lemma ed25519_check_signed:
  assumes "ed25519_correct lib" "ed_private_ok lib sk"
  shows "ed25519_check lib (JStr (b64encode (ed_public lib sk))) (sign_object_ed25519_key lib d sk) (canonical_json_bytes (JObj d))"
  using assms by (simp add: ed25519_check_def sign_object_ed25519_key_def ed25519_correct_def)

lemma bytes_start_refl: "bytes_start s s"
  by (induction s) auto

lemma bytes_start_length: "bytes_start s p \<Longrightarrow> length p \<le> length s"
  by (induction s p rule: bytes_start.induct) auto

lemma bytes_contain_length: "bytes_contain p s \<Longrightarrow> length p \<le> length s"
  using bytes_start_length by (induction p s rule: bytes_contain.induct) fastforce+

lemma length_utf8_ascii: "is_ascii s \<Longrightarrow> length (utf8_encode s) = length s"
  by (induction s) (auto simp: utf8_encode_def utf8_char_def is_ascii_def Let_def)

lemma length_pem_header: "is_ascii l \<Longrightarrow> length (pem_header l) = 16 + length l"
proof -
  assume "is_ascii l"
  then have "is_ascii (''-----BEGIN '' @ l @ ''-----'')" by (simp add: is_ascii_def)
  from length_utf8_ascii[OF this] show ?thesis by (simp only: pem_header_def) simp
qed

section \<open>Theorems\<close>

text \<open>Sign then verify: an object signed with an Ed25519 private key is accepted under a registry
  that holds the matching public key for its issuer and key id, whatever other members it has.\<close>

theorem ed25519_sign_verify:
  assumes "ed25519_correct lib" and "ed_private_ok lib sk"
    and "jget d ''issuer'' (JStr []) = JStr iss" and "jget d ''key_id'' (JStr []) = JStr kid"
    and "dict_get keys (JStr iss, JStr kid) = Some k"
    and "ik_algorithm k = JStr alg" and "py_lower alg = ''ed25519''"
    and "ik_public_key k = JStr (snd (generate_ed25519_keypair lib sk))"
    and "sign_object_ed25519 lib d (fst (generate_ed25519_keypair lib sk)) = Ret sig"
  shows "verify_object_signature_with_registry lib (dict_set d ''signature'' (JStr sig)) (Some keys) fallback = Ret True"
proof -
  have sig: "sig = sign_object_ed25519_key lib d sk"
    using assms(2,9) by (simp add: sign_object_ed25519_def sign_object_ed25519_key_def generate_ed25519_keypair_def)
  then have pre: "starts_with sig ED25519_PREFIX" by (simp add: sign_object_ed25519_key_def)
  have "ed25519_check lib (ik_public_key k) sig (canonical_json_bytes (JObj d))"
    using ed25519_check_signed[OF assms(1,2), of d] sig assms(8) by (simp add: generate_ed25519_keypair_def)
  then show ?thesis
    using assms(3-7) pre prefixes_apart[OF pre]
    by (simp add: verify_object_signature_with_registry_def registry_get_def)
qed

definition demo_ed25519 :: ed25519 where
  "demo_ed25519 = \<lparr>ed_private_ok = (\<lambda>sk. length sk = 32), ed_public_ok = (\<lambda>pk. length pk = 32),
     ed_public = (\<lambda>sk. sk), ed_sign = (\<lambda>sk m. sha256 (sk @ m)), ed_verify = (\<lambda>pk s m. s = sha256 (pk @ m))\<rparr>"

lemma demo_ed25519_correct: "ed25519_correct demo_ed25519"
  by (simp add: ed25519_correct_def demo_ed25519_def)

theorem ed25519_sign_verify_witness:
  "verify_object_signature_with_registry demo_ed25519
     (dict_set [(''issuer'', JStr ''op''), (''key_id'', JStr ''k1'')] ''signature''
        (JStr (ED25519_PREFIX @ b64encode (ed_sign demo_ed25519 (replicate 32 7)
           (canonical_json_bytes (JObj [(''issuer'', JStr ''op''), (''key_id'', JStr ''k1'')]))))))
     (Some [((JStr ''op'', JStr ''k1''), \<lparr>ik_issuer = JStr ''op'', ik_key_id = JStr ''k1'', ik_algorithm = JStr ''Ed25519'',
        ik_public_key = JStr (b64encode (ed_public demo_ed25519 (replicate 32 7)))\<rparr>)]) None = Ret True"
proof (rule ed25519_sign_verify[OF demo_ed25519_correct, where sk = "replicate 32 7" and alg = "''Ed25519''" and iss = "''op''" and kid = "''k1''"
      and k = "\<lparr>ik_issuer = JStr ''op'', ik_key_id = JStr ''k1'', ik_algorithm = JStr ''Ed25519'',
        ik_public_key = JStr (b64encode (ed_public demo_ed25519 (replicate 32 7)))\<rparr>"])
  show "py_lower ''Ed25519'' = ''ed25519''" by code_simp
  show ok: "ed_private_ok demo_ed25519 (replicate 32 7)" by (simp add: demo_ed25519_def)
  show "sign_object_ed25519 demo_ed25519 [(''issuer'', JStr ''op''), (''key_id'', JStr ''k1'')]
      (fst (generate_ed25519_keypair demo_ed25519 (replicate 32 7))) =
     Ret (ED25519_PREFIX @ b64encode (ed_sign demo_ed25519 (replicate 32 7)
           (canonical_json_bytes (JObj [(''issuer'', JStr ''op''), (''key_id'', JStr ''k1'')]))))"
    unfolding sign_object_ed25519_def generate_ed25519_keypair_def fst_conv b64decode_encode bind_res_simps using ok by simp
qed (simp_all add: generate_ed25519_keypair_def)

text \<open>C34. Verification accepts only genuine signatures: a positive answer means that the object
  carries a text signature which either is the HMAC of its canonical bytes under a configured
  fallback secret, or was accepted by Ed25519 for those bytes under the public key that the
  registry holds for the object's issuer and key id.  Without a secret and a registry nothing is
  accepted.\<close>

theorem signature_accepted_only_if_genuine:
  assumes "verify_object_signature_with_registry lib d registry fallback = Ret True"
  shows "(\<exists>secret. fallback = Some secret \<and> jget0 d ''signature'' = JStr (sign_object_hmac d secret)) \<or>
    (\<exists>keys k sig pk s. registry = Some keys \<and> jget0 d ''signature'' = JStr (ED25519_PREFIX @ sig) \<and>
       dict_get keys (jget d ''issuer'' (JStr []), jget d ''key_id'' (JStr [])) = Some k \<and>
       ik_public_key k = JStr pk \<and> (\<exists>raw. b64decode pk = Ret raw \<and> b64decode sig = Ret s \<and>
         ed_verify lib raw s (canonical_json_bytes (JObj d))))"
proof -
  obtain sig where sig: "jget0 d ''signature'' = JStr sig"
    using assms by (auto simp: verify_object_signature_with_registry_def split: json.splits)
  show ?thesis
  proof (cases "starts_with sig HMAC_PREFIX")
    case True
    then obtain secret where "fallback = Some secret" "verify_object_signature d secret = Inr True"
      using assms sig by (auto simp: verify_object_signature_with_registry_def split: option.splits)
    then show ?thesis using verify_object_signature_True by blast
  next
    case False
    then have ed: "starts_with sig ED25519_PREFIX"
      using assms sig by (auto simp: verify_object_signature_with_registry_def split: if_splits)
    then obtain body where b: "sig = ED25519_PREFIX @ body" by (auto simp: starts_with_iff)
    obtain keys k where k: "registry = Some keys"
      "dict_get keys (jget d ''issuer'' (JStr []), jget d ''key_id'' (JStr [])) = Some k"
      "ed25519_check lib (ik_public_key k) sig (canonical_json_bytes (JObj d))"
      using assms sig False ed
      by (auto simp: verify_object_signature_with_registry_def registry_get_def split: option.splits if_splits)
    then show ?thesis using sig b by (auto simp: ed25519_check_def split: sum.splits)
  qed
qed

theorem signature_accepted_only_if_genuine_witness:
  "jget0 (dict_set [(''issuer'', JStr ''op'')] ''signature'' (JStr (sign_object_hmac [(''issuer'', JStr ''op'')] ''dev''))) ''signature'' =
     JStr (sign_object_hmac (dict_set [(''issuer'', JStr ''op'')] ''signature'' (JStr (sign_object_hmac [(''issuer'', JStr ''op'')] ''dev''))) ''dev'')"
proof -
  let ?d = "dict_set [(''issuer'', JStr ''op'')] ''signature'' (JStr (sign_object_hmac [(''issuer'', JStr ''op'')] ''dev''))"
  have g: "jget0 ?d ''signature'' = JStr (sign_object_hmac ?d ''dev'')"
    unfolding jget_set sign_object_hmac_signature by simp
  have "starts_with (sign_object_hmac ?d ''dev'') HMAC_PREFIX" unfolding sign_object_hmac_def by (rule starts_with_append)
  then have "verify_object_signature_with_registry demo_ed25519 ?d None (Some ''dev'') = Ret True"
    using g verify_object_signature_True[of ?d "''dev''"]
    unfolding verify_object_signature_with_registry_def g by simp
  from signature_accepted_only_if_genuine[OF this] show ?thesis by blast
qed

text \<open>A management key is used only if its file is a non-empty regular file, not a symbolic link,
  with mode 0600, whose content opens with the unencrypted PKCS#8 header, does not contain an
  encrypted one, and holds an Ed25519 key; the signature is then made with exactly that key.\<close>

theorem management_signing_file_guards:
  assumes "sign_object_ed25519_file lib load_pem d f fmt = Ret sig"
  shows "fmt = ''pkcs8-pem'' \<and> kf_is_file f \<and> \<not> kf_is_symlink f \<and> kf_size f \<noteq> 0 \<and> kf_mode f AND 511 = 384 \<and>
    (\<exists>data sk. kf_content f = Ret data \<and> bytes_start data (pem_header ''PRIVATE KEY'') \<and>
       \<not> bytes_contain (pem_header ''ENCRYPTED PRIVATE KEY'') data \<and> load_pem data = Some (Ed25519Private sk) \<and>
       sig = sign_object_ed25519_key lib d sk)"
  using assms
  by (auto simp: sign_object_ed25519_file_def load_management_issuer_key_def load_pkcs8_ed25519_private_key_def
      load_private_key_def key_read_def key_error_def
      split: if_splits option.splits loaded_key.splits sum.splits)

definition demo_key_file :: key_file where
  "demo_key_file = \<lparr>kf_is_file = True, kf_is_symlink = False, kf_size = 27, kf_mode = 33152,
     kf_content = Ret (pem_header ''PRIVATE KEY'')\<rparr>"

theorem management_signing_file_guards_witness:
  "kf_mode demo_key_file AND 511 = 384 \<and>
   (\<exists>data sk. kf_content demo_key_file = Ret data \<and> bytes_start data (pem_header ''PRIVATE KEY'') \<and>
     \<not> bytes_contain (pem_header ''ENCRYPTED PRIVATE KEY'') data \<and>
     Some (Ed25519Private [1]) = Some (Ed25519Private sk) \<and>
     sign_object_ed25519_key demo_ed25519 [] [1] = sign_object_ed25519_key demo_ed25519 [] sk)"
proof -
  have "bytes_start (pem_header ''PRIVATE KEY'') (pem_header ''PRIVATE KEY'')" by (rule bytes_start_refl)
  moreover have "\<not> bytes_contain (pem_header ''ENCRYPTED PRIVATE KEY'') (pem_header ''PRIVATE KEY'')"
    using bytes_contain_length[of "pem_header ''ENCRYPTED PRIVATE KEY''" "pem_header ''PRIVATE KEY''"]
    by (auto simp: length_pem_header is_ascii_def)
  moreover have "(33152 :: nat) AND 511 = 384" by simp
  ultimately have "sign_object_ed25519_file demo_ed25519 (\<lambda>_. Some (Ed25519Private [1])) [] demo_key_file ''pkcs8-pem'' =
      Ret (sign_object_ed25519_key demo_ed25519 [] [1])"
    by (simp add: sign_object_ed25519_file_def load_management_issuer_key_def load_pkcs8_ed25519_private_key_def
      load_private_key_def key_read_def demo_key_file_def)
  from management_signing_file_guards[OF this] show ?thesis by blast
qed

end
