(* ===== verification/Verifier.thy ===== *)
theory Verifier
  imports TrustedCache Indexer Merkle Signatures
begin

text \<open>
  The verification of a resolver endpoint: \<open>verifier/policy.py\<close>, \<open>verifier/proof_verifier.py\<close>,
  \<open>verifier/resolver_verifier.py\<close> and \<open>verifier/observed_resolvers.py\<close>.  The verifier reads the index
  and the cache in the database, and the registry, which other parties change while a
  verification runs: the \<open>i\<close>-th registry call sees the view \<open>ve_registry env i\<close>, and before the
  \<open>i\<close>-th access to the database other processes apply \<open>ve_interf env i\<close> to it.
\<close>

section \<open>VerificationPolicy\<close>

record policy =
  po_allowed_transports :: "string list"
  po_soft_ttl_seconds :: int
  po_hard_ttl_seconds :: int

definition policy_default :: policy where
  "policy_default = \<lparr>po_allowed_transports = [''udp'', ''tcp'', ''doh''], po_soft_ttl_seconds = 600, po_hard_ttl_seconds = 3600\<rparr>"

text \<open>\<open>ep.transport not in self.allowed_transports\<close>: a value that cannot be hashed raises.\<close>

definition transport_refused :: "policy \<Rightarrow> endpoint \<Rightarrow> bool res" where
  "transport_refused p ep =
     (if \<not> hashable (e_transport ep) then Raise (TypeError ''unhashable type'')
      else Ret (e_transport ep \<notin> JStr ` set (po_allowed_transports p)))"

definition check_object_semantics :: "policy \<Rightarrow> auth_object \<Rightarrow> int \<Rightarrow> string option res" where
  "check_object_semantics p ob now =
     (if o_schema_version ob \<noteq> JStr ''resolver-auth-object-v1'' then Ret (Some ''unsupported_schema_version'')
      else if o_canonical_version ob \<noteq> 1 then Ret (Some ''unsupported_canonical_version'')
      else if o_status ob \<noteq> JStr ''ACTIVE'' then Ret (Some ''status_not_active'')
      else bind_res (bind_res (as_str (o_valid_from ob)) parse_rfc3339) (\<lambda>from.
        if from > now then Ret (Some ''object_not_yet_valid'')
        else bind_res (bind_res (as_str (o_valid_until ob)) parse_rfc3339) (\<lambda>until.
          if until \<le> now then Ret (Some ''object_expired'')
          else bind_res (any_res (transport_refused p) (o_endpoints ob)) (\<lambda>refused.
            Ret (if refused then Some ''transport_not_allowed'' else None)))))"

definition expirations :: "policy \<Rightarrow> int \<Rightarrow> int \<Rightarrow> (string \<times> string) res" where
  "expirations p now valid_until =
     bind_res (dt_add now (po_soft_ttl_seconds p * 1000000)) (\<lambda>soft.
     bind_res (dt_add now (po_hard_ttl_seconds p * 1000000)) (\<lambda>hard.
       Ret (format_rfc3339 soft, format_rfc3339 (min hard valid_until))))"

section \<open>ProofVerifier\<close>

text \<open>\<open>except (KeyError, TypeError, ValueError)\<close> around a check.\<close>

definition check_or_invalid :: "bool res \<Rightarrow> string option res" where
  "check_or_invalid r =
     (case r of
        Inr b \<Rightarrow> Ret (if b then None else Some ''merkle_proof_invalid'')
      | Inl (KeyError _) \<Rightarrow> Ret (Some ''merkle_proof_invalid'')
      | Inl (TypeError _) \<Rightarrow> Ret (Some ''merkle_proof_invalid'')
      | Inl (ValueError _) \<Rightarrow> Ret (Some ''merkle_proof_invalid'')
      | Inl e \<Rightarrow> Inl e)"

definition failure_reason :: "jdict option \<Rightarrow> string option \<Rightarrow> string option \<Rightarrow> string option res" where
  "failure_reason proof_row root_status expected_root =
     (if root_status \<noteq> Some ''ACTIVE'' then Ret (Some ''root_status_invalid'')
      else (case (proof_row, expected_root) of
        (Some row, Some root) \<Rightarrow>
          if row = [] \<or> root = [] then Ret (Some ''merkle_proof_missing'')
          else let proof = jor (jget0 row ''proof'') (JObj row) in
            bind_res (if truthy (jget0 row ''leaf_hash'') then Ret (jget0 row ''leaf_hash'')
                      else bind_res (as_dict proof) (\<lambda>p. Ret (jget0 p ''leaf_hash''))) (\<lambda>leaf_hash.
            if \<not> truthy leaf_hash then Ret (Some ''merkle_proof_missing_leaf'')
            else check_or_invalid (bind_res (as_str leaf_hash) (\<lambda>l. bind_res (as_dict proof) (\<lambda>p. verify_merkle_proof l p root))))
      | _ \<Rightarrow> Ret (Some ''merkle_proof_missing'')))"

text \<open>\<open>v and v.lower() != w.lower()\<close>.\<close>

definition text_mismatch :: "json \<Rightarrow> string \<Rightarrow> bool res" where
  "text_mismatch v w = (if truthy v then bind_res (as_str v) (\<lambda>s. Ret (py_lower s \<noteq> py_lower w)) else Ret False)"

definition first_mismatch :: "(json \<times> string \<times> string) list \<Rightarrow> string option res" where
  "first_mismatch checks = foldr (\<lambda>(v, w, reason) rest. bind_res (text_mismatch v w) (\<lambda>b. if b then Ret (Some reason) else rest))
     checks (Ret None)"

text \<open>The last comparison of the two leaf hashes needs both; when the row has one it is text, having
  passed the comparison before.\<close>

definition bound_failure_reason :: "jdict option \<Rightarrow> string option \<Rightarrow> string option \<Rightarrow> string \<Rightarrow> string option res" where
  "bound_failure_reason proof_row root_status expected_root expected_leaf =
     bind_res (failure_reason proof_row root_status expected_root) (\<lambda>base.
     case (base, proof_row, expected_root) of
       (None, Some row, Some root) \<Rightarrow>
         bind_res (as_dict (jor (jget0 row ''proof'') (JObj row))) (\<lambda>proof.
         let row_leaf = jget0 row ''leaf_hash''; proof_leaf = jget0 proof ''leaf_hash'' in
         bind_res (first_mismatch
           [(jget0 row ''state_root'', root, ''merkle_proof_root_mismatch''),
            (jget0 proof ''root'', root, ''merkle_proof_root_mismatch''),
            (row_leaf, expected_leaf, ''merkle_leaf_binding_mismatch''),
            (proof_leaf, expected_leaf, ''merkle_leaf_binding_mismatch''),
            (if truthy row_leaf then proof_leaf else JNull,
             (case row_leaf of JStr s \<Rightarrow> s | _ \<Rightarrow> []), ''merkle_leaf_binding_mismatch'')]) (\<lambda>reason.
         case reason of Some r \<Rightarrow> Ret (Some r) | None \<Rightarrow> check_or_invalid (verify_merkle_proof expected_leaf proof root)))
     | _ \<Rightarrow> Ret base)"

definition proof_verify :: "jdict option \<Rightarrow> string option \<Rightarrow> string option \<Rightarrow> bool res" where
  "proof_verify proof_row root_status expected_root =
     bind_res (failure_reason proof_row root_status expected_root) (\<lambda>r. Ret (r = None))"

definition proof_verify_bound :: "jdict option \<Rightarrow> string option \<Rightarrow> string option \<Rightarrow> string \<Rightarrow> bool res" where
  "proof_verify_bound proof_row root_status expected_root expected_leaf =
     bind_res (bound_failure_reason proof_row root_status expected_root expected_leaf) (\<lambda>r. Ret (r = None))"

section \<open>ResolverVerifier\<close>

record verifier_cfg =
  vc_lib :: ed25519
  vc_policy :: policy
  vc_signature_secret :: string
  vc_issuer_keys :: "key_registry option"
  vc_allow_hmac_signatures :: bool

text \<open>The surroundings of one verification: the registry at each of its calls, the other processes at each
  access to the database, and the time at the start and at the commit.\<close>

record verify_env =
  ve_registry :: "nat \<Rightarrow> registry_view"
  ve_interf :: "nat \<Rightarrow> db \<Rightarrow> db"
  ve_now :: int
  ve_store_now :: int

definition interfere :: "verify_env \<Rightarrow> nat \<Rightarrow> unit cmop" where
  "interfere env i = on_db (modS (ve_interf env i))"

definition extract_agent_key :: "auth_object \<Rightarrow> jdict" where
  "extract_agent_key ob =
     (case jor (jget0 (o_attestation ob) ''agent'') (JObj []) of
        JObj agent \<Rightarrow>
          (let public_key = jget0 agent ''public_key'';
               ed = (case jget agent ''algorithm'' (JStr []) of JStr a \<Rightarrow> py_lower a = ''ed25519'' | _ \<Rightarrow> False) in
           if \<not> truthy public_key \<or> \<not> ed then []
           else [(''agent_public_key'', public_key), (''agent_key_algorithm'', JStr ''ed25519''),
                 (''agent_key_id'', jor (jget0 agent ''key_id'') (JStr ''agent-key-01''))])
      | _ \<Rightarrow> [])"

definition opt_json :: "string option \<Rightarrow> json" where
  "opt_json v = (case v of None \<Rightarrow> JNull | Some s \<Rightarrow> JStr s)"

definition verification_evidence :: "string \<Rightarrow> string \<Rightarrow> string \<Rightarrow> auth_object \<Rightarrow> anchor \<Rightarrow> string option \<Rightarrow> jdict" where
  "verification_evidence cache_key rid_key local_hash ob anc root_status =
     dict_update
     [(''endpoint_key'', JStr cache_key), (''resolver_id_key'', JStr rid_key), (''object_hash'', JStr local_hash),
      (''object_version'', JInt (o_object_version ob)), (''resolver_status'', o_status ob),
      (''state_root'', JStr (an_state_root anc)), (''chain_status'', JStr (an_status anc)),
      (''root_status'', opt_json root_status), (''endpoint_binding_status'', JStr ''MATCHED'')]
     (extract_agent_key ob)"

text \<open>The second reading of the registry, just before the commit.\<close>

definition registry_unchanged :: "verify_env \<Rightarrow> string \<Rightarrow> string \<Rightarrow> string \<Rightarrow> int \<Rightarrow> string \<Rightarrow> bool res" where
  "registry_unchanged env cache_key rid_key local_hash object_version state_root =
     bind_res (rv_binding (ve_registry env 3) cache_key) (\<lambda>final_bound.
     bind_res (rv_anchor (ve_registry env 4) rid_key) (\<lambda>final_anchor.
     bind_res (rv_root (ve_registry env 5) state_root) (\<lambda>final_root_status.
       Ret (final_bound = Some rid_key \<and>
         (case final_anchor of None \<Rightarrow> False | Some a \<Rightarrow>
            an_status a = ''ACTIVE'' \<and> an_object_hash a = local_hash \<and> an_object_version a = object_version \<and>
            an_state_root a = state_root) \<and>
         final_root_status = Some ''ACTIVE''))))"

text \<open>From the object to the verdict, after index, binding and anchor were found.\<close>

definition verify_object ::
  "verifier_cfg \<Rightarrow> verify_env \<Rightarrow> endpoint \<Rightarrow> string \<Rightarrow> int \<Rightarrow> int \<Rightarrow> string \<Rightarrow> anchor \<Rightarrow> object_row \<Rightarrow> verification_result cmop" where
  "verify_object cfg env ep cache_key now expected_generation rid_key anc row =
     (let obj_dict = ro_object_json row in
     bindS (liftS (object_from_dict obj_dict)) (\<lambda>ob.
     let local_hash = object_hash obj_dict; rid = o_resolver_id ob in
     if local_hash \<noteq> ro_object_hash row then
       retS (vr_reject ''indexer_object_hash_metadata_mismatch'' rid
         [(''local_hash'', JStr local_hash), (''indexer_hash'', JStr (ro_object_hash row))])
     else if local_hash \<noteq> an_object_hash anc then
       retS (vr_reject ''chain_object_hash_mismatch'' rid
         [(''local_hash'', JStr local_hash), (''chain_hash'', JStr (an_object_hash anc))])
     else if o_object_version ob \<noteq> an_object_version anc then
       retS (vr_reject ''object_version_mismatch'' rid
         [(''object_version'', JInt (o_object_version ob)), (''chain_version'', JInt (an_object_version anc))])
     else bindS (liftS (as_str rid)) (\<lambda>resolver_id.
     if resolver_id_key resolver_id \<noteq> rid_key then retS (vr_reject ''resolver_id_key_mismatch'' rid [])
     else bindS (liftS (verify_object_signature_with_registry (vc_lib cfg) obj_dict (vc_issuer_keys cfg)
            (if vc_allow_hmac_signatures cfg then Some (vc_signature_secret cfg) else None))) (\<lambda>genuine.
     if \<not> genuine then retS (vr_reject ''signature_invalid'' rid [])
     else bindS (liftS (rv_root (ve_registry env 2) (an_state_root anc))) (\<lambda>root_status.
     seqS (interfere env 3) (bindS (on_db (get_proof resolver_id)) (\<lambda>proof_row.
     bindS (liftS (as_str (o_status ob))) (\<lambda>status.
     let expected_leaf = merkle_leaf rid_key local_hash (o_object_version ob) status in
     bindS (liftS (bound_failure_reason proof_row root_status (Some (an_state_root anc)) expected_leaf)) (\<lambda>proof_error.
     case proof_error of
       Some reason \<Rightarrow> retS (vr_reject reason rid
         [(''root_status'', opt_json root_status), (''expected_leaf'', JStr expected_leaf)])
     | None \<Rightarrow> bindS (liftS (check_object_semantics (vc_policy cfg) ob now)) (\<lambda>semantic_error.
     case semantic_error of
       Some reason \<Rightarrow> retS (vr_reject reason rid [])
     | None \<Rightarrow> bindS (liftS (any_res (\<lambda>candidate. matches candidate ep) (o_endpoints ob))) (\<lambda>listed.
     if \<not> listed then retS (vr_reject ''endpoint_not_in_object'' rid [])
     else bindS (liftS (bind_res (as_str (o_valid_until ob)) parse_rfc3339)) (\<lambda>valid_until.
     bindS (liftS (expirations (vc_policy cfg) now valid_until)) (\<lambda>(soft, hard).
     let evidence = verification_evidence cache_key rid_key local_hash ob anc root_status in
     bindS (liftS (registry_unchanged env cache_key rid_key local_hash (o_object_version ob) (an_state_root anc))) (\<lambda>unchanged.
     if \<not> unchanged then retS (vr_reject ''registry_changed_during_verification'' rid [])
     else seqS (interfere env 4) (bindS (store_verified cache_key resolver_id ep local_hash (o_object_version ob)
            (an_state_root anc) soft hard evidence (Some expected_generation) (ve_store_now env)) (\<lambda>stored.
     if \<not> stored then retS (vr_reject ''verification_invalidated_during_commit'' rid [])
     else bindS (getS cm_owner) (\<lambda>owner.
       retS (vr_accept rid ''VERIFIED'' ((''cache'', JStr ''miss'') #
         dict_update evidence [(''cache_generation'', JInt expected_generation), (''cache_generation_owner'', JStr owner)])))))))))))))))))))"

definition verify_cold :: "verifier_cfg \<Rightarrow> verify_env \<Rightarrow> endpoint \<Rightarrow> string \<Rightarrow> int \<Rightarrow> int \<Rightarrow> verification_result cmop" where
  "verify_cold cfg env ep cache_key now expected_generation =
     seqS (interfere env 1) (bindS (on_db (lookup cache_key)) (\<lambda>found.
     case found of
       None \<Rightarrow> retS (vr_reject ''lookup_not_found'' JNull [(''evidence'', JObj [(''endpoint_key'', JStr cache_key)])])
     | Some l \<Rightarrow>
       (let rid_key = rl_resolver_id_key l; known = JStr (rl_resolver_id l) in
       bindS (liftS (rv_binding (ve_registry env 0) cache_key)) (\<lambda>bound.
       if bound \<noteq> Some rid_key then
         retS (vr_reject ''endpoint_binding_mismatch'' known
           [(''endpoint_key'', JStr cache_key), (''bound'', opt_json bound), (''expected'', JStr rid_key)])
       else bindS (liftS (rv_anchor (ve_registry env 1) rid_key)) (\<lambda>anchor.
       case anchor of
         None \<Rightarrow> retS (vr_reject ''chain_anchor_not_found'' known [])
       | Some anc \<Rightarrow>
         if an_status anc \<noteq> ''ACTIVE'' then
           retS (vr_reject ''chain_status_not_active'' known [(''chain_status'', JStr (an_status anc))])
         else seqS (interfere env 2) (bindS (on_db (get_resolver (rl_resolver_id l))) (\<lambda>row.
           case row of
             None \<Rightarrow> retS (vr_reject ''resolver_object_not_found'' known [])
           | Some r \<Rightarrow> verify_object cfg env ep cache_key now expected_generation rid_key anc r)))))))"

text \<open>\<open>except Exception\<close>: the outcome is a rejection, the effects made so far stay.  The exceptions of the
  model carry an abbreviated message.\<close>

fun exc_text :: "pyerr \<Rightarrow> string" where
  "exc_text (ValueError m) = m"
| "exc_text (TypeError m) = m"
| "exc_text (KeyError m) = m"
| "exc_text (IndexError m) = m"
| "exc_text (AttributeError m) = m"
| "exc_text (RuntimeError m) = m"
| "exc_text (IntegrityError m) = m"
| "exc_text (OverflowError m) = m"

definition fail_closed :: "string \<Rightarrow> verification_result cmop \<Rightarrow> verification_result cmop" where
  "fail_closed cache_key m c =
     (case m c of
        (Inr r, c') \<Rightarrow> (Inr r, c')
      | (Inl e, c') \<Rightarrow> (Inr (vr_reject ''out_of_band_unavailable'' JNull
           [(''endpoint_key'', JStr cache_key), (''error'', JStr (exc_text e))]), c'))"

definition verify_endpoint :: "verifier_cfg \<Rightarrow> verify_env \<Rightarrow> endpoint \<Rightarrow> verification_result cmop" where
  "verify_endpoint cfg env ep =
     bindS (liftS (normalized ep)) (\<lambda>n.
     bindS (liftS (endpoint_lookup_key n)) (\<lambda>cache_key.
     bindS (get_valid (ve_interf env 0) cache_key n (ve_now env)) (\<lambda>cached.
     case cached of
       Some r \<Rightarrow> retS r
     | None \<Rightarrow> bindS (on_db current_generation) (\<lambda>generation.
         fail_closed cache_key (verify_cold cfg env n cache_key (ve_now env) generation)))))"

definition refresh_endpoint :: "verifier_cfg \<Rightarrow> verify_env \<Rightarrow> endpoint \<Rightarrow> verification_result cmop" where
  "refresh_endpoint cfg env ep =
     bindS (liftS (normalized ep)) (\<lambda>n.
     bindS (liftS (endpoint_lookup_key n)) (\<lambda>cache_key.
     bindS (on_db current_generation) (\<lambda>generation.
       fail_closed cache_key (verify_cold cfg env n cache_key (ve_now env) generation))))"

section \<open>Observed resolvers\<close>

definition endpoint_of_parts :: "string \<Rightarrow> int \<Rightarrow> string \<Rightarrow> endpoint" where
  "endpoint_of_parts ip port transport = \<lparr>e_endpoint_id = JNull, e_ip = JStr ip, e_port = JInt port,
     e_transport = JStr transport, e_uri = JNull, e_server_name = JNull, e_alpn = []\<rparr>"

definition first_hop_observed_resolver :: "string \<Rightarrow> int \<Rightarrow> string \<Rightarrow> endpoint list res" where
  "first_hop_observed_resolver ip port transport =
     bind_res (normalized (endpoint_of_parts ip port transport)) (\<lambda>n. Ret [n])"

definition observed_resolvers_from_agent_payload :: "jdict \<Rightarrow> endpoint list res" where
  "observed_resolvers_from_agent_payload payload =
     bind_res (as_list (jget payload ''observed_resolvers'' (JArr [])))
       (map_res (\<lambda>item. bind_res (as_dict item) (\<lambda>d. bind_res (endpoint_from_dict d) normalized)))"

section \<open>What an acceptance rests on\<close>

lemma interfere_run [simp]: "interfere env i c = (Ret (), c\<lparr>cm_db := ve_interf env i (cm_db c)\<rparr>)"
  by (simp add: interfere_def on_db_def zoomS_def)

lemma seqS_interfere [simp]: "seqS (interfere env i) m c = m (c\<lparr>cm_db := ve_interf env i (cm_db c)\<rparr>)"
  by (simp add: seqS_eq(1)[OF interfere_run])

lemma on_db_getS [simp]: "on_db (getS f) c = (Ret (f (cm_db c)), c)"
  by (simp add: on_db_def zoomS_def)

lemma liftS_Inr [simp]: "bindS (liftS m) f c = (Inr y, t) \<longleftrightarrow> (\<exists>x. m = Ret x \<and> f x c = (Inr y, t))"
  by (cases m) auto

lemma vr_reject_accepted [simp]: "vr_accepted (vr_reject a b e) = False" "vr_accepted (vr_accept i s e)"
  by (simp_all add: vr_reject_def vr_accept_def)

lemma check_or_invalid_None [simp]: "check_or_invalid r = Ret None \<longleftrightarrow> r = Ret True"
  by (cases r) (auto simp: check_or_invalid_def split: pyerr.splits)

lemma bound_failure_reason_None:
  assumes "bound_failure_reason proof_row root_status (Some root) leaf = Ret None"
  shows "root_status = Some ''ACTIVE'' \<and> (\<exists>row proof. proof_row = Some row \<and>
     jor (jget0 row ''proof'') (JObj row) = JObj proof \<and> verify_merkle_proof leaf proof root = Ret True)"
proof -
  obtain base where base: "failure_reason proof_row root_status (Some root) = Ret base"
    using assms by (auto simp: bound_failure_reason_def)
  show ?thesis
  proof (cases "base = None \<and> proof_row \<noteq> None")
    case True
    then obtain row where row: "proof_row = Some row" "base = None" by blast
    have rs: "root_status = Some ''ACTIVE''" using base row by (auto simp: failure_reason_def split: if_splits)
    show ?thesis using assms rs row base
      by (fastforce simp: bound_failure_reason_def Let_def split: option.splits)
  next
    case False
    then have "base = None" "proof_row = None" using assms base by (auto simp: bound_failure_reason_def split: option.splits)
    then show ?thesis using base by (simp add: failure_reason_def split: if_splits)
  qed
qed

lemma reason_None [simp]:
  "(if b then Ret (Some s) else m) = (Ret None :: string option res) \<longleftrightarrow> \<not> b \<and> m = Ret None"
  "(if b then Some s else None) = (None :: string option) \<longleftrightarrow> \<not> b"
  by auto

lemma step_accepted:
  assumes "vr_accepted r"
  shows "(if b then retS (vr_reject a i e) else m) c = (Ret r, c') \<longleftrightarrow> \<not> b \<and> m c = (Ret r, c')"
    and "(case x of None \<Rightarrow> retS (vr_reject a i e) | Some y \<Rightarrow> f y) c = (Ret r, c') \<longleftrightarrow> (\<exists>y. x = Some y \<and> f y c = (Ret r, c'))"
    and "(case z of None \<Rightarrow> m | Some y \<Rightarrow> retS (vr_reject (g y) i e)) c = (Ret r, c') \<longleftrightarrow> z = None \<and> m c = (Ret r, c')"
  using assms by (auto simp: bindS_Inr split: option.splits if_splits)

lemma returned_True:
  "(\<exists>b. w = Inr b \<and> b \<and> Q) \<longleftrightarrow> w = Inr True \<and> Q"
  "(\<exists>b u. q = (Inr b, u) \<and> b \<and> R u) \<longleftrightarrow> (\<exists>u. q = (Inr True, u) \<and> R u)"
  "(\<exists>b. q = (Inr b, v) \<and> b \<and> Q) \<longleftrightarrow> q = (Inr True, v) \<and> Q"
  by auto

lemma check_object_semantics_None:
  assumes "check_object_semantics p ob now = Ret None"
  shows "o_schema_version ob = JStr ''resolver-auth-object-v1'' \<and> o_canonical_version ob = 1 \<and> o_status ob = JStr ''ACTIVE'' \<and>
    (\<exists>vf vu from until. o_valid_from ob = JStr vf \<and> parse_rfc3339 vf = Ret from \<and> from \<le> now \<and>
       o_valid_until ob = JStr vu \<and> parse_rfc3339 vu = Ret until \<and> now < until) \<and>
    (\<forall>e\<in>set (o_endpoints ob). \<exists>t\<in>set (po_allowed_transports p). e_transport e = JStr t)"
proof -
  have "any_res (transport_refused p) (o_endpoints ob) = Ret False"
    using assms unfolding check_object_semantics_def reason_None bind_res_eq_Inr
    by (elim exE conjE) simp
  then have "\<forall>e\<in>set (o_endpoints ob). transport_refused p e = Ret False"
    by (intro ballI) (rule any_res_False)
  then have "\<forall>e\<in>set (o_endpoints ob). \<exists>t\<in>set (po_allowed_transports p). e_transport e = JStr t"
    unfolding transport_refused_def by (simp add: image_iff Bex_def split: if_splits)
  moreover have "o_schema_version ob = JStr ''resolver-auth-object-v1'' \<and> o_canonical_version ob = 1 \<and> o_status ob = JStr ''ACTIVE'' \<and>
    (\<exists>vf vu from until. o_valid_from ob = JStr vf \<and> parse_rfc3339 vf = Ret from \<and> from \<le> now \<and>
       o_valid_until ob = JStr vu \<and> parse_rfc3339 vu = Ret until \<and> now < until)"
    using assms unfolding check_object_semantics_def reason_None bind_res_eq_Inr as_str_Inr not_less not_le
    by (elim exE conjE) (intro conjI exI; (assumption | simp only: not_not))
  ultimately show ?thesis by blast
qed

text \<open>The object \<open>obj_dict\<close> of resolver \<open>rid\<close> justifies the endpoint: it carries a genuine signature, the registry
  vouched for its hash, version and root when it was read last, its leaf is under the root, it is in
  force, and it lists the endpoint.\<close>

definition justifies :: "verifier_cfg \<Rightarrow> verify_env \<Rightarrow> endpoint \<Rightarrow> string \<Rightarrow> int \<Rightarrow> jdict \<Rightarrow> string \<Rightarrow> bool" where
  "justifies cfg env ep ek now obj_dict rid \<longleftrightarrow>
     (\<exists>ob root a proof. object_from_dict obj_dict = Ret ob \<and> o_resolver_id ob = JStr rid \<and>
       verify_object_signature_with_registry (vc_lib cfg) obj_dict (vc_issuer_keys cfg)
         (if vc_allow_hmac_signatures cfg then Some (vc_signature_secret cfg) else None) = Ret True \<and>
       rv_binding (ve_registry env 3) ek = Ret (Some (resolver_id_key rid)) \<and>
       rv_anchor (ve_registry env 4) (resolver_id_key rid) = Ret (Some a) \<and> an_status a = ''ACTIVE'' \<and>
       an_object_hash a = object_hash obj_dict \<and> an_object_version a = o_object_version ob \<and> an_state_root a = root \<and>
       rv_root (ve_registry env 5) root = Ret (Some ''ACTIVE'') \<and>
       verify_merkle_proof (merkle_leaf (resolver_id_key rid) (object_hash obj_dict) (o_object_version ob) ''ACTIVE'') proof root = Ret True \<and>
       check_object_semantics (vc_policy cfg) ob now = Ret None \<and>
       (\<exists>e\<in>set (o_endpoints ob). matches e ep = Ret True))"

lemma registry_unchanged_True:
  "registry_unchanged env ek rk h v root = Ret True \<Longrightarrow>
     rv_binding (ve_registry env 3) ek = Ret (Some rk) \<and>
     (\<exists>a. rv_anchor (ve_registry env 4) rk = Ret (Some a) \<and> an_status a = ''ACTIVE'' \<and> an_object_hash a = h \<and>
        an_object_version a = v \<and> an_state_root a = root) \<and> rv_root (ve_registry env 5) root = Ret (Some ''ACTIVE'')"
  by (auto simp: registry_unchanged_def split: option.splits)

lemma verify_object_accepts:
  assumes "verify_object cfg env ep ek now g rk anc row c = (Ret r, c')" and acc: "vr_accepted r"
  obtains ob rid proof_row root_status status valid_until valid_until_text so ha d0 where
      "object_from_dict (ro_object_json row) = Ret ob" "o_resolver_id ob = JStr rid" "resolver_id_key rid = rk"
      "verify_object_signature_with_registry (vc_lib cfg) (ro_object_json row) (vc_issuer_keys cfg)
         (if vc_allow_hmac_signatures cfg then Some (vc_signature_secret cfg) else None) = Ret True"
      "rv_root (ve_registry env 2) (an_state_root anc) = Ret root_status" "o_status ob = JStr status"
      "bound_failure_reason proof_row root_status (Some (an_state_root anc))
         (merkle_leaf rk (object_hash (ro_object_json row)) (o_object_version ob) status) = Ret None"
      "check_object_semantics (vc_policy cfg) ob now = Ret None"
      "any_res (\<lambda>candidate. matches candidate ep) (o_endpoints ob) = Ret True"
      "registry_unchanged env ek rk (object_hash (ro_object_json row)) (o_object_version ob) (an_state_root anc) = Ret True"
      "o_valid_until ob = JStr valid_until_text" "parse_rfc3339 valid_until_text = Ret valid_until" "expirations (vc_policy cfg) now valid_until = Ret (so, ha)"
      "store_verified ek rid ep (object_hash (ro_object_json row)) (o_object_version ob) (an_state_root anc) so ha
         (verification_evidence ek rk (object_hash (ro_object_json row)) ob anc root_status) (Some g) (ve_store_now env)
         (c\<lparr>cm_db := ve_interf env 4 d0\<rparr>) = (Ret True, c')"
      "vr_resolver_id r = JStr rid" "d0 = ve_interf env 3 (cm_db c)"
  using assms(1) unfolding verify_object_def Let_def
  apply (simp add: get_proof_def step_accepted[OF acc] returned_True bindS_Inr split_beta)
  apply (elim exE conjE)
  subgoal premises p
    by (rule p(1); (fact p(2-) | (use p(2-) in \<open>auto simp: vr_accept_def\<close>)))
  done

lemma verify_object_justified:
  assumes "verify_object cfg env ep ek now g rk anc row c = (Ret r, c')" and "vr_accepted r"
  shows "\<exists>rid. vr_resolver_id r = JStr rid \<and> rk = resolver_id_key rid \<and> justifies cfg env ep ek now (ro_object_json row) rid"
  using assms
proof (cases rule: verify_object_accepts)
  case (1 ob rid proof_row root_status status)
  have st: "status = ''ACTIVE''" using check_object_semantics_None[OF 1(8)] 1(6) by simp
  obtain prv where pf: "verify_merkle_proof (merkle_leaf (resolver_id_key rid) (object_hash (ro_object_json row)) (o_object_version ob) ''ACTIVE'') prv (an_state_root anc) = Ret True"
    using bound_failure_reason_None[OF 1(7)] unfolding st 1(3)[symmetric] by blast
  show ?thesis unfolding justifies_def
    using 1(1,2,3,4,8,15) pf registry_unchanged_True[OF 1(10)] any_res_True[OF 1(9)] by blast
qed

lemma find_in_set: "find P xs = Some x \<Longrightarrow> x \<in> set xs"
  by (auto simp: find_Some_iff)

lemma verify_cold_accepts:
  assumes "verify_cold cfg env ep ek now g c = (Ret r, c')" and acc: "vr_accepted r"
  obtains rk anc row c2 where
      "rv_binding (ve_registry env 0) ek = Ret (Some rk)" "rv_anchor (ve_registry env 1) rk = Ret (Some anc)" "an_status anc = ''ACTIVE''"
      "row \<in> set (t_resolver_objects (ve_interf env 2 (ve_interf env 1 (cm_db c))))"
      "verify_object cfg env ep ek now g rk anc row c2 = (Ret r, c')" "c2 = c\<lparr>cm_db := ve_interf env 2 (ve_interf env 1 (cm_db c))\<rparr>"
  using assms(1) unfolding verify_cold_def
  apply (simp add: lookup_def get_resolver_def Let_def step_accepted[OF acc] bindS_Inr)
  apply (elim exE conjE)
  subgoal premises p for l bound anc row
    by (rule p(1)[of "rl_resolver_id_key l" anc row "c\<lparr>cm_db := ve_interf env 2 (ve_interf env 1 (cm_db c))\<rparr>"])
      (use p(2-) in \<open>auto dest: find_in_set\<close>)
  done

lemma fail_closed_returns: "\<exists>r c'. fail_closed ek m c = (Ret r, c') \<and> (vr_accepted r \<longrightarrow> m c = (Ret r, c'))"
  by (auto simp: fail_closed_def split: prod.splits sum.splits)

section \<open>Failing closed\<close>

text \<open>One of the registry's answers during a verification is an exception.\<close>

definition registry_fails :: "verify_env \<Rightarrow> bool" where
  "registry_fails env \<longleftrightarrow>
     (\<forall>k. \<exists>e. rv_binding (ve_registry env 0) k = Raise e) \<or> (\<forall>k. \<exists>e. rv_anchor (ve_registry env 1) k = Raise e) \<or>
     (\<forall>k. \<exists>e. rv_root (ve_registry env 2) k = Raise e) \<or> (\<forall>k. \<exists>e. rv_binding (ve_registry env 3) k = Raise e) \<or>
     (\<forall>k. \<exists>e. rv_anchor (ve_registry env 4) k = Raise e) \<or> (\<forall>k. \<exists>e. rv_root (ve_registry env 5) k = Raise e)"

lemma verify_cold_needs_registry:
  assumes "registry_fails env" and "verify_cold cfg env ep ek now g c = (Ret r, c')"
  shows "\<not> vr_accepted r"
proof
  assume acc: "vr_accepted r"
  from assms(2) acc show False
  proof (cases rule: verify_cold_accepts)
    case cold: (1 rk anc row c2)
    from cold(5) acc show False
    proof (cases rule: verify_object_accepts)
      case (1 ob rid proof_row root_status)
      show False using assms(1) cold(1,2) 1(5) registry_unchanged_True[OF 1(10)]
        unfolding registry_fails_def by (metis Inl_Inr_False)
    qed
  qed
qed

lemma refresh_endpoint_runs:
  assumes "normalized ep = Ret n" and "endpoint_lookup_key n = Ret ek" and "gen_is (cm_db c) g"
  shows "refresh_endpoint cfg env ep c = fail_closed ek (verify_cold cfg env n ek (ve_now env) (int g)) c"
  using assms current_generation_is[OF assms(3)] by (simp add: refresh_endpoint_def bindS_eq on_db_def zoomS_def)

text \<open>C30. Verification fails closed: on an endpoint that can be normalized, \<open>refresh_endpoint\<close> always returns a result
  whatever the registry and the index contain, and when any of the six registry reads fails the
  result is a rejection; the same for \<open>verify_endpoint\<close> once the cache has no answer.\<close>

theorem verification_fails_closed:
  assumes "normalized ep = Ret n" and "endpoint_lookup_key n = Ret ek" and "gen_is (cm_db c) g" and "registry_fails env"
  shows "(\<exists>r c'. refresh_endpoint cfg env ep c = (Ret r, c') \<and> \<not> vr_accepted r) \<and>
    (\<forall>c1 g1. get_valid (ve_interf env 0) ek n (ve_now env) c = (Ret None, c1) \<and> gen_is (cm_db c1) g1 \<longrightarrow>
       (\<exists>r c'. verify_endpoint cfg env ep c = (Ret r, c') \<and> \<not> vr_accepted r))"
proof (intro conjI allI impI)
  obtain r c' where r: "fail_closed ek (verify_cold cfg env n ek (ve_now env) (int g)) c = (Ret r, c')"
    "vr_accepted r \<longrightarrow> verify_cold cfg env n ek (ve_now env) (int g) c = (Ret r, c')"
    using fail_closed_returns by blast
  then have "\<not> vr_accepted r" using verify_cold_needs_registry[OF assms(4)] by blast
  then show "\<exists>r c'. refresh_endpoint cfg env ep c = (Ret r, c') \<and> \<not> vr_accepted r"
    using r(1) refresh_endpoint_runs[OF assms(1-3), of cfg env] by auto
next
  fix c1 g1
  assume h: "get_valid (ve_interf env 0) ek n (ve_now env) c = (Ret None, c1) \<and> gen_is (cm_db c1) g1"
  obtain r c' where r: "fail_closed ek (verify_cold cfg env n ek (ve_now env) (int g1)) c1 = (Ret r, c')"
    "vr_accepted r \<longrightarrow> verify_cold cfg env n ek (ve_now env) (int g1) c1 = (Ret r, c')"
    using fail_closed_returns by blast
  have "verify_endpoint cfg env ep c = (Ret r, c')"
    using h assms(1,2) r(1) current_generation_is[of "cm_db c1" g1] by (simp add: verify_endpoint_def bindS_eq on_db_def zoomS_def)
  then show "\<exists>r c'. verify_endpoint cfg env ep c = (Ret r, c') \<and> \<not> vr_accepted r"
    using r(2) verify_cold_needs_registry[OF assms(4)] by blast
qed

definition no_registry :: registry_view where
  "no_registry = \<lparr>rv_binding = (\<lambda>_. Raise (RuntimeError ''connection refused'')), rv_anchor = (\<lambda>_. Raise (RuntimeError ''connection refused'')),
     rv_root = (\<lambda>_. Raise (RuntimeError ''connection refused''))\<rparr>"

definition demo_cfg :: verifier_cfg where
  "demo_cfg = \<lparr>vc_lib = demo_ed25519, vc_policy = policy_default, vc_signature_secret = ''secret'', vc_issuer_keys = None,
     vc_allow_hmac_signatures = True\<rparr>"

definition quiet_env :: "(nat \<Rightarrow> registry_view) \<Rightarrow> int \<Rightarrow> verify_env" where
  "quiet_env reg now = \<lparr>ve_registry = reg, ve_interf = (\<lambda>_ d. d), ve_now = now, ve_store_now = now\<rparr>"

theorem verification_fails_closed_witness:
  "\<exists>r c'. refresh_endpoint demo_cfg (quiet_env (\<lambda>_. no_registry) 0) demo_endpoint demo_cache = (Ret r, c') \<and> \<not> vr_accepted r"
proof -
  have n: "normalized demo_endpoint = Ret demo_endpoint" using demo_endpoint_stable by (simp add: endpoint_stable_def)
  have ek: "endpoint_lookup_key demo_endpoint = Ret (sha256_hex_str (binding_text demo_endpoint))"
    by (simp add: endpoint_lookup_key_def n) (simp add: demo_endpoint_def)
  have g: "gen_is (cm_db demo_cache) 0" by (simp add: demo_cache_def empty_gen)
  have f: "registry_fails (quiet_env (\<lambda>_. no_registry) 0)" by (simp add: registry_fails_def quiet_env_def no_registry_def)
  show ?thesis using verification_fails_closed[OF n ek g f, of demo_cfg] by blast
qed

section \<open>Expiry instants\<close>

lemma dt_ok_min: "dt_ok a \<Longrightarrow> dt_ok b \<Longrightarrow> dt_ok (min a b)"
  by (simp add: dt_ok_def min_def)

text \<open>The expiry instants written into a cache row: both are the instants of the policy rounded down to
  the second, and the hard one is bounded by the object's own end of validity and by the hard
  lifetime, so that a cached acceptance never outlives the object.\<close>

theorem expirations_bounded:
  assumes "expirations p now valid_until = Ret (so, ha)" and "dt_ok valid_until"
  shows "\<exists>soft hard. parse_rfc3339 so = Ret soft \<and> parse_rfc3339 ha = Ret hard \<and>
     soft = (now + po_soft_ttl_seconds p * 1000000) div 1000000 * 1000000 \<and>
     hard = min (now + po_hard_ttl_seconds p * 1000000) valid_until div 1000000 * 1000000 \<and>
     hard \<le> valid_until \<and> hard \<le> now + po_hard_ttl_seconds p * 1000000"
proof -
  have ok: "dt_ok (now + po_soft_ttl_seconds p * 1000000)" "dt_ok (now + po_hard_ttl_seconds p * 1000000)"
    and so: "so = format_rfc3339 (now + po_soft_ttl_seconds p * 1000000)"
    and ha: "ha = format_rfc3339 (min (now + po_hard_ttl_seconds p * 1000000) valid_until)"
    using assms(1) by (auto simp: expirations_def dt_add_def split: if_splits)
  have le: "x div 1000000 * 1000000 \<le> x" for x :: int by (simp add: minus_mod_eq_div_mult[symmetric])
  show ?thesis
    using parse_format_rfc3339[OF ok(1)] parse_format_rfc3339[OF dt_ok_min[OF ok(2) assms(2)]]
      le[of "min (now + po_hard_ttl_seconds p * 1000000) valid_until"] unfolding so ha by auto
qed

theorem expirations_bounded_witness:
  "\<exists>so ha hard. expirations policy_default 1700000000000000 1700000300000000 = Ret (so, ha) \<and>
     parse_rfc3339 ha = Ret hard \<and> hard \<le> 1700000300000000"
proof -
  obtain so ha where e: "expirations policy_default 1700000000000000 1700000300000000 = Ret (so, ha)"
    by (simp add: expirations_def policy_default_def dt_add_def dt_ok_def EPOCH_DAYS_def DAY_US_def)
  moreover have "dt_ok 1700000300000000" by (simp add: dt_ok_def EPOCH_DAYS_def DAY_US_def)
  ultimately show ?thesis using expirations_bounded by blast
qed

end
