(* ===== verification/Publisher.thy ===== *)
theory Publisher
  imports Verifier
begin

text \<open>
  \<open>admin/publisher.py\<close>: an authenticity object is signed, hashed, anchored in the registry and put
  into the index.  The registry is a record of the operations of \<open>RegistryBackend\<close> that the publisher
  calls; \<open>sqlite_ops\<close> is the SQLite backend, which shares the database with the index.
\<close>

section \<open>The registry the publisher calls\<close>

record registry_ops =
  rb_get_root_status :: "string \<Rightarrow> string option dbop"
  rb_publish_root :: "string \<Rightarrow> string \<Rightarrow> unit dbop"
  rb_get_anchor :: "string \<Rightarrow> anchor option dbop"
  rb_publish_resolver :: "string \<Rightarrow> string \<Rightarrow> string \<Rightarrow> int \<Rightarrow> int \<Rightarrow> string \<Rightarrow> unit dbop"
  rb_update_resolver :: "string \<Rightarrow> string \<Rightarrow> string \<Rightarrow> int \<Rightarrow> int \<Rightarrow> string \<Rightarrow> unit dbop"
  rb_bind_endpoint :: "string \<Rightarrow> string \<Rightarrow> unit dbop"
  rb_unbind_endpoint :: "string \<Rightarrow> unit dbop"
  rb_get_endpoint_binding :: "string \<Rightarrow> string option dbop"

definition sqlite_ops :: registry_ops where
  "sqlite_ops = \<lparr>rb_get_root_status = reg_get_root_status, rb_publish_root = (\<lambda>r st. sqlite_publish_root r st 1),
     rb_get_anchor = reg_get_anchor, rb_publish_resolver = sqlite_publish_resolver,
     rb_update_resolver = sqlite_update_resolver, rb_bind_endpoint = reg_bind_endpoint,
     rb_unbind_endpoint = reg_unbind_endpoint, rb_get_endpoint_binding = reg_get_endpoint_binding\<rparr>"

section \<open>AdminPublisher\<close>

record publisher =
  pb_lib :: ed25519
  pb_registry :: registry_ops
  pb_signature_secret :: string
  pb_ed25519_private_key_b64 :: "string option"

definition sign_for :: "publisher \<Rightarrow> jdict \<Rightarrow> string res" where
  "sign_for p unsigned_dict =
     (case pb_ed25519_private_key_b64 p of
        Some k \<Rightarrow> if k \<noteq> [] then sign_object_ed25519 (pb_lib p) unsigned_dict k else Ret (sign_object unsigned_dict (pb_signature_secret p))
      | None \<Rightarrow> Ret (sign_object unsigned_dict (pb_signature_secret p)))"

text \<open>\<open>int(\<dots>.timestamp())\<close>: truncation towards zero; the intermediate floating-point number is exact for
  whole seconds, which is what validity times are.\<close>

definition epoch_seconds :: "int \<Rightarrow> int" where
  "epoch_seconds t = (if 0 \<le> t then t div 1000000 else - ((- t) div 1000000))"

text \<open>The state root: made active unless it is revoked.\<close>

definition ensure_root :: "publisher \<Rightarrow> string \<Rightarrow> unit dbop" where
  "ensure_root p state_root =
     bindS (rb_get_root_status (pb_registry p) state_root) (\<lambda>root_status.
     if root_status = Some ''REVOKED'' then raiseS (ValueError ''cannot reuse a revoked state root'')
     else if root_status \<noteq> Some ''ACTIVE'' then rb_publish_root (pb_registry p) state_root ''ACTIVE'' else retS ())"

text \<open>The anchor: published, updated to a higher version, or already there; the result says whether
  nothing changed.\<close>

definition ensure_anchor :: "publisher \<Rightarrow> string \<Rightarrow> string \<Rightarrow> string \<Rightarrow> int \<Rightarrow> int \<Rightarrow> string \<Rightarrow> bool dbop" where
  "ensure_anchor p rid_key obj_hash state_root object_version valid_until_epoch status =
     bindS (rb_get_anchor (pb_registry p) rid_key) (\<lambda>current.
     case current of
       None \<Rightarrow> seqS (rb_publish_resolver (pb_registry p) rid_key obj_hash state_root object_version valid_until_epoch status) (retS False)
     | Some a \<Rightarrow>
         if an_object_version a = object_version then
           (if an_object_hash a \<noteq> obj_hash \<or> an_state_root a \<noteq> state_root \<or> an_status a \<noteq> status
            then raiseS (ValueError ''resolver object_version already exists with different anchored content'')
            else retS True)
         else if an_object_version a > object_version then raiseS (ValueError ''resolver object_version must increase'')
         else seqS (rb_update_resolver (pb_registry p) rid_key obj_hash state_root object_version valid_until_epoch status) (retS False))"

text \<open>Bindings that the resolver no longer lists are withdrawn.  The set of removed keys is iterated in the order
  of the index rows.\<close>

definition unbind_removed :: "publisher \<Rightarrow> string \<Rightarrow> string list \<Rightarrow> unit dbop" where
  "unbind_removed p rid_key removed = forS removed (\<lambda>key.
     bindS (rb_get_endpoint_binding (pb_registry p) key) (\<lambda>bound.
     if bound = Some rid_key then rb_unbind_endpoint (pb_registry p) key else retS ()))"

definition index_endpoint :: "string \<Rightarrow> endpoint \<times> string \<Rightarrow> unit dbop" where
  "index_endpoint resolver_id = (\<lambda>(ep, key).
     seqS (put_lookup key resolver_id)
     (seqS (if truthy (e_ip ep) then bindS (liftS (bind_res (as_str (e_ip ep)) ip_lookup_key)) (\<lambda>k. put_lookup k resolver_id) else retS ())
     (if truthy (e_server_name ep)
      then bindS (liftS (as_str (e_server_name ep))) (\<lambda>s. put_lookup (name_lookup_key s) resolver_id) else retS ())))"

definition write_index ::
  "auth_object \<Rightarrow> string \<Rightarrow> string \<Rightarrow> string \<Rightarrow> string \<Rightarrow> string \<Rightarrow> jdict \<Rightarrow> (endpoint \<times> string) list \<Rightarrow> string list \<Rightarrow> unit dbop" where
  "write_index ob rid rid_key obj_hash state_root leaf proof endpoint_pairs removed =
     seqS (upsert_resolver_object ob obj_hash state_root)
     (seqS (put_proof rid leaf proof state_root)
     (seqS (forS endpoint_pairs (index_endpoint rid))
     (seqS (forS removed (\<lambda>key. delete_lookup key (Some rid)))
     (seqS (put_lookup rid_key rid)
     (seqS (replace_endpoints rid endpoint_pairs)
     (idx_publish_root state_root ''ACTIVE''))))))"

definition publish :: "publisher \<Rightarrow> auth_object \<Rightarrow> string option \<Rightarrow> jdict dbop" where
  "publish p ob0 state_root0 =
     bindS (liftS (as_str (o_resolver_id ob0))) (\<lambda>rid. let rid_key = resolver_id_key rid in
     bindS (liftS (object_to_dict False ob0)) (\<lambda>unsigned_dict.
     bindS (liftS (sign_for p unsigned_dict)) (\<lambda>signature. let ob = ob0\<lparr>o_signature := JStr signature\<rparr> in
     bindS (liftS (object_to_dict True ob)) (\<lambda>signed_dict. let obj_hash = object_hash signed_dict in
     bindS (liftS (as_str (o_status ob))) (\<lambda>status. let leaf = merkle_leaf rid_key obj_hash (o_object_version ob) status in
     bindS (liftS (build_merkle_proof [leaf] 0)) (\<lambda>proof.
     bindS (case state_root0 of Some r \<Rightarrow> if r \<noteq> [] then retS r else liftS (merkle_root [leaf]) | None \<Rightarrow> liftS (merkle_root [leaf])) (\<lambda>state_root.
     bindS (liftS (map_res (\<lambda>ep. bind_res (endpoint_lookup_key ep) (\<lambda>k. Ret (ep, k))) (o_endpoints ob))) (\<lambda>endpoint_pairs.
     bindS (list_endpoint_keys rid) (\<lambda>previous.
     let removed = filter (\<lambda>k. k \<notin> snd ` set endpoint_pairs) (remdups previous) in
     bindS (liftS (bind_res (as_str (o_valid_until ob)) parse_rfc3339)) (\<lambda>valid_until.
     seqS (ensure_root p state_root)
     (bindS (ensure_anchor p rid_key obj_hash state_root (o_object_version ob) (epoch_seconds valid_until) status) (\<lambda>idempotent.
     seqS (forS endpoint_pairs (\<lambda>(_, key). rb_bind_endpoint (pb_registry p) key rid_key))
     (seqS (unbind_removed p rid_key removed)
     (seqS (write_index ob rid rid_key obj_hash state_root leaf proof endpoint_pairs removed)
     (retS [(''resolver_id'', JStr rid), (''resolver_id_key'', JStr rid_key), (''object_hash'', JStr obj_hash),
            (''leaf_hash'', JStr leaf), (''state_root'', JStr state_root), (''signature'', JStr signature),
            (''idempotent'', JBool idempotent)])))))))))))))))"

section \<open>What each step of a publication leaves alone\<close>

text \<open>The tables of the registry and of the index, as one value each.\<close>

definition registry_part :: "db \<Rightarrow> (string, anchor) dict \<times> (string, string) dict \<times> (string, string) dict" where
  "registry_part d = (t_anchors d, t_bindings d, t_roots d)"

definition index_part :: "db \<Rightarrow> object_row list \<times> endpoint_row list \<times> lookup_row list \<times> proof_row list" where
  "index_part d = (t_resolver_objects d, t_resolver_endpoints d, t_lookup d, t_proofs d)"

lemma audit_record_keeps:
  assumes "\<And>d s l. I (d\<lparr>db_audit_seq := s, t_audit := l\<rparr>) = I d"
  shows "keeps I (audit_record t p)"
  by (rule keepsI) (simp add: audit_record_def assms)

lemma keeps_put_lookup_gen: "(\<And>d x. I (d\<lparr>t_lookup := x\<rparr>) = I d) \<Longrightarrow> keeps I (put_lookup k i)"
  unfolding put_lookup_def by (rule keeps_modS) simp

lemma keeps_case_option: "keeps I m \<Longrightarrow> (\<And>x. keeps I (f x)) \<Longrightarrow> keeps I (case z of None \<Rightarrow> m | Some x \<Rightarrow> f x)"
  by (cases z) auto

lemma keeps_fk_check: "keeps I (fk_check i)"
  unfolding fk_check_def by (intro keeps_bindS keeps_basic keeps_if)

text \<open>The index operations keep whatever does not look at the index and the audit log.\<close>

lemma index_ops_keep:
  assumes a: "\<And>d s l. I (d\<lparr>db_audit_seq := s, t_audit := l\<rparr>) = I d"
    and o: "\<And>d x. I (d\<lparr>t_resolver_objects := x\<rparr>) = I d" and e: "\<And>d x. I (d\<lparr>t_resolver_endpoints := x\<rparr>) = I d"
    and l: "\<And>d x. I (d\<lparr>t_lookup := x\<rparr>) = I d" and p: "\<And>d x. I (d\<lparr>t_proofs := x\<rparr>) = I d"
    and s: "\<And>d x. I (d\<lparr>t_state_roots := x\<rparr>) = I d"
  shows "keeps I (write_index ob rid rk h r leaf pr pairs removed)"
  unfolding write_index_def upsert_resolver_object_def put_proof_def index_endpoint_def put_lookup_def delete_lookup_def
    replace_endpoints_def insert_endpoint_def idx_publish_root_def Let_def split_beta
  by (intro keeps_seqS keeps_bindS keeps_if keeps_basic keeps_sql keeps_fk_check keeps_forS keeps_modS audit_record_keeps)
    (simp_all add: a o e l p s)

lemma write_index_registry:
  assumes "write_index ob rid rk h r leaf pr pairs removed d = (x, d')"
  shows "registry_part d' = registry_part d" "t_runtime d' = t_runtime d" "t_cache d' = t_cache d"
proof -
  have "keeps (\<lambda>u. registry_part u = registry_part d \<and> t_runtime u = t_runtime d \<and> t_cache u = t_cache d)
      (write_index ob rid rk h r leaf pr pairs removed)"
    by (rule index_ops_keep) (simp_all add: registry_part_def)
  from keepsD[OF this, of d] show "registry_part d' = registry_part d" "t_runtime d' = t_runtime d" "t_cache d' = t_cache d"
    using assms by auto
qed

definition pub_sqlite :: "publisher \<Rightarrow> bool" where
  "pub_sqlite p \<longleftrightarrow> pb_registry p = sqlite_ops"

lemmas sqlite_simps = sqlite_ops_def sqlite_publish_root_def sqlite_publish_resolver_def sqlite_update_resolver_def

lemma publish_anchor_run:
  "publish_anchor k h r v u st d = (Ret (), d') \<Longrightarrow>
     - (2 ^ 63) \<le> v \<and> v < 2 ^ 63 \<and> t_anchors d' = dict_set (t_anchors d) k \<lparr>an_resolver_id_key = k, an_object_hash = h, an_state_root = r,
       an_object_version = v, an_valid_until = u, an_status = st\<rparr> \<and>
     t_roots d' = t_roots d \<and> t_runtime d' = t_runtime d"
  by (auto simp: publish_anchor_def seqS_Inr bindS_Inr audit_record_def reg_get_anchor_def sql_int_def split: if_splits)

lemma publish_anchor_raises: "publish_anchor k h r v u st d = (Raise e, d') \<Longrightarrow> d' = d"
  using publish_anchor_cases[of k h r v u st d] by (auto split: if_splits)

text \<open>The anchors of a database only move forward: a resolver keeps an anchor, whose version never
  falls, and while the version stays the anchor stays.\<close>

definition anchors_from :: "(string, anchor) dict \<Rightarrow> db \<Rightarrow> bool" where
  "anchors_from A d \<longleftrightarrow> (\<forall>k a. dict_get A k = Some a \<longrightarrow>
     (\<exists>a'. dict_get (t_anchors d) k = Some a' \<and> an_object_version a \<le> an_object_version a' \<and>
        (an_object_version a' = an_object_version a \<longrightarrow> a' = a)))"

lemma anchors_from_eq: "t_anchors d' = t_anchors d \<Longrightarrow> anchors_from A d' = anchors_from A d"
  by (simp add: anchors_from_def)

lemma ensure_anchor_forward:
  assumes "pub_sqlite p" "anchors_from A d"
  shows "anchors_from A (snd (ensure_anchor p rk h r v u st d))"
proof -
  obtain x d' where run: "ensure_anchor p rk h r v u st d = (x, d')" by fastforce
  have up: "anchors_from A d2" if "publish_anchor rk h r v u st d = (y, d2)"
    "case dict_get (t_anchors d) rk of None \<Rightarrow> True | Some a \<Rightarrow> an_object_version a < v" for y d2
  proof (cases y)
    case (Inl e)
    then show ?thesis using publish_anchor_raises that(1) assms(2) by blast
  next
    case (Inr z)
    then have ta: "t_anchors d2 = dict_set (t_anchors d) rk \<lparr>an_resolver_id_key = rk, an_object_hash = h, an_state_root = r,
       an_object_version = v, an_valid_until = u, an_status = st\<rparr>" using that(1) publish_anchor_run[of rk h r v u st d d2] by simp
    show ?thesis unfolding anchors_from_def ta dict_get_set
    proof (intro allI impI)
      fix k a assume "dict_get A k = Some a"
      then obtain a' where a': "dict_get (t_anchors d) k = Some a'" "an_object_version a \<le> an_object_version a'"
        "an_object_version a' = an_object_version a \<longrightarrow> a' = a" using assms(2) by (auto simp: anchors_from_def)
      then show "\<exists>a'. (if k = rk then Some \<lparr>an_resolver_id_key = rk, an_object_hash = h, an_state_root = r, an_object_version = v,
              an_valid_until = u, an_status = st\<rparr> else dict_get (t_anchors d) k) = Some a' \<and>
          an_object_version a \<le> an_object_version a' \<and> (an_object_version a' = an_object_version a \<longrightarrow> a' = a)"
        using that(2) by (cases "k = rk") auto
    qed
  qed
  show ?thesis
    using assms up by (auto simp: ensure_anchor_def pub_sqlite_def sqlite_simps reg_get_anchor_def seqS_def bindS_def
      split: option.splits if_splits prod.splits sum.splits)
qed

lemma registry_ops_keep:
  assumes "\<And>d s l. I (d\<lparr>db_audit_seq := s, t_audit := l\<rparr>) = I d"
  shows "(\<And>d x. I (d\<lparr>t_roots := x\<rparr>) = I d) \<Longrightarrow> keeps I (reg_publish_root r st)"
    and "(\<And>d x. I (d\<lparr>t_bindings := x\<rparr>) = I d) \<Longrightarrow> keeps I (reg_bind_endpoint k rk)"
    and "(\<And>d x. I (d\<lparr>t_bindings := x\<rparr>) = I d) \<Longrightarrow> keeps I (reg_unbind_endpoint k)"
  unfolding reg_publish_root_def reg_bind_endpoint_def reg_unbind_endpoint_def reg_get_endpoint_binding_def
  by (intro keeps_seqS keeps_bindS keeps_basic keeps_modS audit_record_keeps; simp add: assms)+

lemma ensure_root_keeps:
  assumes "pub_sqlite p" and "\<And>d s l. I (d\<lparr>db_audit_seq := s, t_audit := l\<rparr>) = I d" and "\<And>d x. I (d\<lparr>t_roots := x\<rparr>) = I d"
  shows "keeps I (ensure_root p r)"
proof -
  have "keeps I (reg_publish_root r st)" for st by (rule registry_ops_keep(1)[OF assms(2,3)])
  then show ?thesis using assms(1) unfolding ensure_root_def pub_sqlite_def
    by (simp add: sqlite_simps reg_get_root_status_def keeps_bindS keeps_if)
qed

lemma bind_endpoints_keep:
  assumes "pub_sqlite p" and "\<And>d s l. I (d\<lparr>db_audit_seq := s, t_audit := l\<rparr>) = I d" and "\<And>d x. I (d\<lparr>t_bindings := x\<rparr>) = I d"
  shows "keeps I (forS pairs (\<lambda>(_, key). rb_bind_endpoint (pb_registry p) key rk))" "keeps I (unbind_removed p rk removed)"
proof -
  have "keeps I (reg_bind_endpoint k rk)" "keeps I (reg_unbind_endpoint k)" for k
    by (rule registry_ops_keep(2,3)[OF assms(2,3)])+
  then show "keeps I (forS pairs (\<lambda>(_, key). rb_bind_endpoint (pb_registry p) key rk))" "keeps I (unbind_removed p rk removed)"
    using assms(1) unfolding unbind_removed_def pub_sqlite_def split_beta
    by (auto simp: sqlite_simps reg_get_endpoint_binding_def intro!: keeps_forS keeps_bindS keeps_if)
qed

lemma publish_forward:
  assumes "pub_sqlite p"
  shows "keeps (anchors_from A) (publish p ob r)"
proof -
  have a: "keeps (anchors_from A) (ensure_anchor p rk h sr v u st)" for rk h sr v u st
    by (rule keepsI) (rule ensure_anchor_forward[OF assms])
  have o: "keeps (anchors_from A) (ensure_root p sr)" for sr
    using assms by (rule ensure_root_keeps) (simp_all add: anchors_from_def)
  have b: "keeps (anchors_from A) (forS pairs (\<lambda>(_, key). rb_bind_endpoint (pb_registry p) key rk))"
    "keeps (anchors_from A) (unbind_removed p rk removed)" for pairs rk removed
    using assms by (rule bind_endpoints_keep; simp add: anchors_from_def)+
  have w: "keeps (anchors_from A) (write_index ob' rid rk h sr leaf pr pairs removed)" for ob' rid rk h sr leaf pr pairs removed
    by (rule index_ops_keep) (simp_all add: anchors_from_def)
  show ?thesis
    unfolding publish_def Let_def
    by (intro keeps_bindS keeps_seqS keeps_basic keeps_case_option keeps_if a o b w) (simp add: list_endpoint_keys_def)
qed

lemma anchors_from_self: "anchors_from (t_anchors d) d"
  by (simp add: anchors_from_def)

text \<open>C31. Publishing never rolls a resolver back.  Whatever object is published, and whether the publication
  returns or raises half-way, every resolver that had an anchor still has one, the anchored version has not
  fallen, and an anchor whose version is unchanged is unchanged in every field: a version, once
  anchored, is never re-used for other content.\<close>

theorem publish_never_rolls_back:
  assumes "pb_registry p = sqlite_ops" and "dict_get (t_anchors d) k = Some a"
  shows "\<exists>a'. dict_get (t_anchors (snd (publish p ob state_root d))) k = Some a' \<and>
     an_object_version a \<le> an_object_version a' \<and> (an_object_version a' = an_object_version a \<longrightarrow> a' = a)"
proof -
  have "anchors_from (t_anchors d) (snd (publish p ob state_root d))"
    using keepsD[OF publish_forward anchors_from_self] assms(1) by (simp add: pub_sqlite_def)
  then show ?thesis using assms(2) by (simp add: anchors_from_def)
qed

definition demo_publisher :: publisher where
  "demo_publisher = \<lparr>pb_lib = demo_ed25519, pb_registry = sqlite_ops, pb_signature_secret = ''secret'', pb_ed25519_private_key_b64 = None\<rparr>"

definition demo_anchor :: anchor where
  "demo_anchor = \<lparr>an_resolver_id_key = ''0x11'', an_object_hash = ''0x22'', an_state_root = ''0x33'', an_object_version = 5,
     an_valid_until = 0, an_status = ''ACTIVE''\<rparr>"

theorem publish_never_rolls_back_witness:
  "\<exists>a'. dict_get (t_anchors (snd (publish demo_publisher demo_object None ((empty_db 0)\<lparr>t_anchors := [(''0x11'', demo_anchor)]\<rparr>)))) ''0x11'' = Some a' \<and>
     5 \<le> an_object_version a'"
  using publish_never_rolls_back[of demo_publisher "(empty_db 0)\<lparr>t_anchors := [(''0x11'', demo_anchor)]\<rparr>" "''0x11''" demo_anchor demo_object None]
  by (simp add: demo_publisher_def) (auto simp: demo_anchor_def)

section \<open>A successful publication\<close>

definition lookup_leads :: "string \<Rightarrow> string \<Rightarrow> db \<Rightarrow> bool" where
  "lookup_leads ek rid d \<longleftrightarrow> find (\<lambda>r. rl_lookup_key r = ek) (t_lookup d) =
     Some \<lparr>rl_lookup_key = ek, rl_resolver_id_key = resolver_id_key rid, rl_resolver_id = rid\<rparr>"

lemma put_lookup_leads: "put_lookup k rid d = (Ret (), d') \<Longrightarrow> lookup_leads k rid d'"
  by (auto simp: put_lookup_def lookup_leads_def find_replace)

lemma keeps_put_lookup_leads: "keeps (lookup_leads ek rid) (put_lookup k rid)"
  by (rule keepsI) (cases "k = ek"; simp add: put_lookup_def lookup_leads_def find_replace)

lemma find_delete:
  "k \<noteq> k' \<Longrightarrow> find (\<lambda>r. rl_lookup_key r = k) (filter (\<lambda>r. rl_lookup_key r = k' \<longrightarrow> P r) xs) = find (\<lambda>r. rl_lookup_key r = k) xs"
  by (induction xs) auto

lemma keeps_delete_lookup_leads: "k \<noteq> ek \<Longrightarrow> keeps (lookup_leads ek rid) (delete_lookup k (Some rid))"
  by (rule keepsI) (simp add: delete_lookup_def lookup_leads_def find_delete[where k = ek and k' = k])

lemma keeps_index_endpoint_leads: "keeps (lookup_leads ek rid) (index_endpoint rid q)"
  unfolding index_endpoint_def split_beta
  by (intro keeps_seqS keeps_bindS keeps_if keeps_basic keeps_put_lookup_leads)

lemma seqS_establishes: "seqS a b d = (Ret y, d') \<Longrightarrow> (\<And>x d d'. a d = (Ret x, d') \<Longrightarrow> I d') \<Longrightarrow> keeps I b \<Longrightarrow> I d'"
  by (auto simp: seqS_Inr dest!: keepsD)

lemma index_endpoint_leads: "index_endpoint rid (ep, ek) d = (Ret (), d') \<Longrightarrow> lookup_leads ek rid d'"
  unfolding index_endpoint_def prod.case
  by (erule seqS_establishes) (auto intro!: put_lookup_leads keeps_seqS keeps_bindS keeps_put_lookup_leads keeps_if simp del: runS)

lemma forS_append: "forS (xs @ ys) f = seqS (forS xs f) (forS ys f)"
  by (induction xs) (auto simp: seqS_def bindS_def fun_eq_iff split: prod.splits sum.splits)

lemma forS_establishes:
  assumes "forS xs f d = (Ret (), d')" and "x \<in> set xs"
    and "\<And>d d'. f x d = (Ret (), d') \<Longrightarrow> I d'" and "\<And>y. y \<in> set xs \<Longrightarrow> keeps I (f y)"
  shows "I d'"
proof -
  obtain ys zs where xs: "xs = ys @ x # zs" using assms(2) by (meson split_list)
  obtain d1 d2 where s: "f x d1 = (Ret (), d2)" "forS zs f d2 = (Ret (), d')"
    using assms(1) unfolding xs forS_append by (auto simp: seqS_Inr)
  have "keeps I (forS zs f)" by (rule keeps_forS) (simp add: assms(4) xs)
  from keepsD[OF this assms(3)[OF s(1)]] show ?thesis using s(2) by simp
qed

lemma index_writes_keep:
  assumes a: "\<And>d s l. I (d\<lparr>db_audit_seq := s, t_audit := l\<rparr>) = I d"
  shows "(\<And>d x. I (d\<lparr>t_proofs := x\<rparr>) = I d) \<Longrightarrow> keeps I (put_proof i l q r)"
    and "(\<And>d x. I (d\<lparr>t_resolver_endpoints := x\<rparr>) = I d) \<Longrightarrow> keeps I (replace_endpoints i pairs)"
    and "(\<And>d x. I (d\<lparr>t_state_roots := x\<rparr>) = I d) \<Longrightarrow> keeps I (idx_publish_root r st)"
    and "(\<And>d x. I (d\<lparr>t_lookup := x\<rparr>) = I d) \<Longrightarrow> keeps I (put_lookup k i)"
    and "(\<And>d x. I (d\<lparr>t_lookup := x\<rparr>) = I d) \<Longrightarrow> keeps I (delete_lookup k (Some i))"
    and "(\<And>d x. I (d\<lparr>t_lookup := x\<rparr>) = I d) \<Longrightarrow> keeps I (index_endpoint i pair)"
  unfolding put_proof_def replace_endpoints_def insert_endpoint_def idx_publish_root_def put_lookup_def delete_lookup_def index_endpoint_def split_beta
  by (intro keeps_seqS keeps_bindS keeps_if keeps_basic keeps_fk_check keeps_forS keeps_modS audit_record_keeps; simp add: a)+

lemma put_proof_run:
  "put_proof i l q r d = (Ret (), d') \<Longrightarrow>
     find (\<lambda>x. rp_resolver_id x = i) (t_proofs d') = Some \<lparr>rp_resolver_id = i, rp_leaf_hash = l, rp_proof_json = q, rp_state_root = r\<rparr>"
  by (auto simp: put_proof_def seqS_Inr audit_record_def find_replace)

lemma write_index_run:
  assumes run: "write_index ob rid rk h r leaf pr pairs removed d = (Ret (), d')"
    and rid: "o_resolver_id ob = JStr rid" and key: "(ep, ek) \<in> set pairs" and rem: "ek \<notin> set removed"
  shows "lookup_leads ek rid d'"
    and "\<exists>row. find (\<lambda>x. ro_resolver_id x = rid) (t_resolver_objects d') = Some row \<and> ro_object_hash row = h \<and>
       object_to_dict True ob = Ret (ro_object_json row)"
    and "find (\<lambda>x. rp_resolver_id x = rid) (t_proofs d') = Some \<lparr>rp_resolver_id = rid, rp_leaf_hash = leaf, rp_proof_json = pr, rp_state_root = r\<rparr>"
    and "- (2 ^ 63) \<le> o_object_version ob" and "o_object_version ob < 2 ^ 63"
proof -
  let ?m6 = "idx_publish_root r ''ACTIVE''"
  let ?m5 = "seqS (replace_endpoints rid pairs) ?m6"
  let ?m4 = "seqS (put_lookup rk rid) ?m5"
  let ?m3 = "seqS (forS removed (\<lambda>key. delete_lookup key (Some rid))) ?m4"
  let ?m2 = "seqS (forS pairs (index_endpoint rid)) ?m3"
  obtain d1 d2 d3 where s1: "upsert_resolver_object ob h r d = (Ret (), d1)" and s2: "put_proof rid leaf pr r d1 = (Ret (), d2)"
    and s3: "forS pairs (index_endpoint rid) d2 = (Ret (), d3)" and s4: "?m3 d3 = (Ret (), d')" and s34: "?m2 d2 = (Ret (), d')"
    using run by (auto simp: write_index_def seqS_Inr)
  have k3: "keeps (lookup_leads ek rid) ?m3"
    using rem by (intro keeps_seqS keeps_forS keeps_delete_lookup_leads keeps_put_lookup_leads index_writes_keep)
      (auto simp: lookup_leads_def)
  have "lookup_leads ek rid d3"
    by (rule forS_establishes[OF s3 key]) (auto intro: index_endpoint_leads keeps_index_endpoint_leads)
  from keepsD[OF k3 this] s4 show "lookup_leads ek rid d'" by simp
  have k2: "keeps (\<lambda>u. t_proofs u = t_proofs d2) ?m2" "keeps (\<lambda>u. t_resolver_objects u = X) ?m2" for X
    by (intro keeps_seqS keeps_forS index_writes_keep; simp)+
  from keepsD[OF k2(1)] s34 put_proof_run[OF s2]
  show "find (\<lambda>x. rp_resolver_id x = rid) (t_proofs d') = Some \<lparr>rp_resolver_id = rid, rp_leaf_hash = leaf, rp_proof_json = pr, rp_state_root = r\<rparr>"
    by fastforce
  have "keeps (\<lambda>u. t_resolver_objects u = t_resolver_objects d1) (put_proof rid leaf pr r)" by (rule index_writes_keep) simp_all
  then have "t_resolver_objects d2 = t_resolver_objects d1" using keepsD s2 by fastforce
  with keepsD[OF k2(2)[of "t_resolver_objects d1"]] s34 have ro: "t_resolver_objects d' = t_resolver_objects d1" by fastforce
  obtain i oj where u: "o_resolver_id ob = JStr i" "object_to_dict True ob = Ret oj"
      "find (\<lambda>x. ro_resolver_id x = i) (t_resolver_objects d1) = Some
         \<lparr>ro_resolver_id = i, ro_resolver_id_key = resolver_id_key i, ro_object_json = oj, ro_object_hash = h,
             ro_object_version = o_object_version ob, ro_status = o_status ob, ro_valid_from = o_valid_from ob,
             ro_valid_until = o_valid_until ob, ro_state_root = r, ro_issuer = o_issuer ob, ro_key_id = o_key_id ob\<rparr>"
      and rng: "- (2 ^ 63) \<le> o_object_version ob" "o_object_version ob < 2 ^ 63"
    using s1
    by (auto simp: upsert_resolver_object_def Let_def seqS_Inr bindS_Inr find_upsert_row audit_record_def sql_int_def dest!: sql_state split: if_splits)
  show "- (2 ^ 63) \<le> o_object_version ob" "o_object_version ob < 2 ^ 63" using rng .
  show "\<exists>row. find (\<lambda>x. ro_resolver_id x = rid) (t_resolver_objects d') = Some row \<and> ro_object_hash row = h \<and>
       object_to_dict True ob = Ret (ro_object_json row)" using u rid ro by auto
qed

lemma ensure_root_run:
  assumes "pub_sqlite p" "ensure_root p r d = (Ret (), d')"
  shows "dict_get (t_roots d') r = Some ''ACTIVE''" "t_runtime d' = t_runtime d"
  using assms by (auto simp: ensure_root_def pub_sqlite_def sqlite_simps reg_get_root_status_def reg_publish_root_def audit_record_def split: if_splits)

lemma ensure_anchor_run:
  assumes "pub_sqlite p" "ensure_anchor p rk h r v u st d = (Ret idem, d')"
  shows "\<exists>a. dict_get (t_anchors d') rk = Some a \<and> an_object_hash a = h \<and> an_state_root a = r \<and> an_object_version a = v \<and> an_status a = st"
    and "t_roots d' = t_roots d" "t_runtime d' = t_runtime d"
proof -
  have pub: "t_roots d2 = t_roots d \<and> t_runtime d2 = t_runtime d \<and> (\<exists>a. dict_get (t_anchors d2) rk = Some a \<and> an_object_hash a = h \<and>
      an_state_root a = r \<and> an_object_version a = v \<and> an_status a = st)"
    if "publish_anchor rk h r v u st d = (Ret (), d2)" for d2
    using publish_anchor_run[OF that] by simp
  show "\<exists>a. dict_get (t_anchors d') rk = Some a \<and> an_object_hash a = h \<and> an_state_root a = r \<and> an_object_version a = v \<and> an_status a = st"
    "t_roots d' = t_roots d" "t_runtime d' = t_runtime d"
    using assms pub by (auto simp: ensure_anchor_def pub_sqlite_def sqlite_simps reg_get_anchor_def seqS_Inr split: option.splits if_splits)
qed

lemma bindings_run:
  assumes "pub_sqlite p" and "forS pairs (\<lambda>(_, key). rb_bind_endpoint (pb_registry p) key rk) d = (Ret (), d1)"
    and "unbind_removed p rk removed d1 = (Ret (), d')" and "(ep, ek) \<in> set pairs" and "ek \<notin> set removed"
  shows "dict_get (t_bindings d') ek = Some rk" "t_anchors d' = t_anchors d" "t_roots d' = t_roots d" "t_runtime d' = t_runtime d"
proof -
  let ?I = "\<lambda>d. dict_get (t_bindings d) ek = Some rk"
  have "?I d1"
    by (rule forS_establishes[OF assms(2,4)])
      (use assms(1) in \<open>auto simp: pub_sqlite_def sqlite_simps reg_bind_endpoint_def audit_record_def intro!: keepsI\<close>)
  moreover have "keeps ?I (unbind_removed p rk removed)"
    unfolding unbind_removed_def
    by (rule keeps_forS, rule keepsI)
      (use assms(1,5) in \<open>auto simp: pub_sqlite_def sqlite_simps reg_unbind_endpoint_def reg_get_endpoint_binding_def audit_record_def\<close>)
  ultimately show "dict_get (t_bindings d') ek = Some rk" using assms(3) keepsD by fastforce
  let ?J = "\<lambda>u. t_anchors u = t_anchors d \<and> t_roots u = t_roots d \<and> t_runtime u = t_runtime d"
  have k: "keeps ?J (forS pairs (\<lambda>(_, key). rb_bind_endpoint (pb_registry p) key rk))" "keeps ?J (unbind_removed p rk removed)"
    using assms(1) by (rule bind_endpoints_keep; simp)+
  have "?J d1" using keepsD[OF k(1), of d] assms(2) by simp
  then have "?J d'" using keepsD[OF k(2), of d1] assms(3) by simp
  then show "t_anchors d' = t_anchors d" "t_roots d' = t_roots d" "t_runtime d' = t_runtime d" by auto
qed

text \<open>What a database holds for a resolver and one of its endpoints after the object was published.\<close>

definition published :: "auth_object \<Rightarrow> jdict \<Rightarrow> string \<Rightarrow> string \<Rightarrow> string \<Rightarrow> jdict \<Rightarrow> string \<Rightarrow> db \<Rightarrow> bool" where
  "published ob obj_dict rid leaf root pr ek d \<longleftrightarrow>
     object_to_dict True ob = Ret obj_dict \<and> - (2 ^ 63) \<le> o_object_version ob \<and> o_object_version ob < 2 ^ 63 \<and>
     lookup_leads ek rid d \<and> dict_get (t_bindings d) ek = Some (resolver_id_key rid) \<and>
     (\<exists>a. dict_get (t_anchors d) (resolver_id_key rid) = Some a \<and> an_object_hash a = object_hash obj_dict \<and> an_state_root a = root \<and>
        an_object_version a = o_object_version ob \<and> an_status a = ''ACTIVE'') \<and>
     dict_get (t_roots d) root = Some ''ACTIVE'' \<and>
     (\<exists>row. find (\<lambda>x. ro_resolver_id x = rid) (t_resolver_objects d) = Some row \<and> ro_object_hash row = object_hash obj_dict \<and>
        ro_object_json row = obj_dict) \<and>
     find (\<lambda>x. rp_resolver_id x = rid) (t_proofs d) = Some \<lparr>rp_resolver_id = rid, rp_leaf_hash = leaf, rp_proof_json = pr, rp_state_root = root\<rparr>"

lemma pairs_lookup:
  "map_res (\<lambda>ep. bind_res (endpoint_lookup_key ep) (\<lambda>k. Ret (ep, k))) eps = Ret pairs \<Longrightarrow> ep \<in> set eps \<Longrightarrow>
     endpoint_lookup_key ep = Ret ek \<Longrightarrow> (ep, ek) \<in> set pairs"
  by (induction eps arbitrary: pairs) auto

lemma publish_published:
  assumes "publish p ob0 None d = (Ret out, d')" and "pub_sqlite p" and "o_resolver_id ob0 = JStr rid" and "o_status ob0 = JStr ''ACTIVE''"
    and "ep \<in> set (o_endpoints ob0)" and "endpoint_lookup_key ep = Ret ek"
  shows "\<exists>un sg obj_dict leaf root pr. object_to_dict False ob0 = Ret un \<and> sign_for p un = Ret sg \<and>
     leaf = merkle_leaf (resolver_id_key rid) (object_hash obj_dict) (o_object_version ob0) ''ACTIVE'' \<and>
     build_merkle_proof [leaf] 0 = Ret pr \<and> merkle_root [leaf] = Ret root \<and>
     published (ob0\<lparr>o_signature := JStr sg\<rparr>) obj_dict rid leaf root pr ek d' \<and> t_runtime d' = t_runtime d"
proof -
  obtain un sg sd pr root pairs prev vu idem d1 d2 d3 d4 where
      un: "object_to_dict False ob0 = Ret un" "sign_for p un = Ret sg" "object_to_dict True (ob0\<lparr>o_signature := JStr sg\<rparr>) = Ret sd"
    and pr: "build_merkle_proof [merkle_leaf (resolver_id_key rid) (object_hash sd) (o_object_version ob0) ''ACTIVE''] 0 = Ret pr"
    and root: "merkle_root [merkle_leaf (resolver_id_key rid) (object_hash sd) (o_object_version ob0) ''ACTIVE''] = Ret root"
    and pairs: "map_res (\<lambda>ep. bind_res (endpoint_lookup_key ep) (\<lambda>k. Ret (ep, k))) (o_endpoints ob0) = Ret pairs"
    and s1: "ensure_root p root d = (Ret (), d1)"
    and s2: "ensure_anchor p (resolver_id_key rid) (object_hash sd) root (o_object_version ob0) vu ''ACTIVE'' d1 = (Ret idem, d2)"
    and s3: "forS pairs (\<lambda>(_, key). rb_bind_endpoint (pb_registry p) key (resolver_id_key rid)) d2 = (Ret (), d3)"
    and s4: "unbind_removed p (resolver_id_key rid) (filter (\<lambda>k. k \<notin> snd ` set pairs) (remdups prev)) d3 = (Ret (), d4)"
    and s5: "write_index (ob0\<lparr>o_signature := JStr sg\<rparr>) rid (resolver_id_key rid) (object_hash sd) root
       (merkle_leaf (resolver_id_key rid) (object_hash sd) (o_object_version ob0) ''ACTIVE'') pr pairs
       (filter (\<lambda>k. k \<notin> snd ` set pairs) (remdups prev)) d4 = (Ret (), d')"
    using assms(1,3,4) unfolding publish_def Let_def
    by (simp add: list_endpoint_keys_def seqS_Inr bindS_Inr) blast
  have k: "(ep, ek) \<in> set pairs" by (rule pairs_lookup[OF pairs assms(5,6)])
  then have nr: "ek \<notin> set (filter (\<lambda>k. k \<notin> snd ` set pairs) (remdups prev))" by force
  note w = write_index_run[OF s5 _ k nr] and reg = write_index_registry[OF s5] and b = bindings_run[OF assms(2) s3 s4 k nr]
  have "registry_part d' = registry_part d4" by (rule reg(1))
  then have "published (ob0\<lparr>o_signature := JStr sg\<rparr>) sd rid (merkle_leaf (resolver_id_key rid) (object_hash sd) (o_object_version ob0) ''ACTIVE'') root pr ek d'"
    using un(3) w b ensure_anchor_run[OF assms(2) s2] ensure_root_run[OF assms(2) s1] assms(3)
    unfolding published_def registry_part_def by auto
  moreover have "t_runtime d' = t_runtime d"
    using reg(2) b(4) ensure_anchor_run(3)[OF assms(2) s2] ensure_root_run(2)[OF assms(2) s1] by simp
  ultimately show ?thesis using un pr root by blast
qed

section \<open>From publication to verification\<close>

lemma object_to_dict_signed:
  assumes "object_to_dict False ob = Ret un"
  shows "object_to_dict True (ob\<lparr>o_signature := JStr s\<rparr>) = Ret (dict_set un ''signature'' (JStr s))"
  using assms by (auto simp: object_to_dict_def)

text \<open>The verifier trusts the publisher's signatures: they share the HMAC secret, or the publisher's Ed25519
  key is registered for the object's issuer and key id.\<close>

definition signer_trusted :: "verifier_cfg \<Rightarrow> publisher \<Rightarrow> auth_object \<Rightarrow> bool" where
  "signer_trusted cfg p ob \<longleftrightarrow>
     (pb_ed25519_private_key_b64 p = None \<and> vc_allow_hmac_signatures cfg \<and> vc_signature_secret cfg = pb_signature_secret p) \<or>
     (\<exists>sk keys k. pb_ed25519_private_key_b64 p = Some (b64encode sk) \<and> b64encode sk \<noteq> [] \<and> pb_lib p = vc_lib cfg \<and>
        ed25519_correct (vc_lib cfg) \<and> ed_private_ok (vc_lib cfg) sk \<and> vc_issuer_keys cfg = Some keys \<and>
        registry_get keys (o_issuer ob) (o_key_id ob) = Ret (Some k) \<and> ik_algorithm k = JStr ''ed25519'' \<and>
        ik_public_key k = JStr (b64encode (ed_public (vc_lib cfg) sk)))"

lemma object_dict_fields:
  assumes "object_to_dict False ob = Ret un"
  shows "jget un ''issuer'' w = o_issuer ob" "jget un ''key_id'' w = o_key_id ob"
  using assms by (auto simp: object_to_dict_def)

lemma trusted_signature_verifies:
  assumes "signer_trusted cfg p ob" and "object_to_dict False ob = Ret un" and "sign_for p un = Ret sg"
  shows "verify_object_signature_with_registry (vc_lib cfg) (dict_set un ''signature'' (JStr sg)) (vc_issuer_keys cfg)
    (if vc_allow_hmac_signatures cfg then Some (vc_signature_secret cfg) else None) = Ret True"
proof -
  let ?d = "dict_set un ''signature'' (JStr sg)"
  consider (hmac) "pb_ed25519_private_key_b64 p = None" "vc_allow_hmac_signatures cfg" "vc_signature_secret cfg = pb_signature_secret p"
    | (ed) sk keys k where "pb_ed25519_private_key_b64 p = Some (b64encode sk)" "b64encode sk \<noteq> []" "pb_lib p = vc_lib cfg"
        "ed25519_correct (vc_lib cfg)" "ed_private_ok (vc_lib cfg) sk" "vc_issuer_keys cfg = Some keys"
        "registry_get keys (o_issuer ob) (o_key_id ob) = Ret (Some k)" "ik_algorithm k = JStr ''ed25519''"
        "ik_public_key k = JStr (b64encode (ed_public (vc_lib cfg) sk))"
    using assms(1) unfolding signer_trusted_def
    apply (elim disjE exE conjE)
    subgoal by (rule that(1))
    subgoal for sk keys k by (rule that(2)[of sk keys k])
    done
  then show ?thesis
  proof cases
    case hmac
    have sg: "sg = sign_object_hmac un (pb_signature_secret p)" using assms(3) hmac(1) by (simp add: sign_for_def sign_object_def)
    have "verify_object_signature ?d (pb_signature_secret p) = Ret True" by (simp add: verify_object_signature_True sg)
    moreover have "starts_with sg HMAC_PREFIX" by (simp add: sg sign_object_hmac_def)
    ultimately show ?thesis using hmac(2,3) by (simp add: verify_object_signature_with_registry_def)
  next
    case ed
    have sg: "sg = sign_object_ed25519_key (vc_lib cfg) un sk"
      using assms(3) ed(1-5) by (simp add: sign_for_def sign_object_ed25519_def sign_object_ed25519_key_def b64decode_encode)
    have chk: "ed25519_check (vc_lib cfg) (ik_public_key k) sg (canonical_json_bytes (JObj ?d))"
      using ed25519_check_signed[OF ed(4,5), of un] by (simp add: sg ed(9))
    have pre: "starts_with sg ED25519_PREFIX" "\<not> starts_with sg HMAC_PREFIX"
      by (simp_all add: sg sign_object_ed25519_key_def prefixes_apart)
    have low: "py_lower ''ed25519'' = ''ed25519''" by code_simp
    show ?thesis
      using pre chk ed(6-8) low by (simp add: verify_object_signature_with_registry_def object_dict_fields[OF assms(2)])
  qed
qed

lemma single_leaf_proof:
  assumes "build_merkle_proof [leaf] 0 = Ret pr" and "merkle_root [leaf] = Ret root" and "py_lower leaf = leaf" "leaf \<noteq> []"
  shows "bound_failure_reason (Some (proof_row_dict \<lparr>rp_resolver_id = rid, rp_leaf_hash = leaf, rp_proof_json = pr, rp_state_root = root\<rparr>))
     (Some ''ACTIVE'') (Some root) leaf = Ret None"
proof -
  have root: "root = leaf" using assms(2,3) by (simp add: merkle_root_def merkle_reduce.simps)
  have pr: "pr = [(''leaf_hash'', JStr leaf), (''siblings'', JArr []), (''root'', JStr leaf)]"
    using assms(1,3) by (simp add: build_merkle_proof_def merkle_proof_loop.simps)
  have v: "verify_merkle_proof leaf pr root = Ret True" by (simp add: verify_merkle_proof_def pr root assms(3))
  have f: "failure_reason (Some (proof_row_dict \<lparr>rp_resolver_id = rid, rp_leaf_hash = leaf, rp_proof_json = pr, rp_state_root = root\<rparr>))
     (Some ''ACTIVE'') (Some root) = Ret None"
    using v assms(4) by (simp add: failure_reason_def proof_row_dict_def jor_def) (simp add: pr root)
  then show ?thesis using v assms(3,4)
    by (simp add: bound_failure_reason_def proof_row_dict_def jor_def first_mismatch_def text_mismatch_def) (simp add: pr root)
qed

lemma any_res_total:
  "(\<And>x. x \<in> set xs \<Longrightarrow> \<exists>b. f x = Ret b) \<Longrightarrow> x \<in> set xs \<Longrightarrow> f x = Ret True \<Longrightarrow> any_res f xs = Ret True"
proof (induction xs)
  case (Cons y ys)
  obtain b where "f y = Ret b" using Cons.prems(1) by auto
  then show ?case using Cons by (cases b) auto
qed simp

lemma bindS_on_db_getS [simp]: "bindS (on_db (getS f)) k c = k (f (cm_db c)) c"
  by (simp add: bindS_def)

lemma quiet_env_sel [simp]:
  "ve_registry (quiet_env reg now) = reg" "ve_interf (quiet_env reg now) = (\<lambda>_ d. d)" "ve_now (quiet_env reg now) = now"
  "ve_store_now (quiet_env reg now) = now"
  by (simp_all add: quiet_env_def)

lemma db_view_sel [simp]:
  "rv_binding (db_view d) k = Ret (dict_get (t_bindings d) k)" "rv_anchor (db_view d) k = Ret (dict_get (t_anchors d) k)"
  "rv_root (db_view d) r = Ret (dict_get (t_roots d) r)"
  by (simp_all add: db_view_def)

lemma stable_matches_total: "endpoint_stable a \<Longrightarrow> endpoint_stable b \<Longrightarrow> \<exists>r. matches a b = Ret r"
  by (auto simp: endpoint_stable_def matches_Inr)

lemma check_object_semantics_signature [simp]:
  "check_object_semantics po (ob\<lparr>o_signature := s\<rparr>) now = check_object_semantics po ob now"
  by (simp add: check_object_semantics_def cong: if_cong)

lemma published_cold:
  assumes pub: "published (ob\<lparr>o_signature := JStr sg\<rparr>) (dict_set un ''signature'' (JStr sg)) rid leaf root pr ek (cm_db c)"
    and un: "object_to_dict False ob = Ret un" "sign_for p un = Ret sg" and st: "object_stable ob"
    and leaf: "leaf = merkle_leaf (resolver_id_key rid) (object_hash (dict_set un ''signature'' (JStr sg))) (o_object_version ob) ''ACTIVE''"
    and pr: "build_merkle_proof [leaf] 0 = Ret pr" "merkle_root [leaf] = Ret root"
    and ob: "o_resolver_id ob = JStr rid" "signer_trusted cfg p ob" "check_object_semantics (vc_policy cfg) ob now = Ret None"
    and ep: "ep \<in> set (o_endpoints ob)" "truthy (e_ip ep) \<or> truthy (e_server_name ep) \<or> truthy (e_uri ep)"
    and ttl: "dt_ok (now + po_soft_ttl_seconds (vc_policy cfg) * 1000000)" "dt_ok (now + po_hard_ttl_seconds (vc_policy cfg) * 1000000)"
    and gen: "gen_is (cm_db c) g"
  shows "\<exists>r c'. verify_cold cfg (quiet_env (\<lambda>_. db_view (cm_db c)) now) ep ek now (int g) c = (Ret r, c') \<and> vr_accepted r \<and>
     vr_resolver_id r = JStr rid"
proof -
  let ?d = "dict_set un ''signature'' (JStr sg)" and ?o = "ob\<lparr>o_signature := JStr sg\<rparr>"
  have os: "object_stable ?o" using st by (simp add: object_stable_def)
  have fd: "object_from_dict ?d = Ret ?o"
    using object_to_dict_stable[OF os, of True] object_to_dict_signed[OF un(1)] by auto
  obtain a where a: "dict_get (t_anchors (cm_db c)) (resolver_id_key rid) = Some a" "an_object_hash a = object_hash ?d" "an_state_root a = root"
      "an_object_version a = o_object_version ob" "an_status a = ''ACTIVE''"
    using pub by (auto simp: published_def)
  obtain row where row: "find (\<lambda>x. ro_resolver_id x = rid) (t_resolver_objects (cm_db c)) = Some row" "ro_object_hash row = object_hash ?d" "ro_object_json row = ?d"
    using pub by (auto simp: published_def)
  have lk: "find (\<lambda>r. rl_lookup_key r = ek) (t_lookup (cm_db c)) =
     Some \<lparr>rl_lookup_key = ek, rl_resolver_id_key = resolver_id_key rid, rl_resolver_id = rid\<rparr>"
    "dict_get (t_bindings (cm_db c)) ek = Some (resolver_id_key rid)" "dict_get (t_roots (cm_db c)) root = Some ''ACTIVE''"
    "find (\<lambda>x. rp_resolver_id x = rid) (t_proofs (cm_db c)) = Some \<lparr>rp_resolver_id = rid, rp_leaf_hash = leaf, rp_proof_json = pr, rp_state_root = root\<rparr>"
    "- (2 ^ 63) \<le> o_object_version ob" "o_object_version ob < 2 ^ 63"
    using pub by (auto simp: published_def lookup_leads_def)
  have sig: "verify_object_signature_with_registry (vc_lib cfg) ?d (vc_issuer_keys cfg)
    (if vc_allow_hmac_signatures cfg then Some (vc_signature_secret cfg) else None) = Ret True"
    by (rule trusted_signature_verifies[OF ob(2) un])
  have prv: "bound_failure_reason (Some (proof_row_dict \<lparr>rp_resolver_id = rid, rp_leaf_hash = leaf, rp_proof_json = pr, rp_state_root = root\<rparr>))
     (Some ''ACTIVE'') (Some root) leaf = Ret None"
    by (rule single_leaf_proof[OF pr]) (simp_all add: leaf merkle_leaf_def)
  note sem = check_object_semantics_None[OF ob(3)]
  obtain vut vu where vu: "o_valid_until ob = JStr vut" "parse_rfc3339 vut = Ret vu" using sem by blast
  obtain so ha where ex: "expirations (vc_policy cfg) now vu = Ret (so, ha)" using ttl by (simp add: expirations_def dt_add_def)
  have stab: "endpoint_stable e" if "e \<in> set (o_endpoints ob)" for e using st that by (simp add: object_stable_def)
  have mat: "any_res (\<lambda>candidate. matches candidate ep) (o_endpoints ob) = Ret True"
    by (rule any_res_total[OF _ ep(1)]) (use stab ep in \<open>auto intro: stable_matches_total matches_self\<close>)
  have unch: "registry_unchanged (quiet_env (\<lambda>_. db_view (cm_db c)) now) ek (resolver_id_key rid) (object_hash ?d) (o_object_version ob) root = Ret True"
    by (simp add: registry_unchanged_def lk a)
  obtain k where k: "trusted_cache_key ep rid (Some (o_object_version ob)) = Ret k"
    using trusted_cache_key_total[of ep ep ep] stab[OF ep(1)] by (auto simp: endpoint_stable_def)
  let ?ev = "verification_evidence ek (resolver_id_key rid) (object_hash ?d) ?o a (Some ''ACTIVE'')"
  obtain c' where sv: "store_verified ek rid ep (object_hash ?d) (o_object_version ob) root so ha ?ev (Some (int g)) now c = (Ret True, c')"
    using store_verified_stores[OF gen stab[OF ep(1)] k lk(5,6) refl] by blast
  have "\<exists>r c'. verify_object cfg (quiet_env (\<lambda>_. db_view (cm_db c)) now) ep ek now (int g) (resolver_id_key rid) a row c = (Ret r, c') \<and> vr_accepted r \<and>
     vr_resolver_id r = JStr rid"
    unfolding verify_object_def Let_def row(2,3) fd
    using ob sig prv sem vu ex mat unch sv a lk
    by (simp add: leaf[symmetric] get_proof_def bindS_eq)
  then show ?thesis
    unfolding verify_cold_def by (simp add: lookup_def get_resolver_def lk a row(1) Let_def)
qed

text \<open>C3. What is published is verified.  After \<open>publish\<close> returned for an object in canonical form that is in force,
  a verifier that reads the same database and trusts the publisher's signature accepts each endpoint the
  object lists, and names the resolver: hashing, signing, anchoring, indexing and the Merkle proof on the one
  side fit the checks on the other.\<close>

theorem published_endpoint_verifies:
  assumes "publish p ob None d = (Ret out, cm_db c)" and "pb_registry p = sqlite_ops" and "object_stable ob"
    and "o_resolver_id ob = JStr rid" and "signer_trusted cfg p ob" and "check_object_semantics (vc_policy cfg) ob now = Ret None"
    and "ep \<in> set (o_endpoints ob)" and "truthy (e_ip ep) \<or> truthy (e_server_name ep) \<or> truthy (e_uri ep)"
    and "dt_ok (now + po_soft_ttl_seconds (vc_policy cfg) * 1000000)" and "dt_ok (now + po_hard_ttl_seconds (vc_policy cfg) * 1000000)"
    and "gen_is d g"
  shows "\<exists>r c'. refresh_endpoint cfg (quiet_env (\<lambda>_. db_view (cm_db c)) now) ep c = (Ret r, c') \<and> vr_accepted r \<and>
     vr_resolver_id r = JStr rid"
proof -
  have st: "endpoint_stable ep" using assms(3,7) by (simp add: object_stable_def)
  then have n: "normalized ep = Ret ep" by (simp add: endpoint_stable_def)
  obtain ek where ek: "endpoint_lookup_key ep = Ret ek" using endpoint_lookup_key_stable[OF st] assms(8) by simp
  have act: "o_status ob = JStr ''ACTIVE''" using check_object_semantics_None[OF assms(6)] by blast
  obtain un sg obj_dict leaf root pr where u: "object_to_dict False ob = Ret un" "sign_for p un = Ret sg"
    "leaf = merkle_leaf (resolver_id_key rid) (object_hash obj_dict) (o_object_version ob) ''ACTIVE''"
    "build_merkle_proof [leaf] 0 = Ret pr" "merkle_root [leaf] = Ret root"
    "published (ob\<lparr>o_signature := JStr sg\<rparr>) obj_dict rid leaf root pr ek (cm_db c)" "t_runtime (cm_db c) = t_runtime d"
    using publish_published[OF assms(1) _ assms(4) act assms(7) ek] assms(2) by (auto simp: pub_sqlite_def)
  have od: "obj_dict = dict_set un ''signature'' (JStr sg)"
    using u(6) object_to_dict_signed[OF u(1)] by (simp add: published_def)
  have gen: "gen_is (cm_db c) g" using assms(11) u(7) by (simp add: gen_is_def)
  obtain r c' where r: "verify_cold cfg (quiet_env (\<lambda>_. db_view (cm_db c)) now) ep ek now (int g) c = (Ret r, c')" "vr_accepted r"
     "vr_resolver_id r = JStr rid"
    using published_cold[OF u(6)[unfolded od] u(1,2) assms(3) u(3)[unfolded od] u(4,5) assms(4-10) gen] by blast
  then show ?thesis using refresh_endpoint_runs[OF n ek gen] by (simp add: fail_closed_def)
qed

section \<open>A publication that returns\<close>

lemma publish_anchor_keeps:
  assumes "\<And>d s l. I (d\<lparr>db_audit_seq := s, t_audit := l\<rparr>) = I d" and "\<And>d x. I (d\<lparr>t_anchors := x\<rparr>) = I d"
  shows "keeps I (publish_anchor k h r v u st)"
  unfolding publish_anchor_def reg_get_anchor_def
  by (intro keeps_seqS keeps_bindS keeps_basic keeps_sql keeps_modS audit_record_keeps; simp add: assms)

lemma publish_cache: "pub_sqlite p \<Longrightarrow> keeps (\<lambda>d. t_cache d = C) (publish p ob r)"
proof -
  assume p: "pub_sqlite p"
  have k: "keeps (\<lambda>d. t_cache d = C) (publish_anchor rk h sr v u st)" for rk h sr v u st
    by (rule publish_anchor_keeps) simp_all
  have a: "keeps (\<lambda>d. t_cache d = C) (ensure_anchor p rk h sr v u st)" for rk h sr v u st
    using p k unfolding ensure_anchor_def pub_sqlite_def
    by (auto simp: sqlite_simps reg_get_anchor_def intro!: keeps_bindS keeps_case_option keeps_if keeps_seqS)
  have o: "keeps (\<lambda>d. t_cache d = C) (ensure_root p sr)" for sr using p by (rule ensure_root_keeps) simp_all
  have b: "keeps (\<lambda>d. t_cache d = C) (forS pairs (\<lambda>(_, key). rb_bind_endpoint (pb_registry p) key rk))"
    "keeps (\<lambda>d. t_cache d = C) (unbind_removed p rk removed)" for pairs rk removed
    using p by (rule bind_endpoints_keep; simp)+
  have w: "keeps (\<lambda>d. t_cache d = C) (write_index ob' rid rk h sr leaf pr pairs removed)" for ob' rid rk h sr leaf pr pairs removed
    by (rule index_ops_keep) simp_all
  show ?thesis
    unfolding publish_def Let_def
    by (intro keeps_bindS keeps_seqS keeps_basic keeps_case_option keeps_if a o b w) (simp add: list_endpoint_keys_def)
qed

lemma demo_object_stable: "object_stable demo_object"
  using demo_endpoint_stable by (simp add: object_stable_def demo_object_def operator_complete_def)

lemma demo_dates: "parse_rfc3339 ''2024-01-01T00:00:00Z'' = Ret 1704067200000000" "parse_rfc3339 ''2030-01-01T00:00:00Z'' = Ret 1893456000000000"
  by code_simp+

lemma demo_in_force: "check_object_semantics policy_default demo_object 1750000000000000 = Ret None"
  by (simp add: check_object_semantics_def demo_object_def demo_dates transport_refused_def policy_default_def)
    (auto simp: demo_endpoint_def)

lemma demo_endpoint_fields:
  "normalized demo_endpoint = Ret demo_endpoint" "e_ip demo_endpoint = JStr ''192.0.2.53''" "e_server_name demo_endpoint = JStr ''r1.example''"
  using demo_endpoint_stable by (simp_all add: endpoint_stable_def) (simp_all add: demo_endpoint_def)

lemma demo_key: "endpoint_lookup_key demo_endpoint = Ret (sha256_hex_str (binding_text demo_endpoint))"
  using endpoint_lookup_key_stable[OF demo_endpoint_stable] by (simp add: demo_endpoint_def)

lemma demo_publish: "\<exists>out d'. publish demo_publisher demo_object None (empty_db 0) = (Ret out, d')"
proof -
  obtain un where un: "object_to_dict False demo_object = Ret un" using object_to_dict_stable[OF demo_object_stable] by blast
  obtain sg where sg: "sign_for demo_publisher un = Ret sg" by (simp add: sign_for_def demo_publisher_def)
  have sd: "object_to_dict True (demo_object\<lparr>o_signature := JStr sg\<rparr>) = Ret (dict_set un ''signature'' (JStr sg))"
    by (rule object_to_dict_signed[OF un])
  have "canonical_ip ''192.0.2.53'' = Ret ''192.0.2.53''" by code_simp
  then obtain ipk where pk: "ip_lookup_key ''192.0.2.53'' = Ret ipk" by (simp add: ip_lookup_key_def)
  have mp: "\<exists>pr. build_merkle_proof [leaf] 0 = Ret pr" "\<exists>r. merkle_root [leaf] = Ret r" for leaf
    by (simp_all add: build_merkle_proof_def merkle_proof_loop.simps merkle_root_def merkle_reduce.simps)
  have eps: "map_res (\<lambda>ep. bind_res (endpoint_lookup_key ep) (\<lambda>k. Ret (ep, k))) (o_endpoints demo_object) = Ret [(demo_endpoint, sha256_hex_str (binding_text demo_endpoint))]"
    by (simp add: demo_object_def demo_key)
  have idx: "\<exists>d'. write_index (demo_object\<lparr>o_signature := JStr sg\<rparr>) ''resolver-1'' rk h r leaf pr [(demo_endpoint, ek)] [] d = (Ret (), d')"
    if "t_resolver_objects d = []" for rk h r leaf pr ek d
    using that pk sd demo_endpoint_fields
    by (simp add: write_index_def upsert_resolver_object_def Let_def seqS_def bindS_def demo_fields sql_int_def sql_value_def audit_record_def
      put_proof_def fk_check_def has_resolver_def index_endpoint_def put_lookup_def replace_endpoints_def insert_endpoint_def idx_publish_root_def)
  let ?h = "object_hash (dict_set un ''signature'' (JStr sg))"
  let ?leaf = "merkle_leaf (resolver_id_key ''resolver-1'') ?h 3 ''ACTIVE''"
  obtain pr root where m: "build_merkle_proof [?leaf] 0 = Ret pr" "merkle_root [?leaf] = Ret root" using mp by blast
  obtain d1 where d1: "ensure_root demo_publisher root (empty_db 0) = (Ret (), d1)" "t_anchors d1 = []" "t_resolver_objects d1 = []"
    by (simp add: ensure_root_def demo_publisher_def sqlite_simps reg_get_root_status_def reg_publish_root_def audit_record_def empty_db_def)
  obtain d2 where d2: "ensure_anchor demo_publisher (resolver_id_key ''resolver-1'') ?h root 3 (epoch_seconds 1893456000000000) ''ACTIVE'' d1 = (Ret False, d2)"
    "t_resolver_objects d2 = []"
    using d1(2,3) by (simp add: ensure_anchor_def demo_publisher_def sqlite_simps reg_get_anchor_def publish_anchor_def sql_int_def epoch_seconds_def
      audit_record_def seqS_def bindS_def)
  let ?ek = "sha256_hex_str (binding_text demo_endpoint)"
  obtain d3 where d3: "forS [(demo_endpoint, ?ek)] (\<lambda>(_, key). rb_bind_endpoint (pb_registry demo_publisher) key (resolver_id_key ''resolver-1'')) d2 = (Ret (), d3)"
    "t_resolver_objects d3 = []"
    using d2(2) by (simp add: demo_publisher_def sqlite_simps reg_bind_endpoint_def audit_record_def seqS_def bindS_def)
  have un3: "unbind_removed demo_publisher rk [] d3 = (Ret (), d3)" for rk by (simp add: unbind_removed_def)
  obtain d5 where d5: "write_index (demo_object\<lparr>o_signature := JStr sg\<rparr>) ''resolver-1'' (resolver_id_key ''resolver-1'') ?h root ?leaf pr [(demo_endpoint, ?ek)] [] d3 = (Ret (), d5)"
    using idx[OF d3(2)] by blast
  show ?thesis
    unfolding publish_def Let_def
    by (simp add: un sg sd eps m demo_fields list_endpoint_keys_def demo_dates seqS_def bindS_def d1(1) d2(1) d3(1) un3 d5 del: forS.simps)
      (simp add: empty_db_def un3 d5 bindS_def)
qed

definition demo_now :: int where "demo_now = 1750000000000000"

lemma demo_trusted: "signer_trusted demo_cfg demo_publisher demo_object"
  by (simp add: signer_trusted_def demo_cfg_def demo_publisher_def)

lemma demo_ttl:
  "dt_ok (demo_now + po_soft_ttl_seconds (vc_policy demo_cfg) * 1000000)" "dt_ok (demo_now + po_hard_ttl_seconds (vc_policy demo_cfg) * 1000000)"
  by (simp_all add: demo_now_def demo_cfg_def policy_default_def dt_ok_def EPOCH_DAYS_def DAY_US_def)

lemma demo_semantics: "check_object_semantics (vc_policy demo_cfg) demo_object demo_now = Ret None"
  using demo_in_force by (simp add: demo_cfg_def demo_now_def)

lemma demo_listed: "demo_endpoint \<in> set (o_endpoints demo_object)" "truthy (e_ip demo_endpoint) \<or> truthy (e_server_name demo_endpoint) \<or> truthy (e_uri demo_endpoint)"
  by (simp_all add: demo_object_def demo_endpoint_fields)

theorem published_endpoint_verifies_witness:
  "\<exists>out c r c'. publish demo_publisher demo_object None (empty_db 0) = (Ret out, cm_db c) \<and>
     refresh_endpoint demo_cfg (quiet_env (\<lambda>_. db_view (cm_db c)) demo_now) demo_endpoint (c :: cache_mgr) = (Ret r, c') \<and> vr_accepted r"
proof -
  obtain out d' where p: "publish demo_publisher demo_object None (empty_db 0) = (Ret out, d')" using demo_publish by blast
  define c where "c = demo_cache\<lparr>cm_db := d'\<rparr>"
  have p': "publish demo_publisher demo_object None (empty_db 0) = (Ret out, cm_db c)" using p by (simp add: c_def)
  have "pb_registry demo_publisher = sqlite_ops" by (simp add: demo_publisher_def)
  from published_endpoint_verifies[OF p' this demo_object_stable demo_fields(1) demo_trusted demo_semantics demo_listed demo_ttl empty_gen]
  show ?thesis using p' by blast
qed

lemma demo_cold:
  "\<exists>c ek r c'. endpoint_lookup_key demo_endpoint = Ret ek \<and> gen_is (cm_db (c :: cache_mgr)) 0 \<and> newest_for ek (cm_db c) = None \<and> cm_memory c = [] \<and>
     verify_cold demo_cfg (quiet_env (\<lambda>_. db_view (cm_db c)) demo_now) demo_endpoint ek demo_now 0 c = (Ret r, c') \<and> vr_accepted r"
proof -
  obtain out d' where p: "publish demo_publisher demo_object None (empty_db 0) = (Ret out, d')" using demo_publish by blast
  define c where "c = demo_cache\<lparr>cm_db := d'\<rparr>"
  have p': "publish demo_publisher demo_object None (empty_db 0) = (Ret out, cm_db c)" using p by (simp add: c_def)
  have sq: "pub_sqlite demo_publisher" by (simp add: demo_publisher_def pub_sqlite_def)
  let ?ek = "sha256_hex_str (binding_text demo_endpoint)"
  obtain un sg od leaf root pr where u: "object_to_dict False demo_object = Ret un" "sign_for demo_publisher un = Ret sg"
    "leaf = merkle_leaf (resolver_id_key ''resolver-1'') (object_hash od) (o_object_version demo_object) ''ACTIVE''"
    "build_merkle_proof [leaf] 0 = Ret pr" "merkle_root [leaf] = Ret root"
    "published (demo_object\<lparr>o_signature := JStr sg\<rparr>) od ''resolver-1'' leaf root pr ?ek (cm_db c)" "t_runtime (cm_db c) = t_runtime (empty_db 0)"
    using publish_published[OF p' sq demo_fields(1,3) demo_listed(1) demo_key] by auto
  have od: "od = dict_set un ''signature'' (JStr sg)"
    using u(6) object_to_dict_signed[OF u(1)] by (simp add: published_def)
  have gen: "gen_is (cm_db c) 0" using empty_gen[of 0] u(7) by (simp add: gen_is_def)
  obtain r c' where r: "verify_cold demo_cfg (quiet_env (\<lambda>_. db_view (cm_db c)) demo_now) demo_endpoint ?ek demo_now (int 0) c = (Ret r, c')" "vr_accepted r"
    using published_cold[OF u(6)[unfolded od] u(1,2) demo_object_stable u(3)[unfolded od] u(4,5) demo_fields(1) demo_trusted demo_semantics demo_listed demo_ttl gen]
    by blast
  have "t_cache (empty_db 0) = []" by (simp add: empty_db_def)
  then have "t_cache (cm_db c) = []" using keepsD[OF publish_cache[OF sq, of "[]" demo_object None], of "empty_db 0"] p' by simp
  then have "newest_for ?ek (cm_db c) = None" by (simp add: newest_for_def newest_first_def)
  moreover have "cm_memory c = []" by (simp add: c_def demo_cache_def)
  ultimately show ?thesis using r gen demo_key by (auto simp del: of_nat_0 simp: of_nat_0[symmetric])
qed

end
