(* ===== verification/EndToEnd.thy ===== *)
theory EndToEnd
  imports Publisher
begin

text \<open>
  Properties of the verifier that span components: what an acceptance rests on, how a withdrawal in the
  registry and a concurrent invalidation of the cache reach a verification that is under way.
\<close>

section \<open>Acceptance\<close>

text \<open>C2. Every acceptance is justified.  When \<open>verify_endpoint\<close> accepts, either the trusted cache held a
  row for the endpoint that is in a usable status, not past its hard expiry, matches the observed
  endpoint and was written by the verifier's generation; or an object of the index justifies
  the endpoint: its signature is genuine, the registry's last answers bind the endpoint to the
  resolver and anchor exactly this object's hash and version under an active root, its leaf is under
  that root, it is in force at the time of the call, and it lists a matching endpoint.\<close>

theorem accepted_endpoint_justified:
  assumes "verify_endpoint cfg env ep c = (Ret r, c')" and "vr_accepted r"
    and "normalized ep = Ret n" and "endpoint_lookup_key n = Ret ek"
  shows "(\<exists>row. (newest_for ek (cm_db c) = Some row \<or> (newest_for ek (cm_db c) = None \<and> dict_get (cm_memory c) ek = Some row)) \<and>
            row_usable row n (ve_now env) \<and> vr_resolver_id r = JStr (cr_resolver_id row)) \<or>
         (\<exists>row\<in>set (t_resolver_objects (ve_interf env 2 (ve_interf env 1 (cm_db (snd (get_valid (ve_interf env 0) ek n (ve_now env) c)))))).
            \<exists>rid. vr_resolver_id r = JStr rid \<and> justifies cfg env n ek (ve_now env) (ro_object_json row) rid)"
proof -
  obtain cached c1 where gv: "get_valid (ve_interf env 0) ek n (ve_now env) c = (Ret cached, c1)"
    and rest: "(case cached of Some r \<Rightarrow> retS r | None \<Rightarrow> bindS (on_db current_generation) (\<lambda>generation.
         fail_closed ek (verify_cold cfg env n ek (ve_now env) generation))) c1 = (Ret r, c')"
    using assms(1,3,4) by (auto simp: verify_endpoint_def bindS_Inr)
  show ?thesis
  proof (cases cached)
    case (Some q)
    then have "get_valid (ve_interf env 0) ek n (ve_now env) c = (Ret (Some r), c1)" using gv rest by simp
    from cache_hit_row[OF this assms(2)] show ?thesis by blast
  next
    case None
    then obtain g where "fail_closed ek (verify_cold cfg env n ek (ve_now env) g) c1 = (Ret r, c')"
      using rest by (auto simp: bindS_Inr on_db_Inr dest: current_generation_state)
    then have "verify_cold cfg env n ek (ve_now env) g c1 = (Ret r, c')"
      using fail_closed_returns[of ek "verify_cold cfg env n ek (ve_now env) g" c1] assms(2) by auto
    from this assms(2) show ?thesis
    proof (cases rule: verify_cold_accepts)
      case (1 rk anc row c2)
      obtain rid where "vr_resolver_id r = JStr rid" "justifies cfg env n ek (ve_now env) (ro_object_json row) rid"
        using verify_object_justified[OF 1(5) assms(2)] by blast
      then show ?thesis using 1(4) gv by (intro disjI2 bexI[of _ row]) auto
    qed
  qed
qed

theorem accepted_endpoint_justified_witness:
  "\<exists>c r c' ek. verify_endpoint demo_cfg (quiet_env (\<lambda>_. db_view (cm_db c)) demo_now) demo_endpoint (c :: cache_mgr) = (Ret r, c') \<and>
     vr_accepted r \<and> newest_for ek (cm_db c) = None \<and> cm_memory c = [] \<and>
     (\<exists>(row :: object_row) rid. vr_resolver_id r = JStr rid \<and>
        justifies demo_cfg (quiet_env (\<lambda>_. db_view (cm_db c)) demo_now) demo_endpoint ek demo_now (ro_object_json row) rid)"
proof -
  obtain c ek r c' where d: "endpoint_lookup_key demo_endpoint = Ret ek" "gen_is (cm_db (c :: cache_mgr)) 0" "newest_for ek (cm_db c) = None" "cm_memory c = []"
     "verify_cold demo_cfg (quiet_env (\<lambda>_. db_view (cm_db c)) demo_now) demo_endpoint ek demo_now 0 c = (Ret r, c')" "vr_accepted r"
    using demo_cold by blast
  let ?env = "quiet_env (\<lambda>_. db_view (cm_db c)) demo_now"
  have "get_valid (ve_interf ?env 0) ek demo_endpoint demo_now c = (Ret None, c)"
    using d(2-4) current_generation_is[OF d(2)] by (simp add: get_valid_def bindS_def seqS_def on_db_def zoomS_def get_by_endpoint_lookup_key_def mem_get_def)
  then have run: "verify_endpoint demo_cfg ?env demo_endpoint c = (Ret r, c')"
    using d current_generation_is[OF d(2)]
    by (simp add: verify_endpoint_def demo_endpoint_fields bindS_def on_db_def zoomS_def fail_closed_def)
  have "\<exists>(row :: object_row) rid. vr_resolver_id r = JStr rid \<and> justifies demo_cfg ?env demo_endpoint ek demo_now (ro_object_json row) rid"
    using accepted_endpoint_justified[OF run d(6) demo_endpoint_fields(1) d(1)] d(3,4) by (simp, blast)
  then show ?thesis using run d by blast
qed

section \<open>Withdrawal\<close>

lemma justifies_authorizes:
  assumes "justifies cfg env ep ek now od rid" and "ve_registry env 3 = v" "ve_registry env 4 = v" "ve_registry env 5 = v"
  shows "\<exists>h ver root. authorizes v ek (resolver_id_key rid) h ver root"
  using assms unfolding justifies_def authorizes_def by metis

lemma cold_authorized:
  assumes "verify_cold cfg env ep ek now g c = (Ret r, c')" "vr_accepted r"
    and "ve_registry env 3 = v" "ve_registry env 4 = v" "ve_registry env 5 = v"
  shows "\<exists>rid h ver root. vr_resolver_id r = JStr rid \<and> authorizes v ek (resolver_id_key rid) h ver root"
  using assms(1,2)
proof (cases rule: verify_cold_accepts)
  case (1 rk anc row c2)
  then obtain rid where "vr_resolver_id r = JStr rid" "justifies cfg env ep ek now (ro_object_json row) rid"
    using verify_object_justified[OF 1(5) assms(2)] by blast
  then show ?thesis using justifies_authorizes[OF _ assms(3-5)] by blast
qed

text \<open>C28. A revocation that is on the registry when the verifier reads it the second time is effective: if
  the resolver is revoked, the endpoint unbound or bound elsewhere, by the time of the final check, a fresh
  verification does not accept the endpoint for that resolver, whatever the index, the signature and the first
  reading of the registry said.\<close>

theorem withdrawal_stops_verification:
  assumes "refresh_endpoint cfg env ep c = (Ret r, c')" and "vr_resolver_id r = JStr rid"
    and "normalized ep = Ret n" and "endpoint_lookup_key n = Ret ek"
    and "d' = snd (reg_revoke_resolver (resolver_id_key rid) d) \<or> d' = snd (reg_unbind_endpoint ek d) \<or>
         (k' \<noteq> resolver_id_key rid \<and> d' = snd (reg_bind_endpoint ek k' d))"
    and "ve_registry env 3 = db_view d'" "ve_registry env 4 = db_view d'" "ve_registry env 5 = db_view d'"
  shows "\<not> vr_accepted r"
proof
  assume acc: "vr_accepted r"
  obtain g c1 where "fail_closed ek (verify_cold cfg env n ek (ve_now env) g) c1 = (Ret r, c')"
    using assms(1,3,4) by (auto simp: refresh_endpoint_def bindS_Inr)
  then have "verify_cold cfg env n ek (ve_now env) g c1 = (Ret r, c')"
    using fail_closed_returns[of ek "verify_cold cfg env n ek (ve_now env) g" c1] acc by auto
  from cold_authorized[OF this acc assms(6-8)] assms(2)
  obtain h ver root where a: "authorizes (db_view d') ek (resolver_id_key rid) h ver root" by auto
  have run: "\<exists>t. reg_revoke_resolver (resolver_id_key rid) d = (Ret (), t)" "\<exists>t. reg_unbind_endpoint ek d = (Ret (), t)"
    "\<exists>t. reg_bind_endpoint ek k' d = (Ret (), t)"
    by (simp_all add: reg_revoke_resolver_def reg_unbind_endpoint_def reg_bind_endpoint_def reg_get_endpoint_binding_def audit_record_def)
  show False
    using assms(5) run a sqlite.revoke_denies sqlite.unbind_denies sqlite.rebind_denies by (metis snd_conv)
qed

definition demo_revoked :: "string \<Rightarrow> db" where
  "demo_revoked ek = (empty_db 0)\<lparr>
     t_lookup := [\<lparr>rl_lookup_key = ek, rl_resolver_id_key = resolver_id_key ''resolver-1'', rl_resolver_id = ''resolver-1''\<rparr>],
     t_bindings := [(ek, resolver_id_key ''resolver-1'')],
     t_anchors := [(resolver_id_key ''resolver-1'', demo_anchor)]\<rparr>"

theorem withdrawal_stops_verification_witness:
  "\<exists>ek r c'. refresh_endpoint demo_cfg (quiet_env (\<lambda>_. db_view (snd (reg_revoke_resolver (resolver_id_key ''resolver-1'') (demo_revoked ek)))) 0)
      demo_endpoint (demo_cache\<lparr>cm_db := demo_revoked ek\<rparr>) = (Ret r, c') \<and> vr_resolver_id r = JStr ''resolver-1'' \<and> \<not> vr_accepted r"
proof -
  obtain ek where ek: "endpoint_lookup_key demo_endpoint = Ret ek" using demo_key by blast
  let ?c = "demo_cache\<lparr>cm_db := demo_revoked ek\<rparr>" and ?d = "snd (reg_revoke_resolver (resolver_id_key ''resolver-1'') (demo_revoked ek))"
  have gen: "gen_is (cm_db ?c) 0" using empty_gen[of 0] by (simp add: demo_revoked_def gen_is_def)
  have rev: "dict_get (t_bindings ?d) ek = Some (resolver_id_key ''resolver-1'')"
    "dict_get (t_anchors ?d) (resolver_id_key ''resolver-1'') = Some (demo_anchor\<lparr>an_status := ''REVOKED''\<rparr>)"
    by (simp_all add: reg_revoke_resolver_def audit_record_def demo_revoked_def set_anchor_status_def seqS_def bindS_def)
  have lk: "t_lookup (demo_revoked ek) = [\<lparr>rl_lookup_key = ek, rl_resolver_id_key = resolver_id_key ''resolver-1'', rl_resolver_id = ''resolver-1''\<rparr>]"
    by (simp add: demo_revoked_def)
  have "verify_cold demo_cfg (quiet_env (\<lambda>_. db_view ?d) 0) demo_endpoint ek 0 (int 0) ?c =
      (Ret (vr_reject ''chain_status_not_active'' (JStr ''resolver-1'') [(''chain_status'', JStr ''REVOKED'')]), ?c)"
    unfolding verify_cold_def by (simp add: lookup_def lk Let_def rev)
  then have run: "refresh_endpoint demo_cfg (quiet_env (\<lambda>_. db_view ?d) 0) demo_endpoint ?c =
      (Ret (vr_reject ''chain_status_not_active'' (JStr ''resolver-1'') [(''chain_status'', JStr ''REVOKED'')]), ?c)"
    using refresh_endpoint_runs[OF demo_endpoint_fields(1) ek gen, of demo_cfg "quiet_env (\<lambda>_. db_view ?d) 0"] by (simp add: fail_closed_def)
  have "\<not> vr_accepted (vr_reject ''chain_status_not_active'' (JStr ''resolver-1'') [(''chain_status'', JStr ''REVOKED'')])"
    by (rule withdrawal_stops_verification[OF run _ demo_endpoint_fields(1) ek]) (rule vr_reject_sel disjI1 refl quiet_env_sel | simp)+
  then show ?thesis using run by (intro exI conjI) (assumption | simp)+
qed

section \<open>Invalidation during a verification\<close>

lemma store_refused:
  assumes "store_verified ek i ep h v root so ha ev (Some (int g)) now c = (Ret b, c')" and "gen_is (cm_db c) m" and "m \<noteq> g"
  shows "\<not> b"
proof -
  have "put_if_generation row (int g) (cm_db c) = (Ret False, cm_db c)" for row
    using assms(3) current_generation_is[OF assms(2)] by (simp add: put_if_generation_def bindS_eq)
  then have "on_db (put_if_generation row (int g)) c = (Ret False, c)" for row by (simp add: on_db_def zoomS_def)
  then show ?thesis using assms(1) by (auto simp: store_verified_def bindS_Inr Let_def split: if_splits)
qed

text \<open>Another process at work on the same database: at the \<open>i\<close>-th access it makes the cache calls \<open>calls i\<close> with a cache
  manager of its own.\<close>

definition peer_runs :: "(nat \<Rightarrow> cache_mgr) \<Rightarrow> (nat \<Rightarrow> cache_call list) \<Rightarrow> nat \<Rightarrow> db \<Rightarrow> db" where
  "peer_runs peer calls i d = cm_db (fold run_cache (calls i) ((peer i)\<lparr>cm_db := d\<rparr>))"

lemma fold_run_cache_ge: "gen_ge n c \<Longrightarrow> gen_ge n (fold run_cache calls c)"
  by (induction calls arbitrary: c) (auto intro: keeps_run_cache)

lemma fold_run_cache_bumps: "gen_ge n c \<Longrightarrow> a \<in> set calls \<Longrightarrow> is_invalidation a \<Longrightarrow> gen_ge (Suc n) (fold run_cache calls c)"
  by (induction calls arbitrary: c) (auto intro: keeps_run_cache fold_run_cache_ge invalidation_bumps)

lemma peer_runs_ge: "db_gen_ge n d \<Longrightarrow> db_gen_ge n (peer_runs peer calls i d)"
  using fold_run_cache_ge[of n "(peer i)\<lparr>cm_db := d\<rparr>" "calls i"] by (simp add: peer_runs_def gen_ge_def)

lemma peer_runs_bumps: "db_gen_ge n d \<Longrightarrow> a \<in> set (calls i) \<Longrightarrow> is_invalidation a \<Longrightarrow> db_gen_ge (Suc n) (peer_runs peer calls i d)"
  using fold_run_cache_bumps[of n "(peer i)\<lparr>cm_db := d\<rparr>" a "calls i"] by (simp add: peer_runs_def gen_ge_def)

lemma four_steps_bump:
  assumes "db_gen_ge n d" and "i \<in> {1, 2, 3, 4}" and "a \<in> set (calls i)" and "is_invalidation a"
  shows "db_gen_ge (Suc n) (peer_runs peer calls 4 (peer_runs peer calls 3 (peer_runs peer calls 2 (peer_runs peer calls 1 d))))"
proof -
  have up: "db_gen_ge (Suc n) (peer_runs peer calls i e)" if "db_gen_ge n e" for e using that assms(3,4) by (rule peer_runs_bumps)
  note keep = peer_runs_ge[of _ _ peer calls]
  consider "i = 1" | "i = 2" | "i = 3" | "i = 4" using assms(2) by auto
  then show ?thesis
  proof cases
    case 1 then show ?thesis using up assms(1) keep by metis
  next
    case 2 then show ?thesis using up assms(1) keep by metis
  next
    case 3 then show ?thesis using up assms(1) keep by metis
  next
    case 4 then show ?thesis using up assms(1) keep by metis
  qed
qed

text \<open>The database at the commit of an accepting run is the one at its start after the four accesses of the other
  processes, and it still has the generation read at the start.\<close>

lemma accepted_commit_generation:
  assumes "verify_cold cfg env ep ek now (int g) c = (Ret r, c')" and acc: "vr_accepted r"
  shows "\<not> db_gen_ge (Suc g) (ve_interf env 4 (ve_interf env 3 (ve_interf env 2 (ve_interf env 1 (cm_db c)))))"
  using assms
proof (cases rule: verify_cold_accepts)
  case (1 rk anc row c2)
  from 1(5) acc show ?thesis
  proof (cases rule: verify_object_accepts)
    case s: (1 ob rid proof_row root_status status valid_until vt so ha d0)
    show ?thesis using store_refused[OF s(14)] unfolding s(16) 1(6) by (fastforce simp: db_gen_ge_def)
  qed
qed

text \<open>C29. An invalidation that falls into a running verification wins.  Between the first reading of the cache
  generation and the commit other processes reach the database at four points; whatever cache calls they make there,
  as soon as one of these calls, at any of the points, is an invalidation (of a row, a resolver, an object
  version or a root), \<open>refresh_endpoint\<close> returns and does not accept, although every other check may have passed.\<close>

theorem concurrent_invalidation_wins:
  assumes "normalized ep = Ret n" and "endpoint_lookup_key n = Ret ek" and "gen_is (cm_db c) g"
    and "ve_interf env = peer_runs peer calls" and "i \<in> {1, 2, 3, 4}" and "a \<in> set (calls i)" and "is_invalidation a"
  shows "\<exists>r c'. refresh_endpoint cfg env ep c = (Ret r, c') \<and> \<not> vr_accepted r"
proof -
  obtain r c' where r: "refresh_endpoint cfg env ep c = (Ret r, c')"
    "vr_accepted r \<longrightarrow> verify_cold cfg env n ek (ve_now env) (int g) c = (Ret r, c')"
    using fail_closed_returns[of ek "verify_cold cfg env n ek (ve_now env) (int g)" c] refresh_endpoint_runs[OF assms(1-3), of cfg env] by auto
  have "db_gen_ge g (cm_db c)" using assms(3) by (auto simp: db_gen_ge_def)
  from four_steps_bump[where calls = calls, OF this assms(5-7)] have "\<not> vr_accepted r"
    using r(2) accepted_commit_generation[of cfg env n ek "ve_now env" g c r c'] unfolding assms(4) by blast
  then show ?thesis using r(1) by blast
qed

text \<open>The same verification of a published endpoint is accepted when it is left alone and refused when another process
  invalidates an unrelated resolver just before the commit.\<close>

definition demo_calls :: "nat \<Rightarrow> cache_call list" where
  "demo_calls = (\<lambda>i. if i = 4 then [InvalidateResolver ''r9'' ''REVOKED''] else [])"

theorem concurrent_invalidation_wins_witness:
  "\<exists>(c :: cache_mgr) r1 c1 r2 c2. let alone = quiet_env (\<lambda>_. db_view (cm_db c)) demo_now in
     refresh_endpoint demo_cfg alone demo_endpoint c = (Ret r1, c1) \<and> vr_accepted r1 \<and>
     refresh_endpoint demo_cfg (alone\<lparr>ve_interf := peer_runs (\<lambda>_. demo_cache) demo_calls\<rparr>) demo_endpoint c = (Ret r2, c2) \<and> \<not> vr_accepted r2"
proof -
  obtain c ek r c' where d: "endpoint_lookup_key demo_endpoint = Ret ek" "gen_is (cm_db (c :: cache_mgr)) 0"
     "verify_cold demo_cfg (quiet_env (\<lambda>_. db_view (cm_db c)) demo_now) demo_endpoint ek demo_now 0 c = (Ret r, c')" "vr_accepted r"
    using demo_cold by blast
  let ?alone = "quiet_env (\<lambda>_. db_view (cm_db c)) demo_now"
  have "refresh_endpoint demo_cfg ?alone demo_endpoint c = (Ret r, c')"
    using refresh_endpoint_runs[OF demo_endpoint_fields(1) d(1,2), of demo_cfg ?alone] d(3) by (simp add: fail_closed_def)
  moreover obtain r2 c2 where
    "refresh_endpoint demo_cfg (?alone\<lparr>ve_interf := peer_runs (\<lambda>_. demo_cache) demo_calls\<rparr>) demo_endpoint c = (Ret r2, c2)" "\<not> vr_accepted r2"
    using concurrent_invalidation_wins[OF demo_endpoint_fields(1) d(1,2), of "?alone\<lparr>ve_interf := peer_runs (\<lambda>_. demo_cache) demo_calls\<rparr>"
      "\<lambda>_. demo_cache" demo_calls 4 "InvalidateResolver ''r9'' ''REVOKED''" demo_cfg] by (auto simp: demo_calls_def)
  ultimately show ?thesis using d(4) unfolding Let_def by blast
qed

end
