(* ===== verification/AgentIdentity.thy ===== *)
theory AgentIdentity
  imports TrustedCache Signatures PyRepr
begin

text \<open>
  \<open>agent/identity.py\<close>: the identity document that a resolver agent signs and that its clients check.
  Times are whole seconds since the epoch, as \<open>int(time.time())\<close> gives them; the moment of the call
  is the argument \<open>now\<close>.
\<close>

definition AGENT_SCHEMA_VERSION :: string where "AGENT_SCHEMA_VERSION = ''resolver-identity-agent-v1''"

record agent_identity =
  ai_resolver_id :: json
  ai_endpoint :: endpoint
  ai_upstreams :: "endpoint list"
  ai_config_version :: string
  ai_health :: json
  ai_issued_at :: int
  ai_expires_at :: "int option"
  ai_issuer :: json
  ai_key_id :: json
  ai_schema_version :: json
  ai_signature :: json

text \<open>\<open>e.normalized().to_dict()\<close>, and \<open>ResolverEndpoint.from_dict(v)\<close> of a value.\<close>

definition endpoint_json :: "endpoint \<Rightarrow> json res" where
  "endpoint_json e = bind_res (normalized e) (\<lambda>n. Ret (JObj (endpoint_to_dict n)))"

definition endpoint_of_json :: "json \<Rightarrow> endpoint res" where
  "endpoint_of_json v = bind_res (as_dict v) endpoint_from_dict"

definition identity_to_dict :: "bool \<Rightarrow> agent_identity \<Rightarrow> jdict res" where
  "identity_to_dict include_signature a =
     bind_res (endpoint_json (ai_endpoint a)) (\<lambda>ep.
     bind_res (map_res endpoint_json (ai_upstreams a)) (\<lambda>ups.
     Ret ([(''schema_version'', ai_schema_version a), (''resolver_id'', ai_resolver_id a), (''endpoint'', ep),
           (''upstreams'', JArr ups), (''config_version'', JStr (ai_config_version a)), (''health'', ai_health a),
           (''issued_at'', JInt (ai_issued_at a)),
           (''expires_at'', JInt (case ai_expires_at a of Some t \<Rightarrow> t | None \<Rightarrow> ai_issued_at a + 30)),
           (''issuer'', ai_issuer a), (''key_id'', ai_key_id a)]
          @ (if include_signature \<and> ai_signature a \<noteq> JNull then [(''signature'', ai_signature a)] else []))))"

definition identity_from_dict :: "jdict \<Rightarrow> agent_identity res" where
  "identity_from_dict data =
     bind_res (jitem data ''resolver_id'') (\<lambda>resolver_id.
     bind_res (bind_res (jitem data ''endpoint'') endpoint_of_json) (\<lambda>ep.
     bind_res (bind_res (as_list (jget data ''upstreams'' (JArr []))) (map_res endpoint_of_json)) (\<lambda>ups.
     bind_res (jitem data ''config_version'') (\<lambda>config_version.
     bind_res (bind_res (jitem data ''issued_at'') json_int) (\<lambda>issued_at.
     bind_res (bind_res (jitem data ''expires_at'') json_int) (\<lambda>expires_at.
     Ret \<lparr>ai_resolver_id = resolver_id, ai_endpoint = ep, ai_upstreams = ups, ai_config_version = py_str config_version,
          ai_health = jget data ''health'' (JStr ''unknown''), ai_issued_at = issued_at, ai_expires_at = Some expires_at,
          ai_issuer = jget data ''issuer'' (JStr ''resolver-agent''), ai_key_id = jget data ''key_id'' (JStr ''agent-key-01''),
          ai_schema_version = jget data ''schema_version'' (JStr AGENT_SCHEMA_VERSION), ai_signature = jget0 data ''signature''\<rparr>))))))"

definition new_identity ::
  "string \<Rightarrow> endpoint \<Rightarrow> endpoint list \<Rightarrow> string \<Rightarrow> int \<Rightarrow> int \<Rightarrow> string \<Rightarrow> string \<Rightarrow> string \<Rightarrow> agent_identity" where
  "new_identity resolver_id ep upstreams config_version now max_age_seconds health issuer key_id =
     \<lparr>ai_resolver_id = JStr resolver_id, ai_endpoint = ep, ai_upstreams = upstreams, ai_config_version = config_version,
      ai_health = JStr health, ai_issued_at = now, ai_expires_at = Some (now + max_age_seconds), ai_issuer = JStr issuer,
      ai_key_id = JStr key_id, ai_schema_version = JStr AGENT_SCHEMA_VERSION, ai_signature = JNull\<rparr>"

definition build_agent_identity ::
  "string \<Rightarrow> endpoint \<Rightarrow> endpoint list \<Rightarrow> string \<Rightarrow> string \<Rightarrow> int \<Rightarrow> int \<Rightarrow> string \<Rightarrow> string \<Rightarrow> string \<Rightarrow> jdict res" where
  "build_agent_identity resolver_id ep upstreams config_version signature_secret now max_age_seconds health issuer key_id =
     (let a = new_identity resolver_id ep upstreams config_version now max_age_seconds health issuer key_id in
      bind_res (identity_to_dict False a) (\<lambda>unsigned_dict.
      identity_to_dict True (a\<lparr>ai_signature := JStr (sign_object unsigned_dict signature_secret)\<rparr>)))"

definition build_agent_identity_ed25519 ::
  "ed25519 \<Rightarrow> string \<Rightarrow> endpoint \<Rightarrow> endpoint list \<Rightarrow> string \<Rightarrow> string \<Rightarrow> int \<Rightarrow> int \<Rightarrow> string \<Rightarrow> string \<Rightarrow> string \<Rightarrow> jdict res" where
  "build_agent_identity_ed25519 lib resolver_id ep upstreams config_version private_key_b64 now max_age_seconds health issuer key_id =
     (let a = new_identity resolver_id ep upstreams config_version now max_age_seconds health issuer key_id in
      bind_res (identity_to_dict False a) (\<lambda>unsigned_dict.
      bind_res (sign_object_ed25519 lib unsigned_dict private_key_b64) (\<lambda>signature.
      identity_to_dict True (a\<lparr>ai_signature := JStr signature\<rparr>))))"

definition validate_agent_identity_payload :: "jdict \<Rightarrow> endpoint option \<Rightarrow> int \<Rightarrow> int \<Rightarrow> agent_identity res" where
  "validate_agent_identity_payload payload expected_endpoint now max_clock_skew_seconds =
     bind_res (identity_from_dict payload) (\<lambda>a.
     if ai_health a \<noteq> JStr ''ok'' then Raise (ValueError ''agent health is not ok'')
     else if ai_issued_at a > now + max_clock_skew_seconds then Raise (ValueError ''agent response issued_at is in the future'')
     else if (case ai_expires_at a of None \<Rightarrow> True | Some t \<Rightarrow> t < now) then Raise (ValueError ''agent response expired'')
     else (case expected_endpoint of
             None \<Rightarrow> Ret a
           | Some e \<Rightarrow> bind_res (matches (ai_endpoint a) e) (\<lambda>m.
               if m then Ret a else Raise (ValueError ''agent endpoint does not match observed resolver''))))"

definition verify_agent_identity_payload :: "jdict \<Rightarrow> string \<Rightarrow> endpoint option \<Rightarrow> int \<Rightarrow> int \<Rightarrow> agent_identity res" where
  "verify_agent_identity_payload payload signature_secret expected_endpoint now max_clock_skew_seconds =
     (if jget0 payload ''schema_version'' \<noteq> JStr AGENT_SCHEMA_VERSION then Raise (ValueError ''unsupported agent schema_version'')
      else bind_res (verify_object_signature payload signature_secret) (\<lambda>ok.
        if \<not> ok then Raise (ValueError ''agent signature invalid'')
        else validate_agent_identity_payload payload expected_endpoint now max_clock_skew_seconds))"

definition verify_agent_identity_payload_with_public_key ::
  "ed25519 \<Rightarrow> jdict \<Rightarrow> string \<Rightarrow> endpoint option \<Rightarrow> int \<Rightarrow> int \<Rightarrow> agent_identity res" where
  "verify_agent_identity_payload_with_public_key lib payload public_key_b64 expected_endpoint now max_clock_skew_seconds =
     (if jget0 payload ''schema_version'' \<noteq> JStr AGENT_SCHEMA_VERSION then Raise (ValueError ''unsupported agent schema_version'')
      else if \<not> verify_ed25519_signature lib payload public_key_b64 then Raise (ValueError ''agent signature invalid'')
      else validate_agent_identity_payload payload expected_endpoint now max_clock_skew_seconds)"

section \<open>The documents an agent makes are accepted while they are fresh\<close>

lemma endpoint_json_stable: "endpoint_stable e \<Longrightarrow> endpoint_json e = Ret (JObj (endpoint_to_dict e))"
  by (simp add: endpoint_json_def endpoint_stable_def)

lemma endpoint_of_json_stable: "endpoint_stable e \<Longrightarrow> endpoint_of_json (JObj (endpoint_to_dict e)) = Ret e"
  by (simp add: endpoint_of_json_def endpoint_stable_roundtrip)

lemma endpoints_json_stable:
  "\<forall>e\<in>set es. endpoint_stable e \<Longrightarrow> map_res endpoint_json es = Ret (map (\<lambda>e. JObj (endpoint_to_dict e)) es)"
  by (rule map_res_Ret) (simp add: endpoint_json_stable)

lemma endpoints_of_json_stable:
  "\<forall>e\<in>set es. endpoint_stable e \<Longrightarrow> map_res endpoint_of_json (map (\<lambda>e. JObj (endpoint_to_dict e)) es) = Ret es"
  by (induction es) (auto simp: endpoint_of_json_stable)

definition identity_stable :: "agent_identity \<Rightarrow> bool" where
  "identity_stable a \<longleftrightarrow> endpoint_stable (ai_endpoint a) \<and> (\<forall>e\<in>set (ai_upstreams a). endpoint_stable e) \<and> ai_expires_at a \<noteq> None"

lemma identity_dict:
  assumes "identity_stable a" and "ai_signature a = JNull"
  shows "\<exists>d. identity_to_dict False a = Ret d \<and> jget0 d ''schema_version'' = ai_schema_version a \<and>
    (\<forall>s. identity_to_dict True (a\<lparr>ai_signature := JStr s\<rparr>) = Ret (dict_set d ''signature'' (JStr s)) \<and>
       identity_from_dict (dict_set d ''signature'' (JStr s)) = Ret (a\<lparr>ai_signature := JStr s\<rparr>))"
proof -
  let ?ups = "map (\<lambda>e. JObj (endpoint_to_dict e)) (ai_upstreams a)"
  obtain t where t: "ai_expires_at a = Some t" using assms(1) by (auto simp: identity_stable_def)
  have f: "endpoint_json (ai_endpoint a) = Ret (JObj (endpoint_to_dict (ai_endpoint a)))" "map_res endpoint_json (ai_upstreams a) = Ret ?ups"
    "endpoint_of_json (JObj (endpoint_to_dict (ai_endpoint a))) = Ret (ai_endpoint a)" "map_res endpoint_of_json ?ups = Ret (ai_upstreams a)"
    using assms(1) endpoints_json_stable[of "ai_upstreams a"] endpoints_of_json_stable[of "ai_upstreams a"]
    by (simp_all add: identity_stable_def endpoint_json_stable endpoint_of_json_stable)
  define d where "d = [(''schema_version'', ai_schema_version a), (''resolver_id'', ai_resolver_id a), (''endpoint'', JObj (endpoint_to_dict (ai_endpoint a))),
           (''upstreams'', JArr ?ups), (''config_version'', JStr (ai_config_version a)), (''health'', ai_health a),
           (''issued_at'', JInt (ai_issued_at a)), (''expires_at'', JInt t), (''issuer'', ai_issuer a), (''key_id'', ai_key_id a)]"
  have "identity_from_dict (dict_set d ''signature'' (JStr s)) = Ret (a\<lparr>ai_signature := JStr s\<rparr>)" for s
    using f(3,4) t unfolding d_def identity_from_dict_def jitem_def by (cases a) simp
  then show ?thesis by (intro exI[of _ d]) (simp add: identity_to_dict_def f t d_def)
qed

text \<open>An agent's identity document is accepted by the holder of its public key exactly while it is fresh:
  checked at time \<open>now\<close> with a clock skew, the document that \<open>build_agent_identity_ed25519\<close> made at time \<open>t\<close> is refused as
  coming from the future when \<open>t > now + skew\<close>, refused as expired when its lifetime is over, and otherwise read back
  as the identity that was signed.\<close>

theorem agent_identity_accepted_while_fresh:
  assumes "ed25519_correct lib" and "ed_private_ok lib sk"
    and "endpoint_stable ep" and "\<forall>e\<in>set ups. endpoint_stable e" and "truthy (e_ip ep) \<or> truthy (e_server_name ep) \<or> truthy (e_uri ep)"
    and "build_agent_identity_ed25519 lib rid ep ups cv (b64encode sk) t max_age ''ok'' iss kid = Ret payload"
  shows "verify_agent_identity_payload_with_public_key lib payload (b64encode (ed_public lib sk)) (Some ep) now skew =
    (if t > now + skew then Raise (ValueError ''agent response issued_at is in the future'')
     else if t + max_age < now then Raise (ValueError ''agent response expired'')
     else Ret ((new_identity rid ep ups cv t max_age ''ok'' iss kid)\<lparr>ai_signature := jget0 payload ''signature''\<rparr>))"
proof -
  let ?a = "new_identity rid ep ups cv t max_age ''ok'' iss kid"
  have "identity_stable ?a" "ai_signature ?a = JNull" using assms(3,4) by (simp_all add: identity_stable_def new_identity_def)
  from identity_dict[OF this] obtain d where d: "identity_to_dict False ?a = Ret d" "jget0 d ''schema_version'' = ai_schema_version ?a"
    "\<And>s. identity_to_dict True (?a\<lparr>ai_signature := JStr s\<rparr>) = Ret (dict_set d ''signature'' (JStr s))"
    "\<And>s. identity_from_dict (dict_set d ''signature'' (JStr s)) = Ret (?a\<lparr>ai_signature := JStr s\<rparr>)"
    by blast
  let ?s = "sign_object_ed25519_key lib d sk"
  have sg: "sign_object_ed25519 lib d (b64encode sk) = Ret ?s"
    using assms(2) by (simp add: sign_object_ed25519_def sign_object_ed25519_key_def)
  have payload: "payload = dict_set d ''signature'' (JStr ?s)"
    using assms(6) d(1,3) sg by (simp add: build_agent_identity_ed25519_def Let_def)
  have ver: "verify_ed25519_signature lib payload (b64encode (ed_public lib sk))"
    using ed25519_check_signed[OF assms(1,2), of d]
    by (simp add: verify_ed25519_signature_def payload) (simp add: sign_object_ed25519_key_def)
  have schema: "jget0 payload ''schema_version'' = JStr AGENT_SCHEMA_VERSION" using d(2) by (simp add: payload new_identity_def)
  show ?thesis
    using ver schema d(4) matches_self[OF assms(3,5)]
    by (simp add: verify_agent_identity_payload_with_public_key_def validate_agent_identity_payload_def payload new_identity_def)
qed

theorem agent_identity_accepted_while_fresh_witness:
  "\<exists>payload a. build_agent_identity_ed25519 demo_ed25519 ''resolver-1'' demo_endpoint [] ''7'' (b64encode (replicate 32 1)) 100 30 ''ok'' ''resolver-agent'' ''agent-key-01'' = Ret payload \<and>
     verify_agent_identity_payload_with_public_key demo_ed25519 payload (b64encode (ed_public demo_ed25519 (replicate 32 1))) (Some demo_endpoint) 110 5 = Ret a \<and>
     verify_agent_identity_payload_with_public_key demo_ed25519 payload (b64encode (ed_public demo_ed25519 (replicate 32 1))) (Some demo_endpoint) 131 5 =
       Raise (ValueError ''agent response expired'')"
proof -
  have ok: "ed_private_ok demo_ed25519 (replicate 32 1)" by (simp add: demo_ed25519_def)
  let ?a = "new_identity ''resolver-1'' demo_endpoint [] ''7'' 100 30 ''ok'' ''resolver-agent'' ''agent-key-01''"
  have "identity_stable ?a" "ai_signature ?a = JNull" using demo_endpoint_stable by (simp_all add: identity_stable_def new_identity_def)
  from identity_dict[OF this] obtain d where "identity_to_dict False ?a = Ret d"
    "\<And>s. identity_to_dict True (?a\<lparr>ai_signature := JStr s\<rparr>) = Ret (dict_set d ''signature'' (JStr s))" by blast
  then obtain payload where p: "build_agent_identity_ed25519 demo_ed25519 ''resolver-1'' demo_endpoint [] ''7'' (b64encode (replicate 32 1)) 100 30 ''ok'' ''resolver-agent'' ''agent-key-01'' = Ret payload"
    using ok by (auto simp: build_agent_identity_ed25519_def Let_def sign_object_ed25519_def sign_object_ed25519_key_def)
  have "truthy (e_ip demo_endpoint) \<or> truthy (e_server_name demo_endpoint) \<or> truthy (e_uri demo_endpoint)" by (simp add: demo_endpoint_def)
  note r = agent_identity_accepted_while_fresh[OF demo_ed25519_correct ok demo_endpoint_stable _ this p]
  show ?thesis using p r[of 110 5] r[of 131 5] by simp
qed

end
