(* ===== verification/VerificationChain.thy ===== *)
theory VerificationChain
  imports AgentIdentity
begin

text \<open>
  \<open>agent/verification_chain.py\<close>: the signed statements in which an agent reports how it verified its
  upstream resolvers, and the trees of such statements that a client validates.
\<close>

definition HOP_VERIFICATION_SCHEMA_VERSION :: string where
  "HOP_VERIFICATION_SCHEMA_VERSION = ''resolver-identity-hop-verification-v1''"

definition VERIFICATION_CHAIN_SCHEMA_VERSION :: string where
  "VERIFICATION_CHAIN_SCHEMA_VERSION = ''resolver-identity-verification-chain-v1''"

section \<open>Hops\<close>

record hop =
  h_from_resolver_id :: json
  h_from_endpoint :: endpoint
  h_upstream_endpoint :: endpoint
  h_accepted :: bool
  h_status :: json
  h_upstream_resolver_id :: json
  h_reasons :: "json list"
  h_evidence :: jdict
  h_issued_at :: int
  h_expires_at :: "int option"
  h_issuer :: json
  h_key_id :: json
  h_schema_version :: json
  h_signature :: json

text \<open>\<open>normalize_hop_evidence\<close>: defaults for what the evidence does not say.\<close>

definition normalize_hop_evidence ::
  "jdict \<Rightarrow> string \<Rightarrow> json \<Rightarrow> endpoint \<Rightarrow> bool \<Rightarrow> string \<Rightarrow> string list \<Rightarrow> int \<Rightarrow> int \<Rightarrow> string \<Rightarrow> string \<Rightarrow> jdict res" where
  "normalize_hop_evidence evidence from_resolver_id upstream_resolver_id upstream_endpoint accepted status reasons
     issued_at expires_at issuer key_id =
     bind_res (endpoint_json upstream_endpoint) (\<lambda>ep.
     let out1 = dict_setdefault evidence ''from_resolver_id'' (JStr from_resolver_id);
         out2 = dict_setdefault out1 ''upstream_resolver_id'' upstream_resolver_id;
         out3 = dict_setdefault out2 ''upstream_endpoint'' ep;
         out4 = dict_setdefault out3 ''upstream_type'' (JStr ''recursive_or_forwarder'');
         out5 = dict_setdefault out4 ''verification_result'' (JStr (if accepted then ''VERIFIED'' else ''REJECTED''));
         out6 = dict_setdefault out5 ''resolver_status'' (jget out5 ''chain_status'' (JStr status));
         out7 = dict_setdefault out6 ''root_status'' (jget out6 ''root_status'' (if accepted then JStr ''ACTIVE'' else JNull));
         out8 = dict_setdefault out7 ''endpoint_binding_status'' (jget out7 ''endpoint_binding_status'' (if accepted then JStr ''MATCHED'' else JNull));
         out9 = dict_setdefault out8 ''issuer'' (JStr issuer);
         out10 = dict_setdefault out9 ''key_id'' (JStr key_id);
         out11 = dict_setdefault out10 ''checked_at'' (JInt issued_at);
         out12 = dict_setdefault out11 ''expires_at'' (JInt expires_at);
         out13 = dict_setdefault out12 ''config_version'' (jget0 out12 ''object_version'');
         out14 = dict_setdefault out13 ''verifier_agent_id'' (JStr from_resolver_id);
         out15 = dict_setdefault out14 ''hop_status'' (JStr status);
         out16 = dict_setdefault out15 ''hop_accepted'' (JBool accepted)
     in Ret (dict_setdefault out16 ''hop_reasons'' (JArr (map JStr reasons))))"

definition hop_from_verification_result ::
  "string \<Rightarrow> endpoint \<Rightarrow> endpoint \<Rightarrow> verification_result \<Rightarrow> int \<Rightarrow> int \<Rightarrow> string \<Rightarrow> string \<Rightarrow> hop res" where
  "hop_from_verification_result from_resolver_id from_endpoint upstream_endpoint verification now max_age_seconds issuer key_id =
     bind_res (normalized from_endpoint) (\<lambda>fe.
     bind_res (normalized upstream_endpoint) (\<lambda>ue.
     bind_res (normalize_hop_evidence (vr_evidence verification) from_resolver_id (vr_resolver_id verification) upstream_endpoint
        (vr_accepted verification) (vr_status verification) (vr_reasons verification) now (now + max_age_seconds) issuer key_id) (\<lambda>ev.
     Ret \<lparr>h_from_resolver_id = JStr from_resolver_id, h_from_endpoint = fe, h_upstream_endpoint = ue,
          h_accepted = vr_accepted verification, h_status = JStr (vr_status verification),
          h_upstream_resolver_id = vr_resolver_id verification, h_reasons = map JStr (vr_reasons verification), h_evidence = ev,
          h_issued_at = now, h_expires_at = Some (now + max_age_seconds), h_issuer = JStr issuer, h_key_id = JStr key_id,
          h_schema_version = JStr HOP_VERIFICATION_SCHEMA_VERSION, h_signature = JNull\<rparr>)))"

text \<open>\<open>int(data["expires_at"]) if data.get("expires_at") is not None else None\<close>.\<close>

definition opt_int :: "jdict \<Rightarrow> string \<Rightarrow> int option res" where
  "opt_int data k = (if jget0 data k = JNull then Ret None else bind_res (json_int (jget0 data k)) (\<lambda>i. Ret (Some i)))"

definition hop_from_dict :: "json \<Rightarrow> hop res" where
  "hop_from_dict v =
     bind_res (as_dict v) (\<lambda>data.
     bind_res (jitem data ''from_resolver_id'') (\<lambda>from_id.
     bind_res (bind_res (jitem data ''from_endpoint'') endpoint_of_json) (\<lambda>fe.
     bind_res (bind_res (jitem data ''upstream_endpoint'') endpoint_of_json) (\<lambda>ue.
     bind_res (jitem data ''accepted'') (\<lambda>accepted.
     bind_res (jitem data ''status'') (\<lambda>status.
     bind_res (as_list (jor (jget0 data ''reasons'') (JArr []))) (\<lambda>reasons.
     bind_res (dict_of_json (jor (jget0 data ''evidence'') (JObj []))) (\<lambda>evidence.
     bind_res (bind_res (jitem data ''issued_at'') json_int) (\<lambda>issued_at.
     bind_res (opt_int data ''expires_at'') (\<lambda>expires_at.
     Ret \<lparr>h_from_resolver_id = from_id, h_from_endpoint = fe, h_upstream_endpoint = ue, h_accepted = truthy accepted,
          h_status = status, h_upstream_resolver_id = jget0 data ''upstream_resolver_id'', h_reasons = reasons,
          h_evidence = evidence, h_issued_at = issued_at, h_expires_at = expires_at,
          h_issuer = jget data ''issuer'' (JStr ''resolver-agent''), h_key_id = jget data ''key_id'' (JStr ''agent-key-01''),
          h_schema_version = jget data ''schema_version'' (JStr HOP_VERIFICATION_SCHEMA_VERSION),
          h_signature = jget0 data ''signature''\<rparr>))))))))))"

definition hop_to_dict :: "bool \<Rightarrow> hop \<Rightarrow> jdict res" where
  "hop_to_dict include_signature h =
     bind_res (endpoint_json (h_from_endpoint h)) (\<lambda>fe.
     bind_res (endpoint_json (h_upstream_endpoint h)) (\<lambda>ue.
     Ret ([(''schema_version'', h_schema_version h), (''from_resolver_id'', h_from_resolver_id h), (''from_endpoint'', fe),
           (''upstream_endpoint'', ue), (''upstream_resolver_id'', h_upstream_resolver_id h), (''accepted'', JBool (h_accepted h)),
           (''status'', h_status h), (''reasons'', JArr (h_reasons h)), (''evidence'', JObj (h_evidence h)),
           (''issued_at'', JInt (h_issued_at h)),
           (''expires_at'', JInt (case h_expires_at h of Some t \<Rightarrow> t | None \<Rightarrow> h_issued_at h + 30)),
           (''issuer'', h_issuer h), (''key_id'', h_key_id h)]
          @ (if include_signature \<and> h_signature h \<noteq> JNull then [(''signature'', h_signature h)] else []))))"

text \<open>\<open>**self.evidence\<close> that repeats a named argument raises.  A status or reason that is not text becomes text in the
  result.\<close>

definition hop_to_verification_result :: "hop \<Rightarrow> verification_result res" where
  "hop_to_verification_result h =
     (if h_accepted h
      then (if dict_get (h_evidence h) ''status'' \<noteq> None \<or> dict_get (h_evidence h) ''resolver_id'' \<noteq> None \<or> dict_get (h_evidence h) ''cls'' \<noteq> None
            then Raise (TypeError ''got multiple values for argument'')
            else Ret (vr_accept (jor (h_upstream_resolver_id h) (JStr [])) (py_str (h_status h)) (h_evidence h)))
      else (if dict_get (h_evidence h) ''reason'' \<noteq> None \<or> dict_get (h_evidence h) ''resolver_id'' \<noteq> None \<or> dict_get (h_evidence h) ''cls'' \<noteq> None
            then Raise (TypeError ''got multiple values for argument'')
            else Ret (vr_reject (case h_reasons h of r # _ \<Rightarrow> py_str r | [] \<Rightarrow> ''hop_verification_failed'')
                   (h_upstream_resolver_id h) (h_evidence h))))"

section \<open>Chains\<close>

datatype chain = Chain
  (ch_resolver_id: json) (ch_endpoint: endpoint) (ch_config_version: string) (ch_challenge: json)
  (ch_hops: "hop list") (ch_downstream_chains: "chain list") (ch_terminal_upstreams: "endpoint list")
  (ch_chain_errors: "json list") (ch_final_result: bool) (ch_issued_at: int) (ch_expires_at: "int option")
  (ch_issuer: json) (ch_key_id: json) (ch_schema_version: json) (ch_signature: json)

lemma size_jget: "jget d k dflt = v \<Longrightarrow> v \<noteq> dflt \<Longrightarrow> size v < size (JObj d)"
proof -
  assume "jget d k dflt = v" "v \<noteq> dflt"
  then have "(k, v) \<in> set d" by (auto simp: jget_def dict_get_def split: option.splits dest: map_of_SomeD)
  then show ?thesis by (induction d) auto
qed

lemma size_JArr_elem: "x \<in> set xs \<Longrightarrow> size x < size (JArr xs)"
  by (induction xs) auto

lemma size_downstream:
  assumes "as_list (jget data ''downstream_chains'' (JArr [])) = Ret items" and "JObj d \<in> set items"
  shows "size (JObj d) < size (JObj data)"
proof -
  obtain xs where xs: "jget data ''downstream_chains'' (JArr []) = JArr xs" "JObj d \<in> set xs"
    using assms by (cases "jget data ''downstream_chains'' (JArr [])") auto
  then have "size (JArr xs) < size (JObj data)" by (intro size_jget) auto
  with size_JArr_elem[OF xs(2)] show ?thesis by simp
qed

function chain_from_dict :: "jdict \<Rightarrow> chain res" where
  "chain_from_dict data =
     bind_res (jitem data ''resolver_id'') (\<lambda>resolver_id.
     bind_res (bind_res (jitem data ''endpoint'') endpoint_of_json) (\<lambda>ep.
     bind_res (jitem data ''config_version'') (\<lambda>config_version.
     bind_res (bind_res (as_list (jget data ''hops'' (JArr []))) (map_res hop_from_dict)) (\<lambda>hops.
     bind_res (as_list (jget data ''downstream_chains'' (JArr []))) (\<lambda>items.
     bind_res (map_res (\<lambda>item. case item of JObj d \<Rightarrow> chain_from_dict d | _ \<Rightarrow> Raise (AttributeError ''not a dict'')) items) (\<lambda>downstream.
     bind_res (bind_res (as_list (jget data ''terminal_upstreams'' (JArr []))) (map_res endpoint_of_json)) (\<lambda>terminals.
     bind_res (as_list (jor (jget0 data ''chain_errors'') (JArr []))) (\<lambda>errors.
     bind_res (bind_res (jitem data ''issued_at'') json_int) (\<lambda>issued_at.
     bind_res (opt_int data ''expires_at'') (\<lambda>expires_at.
     Ret (Chain resolver_id ep (py_str config_version) (jget0 data ''challenge'') hops downstream terminals errors
       (truthy (jget data ''final_result'' (JBool False))) issued_at expires_at (jget data ''issuer'' (JStr ''resolver-agent''))
       (jget data ''key_id'' (JStr ''agent-key-01'')) (jget data ''schema_version'' (JStr VERIFICATION_CHAIN_SCHEMA_VERSION))
       (jget0 data ''signature''))))))))))))"
  by pat_completeness auto

termination
  by (relation "measure (\<lambda>d. size (JObj d))") (auto dest: size_downstream)

declare chain_from_dict.simps [simp del]

primrec chain_to_dict :: "bool \<Rightarrow> chain \<Rightarrow> jdict res" where
  "chain_to_dict include_signature (Chain resolver_id ep config_version challenge hops downstream terminals errors final issued_at expires_at
       issuer key_id schema signature) =
     bind_res (endpoint_json ep) (\<lambda>epj.
     bind_res (map_res (hop_to_dict True) hops) (\<lambda>hs.
     bind_res (map_res id (map (chain_to_dict True) downstream)) (\<lambda>ds.
     bind_res (map_res endpoint_json terminals) (\<lambda>ts.
     Ret ([(''schema_version'', schema), (''resolver_id'', resolver_id), (''endpoint'', epj),
           (''config_version'', JStr config_version), (''challenge'', challenge), (''hops'', JArr (map JObj hs)),
           (''downstream_chains'', JArr (map JObj ds)), (''terminal_upstreams'', JArr ts), (''chain_errors'', JArr errors),
           (''final_result'', JBool final), (''issued_at'', JInt issued_at),
           (''expires_at'', JInt (case expires_at of Some t \<Rightarrow> t | None \<Rightarrow> issued_at + 30)), (''issuer'', issuer), (''key_id'', key_id)]
          @ (if include_signature \<and> signature \<noteq> JNull then [(''signature'', signature)] else []))))))"

section \<open>Validation of a chain\<close>

text \<open>The loop over the hops of a node: the (resolver, endpoint) pairs seen, the accepted hops by resolver,
  and whether everything was accepted so far.\<close>

fun check_hops :: "json \<Rightarrow> endpoint \<Rightarrow> hop list \<Rightarrow> (json \<times> string) list \<Rightarrow> (json, hop) dict \<Rightarrow> bool \<Rightarrow> ((json, hop) dict \<times> bool) res" where
  "check_hops resolver_id ep [] hop_keys accepted effective = Ret (accepted, effective)"
| "check_hops resolver_id ep (h # hs) hop_keys accepted effective =
     bind_res (if h_from_resolver_id h \<noteq> resolver_id then Ret False else matches (h_from_endpoint h) ep) (\<lambda>own.
     if \<not> own then Raise (ValueError ''hop signer does not match enclosing chain'')
     else bind_res (endpoint_lookup_key (h_upstream_endpoint h)) (\<lambda>key.
       let uid = h_upstream_resolver_id h in
       if \<not> hashable uid then Raise (TypeError ''unhashable type'')
       else if (uid, key) \<in> set hop_keys then Raise (ValueError ''duplicate verification hop'')
       else if \<not> h_accepted h then check_hops resolver_id ep hs ((uid, key) # hop_keys) accepted False
       else if \<not> truthy uid then Raise (ValueError ''accepted hop missing upstream resolver_id'')
       else if dict_get accepted uid \<noteq> None then Raise (ValueError ''duplicate accepted upstream resolver_id'')
       else check_hops resolver_id ep hs ((uid, key) # hop_keys) (dict_set accepted uid h) effective))"

fun check_terminals :: "endpoint list \<Rightarrow> string list \<Rightarrow> hop list \<Rightarrow> chain list \<Rightarrow> unit res" where
  "check_terminals [] terminal_keys hops downstream = Ret ()"
| "check_terminals (t # ts) terminal_keys hops downstream =
     bind_res (endpoint_lookup_key t) (\<lambda>terminal_key.
     if terminal_key \<in> set terminal_keys then Raise (ValueError ''duplicate terminal upstream'')
     else bind_res (any_res (\<lambda>h. bind_res (endpoint_lookup_key (h_upstream_endpoint h)) (\<lambda>k. Ret (k = terminal_key))) hops) (\<lambda>b1.
     if b1 then Raise (ValueError ''terminal upstream overlaps resolver hop'')
     else bind_res (any_res (\<lambda>c. bind_res (endpoint_lookup_key (ch_endpoint c)) (\<lambda>k. Ret (k = terminal_key))) downstream) (\<lambda>b2.
     if b2 then Raise (ValueError ''terminal upstream overlaps downstream chain'')
     else check_terminals ts (terminal_key # terminal_keys) hops downstream)))"

definition check_capable :: "(json, hop) dict \<Rightarrow> json list \<Rightarrow> unit res" where
  "check_capable accepted consumed =
     (if list_ex (\<lambda>(uid, h). truthy (jget0 (h_evidence h) ''agent_public_key'') \<and> uid \<notin> set consumed) accepted
      then Raise (ValueError ''Agent-capable resolver hop missing downstream chain'') else Ret ())"

text \<open>A node and the loop over its downstream chains; the number of nodes visited is threaded through.\<close>

fun validate_node :: "int \<Rightarrow> chain \<Rightarrow> int \<Rightarrow> (bool \<times> int) res"
and validate_downstream :: "int \<Rightarrow> json \<Rightarrow> (json, hop) dict \<Rightarrow> chain list \<Rightarrow> json list \<Rightarrow> bool \<Rightarrow> int \<Rightarrow> (json list \<times> bool \<times> int) res" where
  "validate_node max_nodes (Chain resolver_id ep config_version challenge hops downstream terminals errors final issued_at expires_at
       issuer key_id schema signature) nodes =
     (if nodes + 1 > max_nodes then Raise (ValueError ''verification chain exceeds maximum node count'')
      else bind_res (check_hops resolver_id ep hops [] [] (errors = [])) (\<lambda>(accepted, effective).
        bind_res (check_terminals terminals [] hops downstream) (\<lambda>_.
        bind_res (validate_downstream max_nodes challenge accepted downstream [] effective (nodes + 1)) (\<lambda>(consumed, effective2, nodes2).
        bind_res (check_capable accepted consumed) (\<lambda>_.
        if final \<noteq> effective2 then Raise (ValueError ''verification chain final_result is inconsistent'')
        else Ret (effective2, nodes2))))))"
| "validate_downstream max_nodes challenge accepted [] consumed effective nodes = Ret (consumed, effective, nodes)"
| "validate_downstream max_nodes challenge accepted (c # cs) consumed effective nodes =
     (if ch_challenge c \<noteq> challenge then Raise (ValueError ''downstream chain challenge mismatch'')
      else if \<not> hashable (ch_resolver_id c) then Raise (TypeError ''unhashable type'')
      else if ch_resolver_id c \<in> set consumed then Raise (ValueError ''duplicate downstream chain'')
      else (case dict_get accepted (ch_resolver_id c) of
          None \<Rightarrow> Raise (ValueError ''downstream chain lacks accepted parent hop'')
        | Some parent_hop \<Rightarrow>
            bind_res (matches (ch_endpoint c) (h_upstream_endpoint parent_hop)) (\<lambda>m.
            if \<not> m then Raise (ValueError ''downstream chain endpoint does not match parent hop'')
            else bind_res (validate_node max_nodes c nodes) (\<lambda>(ok, nodes2).
              validate_downstream max_nodes challenge accepted cs (ch_resolver_id c # consumed) (effective \<and> ok) nodes2))))"

definition validate_verification_chain_semantics :: "chain \<Rightarrow> int \<Rightarrow> unit res" where
  "validate_verification_chain_semantics c max_nodes = bind_res (validate_node max_nodes c 0) (\<lambda>_. Ret ())"

section \<open>Integrity of a hop's evidence\<close>

definition evidence_in :: "jdict \<Rightarrow> string \<Rightarrow> json list \<Rightarrow> bool" where
  "evidence_in ev k vs = (jget0 ev k \<in> set vs)"

text \<open>\<open>int(evidence[k]) op int(\<dots>)\<close> when the evidence has the key.\<close>

definition evidence_int :: "jdict \<Rightarrow> string \<Rightarrow> (int \<Rightarrow> bool) \<Rightarrow> bool res" where
  "evidence_int ev k bad = (if jget0 ev k = JNull then Ret False else bind_res (json_int (jget0 ev k)) (\<lambda>i. Ret (bad i)))"

definition boundary_types :: "json list" where
  "boundary_types = map JStr [''terminal'', ''terminal_upstream'', ''authoritative'', ''authoritative_boundary'', ''external'', ''external_boundary'']"

definition validate_accepted_evidence :: "hop \<Rightarrow> unit res" where
  "validate_accepted_evidence h =
     (let ev = h_evidence h in
      if evidence_in ev ''upstream_type'' boundary_types then Raise (ValueError ''terminal boundary must not appear as verified resolver hop'')
      else if evidence_in ev ''object_hash'' [JNull, JStr []] then Raise (ValueError ''hop evidence missing object_hash'')
      else if jget0 ev ''object_version'' = JNull then Raise (ValueError ''hop evidence missing object_version'')
      else if evidence_in ev ''state_root'' [JNull, JStr []] then Raise (ValueError ''hop evidence missing state_root'')
      else if \<not> evidence_in ev ''resolver_status'' [JStr ''ACTIVE'', JNull] then Raise (ValueError ''hop evidence resolver_status is not ACTIVE'')
      else if \<not> evidence_in ev ''root_status'' [JStr ''ACTIVE'', JNull] then Raise (ValueError ''hop evidence root_status is not ACTIVE'')
      else if \<not> evidence_in ev ''endpoint_binding_status'' [JStr ''MATCHED'', JNull] then Raise (ValueError ''hop evidence endpoint binding is not matched'')
      else bind_res (if truthy (h_upstream_resolver_id h)
                     then bind_res (as_str (h_upstream_resolver_id h)) (\<lambda>i. Ret (evidence_in ev ''resolver_id_key'' [JNull, JStr (resolver_id_key i)]))
                     else Ret True) (\<lambda>id_ok.
        if \<not> id_ok then Raise (ValueError ''hop evidence resolver_id_key mismatch'')
        else bind_res (endpoint_lookup_key (h_upstream_endpoint h)) (\<lambda>expected_endpoint_key.
          if \<not> evidence_in ev ''endpoint_key'' [JNull, JStr expected_endpoint_key] then Raise (ValueError ''hop evidence endpoint_key mismatch'')
          else Ret ())))"

definition validate_hop_evidence_integrity :: "hop \<Rightarrow> unit res" where
  "validate_hop_evidence_integrity h =
     (let ev = h_evidence h in
      if \<not> evidence_in ev ''from_resolver_id'' [JNull, h_from_resolver_id h] then Raise (ValueError ''hop evidence from_resolver_id mismatch'')
      else if \<not> evidence_in ev ''upstream_resolver_id'' [JNull, h_upstream_resolver_id h] then Raise (ValueError ''hop evidence upstream_resolver_id mismatch'')
      else bind_res (if jget0 ev ''upstream_endpoint'' = JNull then Ret True
                     else bind_res (endpoint_of_json (jget0 ev ''upstream_endpoint'')) (\<lambda>e. matches e (h_upstream_endpoint h))) (\<lambda>ep_ok.
      if \<not> ep_ok then Raise (ValueError ''hop evidence upstream_endpoint mismatch'')
      else if \<not> evidence_in ev ''verification_result'' [JNull, JStr (if h_accepted h then ''VERIFIED'' else ''REJECTED'')]
        then Raise (ValueError ''hop evidence verification_result mismatch'')
      else bind_res (if h_accepted h then validate_accepted_evidence h else Ret ()) (\<lambda>_.
      bind_res (evidence_int ev ''checked_at'' (\<lambda>i. i > h_issued_at h)) (\<lambda>late.
      if late then Raise (ValueError ''hop evidence checked_at is after hop issued_at'')
      else bind_res (evidence_int ev ''expires_at'' (\<lambda>i. i \<noteq> (case h_expires_at h of None \<Rightarrow> 0 | Some t \<Rightarrow> t))) (\<lambda>differs.
      if differs then Raise (ValueError ''hop evidence expires_at mismatch'')
      else if \<not> evidence_in ev ''verifier_agent_id'' [JNull, h_from_resolver_id h] then Raise (ValueError ''hop evidence verifier_agent_id mismatch'')
      else Ret ())))))"

section \<open>Signing and checking\<close>

definition sign_hop_verification_result :: "ed25519 \<Rightarrow> hop \<Rightarrow> string \<Rightarrow> (hop \<times> jdict) res" where
  "sign_hop_verification_result lib h private_key_b64 =
     bind_res (hop_to_dict False h) (\<lambda>unsigned_dict.
     bind_res (sign_object_ed25519 lib unsigned_dict private_key_b64) (\<lambda>signature.
     let h' = h\<lparr>h_signature := JStr signature\<rparr> in bind_res (hop_to_dict True h') (\<lambda>d. Ret (h', d))))"

fun with_chain_signature :: "chain \<Rightarrow> json \<Rightarrow> chain" where
  "with_chain_signature (Chain a b c d e f g h i j k l m n _) s = Chain a b c d e f g h i j k l m n s"

definition sign_verification_chain :: "ed25519 \<Rightarrow> chain \<Rightarrow> string \<Rightarrow> jdict res" where
  "sign_verification_chain lib c private_key_b64 =
     bind_res (chain_to_dict False c) (\<lambda>unsigned_dict.
     bind_res (sign_object_ed25519 lib unsigned_dict private_key_b64) (\<lambda>signature.
     chain_to_dict True (with_chain_signature c (JStr signature))))"

definition validate_signed_window :: "int \<Rightarrow> int option \<Rightarrow> int \<Rightarrow> int \<Rightarrow> unit res" where
  "validate_signed_window issued_at expires_at now max_clock_skew_seconds =
     (if issued_at > now + max_clock_skew_seconds then Raise (ValueError ''issued_at is in the future'')
      else (case expires_at of None \<Rightarrow> Raise (ValueError ''expired'')
            | Some t \<Rightarrow> if t < now then Raise (ValueError ''expired'') else Ret ()))"

text \<open>A public key that is not text never verifies anything.\<close>

definition verify_signed_by :: "ed25519 \<Rightarrow> jdict \<Rightarrow> json \<Rightarrow> bool" where
  "verify_signed_by lib payload public_key = (case public_key of JStr k \<Rightarrow> verify_ed25519_signature lib payload k | _ \<Rightarrow> False)"

definition expect_match :: "endpoint \<Rightarrow> endpoint option \<Rightarrow> string \<Rightarrow> unit res" where
  "expect_match e expected msg =
     (case expected of None \<Rightarrow> Ret () | Some x \<Rightarrow> bind_res (matches e x) (\<lambda>m. if m then Ret () else Raise (ValueError msg)))"

definition verify_hop_verification_result_payload ::
  "ed25519 \<Rightarrow> jdict \<Rightarrow> json \<Rightarrow> json \<Rightarrow> endpoint option \<Rightarrow> int \<Rightarrow> int \<Rightarrow> hop res" where
  "verify_hop_verification_result_payload lib payload public_key expected_from_resolver_id expected_from_endpoint now max_clock_skew_seconds =
     (if jget0 payload ''schema_version'' \<noteq> JStr HOP_VERIFICATION_SCHEMA_VERSION then Raise (ValueError ''unsupported hop verification schema_version'')
      else if \<not> verify_signed_by lib payload public_key then Raise (ValueError ''hop verification signature invalid'')
      else bind_res (hop_from_dict (JObj payload)) (\<lambda>h.
      bind_res (validate_signed_window (h_issued_at h) (h_expires_at h) now max_clock_skew_seconds) (\<lambda>_.
      if expected_from_resolver_id \<noteq> JNull \<and> h_from_resolver_id h \<noteq> expected_from_resolver_id
      then Raise (ValueError ''hop verification signer resolver_id mismatch'')
      else bind_res (expect_match (h_from_endpoint h) expected_from_endpoint ''hop verification signer endpoint mismatch'') (\<lambda>_.
      bind_res (validate_hop_evidence_integrity h) (\<lambda>_. Ret h)))))"

definition verify_verification_chain_payload ::
  "ed25519 \<Rightarrow> jdict \<Rightarrow> json \<Rightarrow> json \<Rightarrow> endpoint option \<Rightarrow> int \<Rightarrow> int \<Rightarrow> json \<Rightarrow> chain res" where
  "verify_verification_chain_payload lib payload public_key expected_resolver_id expected_endpoint now max_clock_skew_seconds expected_challenge =
     (if jget0 payload ''schema_version'' \<noteq> JStr VERIFICATION_CHAIN_SCHEMA_VERSION then Raise (ValueError ''unsupported verification chain schema_version'')
      else if \<not> verify_signed_by lib payload public_key then Raise (ValueError ''verification chain signature invalid'')
      else bind_res (chain_from_dict payload) (\<lambda>c.
      bind_res (validate_signed_window (ch_issued_at c) (ch_expires_at c) now max_clock_skew_seconds) (\<lambda>_.
      if expected_resolver_id \<noteq> JNull \<and> ch_resolver_id c \<noteq> expected_resolver_id then Raise (ValueError ''verification chain resolver_id mismatch'')
      else bind_res (expect_match (ch_endpoint c) expected_endpoint ''verification chain endpoint mismatch'') (\<lambda>_.
      if expected_challenge \<noteq> JNull \<and> ch_challenge c \<noteq> expected_challenge then Raise (ValueError ''verification chain challenge mismatch'')
      else bind_res (validate_verification_chain_semantics c 64) (\<lambda>_. Ret c)))))"

section \<open>What a validated chain guarantees\<close>

text \<open>A node is clean when nothing in it was refused.\<close>

definition clean_node :: "chain \<Rightarrow> bool" where
  "clean_node c \<longleftrightarrow> ch_chain_errors c = [] \<and> (\<forall>h\<in>set (ch_hops c). h_accepted h)"

primrec all_nodes :: "(chain \<Rightarrow> bool) \<Rightarrow> chain \<Rightarrow> bool" where
  "all_nodes P (Chain a b c d e f g h i j k l m n s) \<longleftrightarrow> P (Chain a b c d e f g h i j k l m n s) \<and> list_all id (map (all_nodes P) f)"

primrec node_count :: "chain \<Rightarrow> int" where
  "node_count (Chain a b c d e f g h i j k l m n s) = 1 + sum_list (map node_count f)"

text \<open>A node is linked to the nodes below it: its hops were reported by itself; each downstream chain
  answers the same challenge and has an accepted hop of its own resolver at a matching endpoint; each accepted
  hop whose resolver has an agent key has such a chain.\<close>

definition linked_node :: "chain \<Rightarrow> bool" where
  "linked_node c \<longleftrightarrow>
     (\<forall>h\<in>set (ch_hops c). h_from_resolver_id h = ch_resolver_id c \<and> matches (h_from_endpoint h) (ch_endpoint c) = Ret True) \<and>
     (\<forall>x\<in>set (ch_downstream_chains c). ch_challenge x = ch_challenge c \<and>
        (\<exists>h\<in>set (ch_hops c). h_accepted h \<and> h_upstream_resolver_id h = ch_resolver_id x \<and>
           matches (ch_endpoint x) (h_upstream_endpoint h) = Ret True)) \<and>
     (\<forall>h\<in>set (ch_hops c). h_accepted h \<and> truthy (jget0 (h_evidence h) ''agent_public_key'') \<longrightarrow>
        (\<exists>x\<in>set (ch_downstream_chains c). ch_resolver_id x = h_upstream_resolver_id h))"

lemma check_hops_result:
  assumes "check_hops rid ep hs keys acc eff = Ret (acc', eff')"
  shows "eff' = (eff \<and> (\<forall>h\<in>set hs. h_accepted h)) \<and>
     (\<forall>h\<in>set hs. h_from_resolver_id h = rid \<and> matches (h_from_endpoint h) ep = Ret True) \<and>
     (\<forall>u h. dict_get acc' u = Some h \<longrightarrow> dict_get acc u = Some h \<or> (h \<in> set hs \<and> h_accepted h \<and> h_upstream_resolver_id h = u)) \<and>
     (\<forall>u h. dict_get acc u = Some h \<longrightarrow> dict_get acc' u = Some h) \<and>
     (\<forall>h\<in>set hs. h_accepted h \<longrightarrow> dict_get acc' (h_upstream_resolver_id h) = Some h)"
  using assms
proof (induction hs arbitrary: keys acc eff)
  case (Cons h hs)
  obtain own where own: "(if h_from_resolver_id h \<noteq> rid then Ret False else matches (h_from_endpoint h) ep) = Ret own" "own"
    using Cons.prems by (auto split: if_splits)
  then have o: "h_from_resolver_id h = rid" "matches (h_from_endpoint h) ep = Ret True" by (auto split: if_splits)
  obtain key where k: "endpoint_lookup_key (h_upstream_endpoint h) = Ret key" using Cons.prems o by (auto split: if_splits)
  show ?case
  proof (cases "h_accepted h")
    case False
    then have "check_hops rid ep hs ((h_upstream_resolver_id h, key) # keys) acc False = Ret (acc', eff')"
      using Cons.prems o k by (auto simp: Let_def split: if_splits)
    from Cons.IH[OF this] False o show ?thesis by auto
  next
    case True
    then have n: "dict_get acc (h_upstream_resolver_id h) = None"
      and r: "check_hops rid ep hs ((h_upstream_resolver_id h, key) # keys) (dict_set acc (h_upstream_resolver_id h) h) eff = Ret (acc', eff')"
      using Cons.prems o k by (auto simp: Let_def split: if_splits)
    note ih = Cons.IH[OF r, unfolded dict_get_set]
    have a: "dict_get acc' (h_upstream_resolver_id h) = Some h" using ih by auto
    show ?thesis
    proof (intro conjI)
      show "\<forall>u g. dict_get acc' u = Some g \<longrightarrow> dict_get acc u = Some g \<or> (g \<in> set (h # hs) \<and> h_accepted g \<and> h_upstream_resolver_id g = u)"
      proof (intro allI impI)
        fix u g assume g: "dict_get acc' u = Some g"
        then have "(if u = h_upstream_resolver_id h then Some h else dict_get acc u) = Some g \<or>
            (g \<in> set hs \<and> h_accepted g \<and> h_upstream_resolver_id g = u)" using ih by blast
        then show "dict_get acc u = Some g \<or> (g \<in> set (h # hs) \<and> h_accepted g \<and> h_upstream_resolver_id g = u)"
          using a g True by (cases "u = h_upstream_resolver_id h") auto
      qed
      show "\<forall>u g. dict_get acc u = Some g \<longrightarrow> dict_get acc' u = Some g" using ih n by (metis option.distinct(1))
    qed (use ih a True o in auto)
  qed
qed simp

lemma validate_downstream_links:
  "validate_downstream mx challenge acc cs consumed eff n = Ret (consumed', eff', n') \<Longrightarrow>
     set consumed' = set consumed \<union> ch_resolver_id ` set cs \<and>
     (\<forall>x\<in>set cs. ch_challenge x = challenge \<and> (\<exists>h. dict_get acc (ch_resolver_id x) = Some h \<and>
        matches (ch_endpoint x) (h_upstream_endpoint h) = Ret True))"
proof (induction cs arbitrary: consumed eff n)
  case (Cons x cs)
  obtain h ok n2 where h: "dict_get acc (ch_resolver_id x) = Some h" "matches (ch_endpoint x) (h_upstream_endpoint h) = Ret True"
    "ch_challenge x = challenge"
    and r: "validate_downstream mx challenge acc cs (ch_resolver_id x # consumed) (eff \<and> ok) n2 = Ret (consumed', eff', n')"
    using Cons.prems by (auto split: if_splits option.splits prod.splits)
  from Cons.IH[OF r] h show ?case by auto
qed simp

lemma all_nodes_unfold: "all_nodes P c \<longleftrightarrow> P c \<and> (\<forall>x\<in>set (ch_downstream_chains c). all_nodes P x)"
  by (cases c) (simp add: list_all_iff)

lemma node_count_unfold: "node_count c = 1 + sum_list (map node_count (ch_downstream_chains c))"
  by (cases c) simp

lemma validate_node_step:
  assumes "validate_node mx c n = Ret (eff, n')"
  obtains acc eff1 consumed where "check_hops (ch_resolver_id c) (ch_endpoint c) (ch_hops c) [] [] (ch_chain_errors c = []) = Ret (acc, eff1)"
    "validate_downstream mx (ch_challenge c) acc (ch_downstream_chains c) [] eff1 (n + 1) = Ret (consumed, eff, n')"
    "check_capable acc consumed = Ret ()" "ch_final_result c = eff" "n + 1 \<le> mx"
  using assms by (cases c) (auto split: if_splits)

lemma validate_node_linked:
  assumes "validate_node mx c n = Ret (eff, n')"
  shows "linked_node c"
proof -
  obtain acc eff1 consumed where s: "check_hops (ch_resolver_id c) (ch_endpoint c) (ch_hops c) [] [] (ch_chain_errors c = []) = Ret (acc, eff1)"
    "validate_downstream mx (ch_challenge c) acc (ch_downstream_chains c) [] eff1 (n + 1) = Ret (consumed, eff, n')"
    "check_capable acc consumed = Ret ()"
    using assms by (rule validate_node_step)
  note h = check_hops_result[OF s(1)] and d = validate_downstream_links[OF s(2)]
  have cap: "u \<in> set consumed" if "dict_get acc u = Some g" "truthy (jget0 (h_evidence g) ''agent_public_key'')" for u g
    using s(3) dict_get_in_set[OF that(1)] that(2) by (auto simp: check_capable_def list_ex_iff split: if_splits)
  show ?thesis unfolding linked_node_def
  proof (intro conjI)
    show "\<forall>g\<in>set (ch_hops c). h_from_resolver_id g = ch_resolver_id c \<and> matches (h_from_endpoint g) (ch_endpoint c) = Ret True" using h by blast
    show "\<forall>x\<in>set (ch_downstream_chains c). ch_challenge x = ch_challenge c \<and>
        (\<exists>g\<in>set (ch_hops c). h_accepted g \<and> h_upstream_resolver_id g = ch_resolver_id x \<and> matches (ch_endpoint x) (h_upstream_endpoint g) = Ret True)"
      using d h by (metis dict_get_Nil option.distinct(1))
    show "\<forall>g\<in>set (ch_hops c). h_accepted g \<and> truthy (jget0 (h_evidence g) ''agent_public_key'') \<longrightarrow>
        (\<exists>x\<in>set (ch_downstream_chains c). ch_resolver_id x = h_upstream_resolver_id g)"
    proof (intro ballI impI)
      fix g assume g: "g \<in> set (ch_hops c)" "h_accepted g \<and> truthy (jget0 (h_evidence g) ''agent_public_key'')"
      then have "dict_get acc (h_upstream_resolver_id g) = Some g" using h by blast
      then have "h_upstream_resolver_id g \<in> set consumed" using cap g(2) by blast
      then show "\<exists>x\<in>set (ch_downstream_chains c). ch_resolver_id x = h_upstream_resolver_id g" using d by auto
    qed
  qed
qed

lemma validate_sound:
  shows "validate_node mx c n = Ret (eff, n') \<Longrightarrow> eff = all_nodes clean_node c \<and> all_nodes linked_node c \<and>
     all_nodes (\<lambda>x. ch_final_result x = all_nodes clean_node x) c \<and> n' = n + node_count c \<and> n' \<le> mx"
    and "validate_downstream mx challenge acc cs consumed eff0 n = Ret (consumed', eff, n') \<Longrightarrow>
     eff = (eff0 \<and> (\<forall>x\<in>set cs. all_nodes clean_node x)) \<and> (\<forall>x\<in>set cs. all_nodes linked_node x) \<and>
     (\<forall>x\<in>set cs. all_nodes (\<lambda>x. ch_final_result x = all_nodes clean_node x) x) \<and>
     n' = n + sum_list (map node_count cs) \<and> (n \<le> mx \<longrightarrow> n' \<le> mx)"
proof (induction mx c n and mx challenge acc cs consumed eff0 n arbitrary: eff n' and consumed' eff n'
    rule: validate_node_validate_downstream.induct)
  case (1 mx a b cv d hs ds ts errs fin ia ea iss kid sch sig n)
  let ?c = "Chain a b cv d hs ds ts errs fin ia ea iss kid sch sig"
  obtain acc eff1 consumed where s: "check_hops a b hs [] [] (errs = []) = Ret (acc, eff1)" "check_terminals ts [] hs ds = Ret ()"
    "validate_downstream mx d acc ds [] eff1 (n + 1) = Ret (consumed, eff, n')" "fin = eff" "n + 1 \<le> mx"
    using "1.prems" by (auto split: if_splits)
  have ih: "eff = (eff1 \<and> (\<forall>x\<in>set ds. all_nodes clean_node x)) \<and> (\<forall>x\<in>set ds. all_nodes linked_node x) \<and>
     (\<forall>x\<in>set ds. all_nodes (\<lambda>x. ch_final_result x = all_nodes clean_node x) x) \<and>
     n' = n + 1 + sum_list (map node_count ds) \<and> (n + 1 \<le> mx \<longrightarrow> n' \<le> mx)"
    by (rule "1.IH") (use s in auto)
  have all: "all_nodes P ?c \<longleftrightarrow> P ?c \<and> (\<forall>x\<in>set ds. all_nodes P x)" for P
    by (simp only: all_nodes_unfold[of P ?c] chain.sel)
  have clean: "eff = all_nodes clean_node ?c"
    unfolding all using ih check_hops_result[OF s(1)] by (simp add: clean_node_def)
  show ?case
  proof (intro conjI)
    show "all_nodes linked_node ?c" unfolding all using validate_node_linked[OF "1.prems"] ih by blast
    show "all_nodes (\<lambda>x. ch_final_result x = all_nodes clean_node x) ?c" unfolding all[of "\<lambda>x. _ x = _ x"] using clean ih s(4) by (simp del: all_nodes.simps)
  qed (use clean ih s(5) in \<open>simp_all del: all_nodes.simps\<close>)
next
  case (3 mx challenge acc c cs consumed eff0 n)
  obtain h ok n2 where h: "dict_get acc (ch_resolver_id c) = Some h" "matches (ch_endpoint c) (h_upstream_endpoint h) = Ret True"
    "ch_challenge c = challenge" "hashable (ch_resolver_id c)" "ch_resolver_id c \<notin> set consumed"
    and v: "validate_node mx c n = Ret (ok, n2)"
    and r: "validate_downstream mx challenge acc cs (ch_resolver_id c # consumed) (eff0 \<and> ok) n2 = Ret (consumed', eff, n')"
    using "3.prems" by (auto split: if_splits option.splits prod.splits)
  note i1 = "3.IH"(1)[OF _ _ _ h(1,2) _ v]
  note i2 = "3.IH"(2)[OF _ _ _ h(1,2) _ v _ r]
  show ?case using i1 i2 h by auto
qed simp

text \<open>C27. What a validated chain guarantees.  When \<open>verify_verification_chain_payload\<close> returns a chain, the payload is
  signed by the given key, is inside its time window, is about the expected resolver and answers the expected
  challenge; the whole tree has at most 64 nodes; at every node the reported \<open>final_result\<close> is exactly the statement
  that no hop and no error anywhere below was refused, so a single rejected hop at any depth shows in the root;
  and every node is linked to its parent by an accepted hop.\<close>

theorem validated_chain_sound:
  assumes "verify_verification_chain_payload lib payload public_key expected_id expected_endpoint now skew challenge = Ret c"
  shows "verify_signed_by lib payload public_key \<and> chain_from_dict payload = Ret c \<and>
     all_nodes (\<lambda>x. ch_final_result x = all_nodes clean_node x) c \<and> all_nodes linked_node c \<and> node_count c \<le> 64 \<and>
     (expected_id = JNull \<or> ch_resolver_id c = expected_id) \<and> (challenge = JNull \<or> ch_challenge c = challenge) \<and>
     ch_issued_at c \<le> now + skew \<and> (\<exists>t. ch_expires_at c = Some t \<and> now \<le> t)"
proof -
  have sem: "validate_verification_chain_semantics c 64 = Ret ()" and "verify_signed_by lib payload public_key" "chain_from_dict payload = Ret c"
    "expected_id = JNull \<or> ch_resolver_id c = expected_id" "challenge = JNull \<or> ch_challenge c = challenge"
    "validate_signed_window (ch_issued_at c) (ch_expires_at c) now skew = Ret ()"
    using assms by (auto simp: verify_verification_chain_payload_def split: if_splits)
  moreover obtain eff n' where "validate_node 64 c 0 = Ret (eff, n')"
    using sem by (auto simp: validate_verification_chain_semantics_def)
  note this[THEN validate_sound(1)]
  ultimately show ?thesis by (auto simp: validate_signed_window_def split: if_splits option.splits)
qed

section \<open>Dictionary forms\<close>

definition hop_stable :: "hop \<Rightarrow> bool" where
  "hop_stable h \<longleftrightarrow> endpoint_stable (h_from_endpoint h) \<and> endpoint_stable (h_upstream_endpoint h) \<and> h_expires_at h \<noteq> None"

definition node_stable :: "chain \<Rightarrow> bool" where
  "node_stable c \<longleftrightarrow> endpoint_stable (ch_endpoint c) \<and> (\<forall>h\<in>set (ch_hops c). hop_stable h) \<and>
     (\<forall>t\<in>set (ch_terminal_upstreams c). endpoint_stable t) \<and> ch_expires_at c \<noteq> None"

lemma as_list_jor [simp]: "as_list (jor (JArr xs) (JArr [])) = Ret xs"
  by (simp add: jor_def)

lemma dict_of_jor [simp]: "dict_of_json (jor (JObj d) (JObj [])) = Ret d"
  by (simp add: jor_def)

lemma hop_dict_roundtrip: "hop_stable h \<Longrightarrow> \<exists>d. hop_to_dict True h = Ret d \<and> hop_from_dict (JObj d) = Ret h"
proof -
  assume h: "hop_stable h"
  then obtain t where t: "h_expires_at h = Some t" by (auto simp: hop_stable_def)
  have f: "endpoint_json (h_from_endpoint h) = Ret (JObj (endpoint_to_dict (h_from_endpoint h)))"
    "endpoint_json (h_upstream_endpoint h) = Ret (JObj (endpoint_to_dict (h_upstream_endpoint h)))"
    "endpoint_of_json (JObj (endpoint_to_dict (h_from_endpoint h))) = Ret (h_from_endpoint h)"
    "endpoint_of_json (JObj (endpoint_to_dict (h_upstream_endpoint h))) = Ret (h_upstream_endpoint h)"
    using h by (simp_all add: hop_stable_def endpoint_json_stable endpoint_of_json_stable)
  show ?thesis
    unfolding hop_to_dict_def f(1,2) bind_res_simps using f(3,4) t
    by (cases h) (auto simp: hop_from_dict_def jitem_def opt_int_def)
qed

lemma hops_dict_roundtrip:
  "\<forall>h\<in>set hs. hop_stable h \<Longrightarrow> \<exists>ds. map_res (hop_to_dict True) hs = Ret ds \<and> map_res hop_from_dict (map JObj ds) = Ret hs"
proof (induction hs)
  case (Cons h hs)
  obtain d where "hop_to_dict True h = Ret d" "hop_from_dict (JObj d) = Ret h" using hop_dict_roundtrip[of h] Cons.prems by auto
  moreover obtain ds where "map_res (hop_to_dict True) hs = Ret ds" "map_res hop_from_dict (map JObj ds) = Ret hs" using Cons by auto
  ultimately show ?case by auto
qed simp

lemma chain_dict_roundtrip: "all_nodes node_stable c \<Longrightarrow> \<exists>d. chain_to_dict True c = Ret d \<and> chain_from_dict d = Ret c"
proof (induction c)
  case (Chain a b cv ch hs ds ts errs fin ia ea iss kid sch sig)
  let ?c = "Chain a b cv ch hs ds ts errs fin ia ea iss kid sch sig"
  have st: "node_stable ?c" "\<forall>x\<in>set ds. all_nodes node_stable x" using Chain.prems by (auto simp: list_all_iff)
  then obtain t where t: "ea = Some t" by (auto simp: node_stable_def)
  obtain hd where hd: "map_res (hop_to_dict True) hs = Ret hd" "map_res hop_from_dict (map JObj hd) = Ret hs"
    using hops_dict_roundtrip[of hs] st(1) by (auto simp: node_stable_def)
  have "\<exists>dd. map_res id (map (chain_to_dict True) xs) = Ret dd \<and>
      map_res (\<lambda>item. case item of JObj d \<Rightarrow> chain_from_dict d | _ \<Rightarrow> Raise (AttributeError ''not a dict'')) (map JObj dd) = Ret xs"
    if "set xs \<subseteq> set ds" for xs
    using that
  proof (induction xs)
    case (Cons x xs)
    obtain d where "chain_to_dict True x = Ret d" "chain_from_dict d = Ret x" using Chain.IH[of x] Cons.prems st(2) by auto
    moreover have "set xs \<subseteq> set ds" using Cons.prems by simp
    from Cons.IH[OF this] obtain dd where "map_res id (map (chain_to_dict True) xs) = Ret dd"
      "map_res (\<lambda>item. case item of JObj d \<Rightarrow> chain_from_dict d | _ \<Rightarrow> Raise (AttributeError ''not a dict'')) (map JObj dd) = Ret xs"
      by blast
    ultimately show ?case by (intro exI[of _ "d # dd"]) (simp add: id_def)
  qed simp
  then obtain dd where dd: "map_res id (map (chain_to_dict True) ds) = Ret dd"
    "map_res (\<lambda>item. case item of JObj d \<Rightarrow> chain_from_dict d | _ \<Rightarrow> Raise (AttributeError ''not a dict'')) (map JObj dd) = Ret ds" by blast
  let ?ts = "map (\<lambda>e. JObj (endpoint_to_dict e)) ts"
  have ep: "endpoint_json b = Ret (JObj (endpoint_to_dict b))" "endpoint_of_json (JObj (endpoint_to_dict b)) = Ret b"
    "map_res endpoint_json ts = Ret ?ts" "map_res endpoint_of_json ?ts = Ret ts"
    using st(1) endpoints_json_stable[of ts] endpoints_of_json_stable[of ts]
    by (simp_all add: node_stable_def endpoint_json_stable endpoint_of_json_stable)
  show ?case
    using hd dd ep t by (auto simp: chain_from_dict.simps jitem_def opt_int_def)
qed

section \<open>Signed chains\<close>
lemma sign_ed25519_key: "ed_private_ok lib sk \<Longrightarrow> sign_object_ed25519 lib d (b64encode sk) = Ret (sign_object_ed25519_key lib d sk)"
  by (simp add: sign_object_ed25519_def sign_object_ed25519_key_def)

lemma signed_dict_verifies:
  assumes "ed25519_correct lib" and "ed_private_ok lib sk"
  shows "verify_signed_by lib (dict_set d ''signature'' (JStr (sign_object_ed25519_key lib d sk))) (JStr (b64encode (ed_public lib sk)))"
  using ed25519_check_signed[OF assms, of d]
  by (simp add: verify_signed_by_def verify_ed25519_signature_def) (simp add: sign_object_ed25519_key_def)

lemma chain_to_dict_unsigned:
  assumes "all_nodes node_stable c"
  shows "\<exists>d. chain_to_dict False c = Ret d"
proof -
  have "\<exists>d. chain_to_dict True c = Ret d" using chain_dict_roundtrip[OF assms] by blast
  then show ?thesis by (cases c) (simp, blast)
qed

lemma chain_signed_dict:
  assumes "chain_to_dict False c = Ret d"
  shows "chain_to_dict True (with_chain_signature c (JStr s)) = Ret (dict_set d ''signature'' (JStr s)) \<and> jget0 d ''schema_version'' = ch_schema_version c"
  using assms by (cases c) auto

lemma with_chain_signature_sel [simp]:
  "ch_issued_at (with_chain_signature c s) = ch_issued_at c" "ch_expires_at (with_chain_signature c s) = ch_expires_at c"
  "ch_resolver_id (with_chain_signature c s) = ch_resolver_id c" "ch_challenge (with_chain_signature c s) = ch_challenge c"
  "ch_endpoint (with_chain_signature c s) = ch_endpoint c" "validate_node mx (with_chain_signature c s) n = validate_node mx c n"
  "node_stable (with_chain_signature c s) = node_stable c" "ch_downstream_chains (with_chain_signature c s) = ch_downstream_chains c"
  by (cases c; simp add: node_stable_def)+

text \<open>C32. A chain that an agent signs is read back by a client that holds its public key: the client's verdict is
  then exactly the time window and the semantic validation of the very chain that was signed, all nested hops
  and downstream chains included.\<close>

theorem signed_chain_roundtrip:
  assumes "ed25519_correct lib" and "ed_private_ok lib sk" and "all_nodes node_stable c"
    and "ch_schema_version c = JStr VERIFICATION_CHAIN_SCHEMA_VERSION" and "truthy (e_ip (ch_endpoint c))"
  shows "\<exists>payload signature. sign_verification_chain lib c (b64encode sk) = Ret payload \<and>
    verify_verification_chain_payload lib payload (JStr (b64encode (ed_public lib sk))) (ch_resolver_id c) (Some (ch_endpoint c)) now skew (ch_challenge c) =
      bind_res (validate_signed_window (ch_issued_at c) (ch_expires_at c) now skew) (\<lambda>_.
      bind_res (validate_verification_chain_semantics c 64) (\<lambda>_. Ret (with_chain_signature c (JStr signature))))"
proof -
  have st: "node_stable c" using all_nodes_unfold[of node_stable c] assms(3) by blast
  obtain d where d: "chain_to_dict False c = Ret d" using chain_to_dict_unsigned[OF assms(3)] by blast
  let ?s = "sign_object_ed25519_key lib d sk"
  let ?p = "dict_set d ''signature'' (JStr ?s)" and ?c = "with_chain_signature c (JStr ?s)"
  note sd = chain_signed_dict[OF d, of ?s]
  have "all_nodes node_stable ?c" using assms(3) by (simp add: all_nodes_unfold[of _ ?c] all_nodes_unfold[of _ c])
  then have fd: "chain_from_dict ?p = Ret ?c" using chain_dict_roundtrip[of ?c] sd by simp
  have sg: "sign_verification_chain lib c (b64encode sk) = Ret ?p"
    using d sd assms(2) by (simp add: sign_verification_chain_def sign_ed25519_key)
  have "matches (ch_endpoint c) (ch_endpoint c) = Ret True" using st assms(5) by (intro matches_self) (simp_all add: node_stable_def)
  then have "verify_verification_chain_payload lib ?p (JStr (b64encode (ed_public lib sk))) (ch_resolver_id c) (Some (ch_endpoint c)) now skew (ch_challenge c) =
      bind_res (validate_signed_window (ch_issued_at c) (ch_expires_at c) now skew) (\<lambda>_.
      bind_res (validate_verification_chain_semantics c 64) (\<lambda>_. Ret ?c))"
    using fd sd assms(4) signed_dict_verifies[OF assms(1,2), of d]
    by (simp add: verify_verification_chain_payload_def expect_match_def validate_verification_chain_semantics_def)
  then show ?thesis using sg by blast
qed

definition demo_chain :: chain where
  "demo_chain = Chain (JStr ''resolver-1'') demo_endpoint ''7'' (JStr ''c1'') [] [] [] [] True 100 (Some 130) (JStr ''resolver-agent'')
     (JStr ''agent-key-01'') (JStr VERIFICATION_CHAIN_SCHEMA_VERSION) JNull"

lemma demo_chain_facts:
  "all_nodes node_stable demo_chain" "validate_verification_chain_semantics demo_chain 64 = Ret ()"
  "ch_schema_version demo_chain = JStr VERIFICATION_CHAIN_SCHEMA_VERSION" "truthy (e_ip (ch_endpoint demo_chain))"
  using demo_endpoint_stable
  by (simp_all add: demo_chain_def node_stable_def validate_verification_chain_semantics_def check_capable_def) (simp add: demo_endpoint_def)

definition demo_sk :: bytes where "demo_sk = replicate 32 1"

lemma demo_sk_ok: "ed_private_ok demo_ed25519 demo_sk"
  by (simp add: demo_ed25519_def demo_sk_def)

theorem signed_chain_roundtrip_witness:
  "\<exists>payload c. sign_verification_chain demo_ed25519 demo_chain (b64encode demo_sk) = Ret payload \<and>
     verify_verification_chain_payload demo_ed25519 payload (JStr (b64encode (ed_public demo_ed25519 demo_sk))) (JStr ''resolver-1'') (Some demo_endpoint) 110 5 (JStr ''c1'') = Ret c \<and>
     ch_resolver_id c = JStr ''resolver-1''"
  using signed_chain_roundtrip[OF demo_ed25519_correct demo_sk_ok demo_chain_facts(1,3,4), of 110 5] demo_chain_facts(2)
  by (auto simp: validate_signed_window_def) (auto simp: demo_chain_def)

lemma demo_chain_payload:
  "\<exists>payload s. verify_verification_chain_payload demo_ed25519 payload (JStr (b64encode (ed_public demo_ed25519 demo_sk))) JNull None 110 5 JNull =
     Ret (with_chain_signature demo_chain (JStr s))"
proof -
  obtain d where d: "chain_to_dict False demo_chain = Ret d" using chain_to_dict_unsigned[OF demo_chain_facts(1)] by blast
  let ?s = "sign_object_ed25519_key demo_ed25519 d demo_sk"
  let ?p = "dict_set d ''signature'' (JStr ?s)" and ?c = "with_chain_signature demo_chain (JStr ?s)"
  have "all_nodes node_stable ?c" using demo_chain_facts(1) by (simp add: all_nodes_unfold[of _ ?c] all_nodes_unfold[of _ demo_chain])
  then have fd: "chain_from_dict ?p = Ret ?c" using chain_dict_roundtrip[of ?c] chain_signed_dict[OF d, of ?s] by simp
  have "verify_verification_chain_payload demo_ed25519 ?p (JStr (b64encode (ed_public demo_ed25519 demo_sk))) JNull None 110 5 JNull = Ret ?c"
    using fd chain_signed_dict[OF d, of ?s] demo_chain_facts(2,3) signed_dict_verifies[OF demo_ed25519_correct demo_sk_ok, of d]
    by (simp add: verify_verification_chain_payload_def expect_match_def validate_verification_chain_semantics_def validate_signed_window_def)
      (simp add: demo_chain_def)
  then show ?thesis by blast
qed

theorem validated_chain_sound_witness:
  "\<exists>payload c. verify_verification_chain_payload demo_ed25519 payload (JStr (b64encode (ed_public demo_ed25519 demo_sk))) JNull None 110 5 JNull = Ret c \<and>
     all_nodes (\<lambda>x. ch_final_result x = all_nodes clean_node x) c \<and> node_count c \<le> 64"
proof -
  obtain payload c where v: "verify_verification_chain_payload demo_ed25519 payload (JStr (b64encode (ed_public demo_ed25519 demo_sk))) JNull None 110 5 JNull = Ret c"
    using demo_chain_payload by blast
  from validated_chain_sound[OF this] v show ?thesis by blast
qed

end
