(* ===== verification/Distributed.thy ===== *)
theory Distributed
  imports VerificationChain Verifier
begin

text \<open>
  \<open>agent/distributed_verifier.py\<close>: an agent verifies its upstream resolvers, asks the agents of those it
  accepted for their own chains, and signs the result.  The answer of another agent over HTTP is the
  argument \<open>da_fetch\<close>: a JSON value or an exception, for a base URL and a challenge.  Each upstream is
  verified in its own surroundings \<open>envs i\<close> at its own time \<open>clock i\<close>.
\<close>

section \<open>Keys of endpoints and configured agents\<close>

definition endpoint_cache_key :: "endpoint \<Rightarrow> string res" where
  "endpoint_cache_key ep = bind_res (normalized ep) (\<lambda>n.
     Ret (py_str (e_ip n) @ '':'' @ py_str (e_port n) @ '':'' @ py_str (e_transport n)))"

text \<open>\<open>item.split("=", 1)\<close> into two parts.\<close>

definition split_pair :: "char \<Rightarrow> string \<Rightarrow> (string \<times> string) res" where
  "split_pair c s = (if c \<in> set s then Ret (takeWhile (\<lambda>x. x \<noteq> c) s, tl (dropWhile (\<lambda>x. x \<noteq> c) s))
     else Raise (ValueError ''not enough values to unpack''))"

definition agent_url_entry :: "string \<Rightarrow> (string \<times> string) res" where
  "agent_url_entry item =
     bind_res (split_pair (CHR ''='') item) (\<lambda>(endpoint_spec, url).
     case split_on (CHR '':'') endpoint_spec of
       [ip] \<Rightarrow> Ret (ip, url)
     | ip # port # rest \<Rightarrow>
         bind_res (py_int_of_str port) (\<lambda>p.
         bind_res (normalized (endpoint_of_parts ip p (case rest of [] \<Rightarrow> ''udp'' | t # _ \<Rightarrow> t))) (\<lambda>ep.
         bind_res (endpoint_cache_key ep) (\<lambda>key. Ret (key, url))))
     | [] \<Rightarrow> Raise (IndexError ''list index out of range''))"

fun add_url_entries :: "string list \<Rightarrow> (string, string) dict \<Rightarrow> (string, string) dict res" where
  "add_url_entries [] out = Ret out"
| "add_url_entries (raw_item # items) out =
     (let item = py_strip raw_item in
      if item = [] then add_url_entries items out
      else bind_res (agent_url_entry item) (\<lambda>(k, url). add_url_entries items (dict_set out k url)))"

definition parse_agent_base_urls :: "string \<Rightarrow> (string, string) dict res" where
  "parse_agent_base_urls spec = add_url_entries (split_on (CHR '','') spec) []"

section \<open>DistributedAgentVerifier\<close>

record dist_agent =
  da_resolver_id :: string
  da_endpoint :: endpoint
  da_upstreams :: "endpoint list"
  da_config_version :: string
  da_private_key_b64 :: string
  da_cfg :: verifier_cfg
  da_agent_base_urls :: "(string, string) dict"
  da_terminal_upstreams :: "endpoint list"
  da_max_age_seconds :: int
  da_max_depth :: int
  da_max_clock_skew_seconds :: int
  da_issuer :: string
  da_key_id :: string
  da_fetch :: "string \<Rightarrow> json \<Rightarrow> json res"

text \<open>\<open>base_url.rstrip("/") + "/v1/verification-chain"\<close>; the answer must be an object.\<close>

definition fetch_verification_chain :: "dist_agent \<Rightarrow> string \<Rightarrow> json \<Rightarrow> jdict res" where
  "fetch_verification_chain a base_url challenge =
     bind_res (da_fetch a (rstrip_while (\<lambda>c. c = CHR ''/'') base_url @ ''/v1/verification-chain'') challenge) (\<lambda>payload.
     case payload of JObj d \<Rightarrow> Ret d | _ \<Rightarrow> Raise (ValueError ''verification chain response must be an object''))"

definition agent_url_for :: "dist_agent \<Rightarrow> endpoint \<Rightarrow> string option res" where
  "agent_url_for a ep =
     bind_res (normalized ep) (\<lambda>n.
     bind_res (endpoint_cache_key n) (\<lambda>key.
     Ret (case dict_get (da_agent_base_urls a) key of
            Some (u # us) \<Rightarrow> Some (u # us)
          | _ \<Rightarrow> (case e_ip n of JStr ip \<Rightarrow> if ip \<noteq> [] then dict_get (da_agent_base_urls a) ip else None | _ \<Rightarrow> None))))"

definition is_terminal_upstream :: "dist_agent \<Rightarrow> endpoint \<Rightarrow> bool res" where
  "is_terminal_upstream a ep = any_res (\<lambda>candidate. matches candidate ep) (da_terminal_upstreams a)"

record chain_draft =
  dr_hops :: "hop list"
  dr_downstream :: "chain list"
  dr_terminals :: "endpoint list"
  dr_errors :: "string list"

definition draft_error :: "string \<Rightarrow> chain_draft \<Rightarrow> chain_draft" where
  "draft_error e dr = dr\<lparr>dr_errors := dr_errors dr @ [e]\<rparr>"

text \<open>After an upstream was accepted: its own agent is asked for its chain.\<close>

definition follow_upstream :: "dist_agent \<Rightarrow> string list \<Rightarrow> json \<Rightarrow> int \<Rightarrow> endpoint \<Rightarrow> verification_result \<Rightarrow> chain_draft \<Rightarrow> chain_draft res" where
  "follow_upstream a visiting challenge now upstream result dr =
     bind_res (agent_url_for a upstream) (\<lambda>downstream_url.
     bind_res (endpoint_cache_key upstream) (\<lambda>upstream_key.
     case downstream_url of
       None \<Rightarrow> Ret (draft_error (''verified recursive upstream has no configured adjacent Agent: '' @ upstream_key) dr)
     | Some url \<Rightarrow>
         if url = [] then Ret (draft_error (''verified recursive upstream has no configured adjacent Agent: '' @ upstream_key) dr)
         else if upstream_key \<in> set visiting then Ret (draft_error (''agent verification chain loop detected at '' @ upstream_key) dr)
         else (let public_key = jget0 (vr_evidence result) ''agent_public_key'' in
           if \<not> truthy public_key \<or> jget0 (vr_evidence result) ''agent_key_algorithm'' \<noteq> JStr ''ed25519''
           then Ret (draft_error (''verified upstream does not bind Agent Ed25519 public key: '' @ upstream_key) dr)
           else (case bind_res (fetch_verification_chain a url challenge) (\<lambda>payload.
                   verify_verification_chain_payload (vc_lib (da_cfg a)) payload public_key (vr_resolver_id result) (Some upstream) now
                     (da_max_clock_skew_seconds a) challenge) of
               Inl e \<Rightarrow> Ret (draft_error (''downstream chain verification failed for '' @ upstream_key @ '': '' @ exc_text e) dr)
             | Inr c \<Rightarrow>
                 (let dr1 = (if ch_final_result c then dr else draft_error (''downstream chain rejected for '' @ upstream_key) dr)
                  in Ret (dr1\<lparr>dr_downstream := dr_downstream dr1 @ [c]\<rparr>))))))"

definition visit_upstream ::
  "dist_agent \<Rightarrow> string list \<Rightarrow> json \<Rightarrow> verify_env \<Rightarrow> int \<Rightarrow> endpoint \<Rightarrow> chain_draft \<Rightarrow> chain_draft cmop" where
  "visit_upstream a visiting challenge env now upstream0 dr =
     bindS (liftS (normalized upstream0)) (\<lambda>upstream.
     bindS (liftS (is_terminal_upstream a upstream)) (\<lambda>terminal.
     if terminal then retS (dr\<lparr>dr_terminals := dr_terminals dr @ [upstream]\<rparr>)
     else bindS (verify_endpoint (da_cfg a) env upstream) (\<lambda>result.
       bindS (liftS (hop_from_verification_result (da_resolver_id a) (da_endpoint a) upstream result now (da_max_age_seconds a) (da_issuer a) (da_key_id a))) (\<lambda>h0.
       bindS (liftS (sign_hop_verification_result (vc_lib (da_cfg a)) h0 (da_private_key_b64 a))) (\<lambda>(h, _).
       let dr1 = dr\<lparr>dr_hops := dr_hops dr @ [h]\<rparr> in
       if \<not> vr_accepted result
       then bindS (liftS (endpoint_cache_key upstream)) (\<lambda>k. retS (draft_error (''upstream verification failed for '' @ k) dr1))
       else liftS (follow_upstream a visiting challenge now upstream result dr1))))))"

fun visit_upstreams ::
  "dist_agent \<Rightarrow> string list \<Rightarrow> json \<Rightarrow> (nat \<Rightarrow> verify_env) \<Rightarrow> (nat \<Rightarrow> int) \<Rightarrow> nat \<Rightarrow> endpoint list \<Rightarrow> chain_draft \<Rightarrow> chain_draft cmop" where
  "visit_upstreams a visiting challenge envs clock i [] dr = retS dr"
| "visit_upstreams a visiting challenge envs clock i (u # us) dr =
     bindS (visit_upstream a visiting challenge (envs i) (clock i) u dr) (\<lambda>dr1. visit_upstreams a visiting challenge envs clock (Suc i) us dr1)"

definition finish_chain :: "dist_agent \<Rightarrow> json \<Rightarrow> int \<Rightarrow> chain_draft \<Rightarrow> chain res" where
  "finish_chain a challenge now dr =
     bind_res (normalized (da_endpoint a)) (\<lambda>ep.
     Ret (Chain (JStr (da_resolver_id a)) ep (da_config_version a) challenge (dr_hops dr) (dr_downstream dr) (dr_terminals dr)
       (map JStr (dr_errors dr))
       (list_all h_accepted (dr_hops dr) \<and> list_all ch_final_result (dr_downstream dr) \<and> dr_errors dr = [])
       now None (JStr (da_issuer a)) (JStr (da_key_id a)) (JStr VERIFICATION_CHAIN_SCHEMA_VERSION) JNull))"

definition empty_chain :: "dist_agent \<Rightarrow> string list \<Rightarrow> json \<Rightarrow> int \<Rightarrow> chain res" where
  "empty_chain a errors challenge now =
     bind_res (normalized (da_endpoint a)) (\<lambda>ep.
     Ret (Chain (JStr (da_resolver_id a)) ep (da_config_version a) challenge [] [] [] (map JStr errors) False
       now None (JStr (da_issuer a)) (JStr (da_key_id a)) (JStr VERIFICATION_CHAIN_SCHEMA_VERSION) JNull))"

definition build_chain ::
  "dist_agent \<Rightarrow> int \<Rightarrow> string list \<Rightarrow> json \<Rightarrow> (nat \<Rightarrow> verify_env) \<Rightarrow> (nat \<Rightarrow> int) \<Rightarrow> chain cmop" where
  "build_chain a depth visiting challenge envs clock =
     (if depth \<ge> da_max_depth a then liftS (empty_chain a [''agent verification chain exceeded max_depth''] challenge (clock 0))
      else bindS (visit_upstreams a visiting challenge envs clock 0 (da_upstreams a)
             \<lparr>dr_hops = [], dr_downstream = [], dr_terminals = [], dr_errors = []\<rparr>) (\<lambda>dr.
           liftS (finish_chain a challenge (clock (length (da_upstreams a))) dr)))"

definition build_chain_payload :: "dist_agent \<Rightarrow> json \<Rightarrow> (nat \<Rightarrow> verify_env) \<Rightarrow> (nat \<Rightarrow> int) \<Rightarrow> jdict cmop" where
  "build_chain_payload a challenge envs clock =
     bindS (liftS (endpoint_cache_key (da_endpoint a))) (\<lambda>own.
     bindS (build_chain a 0 [own] challenge envs clock) (\<lambda>c.
     liftS (sign_verification_chain (vc_lib (da_cfg a)) c (da_private_key_b64 a))))"

section \<open>Flattening\<close>

text \<open>The key of \<open>_unique_endpoints\<close>; a port that cannot be hashed raises.\<close>

definition unique_key :: "endpoint \<Rightarrow> (json list \<times> endpoint) res" where
  "unique_key ep = bind_res (normalized ep) (\<lambda>n.
     if list_all hashable [e_ip n, e_port n, e_transport n, e_server_name n, e_uri n]
     then Ret ([e_ip n, e_port n, e_transport n, e_server_name n, e_uri n], n) else Raise (TypeError ''unhashable type''))"

definition unique_endpoints :: "endpoint list \<Rightarrow> endpoint list res" where
  "unique_endpoints eps = bind_res (map_res unique_key eps) (\<lambda>kvs. Ret (map snd (dict_update [] kvs)))"

primrec flatten_chain_endpoints :: "chain \<Rightarrow> endpoint list res" where
  "flatten_chain_endpoints (Chain a ep c d hops downstream g h i j k l m n s) =
     bind_res (map_res id (map flatten_chain_endpoints downstream)) (\<lambda>below.
     unique_endpoints ([ep] @ map h_upstream_endpoint hops @ concat below))"

primrec flatten_chain_results :: "chain \<Rightarrow> verification_result list res" where
  "flatten_chain_results (Chain resolver_id b c d hops downstream g errors i j k l m n s) =
     bind_res (map_res hop_to_verification_result hops) (\<lambda>own.
     bind_res (map_res id (map flatten_chain_results downstream)) (\<lambda>below.
     Ret (own @ concat below @
       (if errors \<noteq> [] then [vr_reject ''verification_chain_failed'' resolver_id [(''errors'', JArr errors)]] else []))))"

section \<open>The flattened results agree with the tree\<close>

lemma hop_result_accepted: "hop_to_verification_result h = Ret r \<Longrightarrow> vr_accepted r = h_accepted h"
  by (auto simp: hop_to_verification_result_def split: if_splits)

lemma hop_results_accepted: "map_res hop_to_verification_result hs = Ret rs \<Longrightarrow> (\<forall>r\<in>set rs. vr_accepted r) = (\<forall>h\<in>set hs. h_accepted h)"
  by (induction hs arbitrary: rs) (auto dest: hop_result_accepted)

lemma map_res_id_Inr: "map_res id (map f xs) = Ret ys \<Longrightarrow> list_all2 (\<lambda>x y. f x = Ret y) xs ys"
  by (induction xs arbitrary: ys) auto

lemma flatten_results_clean: "flatten_chain_results c = Ret rs \<Longrightarrow> (\<forall>r\<in>set rs. vr_accepted r) = all_nodes clean_node c"
proof (induction c arbitrary: rs)
  case (Chain a b cv ch hs ds ts errs fin ia ea iss kid sch sig)
  let ?c = "Chain a b cv ch hs ds ts errs fin ia ea iss kid sch sig"
  obtain own below where f: "map_res hop_to_verification_result hs = Ret own" "map_res id (map flatten_chain_results ds) = Ret below"
    "rs = own @ concat below @ (if errs \<noteq> [] then [vr_reject ''verification_chain_failed'' a [(''errors'', JArr errs)]] else [])"
    using Chain.prems by auto
  have b: "(\<forall>r\<in>set (concat ys). vr_accepted r) = (\<forall>x\<in>set xs. all_nodes clean_node x)"
    if "list_all2 (\<lambda>x y. flatten_chain_results x = Ret y) xs ys" "set xs \<subseteq> set ds" for xs ys
    using that
  proof (induction rule: list_all2_induct)
    case (Cons x xs y ys)
    then have "(\<forall>r\<in>set y. vr_accepted r) = all_nodes clean_node x" using Chain.IH[of x y] by auto
    then show ?case using Cons by auto
  qed simp
  have "(\<forall>r\<in>set (concat below). vr_accepted r) = (\<forall>x\<in>set ds. all_nodes clean_node x)"
    by (rule b[OF map_res_id_Inr[OF f(2)]]) simp
  moreover have "(\<forall>r\<in>set own. vr_accepted r) = (\<forall>h\<in>set hs. h_accepted h)" by (rule hop_results_accepted[OF f(1)])
  moreover have "(\<forall>r\<in>set rs. vr_accepted r) \<longleftrightarrow> (\<forall>r\<in>set own. vr_accepted r) \<and> (\<forall>r\<in>set (concat below). vr_accepted r) \<and> errs = []"
    unfolding f(3) set_append ball_Un by (cases "errs = []") (simp_all del: set_concat)
  ultimately show ?case
    unfolding all_nodes_unfold[of _ ?c] clean_node_def chain.sel by blast
qed

text \<open>The flat list of results that a wrapper derives from a chain loses nothing: for a chain that passed
  validation, the root's \<open>final_result\<close> says "verified" exactly when every result of \<open>flatten_chain_results\<close> is an
  acceptance.\<close>

theorem flattened_results_agree:
  assumes "verify_verification_chain_payload lib payload public_key expected_id expected_endpoint now skew challenge = Ret c"
    and "flatten_chain_results c = Ret rs"
  shows "ch_final_result c = (\<forall>r\<in>set rs. vr_accepted r)"
proof -
  have "validate_verification_chain_semantics c 64 = Ret ()"
    using assms(1) by (auto simp: verify_verification_chain_payload_def split: if_splits)
  then obtain eff n' where "validate_node 64 c 0 = Ret (eff, n')" by (auto simp: validate_verification_chain_semantics_def)
  from validate_sound(1)[OF this] have "ch_final_result c = all_nodes clean_node c"
    using all_nodes_unfold[of "\<lambda>x. ch_final_result x = all_nodes clean_node x" c] by blast
  then show ?thesis using flatten_results_clean[OF assms(2)] by blast
qed

theorem flattened_results_agree_witness:
  "\<exists>payload c rs. verify_verification_chain_payload demo_ed25519 payload (JStr (b64encode (ed_public demo_ed25519 demo_sk))) JNull None 110 5 JNull = Ret c \<and>
     flatten_chain_results c = Ret rs \<and> ch_final_result c = (list_all vr_accepted rs)"
proof -
  obtain payload s where v: "verify_verification_chain_payload demo_ed25519 payload (JStr (b64encode (ed_public demo_ed25519 demo_sk))) JNull None 110 5 JNull =
      Ret (with_chain_signature demo_chain (JStr s))"
    using demo_chain_payload by blast
  have f: "flatten_chain_results (with_chain_signature demo_chain (JStr s)) = Ret []" by (simp add: demo_chain_def)
  have "ch_final_result (with_chain_signature demo_chain (JStr s)) = list_all vr_accepted []" using flattened_results_agree[OF v f] by simp
  then show ?thesis using v f by blast
qed

section \<open>What an agent reports about its upstreams\<close>

definition draft_ok :: "dist_agent \<Rightarrow> json \<Rightarrow> nat \<Rightarrow> chain_draft \<Rightarrow> bool" where
  "draft_ok a challenge n dr \<longleftrightarrow>
     length (dr_hops dr) + length (dr_terminals dr) = n \<and>
     (\<forall>t\<in>set (dr_terminals dr). is_terminal_upstream a t = Ret True) \<and>
     (\<forall>c\<in>set (dr_downstream dr). \<exists>payload pk rid up now. verify_verification_chain_payload (vc_lib (da_cfg a)) payload pk rid (Some up) now
        (da_max_clock_skew_seconds a) challenge = Ret c) \<and>
     (dr_errors dr = [] \<longrightarrow> length (dr_downstream dr) = length (dr_hops dr) \<and> list_all h_accepted (dr_hops dr) \<and>
        list_all ch_final_result (dr_downstream dr))"

lemma hop_from_result_accepted:
  "hop_from_verification_result f fe ue r now ag iss kid = Ret h \<Longrightarrow> h_accepted h = vr_accepted r"
  by (auto simp: hop_from_verification_result_def)

lemma sign_hop_accepted: "sign_hop_verification_result lib h k = Ret (h', d) \<Longrightarrow> h_accepted h' = h_accepted h"
  by (auto simp: sign_hop_verification_result_def Let_def)

lemma draft_error_ok:
  "length (dr_hops dr) + length (dr_terminals dr) = n \<Longrightarrow> (\<forall>t\<in>set (dr_terminals dr). is_terminal_upstream a t = Ret True) \<Longrightarrow>
   (\<forall>c\<in>set (dr_downstream dr). \<exists>payload pk rid up now. verify_verification_chain_payload (vc_lib (da_cfg a)) payload pk rid (Some up) now
        (da_max_clock_skew_seconds a) challenge = Ret c) \<Longrightarrow> draft_ok a challenge n (draft_error e dr)"
  by (simp add: draft_ok_def draft_error_def)

lemma follow_upstream_cases:
  assumes "follow_upstream a visiting challenge now up r dr = Ret dr'"
  shows "(\<exists>e. dr' = draft_error e dr) \<or>
    (\<exists>c payload pk e. verify_verification_chain_payload (vc_lib (da_cfg a)) payload pk (vr_resolver_id r) (Some up) now (da_max_clock_skew_seconds a) challenge = Ret c \<and>
       (ch_final_result c \<and> dr' = dr\<lparr>dr_downstream := dr_downstream dr @ [c]\<rparr> \<or>
        dr' = (draft_error e dr)\<lparr>dr_downstream := dr_downstream dr @ [c]\<rparr>))"
proof -
  obtain url key where k: "agent_url_for a up = Ret url" "endpoint_cache_key up = Ret key" using assms by (auto simp: follow_upstream_def)
  note run = assms[unfolded follow_upstream_def k bind_res_simps Let_def]
  let ?pk = "jget0 (vr_evidence r) ''agent_public_key''"
  let ?v = "\<lambda>u. bind_res (fetch_verification_chain a u challenge) (\<lambda>payload.
      verify_verification_chain_payload (vc_lib (da_cfg a)) payload ?pk (vr_resolver_id r) (Some up) now (da_max_clock_skew_seconds a) challenge)"
  show ?thesis
  proof (cases url)
    case None
    then show ?thesis using run by auto
  next
    case (Some u)
    show ?thesis
    proof (cases "u = [] \<or> key \<in> set visiting \<or> \<not> truthy ?pk \<or> jget0 (vr_evidence r) ''agent_key_algorithm'' \<noteq> JStr ''ed25519'' \<or> (\<exists>e. ?v u = Inl e)")
      case True
      then show ?thesis using run Some by (intro disjI1) (simp split: if_splits sum.splits; blast)
    next
      case False
      then obtain c where c: "?v u = Inr c" by (cases "?v u") auto
      note run2 = run[unfolded Some option.case c sum.case]
      have "dr' = (let dr1 = (if ch_final_result c then dr else draft_error (''downstream chain rejected for '' @ key) dr)
                  in dr1\<lparr>dr_downstream := dr_downstream dr1 @ [c]\<rparr>)" using run2 False by (simp add: Let_def)
      then have "ch_final_result c \<and> dr' = dr\<lparr>dr_downstream := dr_downstream dr @ [c]\<rparr> \<or>
        dr' = (draft_error (''downstream chain rejected for '' @ key) dr)\<lparr>dr_downstream := dr_downstream dr @ [c]\<rparr>"
        by (simp add: Let_def draft_error_def split: if_splits)
      then show ?thesis using c by auto
    qed
  qed
qed

lemma follow_upstream_ok:
  assumes "follow_upstream a visiting challenge now up r (dr\<lparr>dr_hops := dr_hops dr @ [h]\<rparr>) = Ret dr'" and "draft_ok a challenge n dr" and "h_accepted h"
  shows "draft_ok a challenge (Suc n) dr'"
  using follow_upstream_cases[OF assms(1)]
proof (elim disjE exE conjE)
  fix e assume "dr' = draft_error e (dr\<lparr>dr_hops := dr_hops dr @ [h]\<rparr>)"
  then show ?thesis using assms(2) by (simp add: draft_ok_def draft_error_def)
next
  fix c payload pk e
  assume "verify_verification_chain_payload (vc_lib (da_cfg a)) payload pk (vr_resolver_id r) (Some up) now (da_max_clock_skew_seconds a) challenge = Ret c"
  then have v: "\<exists>payload pk rid up now. verify_verification_chain_payload (vc_lib (da_cfg a)) payload pk rid (Some up) now (da_max_clock_skew_seconds a) challenge = Ret c"
    by blast
  {
    assume "ch_final_result c" "dr' = dr\<lparr>dr_hops := dr_hops dr @ [h], dr_downstream := dr_downstream (dr\<lparr>dr_hops := dr_hops dr @ [h]\<rparr>) @ [c]\<rparr>"
    then show ?thesis using assms(2,3) v by (simp add: draft_ok_def)
  next
    assume "dr' = (draft_error e (dr\<lparr>dr_hops := dr_hops dr @ [h]\<rparr>))\<lparr>dr_downstream := dr_downstream (dr\<lparr>dr_hops := dr_hops dr @ [h]\<rparr>) @ [c]\<rparr>"
    then show ?thesis using assms(2) v by (simp add: draft_ok_def draft_error_def)
  }
qed

lemma visit_upstream_ok:
  assumes "visit_upstream a visiting challenge env now up dr s = (Ret dr', s')" and "draft_ok a challenge n dr"
  shows "draft_ok a challenge (Suc n) dr'"
proof -
  obtain u terminal where u: "normalized up = Ret u" "is_terminal_upstream a u = Ret terminal"
    using assms(1) by (auto simp: visit_upstream_def)
  show ?thesis
  proof (cases terminal)
    case True
    then have "dr' = dr\<lparr>dr_terminals := dr_terminals dr @ [u]\<rparr>" using assms(1) u by (simp add: visit_upstream_def)
    then show ?thesis using assms(2) u True by (simp add: draft_ok_def)
  next
    case False
    then obtain r h0 h d s1 where v: "verify_endpoint (da_cfg a) env u s = (Ret r, s1)"
      "hop_from_verification_result (da_resolver_id a) (da_endpoint a) u r now (da_max_age_seconds a) (da_issuer a) (da_key_id a) = Ret h0"
      "sign_hop_verification_result (vc_lib (da_cfg a)) h0 (da_private_key_b64 a) = Ret (h, d)"
      and rest: "(if \<not> vr_accepted r
       then bindS (liftS (endpoint_cache_key u)) (\<lambda>k. retS (draft_error (''upstream verification failed for '' @ k) (dr\<lparr>dr_hops := dr_hops dr @ [h]\<rparr>)))
       else liftS (follow_upstream a visiting challenge now u r (dr\<lparr>dr_hops := dr_hops dr @ [h]\<rparr>))) s1 = (Ret dr', s')"
      using assms(1) u by (auto simp: visit_upstream_def bindS_Inr Let_def)
    have acc: "h_accepted h = vr_accepted r" using hop_from_result_accepted[OF v(2)] sign_hop_accepted[OF v(3)] by simp
    show ?thesis
    proof (cases "vr_accepted r")
      case True
      then show ?thesis using rest acc follow_upstream_ok[OF _ assms(2)] by auto
    next
      case False
      then show ?thesis using rest assms(2) by (auto simp: draft_ok_def draft_error_def)
    qed
  qed
qed

lemma visit_upstreams_ok:
  "visit_upstreams a visiting challenge envs clock i us dr s = (Ret dr', s') \<Longrightarrow> draft_ok a challenge n dr \<Longrightarrow> draft_ok a challenge (n + length us) dr'"
proof (induction us arbitrary: i n dr s)
  case (Cons u us)
  obtain dr1 s1 where v: "visit_upstream a visiting challenge (envs i) (clock i) u dr s = (Ret dr1, s1)"
    "visit_upstreams a visiting challenge envs clock (Suc i) us dr1 s1 = (Ret dr', s')"
    using Cons.prems(1) by (auto simp: bindS_Inr)
  from Cons.IH[OF v(2) visit_upstream_ok[OF v(1) Cons.prems(2)]] show ?case by simp
qed simp

text \<open>An agent never reports more than it checked.  In a chain that \<open>build_chain\<close> returns, every configured
  upstream is accounted for, as a terminal or as a hop, and every downstream chain in it was verified under
  the agent's challenge; and it reports success only when every hop was accepted, every hop has a verified
  downstream chain that itself reports success, and no error was recorded.\<close>

theorem built_chain_accounts_for_upstreams:
  assumes "build_chain a depth visiting challenge envs clock s = (Ret c, s')" and "depth < da_max_depth a"
  shows "length (ch_hops c) + length (ch_terminal_upstreams c) = length (da_upstreams a) \<and>
    (\<forall>t\<in>set (ch_terminal_upstreams c). is_terminal_upstream a t = Ret True) \<and>
    (\<forall>x\<in>set (ch_downstream_chains c). \<exists>payload pk rid up now. verify_verification_chain_payload (vc_lib (da_cfg a)) payload pk rid (Some up) now
        (da_max_clock_skew_seconds a) challenge = Ret x) \<and>
    (ch_final_result c \<longrightarrow> length (ch_downstream_chains c) = length (ch_hops c) \<and> (\<forall>h\<in>set (ch_hops c). h_accepted h) \<and>
       (\<forall>x\<in>set (ch_downstream_chains c). ch_final_result x) \<and> ch_chain_errors c = [])"
proof -
  obtain dr where v: "visit_upstreams a visiting challenge envs clock 0 (da_upstreams a) \<lparr>dr_hops = [], dr_downstream = [], dr_terminals = [], dr_errors = []\<rparr> s = (Ret dr, s')"
    and f: "finish_chain a challenge (clock (length (da_upstreams a))) dr = Ret c"
    using assms by (auto simp: build_chain_def bindS_Inr)
  have "draft_ok a challenge (0 + length (da_upstreams a)) dr" by (rule visit_upstreams_ok[OF v]) (simp add: draft_ok_def)
  then show ?thesis using f by (auto simp: finish_chain_def draft_ok_def list_all_iff)
qed

definition demo_agent :: dist_agent where
  "demo_agent = \<lparr>da_resolver_id = ''resolver-1'', da_endpoint = demo_endpoint, da_upstreams = [demo_endpoint], da_config_version = ''7'',
     da_private_key_b64 = b64encode demo_sk, da_cfg = demo_cfg, da_agent_base_urls = [], da_terminal_upstreams = [demo_endpoint],
     da_max_age_seconds = 30, da_max_depth = 4, da_max_clock_skew_seconds = 5, da_issuer = ''resolver-agent'', da_key_id = ''agent-key-01'',
     da_fetch = (\<lambda>_ _. Raise (RuntimeError ''connection refused''))\<rparr>"

theorem built_chain_accounts_for_upstreams_witness:
  "\<exists>c s'. build_chain demo_agent 0 [''k''] JNull (\<lambda>_. quiet_env (\<lambda>_. no_registry) 0) (\<lambda>_. 0) demo_cache = (Ret c, s') \<and>
     length (ch_hops c) + length (ch_terminal_upstreams c) = 1 \<and> ch_final_result c"
proof -
  have n: "normalized demo_endpoint = Ret demo_endpoint" using demo_endpoint_stable by (simp add: endpoint_stable_def)
  have m: "matches demo_endpoint demo_endpoint = Ret True" by (rule matches_self[OF demo_endpoint_stable]) (simp add: demo_endpoint_def)
  have t: "is_terminal_upstream demo_agent demo_endpoint = Ret True" by (simp add: is_terminal_upstream_def demo_agent_def m)
  obtain c where b: "build_chain demo_agent 0 [''k''] JNull (\<lambda>_. quiet_env (\<lambda>_. no_registry) 0) (\<lambda>_. 0) demo_cache = (Ret c, demo_cache)" "ch_final_result c"
    using n t by (simp add: build_chain_def bindS_def visit_upstream_def finish_chain_def demo_agent_def)
  then show ?thesis using built_chain_accounts_for_upstreams[OF b(1)] by (simp add: demo_agent_def)
qed

end
