(* ===== verification/DnsMessage.thy ===== *)
theory DnsMessage
  imports PyBytes
begin

text \<open>
  \<open>wrapper/dns_message.py\<close> and \<open>wrapper/dns_parse.py\<close>: the SERVFAIL answer of the wrapper and the
  question it extracts for its audit log.  A decoded label is a list of code points, because the decoder
  puts U+FFFD in the place of a byte that is not ASCII.
\<close>

section \<open>SERVFAIL\<close>

definition make_servfail :: "bytes \<Rightarrow> bytes" where
  "make_servfail query =
     (if length query < 12 then []
      else let transaction_id = take 2 query;
               original_flags = int_from_bytes_be (take 2 (drop 2 query));
               rd = original_flags AND 256;
               flags = 32768 OR rd OR 128 OR (2 :: nat);
               qdcount = take 2 (drop 4 query);
               header = transaction_id @ [of_nat (flags div 256), of_nat (flags mod 256)] @ qdcount @ replicate 6 0
           in header @ drop 12 query)"

section \<open>The question\<close>

definition QTYPE_NAMES :: "(nat, string) dict" where
  "QTYPE_NAMES = [(1, ''A''), (2, ''NS''), (5, ''CNAME''), (6, ''SOA''), (12, ''PTR''), (15, ''MX''), (16, ''TXT''), (28, ''AAAA''),
     (33, ''SRV''), (65, ''HTTPS'')]"

text \<open>\<open>decode("ascii", errors="replace")\<close>.\<close>

definition decode_ascii :: "bytes \<Rightarrow> nat list" where
  "decode_ascii bs = map (\<lambda>b. if unat b < 128 then unat b else 65533) bs"

fun join_labels :: "nat list list \<Rightarrow> nat list" where
  "join_labels [] = []"
| "join_labels [l] = l"
| "join_labels (l # m # ls) = l @ [46] @ join_labels (m # ls)"

datatype labels_end = Labels "nat list list" nat | Compressed

text \<open>The loop over the labels from an offset; it ends at the zero label or at the end of the message.\<close>

function read_labels :: "bytes \<Rightarrow> nat \<Rightarrow> nat list list \<Rightarrow> labels_end" where
  "read_labels query offset labels =
     (if offset < length query
      then let len = unat (query ! offset) in
           if len = 0 then Labels labels (offset + 1)
           else if len AND 192 \<noteq> 0 then Compressed
           else read_labels query (offset + 1 + len) (labels @ [decode_ascii (take len (drop (offset + 1) query))])
      else Labels labels offset)"
  by pat_completeness auto

termination
  by (relation "measure (\<lambda>(query, offset, labels). length query - offset)") auto

declare read_labels.simps [simp del]

definition parse_question :: "bytes \<Rightarrow> nat list \<times> string" where
  "parse_question query =
     (if length query < 12 then ([], ''UNKNOWN'')
      else case read_labels query 12 [] of
          Compressed \<Rightarrow> ([], ''COMPRESSED_UNSUPPORTED'')
        | Labels labels offset \<Rightarrow>
            if offset + 4 > length query then (join_labels labels, ''UNKNOWN'')
            else let qtype = int_from_bytes_be (take 2 (drop offset query)) in
                 (join_labels labels, case dict_get QTYPE_NAMES qtype of Some n \<Rightarrow> n | None \<Rightarrow> dec_of_nat qtype))"

section \<open>Facts\<close>

lemma and_exp: "n AND 2 ^ k = (if bit n k then 2 ^ k else (0 :: nat))"
  by (rule bit_eqI) (auto simp: bit_and_iff bit_exp_iff)

lemma and_256:
  fixes n :: nat
  shows "n AND 256 = (if odd (n div 256) then 256 else 0)"
  using and_exp[of n 8] by (simp add: bit_iff_odd)

lemma bytes12:
  assumes "12 \<le> length query"
  obtains a b c d e f rest where "query = a # b # c # d # e # f # rest" "6 \<le> length rest"
  using assms by (auto simp: Suc_le_length_iff numeral_eq_Suc)

lemma make_servfail_eq:
  assumes "6 \<le> length rest"
  shows "make_servfail (a # b # c # d # e # f # rest) =
    [a, b, if odd (unat c) then 129 else 128, 130, e, f] @ replicate 6 0 @ drop 6 rest"
proof -
  have "(256 * unat c + unat d) div 256 = unat c" by simp
  then show ?thesis
    using assms by (simp add: make_servfail_def int_from_bytes_be_2 and_256 Let_def)
qed

text \<open>The wrapper's refusal is a well-formed answer to the very query: it has the length, the transaction id, the
  question count and the question section of the query, is marked as a response with RCODE 2, copies the
  recursion-desired bit, claims no records, and is the same when it is made from itself; a message too short
  to be a query gets no answer.\<close>

theorem servfail_answers_query:
  assumes "12 \<le> length query"
  shows "length (make_servfail query) = length query \<and> take 2 (make_servfail query) = take 2 query \<and>
    take 2 (drop 4 (make_servfail query)) = take 2 (drop 4 query) \<and> drop 12 (make_servfail query) = drop 12 query \<and>
    unat (make_servfail query ! 2) = 128 + unat (query ! 2) mod 2 \<and> unat (make_servfail query ! 3) = 128 + 2 \<and>
    take 6 (drop 6 (make_servfail query)) = replicate 6 0 \<and> make_servfail (make_servfail query) = make_servfail query \<and>
    make_servfail (take 11 query) = []"
proof -
  obtain a b c d e f rest where q: "query = a # b # c # d # e # f # rest" "6 \<le> length rest"
    using bytes12[OF assms] by blast
  obtain r where r: "rest = take 6 rest @ r" "length (take 6 rest) = 6" "drop 6 rest = r" using q(2) by (metis append_take_drop_id length_take min.absorb2)
  have m: "make_servfail query = [a, b, if odd (unat c) then 129 else 128, 130, e, f] @ replicate 6 0 @ r"
    using make_servfail_eq[OF q(2)] q(1) r(3) by simp
  have i: "make_servfail (make_servfail query) = make_servfail query"
    unfolding m using make_servfail_eq[of "replicate 6 0 @ r" a b _ _ e f] by simp
  have d: "drop 6 rest = r" "length rest = 6 + length r" using r by (simp, metis length_append)
  have o: "unat c mod 2 = (if odd (unat c) then 1 else 0)" by (simp add: odd_iff_mod_2_eq_one even_iff_mod_2_eq_zero)
  have "make_servfail (take 11 query) = []" by (simp add: make_servfail_def)
  then show ?thesis using i m[unfolded q(1)] unfolding q(1) by (simp add: d o)
qed

theorem servfail_answers_query_witness:
  "length (make_servfail (replicate 20 1)) = 20 \<and> unat (make_servfail (replicate 20 1) ! 2) = 129"
  using servfail_answers_query[of "replicate 20 1"] by simp

section \<open>Reading back a question\<close>

text \<open>A name in wire format.\<close>

definition wire_name :: "bytes list \<Rightarrow> bytes" where
  "wire_name labels = concat (map (\<lambda>l. of_nat (length l) # l) labels) @ [0]"

definition plain_label :: "bytes \<Rightarrow> bool" where
  "plain_label l \<longleftrightarrow> 0 < length l \<and> length l < 64 \<and> (\<forall>b\<in>set l. unat b < 128)"

lemma and_192: "n < 64 \<Longrightarrow> n AND 192 = (0 :: nat)"
proof -
  assume "n < 64"
  then have "n = take_bit 6 n" by (simp add: take_bit_eq_mod)
  moreover have "take_bit 6 n AND 192 = (n AND take_bit 6 192)" by (simp add: take_bit_eq_mask and.assoc and.commute and.left_commute)
  ultimately show ?thesis by simp
qed

lemma decode_plain: "plain_label l \<Longrightarrow> decode_ascii l = map unat l"
  by (simp add: plain_label_def decode_ascii_def)

lemma read_labels_wire:
  "\<forall>l\<in>set ls. plain_label l \<Longrightarrow> read_labels (pre @ wire_name ls @ rest) (length pre) acc =
     Labels (acc @ map (map unat) ls) (length pre + length (wire_name ls))"
proof (induction ls arbitrary: pre acc)
  case Nil
  then show ?case by (subst read_labels.simps) (simp add: wire_name_def nth_append)
next
  case (Cons l ls)
  let ?q = "pre @ wire_name (l # ls) @ rest" and ?n = "of_nat (length l) :: byte"
  have l: "plain_label l" "0 < length l" "length l < 64" using Cons.prems by (auto simp: plain_label_def)
  have q: "?q = (pre @ ?n # l) @ wire_name ls @ rest" by (simp add: wire_name_def)
  have n: "unat (?q ! length pre) = length l" using l by (simp add: wire_name_def nth_append)
  have ne: "length pre < length ?q" by (simp add: wire_name_def)
  have t: "take (length l) (drop (length pre + 1) ?q) = l" by (simp add: wire_name_def)
  have "read_labels ?q (length pre) acc = read_labels ?q (length pre + 1 + length l) (acc @ [map unat l])"
    using l(2) ne n t and_192[OF l(3)] decode_plain[OF l(1)] by (subst read_labels.simps) (simp only: Let_def if_True if_False simp_thms neq0_conv less_irrefl, simp)
  also have "\<dots> = Labels ((acc @ [map unat l]) @ map (map unat) ls) (length (pre @ ?n # l) + length (wire_name ls))"
    using Cons.IH[of "pre @ ?n # l" "acc @ [map unat l]"] Cons.prems unfolding q by simp
  finally show ?case by (simp add: wire_name_def)
qed

text \<open>The audit log names the question that was asked: for a query with a well-formed name of ASCII labels, of any
  number and each shorter than 64 bytes, \<open>parse_question\<close> returns the labels joined by dots and the name of the
  query type, or its number when the type has no name.\<close>

theorem parsed_question_is_asked:
  assumes "length header = 12" and "\<forall>l\<in>set labels. plain_label l" and "qtype < 65536"
  shows "parse_question (header @ wire_name labels @ [of_nat (qtype div 256), of_nat (qtype mod 256), c, d] @ rest) =
    (join_labels (map (map unat) labels), case dict_get QTYPE_NAMES qtype of Some n \<Rightarrow> n | None \<Rightarrow> dec_of_nat qtype)"
proof -
  let ?q = "header @ wire_name labels @ [of_nat (qtype div 256), of_nat (qtype mod 256), c, d] @ rest"
  have r: "read_labels ?q 12 [] = Labels (map (map unat) labels) (12 + length (wire_name labels))"
    using read_labels_wire[OF assms(2), of header _ "[]"] assms(1) by simp
  have "take 2 (drop (12 + length (wire_name labels)) ?q) = [of_nat (qtype div 256), of_nat (qtype mod 256)]"
    using assms(1) by simp
  moreover have "int_from_bytes_be [of_nat (qtype div 256), of_nat (qtype mod 256)] = qtype"
    using nat_to_bytes2_roundtrip[of qtype] assms(3) by (simp add: nat_to_bytes2_def)
  ultimately show ?thesis using r assms(1) by (simp add: parse_question_def)
qed

theorem parsed_question_is_asked_witness:
  "parse_question (replicate 12 0 @ wire_name [[97, 98], [99]] @ [0, 28, 0, 1]) = ([97, 98, 46, 99], ''AAAA'')"
  using parsed_question_is_asked[of "replicate 12 0" "[[97, 98], [99]]" 28 0 1 "[]"]
  by (simp add: plain_label_def QTYPE_NAMES_def)

end
