(* ===== verification/QueryProcessor.thy ===== *)
theory QueryProcessor
  imports DnsMessage PyRepr Verifier
begin

text \<open>
  \<open>wrapper/request_journal.py\<close>, \<open>wrapper/metrics.py\<close>, \<open>wrapper/query_processor.py\<close>,
  \<open>wrapper/verification_gate.py\<close> and the upstream lists of \<open>wrapper/runtime.py\<close>: the answer of an upstream
  is released only when every resolver observed on its path verifies.  The forwarder, the verification
  surroundings of each call and the request id are arguments.  Verifications that the program starts
  concurrently are run in the order of the list; what other writers do to the database meanwhile is in the
  surroundings of each of them.
\<close>

section \<open>RequestJournal\<close>

record journal_entry =
  je_query_size :: "int option"
  je_events :: "jdict list"

record journal =
  jr_max_entries :: int
  jr_entries :: "(string, journal_entry) dict"

definition new_journal :: journal where
  "new_journal = \<lparr>jr_max_entries = 10000, jr_entries = []\<rparr>"

text \<open>\<open>while len(entries) > max_entries: entries.popitem(last=False)\<close>.\<close>

fun evict :: "int \<Rightarrow> (string, journal_entry) dict \<Rightarrow> (string, journal_entry) dict res" where
  "evict max_entries [] = (if 0 > max_entries then Raise (KeyError ''dictionary is empty'') else Ret [])"
| "evict max_entries (e # es) = (if int (length (e # es)) > max_entries then evict max_entries es else Ret (e # es))"

definition journal_create :: "string \<Rightarrow> bytes \<Rightarrow> (journal, string) op" where
  "journal_create request_id query j =
     (let d = dict_set (jr_entries j) request_id \<lparr>je_query_size = Some (int (length query)), je_events = []\<rparr> in
      case evict (jr_max_entries j) d of
        Inl e \<Rightarrow> (Inl e, j\<lparr>jr_entries := []\<rparr>)
      | Inr d' \<Rightarrow> (Inr request_id, j\<lparr>jr_entries := d'\<rparr>))"

definition journal_add :: "string \<Rightarrow> jdict \<Rightarrow> (journal, unit) op" where
  "journal_add request_id event = modS (\<lambda>j.
     let d = dict_setdefault (jr_entries j) request_id \<lparr>je_query_size = None, je_events = []\<rparr> in
     j\<lparr>jr_entries := map (\<lambda>(k, e). (k, if k = request_id then e\<lparr>je_events := je_events e @ [event]\<rparr> else e)) d\<rparr>)"

definition journal_get :: "string \<Rightarrow> (journal, journal_entry option) op" where
  "journal_get request_id = getS (\<lambda>j. dict_get (jr_entries j) request_id)"

section \<open>RuntimeMetrics\<close>

text \<open>The counters, keyed by name and labels, and the number of latencies recorded; their sum, a floating-point
  number, is left out.\<close>

record metrics =
  mt_counters :: "(string \<times> (string \<times> string) list, nat) dict"
  mt_latency_count :: nat

definition new_metrics :: metrics where
  "new_metrics = \<lparr>mt_counters = [], mt_latency_count = 0\<rparr>"

definition count_up :: "string \<times> (string \<times> string) list \<Rightarrow> metrics \<Rightarrow> metrics" where
  "count_up k m = m\<lparr>mt_counters := dict_set (mt_counters m) k ((case dict_get (mt_counters m) k of None \<Rightarrow> 0 | Some n \<Rightarrow> n) + 1)\<rparr>"

definition query_label :: "string \<Rightarrow> string \<times> (string \<times> string) list" where
  "query_label decision = (''resolver_identity_dns_queries_total'', [(''decision'', py_lower decision)])"

definition result_label :: "verification_result \<Rightarrow> string \<times> (string \<times> string) list" where
  "result_label r = (''resolver_identity_verifications_total'',
     [(''accepted'', if vr_accepted r then ''true'' else ''false''), (''cache'', py_str (jget (vr_evidence r) ''cache'' (JStr ''miss'')))])"

definition record_decision :: "string \<Rightarrow> verification_result list \<Rightarrow> metrics \<Rightarrow> metrics" where
  "record_decision decision results m =
     (let m' = fold count_up (map result_label results) (count_up (query_label decision) m)
      in m'\<lparr>mt_latency_count := mt_latency_count m' + 1\<rparr>)"

section \<open>Upstreams\<close>

record upstream =
  up_ip :: string
  up_port :: int
  up_transport :: string
  up_observed_resolvers :: "endpoint list"

definition upstream_endpoint :: "upstream \<Rightarrow> endpoint res" where
  "upstream_endpoint u = normalized (endpoint_of_parts (up_ip u) (up_port u) (up_transport u))"

definition observed_endpoints :: "upstream \<Rightarrow> endpoint list res" where
  "observed_endpoints u = bind_res (upstream_endpoint u) (\<lambda>e.
     bind_res (map_res normalized (up_observed_resolvers u)) (\<lambda>es. Ret (e # es)))"

record dns_result =
  dq_response :: bytes
  dq_request_id :: string
  dq_accepted :: bool
  dq_upstream :: "upstream option"

definition new_upstream :: "string \<Rightarrow> int \<Rightarrow> string \<Rightarrow> upstream" where
  "new_upstream ip port transport = \<lparr>up_ip = ip, up_port = port, up_transport = transport, up_observed_resolvers = []\<rparr>"

definition upstream_of_spec :: "string \<Rightarrow> string \<Rightarrow> upstream res" where
  "upstream_of_spec primary_transport item =
     (case split_on (CHR '':'') item of
        [ip] \<Rightarrow> Ret (new_upstream ip 53 primary_transport)
      | [ip, port] \<Rightarrow> bind_res (py_int_of_str port) (\<lambda>p. Ret (new_upstream ip p primary_transport))
      | ip # port # transport # _ \<Rightarrow> bind_res (py_int_of_str port) (\<lambda>p. Ret (new_upstream ip p transport))
      | [] \<Rightarrow> Raise (IndexError ''list index out of range''))"

definition parse_upstream_specs :: "string \<Rightarrow> int \<Rightarrow> string \<Rightarrow> string \<Rightarrow> upstream list res" where
  "parse_upstream_specs primary_ip primary_port primary_transport fallbacks =
     bind_res (map_res (upstream_of_spec primary_transport) (filter (\<lambda>s. s \<noteq> []) (map py_strip (split_on (CHR '','') fallbacks)))) (\<lambda>specs.
     Ret (new_upstream primary_ip primary_port primary_transport # specs))"

section \<open>DNSQueryProcessor\<close>

text \<open>The state the processor and the gate share: the verifier's cache and the journal.\<close>

record proc_state =
  pr_cache :: cache_mgr
  pr_journal :: journal

type_synonym 'a procop = "(proc_state, 'a) op"
type_synonym forwarder = "bytes \<Rightarrow> string \<Rightarrow> int \<Rightarrow> bytes res"

definition in_cache :: "'a cmop \<Rightarrow> 'a procop" where
  "in_cache = zoomS pr_cache (\<lambda>c s. s\<lparr>pr_cache := c\<rparr>)"

definition in_journal :: "(journal, 'a) op \<Rightarrow> 'a procop" where
  "in_journal = zoomS pr_journal (\<lambda>j s. s\<lparr>pr_journal := j\<rparr>)"

fun verify_list :: "verifier_cfg \<Rightarrow> (nat \<Rightarrow> verify_env) \<Rightarrow> nat \<Rightarrow> endpoint list \<Rightarrow> verification_result list cmop" where
  "verify_list cfg envs i [] = retS []"
| "verify_list cfg envs i (e # es) =
     bindS (verify_endpoint cfg (envs i) e) (\<lambda>r. bindS (verify_list cfg envs (Suc i) es) (\<lambda>rs. retS (r # rs)))"

definition verify_observed :: "verifier_cfg \<Rightarrow> (nat \<Rightarrow> verify_env) \<Rightarrow> endpoint list \<Rightarrow> verification_result list procop" where
  "verify_observed cfg envs observed = in_cache (verify_list cfg envs 0 observed)"

definition note_upstream :: "string \<Rightarrow> upstream \<Rightarrow> jdict \<Rightarrow> unit procop" where
  "note_upstream request_id u rest =
     bindS (liftS (upstream_endpoint u)) (\<lambda>e. in_journal (journal_add request_id ((''upstream'', JObj (endpoint_to_dict e)) # rest)))"

definition path_event :: "endpoint list \<Rightarrow> verification_result list \<Rightarrow> jdict" where
  "path_event observed verifications =
     [(''event'', JStr ''path_verification''), (''observed_resolvers'', JArr (map (\<lambda>e. JObj (endpoint_to_dict e)) observed)),
      (''results'', JArr (map (\<lambda>r. JObj (vr_to_dict r)) verifications))]"

text \<open>The loop over the upstreams; the surroundings of the i-th path are \<open>envs i\<close>.\<close>

fun try_paths :: "verifier_cfg \<Rightarrow> (nat \<Rightarrow> nat \<Rightarrow> verify_env) \<Rightarrow> string \<Rightarrow> bytes \<Rightarrow> (nat \<Rightarrow> forwarder) \<Rightarrow> nat \<Rightarrow> upstream list \<Rightarrow> dns_result option procop" where
  "try_paths cfg envs request_id query fwd i [] = retS None"
| "try_paths cfg envs request_id query fwd i (u # us) =
     (case fwd i query (up_ip u) (up_port u) of
        Inl e \<Rightarrow> seqS (note_upstream request_id u [(''event'', JStr ''forward_error''), (''error'', JStr (exc_text e))])
          (try_paths cfg envs request_id query fwd (Suc i) us)
      | Inr upstream_response \<Rightarrow>
          bindS (liftS (observed_endpoints u)) (\<lambda>observed.
          bindS (verify_observed cfg (envs i) observed) (\<lambda>verifications.
          seqS (note_upstream request_id u (path_event observed verifications))
          (if list_all vr_accepted verifications
           then retS (Some \<lparr>dq_response = upstream_response, dq_request_id = request_id, dq_accepted = True, dq_upstream = Some u\<rparr>)
           else try_paths cfg envs request_id query fwd (Suc i) us))))"

definition refusal :: "bytes \<Rightarrow> string \<Rightarrow> dns_result" where
  "refusal query request_id = \<lparr>dq_response = make_servfail query, dq_request_id = request_id, dq_accepted = False, dq_upstream = None\<rparr>"

definition process_query :: "verifier_cfg \<Rightarrow> (nat \<Rightarrow> nat \<Rightarrow> verify_env) \<Rightarrow> string \<Rightarrow> bytes \<Rightarrow> upstream list \<Rightarrow> (nat \<Rightarrow> forwarder) \<Rightarrow> dns_result procop" where
  "process_query cfg envs uuid query upstreams fwd =
     bindS (in_journal (journal_create uuid query)) (\<lambda>request_id.
     if upstreams = []
     then seqS (in_journal (journal_add request_id [(''event'', JStr ''no_upstreams'')])) (retS (refusal query request_id))
     else bindS (try_paths cfg envs request_id query fwd 0 upstreams) (\<lambda>released.
       case released of
         Some r \<Rightarrow> retS r
       | None \<Rightarrow> seqS (in_journal (journal_add request_id [(''event'', JStr ''all_upstreams_failed'')])) (retS (refusal query request_id))))"

section \<open>VerificationGate\<close>

fun gate_loop :: "verifier_cfg \<Rightarrow> (nat \<Rightarrow> verify_env) \<Rightarrow> string \<Rightarrow> nat \<Rightarrow> endpoint list \<Rightarrow> bool procop" where
  "gate_loop cfg envs request_id i [] = retS True"
| "gate_loop cfg envs request_id i (e # es) =
     bindS (in_cache (verify_endpoint cfg (envs i) e)) (\<lambda>result.
     seqS (in_journal (journal_add request_id [(''endpoint'', JObj (endpoint_to_dict e)), (''result'', JObj (vr_to_dict result))]))
     (if \<not> vr_accepted result then retS False else gate_loop cfg envs request_id (Suc i) es))"

definition release_or_servfail :: "verifier_cfg \<Rightarrow> (nat \<Rightarrow> verify_env) \<Rightarrow> string \<Rightarrow> bytes \<Rightarrow> bytes \<Rightarrow> endpoint list \<Rightarrow> (bytes \<times> string) procop" where
  "release_or_servfail cfg envs uuid query response observed =
     bindS (in_journal (journal_create uuid query)) (\<lambda>request_id.
     bindS (gate_loop cfg envs request_id 0 observed) (\<lambda>ok.
     retS (if ok then response else make_servfail query, request_id)))"

section \<open>What is released\<close>

text \<open>The verifications of a path: the i-th endpoint was verified in the i-th surroundings, from some state of the cache.\<close>

definition verified_in :: "verifier_cfg \<Rightarrow> (nat \<Rightarrow> verify_env) \<Rightarrow> endpoint list \<Rightarrow> verification_result list \<Rightarrow> bool" where
  "verified_in cfg envs es rs \<longleftrightarrow> length rs = length es \<and>
     (\<forall>i < length es. \<exists>c c'. verify_endpoint cfg (envs i) (es ! i) c = (Ret (rs ! i), c'))"

lemma verify_list_runs:
  "verify_list cfg envs i es c = (Ret rs, c') \<Longrightarrow>
   length rs = length es \<and> (\<forall>j < length es. \<exists>c c'. verify_endpoint cfg (envs (i + j)) (es ! j) c = (Ret (rs ! j), c'))"
proof (induction es arbitrary: i rs c)
  case (Cons e es)
  obtain r c1 rs' where v: "verify_endpoint cfg (envs i) e c = (Ret r, c1)" "verify_list cfg envs (Suc i) es c1 = (Ret rs', c')" "rs = r # rs'"
    using Cons.prems by (auto simp: bindS_Inr)
  note ih = Cons.IH[OF v(2)]
  have "\<exists>c c'. verify_endpoint cfg (envs (i + j)) ((e # es) ! j) c = (Ret (rs ! j), c')" if "j < length (e # es)" for j
    using ih v(1,3) that by (cases j) auto
  then show ?case using ih v(3) by auto
qed auto

lemma zoomS_Inr: "zoomS get put m s = (Inr x, s') \<longleftrightarrow> (\<exists>t. m (get s) = (Inr x, t) \<and> s' = put t s)"
  by (auto simp: zoomS_def split: prod.splits)

lemma verify_observed_runs: "verify_observed cfg envs es s = (Ret rs, s') \<Longrightarrow> verified_in cfg envs es rs"
  using verify_list_runs[of cfg envs 0] by (fastforce simp: verify_observed_def in_cache_def zoomS_Inr verified_in_def)

lemma try_paths_released:
  "try_paths cfg envs rid query fwd k us s = (Ret (Some r), s') \<Longrightarrow>
   \<exists>i observed results. i < length us \<and> dq_accepted r \<and> dq_upstream r = Some (us ! i) \<and>
     fwd (k + i) query (up_ip (us ! i)) (up_port (us ! i)) = Ret (dq_response r) \<and> observed_endpoints (us ! i) = Ret observed \<and>
     verified_in cfg (envs (k + i)) observed results \<and> list_all vr_accepted results"
proof (induction us arbitrary: k s)
  case (Cons u us)
  have step: ?case if "try_paths cfg envs rid query fwd (Suc k) us t = (Ret (Some r), s')" for t
    using Cons.IH[OF that] by (metis Suc_less_eq add_Suc_shift length_Cons nth_Cons_Suc)
  show ?case
  proof (cases "fwd k query (up_ip u) (up_port u)")
    case (Inl e)
    then show ?thesis using Cons.prems step by (auto simp: seqS_Inr)
  next
    case (Inr a)
    obtain observed results s1 s2 where v: "observed_endpoints u = Ret observed" "verify_observed cfg (envs k) observed s = (Ret results, s1)"
      "(if list_all vr_accepted results then retS (Some \<lparr>dq_response = a, dq_request_id = rid, dq_accepted = True, dq_upstream = Some u\<rparr>)
        else try_paths cfg envs rid query fwd (Suc k) us) s2 = (Ret (Some r), s')"
      using Cons.prems Inr by (auto simp: seqS_Inr bindS_Inr)
    show ?thesis
    proof (cases "list_all vr_accepted results")
      case True
      then have "r = \<lparr>dq_response = a, dq_request_id = rid, dq_accepted = True, dq_upstream = Some u\<rparr>" using v(3) by simp
      then show ?thesis using True v(1) verify_observed_runs[OF v(2)] Inr by (intro exI[of _ 0]) auto
    next
      case False
      then show ?thesis using v(3) step by simp
    qed
  qed
qed auto

text \<open>C6. A DNS answer is released only for a verified path.  When \<open>process\<close> accepts, the response is what the forwarder
  returned for one of the configured upstreams, and every endpoint observed on that path was verified and
  accepted; when it does not accept, the response is the SERVFAIL made from the query.\<close>

theorem released_answer_verified:
  assumes "process_query cfg envs uuid query upstreams fwd s = (Ret r, s')"
  shows "(if dq_accepted r
     then \<exists>i observed results. i < length upstreams \<and> dq_upstream r = Some (upstreams ! i) \<and>
            fwd i query (up_ip (upstreams ! i)) (up_port (upstreams ! i)) = Ret (dq_response r) \<and>
            observed_endpoints (upstreams ! i) = Ret observed \<and> verified_in cfg (envs i) observed results \<and> list_all vr_accepted results
     else dq_response r = make_servfail query \<and> dq_upstream r = None)"
proof -
  obtain s1 where c: "in_journal (journal_create uuid query) s = (Ret uuid, s1)"
    using assms by (auto simp: process_query_def bindS_Inr in_journal_def zoomS_Inr journal_create_def Let_def split: sum.splits)
  show ?thesis
  proof (cases "upstreams = []")
    case True
    then have "r = refusal query uuid" using assms c by (auto simp: process_query_def bindS_Inr seqS_Inr)
    then show ?thesis by (simp add: refusal_def)
  next
    case False
    then obtain released s2 where t: "try_paths cfg envs uuid query fwd 0 upstreams s1 = (Ret released, s2)"
      and rest: "(case released of Some r \<Rightarrow> retS r
        | None \<Rightarrow> seqS (in_journal (journal_add uuid [(''event'', JStr ''all_upstreams_failed'')])) (retS (refusal query uuid))) s2 = (Ret r, s')"
      using assms c by (auto simp: process_query_def bindS_Inr)
    show ?thesis
    proof (cases released)
      case None
      then have "r = refusal query uuid" using rest by (auto simp: seqS_Inr)
      then show ?thesis by (simp add: refusal_def)
    next
      case (Some r')
      then have "r' = r" using rest by simp
      then show ?thesis using try_paths_released[of cfg envs uuid query fwd 0 upstreams s1 r' s2] t Some by auto
    qed
  qed
qed

theorem released_answer_verified_witness:
  "\<exists>r s'. process_query demo_cfg (\<lambda>_ _. quiet_env (\<lambda>_. no_registry) 0) ''r1'' (replicate 12 1) [] (\<lambda>_ _ _ _. Ret [])
       \<lparr>pr_cache = demo_cache, pr_journal = new_journal\<rparr> = (Ret r, s') \<and>
     dq_response r = make_servfail (replicate 12 1) \<and> \<not> dq_accepted r"
proof -
  let ?p = "process_query demo_cfg (\<lambda>_ _. quiet_env (\<lambda>_. no_registry) 0) ''r1'' (replicate 12 1) [] (\<lambda>_ _ _ _. Ret [])
       \<lparr>pr_cache = demo_cache, pr_journal = new_journal\<rparr>"
  have "fst ?p = Ret (refusal (replicate 12 1) ''r1'')"
    by (simp add: process_query_def bindS_def seqS_def in_journal_def zoomS_def journal_create_def journal_add_def new_journal_def refusal_def)
  then obtain s' where p: "?p = (Ret (refusal (replicate 12 1) ''r1''), s')" by (metis prod.collapse)
  then show ?thesis using released_answer_verified[OF p] by (auto simp: refusal_def)
qed

section \<open>The journal stays bounded\<close>

lemma evict_drop: "0 \<le> m \<Longrightarrow> evict m d = Ret (drop (length d - nat m) d)"
proof (induction d)
  case (Cons e es)
  have "length (e # es) - nat m = Suc (length es - nat m)" if "int (length (e # es)) > m" using that Cons.prems by auto
  then show ?case using Cons by auto
qed simp

lemma dict_set_new: "dict_get d k = None \<Longrightarrow> dict_set d k v = d @ [(k, v)]"
  by (induction d) (auto split: if_splits)

text \<open>The journal does not grow without bound: after \<open>create\<close> for a fresh request id the journal holds at most
  \<open>max_entries\<close> entries, the new entry among them and the most recent others unchanged.\<close>

theorem journal_bounded:
  assumes "1 \<le> jr_max_entries j" and "dict_get (jr_entries j) request_id = None"
  shows "\<exists>j'. journal_create request_id query j = (Ret request_id, j') \<and> int (length (jr_entries j')) \<le> jr_max_entries j' \<and>
    jr_max_entries j' = jr_max_entries j \<and>
    (\<exists>n. jr_entries j' = drop n (jr_entries j) @ [(request_id, \<lparr>je_query_size = Some (int (length query)), je_events = []\<rparr>)])"
proof -
  let ?e = "(request_id, \<lparr>je_query_size = Some (int (length query)), je_events = []\<rparr>)"
  let ?d = "jr_entries j @ [?e]" and ?n = "length (jr_entries j) + 1 - nat (jr_max_entries j)"
  have d: "drop ?n ?d = drop ?n (jr_entries j) @ [?e]" using assms(1) by simp
  have "journal_create request_id query j = (Ret request_id, j\<lparr>jr_entries := drop ?n (jr_entries j) @ [?e]\<rparr>)"
    using assms evict_drop[of "jr_max_entries j" ?d] unfolding d[symmetric] by (simp add: journal_create_def dict_set_new)
  moreover have "int (length (drop ?n (jr_entries j) @ [?e])) \<le> jr_max_entries j" using assms(1) by auto
  ultimately show ?thesis by auto
qed

theorem journal_bounded_witness:
  "\<exists>j'. journal_create ''r1'' [] \<lparr>jr_max_entries = 1, jr_entries = [(''r0'', \<lparr>je_query_size = None, je_events = []\<rparr>)]\<rparr> = (Ret ''r1'', j') \<and>
     int (length (jr_entries j')) \<le> 1"
  using journal_bounded[of "\<lparr>jr_max_entries = 1, jr_entries = [(''r0'', \<lparr>je_query_size = None, je_events = []\<rparr>)]\<rparr>" "''r1''" "[]"] by auto

end
