(* ===== verification/ResolverChain.thy ===== *)
theory ResolverChain
  imports Distributed QueryProcessor
begin

text \<open>
  \<open>wrapper/resolver_chain.py\<close>: how the wrapper learns which resolvers take part in the answer of an upstream.
  The answers of agents over HTTP are arguments of the provider: a JSON value or an exception for a URL (and a
  challenge).  One call of the provider reads the clock at each verification; the validation of one chain is
  made at one time \<open>now\<close>.  A \<open>ChainDiscoveryError\<close> is a \<open>RuntimeError\<close>.
\<close>

section \<open>Providers that follow the configuration\<close>

definition first_hop_observed :: "upstream \<Rightarrow> endpoint list res" where
  "first_hop_observed u = bind_res (upstream_endpoint u) (\<lambda>e. Ret [e])"

record static_provider =
  sp_endpoints :: "endpoint list"
  sp_include_first_hop :: bool

definition static_from_config :: "jdict list \<Rightarrow> bool \<Rightarrow> static_provider res" where
  "static_from_config items include_first_hop =
     bind_res (map_res (\<lambda>item. bind_res (endpoint_from_dict item) normalized) items) (\<lambda>es.
     Ret \<lparr>sp_endpoints = es, sp_include_first_hop = include_first_hop\<rparr>)"

definition static_observed :: "static_provider \<Rightarrow> upstream \<Rightarrow> endpoint list res" where
  "static_observed p u =
     bind_res (if sp_include_first_hop p then bind_res (upstream_endpoint u) (\<lambda>e. Ret [e]) else Ret []) (\<lambda>first.
     bind_res (map_res normalized (sp_endpoints p)) (\<lambda>rest. unique_endpoints (first @ rest)))"

section \<open>Contexts\<close>

record chain_context =
  cx_first_hop :: endpoint
  cx_agent_identity :: agent_identity
  cx_observed_resolvers :: "endpoint list"
  cx_config_version :: string
  cx_agent_identities :: "agent_identity list"
  cx_verification_chain :: "chain option"

definition context_identity_dict :: "agent_identity \<Rightarrow> jdict" where
  "context_identity_dict i = [(''resolver_id'', ai_resolver_id i), (''endpoint'', JObj (endpoint_to_dict (ai_endpoint i))),
     (''config_version'', JStr (ai_config_version i)), (''upstreams'', JArr (map (\<lambda>e. JObj (endpoint_to_dict e)) (ai_upstreams i)))]"

definition context_to_dict :: "chain_context \<Rightarrow> jdict res" where
  "context_to_dict cx =
     bind_res (case cx_verification_chain cx of None \<Rightarrow> Ret JNull | Some c \<Rightarrow> bind_res (chain_to_dict True c) (\<lambda>d. Ret (JObj d))) (\<lambda>ch.
     Ret [(''first_hop'', JObj (endpoint_to_dict (cx_first_hop cx))), (''resolver_id'', ai_resolver_id (cx_agent_identity cx)),
          (''config_version'', JStr (cx_config_version cx)),
          (''observed_resolvers'', JArr (map (\<lambda>e. JObj (endpoint_to_dict e)) (cx_observed_resolvers cx))),
          (''agent_identities'', JArr (map (\<lambda>i. JObj (context_identity_dict i)) (cx_agent_identities cx))),
          (''verification_chain'', ch)])"

section \<open>Configuration versions\<close>

text \<open>\<open>part.rsplit(":", 1)\<close>.\<close>

definition rsplit_pair :: "char \<Rightarrow> string \<Rightarrow> string \<times> string" where
  "rsplit_pair c s = (rev (tl (dropWhile (\<lambda>x. x \<noteq> c) (rev s))), rev (takeWhile (\<lambda>x. x \<noteq> c) (rev s)))"

definition parse_chain_versions :: "string \<Rightarrow> (string, string) dict" where
  "parse_chain_versions v = dict_update [] (map (rsplit_pair (CHR '':'')) (filter (\<lambda>part. CHR '':'' \<in> set part) (split_on (CHR ''>'') v)))"

text \<open>The comparison of two versions of one resolver: as numbers, and as text when one of them is not a number.\<close>

definition version_less :: "string \<Rightarrow> string \<Rightarrow> bool" where
  "version_less new_value old_value =
     (case (py_int_of_str new_value, py_int_of_str old_value) of
        (Inr n, Inr m) \<Rightarrow> n < m
      | _ \<Rightarrow> new_value < old_value)"

definition is_config_rollback :: "string \<Rightarrow> string \<Rightarrow> bool" where
  "is_config_rollback previous current =
     (let current_versions = parse_chain_versions current in
      list_ex (\<lambda>(resolver_id, old_value). case dict_get current_versions resolver_id of
          None \<Rightarrow> False | Some new_value \<Rightarrow> version_less new_value old_value) (parse_chain_versions previous))"

primrec chain_config_version :: "chain \<Rightarrow> string" where
  "chain_config_version (Chain resolver_id b config_version d e downstream g h i j k l m n s) =
     py_join ''>'' ((py_str resolver_id @ '':'' @ config_version) # map chain_config_version downstream)"

definition identities_config_version :: "agent_identity list \<Rightarrow> string" where
  "identities_config_version identities = py_join ''>'' (map (\<lambda>i. py_str (ai_resolver_id i) @ '':'' @ ai_config_version i) identities)"

section \<open>AgentResolverChainProvider\<close>

record chain_provider =
  cp_agent_base_urls :: "(string, string) dict"
  cp_signature_secret :: string
  cp_strict :: bool
  cp_max_clock_skew_seconds :: int
  cp_max_depth :: int
  cp_allow_hmac_fallback :: bool
  cp_distributed_verification :: bool
  cp_require_challenge :: bool
  cp_has_state_repository :: bool
  cp_get :: "string \<Rightarrow> json res"
  cp_post :: "string \<Rightarrow> json \<Rightarrow> json res"

text \<open>The state of the provider beside the verifier's cache, whose database also holds the runtime state.\<close>

record provider_state =
  ps_cache :: cache_mgr
  ps_contexts :: "(string, chain_context) dict"
  ps_invalidated :: "endpoint list"

type_synonym 'a provop = "(provider_state, 'a) op"

definition with_cache :: "'a cmop \<Rightarrow> 'a provop" where
  "with_cache = zoomS ps_cache (\<lambda>c s. s\<lparr>ps_cache := c\<rparr>)"

definition high_water_key :: "string \<Rightarrow> string" where
  "high_water_key key = ''agent_config_high_water:'' @ key"

definition read_high_water :: "chain_provider \<Rightarrow> string \<Rightarrow> string option provop" where
  "read_high_water p key = (if cp_has_state_repository p then with_cache (on_db (runtime_get (high_water_key key))) else retS None)"

text \<open>A version that is empty is no version.\<close>

definition update_context :: "chain_provider \<Rightarrow> string \<Rightarrow> chain_context \<Rightarrow> unit provop" where
  "update_context p key cx =
     bindS (getS (\<lambda>s. dict_get (ps_contexts s) key)) (\<lambda>previous.
     bindS (read_high_water p key) (\<lambda>persisted_version.
     let previous_version = (case previous of Some c \<Rightarrow> Some (cx_config_version c) | None \<Rightarrow> persisted_version) in
     if (case previous_version of None \<Rightarrow> False | Some v \<Rightarrow> v \<noteq> [] \<and> is_config_rollback v (cx_config_version cx))
     then raiseS (RuntimeError ''agent verification chain config_version rollback detected'')
     else seqS (modS (\<lambda>s. case previous of
            Some c \<Rightarrow> if cx_config_version c \<noteq> cx_config_version cx
                      then s\<lparr>ps_invalidated := ps_invalidated s @ cx_observed_resolvers c, ps_contexts := dict_pop (ps_contexts s) key\<rparr> else s
          | None \<Rightarrow> s))
       (seqS (modS (\<lambda>s. s\<lparr>ps_contexts := dict_set (ps_contexts s) key cx\<rparr>))
       (if cp_has_state_repository p then with_cache (on_db (runtime_set (high_water_key key) (cx_config_version cx))) else retS ()))))"

definition record_context :: "chain_provider \<Rightarrow> string \<Rightarrow> endpoint \<Rightarrow> agent_identity list \<Rightarrow> endpoint list \<Rightarrow> unit provop" where
  "record_context p key first_hop identities observed =
     (case identities of
        [] \<Rightarrow> raiseS (IndexError ''list index out of range'')
      | i # _ \<Rightarrow> update_context p key \<lparr>cx_first_hop = first_hop, cx_agent_identity = i, cx_observed_resolvers = observed,
            cx_config_version = identities_config_version identities, cx_agent_identities = identities, cx_verification_chain = None\<rparr>)"

definition identity_of_chain :: "chain \<Rightarrow> agent_identity" where
  "identity_of_chain c = \<lparr>ai_resolver_id = ch_resolver_id c, ai_endpoint = ch_endpoint c,
     ai_upstreams = map h_upstream_endpoint (ch_hops c), ai_config_version = ch_config_version c, ai_health = JStr ''ok'',
     ai_issued_at = ch_issued_at c, ai_expires_at = ch_expires_at c, ai_issuer = ch_issuer c, ai_key_id = ch_key_id c,
     ai_schema_version = JStr AGENT_SCHEMA_VERSION, ai_signature = ch_signature c\<rparr>"

definition record_context_from_chain :: "chain_provider \<Rightarrow> string \<Rightarrow> endpoint \<Rightarrow> chain \<Rightarrow> endpoint list \<Rightarrow> unit provop" where
  "record_context_from_chain p key first_hop c observed =
     update_context p key \<lparr>cx_first_hop = first_hop, cx_agent_identity = identity_of_chain c, cx_observed_resolvers = observed,
       cx_config_version = chain_config_version c, cx_agent_identities = [identity_of_chain c], cx_verification_chain = Some c\<rparr>"

definition consume_invalidated_endpoints :: "endpoint list provop" where
  "consume_invalidated_endpoints =
     bindS (getS ps_invalidated) (\<lambda>es. bindS (liftS (unique_endpoints es)) (\<lambda>u. seqS (modS (\<lambda>s. s\<lparr>ps_invalidated := []\<rparr>)) (retS u)))"

definition get_context :: "upstream \<Rightarrow> chain_context option provop" where
  "get_context u = bindS (liftS (bind_res (upstream_endpoint u) endpoint_cache_key)) (\<lambda>key. getS (\<lambda>s. dict_get (ps_contexts s) key))"

definition provider_url_for :: "chain_provider \<Rightarrow> endpoint \<Rightarrow> string option res" where
  "provider_url_for p ep =
     bind_res (normalized ep) (\<lambda>n.
     bind_res (endpoint_cache_key n) (\<lambda>key.
     Ret (case dict_get (cp_agent_base_urls p) key of
            Some (u # us) \<Rightarrow> Some (u # us)
          | _ \<Rightarrow> (case e_ip n of JStr ip \<Rightarrow> if ip \<noteq> [] then dict_get (cp_agent_base_urls p) ip else None | _ \<Rightarrow> None))))"

definition no_url :: "string option \<Rightarrow> bool" where
  "no_url u \<longleftrightarrow> u = None \<or> u = Some []"

definition expect_object :: "json res \<Rightarrow> string \<Rightarrow> jdict res" where
  "expect_object r msg = bind_res r (\<lambda>v. case v of JObj d \<Rightarrow> Ret d | _ \<Rightarrow> Raise (ValueError msg))"

definition provider_fetch_identity :: "chain_provider \<Rightarrow> string \<Rightarrow> jdict res" where
  "provider_fetch_identity p base_url =
     expect_object (cp_get p (rstrip_while (\<lambda>c. c = CHR ''/'') base_url @ ''/v1/identity'')) ''agent identity response must be an object''"

definition provider_fetch_chain :: "chain_provider \<Rightarrow> string \<Rightarrow> json \<Rightarrow> jdict res" where
  "provider_fetch_chain p base_url challenge =
     (let url = rstrip_while (\<lambda>c. c = CHR ''/'') base_url @ ''/v1/verification-chain'' in
      expect_object (if truthy challenge then cp_post p url (JObj [(''challenge'', challenge)]) else cp_get p url)
        ''verification chain response must be an object'')"

definition fetch_chain_payload :: "chain_provider \<Rightarrow> string \<Rightarrow> json \<Rightarrow> (jdict \<times> json) res" where
  "fetch_chain_payload p base_url challenge = bind_res (provider_fetch_chain p base_url challenge) (\<lambda>payload. Ret (payload, challenge))"

text \<open>\<open>observed_resolvers\<close>: the identity of the first hop, checked with the shared secret.\<close>

definition provider_observed :: "chain_provider \<Rightarrow> int \<Rightarrow> upstream \<Rightarrow> endpoint list provop" where
  "provider_observed p now u =
     bindS (liftS (upstream_endpoint u)) (\<lambda>ep.
     bindS (liftS (endpoint_cache_key ep)) (\<lambda>key.
     bindS (liftS (provider_url_for p ep)) (\<lambda>base_url.
     let unknown = (if cp_strict p then [] else [ep]) in
     if no_url base_url then retS unknown
     else case bind_res (provider_fetch_identity p (the base_url)) (\<lambda>payload.
            verify_agent_identity_payload payload (cp_signature_secret p) (Some ep) now (cp_max_clock_skew_seconds p)) of
         Inl _ \<Rightarrow> retS unknown
       | Inr identity \<Rightarrow>
           bindS (liftS (unique_endpoints (ep # ai_upstreams identity))) (\<lambda>observed.
           seqS (record_context p key ep [identity] observed) (retS observed)))))"

definition provider_verify_payload :: "chain_provider \<Rightarrow> ed25519 \<Rightarrow> int \<Rightarrow> jdict \<Rightarrow> verification_result \<Rightarrow> endpoint \<Rightarrow> agent_identity res" where
  "provider_verify_payload p lib now payload verification ep =
     (let public_key = jget0 (vr_evidence verification) ''agent_public_key'';
          algorithm = jget0 (vr_evidence verification) ''agent_key_algorithm'' in
      if truthy public_key \<and> algorithm = JStr ''ed25519''
      then (case public_key of
              JStr k \<Rightarrow> verify_agent_identity_payload_with_public_key lib payload k (Some ep) now (cp_max_clock_skew_seconds p)
            | _ \<Rightarrow> Raise (ValueError ''agent signature invalid''))
      else if cp_allow_hmac_fallback p \<and> cp_signature_secret p \<noteq> []
      then verify_agent_identity_payload payload (cp_signature_secret p) (Some ep) now (cp_max_clock_skew_seconds p)
      else Raise (RuntimeError ''verified resolver identity does not bind an Agent Ed25519 public key''))"

section \<open>Discovery through identities\<close>

text \<open>What \<open>_discover\<close> collects.  The lists are lost when it raises; the set \<open>visiting\<close> is restored when it returns, so it
  is an argument.  The k-th verification of a discovery runs in the surroundings \<open>envs k\<close>.\<close>

record discovery =
  ds_observed :: "endpoint list"
  ds_results :: "verification_result list"
  ds_identities :: "agent_identity list"

lemma bindS_cong_op [fundef_cong]:
  "m = m' \<Longrightarrow> (\<And>x. f x = f' x) \<Longrightarrow> bindS m f = bindS m' f'"
  by (simp add: ext[of f f'])

function discover :: "chain_provider \<Rightarrow> verifier_cfg \<Rightarrow> (nat \<Rightarrow> verify_env) \<Rightarrow> endpoint \<Rightarrow> int \<Rightarrow> string list \<Rightarrow> discovery \<Rightarrow> discovery cmop"
and discover_all :: "chain_provider \<Rightarrow> verifier_cfg \<Rightarrow> (nat \<Rightarrow> verify_env) \<Rightarrow> endpoint list \<Rightarrow> int \<Rightarrow> string list \<Rightarrow> discovery \<Rightarrow> discovery cmop" where
  "discover p cfg envs endpoint0 depth visiting ds =
     bindS (liftS (normalized endpoint0)) (\<lambda>ep.
     bindS (liftS (endpoint_cache_key ep)) (\<lambda>key.
     if key \<in> set visiting then raiseS (RuntimeError (''agent resolver chain loop detected at '' @ key))
     else if depth \<ge> cp_max_depth p then raiseS (RuntimeError ''agent resolver chain exceeded max_depth'')
     else let env = envs (length (ds_results ds)) in
       bindS (verify_endpoint cfg env ep) (\<lambda>result.
       let ds1 = ds\<lparr>ds_observed := ds_observed ds @ [ep], ds_results := ds_results ds @ [result]\<rparr> in
       if \<not> vr_accepted result then raiseS (RuntimeError (''resolver identity verification failed for '' @ key))
       else bindS (liftS (provider_url_for p ep)) (\<lambda>base_url.
         if no_url base_url
         then (if depth = 0 \<and> cp_strict p then raiseS (RuntimeError (''missing first-hop Agent URL for '' @ key)) else retS ds1)
         else bindS (liftS (provider_fetch_identity p (the base_url))) (\<lambda>payload.
           bindS (liftS (provider_verify_payload p (vc_lib cfg) (ve_now env) payload result ep)) (\<lambda>identity.
           if ai_resolver_id identity \<noteq> vr_resolver_id result
           then raiseS (RuntimeError ''agent resolver_id does not match verified resolver identity'')
           else discover_all p cfg envs (ai_upstreams identity) (depth + 1) (key # visiting)
                  (ds1\<lparr>ds_identities := ds_identities ds1 @ [identity]\<rparr>)))))))"
| "discover_all p cfg envs [] depth visiting ds = retS ds"
| "discover_all p cfg envs (u # us) depth visiting ds =
     bindS (discover p cfg envs u depth visiting ds) (\<lambda>ds1. discover_all p cfg envs us depth visiting ds1)"
  by pat_completeness auto

termination
  by (relation "measures [\<lambda>x. case x of Inl (p, cfg, envs, e, depth, v, ds) \<Rightarrow> nat (cp_max_depth p - depth)
        | Inr (p, cfg, envs, es, depth, v, ds) \<Rightarrow> nat (cp_max_depth p - depth),
      \<lambda>x. case x of Inl _ \<Rightarrow> 0 | Inr (p, cfg, envs, es, depth, v, ds) \<Rightarrow> Suc (length es)]") auto

declare discover.simps [simp del]

section \<open>Discovery through signed chains\<close>

text \<open>The signers a node knows for its downstream chains: for each accepted hop that binds an agent key, the key and the
  endpoint, the last hop winning.\<close>

fun hop_signers :: "ed25519 \<Rightarrow> int \<Rightarrow> int \<Rightarrow> json \<Rightarrow> json \<Rightarrow> endpoint \<Rightarrow> string list \<Rightarrow> hop list \<Rightarrow> (json, json \<times> endpoint) dict \<Rightarrow>
    (json, json \<times> endpoint) dict res" where
  "hop_signers lib now skew public_key resolver_id ep visiting [] signers = Ret signers"
| "hop_signers lib now skew public_key resolver_id ep visiting (h # hs) signers =
     bind_res (hop_to_dict True h) (\<lambda>d.
     bind_res (verify_hop_verification_result_payload lib d public_key resolver_id (Some ep) now skew) (\<lambda>_.
     bind_res (endpoint_cache_key (h_upstream_endpoint h)) (\<lambda>k.
     if k \<in> set visiting then Raise (RuntimeError (''verification chain loop detected at '' @ k))
     else if h_accepted h \<and> truthy (h_upstream_resolver_id h) \<and> truthy (jget0 (h_evidence h) ''agent_public_key'')
     then (if \<not> hashable (h_upstream_resolver_id h) then Raise (TypeError ''unhashable type'')
           else hop_signers lib now skew public_key resolver_id ep visiting hs
                  (dict_set signers (h_upstream_resolver_id h) (jget0 (h_evidence h) ''agent_public_key'', h_upstream_endpoint h)))
     else hop_signers lib now skew public_key resolver_id ep visiting hs signers)))"

definition lookup_signer :: "(json, json \<times> endpoint) dict \<Rightarrow> json \<Rightarrow> (json \<times> endpoint) option res" where
  "lookup_signer d k = (if hashable k then Ret (dict_get d k) else Raise (TypeError ''unhashable type''))"

text \<open>\<open>_validate_chain_node\<close>.  The dictionary \<open>known\<close> is shared by all nodes, so it is threaded through; the set \<open>visiting\<close>
  is restored on return.\<close>

lemma size_downstream_chains: "size_list size (ch_downstream_chains c) < size c"
  by (cases c) simp

function validate_chain_node :: "chain_provider \<Rightarrow> ed25519 \<Rightarrow> int \<Rightarrow> json \<Rightarrow> chain \<Rightarrow> (json, json \<times> endpoint) dict \<Rightarrow> string list \<Rightarrow>
    (json, json \<times> endpoint) dict res"
and validate_chain_nodes :: "chain_provider \<Rightarrow> ed25519 \<Rightarrow> int \<Rightarrow> json \<Rightarrow> (json, json \<times> endpoint) dict \<Rightarrow> chain list \<Rightarrow> (json, json \<times> endpoint) dict \<Rightarrow>
    string list \<Rightarrow> (json, json \<times> endpoint) dict res" where
  "validate_chain_node p lib now challenge c known visiting =
     bind_res (endpoint_cache_key (ch_endpoint c)) (\<lambda>key.
     if key \<in> set visiting then Raise (RuntimeError (''verification chain loop detected at '' @ key))
     else if int (length visiting) \<ge> cp_max_depth p then Raise (RuntimeError ''verification chain exceeded max_depth'')
     else bind_res (lookup_signer known (ch_resolver_id c)) (\<lambda>signer.
       case signer of
         None \<Rightarrow> Raise (RuntimeError (''missing Agent public key for chain signer '' @ py_str (ch_resolver_id c)))
       | Some (public_key, signer_endpoint) \<Rightarrow>
           bind_res (chain_to_dict True c) (\<lambda>d.
           bind_res (verify_verification_chain_payload lib d public_key (ch_resolver_id c) (Some signer_endpoint) now (cp_max_clock_skew_seconds p) challenge) (\<lambda>_.
           bind_res (hop_signers lib now (cp_max_clock_skew_seconds p) public_key (ch_resolver_id c) (ch_endpoint c) (key # visiting) (ch_hops c) []) (\<lambda>signers.
           validate_chain_nodes p lib now challenge signers (ch_downstream_chains c) known (key # visiting))))))"
| "validate_chain_nodes p lib now challenge signers [] known visiting = Ret known"
| "validate_chain_nodes p lib now challenge signers (c # cs) known visiting =
     bind_res (lookup_signer signers (ch_resolver_id c)) (\<lambda>signer.
     case signer of
       None \<Rightarrow> Raise (RuntimeError (''downstream chain lacks verified hop evidence for '' @ py_str (ch_resolver_id c)))
     | Some sg \<Rightarrow>
         bind_res (validate_chain_node p lib now challenge c (dict_set known (ch_resolver_id c) sg) visiting) (\<lambda>known1.
         validate_chain_nodes p lib now challenge signers cs known1 visiting))"
  by pat_completeness auto

termination
  by (relation "measure (\<lambda>x. case x of Inl (p, lib, now, challenge, c, known, visiting) \<Rightarrow> size c
      | Inr (p, lib, now, challenge, signers, cs, known, visiting) \<Rightarrow> size_list size cs)") (auto simp: size_downstream_chains)

declare validate_chain_node.simps [simp del]

definition validate_chain_signatures :: "chain_provider \<Rightarrow> ed25519 \<Rightarrow> int \<Rightarrow> json \<Rightarrow> chain \<Rightarrow> endpoint \<Rightarrow> verification_result \<Rightarrow> unit res" where
  "validate_chain_signatures p lib now challenge c expected_endpoint first_result =
     bind_res (matches (ch_endpoint c) expected_endpoint) (\<lambda>m.
     if \<not> m then Raise (RuntimeError ''verification chain endpoint does not match observed resolver'')
     else let rid = vr_resolver_id first_result; public_key = jget0 (vr_evidence first_result) ''agent_public_key'' in
       bind_res (if truthy rid \<and> truthy public_key
                 then (if hashable rid then Ret [(rid, (public_key, expected_endpoint))] else Raise (TypeError ''unhashable type''))
                 else Ret []) (\<lambda>known.
       bind_res (validate_chain_node p lib now challenge c known []) (\<lambda>_. Ret ())))"

definition observe_distributed_chain ::
  "chain_provider \<Rightarrow> verifier_cfg \<Rightarrow> verify_env \<Rightarrow> int \<Rightarrow> upstream \<Rightarrow> json \<Rightarrow> (endpoint list \<times> verification_result list) provop" where
  "observe_distributed_chain p cfg env now u challenge =
     bindS (liftS (upstream_endpoint u)) (\<lambda>first.
     bindS (liftS (endpoint_cache_key first)) (\<lambda>key.
     bindS (with_cache (verify_endpoint cfg env first)) (\<lambda>result.
     if \<not> vr_accepted result then raiseS (RuntimeError (''first-hop resolver identity verification failed for '' @ key))
     else bindS (liftS (provider_url_for p first)) (\<lambda>base_url.
     if no_url base_url then raiseS (RuntimeError (''missing first-hop Agent URL for '' @ key))
     else let public_key = jget0 (vr_evidence result) ''agent_public_key'' in
       if \<not> truthy public_key \<or> jget0 (vr_evidence result) ''agent_key_algorithm'' \<noteq> JStr ''ed25519''
       then raiseS (RuntimeError ''verified first-hop identity does not bind an Agent Ed25519 public key'')
       else bindS (liftS (fetch_chain_payload p (the base_url) challenge)) (\<lambda>(payload, bound_challenge).
       if cp_require_challenge p \<and> bound_challenge = JNull
       then raiseS (RuntimeError ''production Agent chain does not support request challenge binding'')
       else bindS (liftS (verify_verification_chain_payload (vc_lib cfg) payload public_key (vr_resolver_id result) (Some first) now
              (cp_max_clock_skew_seconds p) bound_challenge)) (\<lambda>c.
         bindS (liftS (validate_chain_signatures p (vc_lib cfg) now bound_challenge c first result)) (\<lambda>_.
         bindS (liftS (bind_res (flatten_chain_endpoints c) unique_endpoints)) (\<lambda>flat.
         let observed = (if flat = [] then [first] else flat) in
         bindS (liftS (flatten_chain_results c)) (\<lambda>rs.
         let results = (result # rs) @
               (if ch_final_result c then [] else [vr_reject ''verification_chain_failed'' (ch_resolver_id c) [(''errors'', JArr (ch_chain_errors c))]]) in
         seqS (record_context_from_chain p key first c observed) (retS (observed, results)))))))))))"

definition observed_resolvers_with_verifier ::
  "chain_provider \<Rightarrow> verifier_cfg \<Rightarrow> (nat \<Rightarrow> verify_env) \<Rightarrow> int \<Rightarrow> upstream \<Rightarrow> json \<Rightarrow> (endpoint list \<times> verification_result list) provop" where
  "observed_resolvers_with_verifier p cfg envs now u challenge =
     (if cp_distributed_verification p then observe_distributed_chain p cfg (envs 0) now u challenge
      else bindS (liftS (upstream_endpoint u)) (\<lambda>first.
        bindS (with_cache (discover p cfg envs first 0 [] \<lparr>ds_observed = [], ds_results = [], ds_identities = []\<rparr>)) (\<lambda>ds.
        bindS (liftS (unique_endpoints (ds_observed ds))) (\<lambda>observed.
        seqS (if ds_identities ds \<noteq> []
              then bindS (liftS (endpoint_cache_key first)) (\<lambda>key. record_context p key first (ds_identities ds) observed) else retS ())
        (retS (observed, ds_results ds))))))"

section \<open>Every node of an accepted chain is vouched for by its parent\<close>

definition hop_signed :: "ed25519 \<Rightarrow> int \<Rightarrow> int \<Rightarrow> json \<Rightarrow> chain \<Rightarrow> hop \<Rightarrow> bool" where
  "hop_signed lib now skew pk c h \<longleftrightarrow> (\<exists>d h'. hop_to_dict True h = Ret d \<and>
     verify_hop_verification_result_payload lib d pk (ch_resolver_id c) (Some (ch_endpoint c)) now skew = Ret h')"

text \<open>The node was checked with the key \<open>pk\<close> and so were its hops; each downstream chain is vouched for, under the key that an
  accepted hop of this node binds; endpoints do not repeat on the way down, and the way is shorter than \<open>max_depth\<close>.\<close>

inductive vouched :: "chain_provider \<Rightarrow> ed25519 \<Rightarrow> int \<Rightarrow> json \<Rightarrow> string list \<Rightarrow> json \<Rightarrow> endpoint \<Rightarrow> chain \<Rightarrow> bool"
  for p lib now challenge where
  vouched_node: "endpoint_cache_key (ch_endpoint c) = Ret key \<Longrightarrow> key \<notin> set path \<Longrightarrow> int (length path) < cp_max_depth p \<Longrightarrow>
    chain_to_dict True c = Ret d \<Longrightarrow>
    verify_verification_chain_payload lib d pk (ch_resolver_id c) (Some ep) now (cp_max_clock_skew_seconds p) challenge = Ret c' \<Longrightarrow>
    (\<forall>h\<in>set (ch_hops c). hop_signed lib now (cp_max_clock_skew_seconds p) pk c h) \<Longrightarrow>
    (\<forall>x\<in>set (ch_downstream_chains c). \<exists>h\<in>set (ch_hops c). h_accepted h \<and> h_upstream_resolver_id h = ch_resolver_id x \<and>
       vouched p lib now challenge (key # path) (jget0 (h_evidence h) ''agent_public_key'') (h_upstream_endpoint h) x) \<Longrightarrow>
    vouched p lib now challenge path pk ep c"

inductive_cases vouchedE: "vouched p lib now challenge path pk ep c"

primrec chain_depth :: "chain \<Rightarrow> nat" where
  "chain_depth (Chain a b cv ch hs ds ts errs fin ia ea iss kid sch sig) = Suc (fold max (map chain_depth ds) 0)"

lemma fold_max_le: "fold max xs a \<le> (b :: nat) \<longleftrightarrow> a \<le> b \<and> (\<forall>x\<in>set xs. x \<le> b)"
  by (induction xs arbitrary: a) auto

lemma chain_depth_unfold: "chain_depth c = Suc (fold max (map chain_depth (ch_downstream_chains c)) 0)"
  by (cases c) simp

lemma vouched_depth: "vouched p lib now challenge path pk ep c \<Longrightarrow> int (length path + chain_depth c) \<le> cp_max_depth p"
proof (induction rule: vouched.induct)
  case (vouched_node c key path d pk ep c')
  let ?m = "nat (cp_max_depth p) - Suc (length path)"
  have "\<forall>x\<in>set (ch_downstream_chains c). chain_depth x \<le> ?m" using vouched_node.IH by fastforce
  then have "fold max (map chain_depth (ch_downstream_chains c)) 0 \<le> ?m" by (simp add: fold_max_le)
  then show ?case using vouched_node.hyps(3) by (subst chain_depth_unfold) linarith
qed

lemma hop_signers_sound:
  "hop_signers lib now skew pk (ch_resolver_id c) (ch_endpoint c) visiting hs signers = Ret sg \<Longrightarrow>
   (\<forall>h\<in>set hs. hop_signed lib now skew pk c h) \<and>
   (\<forall>k pk' ep'. dict_get sg k = Some (pk', ep') \<longrightarrow> dict_get signers k = Some (pk', ep') \<or>
      (\<exists>h\<in>set hs. h_accepted h \<and> h_upstream_resolver_id h = k \<and> pk' = jget0 (h_evidence h) ''agent_public_key'' \<and> ep' = h_upstream_endpoint h))"
proof (induction hs arbitrary: signers)
  case (Cons h hs)
  obtain sg1 where r: "hop_signers lib now skew pk (ch_resolver_id c) (ch_endpoint c) visiting hs sg1 = Ret sg" "hop_signed lib now skew pk c h"
    and s: "sg1 = signers \<or> h_accepted h \<and> sg1 = dict_set signers (h_upstream_resolver_id h) (jget0 (h_evidence h) ''agent_public_key'', h_upstream_endpoint h)"
    using Cons.prems by (auto simp: hop_signed_def split: if_splits)
  let ?from = "\<lambda>hs k pk' ep'. \<exists>h\<in>set hs. h_accepted h \<and> h_upstream_resolver_id h = k \<and> pk' = jget0 (h_evidence h) ''agent_public_key'' \<and> ep' = h_upstream_endpoint h"
  show ?case
  proof (intro conjI allI impI)
    show "\<forall>x\<in>set (h # hs). hop_signed lib now skew pk c x" using Cons.IH[OF r(1)] r(2) by simp
    fix k pk' ep' assume "dict_get sg k = Some (pk', ep')"
    then have "dict_get sg1 k = Some (pk', ep') \<or> ?from hs k pk' ep'" using Cons.IH[OF r(1)] by blast
    then show "dict_get signers k = Some (pk', ep') \<or> ?from (h # hs) k pk' ep'" using s by (auto split: if_splits)
  qed
qed simp

lemma lookup_signer_Inr: "lookup_signer d k = Ret v \<Longrightarrow> v = dict_get d k"
  by (simp add: lookup_signer_def split: if_splits)

lemma validate_nodes_vouched:
  "validate_chain_node p lib now challenge c known visiting = Ret known' \<Longrightarrow>
     \<exists>pk ep. dict_get known (ch_resolver_id c) = Some (pk, ep) \<and> vouched p lib now challenge visiting pk ep c"
  "validate_chain_nodes p lib now challenge signers cs known visiting = Ret known' \<Longrightarrow>
     \<forall>c\<in>set cs. \<exists>pk ep. dict_get signers (ch_resolver_id c) = Some (pk, ep) \<and> vouched p lib now challenge visiting pk ep c"
proof (induction p lib now challenge c known visiting and p lib now challenge signers cs known visiting arbitrary: known' and known'
    rule: validate_chain_node_validate_chain_nodes.induct)
  case (1 p lib now challenge c known visiting)
  obtain key pk ep d c' sg where k: "endpoint_cache_key (ch_endpoint c) = Ret key" "key \<notin> set visiting" "int (length visiting) < cp_max_depth p"
    and s: "lookup_signer known (ch_resolver_id c) = Ret (Some (pk, ep))"
    and v: "chain_to_dict True c = Ret d"
      "verify_verification_chain_payload lib d pk (ch_resolver_id c) (Some ep) now (cp_max_clock_skew_seconds p) challenge = Ret c'"
    and h: "hop_signers lib now (cp_max_clock_skew_seconds p) pk (ch_resolver_id c) (ch_endpoint c) (key # visiting) (ch_hops c) [] = Ret sg"
    and r: "validate_chain_nodes p lib now challenge sg (ch_downstream_chains c) known (key # visiting) = Ret known'"
    using "1.prems" by (auto simp: validate_chain_node.simps[of p lib now challenge c] split: if_splits option.splits prod.splits)
  have "\<not> cp_max_depth p \<le> int (length visiting)" using k(3) by simp
  note ih = "1.IH"[OF k(1,2) this s refl refl v(1,2) h r]
  note sound = hop_signers_sound[OF h]
  show ?case
  proof (intro exI conjI)
    show "dict_get known (ch_resolver_id c) = Some (pk, ep)" using lookup_signer_Inr[OF s] by simp
    show "vouched p lib now challenge visiting pk ep c"
    proof (rule vouched_node[OF k v])
      show "\<forall>h\<in>set (ch_hops c). hop_signed lib now (cp_max_clock_skew_seconds p) pk c h" using sound by blast
      show "\<forall>x\<in>set (ch_downstream_chains c). \<exists>h\<in>set (ch_hops c). h_accepted h \<and> h_upstream_resolver_id h = ch_resolver_id x \<and>
         vouched p lib now challenge (key # visiting) (jget0 (h_evidence h) ''agent_public_key'') (h_upstream_endpoint h) x"
      proof
        fix x assume "x \<in> set (ch_downstream_chains c)"
        then obtain pk' ep' where x: "dict_get sg (ch_resolver_id x) = Some (pk', ep')" "vouched p lib now challenge (key # visiting) pk' ep' x"
          using ih by blast
        then show "\<exists>h\<in>set (ch_hops c). h_accepted h \<and> h_upstream_resolver_id h = ch_resolver_id x \<and>
         vouched p lib now challenge (key # visiting) (jget0 (h_evidence h) ''agent_public_key'') (h_upstream_endpoint h) x"
          using sound x by (metis dict_get_Nil option.distinct(1))
      qed
    qed
  qed
next
  case (3 p lib now challenge signers c cs known visiting)
  obtain sg known1 where s: "lookup_signer signers (ch_resolver_id c) = Ret (Some sg)"
    and v: "validate_chain_node p lib now challenge c (dict_set known (ch_resolver_id c) sg) visiting = Ret known1"
    and r: "validate_chain_nodes p lib now challenge signers cs known1 visiting = Ret known'"
    using "3.prems" by (auto split: option.splits)
  note ih1 = "3.IH"(1)[OF s refl v] and ih2 = "3.IH"(2)[OF s refl v r]
  show ?case using ih1 ih2 lookup_signer_Inr[OF s] by auto
qed simp

lemma chain_signatures_vouched:
  assumes "validate_chain_signatures p lib now challenge c first first_result = Ret ()"
  shows "vouched p lib now challenge [] (jget0 (vr_evidence first_result) ''agent_public_key'') first c \<and>
    ch_resolver_id c = vr_resolver_id first_result \<and> matches (ch_endpoint c) first = Ret True \<and> int (chain_depth c) \<le> cp_max_depth p"
proof -
  let ?rid = "vr_resolver_id first_result" and ?pk = "jget0 (vr_evidence first_result) ''agent_public_key''"
  obtain known known' where m: "matches (ch_endpoint c) first = Ret True" and k: "known = [(?rid, (?pk, first))] \<or> known = []"
    and v: "validate_chain_node p lib now challenge c known [] = Ret known'"
    using assms by (auto simp: validate_chain_signatures_def Let_def split: if_splits)
  obtain pk ep where g: "dict_get known (ch_resolver_id c) = Some (pk, ep)" "vouched p lib now challenge [] pk ep c"
    using validate_nodes_vouched(1)[OF v] by blast
  then have "ch_resolver_id c = ?rid" "pk = ?pk" "ep = first" using k by (auto split: if_splits)
  then show ?thesis using g m vouched_depth[OF g(2)] by auto
qed

text \<open>C4. The chain of trust has no gap.  When \<open>_validate_chain_signatures\<close> accepts a chain, the root was checked with the key
  that the verified identity of the first hop binds, every node below was checked with the key that an
  accepted hop of its parent binds, every hop was checked with the key of the node that reports it, no endpoint
  occurs twice on a path, and the tree is at most \<open>max_depth\<close> nodes deep.\<close>

theorem signed_chain_vouched:
  assumes "validate_chain_signatures p lib now challenge c first first_result = Ret ()"
  shows "vouched p lib now challenge [] (jget0 (vr_evidence first_result) ''agent_public_key'') first c \<and>
    ch_resolver_id c = vr_resolver_id first_result \<and> matches (ch_endpoint c) first = Ret True \<and> int (chain_depth c) \<le> cp_max_depth p"
  by (rule chain_signatures_vouched[OF assms])

definition demo_provider :: chain_provider where
  "demo_provider = \<lparr>cp_agent_base_urls = [(''192.0.2.53'', ''http://agent'')], cp_signature_secret = ''secret'', cp_strict = True,
     cp_max_clock_skew_seconds = 5, cp_max_depth = 4, cp_allow_hmac_fallback = False, cp_distributed_verification = True,
     cp_require_challenge = False, cp_has_state_repository = True, cp_get = (\<lambda>_. Raise (RuntimeError ''connection refused'')),
     cp_post = (\<lambda>_ _. Raise (RuntimeError ''connection refused''))\<rparr>"

definition demo_public :: json where "demo_public = JStr (b64encode (ed_public demo_ed25519 demo_sk))"

text \<open>The leaf chain of the example, signed: it is accepted as the chain of its resolver, in the chain's time window.\<close>

lemma demo_signed_chain:
  "\<exists>d s c'. let c = with_chain_signature demo_chain (JStr s) in chain_to_dict True c = Ret d \<and>
     verify_verification_chain_payload demo_ed25519 d demo_public (JStr ''resolver-1'') (Some demo_endpoint) 110 5 (JStr ''c1'') = Ret c"
proof -
  obtain d where d: "chain_to_dict False demo_chain = Ret d" using chain_to_dict_unsigned[OF demo_chain_facts(1)] by blast
  let ?s = "sign_object_ed25519_key demo_ed25519 d demo_sk"
  let ?p = "dict_set d ''signature'' (JStr ?s)" and ?c = "with_chain_signature demo_chain (JStr ?s)"
  have "all_nodes node_stable ?c" using demo_chain_facts(1) by (simp add: all_nodes_unfold[of _ ?c] all_nodes_unfold[of _ demo_chain])
  then have fd: "chain_from_dict ?p = Ret ?c" using chain_dict_roundtrip[of ?c] chain_signed_dict[OF d, of ?s] by simp
  have m: "matches demo_endpoint demo_endpoint = Ret True" by (rule matches_self[OF demo_endpoint_stable]) (simp add: demo_endpoint_def)
  have "verify_verification_chain_payload demo_ed25519 ?p demo_public (JStr ''resolver-1'') (Some demo_endpoint) 110 5 (JStr ''c1'') = Ret ?c"
    using fd chain_signed_dict[OF d, of ?s] demo_chain_facts(2,3) signed_dict_verifies[OF demo_ed25519_correct demo_sk_ok, of d] m
    by (simp add: verify_verification_chain_payload_def expect_match_def validate_verification_chain_semantics_def validate_signed_window_def demo_public_def)
      (simp add: demo_chain_def m)
  then show ?thesis using chain_signed_dict[OF d, of ?s] by (auto simp: Let_def)
qed

lemma demo_endpoint_cache_key: "endpoint_cache_key demo_endpoint = Ret ''192.0.2.53:53:udp''"
proof -
  have "normalized demo_endpoint = Ret demo_endpoint" using demo_endpoint_stable by (simp add: endpoint_stable_def)
  then show ?thesis by (simp add: endpoint_cache_key_def) (simp add: demo_endpoint_def, code_simp)
qed

lemma b64encode_nonempty: "bs \<noteq> [] \<Longrightarrow> b64encode bs \<noteq> []"
  by (cases bs rule: b64encode.cases) auto

theorem signed_chain_vouched_witness:
  "\<exists>c. validate_chain_signatures demo_provider demo_ed25519 110 (JStr ''c1'') c demo_endpoint
         (vr_accept (JStr ''resolver-1'') ''VERIFIED'' [(''agent_public_key'', demo_public)]) = Ret () \<and>
     vouched demo_provider demo_ed25519 110 (JStr ''c1'') [] demo_public demo_endpoint c"
proof -
  obtain d s where v: "chain_to_dict True (with_chain_signature demo_chain (JStr s)) = Ret d"
     "verify_verification_chain_payload demo_ed25519 d demo_public (JStr ''resolver-1'') (Some demo_endpoint) 110 5 (JStr ''c1'') =
       Ret (with_chain_signature demo_chain (JStr s))"
    using demo_signed_chain by (auto simp: Let_def)
  let ?c = "with_chain_signature demo_chain (JStr s)" and ?r = "vr_accept (JStr ''resolver-1'') ''VERIFIED'' [(''agent_public_key'', demo_public)]"
  have m: "matches demo_endpoint demo_endpoint = Ret True" by (rule matches_self[OF demo_endpoint_stable]) (simp add: demo_endpoint_def)
  have f: "ch_endpoint ?c = demo_endpoint" "ch_resolver_id ?c = JStr ''resolver-1''" "ch_hops ?c = []" "ch_downstream_chains ?c = []"
    and g: "ch_endpoint demo_chain = demo_endpoint" "ch_resolver_id demo_chain = JStr ''resolver-1''" "ch_downstream_chains demo_chain = []"
    by (simp_all add: demo_chain_def)
  have t: "truthy demo_public" by (simp add: demo_public_def demo_ed25519_def demo_sk_def b64encode_nonempty)
  have "validate_chain_node demo_provider demo_ed25519 110 (JStr ''c1'') ?c [(JStr ''resolver-1'', demo_public, demo_endpoint)] [] =
      Ret [(JStr ''resolver-1'', demo_public, demo_endpoint)]"
    using v by (simp add: validate_chain_node.simps f g demo_endpoint_cache_key lookup_signer_def demo_provider_def)
  then have "validate_chain_signatures demo_provider demo_ed25519 110 (JStr ''c1'') ?c demo_endpoint ?r = Ret ()"
    using m t by (simp add: validate_chain_signatures_def f g)
  then show ?thesis using signed_chain_vouched[of demo_provider demo_ed25519 110 "JStr ''c1''" ?c demo_endpoint ?r] by auto
qed

section \<open>Configuration versions do not go back\<close>

datatype provider_step = Observed string chain_context | Restarted

text \<open>A history of the provider: contexts arrive one after another, refused ones leave no trace, and the process may be restarted,
  which loses the contexts in memory.  The result lists the versions accepted for the given key.\<close>

fun accepted_versions :: "chain_provider \<Rightarrow> string \<Rightarrow> provider_step list \<Rightarrow> provider_state \<Rightarrow> string list" where
  "accepted_versions p key [] s = []"
| "accepted_versions p key (Restarted # steps) s = accepted_versions p key steps (s\<lparr>ps_contexts := []\<rparr>)"
| "accepted_versions p key (Observed k cx # steps) s =
     (case update_context p k cx s of
        (Inl _, s') \<Rightarrow> accepted_versions p key steps s'
      | (Inr _, s') \<Rightarrow> (if k = key then [cx_config_version cx] else []) @ accepted_versions p key steps s')"

definition last_version :: "string \<Rightarrow> provider_state \<Rightarrow> string option" where
  "last_version key s = dict_get (t_runtime (cm_db (ps_cache s))) (high_water_key key)"

definition contexts_current :: "string \<Rightarrow> provider_state \<Rightarrow> bool" where
  "contexts_current key s \<longleftrightarrow> (\<forall>c. dict_get (ps_contexts s) key = Some c \<longrightarrow> last_version key s = Some (cx_config_version c))"

definition version_number :: "string \<Rightarrow> string \<Rightarrow> int option" where
  "version_number rid v = (case dict_get (parse_chain_versions v) rid of None \<Rightarrow> None
     | Some x \<Rightarrow> (case py_int_of_str x of Inl _ \<Rightarrow> None | Inr n \<Rightarrow> Some n))"

lemma no_rollback_number:
  assumes "\<not> is_config_rollback v w" and "version_number rid v = Some m" and "version_number rid w = Some n"
  shows "m \<le> n"
proof -
  obtain x y where xy: "dict_get (parse_chain_versions v) rid = Some x" "dict_get (parse_chain_versions w) rid = Some y"
    "py_int_of_str x = Ret m" "py_int_of_str y = Ret n"
    using assms(2,3) by (auto simp: version_number_def split: option.splits sum.splits)
  have "(rid, x) \<in> set (parse_chain_versions v)" using xy(1) by (simp add: dict_get_def map_of_SomeD)
  then have "\<not> version_less y x" using assms(1) xy(2) by (auto simp: is_config_rollback_def Let_def list_ex_iff)
  then show ?thesis using xy(3,4) by (simp add: version_less_def)
qed

lemma version_number_nonempty: "version_number rid v = Some m \<Longrightarrow> v \<noteq> []"
  by (auto simp: version_number_def parse_chain_versions_def)

lemma update_context_cases:
  assumes "update_context p k cx s = (r, s')" and "cp_has_state_repository p" and "contexts_current k s"
  shows "(\<exists>e. r = Inl e \<and> s' = s) \<or>
    r = Ret () \<and> last_version k s' = Some (cx_config_version cx) \<and> dict_get (ps_contexts s') k = Some cx \<and>
    (\<forall>k'. k' \<noteq> k \<longrightarrow> last_version k' s' = last_version k' s \<and> dict_get (ps_contexts s') k' = dict_get (ps_contexts s) k') \<and>
    (\<forall>v. last_version k s = Some v \<longrightarrow> v \<noteq> [] \<longrightarrow> \<not> is_config_rollback v (cx_config_version cx))"
  using assms
  by (auto simp: update_context_def read_high_water_def with_cache_def on_db_def zoomS_def runtime_get_def runtime_set_def bindS_def seqS_def
      contexts_current_def last_version_def high_water_key_def Let_def split: if_splits option.splits)

lemma update_keeps_current:
  assumes "update_context p k cx s = (r, s')" and "cp_has_state_repository p" and "\<And>k. contexts_current k s"
  shows "contexts_current k' s'"
proof -
  have c: "contexts_current k' s" "contexts_current k s" using assms(3) by blast+
  from update_context_cases[OF assms(1,2) c(2)] show ?thesis
  proof (elim disjE conjE exE)
    assume "s' = s" then show ?thesis using c(1) by simp
  next
    assume "last_version k s' = Some (cx_config_version cx)" "dict_get (ps_contexts s') k = Some cx"
      "\<forall>k'. k' \<noteq> k \<longrightarrow> last_version k' s' = last_version k' s \<and> dict_get (ps_contexts s') k' = dict_get (ps_contexts s) k'"
    then show ?thesis using c(1) by (cases "k' = k") (auto simp: contexts_current_def)
  qed
qed

lemma accepted_versions_chain:
  assumes "cp_has_state_repository p"
  shows "(\<And>k. contexts_current k s) \<Longrightarrow>
    successively (\<lambda>v w. v \<noteq> [] \<longrightarrow> \<not> is_config_rollback v w) ((case last_version key s of None \<Rightarrow> [] | Some v \<Rightarrow> [v]) @ accepted_versions p key steps s)"
proof (induction steps arbitrary: s)
  case Nil
  then show ?case by (simp split: option.splits)
next
  case (Cons st steps)
  show ?case
  proof (cases st)
    case Restarted
    have "contexts_current k (s\<lparr>ps_contexts := []\<rparr>)" for k by (simp add: contexts_current_def)
    from Cons.IH[OF this] show ?thesis using Restarted by (simp add: last_version_def)
  next
    case (Observed k cx)
    obtain r s' where u: "update_context p k cx s = (r, s')" by fastforce
    note ih = Cons.IH[OF update_keeps_current[OF u assms Cons.prems]]
    from update_context_cases[OF u assms Cons.prems] show ?thesis
    proof (elim disjE conjE exE)
      fix e assume "r = Inl e" "s' = s"
      then show ?thesis using ih Observed u by simp
    next
      assume a: "r = Ret ()" "last_version k s' = Some (cx_config_version cx)"
        "\<forall>k'. k' \<noteq> k \<longrightarrow> last_version k' s' = last_version k' s \<and> dict_get (ps_contexts s') k' = dict_get (ps_contexts s) k'"
        "\<forall>v. last_version k s = Some v \<longrightarrow> v \<noteq> [] \<longrightarrow> \<not> is_config_rollback v (cx_config_version cx)"
      show ?thesis
      proof (cases "k = key")
        case True
        then show ?thesis using ih Observed u a by (cases "last_version key s") (simp_all add: successively_Cons)
      next
        case False
        then show ?thesis using ih Observed u a by simp
      qed
    qed
  qed
qed

lemma rollback_resolver:
  assumes "\<not> is_config_rollback v w" and "dict_get (parse_chain_versions v) rid = Some a" and "dict_get (parse_chain_versions w) rid = Some b"
  shows "\<not> version_less b a"
proof -
  have "(rid, a) \<in> set (parse_chain_versions v)" using assms(2) by (simp add: dict_get_def map_of_SomeD)
  then show ?thesis using assms(1,3) by (auto simp: is_config_rollback_def Let_def list_ex_iff)
qed

text \<open>The stored version, when there is one, and the versions accepted from there on.\<close>

definition version_history :: "chain_provider \<Rightarrow> string \<Rightarrow> provider_step list \<Rightarrow> provider_state \<Rightarrow> string list" where
  "version_history p key steps s = (case last_version key s of None \<Rightarrow> [] | Some v \<Rightarrow> [v]) @ accepted_versions p key steps s"

text \<open>C5. No accepted configuration is a step back from the one accepted before it.  Take a provider with a state repository and any
  history of observed chains, for any number of upstreams, with restarts of the process in between, from a state in which the
  process has just started.  Then for two neighbours in the sequence of the stored version and the versions accepted for one
  upstream, and a resolver that occurs in both, the later version of the resolver is not less than the earlier one, as numbers or,
  when one is not a number, as text.  Hence the versions of a resolver that occurs with a number in every member of the sequence never
  decrease.  A resolver that is left out of one accepted version is not compared across the gap
  (\<open>rollback_through_omission\<close>), so the theorem says nothing about it there.\<close>

theorem config_versions_monotone:
  assumes "cp_has_state_repository p" and "ps_contexts s = []"
  shows "successively (\<lambda>v w. \<forall>rid a b. dict_get (parse_chain_versions v) rid = Some a \<longrightarrow> dict_get (parse_chain_versions w) rid = Some b \<longrightarrow>
       \<not> version_less b a) (version_history p key steps s) \<and>
     (\<forall>rid. (\<forall>v\<in>set (version_history p key steps s). version_number rid v \<noteq> None) \<longrightarrow>
       sorted (map (\<lambda>v. the (version_number rid v)) (version_history p key steps s)))"
proof (intro conjI allI impI)
  let ?vs = "version_history p key steps s"
  have chain: "successively (\<lambda>v w. v \<noteq> [] \<longrightarrow> \<not> is_config_rollback v w) ?vs"
    using accepted_versions_chain[OF assms(1), of s key steps] assms(2) by (simp add: contexts_current_def version_history_def)
  have empty: "dict_get (parse_chain_versions []) rid = None" for rid by (simp add: parse_chain_versions_def)
  show "successively (\<lambda>v w. \<forall>rid a b. dict_get (parse_chain_versions v) rid = Some a \<longrightarrow> dict_get (parse_chain_versions w) rid = Some b \<longrightarrow>
      \<not> version_less b a) ?vs"
    by (rule successively_mono[OF chain]) (metis empty option.distinct(1) rollback_resolver)
  fix rid
  assume n: "\<forall>v\<in>set ?vs. version_number rid v \<noteq> None"
  have "the (version_number rid v) \<le> the (version_number rid w)"
    if h: "v \<in> set ?vs" "w \<in> set ?vs" "v \<noteq> [] \<longrightarrow> \<not> is_config_rollback v w" for v w
  proof -
    obtain a b where "version_number rid v = Some a" "version_number rid w = Some b" using n h(1,2) by blast
    then show ?thesis using h(3) no_rollback_number version_number_nonempty by (metis option.sel)
  qed
  with chain have "successively (\<lambda>v w. the (version_number rid v) \<le> the (version_number rid w)) ?vs"
    by (rule successively_mono)
  then have "successively (\<le>) (map (\<lambda>v. the (version_number rid v)) ?vs)" unfolding successively_map .
  then show "sorted (map (\<lambda>v. the (version_number rid v)) ?vs)" by (simp add: successively_conv_sorted_wrt)
qed

definition demo_context :: "string \<Rightarrow> chain_context" where
  "demo_context v = \<lparr>cx_first_hop = demo_endpoint, cx_agent_identity = identity_of_chain demo_chain, cx_observed_resolvers = [demo_endpoint],
     cx_config_version = v, cx_agent_identities = [], cx_verification_chain = None\<rparr>"

definition demo_history_start :: provider_state where
  "demo_history_start = \<lparr>ps_cache = demo_cache\<lparr>cm_db := (empty_db 0)\<lparr>t_runtime := [(''agent_config_high_water:k'', ''a:5'')]\<rparr>\<rparr>, ps_contexts = [], ps_invalidated = []\<rparr>"

lemma demo_rollbacks:
  "\<not> is_config_rollback ''a:5'' ''a:6''" "is_config_rollback ''a:6'' ''a:4''" "\<not> is_config_rollback ''a:6'' ''a:7''"
  "version_number ''a'' ''a:5'' = Some 5" "version_number ''a'' ''a:6'' = Some 6" "version_number ''a'' ''a:7'' = Some 7"
  by code_simp+

lemma demo_history:
  "accepted_versions demo_provider ''k'' [Observed ''k'' (demo_context ''a:6''), Observed ''k'' (demo_context ''a:4''), Restarted,
     Observed ''k'' (demo_context ''a:4''), Observed ''k'' (demo_context ''a:7'')] demo_history_start = [''a:6'', ''a:7'']"
  by (simp add: demo_history_start_def demo_provider_def update_context_def read_high_water_def with_cache_def on_db_def zoomS_def runtime_get_def
      runtime_set_def bindS_def seqS_def high_water_key_def demo_context_def demo_rollbacks)

theorem config_versions_monotone_witness:
  "let steps = [Observed ''k'' (demo_context ''a:6''), Observed ''k'' (demo_context ''a:4''), Restarted,
      Observed ''k'' (demo_context ''a:4''), Observed ''k'' (demo_context ''a:7'')];
     vs = version_history demo_provider ''k'' steps demo_history_start
   in vs = [''a:5'', ''a:6'', ''a:7''] \<and> sorted (map (\<lambda>v. the (version_number ''a'' v)) vs)"
proof -
  let ?steps = "[Observed ''k'' (demo_context ''a:6''), Observed ''k'' (demo_context ''a:4''), Restarted,
      Observed ''k'' (demo_context ''a:4''), Observed ''k'' (demo_context ''a:7'')]"
  have vs: "version_history demo_provider ''k'' ?steps demo_history_start = [''a:5'', ''a:6'', ''a:7'']"
    unfolding version_history_def demo_history by (simp add: demo_history_start_def last_version_def high_water_key_def)
  have "cp_has_state_repository demo_provider" "ps_contexts demo_history_start = []" by (simp_all add: demo_provider_def demo_history_start_def)
  from config_versions_monotone[OF this, of "''k''" ?steps]
  have "sorted (map (\<lambda>v. the (version_number ''a'' v)) (version_history demo_provider ''k'' ?steps demo_history_start))"
    unfolding vs by (simp add: demo_rollbacks)
  then show ?thesis using vs unfolding Let_def by blast
qed

text \<open>The protection is lost for a resolver that is left out once: three contexts in a row pass, although the third one
  takes the resolver \<open>b\<close> back from version 3 to version 1.\<close>

lemma rollback_through_omission:
  "\<not> is_config_rollback ''a:5>b:3'' ''a:6'' \<and> \<not> is_config_rollback ''a:6'' ''a:6>b:1'' \<and> is_config_rollback ''a:5>b:3'' ''a:6>b:1''"
  by code_simp

end
