(* ===== verification/Coordinator.thy ===== *)
theory Coordinator
  imports ResolverChain
begin

text \<open>
  \<open>wrapper/query_coordinator.py\<close>: one DNS query against a list of upstreams.  For each upstream the resolvers of
  its path are observed and the query is forwarded; the answer is released only if the identities of the
  path verify and are still current.  The two run concurrently in the program and meet before the
  decision; here the observation comes first.  What the program takes from outside is an argument: the answers
  of the upstreams, the request id, the challenge, the measured latency, and for each path the surroundings of its
  verifications and whether the observation missed its deadline (the observing thread still runs on, so its effects
  stay).
\<close>

section \<open>Configuration, surroundings and state\<close>

datatype provider = FirstHop | Static static_provider | Agent chain_provider

record coordinator =
  qc_cfg :: verifier_cfg
  qc_provider :: provider
  qc_audit :: bool
  qc_strict_observation :: bool

record path_env =
  pe_observe :: "nat \<Rightarrow> verify_env"
  pe_now :: int
  pe_timed_out :: bool
  pe_reverify :: verify_env
  pe_verify :: "nat \<Rightarrow> verify_env"

text \<open>\<open>co_refreshing\<close> collects the endpoints for which a refresh was started in the background.\<close>

record coord_state =
  co_provider :: provider_state
  co_journal :: journal
  co_metrics :: metrics
  co_refreshing :: "endpoint list"

type_synonym 'a coop = "(coord_state, 'a) op"

definition in_provider :: "'a provop \<Rightarrow> 'a coop" where
  "in_provider = zoomS co_provider (\<lambda>p s. s\<lparr>co_provider := p\<rparr>)"

definition in_verifier :: "'a cmop \<Rightarrow> 'a coop" where
  "in_verifier m = in_provider (with_cache m)"

definition log_event :: "string \<Rightarrow> jdict \<Rightarrow> unit coop" where
  "log_event request_id event = zoomS co_journal (\<lambda>j s. s\<lparr>co_journal := j\<rparr>) (journal_add request_id event)"

section \<open>Observation and verification\<close>

definition observe_resolvers :: "coordinator \<Rightarrow> path_env \<Rightarrow> upstream \<Rightarrow> json \<Rightarrow> (endpoint list \<times> verification_result list option) coop" where
  "observe_resolvers q pe u challenge =
     (case qc_provider q of
        FirstHop \<Rightarrow> bindS (liftS (first_hop_observed u)) (\<lambda>observed. retS (observed, None))
      | Static p \<Rightarrow> bindS (liftS (static_observed p u)) (\<lambda>observed. retS (observed, None))
      | Agent p \<Rightarrow> bindS (in_provider (observed_resolvers_with_verifier p (qc_cfg q) (pe_observe pe) (pe_now pe) u challenge)) (\<lambda>(observed, results).
          retS (observed, Some results)))"

text \<open>The outcome of the observing task: a value, its exception, or the exception of the missed deadline.\<close>

definition observation_outcome :: "coordinator \<Rightarrow> path_env \<Rightarrow> upstream \<Rightarrow> json \<Rightarrow> ((endpoint list \<times> verification_result list option) res) coop" where
  "observation_outcome q pe u challenge s =
     (case observe_resolvers q pe u challenge s of
        (r, s') \<Rightarrow> (Ret (if pe_timed_out pe then Raise (RuntimeError []) else r), s'))"

definition verify_all :: "coordinator \<Rightarrow> (nat \<Rightarrow> verify_env) \<Rightarrow> endpoint list \<Rightarrow> verification_result list coop" where
  "verify_all q envs observed =
     bindS (in_verifier (verify_list (qc_cfg q) envs 0 observed)) (\<lambda>results.
     seqS (modS (\<lambda>s. s\<lparr>co_refreshing := co_refreshing s @
        map fst (filter (\<lambda>(_, r). vr_accepted r \<and> vr_status r = ''REFRESHING'') (zip observed results))\<rparr>))
     (retS results))"

definition consume_chain_invalidations :: "coordinator \<Rightarrow> endpoint list coop" where
  "consume_chain_invalidations q = (case qc_provider q of Agent _ \<Rightarrow> in_provider consume_invalidated_endpoints | _ \<Rightarrow> retS [])"

definition distributed :: "coordinator \<Rightarrow> bool" where
  "distributed q = (case qc_provider q of Agent p \<Rightarrow> cp_distributed_verification p | _ \<Rightarrow> False)"

definition reverify :: "coordinator \<Rightarrow> path_env \<Rightarrow> upstream \<Rightarrow> endpoint list \<Rightarrow> verification_result list \<Rightarrow> verification_result list coop" where
  "reverify q pe u observed preverified =
     (if distributed q
      then bindS (liftS (upstream_endpoint u)) (\<lambda>e. bindS (in_verifier (verify_endpoint (qc_cfg q) (pe_reverify pe) e)) (\<lambda>first.
        retS (first # tl preverified)))
      else verify_all q (pe_verify pe) observed)"

definition agent_identity_mismatch :: "coordinator \<Rightarrow> upstream \<Rightarrow> verification_result list \<Rightarrow> bool coop" where
  "agent_identity_mismatch q u results =
     (case qc_provider q of
        Agent _ \<Rightarrow> bindS (in_provider (get_context u)) (\<lambda>context.
          retS (case (context, results) of
              (Some cx, r # _) \<Rightarrow> vr_accepted r \<and> vr_resolver_id r \<noteq> ai_resolver_id (cx_agent_identity cx)
            | _ \<Rightarrow> False))
      | _ \<Rightarrow> retS False)"

fun all_current :: "verification_result list \<Rightarrow> bool cmop" where
  "all_current [] = retS True"
| "all_current (r # rs) = bindS (result_is_current r) (\<lambda>ok. if ok then all_current rs else retS False)"

fun first_failure :: "verification_result list \<Rightarrow> string option" where
  "first_failure [] = None"
| "first_failure (r # rs) =
     (if \<not> vr_accepted r then Some (case vr_reasons r of m # _ \<Rightarrow> m | [] \<Rightarrow> ''identity_verification_failed'') else first_failure rs)"

section \<open>The record of a decision\<close>

text \<open>A name for the log; a code point outside the range of the model's characters keeps its low byte.\<close>

definition qname_text :: "nat list \<Rightarrow> string" where
  "qname_text cps = map char_of cps"

definition endpoints_json :: "endpoint list \<Rightarrow> json" where
  "endpoints_json es = JArr (map (\<lambda>e. JObj (endpoint_to_dict e)) es)"

definition results_json :: "verification_result list \<Rightarrow> json" where
  "results_json rs = JArr (map (\<lambda>r. JObj (vr_to_dict r)) rs)"

definition truthy_evidence :: "string \<Rightarrow> verification_result list \<Rightarrow> json" where
  "truthy_evidence k rs = JArr (filter truthy (map (\<lambda>r. jget0 (vr_evidence r) k) rs))"

definition audit_payload ::
  "string \<Rightarrow> string \<Rightarrow> string \<Rightarrow> endpoint list \<Rightarrow> verification_result list \<Rightarrow> string \<Rightarrow> json \<Rightarrow> json \<Rightarrow> jdict" where
  "audit_payload request_id qname qtype observed results decision why latency =
     [(''request_id'', JStr request_id), (''qname'', JStr qname), (''qtype'', JStr qtype), (''resolvers'', endpoints_json observed),
      (''cache'', JArr (map (\<lambda>r. jget (vr_evidence r) ''cache'' (JStr ''miss'')) results)), (''verification_results'', results_json results),
      (''object_hashes'', truthy_evidence ''object_hash'' results), (''state_roots'', truthy_evidence ''state_root'' results),
      (''decision'', JStr decision), (''failure_reason'', why), (''total_latency_ms'', latency)]"

definition audit_decision ::
  "coordinator \<Rightarrow> string \<Rightarrow> string \<Rightarrow> string \<Rightarrow> endpoint list \<Rightarrow> verification_result list \<Rightarrow> string \<Rightarrow> json \<Rightarrow> json \<Rightarrow> unit coop" where
  "audit_decision q request_id qname qtype observed results decision why latency =
     (let payload = audit_payload request_id qname qtype observed results decision why latency in
      seqS (log_event request_id ((''event'', JStr ''final_decision'') # payload))
      (seqS (if qc_audit q then in_verifier (on_db (audit_record ''QueryDecision'' payload)) else retS ())
      (modS (\<lambda>s. s\<lparr>co_metrics := record_decision decision results (co_metrics s)\<rparr>))))"

section \<open>One path\<close>

datatype path_verdict =
    Release bytes "endpoint list" "verification_result list"
  | Refuse string "(endpoint list \<times> verification_result list) option"

definition log_refusal :: "string \<Rightarrow> upstream \<Rightarrow> string \<Rightarrow> jdict \<Rightarrow> string \<Rightarrow> (endpoint list \<times> verification_result list) option \<Rightarrow> path_verdict coop" where
  "log_refusal request_id u event details reason seen =
     bindS (liftS (upstream_endpoint u)) (\<lambda>e.
     seqS (log_event request_id ([(''event'', JStr event), (''upstream'', JObj (endpoint_to_dict e))] @ details)) (retS (Refuse reason seen)))"

definition gate_event :: "string \<Rightarrow> string \<Rightarrow> endpoint \<Rightarrow> endpoint list \<Rightarrow> verification_result list \<Rightarrow> jdict" where
  "gate_event qname qtype e observed verifications =
     [(''event'', JStr ''identity_gate''), (''qname'', JStr qname), (''qtype'', JStr qtype), (''upstream'', JObj (endpoint_to_dict e)),
      (''observed_resolvers'', endpoints_json observed), (''results'', results_json verifications)]"

text \<open>The decision on verified results.\<close>

definition decide_path :: "coordinator \<Rightarrow> string \<Rightarrow> upstream \<Rightarrow> string \<Rightarrow> string \<Rightarrow> bytes \<Rightarrow> endpoint list \<Rightarrow> verification_result list \<Rightarrow> path_verdict coop" where
  "decide_path q request_id u qname qtype response observed verifications =
     bindS (liftS (upstream_endpoint u)) (\<lambda>e.
     seqS (log_event request_id (gate_event qname qtype e observed verifications))
     (bindS (agent_identity_mismatch q u verifications) (\<lambda>mismatch.
      if mismatch then log_refusal request_id u ''agent_identity_mismatch'' [] ''agent_resolver_id_mismatch'' (Some (observed, verifications))
      else if list_all vr_accepted verifications
      then bindS (in_verifier (all_current verifications)) (\<lambda>current.
        retS (if current then Release response observed verifications
              else Refuse ''verification_invalidated_before_release'' (Some (observed, verifications))))
      else retS (Refuse (case first_failure verifications of Some (m # ms) \<Rightarrow> m # ms | _ \<Rightarrow> ''identity_verification_failed'')
             (Some (observed, verifications))))))"

definition coordinate_path ::
  "coordinator \<Rightarrow> path_env \<Rightarrow> string \<Rightarrow> json \<Rightarrow> string \<Rightarrow> string \<Rightarrow> bytes \<Rightarrow> forwarder \<Rightarrow> upstream \<Rightarrow> path_verdict coop" where
  "coordinate_path q pe request_id challenge qname qtype query fwd u =
     bindS (observation_outcome q pe u challenge) (\<lambda>outcome.
     case outcome of
       Inl e \<Rightarrow> log_refusal request_id u ''chain_discovery_failed'' [(''error'', JStr (exc_text e))] ''chain_discovery_failed'' None
     | Inr (observed, preverified0) \<Rightarrow>
         bindS (consume_chain_invalidations q) (\<lambda>invalidated.
         seqS (forS invalidated (\<lambda>e. in_verifier (invalidate_endpoint e ''EXPIRED'')))
         (bindS (case preverified0 of
                   Some rs \<Rightarrow> if invalidated \<noteq> [] then bindS (reverify q pe u observed rs) (\<lambda>r. retS (Some r)) else retS (Some rs)
                 | None \<Rightarrow> retS None) (\<lambda>preverified.
          if observed = [] \<and> qc_strict_observation q
          then log_refusal request_id u ''strict_observation_reject'' [] ''no_observable_resolvers'' None
          else case fwd query (up_ip u) (up_port u) of
              Inl e \<Rightarrow> log_refusal request_id u ''forward_error'' [(''error'', JStr (exc_text e))] ''dns_forward_error'' None
            | Inr response \<Rightarrow>
                bindS (case preverified of Some rs \<Rightarrow> retS rs | None \<Rightarrow> verify_all q (pe_verify pe) observed) (\<lambda>verifications.
                decide_path q request_id u qname qtype response observed verifications)))))"

section \<open>A query\<close>

type_synonym seen = "endpoint list \<times> verification_result list"

text \<open>The loop over the upstreams keeps the reason of the last refusal and what was seen last.\<close>

fun coordinate_paths ::
  "coordinator \<Rightarrow> (nat \<Rightarrow> path_env) \<Rightarrow> string \<Rightarrow> json \<Rightarrow> string \<Rightarrow> string \<Rightarrow> bytes \<Rightarrow> (nat \<Rightarrow> forwarder) \<Rightarrow> nat \<Rightarrow> upstream list \<Rightarrow>
   string option \<Rightarrow> seen \<Rightarrow> ((upstream \<times> bytes \<times> seen) + (string option \<times> seen)) coop" where
  "coordinate_paths q pes request_id challenge qname qtype query fwd i [] reason seen = retS (Inr (reason, seen))"
| "coordinate_paths q pes request_id challenge qname qtype query fwd i (u # us) reason seen =
     bindS (coordinate_path q (pes i) request_id challenge qname qtype query (fwd i) u) (\<lambda>verdict.
     case verdict of
       Release response observed results \<Rightarrow> retS (Inl (u, response, observed, results))
     | Refuse r seen' \<Rightarrow> coordinate_paths q pes request_id challenge qname qtype query fwd (Suc i) us (Some r)
         (case seen' of Some x \<Rightarrow> x | None \<Rightarrow> seen))"

definition coordinate ::
  "coordinator \<Rightarrow> (nat \<Rightarrow> path_env) \<Rightarrow> string \<Rightarrow> string \<Rightarrow> json \<Rightarrow> bytes \<Rightarrow> upstream list \<Rightarrow> (nat \<Rightarrow> forwarder) \<Rightarrow> dns_result coop" where
  "coordinate q pes uuid token latency query upstreams fwd =
     bindS (zoomS co_journal (\<lambda>j s. s\<lparr>co_journal := j\<rparr>) (journal_create uuid query)) (\<lambda>request_id.
     let qname = qname_text (fst (parse_question query)); qtype = snd (parse_question query) in
     if upstreams = []
     then seqS (audit_decision q request_id qname qtype [] [] ''SERVFAIL'' (JStr ''no_upstreams'') latency) (retS (refusal query request_id))
     else bindS (coordinate_paths q pes request_id (JStr token) qname qtype query fwd 0 upstreams None ([], [])) (\<lambda>outcome.
       case outcome of
         Inl (u, response, observed, results) \<Rightarrow>
           seqS (audit_decision q request_id qname qtype observed results ''ALLOW'' JNull latency)
           (retS \<lparr>dq_response = response, dq_request_id = request_id, dq_accepted = True, dq_upstream = Some u\<rparr>)
       | Inr (reason, observed, results) \<Rightarrow>
           seqS (audit_decision q request_id qname qtype observed results ''SERVFAIL''
              (JStr (case reason of Some (r # rs) \<Rightarrow> r # rs | _ \<Rightarrow> ''all_paths_failed'')) latency)
           (retS (refusal query request_id))))"

section \<open>What stands behind a released answer\<close>

lemma verified_in_snoc:
  assumes "verified_in cfg envs es rs" and "verify_endpoint cfg (envs (length rs)) e c = (Ret r, c')"
  shows "verified_in cfg envs (es @ [e]) (rs @ [r])"
proof -
  have l: "length rs = length es" using assms(1) by (simp add: verified_in_def)
  have "\<exists>c c'. verify_endpoint cfg (envs i) ((es @ [e]) ! i) c = (Ret ((rs @ [r]) ! i), c')" if "i < length (es @ [e])" for i
  proof (cases "i < length es")
    case True
    then show ?thesis using assms(1) l by (simp add: verified_in_def nth_append)
  next
    case False
    then have "i = length es" using that by simp
    then have "verify_endpoint cfg (envs i) ((es @ [e]) ! i) c = (Ret ((rs @ [r]) ! i), c')" using assms(2) l by (simp add: nth_append)
    then show ?thesis by blast
  qed
  then show ?thesis using l by (simp add: verified_in_def)
qed

text \<open>A discovery that returns verified every endpoint it lists.\<close>

lemma discover_verifies:
  "discover p cfg envs e depth visiting ds c = (Ret ds', c') \<Longrightarrow> verified_in cfg envs (ds_observed ds) (ds_results ds) \<Longrightarrow>
     verified_in cfg envs (ds_observed ds') (ds_results ds')"
  "discover_all p cfg envs es depth visiting ds c = (Ret ds', c') \<Longrightarrow> verified_in cfg envs (ds_observed ds) (ds_results ds) \<Longrightarrow>
     verified_in cfg envs (ds_observed ds') (ds_results ds')"
proof (induction p cfg envs e depth visiting ds and p cfg envs es depth visiting ds arbitrary: c c' ds' and c c' ds'
    rule: discover_discover_all.induct)
  case (1 p cfg envs e depth visiting ds)
  obtain ep key r c1 url where n: "normalized e = Ret ep" "endpoint_cache_key ep = Ret key" "key \<notin> set visiting" "\<not> depth \<ge> cp_max_depth p"
    and v: "verify_endpoint cfg (envs (length (ds_results ds))) ep c = (Ret r, c1)" "vr_accepted r" and u: "provider_url_for p ep = Ret url"
    using "1.prems"(1) by (auto simp: discover.simps[of p cfg envs e] bindS_Inr Let_def split: if_splits)
  let ?d = "ds\<lparr>ds_observed := ds_observed ds @ [ep], ds_results := ds_results ds @ [r]\<rparr>"
  have d: "verified_in cfg envs (ds_observed ?d) (ds_results ?d)" using verified_in_snoc[OF "1.prems"(2) v(1)] by simp
  show ?case
  proof (cases "no_url url")
    case True
    then have "ds' = ?d" using "1.prems"(1) n v u by (auto simp: discover.simps[of p cfg envs e] bindS_Inr Let_def split: if_splits)
    then show ?thesis using d by simp
  next
    case False
    obtain i where i: "ai_resolver_id i = vr_resolver_id r" "discover_all p cfg envs (ai_upstreams i) (depth + 1) (key # visiting)
        (?d\<lparr>ds_identities := ds_identities ?d @ [i]\<rparr>) c1 = (Ret ds', c')"
      using "1.prems"(1) n v u False by (auto simp: discover.simps[of p cfg envs e] bindS_Inr Let_def split: if_splits)
    from "1.IH"[OF n(3,4) refl refl _ False _ i(2)] v(2) i(1) d show ?thesis by simp
  qed
next
  case (3 p cfg envs u us depth visiting ds)
  obtain ds1 c1 where d: "discover p cfg envs u depth visiting ds c = (Ret ds1, c1)" "discover_all p cfg envs us depth visiting ds1 c1 = (Ret ds', c')"
    using "3.prems"(1) by (auto simp: bindS_Inr)
  show ?case by (rule "3.IH"(2)[OF d(2) "3.IH"(1)[OF d(1) "3.prems"(2)]])
qed simp

text \<open>The chain behind the results of a distributed observation: signed for the verified first hop, vouched for at every node,
  and clean at every node.\<close>

definition clean_chain_behind :: "chain_provider \<Rightarrow> verifier_cfg \<Rightarrow> path_env \<Rightarrow> upstream \<Rightarrow> json \<Rightarrow> bool" where
  "clean_chain_behind p cfg pe u challenge \<longleftrightarrow> (\<exists>first r0 c0 c1 payload c.
     upstream_endpoint u = Ret first \<and> verify_endpoint cfg (pe_observe pe 0) first c0 = (Ret r0, c1) \<and> vr_accepted r0 \<and>
     verify_verification_chain_payload (vc_lib cfg) payload (jget0 (vr_evidence r0) ''agent_public_key'') (vr_resolver_id r0) (Some first)
       (pe_now pe) (cp_max_clock_skew_seconds p) challenge = Ret c \<and>
     vouched p (vc_lib cfg) (pe_now pe) challenge [] (jget0 (vr_evidence r0) ''agent_public_key'') first c \<and>
     ch_final_result c \<and> all_nodes clean_node c)"

lemma observe_distributed_results:
  assumes "observe_distributed_chain p cfg env now u challenge s = (Ret (observed, results), s')"
  shows "\<exists>first r0 c1 payload c flat. upstream_endpoint u = Ret first \<and> verify_endpoint cfg env first (ps_cache s) = (Ret r0, c1) \<and> vr_accepted r0 \<and>
     verify_verification_chain_payload (vc_lib cfg) payload (jget0 (vr_evidence r0) ''agent_public_key'') (vr_resolver_id r0) (Some first)
       now (cp_max_clock_skew_seconds p) challenge = Ret c \<and>
     validate_chain_signatures p (vc_lib cfg) now challenge c first r0 = Ret () \<and> flatten_chain_results c = Ret flat \<and>
     tl results = flat @ (if ch_final_result c then [] else [vr_reject ''verification_chain_failed'' (ch_resolver_id c) [(''errors'', JArr (ch_chain_errors c))]])"
proof -
  obtain first key r0 s1 url where a: "upstream_endpoint u = Ret first" "endpoint_cache_key first = Ret key"
    "with_cache (verify_endpoint cfg env first) s = (Ret r0, s1)" "vr_accepted r0" "provider_url_for p first = Ret url" "\<not> no_url url"
    using assms by (auto simp: observe_distributed_chain_def bindS_Inr Let_def split: if_splits)
  note r1 = assms[unfolded observe_distributed_chain_def a(1,2,5), simplified, unfolded bindS_def[of "with_cache _"] a(3) prod.case sum.case]
  obtain payload c flat eps where b: "fetch_chain_payload p (the url) challenge = Ret (payload, challenge)"
    "verify_verification_chain_payload (vc_lib cfg) payload (jget0 (vr_evidence r0) ''agent_public_key'') (vr_resolver_id r0) (Some first)
       now (cp_max_clock_skew_seconds p) challenge = Ret c"
    "validate_chain_signatures p (vc_lib cfg) now challenge c first r0 = Ret ()" "flatten_chain_results c = Ret flat"
    "results = (r0 # flat) @ (if ch_final_result c then [] else [vr_reject ''verification_chain_failed'' (ch_resolver_id c) [(''errors'', JArr (ch_chain_errors c))]])"
    using r1 a(2,4,5,6) by (auto simp: fetch_chain_payload_def bindS_Inr seqS_Inr Let_def split: if_splits)
  obtain c1 where "verify_endpoint cfg env first (ps_cache s) = (Ret r0, c1)" using a(3) by (auto simp: with_cache_def zoomS_Inr)
  then show ?thesis using a(1,4) b by auto
qed

lemma observed_chain_clean:
  assumes "observe_distributed_chain p cfg (pe_observe pe 0) (pe_now pe) u challenge s = (Ret (observed, results), s')" and "list_all vr_accepted (tl results)"
  shows "clean_chain_behind p cfg pe u challenge"
proof -
  obtain first r0 c1 payload c flat where o: "upstream_endpoint u = Ret first" "verify_endpoint cfg (pe_observe pe 0) first (ps_cache s) = (Ret r0, c1)" "vr_accepted r0"
     "verify_verification_chain_payload (vc_lib cfg) payload (jget0 (vr_evidence r0) ''agent_public_key'') (vr_resolver_id r0) (Some first)
       (pe_now pe) (cp_max_clock_skew_seconds p) challenge = Ret c"
     "validate_chain_signatures p (vc_lib cfg) (pe_now pe) challenge c first r0 = Ret ()" "flatten_chain_results c = Ret flat"
     "tl results = flat @ (if ch_final_result c then [] else [vr_reject ''verification_chain_failed'' (ch_resolver_id c) [(''errors'', JArr (ch_chain_errors c))]])"
    using observe_distributed_results[OF assms(1)] by blast
  have fin: "ch_final_result c" using assms(2) o(7) by (auto split: if_splits)
  have "\<forall>r\<in>set flat. vr_accepted r" using assms(2) o(7) fin by (simp add: list_all_iff)
  then have "all_nodes clean_node c" using flatten_results_clean[OF o(6)] by blast
  then show ?thesis using o fin chain_signatures_vouched[OF o(5)] unfolding clean_chain_behind_def by blast
qed

text \<open>How the results of a path were obtained, by the kind of provider.\<close>

definition path_checked :: "coordinator \<Rightarrow> path_env \<Rightarrow> upstream \<Rightarrow> json \<Rightarrow> endpoint list \<Rightarrow> verification_result list \<Rightarrow> bool" where
  "path_checked q pe u challenge observed results =
     (case qc_provider q of
        Agent p \<Rightarrow> if cp_distributed_verification p then clean_chain_behind p (qc_cfg q) pe u challenge
                   else (\<exists>es. verified_in (qc_cfg q) (pe_observe pe) es results \<and> unique_endpoints es = Ret observed) \<or>
                        verified_in (qc_cfg q) (pe_verify pe) observed results
      | _ \<Rightarrow> verified_in (qc_cfg q) (pe_verify pe) observed results)"

text \<open>A result read from this process's own cache counts as current only at the generation the cache has; the first
  result of a path names the resolver of the agent identity learned for the upstream.\<close>

definition current_in :: "cache_mgr \<Rightarrow> verification_result \<Rightarrow> bool" where
  "current_in c r \<longleftrightarrow> (jget0 (vr_evidence r) ''cache_generation_owner'' = JStr (cm_owner c) \<longrightarrow> jget0 (vr_evidence r) ''cache_generation'' \<noteq> JNull \<longrightarrow>
     (\<exists>i. json_int (jget0 (vr_evidence r) ''cache_generation'') = Ret i \<and> fst (current_generation (cm_db c)) = Ret i))"

definition context_agrees :: "coordinator \<Rightarrow> provider_state \<Rightarrow> upstream \<Rightarrow> verification_result list \<Rightarrow> bool" where
  "context_agrees q ps u results \<longleftrightarrow> (\<forall>p key cx r rs. qc_provider q = Agent p \<longrightarrow> bind_res (upstream_endpoint u) endpoint_cache_key = Ret key \<longrightarrow>
     dict_get (ps_contexts ps) key = Some cx \<longrightarrow> results = r # rs \<longrightarrow> vr_resolver_id r = ai_resolver_id (cx_agent_identity cx))"

lemma on_db_generation: "on_db current_generation c = (fst (current_generation (cm_db c)), c)"
  by (auto simp: on_db_def zoomS_def current_generation_def bindS_def split: option.splits prod.splits)

lemma result_is_current_in: "result_is_current r c = (Ret True, c') \<Longrightarrow> current_in c r \<and> c' = c"
  unfolding result_is_current_def current_in_def
  by (auto simp: bindS_Inr on_db_generation split: if_splits json.splits)

lemma all_current_in: "all_current rs c = (Ret True, c') \<Longrightarrow> list_all (current_in c) rs \<and> c' = c"
  by (induction rs) (auto simp: bindS_Inr split: if_splits dest!: result_is_current_in)

text \<open>Writing the record of a decision changes neither the generation, the owner nor the contexts.\<close>

definition same_identities :: "coord_state \<Rightarrow> coord_state \<Rightarrow> bool" where
  "same_identities s t \<longleftrightarrow> cm_owner (ps_cache (co_provider t)) = cm_owner (ps_cache (co_provider s)) \<and>
     t_runtime (cm_db (ps_cache (co_provider t))) = t_runtime (cm_db (ps_cache (co_provider s))) \<and>
     ps_contexts (co_provider t) = ps_contexts (co_provider s)"

lemma same_identities_keep:
  assumes "same_identities s t"
  shows "list_all (current_in (ps_cache (co_provider s))) rs \<Longrightarrow> list_all (current_in (ps_cache (co_provider t))) rs"
    and "context_agrees q (co_provider s) u rs \<Longrightarrow> context_agrees q (co_provider t) u rs"
proof -
  have "fst (current_generation (cm_db (ps_cache (co_provider t)))) = fst (current_generation (cm_db (ps_cache (co_provider s))))"
    using assms by (auto simp: same_identities_def current_generation_def split: option.splits)
  then have "current_in (ps_cache (co_provider t)) = current_in (ps_cache (co_provider s))"
    using assms unfolding same_identities_def current_in_def fun_eq_iff by simp
  then show "list_all (current_in (ps_cache (co_provider s))) rs \<Longrightarrow> list_all (current_in (ps_cache (co_provider t))) rs" by simp
  show "context_agrees q (co_provider s) u rs \<Longrightarrow> context_agrees q (co_provider t) u rs"
    using assms by (simp add: same_identities_def context_agrees_def)
qed

lemma log_event_same: "log_event rid e s = (Ret x, t) \<Longrightarrow> same_identities s t"
  by (auto simp: log_event_def zoomS_Inr same_identities_def)

lemma audit_decision_same: "audit_decision q rid qn qt obs rs d w l s = (Ret x, t) \<Longrightarrow> same_identities s t"
  by (auto simp: audit_decision_def Let_def seqS_Inr log_event_def in_verifier_def in_provider_def with_cache_def on_db_def audit_record_def
      zoomS_Inr same_identities_def split: if_splits)

lemma in_verifier_Inr: "in_verifier m s = (Ret x, s') \<Longrightarrow> \<exists>c c'. m c = (Ret x, c')"
  by (auto simp: in_verifier_def in_provider_def with_cache_def zoomS_Inr)

lemma agent_identity_mismatch_state: "agent_identity_mismatch q u rs s = (Ret b, t) \<Longrightarrow> t = s"
  by (auto simp: agent_identity_mismatch_def bindS_Inr in_provider_def get_context_def zoomS_Inr split: provider.splits)

lemma decide_path_release:
  assumes "decide_path q rid u qn qt response observed results s = (Ret (Release response' observed' results'), s')"
  shows "response' = response \<and> observed' = observed \<and> results' = results \<and> list_all vr_accepted results \<and>
     list_all (current_in (ps_cache (co_provider s'))) results \<and> context_agrees q (co_provider s') u results"
proof -
  have log: "log_refusal a b c d e f t = (Ret (Release x y z), t') \<Longrightarrow> False" for a b c d e f t x y z t'
    by (auto simp: log_refusal_def bindS_Inr seqS_Inr)
  obtain s1 where c: "agent_identity_mismatch q u results s1 = (Ret False, s1)" "list_all vr_accepted results"
    "in_verifier (all_current results) s1 = (Ret True, s')" "response' = response \<and> observed' = observed \<and> results' = results"
    using assms agent_identity_mismatch_state
    by (auto simp: decide_path_def bindS_Inr seqS_Inr dest: log split: if_splits) blast+
  have k: "list_all (current_in (ps_cache (co_provider s1))) results" "s' = s1"
    using c(3) by (auto simp: in_verifier_def in_provider_def with_cache_def zoomS_Inr dest!: all_current_in)
  moreover have "context_agrees q (co_provider s1) u results"
    using c(1,2) unfolding context_agrees_def agent_identity_mismatch_def
    by (auto simp: in_provider_def get_context_def zoomS_def bindS_def)
  ultimately show ?thesis using c(2,4) by simp
qed

lemma verify_all_runs: "verify_all q envs observed s = (Ret rs, s') \<Longrightarrow> verified_in (qc_cfg q) envs observed rs"
  using verify_list_runs[of "qc_cfg q" envs 0] by (fastforce simp: verify_all_def bindS_Inr seqS_Inr verified_in_def dest!: in_verifier_Inr)

lemma discovered_results:
  assumes "observed_resolvers_with_verifier p cfg envs now u challenge s = (Ret (observed, results), s')" and "\<not> cp_distributed_verification p"
  shows "\<exists>es. verified_in cfg envs es results \<and> unique_endpoints es = Ret observed"
proof -
  obtain first ds s1 s2 where d: "with_cache (discover p cfg envs first 0 [] \<lparr>ds_observed = [], ds_results = [], ds_identities = []\<rparr>) s1 = (Ret ds, s2)"
    "unique_endpoints (ds_observed ds) = Ret observed" "results = ds_results ds"
    using assms by (auto simp: observed_resolvers_with_verifier_def bindS_Inr seqS_Inr)
  obtain c c' where "discover p cfg envs first 0 [] \<lparr>ds_observed = [], ds_results = [], ds_identities = []\<rparr> c = (Ret ds, c')"
    using d(1) by (auto simp: with_cache_def zoomS_Inr)
  from discover_verifies(1)[OF this] show ?thesis using d(2,3) by (auto simp: verified_in_def)
qed

lemma reverify_distributed:
  "reverify q pe u observed rs s = (Ret rs', s') \<Longrightarrow> distributed q \<Longrightarrow> tl rs' = tl rs"
  by (auto simp: reverify_def bindS_Inr)

lemma reverify_local:
  "reverify q pe u observed rs s = (Ret rs', s') \<Longrightarrow> \<not> distributed q \<Longrightarrow> verified_in (qc_cfg q) (pe_verify pe) observed rs'"
  by (auto simp: reverify_def dest: verify_all_runs)

text \<open>A released path: the run of \<open>coordinate_path\<close> in pieces.\<close>

lemma coordinate_path_release:
  assumes "coordinate_path q pe rid challenge qn qt query fwd u s = (Ret (Release response observed results), s')"
  shows "fwd query (up_ip u) (up_port u) = Ret response \<and> list_all vr_accepted results \<and>
     list_all (current_in (ps_cache (co_provider s'))) results \<and> context_agrees q (co_provider s') u results \<and>
     path_checked q pe u challenge observed results"
proof -
  have log: "log_refusal a b c d e f t = (Ret (Release x y z), t') \<Longrightarrow> False" for a b c d e f t x y z t'
    by (auto simp: log_refusal_def bindS_Inr seqS_Inr)
  obtain outcome s0 where oc: "observation_outcome q pe u challenge s = (Ret outcome, s0)"
    and run: "(case outcome of
       Inl e \<Rightarrow> log_refusal rid u ''chain_discovery_failed'' [(''error'', JStr (exc_text e))] ''chain_discovery_failed'' None
     | Inr (observed, preverified0) \<Rightarrow>
         bindS (consume_chain_invalidations q) (\<lambda>invalidated.
         seqS (forS invalidated (\<lambda>e. in_verifier (invalidate_endpoint e ''EXPIRED'')))
         (bindS (case preverified0 of
                   Some rs \<Rightarrow> if invalidated \<noteq> [] then bindS (reverify q pe u observed rs) (\<lambda>r. retS (Some r)) else retS (Some rs)
                 | None \<Rightarrow> retS None) (\<lambda>preverified.
          if observed = [] \<and> qc_strict_observation q
          then log_refusal rid u ''strict_observation_reject'' [] ''no_observable_resolvers'' None
          else case fwd query (up_ip u) (up_port u) of
              Inl e \<Rightarrow> log_refusal rid u ''forward_error'' [(''error'', JStr (exc_text e))] ''dns_forward_error'' None
            | Inr response \<Rightarrow>
                bindS (case preverified of Some rs \<Rightarrow> retS rs | None \<Rightarrow> verify_all q (pe_verify pe) observed) (\<lambda>verifications.
                decide_path q rid u qn qt response observed verifications))))) s0 = (Ret (Release response observed results), s')"
    using assms unfolding coordinate_path_def bindS_Inr by blast
  obtain obs pre0 where op: "outcome = Ret (obs, pre0)" using run by (cases outcome) (auto dest: log)
  then have ob: "observe_resolvers q pe u challenge s = (Ret (obs, pre0), s0)"
    using oc by (auto simp: observation_outcome_def split: prod.splits if_splits)
  obtain invalidated :: "endpoint list" and pre s1 s2 where
    pre: "(case pre0 of Some rs \<Rightarrow> if invalidated \<noteq> [] then bindS (reverify q pe u obs rs) (\<lambda>r. retS (Some r)) else retS (Some rs)
                 | None \<Rightarrow> retS None) s1 = (Ret pre, s2)"
    and run2: "(if obs = [] \<and> qc_strict_observation q
          then log_refusal rid u ''strict_observation_reject'' [] ''no_observable_resolvers'' None
          else case fwd query (up_ip u) (up_port u) of
              Inl e \<Rightarrow> log_refusal rid u ''forward_error'' [(''error'', JStr (exc_text e))] ''dns_forward_error'' None
            | Inr response \<Rightarrow>
                bindS (case pre of Some rs \<Rightarrow> retS rs | None \<Rightarrow> verify_all q (pe_verify pe) obs) (\<lambda>verifications.
                decide_path q rid u qn qt response obs verifications)) s2 = (Ret (Release response observed results), s')"
    using run unfolding op sum.case prod.case bindS_Inr seqS_Inr by (elim exE conjE) (erule (1) that)
  obtain resp rs s4 where fwd: "fwd query (up_ip u) (up_port u) = Ret resp"
    and rs: "(case pre of Some rs \<Rightarrow> retS rs | None \<Rightarrow> verify_all q (pe_verify pe) obs) s2 = (Ret rs, s4)"
    and dec: "decide_path q rid u qn qt resp obs rs s4 = (Ret (Release response observed results), s')"
    using run2 by (cases "fwd query (up_ip u) (up_port u)") (auto simp: bindS_Inr dest: log split: if_splits)
  note d = decide_path_release[OF dec]
  have "path_checked q pe u challenge obs rs"
  proof (cases "qc_provider q")
    case (Agent p)
    obtain rs0 t t' where o: "pre0 = Some rs0" "observed_resolvers_with_verifier p (qc_cfg q) (pe_observe pe) (pe_now pe) u challenge t = (Ret (obs, rs0), t')"
      using ob Agent by (auto simp: observe_resolvers_def bindS_Inr in_provider_def zoomS_Inr)
    have r: "rs = rs0 \<or> (\<exists>s s'. reverify q pe u obs rs0 s = (Ret rs, s'))"
      using pre rs o(1) by (auto simp: bindS_Inr split: if_splits)
    show ?thesis
    proof (cases "cp_distributed_verification p")
      case True
      then have dq: "distributed q" using Agent by (simp add: distributed_def)
      have "tl rs = tl rs0" using r reverify_distributed[OF _ dq] by blast
      then have "list_all vr_accepted (tl rs0)" using d by (cases rs) auto
      then show ?thesis using o(2) True Agent observed_chain_clean[of p "qc_cfg q" pe u challenge t obs rs0 t']
        by (simp add: observed_resolvers_with_verifier_def path_checked_def)
    next
      case False
      then have "\<not> distributed q" using Agent by (simp add: distributed_def)
      then show ?thesis using r reverify_local discovered_results[OF o(2) False] Agent False unfolding path_checked_def by fastforce
    qed
  next
    case FirstHop
    then have "pre0 = None" using ob by (auto simp: observe_resolvers_def)
    then have "verify_all q (pe_verify pe) obs s2 = (Ret rs, s4)" using pre rs by auto
    then show ?thesis using FirstHop verify_all_runs by (simp add: path_checked_def)
  next
    case (Static p)
    then have "pre0 = None" using ob by (auto simp: observe_resolvers_def)
    then have "verify_all q (pe_verify pe) obs s2 = (Ret rs, s4)" using pre rs by auto
    then show ?thesis using Static verify_all_runs by (simp add: path_checked_def)
  qed
  then show ?thesis using d fwd by simp
qed

lemma coordinate_paths_release:
  "coordinate_paths q pes rid challenge qn qt query fwd k us reason seen s = (Ret (Inl (u, response, observed, results)), s') \<Longrightarrow>
   \<exists>i. i < length us \<and> u = us ! i \<and> fwd (k + i) query (up_ip u) (up_port u) = Ret response \<and> list_all vr_accepted results \<and>
     list_all (current_in (ps_cache (co_provider s'))) results \<and> context_agrees q (co_provider s') u results \<and> path_checked q (pes (k + i)) u challenge observed results"
proof (induction us arbitrary: k reason seen s)
  case (Cons v us)
  obtain verdict s1 where v: "coordinate_path q (pes k) rid challenge qn qt query (fwd k) v s = (Ret verdict, s1)"
    and rest: "(case verdict of Release response observed results \<Rightarrow> retS (Inl (v, response, observed, results))
     | Refuse r seen' \<Rightarrow> coordinate_paths q pes rid challenge qn qt query fwd (Suc k) us (Some r)
         (case seen' of Some x \<Rightarrow> x | None \<Rightarrow> seen)) s1 = (Ret (Inl (u, response, observed, results)), s')"
    using Cons.prems by (auto simp: bindS_Inr)
  show ?case
  proof (cases verdict)
    case (Release a b c)
    then have "coordinate_path q (pes k) rid challenge qn qt query (fwd k) v s = (Ret (Release response observed results), s')" "u = v"
      using v rest by simp_all
    from coordinate_path_release[OF this(1)] this(2) show ?thesis by (intro exI[of _ 0]) simp
  next
    case (Refuse r seen')
    then have "coordinate_paths q pes rid challenge qn qt query fwd (Suc k) us (Some r) (case seen' of Some x \<Rightarrow> x | None \<Rightarrow> seen) s1 =
       (Ret (Inl (u, response, observed, results)), s')" using rest by simp
    from Cons.IH[OF this] obtain i where "i < length us" "u = us ! i" "fwd (Suc k + i) query (up_ip u) (up_port u) = Ret response"
      "list_all vr_accepted results"
      "list_all (current_in (ps_cache (co_provider s'))) results" "context_agrees q (co_provider s') u results" "path_checked q (pes (Suc k + i)) u challenge observed results" by blast
    then show ?thesis by (intro exI[of _ "Suc i"]) simp
  qed
qed simp


section \<open>An accepted query\<close>

definition demo_upstream :: upstream where "demo_upstream = new_upstream ''192.0.2.53'' 53 ''udp''"

definition demo_hop_endpoint :: endpoint where "demo_hop_endpoint = endpoint_of_parts ''192.0.2.53'' 53 ''udp''"

lemma demo_hop_stable: "endpoint_stable demo_hop_endpoint"
proof -
  have "canonical_ip ''192.0.2.53'' = Ret ''192.0.2.53''" by code_simp
  moreover have "py_lower ''udp'' = ''udp''" by code_simp
  ultimately show ?thesis
    by (simp add: endpoint_stable_def demo_hop_endpoint_def endpoint_of_parts_def normalized_def if_truthy_str_def normalized_port_def lower_value_def)
qed

lemma demo_hop_facts:
  "normalized demo_hop_endpoint = Ret demo_hop_endpoint" "upstream_endpoint demo_upstream = Ret demo_hop_endpoint"
  "e_ip demo_hop_endpoint = JStr ''192.0.2.53''"
  using demo_hop_stable
  by (simp_all add: endpoint_stable_def upstream_endpoint_def demo_upstream_def new_upstream_def demo_hop_endpoint_def) (simp add: endpoint_of_parts_def)

text \<open>A cache that holds a current row for the upstream's endpoint, with any plain evidence.\<close>

lemma demo_cached:
  assumes "evidence_plain ev"
  shows "\<exists>c r c'. verify_endpoint demo_cfg (quiet_env (\<lambda>_. no_registry) 1500000000) demo_hop_endpoint (c :: cache_mgr) = (Ret r, c') \<and>
     vr_accepted r \<and> vr_resolver_id r = JStr ''resolver-1'' \<and> result_is_current r c' = (Ret True, c') \<and> cm_db c' = cm_db c"
proof -
  obtain k where k: "trusted_cache_key demo_hop_endpoint ''resolver-1'' (Some 3) = Ret k"
    using trusted_cache_key_total[of demo_hop_endpoint demo_hop_endpoint demo_hop_endpoint] demo_hop_facts by auto
  obtain ek where ek: "endpoint_lookup_key demo_hop_endpoint = Ret ek"
    using endpoint_lookup_key_stable[OF demo_hop_stable] demo_hop_facts by simp
  define row where "row = stored_row ek ''resolver-1'' demo_hop_endpoint ''0xaa'' 3 ''0xbb'' (format_rfc3339 2000000000) (format_rfc3339 2000000000) ev 0 0 ''o'' k"
  define c where "c = demo_cache\<lparr>cm_db := cache_insert row (empty_db 0)\<rparr>"
  have g: "gen_is (cm_db c) 0" by (simp add: c_def empty_gen)
  have nf: "newest_for ek (cm_db c) = Some row"
    by (rule newest_for_single) (simp_all add: c_def cache_insert_def empty_db_def row_def stored_row_def)
  have gv: "get_valid (\<lambda>d. d) ek demo_hop_endpoint 1500000000 c = use_row ek demo_hop_endpoint 1500000000 (int 0) row c"
    by (intro get_valid_uses[OF g nf]) (simp add: row_def stored_row_def)
  obtain ev' c' where u: "use_row ek demo_hop_endpoint 1500000000 (int 0) row c = (Ret (Some (vr_accept (JStr ''resolver-1'') ''VERIFIED'' ev')), c')"
    "cm_db c' = cm_db c" "cm_owner c' = cm_owner c"
    using use_row_stored[OF demo_hop_stable _ k assms demo_expiry _ demo_expiry _ row_def, where now = 1500000000 and c = c] demo_hop_facts by auto
  let ?r = "vr_accept (JStr ''resolver-1'') ''VERIFIED'' ev'"
  have run: "verify_endpoint demo_cfg (quiet_env (\<lambda>_. no_registry) 1500000000) demo_hop_endpoint c = (Ret ?r, c')"
    using gv u(1) by (simp add: verify_endpoint_def demo_hop_facts ek bindS_def quiet_env_def)
  have e: "jget0 (vr_evidence ?r) ''cache_generation'' = JInt (int 0)"
    using use_row_accepts[OF u(1)] by (simp add: row_def stored_row_def)
  have "on_db current_generation c' = (Ret (int 0), c')" using current_generation_is[of "cm_db c'" 0] g u(2) by (simp add: on_db_def zoomS_def)
  then have "result_is_current ?r c' = (Ret True, c')" using e by (simp add: result_is_current_def bindS_def)
  then show ?thesis using run u(2) by (metis vr_accept_sel(1,3))
qed

definition demo_path_env :: path_env where
  "demo_path_env = \<lparr>pe_observe = (\<lambda>_. quiet_env (\<lambda>_. no_registry) 1500000000), pe_now = 110, pe_timed_out = False,
     pe_reverify = quiet_env (\<lambda>_. no_registry) 1500000000, pe_verify = (\<lambda>_. quiet_env (\<lambda>_. no_registry) 1500000000)\<rparr>"

definition demo_coordinator :: coordinator where
  "demo_coordinator = \<lparr>qc_cfg = demo_cfg, qc_provider = FirstHop, qc_audit = True, qc_strict_observation = True\<rparr>"

lemma demo_coordinator_facts: "qc_provider demo_coordinator = FirstHop" "qc_cfg demo_coordinator = demo_cfg" "qc_strict_observation demo_coordinator"
  by (simp_all add: demo_coordinator_def)

lemma demo_path_env_facts: "\<not> pe_timed_out demo_path_env" "pe_verify demo_path_env = (\<lambda>_. quiet_env (\<lambda>_. no_registry) 1500000000)"
  by (simp_all add: demo_path_env_def)

lemma demo_coordinate:
  "\<exists>s r s'. coordinate demo_coordinator (\<lambda>_. demo_path_env) ''r1'' ''token'' (JInt 1) (replicate 12 1) [demo_upstream] (\<lambda>_ _ _ _. Ret [7]) s = (Ret r, s') \<and>
     dq_accepted r"
proof -
  obtain c r c' where v: "verify_endpoint demo_cfg (quiet_env (\<lambda>_. no_registry) 1500000000) demo_hop_endpoint (c :: cache_mgr) = (Ret r, c')"
    "vr_accepted r" "result_is_current r c' = (Ret True, c')"
    using demo_cached[of "[]"] by (auto simp: evidence_plain_def)
  define s where "s = \<lparr>co_provider = \<lparr>ps_cache = c, ps_contexts = [], ps_invalidated = []\<rparr>, co_journal = new_journal, co_metrics = new_metrics, co_refreshing = []\<rparr>"
  let ?log = "\<lambda>e. log_event ''r1'' e"
  have log: "\<exists>j. log_event ''r1'' e t = (Ret (), t\<lparr>co_journal := j\<rparr>)" for e t by (auto simp: log_event_def journal_add_def zoomS_def)
  have va: "verify_all demo_coordinator (\<lambda>_. quiet_env (\<lambda>_. no_registry) 1500000000) [demo_hop_endpoint] t =
      (Ret [r], t\<lparr>co_provider := (co_provider t)\<lparr>ps_cache := c'\<rparr>, co_refreshing := co_refreshing t @ (if vr_status r = ''REFRESHING'' then [demo_hop_endpoint] else [])\<rparr>)"
    if "ps_cache (co_provider t) = c" for t :: coord_state
    using v that by (simp add: verify_all_def in_verifier_def in_provider_def with_cache_def zoomS_def bindS_def seqS_def demo_coordinator_def)
  have ac: "in_verifier (all_current [r]) t = (Ret True, t)" if "ps_cache (co_provider t) = c'" for t :: coord_state
    using v(3) that by (simp add: in_verifier_def in_provider_def with_cache_def zoomS_def bindS_def)
  have dp: "\<exists>s'. decide_path demo_coordinator ''r1'' demo_upstream qn qt [7] [demo_hop_endpoint] [r] t = (Ret (Release [7] [demo_hop_endpoint] [r]), s')"
    if c: "ps_cache (co_provider t) = c'" for qn qt and t :: coord_state
  proof -
    obtain j where j: "log_event ''r1'' (gate_event qn qt demo_hop_endpoint [demo_hop_endpoint] [r]) t = (Ret (), t\<lparr>co_journal := j\<rparr>)" using log by blast
    show ?thesis
      using v(2) ac[of "t\<lparr>co_journal := j\<rparr>"] c
      by (simp add: decide_path_def demo_hop_facts seqS_def bindS_def j agent_identity_mismatch_def demo_coordinator_def)
  qed
  have cp: "\<exists>s'. coordinate_path demo_coordinator demo_path_env ''r1'' ch qn qt q (\<lambda>_ _ _. Ret [7]) demo_upstream t = (Ret (Release [7] [demo_hop_endpoint] [r]), s')"
    if c: "ps_cache (co_provider t) = c" for ch qn qt q and t :: coord_state
  proof -
    let ?t = "t\<lparr>co_provider := (co_provider t)\<lparr>ps_cache := c'\<rparr>, co_refreshing := co_refreshing t @ (if vr_status r = ''REFRESHING'' then [demo_hop_endpoint] else [])\<rparr>"
    obtain s' where "decide_path demo_coordinator ''r1'' demo_upstream qn qt [7] [demo_hop_endpoint] [r] ?t = (Ret (Release [7] [demo_hop_endpoint] [r]), s')"
      using dp[of ?t qn qt] by auto
    then show ?thesis using va[OF c]
      by (simp add: coordinate_path_def observation_outcome_def observe_resolvers_def first_hop_observed_def demo_hop_facts consume_chain_invalidations_def
          bindS_def seqS_def demo_coordinator_facts demo_path_env_facts)
  qed
  have ad: "\<exists>s'. audit_decision demo_coordinator ''r1'' qn qt ob rs d w l t = (Ret (), s')" for qn qt ob rs d w l t
  proof -
    obtain j where j: "log_event ''r1'' ((''event'', JStr ''final_decision'') # audit_payload ''r1'' qn qt ob rs d w l) t = (Ret (), t\<lparr>co_journal := j\<rparr>)" using log by blast
    show ?thesis
      by (simp add: audit_decision_def Let_def seqS_def bindS_def j) (simp add: demo_coordinator_def in_verifier_def in_provider_def with_cache_def on_db_def zoomS_def)
  qed
  show ?thesis
  proof -
    let ?q = "replicate 12 1 :: bytes"
    let ?qn = "qname_text (fst (parse_question ?q))" and ?qt = "snd (parse_question ?q)"
    obtain j where j: "zoomS co_journal (\<lambda>j s. s\<lparr>co_journal := j\<rparr>) (journal_create ''r1'' ?q) s = (Ret ''r1'', s\<lparr>co_journal := j\<rparr>)"
      by (simp add: zoomS_def journal_create_def s_def new_journal_def)
    obtain s1 where p: "coordinate_path demo_coordinator demo_path_env ''r1'' (JStr ''token'') ?qn ?qt ?q (\<lambda>_ _ _. Ret [7]) demo_upstream (s\<lparr>co_journal := j\<rparr>) =
        (Ret (Release [7] [demo_hop_endpoint] [r]), s1)"
      using cp[of "s\<lparr>co_journal := j\<rparr>" "JStr ''token''" ?qn ?qt ?q] that by (simp add: s_def) blast
    obtain s2 where a: "audit_decision demo_coordinator ''r1'' ?qn ?qt [demo_hop_endpoint] [r] ''ALLOW'' JNull (JInt 1) s1 = (Ret (), s2)" using ad by blast
    have "coordinate demo_coordinator (\<lambda>_. demo_path_env) ''r1'' ''token'' (JInt 1) ?q [demo_upstream] (\<lambda>_ _ _ _. Ret [7]) s =
       (Ret \<lparr>dq_response = [7], dq_request_id = ''r1'', dq_accepted = True, dq_upstream = Some demo_upstream\<rparr>, s2)"
      by (simp add: coordinate_def bindS_def j Let_def p seqS_def a)
    then show ?thesis by (metis dns_result.select_convs(3))
  qed
qed


end
