(* ===== verification/EventWatcher.thy ===== *)
theory EventWatcher
  imports Registry TrustedCache PyRepr "HOL-Library.Product_Lexorder"
begin

text \<open>
  \<open>chain/event_watcher.py\<close>: the registry's events are polled and turned into invalidations of the trusted cache.  The
  node is an argument: its head, and for each attempt its answer to a request for a block hash or for logs.
  Event names, argument names and hashes that are not text are written as text where the program would carry
  them along; the audit log is in the database of the cache.
\<close>

section \<open>State and node\<close>

record watcher_cfg =
  wc_audit :: bool
  wc_confirmations :: int
  wc_reorg_safety_blocks :: int
  wc_retry_count :: int

record watcher =
  wt_cache :: cache_mgr
  wt_last_processed_block :: int
  wt_last_seen_block_hash :: "string option"
  wt_processed :: "(string \<times> int) list"

type_synonym 'a wop = "(watcher, 'a) op"

record raw_log =
  rg_event :: json
  rg_args :: "(string, chain_value) dict"
  rg_block_number :: int
  rg_log_index :: int

text \<open>\<open>nd_logs name k snake from to\<close> is the answer to the k-th attempt, with the one or the other spelling of the arguments.\<close>

record node =
  nd_head :: int
  nd_block_hash :: "nat \<Rightarrow> int \<Rightarrow> chain_value res"
  nd_logs :: "string \<Rightarrow> nat \<Rightarrow> bool \<Rightarrow> int \<Rightarrow> int \<Rightarrow> raw_log list res"

definition EVENT_NAMES :: "string list" where
  "EVENT_NAMES = [''ResolverPublished'', ''ResolverUpdated'', ''ResolverRevoked'', ''RootRevoked'', ''EndpointBound'', ''EndpointUnbound'']"

definition cache_op :: "'a cmop \<Rightarrow> 'a wop" where
  "cache_op = zoomS wt_cache (\<lambda>c s. s\<lparr>wt_cache := c\<rparr>)"

definition watcher_audit :: "watcher_cfg \<Rightarrow> string \<Rightarrow> jdict \<Rightarrow> unit wop" where
  "watcher_audit wc event_type payload = (if wc_audit wc then cache_op (on_db (audit_record event_type payload)) else retS ())"

section \<open>One event\<close>

definition first_of :: "jdict \<Rightarrow> string \<Rightarrow> string \<Rightarrow> json" where
  "first_of d k1 k2 = jor (jget0 d k1) (jget0 d k2)"

definition event_id :: "jdict \<Rightarrow> (string \<times> int) res" where
  "event_id event =
     bind_res (json_int (jor (first_of event ''blockNumber'' ''block_number'') (JInt 0))) (\<lambda>b.
     bind_res (json_int (jor (first_of event ''logIndex'' ''log_index'') (JInt 0))) (\<lambda>i.
     Ret (py_str (first_of event ''event'' ''event_type''), b * 1000000 + i)))"

definition resolver_revoked :: "watcher_cfg \<Rightarrow> jdict \<Rightarrow> unit wop" where
  "resolver_revoked wc args =
     (let resolver_id = first_of args ''resolver_id'' ''resolverId''; rid_key = first_of args ''resolver_id_key'' ''resolverIdKey'' in
      if truthy resolver_id then bindS (liftS (as_str resolver_id)) (\<lambda>i. cache_op (invalidate_resolver i ''REVOKED''))
      else if truthy rid_key
      then bindS (liftS (as_str rid_key)) (\<lambda>k. seqS (cache_op (invalidate_resolver_key k ''REVOKED''))
             (watcher_audit wc ''WatcherResolverRevokedByKey'' [(''resolver_id_key'', rid_key)]))
      else retS ())"

definition root_revoked :: "jdict \<Rightarrow> unit wop" where
  "root_revoked args =
     (let state_root = first_of args ''state_root'' ''stateRoot'' in
      if truthy state_root then bindS (liftS (as_str state_root)) (\<lambda>r. cache_op (invalidate_root r ''REVOKED'')) else retS ())"

definition resolver_updated :: "jdict \<Rightarrow> unit wop" where
  "resolver_updated args =
     (let resolver_id = first_of args ''resolver_id'' ''resolverId''; rid_key = first_of args ''resolver_id_key'' ''resolverIdKey'';
          object_version = first_of args ''object_version'' ''objectVersion'' in
      if truthy resolver_id \<and> object_version \<noteq> JNull
      then bindS (liftS (json_int object_version)) (\<lambda>v. bindS (liftS (as_str resolver_id)) (\<lambda>i. cache_op (invalidate_object_version i v)))
      else if truthy rid_key \<and> object_version \<noteq> JNull
      then bindS (liftS (json_int object_version)) (\<lambda>v. bindS (liftS (as_str rid_key)) (\<lambda>k. cache_op (invalidate_object_version_by_resolver_key k v)))
      else retS ())"

text \<open>An \<open>endpoint\<close> argument that comes from a log is a plain value and not an endpoint object.\<close>

definition endpoint_unbound :: "jdict \<Rightarrow> unit wop" where
  "endpoint_unbound args =
     (let endpoint_key = first_of args ''endpoint_key'' ''endpointKey'' in
      if truthy endpoint_key then bindS (liftS (as_str endpoint_key)) (\<lambda>k. cache_op (invalidate_endpoint_key k ''EXPIRED''))
      else if truthy (jget0 args ''endpoint'') then raiseS (AttributeError ''normalized'') else retS ())"

definition endpoint_bound :: "watcher_cfg \<Rightarrow> jdict \<Rightarrow> unit wop" where
  "endpoint_bound wc args =
     (let endpoint_key = first_of args ''endpoint_key'' ''endpointKey'' in
      seqS (if truthy endpoint_key then bindS (liftS (as_str endpoint_key)) (\<lambda>k. cache_op (invalidate_endpoint_key k ''EXPIRED'')) else retS ())
        (watcher_audit wc ''WatcherEndpointBoundRefreshNeeded'' args))"

definition apply_event :: "watcher_cfg \<Rightarrow> json \<Rightarrow> jdict \<Rightarrow> unit wop" where
  "apply_event wc name args =
     (if name = JStr ''ResolverRevoked'' then resolver_revoked wc args
      else if name = JStr ''RootRevoked'' then root_revoked args
      else if name = JStr ''ResolverUpdated'' then resolver_updated args
      else if name = JStr ''EndpointUnbound'' then endpoint_unbound args
      else if name = JStr ''EndpointBound'' then endpoint_bound wc args
      else if name = JStr ''ResolverPublished'' then watcher_audit wc ''WatcherResolverPublished'' args
      else retS ())"

definition handle_event :: "watcher_cfg \<Rightarrow> jdict \<Rightarrow> unit wop" where
  "handle_event wc event =
     (let event_name = first_of event ''event'' ''event_type'';
          block_number = first_of event ''blockNumber'' ''block_number'';
          log_index = first_of event ''logIndex'' ''log_index'' in
      bindS (liftS (event_id event)) (\<lambda>eid.
      bindS (getS (\<lambda>s. eid \<in> set (wt_processed s))) (\<lambda>seen.
      if seen then retS ()
      else seqS (modS (\<lambda>s. s\<lparr>wt_processed := eid # wt_processed s\<rparr>))
        (bindS (liftS (as_dict (jor (jor (jget0 event ''args'') (jget0 event ''payload'')) (JObj [])))) (\<lambda>args.
         seqS (apply_event wc event_name args)
         (seqS (if block_number \<noteq> JNull
                then bindS (liftS (json_int block_number)) (\<lambda>b. modS (\<lambda>s. s\<lparr>wt_last_processed_block := max (wt_last_processed_block s) b\<rparr>))
                else retS ())
         (watcher_audit wc (py_str event_name) [(''args'', JObj args), (''block_number'', block_number), (''log_index'', log_index)])))))))"

section \<open>Polling\<close>

definition should_process_block :: "watcher_cfg \<Rightarrow> int \<Rightarrow> int \<Rightarrow> bool" where
  "should_process_block wc block_number current_head \<longleftrightarrow> block_number \<le> current_head - wc_confirmations wc"

definition rollback_for_reorg :: "watcher_cfg \<Rightarrow> int \<Rightarrow> unit wop" where
  "rollback_for_reorg wc new_safe_block =
     (let b = max 0 (new_safe_block - wc_reorg_safety_blocks wc) in
      seqS (modS (\<lambda>s. s\<lparr>wt_last_processed_block := b, wt_last_seen_block_hash := None, wt_processed := []\<rparr>))
        (watcher_audit wc ''WatcherReorgRollback'' [(''last_processed_block'', JInt b)]))"

definition normalize_hash :: "chain_value \<Rightarrow> string" where
  "normalize_hash v = (case v of CBytes b \<Rightarrow> ''0x'' @ hex_of_bytes b | CJson j \<Rightarrow> py_str j)"

text \<open>The retry loops: \<open>n\<close> attempts are left, the next one has number \<open>k\<close>.\<close>

fun retry_block_hash :: "(nat \<Rightarrow> chain_value res) \<Rightarrow> nat \<Rightarrow> nat \<Rightarrow> string res" where
  "retry_block_hash answer k 0 = Raise (RuntimeError ''failed to read block hash'')"
| "retry_block_hash answer k (Suc n) = (case answer k of Inr v \<Rightarrow> Ret (normalize_hash v) | Inl _ \<Rightarrow> retry_block_hash answer (Suc k) n)"

fun retry_logs :: "(nat \<Rightarrow> bool \<Rightarrow> raw_log list res) \<Rightarrow> nat \<Rightarrow> nat \<Rightarrow> raw_log list res" where
  "retry_logs answer k 0 = Raise (RuntimeError ''failed to poll registry events'')"
| "retry_logs answer k (Suc n) =
     (case answer k True of
        Inr logs \<Rightarrow> Ret logs
      | Inl (TypeError _) \<Rightarrow> (case answer k False of Inr logs \<Rightarrow> Ret logs | Inl _ \<Rightarrow> retry_logs answer (Suc k) n)
      | Inl _ \<Rightarrow> retry_logs answer (Suc k) n)"

definition block_hash_with_retry :: "watcher_cfg \<Rightarrow> node \<Rightarrow> int \<Rightarrow> string res" where
  "block_hash_with_retry wc nd b = retry_block_hash (\<lambda>k. nd_block_hash nd k b) 0 (nat (wc_retry_count wc))"

definition logs_with_retry :: "watcher_cfg \<Rightarrow> node \<Rightarrow> string \<Rightarrow> int \<Rightarrow> int \<Rightarrow> raw_log list res" where
  "logs_with_retry wc nd name from_block to_block = retry_logs (\<lambda>k snake. nd_logs nd name k snake from_block to_block) 0 (nat (wc_retry_count wc))"

definition detect_reorg :: "watcher_cfg \<Rightarrow> node \<Rightarrow> bool wop" where
  "detect_reorg wc nd =
     bindS (getS (\<lambda>s. (wt_last_processed_block s, wt_last_seen_block_hash s))) (\<lambda>(b, h).
     if b \<le> 0 \<or> h = None \<or> h = Some [] then retS False
     else bindS (liftS (block_hash_with_retry wc nd b)) (\<lambda>current. retS (Some current \<noteq> h)))"

definition snake_or_original :: "string \<Rightarrow> string" where
  "snake_or_original key = (case dict_get [(''resolverIdKey'', ''resolver_id_key''), (''stateRoot'', ''state_root''),
     (''objectVersion'', ''object_version''), (''endpointKey'', ''endpoint_key'')] key of Some k \<Rightarrow> k | None \<Rightarrow> key)"

definition normalize_value :: "chain_value \<Rightarrow> json" where
  "normalize_value v = (case v of CBytes b \<Rightarrow> JStr (''0x'' @ hex_of_bytes b) | CJson j \<Rightarrow> j)"

definition normalize_web3_event :: "raw_log \<Rightarrow> jdict" where
  "normalize_web3_event g =
     [(''event'', rg_event g), (''args'', JObj (dict_update [] (map (\<lambda>(k, v). (snake_or_original k, normalize_value v)) (rg_args g)))),
      (''blockNumber'', JInt (rg_block_number g)), (''logIndex'', JInt (rg_log_index g))]"

definition log_order :: "raw_log \<Rightarrow> int \<times> int \<times> string" where
  "log_order g = (rg_block_number g, rg_log_index g, py_str (rg_event g))"

definition handle_logs :: "watcher_cfg \<Rightarrow> raw_log list \<Rightarrow> unit wop" where
  "handle_logs wc logs = forS (sort_key log_order logs) (\<lambda>g. handle_event wc (normalize_web3_event g))"

text \<open>The result of a poll: first and last block, number of events, and whether a reorganisation was seen.\<close>

definition poll_web3_events :: "watcher_cfg \<Rightarrow> node \<Rightarrow> (int \<times> int \<times> nat \<times> bool) wop" where
  "poll_web3_events wc nd =
     (let to_block = nd_head nd - wc_confirmations wc in
      if to_block < 0 then getS (\<lambda>s. (wt_last_processed_block s + 1, to_block, 0, False))
      else bindS (detect_reorg wc nd) (\<lambda>reorg.
        seqS (if reorg
              then bindS (cache_op (expire_all ''EXPIRED'')) (\<lambda>expired.
                   seqS (watcher_audit wc ''WatcherReorgCacheQuarantined'' [(''expired'', JInt expired)])
                   (bindS (getS wt_last_processed_block) (\<lambda>b. rollback_for_reorg wc b)))
              else retS ())
        (bindS (getS (\<lambda>s. wt_last_processed_block s + 1)) (\<lambda>from_block.
         if to_block < from_block then retS (from_block, to_block, 0, reorg)
         else bindS (liftS (map_res (\<lambda>name. logs_with_retry wc nd name from_block to_block) EVENT_NAMES)) (\<lambda>logss.
           let logs = concat logss in
           seqS (handle_logs wc logs)
           (seqS (modS (\<lambda>s. s\<lparr>wt_last_processed_block := max (wt_last_processed_block s) to_block\<rparr>))
           (bindS (liftS (block_hash_with_retry wc nd to_block)) (\<lambda>h.
            seqS (modS (\<lambda>s. s\<lparr>wt_last_seen_block_hash := Some h\<rparr>)) (retS (from_block, to_block, length logs, reorg))))))))))"

definition reconcile_registry_state :: "watcher_cfg \<Rightarrow> registry_view \<Rightarrow> (int \<times> int \<times> int) wop" where
  "reconcile_registry_state wc reg =
     bindS (cache_op (refresh_registry_state reg)) (\<lambda>(checked, expired, revoked).
     seqS (watcher_audit wc ''WatcherRegistryStateReconciled'' [(''checked'', JInt checked), (''expired'', JInt expired), (''revoked'', JInt revoked)])
     (retS (checked, expired, revoked)))"

section \<open>The watcher only takes trust away\<close>

definition row_demoted :: "cache_row \<Rightarrow> cache_row \<Rightarrow> bool" where
  "row_demoted r r' \<longleftrightarrow> r' = r \<or> (\<exists>st. (st = ''REVOKED'' \<or> st = ''EXPIRED'') \<and> r' = r\<lparr>cr_status := st\<rparr>)"

definition db_demoted :: "db \<Rightarrow> db \<Rightarrow> bool" where
  "db_demoted d d' \<longleftrightarrow> list_all2 row_demoted (t_cache d) (t_cache d')"

definition cache_demoted :: "cache_mgr \<Rightarrow> cache_mgr \<Rightarrow> bool" where
  "cache_demoted c c' \<longleftrightarrow> db_demoted (cm_db c) (cm_db c') \<and>
     (\<forall>k r'. dict_get (cm_memory c') k = Some r' \<longrightarrow> (\<exists>r. dict_get (cm_memory c) k = Some r \<and> row_demoted r r'))"

lemma row_demoted_refl [simp]: "row_demoted r r"
  by (simp add: row_demoted_def)

lemma row_demoted_trans: "row_demoted a b \<Longrightarrow> row_demoted b c \<Longrightarrow> row_demoted a c"
  unfolding row_demoted_def by (elim disjE exE conjE; hypsubst?; simp; blast?)

lemma db_demoted_same: "t_cache d' = t_cache d \<Longrightarrow> db_demoted d d'"
  by (simp add: db_demoted_def list_all2_refl)

lemma cache_demoted_refl: "cache_demoted c c"
  by (simp add: cache_demoted_def db_demoted_same)

lemma cache_demoted_trans: "cache_demoted a b \<Longrightarrow> cache_demoted b c \<Longrightarrow> cache_demoted a c"
  unfolding cache_demoted_def db_demoted_def
proof (intro conjI allI impI; elim conjE)
  assume "list_all2 row_demoted (t_cache (cm_db a)) (t_cache (cm_db b))" "list_all2 row_demoted (t_cache (cm_db b)) (t_cache (cm_db c))"
  then show "list_all2 row_demoted (t_cache (cm_db a)) (t_cache (cm_db c))" by (rule list_all2_trans[rotated]) (rule row_demoted_trans)
next
  fix k r' assume m: "\<forall>k r'. dict_get (cm_memory b) k = Some r' \<longrightarrow> (\<exists>r. dict_get (cm_memory a) k = Some r \<and> row_demoted r r')"
    "\<forall>k r'. dict_get (cm_memory c) k = Some r' \<longrightarrow> (\<exists>r. dict_get (cm_memory b) k = Some r \<and> row_demoted r r')" "dict_get (cm_memory c) k = Some r'"
  obtain r1 where r1: "dict_get (cm_memory b) k = Some r1" "row_demoted r1 r'" using m(2,3) by blast
  obtain r0 where "dict_get (cm_memory a) k = Some r0" "row_demoted r0 r1" using m(1) r1(1) by blast
  then show "\<exists>r. dict_get (cm_memory a) k = Some r \<and> row_demoted r r'" using r1(2) row_demoted_trans by blast
qed

definition demotes :: "('s \<Rightarrow> cache_mgr) \<Rightarrow> ('s, 'a) op \<Rightarrow> bool" where
  "demotes f m \<longleftrightarrow> (\<forall>s. cache_demoted (f s) (f (snd (m s))))"

named_theorems demoting

lemma demotes_basic [demoting]:
  "demotes f (retS x)" "demotes f (raiseS e)" "demotes f (liftS r)" "demotes f (getS g)"
  by (simp_all add: demotes_def cache_demoted_refl)

lemma demotes_bindS [demoting]: "demotes f m \<Longrightarrow> (\<And>x. demotes f (k x)) \<Longrightarrow> demotes f (bindS m k)"
  unfolding demotes_def bindS_def
  by (intro allI, case_tac "m s") (auto split: sum.splits intro: cache_demoted_trans dest: spec, metis cache_demoted_trans snd_conv)?

lemma demotes_seqS [demoting]: "demotes f m \<Longrightarrow> demotes f n \<Longrightarrow> demotes f (seqS m n)"
  by (simp add: seqS_def demotes_bindS)

lemma demotes_forS [demoting]: "(\<And>x. demotes f (k x)) \<Longrightarrow> demotes f (forS xs k)"
  by (induction xs) (auto intro: demoting)

lemma demotes_if [demoting]: "demotes f m \<Longrightarrow> demotes f n \<Longrightarrow> demotes f (if b then m else n)"
  by simp

lemma demotes_option [demoting]: "(\<And>x. demotes f (k x)) \<Longrightarrow> demotes f g \<Longrightarrow> demotes f (case v of None \<Rightarrow> g | Some x \<Rightarrow> k x)"
  by (cases v) auto

lemma demotes_modS: "(\<And>s. f (h s) = f s) \<Longrightarrow> demotes f (modS h)"
  by (simp add: demotes_def cache_demoted_refl)

text \<open>Operations on the database that leave the cache table alone, and those that set a status.\<close>

lemma demotes_on_db: "(\<And>d. db_demoted d (snd (m d))) \<Longrightarrow> demotes (\<lambda>c. c) (on_db m)"
  by (auto simp: demotes_def on_db_def zoomS_def cache_demoted_def split: prod.splits) (metis snd_conv)

lemma set_status_demotes: "st = ''REVOKED'' \<or> st = ''EXPIRED'' \<Longrightarrow> db_demoted d (set_status P st d)"
  by (auto simp: db_demoted_def set_status_def list_all2_conv_all_nth row_demoted_def)

lemma demotes_db_ops [demoting]:
  "demotes (\<lambda>c. c) (on_db bump_generation)" "demotes (\<lambda>c. c) (on_db cache_list)" "demotes (\<lambda>c. c) (on_db (get_by_endpoint_lookup_key ek))"
  "demotes (\<lambda>c. c) (on_db (audit_record t p))" "demotes (\<lambda>c. c) (on_db current_generation)"
  by (rule demotes_on_db, rule db_demoted_same,
      simp add: bump_generation_def current_generation_def cache_list_def get_by_endpoint_lookup_key_def bindS_def seqS_def split: option.splits)+

lemma demotes_status_ops [demoting]:
  assumes "st = ''REVOKED'' \<or> st = ''EXPIRED''"
  shows "demotes (\<lambda>c. c) (on_db (update_status k st))" "demotes (\<lambda>c. c) (on_db (mark_status_by_resolver i st))"
    "demotes (\<lambda>c. c) (on_db (mark_status_by_root r st))"
  by (rule demotes_on_db, use assms in \<open>simp add: update_status_def mark_status_by_resolver_def mark_status_by_root_def\<close>,
      use set_status_demotes[OF assms] in \<open>simp add: db_demoted_def\<close>)+

lemma demotes_mark_stale [demoting]: "demotes (\<lambda>c. c) (on_db (mark_stale_versions i v))"
  by (rule demotes_on_db) (use set_status_demotes[of "''EXPIRED''"] in \<open>simp add: mark_stale_versions_def db_demoted_def\<close>)

lemma demotes_mem [demoting]:
  "demotes (\<lambda>c. c) (mem_get k)" "demotes (\<lambda>c. c) (mem_pop k)" "demotes (\<lambda>c. c) (modS (\<lambda>c. c\<lparr>cm_memory := []\<rparr>))"
  "st = ''REVOKED'' \<or> st = ''EXPIRED'' \<Longrightarrow> demotes (\<lambda>c. c) (mem_set_status P st)"
  by (auto simp: demotes_def mem_get_def mem_pop_def mem_set_status_def cache_demoted_def db_demoted_same mem_dict_get row_demoted_def split: if_splits)

lemma demotes_invalidate_cache_key [demoting]: "st = ''REVOKED'' \<or> st = ''EXPIRED'' \<Longrightarrow> demotes (\<lambda>c. c) (invalidate_cache_key k st)"
  unfolding invalidate_cache_key_def by (intro demoting)

lemma demotes_invalidations [demoting]:
  assumes "st = ''REVOKED'' \<or> st = ''EXPIRED''"
  shows "demotes (\<lambda>c. c) (invalidate_resolver i st)" "demotes (\<lambda>c. c) (invalidate_root r st)" "demotes (\<lambda>c. c) (invalidate_resolver_key rk st)"
    "demotes (\<lambda>c. c) (invalidate_endpoint_key ek st)" "demotes (\<lambda>c. c) (expire_all st)"
  unfolding invalidate_resolver_def invalidate_root_def invalidate_resolver_key_def invalidate_endpoint_key_def expire_all_def
  using assms by (intro demoting; simp)+

lemma demotes_versions [demoting]:
  "demotes (\<lambda>c. c) (invalidate_object_version i v)" "demotes (\<lambda>c. c) (invalidate_object_version_by_resolver_key rk v)"
  unfolding invalidate_object_version_def invalidate_object_version_by_resolver_key_def by (intro demoting; simp)+

lemma refresh_verdict_status: "refresh_verdict reg row = Ret (Some st) \<Longrightarrow> st = ''REVOKED'' \<or> st = ''EXPIRED''"
  by (auto simp: refresh_verdict_def Let_def split: if_splits)

lemma demotes_refresh_rows: "demotes (\<lambda>c. c) (refresh_rows reg rows counts)"
proof (induction rows arbitrary: counts)
  case (Cons r rows)
  obtain a b c where counts: "counts = (a, b, c)" by (cases counts)
  show ?case
  proof (cases "refresh_verdict reg r")
    case (Inl e)
    then show ?thesis by (simp add: counts demotes_def cache_demoted_refl)
  next
    case (Inr v)
    then show ?thesis using refresh_verdict_status[of reg r] Cons
      by (cases v) (auto simp: counts intro!: demotes_seqS demotes_invalidate_cache_key)
  qed
qed (simp add: demoting)

lemma demotes_refresh [demoting]: "demotes (\<lambda>c. c) (refresh_registry_state reg)"
  unfolding refresh_registry_state_def by (intro demoting demotes_refresh_rows)

lemma demotes_cache_op [demoting]: "demotes (\<lambda>c. c) m \<Longrightarrow> demotes wt_cache (cache_op m)"
  by (auto simp: demotes_def cache_op_def zoomS_def split: prod.splits) (metis snd_conv)

lemma demotes_watcher_audit [demoting]: "demotes wt_cache (watcher_audit wc t p)"
  unfolding watcher_audit_def by (intro demoting)

lemma demotes_apply_event [demoting]: "demotes wt_cache (apply_event wc name args)"
  unfolding apply_event_def resolver_revoked_def root_revoked_def resolver_updated_def endpoint_unbound_def endpoint_bound_def Let_def
  by (intro demoting; simp)

lemma demotes_handle_event [demoting]: "demotes wt_cache (handle_event wc ev)"
  unfolding handle_event_def Let_def by (intro demoting demotes_modS; simp)

lemma demotes_detect [demoting]: "demotes wt_cache (detect_reorg wc nd)"
  unfolding detect_reorg_def by (intro demoting; simp split: prod.splits; intro impI conjI allI demoting)

lemma demotes_poll [demoting]: "demotes wt_cache (poll_web3_events wc nd)"
  unfolding poll_web3_events_def Let_def rollback_for_reorg_def handle_logs_def by (intro demoting demotes_modS; simp)

text \<open>Calls of the watcher in any order; a call that raises leaves the effects it had.\<close>

datatype watcher_call = Handle jdict | Poll node | Reconcile registry_view | Rollback int

fun run_watcher :: "watcher_cfg \<Rightarrow> watcher_call list \<Rightarrow> watcher \<Rightarrow> watcher" where
  "run_watcher wc [] s = s"
| "run_watcher wc (Handle ev # cs) s = run_watcher wc cs (snd (handle_event wc ev s))"
| "run_watcher wc (Poll nd # cs) s = run_watcher wc cs (snd (poll_web3_events wc nd s))"
| "run_watcher wc (Reconcile reg # cs) s = run_watcher wc cs (snd (reconcile_registry_state wc reg s))"
| "run_watcher wc (Rollback b # cs) s = run_watcher wc cs (snd (rollback_for_reorg wc b s))"

lemma demotes_reconcile [demoting]: "demotes wt_cache (reconcile_registry_state wc reg)"
  unfolding reconcile_registry_state_def by (intro demoting; simp split: prod.splits; intro impI conjI allI demoting)

lemma demotes_rollback [demoting]: "demotes wt_cache (rollback_for_reorg wc b)"
  unfolding rollback_for_reorg_def Let_def by (intro demoting demotes_modS; simp)

lemma run_watcher_demotes: "cache_demoted (wt_cache s) (wt_cache (run_watcher wc calls s))"
  by (induction wc calls s rule: run_watcher.induct)
    (auto intro: cache_demoted_refl cache_demoted_trans demoting[unfolded demotes_def, rule_format] simp: demotes_def)

section \<open>Revocation events reach the cache\<close>

definition untrusted :: "cache_row \<Rightarrow> bool" where
  "untrusted r \<longleftrightarrow> cr_status r = ''REVOKED'' \<or> cr_status r = ''EXPIRED''"

definition all_untrusted :: "(cache_row \<Rightarrow> bool) \<Rightarrow> cache_mgr \<Rightarrow> bool" where
  "all_untrusted Q c \<longleftrightarrow> (\<forall>r\<in>set (t_cache (cm_db c)). Q r \<longrightarrow> untrusted r) \<and>
     (\<forall>k r. dict_get (cm_memory c) k = Some r \<and> Q r \<longrightarrow> untrusted r)"

text \<open>The rows a log revokes: by resolver id where the log has one, else by the key of the resolver, or by root.\<close>

definition log_args :: "raw_log \<Rightarrow> jdict" where
  "log_args g = dict_update [] (map (\<lambda>(k, v). (snake_or_original k, normalize_value v)) (rg_args g))"

definition log_revokes :: "raw_log \<Rightarrow> cache_row \<Rightarrow> bool" where
  "log_revokes g r \<longleftrightarrow>
     (let resolver_id = first_of (log_args g) ''resolver_id'' ''resolverId''; rid_key = first_of (log_args g) ''resolver_id_key'' ''resolverIdKey'';
          state_root = first_of (log_args g) ''state_root'' ''stateRoot'' in
      if rg_event g = JStr ''ResolverRevoked''
      then (if truthy resolver_id then resolver_id = JStr (cr_resolver_id r)
            else truthy rid_key \<and> rid_key = jget0 (cr_evidence r) ''resolver_id_key'')
      else rg_event g = JStr ''RootRevoked'' \<and> truthy state_root \<and> state_root = JStr (cr_state_root r))"

definition status_free :: "(cache_row \<Rightarrow> bool) \<Rightarrow> bool" where
  "status_free Q \<longleftrightarrow> (\<forall>r st. Q (r\<lparr>cr_status := st\<rparr>) = Q r)"

lemma row_demoted_keeps: "row_demoted r r' \<Longrightarrow> status_free Q \<Longrightarrow> Q r' = Q r \<and> (untrusted r \<longrightarrow> untrusted r')"
  by (auto simp: row_demoted_def status_free_def untrusted_def)

lemma all_untrusted_demoted:
  assumes "cache_demoted c c'" and "status_free Q" and "all_untrusted Q c"
  shows "all_untrusted Q c'"
  unfolding all_untrusted_def
proof (intro conjI ballI allI impI; (elim conjE)?)
  fix r' assume r': "r' \<in> set (t_cache (cm_db c'))" "Q r'"
  then obtain r where "r \<in> set (t_cache (cm_db c))" "row_demoted r r'"
    using assms(1) unfolding cache_demoted_def db_demoted_def by (metis in_set_conv_nth list_all2_conv_all_nth)
  then show "untrusted r'" using row_demoted_keeps[of r r' Q] assms(2,3) r'(2) by (auto simp: all_untrusted_def)
next
  fix k r' assume r': "dict_get (cm_memory c') k = Some r'" "Q r'"
  then obtain r where "dict_get (cm_memory c) k = Some r" "row_demoted r r'"
    using assms(1) by (auto simp: cache_demoted_def)
  then show "untrusted r'" using row_demoted_keeps[of r r' Q] assms(2,3) r'(2) unfolding all_untrusted_def by blast
qed

lemma all_untrusted_op: "demotes f m \<Longrightarrow> m s = (x, s') \<Longrightarrow> status_free Q \<Longrightarrow> all_untrusted Q (f s) \<Longrightarrow> all_untrusted Q (f s')"
  using all_untrusted_demoted unfolding demotes_def by (metis snd_conv)

lemma set_untrusted: "status_free Q \<Longrightarrow> st = ''REVOKED'' \<or> st = ''EXPIRED'' \<Longrightarrow>
    Q (if Q r then r\<lparr>cr_status := st\<rparr> else r) \<Longrightarrow> untrusted (if Q r then r\<lparr>cr_status := st\<rparr> else r)"
  by (cases "Q r") (auto simp: untrusted_def)

lemma mem_untrusted: "status_free Q \<Longrightarrow> st = ''REVOKED'' \<or> st = ''EXPIRED'' \<Longrightarrow>
    dict_get (map (\<lambda>(k, r). (k, if Q r then r\<lparr>cr_status := st\<rparr> else r)) m) k = Some r \<Longrightarrow> Q r \<Longrightarrow> untrusted r"
  using set_untrusted[of Q st] by (cases "dict_get m k") (auto simp: mem_dict_get simp del: if_split)

lemma rows_untrusted: "status_free Q \<Longrightarrow> st = ''REVOKED'' \<or> st = ''EXPIRED'' \<Longrightarrow>
    r \<in> set (map (\<lambda>r. if Q r then r\<lparr>cr_status := st\<rparr> else r) rows) \<Longrightarrow> Q r \<Longrightarrow> untrusted r"
  by (auto simp: untrusted_def split: if_splits)

lemma invalidated_rows:
  assumes "status_free Q" and "\<And>d. snd (m d) = snd (modS (set_status Q st) d)\<lparr>db_audit_seq := q d, t_audit := a d\<rparr>"
    and "st = ''REVOKED'' \<or> st = ''EXPIRED''" and "seqS b (seqS (mem_set_status Q st) (on_db m)) c = (Ret x, c')"
  shows "all_untrusted Q c'"
proof -
  from assms(4) obtain y c1 where "mem_set_status Q st c1 = (Ret (), c1\<lparr>cm_memory := map (\<lambda>(k, r). (k, if Q r then r\<lparr>cr_status := st\<rparr> else r)) (cm_memory c1)\<rparr>)"
    and "on_db m (c1\<lparr>cm_memory := map (\<lambda>(k, r). (k, if Q r then r\<lparr>cr_status := st\<rparr> else r)) (cm_memory c1)\<rparr>) = (Ret x, c')"
    by (auto simp: seqS_Inr mem_set_status_def)
  then obtain d where "m (cm_db c1) = (Ret x, d)" and c': "cm_db c' = d" "cm_memory c' = map (\<lambda>(k, r). (k, if Q r then r\<lparr>cr_status := st\<rparr> else r)) (cm_memory c1)"
    by (auto simp: on_db_Inr)
  then have "t_cache d = map (\<lambda>r. if Q r then r\<lparr>cr_status := st\<rparr> else r) (t_cache (cm_db c1))"
    using assms(2)[of "cm_db c1"] by (simp add: set_status_def)
  then show ?thesis unfolding all_untrusted_def c'
    by (intro conjI ballI allI impI; (elim conjE)?) (rule rows_untrusted[OF assms(1,3)] mem_untrusted[OF assms(1,3)]; simp only:)+
qed

lemma invalidate_resolver_untrusts: "invalidate_resolver i ''REVOKED'' c = (Ret x, c') \<Longrightarrow> all_untrusted (\<lambda>r. cr_resolver_id r = i) c'"
  unfolding invalidate_resolver_def
  by (rule invalidated_rows[rotated 3], assumption)
    (simp_all add: status_free_def mark_status_by_resolver_def)

lemma invalidate_root_untrusts: "invalidate_root i ''REVOKED'' c = (Ret x, c') \<Longrightarrow> all_untrusted (\<lambda>r. cr_state_root r = i) c'"
  unfolding invalidate_root_def
  by (rule invalidated_rows[rotated 3], assumption)
    (simp_all add: status_free_def mark_status_by_root_def)

lemma invalidate_cache_key_untrusts: "invalidate_cache_key k ''REVOKED'' c = (Ret x, c') \<Longrightarrow> all_untrusted (\<lambda>r. cr_cache_key r = k) c'"
  unfolding invalidate_cache_key_def
  by (rule invalidated_rows[rotated 3], assumption)
    (simp_all add: status_free_def update_status_def)

lemma invalidate_keys_untrusts:
  "forS rows (\<lambda>r. invalidate_cache_key (cr_cache_key r) ''REVOKED'') c = (Ret x, c') \<Longrightarrow> all_untrusted (\<lambda>r. \<exists>r0\<in>set rows. cr_cache_key r = cr_cache_key r0) c'"
proof (induction rows arbitrary: c)
  case (Cons r0 rows)
  then obtain y c1 where c1: "invalidate_cache_key (cr_cache_key r0) ''REVOKED'' c = (Ret y, c1)"
    "forS rows (\<lambda>r. invalidate_cache_key (cr_cache_key r) ''REVOKED'') c1 = (Ret x, c')" by (auto simp: seqS_Inr)
  have "demotes (\<lambda>c. c) (forS rows (\<lambda>r. invalidate_cache_key (cr_cache_key r) ''REVOKED''))" by (intro demoting; simp)
  then have "all_untrusted (\<lambda>r. cr_cache_key r = cr_cache_key r0) c'"
    by (rule all_untrusted_op) (use c1 invalidate_cache_key_untrusts in \<open>auto simp: status_free_def\<close>)
  then show ?case using Cons.IH[OF c1(2)] unfolding all_untrusted_def by fastforce
qed (simp add: all_untrusted_def)

lemma has_rid_key_free: "status_free (has_rid_key k)"
  by (simp add: status_free_def has_rid_key_def)

lemma invalidate_resolver_key_run:
  assumes "invalidate_resolver_key k ''REVOKED'' c = (Ret x, c')"
  obtains c1 where "\<forall>key r. dict_get (cm_memory c1) key = Some r \<and> has_rid_key k r \<longrightarrow> untrusted r"
    and "forS (filter (has_rid_key k) (newest_first (t_cache (cm_db c1)))) (\<lambda>r. invalidate_cache_key (cr_cache_key r) ''REVOKED'') c1 = (Ret x, c')"
proof -
  from assms obtain y c0 where run: "seqS (mem_set_status (has_rid_key k) ''REVOKED'') (bindS (on_db cache_list) (\<lambda>rows.
      forS (filter (has_rid_key k) rows) (\<lambda>r. invalidate_cache_key (cr_cache_key r) ''REVOKED''))) c0 = (Ret x, c')"
    unfolding invalidate_resolver_key_def seqS_Inr by blast
  let ?c1 = "c0\<lparr>cm_memory := map (\<lambda>(k', r). (k', if has_rid_key k r then r\<lparr>cr_status := ''REVOKED''\<rparr> else r)) (cm_memory c0)\<rparr>"
  have "forS (filter (has_rid_key k) (newest_first (t_cache (cm_db ?c1)))) (\<lambda>r. invalidate_cache_key (cr_cache_key r) ''REVOKED'') ?c1 = (Ret x, c')"
    using run by (simp add: mem_set_status_def on_db_def zoomS_def cache_list_def bindS_def del: forS.simps)
  moreover have "\<forall>key r. dict_get (cm_memory ?c1) key = Some r \<and> has_rid_key k r \<longrightarrow> untrusted r"
    using mem_untrusted[OF has_rid_key_free, of "''REVOKED''" k "cm_memory c0"] by (simp; blast)
  ultimately show ?thesis by (rule that[rotated])
qed

lemma invalidate_resolver_key_untrusts:
  assumes "invalidate_resolver_key k ''REVOKED'' c = (Ret x, c')"
  shows "all_untrusted (has_rid_key k) c'"
proof -
  from assms obtain c1 where mem: "\<forall>key r. dict_get (cm_memory c1) key = Some r \<and> has_rid_key k r \<longrightarrow> untrusted r"
    and run: "forS (filter (has_rid_key k) (newest_first (t_cache (cm_db c1)))) (\<lambda>r. invalidate_cache_key (cr_cache_key r) ''REVOKED'') c1 = (Ret x, c')"
    by (rule invalidate_resolver_key_run)
  have dem: "demotes (\<lambda>c. c) (forS (filter (has_rid_key k) (newest_first (t_cache (cm_db c1)))) (\<lambda>r. invalidate_cache_key (cr_cache_key r) ''REVOKED''))"
    by (intro demoting; simp)
  have cd: "cache_demoted c1 c'" using dem run unfolding demotes_def by (metis snd_conv)
  show ?thesis unfolding all_untrusted_def
  proof (intro conjI ballI allI impI; (elim conjE)?)
    fix r' assume r': "r' \<in> set (t_cache (cm_db c'))" "has_rid_key k r'"
    then obtain r where r: "r \<in> set (t_cache (cm_db c1))" "row_demoted r r'"
      using cd unfolding cache_demoted_def db_demoted_def by (metis in_set_conv_nth list_all2_conv_all_nth)
    then have "has_rid_key k r" "cr_cache_key r' = cr_cache_key r"
      using row_demoted_keeps[OF r(2) has_rid_key_free] r'(2) by (auto simp: row_demoted_def)
    then show "untrusted r'" using invalidate_keys_untrusts[OF run] r'(1) r(1) by (auto simp: all_untrusted_def)
  next
    fix key r' assume r': "dict_get (cm_memory c') key = Some r'" "has_rid_key k r'"
    then obtain r where "dict_get (cm_memory c1) key = Some r" "row_demoted r r'" using cd by (auto simp: cache_demoted_def)
    then show "untrusted r'" using mem row_demoted_keeps[OF _ has_rid_key_free] r'(2) by blast
  qed
qed

section \<open>One event and the logs of a poll\<close>

lemma log_revokes_free: "status_free (log_revokes g)"
  by (simp add: status_free_def log_revokes_def)

lemma all_untrusted_mono: "all_untrusted Q c \<Longrightarrow> (\<And>r. P r \<Longrightarrow> Q r) \<Longrightarrow> all_untrusted P c"
  unfolding all_untrusted_def by blast

lemma cache_op_Inr: "cache_op m s = (x, s') \<longleftrightarrow> (\<exists>c. m (wt_cache s) = (x, c) \<and> s' = s\<lparr>wt_cache := c\<rparr>)"
  by (auto simp: cache_op_def zoomS_def split: prod.splits)

lemma as_str_Ret: "as_str j = Ret v \<longleftrightarrow> j = JStr v"
  by (cases j) simp_all

lemma revoked_event_untrusts:
  assumes "resolver_revoked wc args s = (Ret x, s')" and "truthy (first_of args ''resolver_id'' ''resolverId'')"
  shows "all_untrusted (\<lambda>r. first_of args ''resolver_id'' ''resolverId'' = JStr (cr_resolver_id r)) (wt_cache s')"
proof -
  from assms obtain i c where i: "first_of args ''resolver_id'' ''resolverId'' = JStr i" "invalidate_resolver i ''REVOKED'' (wt_cache s) = (Ret x, c)"
    "s' = s\<lparr>wt_cache := c\<rparr>"
    by (auto simp: resolver_revoked_def bindS_Inr as_str_Ret cache_op_Inr Let_def)
  show ?thesis using invalidate_resolver_untrusts[OF i(2)] by (simp add: i eq_commute)
qed

lemma revoked_key_event_untrusts:
  assumes "resolver_revoked wc args s = (Ret x, s')" and "\<not> truthy (first_of args ''resolver_id'' ''resolverId'')"
    and "truthy (first_of args ''resolver_id_key'' ''resolverIdKey'')"
  shows "all_untrusted (\<lambda>r. first_of args ''resolver_id_key'' ''resolverIdKey'' = jget0 (cr_evidence r) ''resolver_id_key'') (wt_cache s')"
proof -
  from assms obtain k c s1 where k: "first_of args ''resolver_id_key'' ''resolverIdKey'' = JStr k"
    and c: "invalidate_resolver_key k ''REVOKED'' (wt_cache s) = (Ret (), c)" "s1 = s\<lparr>wt_cache := c\<rparr>"
    and a: "watcher_audit wc ''WatcherResolverRevokedByKey'' [(''resolver_id_key'', JStr k)] s1 = (Ret x, s')"
    by (auto simp: resolver_revoked_def bindS_Inr seqS_Inr as_str_Ret cache_op_Inr Let_def)
  have "all_untrusted (has_rid_key k) (wt_cache s1)" using invalidate_resolver_key_untrusts[OF c(1)] c(2) by simp
  then have "all_untrusted (has_rid_key k) (wt_cache s')"
    by (rule all_untrusted_op[OF demotes_watcher_audit a has_rid_key_free])
  then show ?thesis by (simp add: k all_untrusted_def has_rid_key_def eq_commute)
qed

lemma root_event_untrusts:
  assumes "root_revoked args s = (Ret x, s')" and "truthy (first_of args ''state_root'' ''stateRoot'')"
  shows "all_untrusted (\<lambda>r. first_of args ''state_root'' ''stateRoot'' = JStr (cr_state_root r)) (wt_cache s')"
proof -
  from assms obtain i c where i: "first_of args ''state_root'' ''stateRoot'' = JStr i" "invalidate_root i ''REVOKED'' (wt_cache s) = (Ret x, c)"
    "s' = s\<lparr>wt_cache := c\<rparr>"
    by (auto simp: root_revoked_def bindS_Inr as_str_Ret cache_op_Inr Let_def)
  show ?thesis using invalidate_root_untrusts[OF i(2)] by (simp add: i eq_commute)
qed

lemma jor_simps: "jor (JObj a) b = (if a = [] then b else JObj a)" "jor JNull b = b"
  by (simp_all add: jor_def)

lemma log_event_parts:
  "first_of (normalize_web3_event g) ''event'' ''event_type'' = jor (rg_event g) JNull"
  "as_dict (jor (jor (jget0 (normalize_web3_event g) ''args'') (jget0 (normalize_web3_event g) ''payload'')) (JObj [])) =
     Ret (log_args g)"
  by (simp_all add: first_of_def normalize_web3_event_def log_args_def jor_simps)

lemma json_int_JInt: "json_int (JInt b) = Ret b"
  by simp

definition log_id :: "raw_log \<Rightarrow> string \<times> int" where
  "log_id g = (py_str (jor (rg_event g) JNull), rg_block_number g * 1000000 + rg_log_index g)"

lemma event_id_log: "event_id (normalize_web3_event g) = Ret (log_id g)"
  by (simp add: event_id_def first_of_def normalize_web3_event_def jor_def log_id_def)

lemma wt_processed_ops:
  "keeps (\<lambda>s. wt_processed s = p) (cache_op m)" "keeps (\<lambda>s. wt_processed s = p) (watcher_audit wc t q)"
  by (auto simp: keeps_def watcher_audit_def cache_op_def zoomS_def split: prod.splits)

lemma apply_event_processed: "keeps (\<lambda>s. wt_processed s = p) (apply_event wc name args)"
  unfolding apply_event_def resolver_revoked_def root_revoked_def resolver_updated_def endpoint_unbound_def endpoint_bound_def Let_def
  by (intro keeps_if keeps_bindS keeps_seqS keeps_basic wt_processed_ops)

lemma handle_event_processed:
  assumes "event_id ev = Ret eid"
  shows "wt_processed (snd (handle_event wc ev s)) = (if eid \<in> set (wt_processed s) then wt_processed s else eid # wt_processed s)"
proof (cases "eid \<in> set (wt_processed s)")
  case False
  let ?s = "s\<lparr>wt_processed := eid # wt_processed s\<rparr>"
  have k: "keeps (\<lambda>s. wt_processed s = p)
     (bindS (liftS (as_dict (jor (jor (jget0 ev ''args'') (jget0 ev ''payload'')) (JObj [])))) (\<lambda>args.
         seqS (apply_event wc (first_of ev ''event'' ''event_type'') args)
         (seqS (if first_of ev ''blockNumber'' ''block_number'' \<noteq> JNull
                then bindS (liftS (json_int (first_of ev ''blockNumber'' ''block_number'')))
                  (\<lambda>b. modS (\<lambda>s. s\<lparr>wt_last_processed_block := max (wt_last_processed_block s) b\<rparr>))
                else retS ())
         (watcher_audit wc (py_str (first_of ev ''event'' ''event_type''))
            [(''args'', JObj args), (''block_number'', first_of ev ''blockNumber'' ''block_number''), (''log_index'', first_of ev ''logIndex'' ''log_index'')]))))" for p
    by (intro keeps_if keeps_bindS keeps_seqS keeps_basic wt_processed_ops apply_event_processed keeps_modS; simp)
  show ?thesis using keepsD[OF k[of "eid # wt_processed s"], of ?s] False by (simp add: handle_event_def Let_def assms)
qed (simp add: handle_event_def assms Let_def)

lemma handled_event_untrusts:
  assumes "handle_event wc (normalize_web3_event g) s = (Ret x, s')" and "log_id g \<notin> set (wt_processed s)"
  shows "all_untrusted (log_revokes g) (wt_cache s')"
proof -
  let ?args = "log_args g"
  let ?rest = "seqS (if first_of (normalize_web3_event g) ''blockNumber'' ''block_number'' \<noteq> JNull
                then bindS (liftS (json_int (first_of (normalize_web3_event g) ''blockNumber'' ''block_number'')))
                  (\<lambda>b. modS (\<lambda>s. s\<lparr>wt_last_processed_block := max (wt_last_processed_block s) b\<rparr>))
                else retS ())
         (watcher_audit wc (py_str (jor (rg_event g) JNull)) [(''args'', JObj ?args),
            (''block_number'', first_of (normalize_web3_event g) ''blockNumber'' ''block_number''), (''log_index'', first_of (normalize_web3_event g) ''logIndex'' ''log_index'')])"
  from assms obtain y s0 s1 where ap: "apply_event wc (jor (rg_event g) JNull) ?args s0 = (Ret y, s1)" and rest: "?rest s1 = (Ret x, s')"
    by (auto simp: handle_event_def Let_def event_id_log log_event_parts seqS_Inr)
  have "all_untrusted (log_revokes g) (wt_cache s1)"
  proof (cases "rg_event g = JStr ''ResolverRevoked''")
    case True
    then have "resolver_revoked wc ?args s0 = (Ret y, s1)" using ap by (simp add: apply_event_def jor_def)
    note ev = this
    consider "truthy (first_of ?args ''resolver_id'' ''resolverId'')"
      | "\<not> truthy (first_of ?args ''resolver_id'' ''resolverId'')" "truthy (first_of ?args ''resolver_id_key'' ''resolverIdKey'')"
      | "\<not> truthy (first_of ?args ''resolver_id'' ''resolverId'')" "\<not> truthy (first_of ?args ''resolver_id_key'' ''resolverIdKey'')" by blast
    then show ?thesis
    proof cases
      case 1
      then show ?thesis using revoked_event_untrusts[OF ev 1] True by (elim all_untrusted_mono) (simp add: log_revokes_def)
    next
      case 2
      then show ?thesis using revoked_key_event_untrusts[OF ev 2] True by (elim all_untrusted_mono) (simp add: log_revokes_def)
    next
      case 3
      then show ?thesis using True by (simp add: log_revokes_def all_untrusted_def)
    qed
  next
    case False
    show ?thesis
    proof (cases "rg_event g = JStr ''RootRevoked''")
      case True
      then have "root_revoked ?args s0 = (Ret y, s1)" using ap by (simp add: apply_event_def jor_def)
      note ev = this
      show ?thesis
      proof (cases "truthy (first_of ?args ''state_root'' ''stateRoot'')")
        case t: True
        show ?thesis using root_event_untrusts[OF ev t] by (rule all_untrusted_mono) (simp add: log_revokes_def Let_def True)
      qed (use True in \<open>simp add: log_revokes_def Let_def all_untrusted_def\<close>)
    qed (use False in \<open>simp add: log_revokes_def Let_def all_untrusted_def\<close>)
  qed
  moreover have "demotes wt_cache ?rest" by (intro demoting demotes_modS; simp)
  ultimately show ?thesis using all_untrusted_op[of wt_cache ?rest s1 _ s' "log_revokes g"] rest log_revokes_free by blast
qed

lemma handled_logs_untrust:
  "forS logs (\<lambda>g. handle_event wc (normalize_web3_event g)) s = (Ret x, s') \<Longrightarrow> \<forall>h\<in>set logs. log_id h = log_id g \<longrightarrow> h = g \<Longrightarrow> g \<in> set logs \<Longrightarrow>
    log_id g \<notin> set (wt_processed s) \<Longrightarrow> all_untrusted (log_revokes g) (wt_cache s')"
proof (induction logs arbitrary: s)
  case (Cons h logs)
  then obtain y s1 where s1: "handle_event wc (normalize_web3_event h) s = (Ret y, s1)"
    "forS logs (\<lambda>g. handle_event wc (normalize_web3_event g)) s1 = (Ret x, s')" by (auto simp: seqS_Inr)
  show ?case
  proof (cases "g = h")
    case True
    then have "all_untrusted (log_revokes g) (wt_cache s1)" using handled_event_untrusts s1(1) Cons.prems(4) by simp
    moreover have "demotes wt_cache (forS logs (\<lambda>g. handle_event wc (normalize_web3_event g)))" by (intro demoting)
    ultimately show ?thesis using all_untrusted_op[of wt_cache _ s1 _ s' "log_revokes g"] s1(2) log_revokes_free by blast
  next
    case False
    then have g: "g \<in> set logs" using Cons.prems(3) by simp
    moreover have "log_id g \<noteq> log_id h" using Cons.prems(2) False by auto
    then have "log_id g \<notin> set (wt_processed s1)"
      using handle_event_processed[OF event_id_log, of wc h s] s1(1) Cons.prems(4) by (auto split: if_splits)
    ultimately show ?thesis using Cons.IH[OF s1(2)] Cons.prems(2) by simp
  qed
qed simp

section \<open>Polls\<close>

lemma keeps_reorg_step:
  assumes "(if reorg then bindS (cache_op (expire_all st)) (\<lambda>expired. seqS (watcher_audit wc t (p expired))
      (bindS (getS wt_last_processed_block) (\<lambda>b. rollback_for_reorg wc b))) else retS ()) s = (Ret x, s1)"
  shows "set (wt_processed s1) \<subseteq> set (wt_processed s)"
proof -
  let ?I = "\<lambda>t. set (wt_processed t) \<subseteq> set (wt_processed s)"
  have ops: "keeps ?I (cache_op m)" "keeps ?I (watcher_audit wc t q)" for m :: "'b cmop" and t q
    by (auto simp: keeps_def watcher_audit_def cache_op_def zoomS_def split: prod.splits)
  have "keeps ?I (if reorg then bindS (cache_op (expire_all st)) (\<lambda>expired. seqS (watcher_audit wc t (p expired))
      (bindS (getS wt_last_processed_block) (\<lambda>b. rollback_for_reorg wc b))) else retS ())"
    unfolding rollback_for_reorg_def Let_def
    by (intro keeps_if keeps_bindS keeps_seqS keeps_basic ops keeps_modS; auto simp: keeps_def watcher_audit_def cache_op_def zoomS_def split: prod.splits)
  from keepsD[OF this, of s] assms show ?thesis by simp
qed

lemma detect_reorg_state: "detect_reorg wc nd s = (x, s') \<Longrightarrow> s' = s"
  by (auto simp: detect_reorg_def bindS_def split: if_splits sum.splits)

lemma poll_run:
  assumes "poll_web3_events wc nd s = (Ret (from_block, to_block, n, reorg), s')" and "0 \<le> to_block" and "from_block \<le> to_block"
    and "map_res (\<lambda>name. logs_with_retry wc nd name from_block to_block) EVENT_NAMES = Ret logss"
  obtains s1 s2 h where "handle_logs wc (concat logss) s1 = (Ret (), s2)" and "set (wt_processed s1) \<subseteq> set (wt_processed s)"
    and "from_block = wt_last_processed_block s1 + 1"
    and "s' = s2\<lparr>wt_last_processed_block := max (wt_last_processed_block s2) to_block, wt_last_seen_block_hash := Some h\<rparr>"
    and "block_hash_with_retry wc nd to_block = Ret h" and "n = length (concat logss)"
proof -
  have to: "to_block = nd_head nd - wc_confirmations wc" 
    using assms(1) by (auto simp: poll_web3_events_def Let_def bindS_Inr seqS_Inr split: if_splits)
  have nn: "\<not> to_block < 0" using assms(2) by simp
  note poll = assms(1)[unfolded poll_web3_events_def Let_def to[symmetric], unfolded if_not_P[OF nn]]
  from poll obtain r s0 where r: "detect_reorg wc nd s = (Ret r, s0)" by (auto simp: bindS_Inr)
  then have s0: "s0 = s" by (rule detect_reorg_state)
  from poll r s0 obtain y s1 where step: "(if r then bindS (cache_op (expire_all ''EXPIRED'')) (\<lambda>expired. seqS (watcher_audit wc ''WatcherReorgCacheQuarantined'' [(''expired'', JInt expired)])
      (bindS (getS wt_last_processed_block) (\<lambda>b. rollback_for_reorg wc b))) else retS ()) s = (Ret y, s1)"
    and rest: "bindS (getS (\<lambda>s. wt_last_processed_block s + 1)) (\<lambda>from_block.
         if to_block < from_block then retS (from_block, to_block, 0, r)
         else bindS (liftS (map_res (\<lambda>name. logs_with_retry wc nd name from_block to_block) EVENT_NAMES)) (\<lambda>logss.
           seqS (handle_logs wc (concat logss))
           (seqS (modS (\<lambda>s. s\<lparr>wt_last_processed_block := max (wt_last_processed_block s) to_block\<rparr>))
           (bindS (liftS (block_hash_with_retry wc nd to_block)) (\<lambda>h.
            seqS (modS (\<lambda>s. s\<lparr>wt_last_seen_block_hash := Some h\<rparr>)) (retS (from_block, to_block, length (concat logss), r))))))) s1
      = (Ret (from_block, to_block, n, reorg), s')"
    unfolding bindS_def[of "detect_reorg wc nd"] r s0 prod.case sum.case seqS_Inr by blast
  have fb: "from_block = wt_last_processed_block s1 + 1" using rest by (auto simp: bindS_Inr seqS_Inr split: if_splits)
  then have "\<not> to_block < wt_last_processed_block s1 + 1" using assms(3) by simp
  with rest obtain z s2 h where "handle_logs wc (concat logss) s1 = (Ret z, s2)"
    "s' = s2\<lparr>wt_last_processed_block := max (wt_last_processed_block s2) to_block, wt_last_seen_block_hash := Some h\<rparr>"
    "block_hash_with_retry wc nd to_block = Ret h" "n = length (concat logss)"
    using assms(4) fb by (auto simp: seqS_Inr bindS_Inr)
  then show ?thesis using that keeps_reorg_step[OF step] fb by simp
qed

text \<open>C7. Revocations that are handled for the first time reach the trusted cache.  Let a poll return for the blocks
  \<open>from_block\<close> to \<open>to_block\<close>, and let \<open>g\<close> be a log the node returned for them whose event id (name, block and log index) is
  not marked as processed and is not shared with another returned log.  Then, if \<open>g\<close> is a \<open>ResolverRevoked\<close> or
  \<open>RootRevoked\<close> log, no row that it names - by resolver id, by the key of the resolver, by root - is trusted any more, neither in the
  database nor in memory, whatever other events the poll handled before or after it; and the next poll begins after \<open>to_block\<close> and
  checks its hash.  A log whose id is already marked, for instance by an earlier handling that raised, is left out here: the
  program never applies it (\<open>event_handled_at_most_once\<close>).\<close>

theorem polled_revocations_apply:
  assumes "poll_web3_events wc nd s = (Ret (from_block, to_block, n, reorg), s')" and "0 \<le> to_block" and "from_block \<le> to_block"
    and "map_res (\<lambda>name. logs_with_retry wc nd name from_block to_block) EVENT_NAMES = Ret logss"
    and "g \<in> set (concat logss)" and "event_id (normalize_web3_event g) = Ret eid" and "eid \<notin> set (wt_processed s)"
    and "\<forall>h\<in>set (concat logss). event_id (normalize_web3_event h) = Ret eid \<longrightarrow> h = g"
  shows "(\<forall>row. log_revokes g row \<and> \<not> untrusted row \<longrightarrow>
       row \<notin> set (t_cache (cm_db (wt_cache s'))) \<and> (\<forall>k. dict_get (cm_memory (wt_cache s')) k \<noteq> Some row)) \<and>
     to_block \<le> wt_last_processed_block s' \<and> (\<exists>h. wt_last_seen_block_hash s' = Some h \<and> block_hash_with_retry wc nd to_block = Ret h)"
proof -
  obtain s1 s2 h where run: "handle_logs wc (concat logss) s1 = (Ret (), s2)" "set (wt_processed s1) \<subseteq> set (wt_processed s)"
    "s' = s2\<lparr>wt_last_processed_block := max (wt_last_processed_block s2) to_block, wt_last_seen_block_hash := Some h\<rparr>"
    "block_hash_with_retry wc nd to_block = Ret h"
    using poll_run[OF assms(1-4)] by metis
  have "log_id g \<notin> set (wt_processed s1)" using assms(6,7) run(2) by (auto simp: event_id_log)
  then have "all_untrusted (log_revokes g) (wt_cache s2)"
    using handled_logs_untrust[OF run(1)[unfolded handle_logs_def]] assms(5,6,8) by (simp add: event_id_log)
  then show ?thesis using run(3,4) unfolding all_untrusted_def by auto
qed

text \<open>C10. The watcher only takes trust away: whatever events it handles, polls it makes of whatever node, reconciliations with
  whatever registry and rollbacks, in any order and failed or not, every row of the cache stays as it was or has become \<open>REVOKED\<close>
  or \<open>EXPIRED\<close>, no row is added, and memory holds nothing that it did not hold before.\<close>

theorem watcher_only_demotes: "cache_demoted (wt_cache s) (wt_cache (run_watcher wc calls s))"
  by (rule run_watcher_demotes)

text \<open>C11. An event is handled at most once, also when handling it failed: a second \<open>handle_event\<close> of the same event returns
  without any effect, because the event is marked as processed before it is applied.  An event whose invalidation raised is
  therefore never applied, although the poll that handles it again succeeds.\<close>

theorem event_handled_at_most_once:
  assumes "event_id ev = Ret eid"
  shows "handle_event wc ev (snd (handle_event wc ev s)) = (Ret (), snd (handle_event wc ev s)) \<and>
    eid \<in> set (wt_processed (snd (handle_event wc ev s)))"
proof -
  have "eid \<in> set (wt_processed (snd (handle_event wc ev s)))" using handle_event_processed[OF assms, of wc s] by (simp split: if_splits)
  then show ?thesis by (simp add: handle_event_def assms Let_def)
qed

text \<open>An event that unbinds an endpoint and carries the endpoint itself fails, and its second delivery is ignored.\<close>

theorem event_handled_at_most_once_witness:
  "let ev = [(''event'', JStr ''EndpointUnbound''), (''args'', JObj [(''endpoint'', JObj [(''transport'', JStr ''udp'')])]), (''blockNumber'', JInt 12)];
       wc = \<lparr>wc_audit = True, wc_confirmations = 1, wc_reorg_safety_blocks = 6, wc_retry_count = 3\<rparr>;
       s = \<lparr>wt_cache = \<lparr>cm_db = empty_db 0, cm_memory = [], cm_owner = ''w''\<rparr>, wt_last_processed_block = 0, wt_last_seen_block_hash = None, wt_processed = []\<rparr>
   in fst (handle_event wc ev s) = Raise (AttributeError ''normalized'') \<and>
      handle_event wc ev (snd (handle_event wc ev s)) = (Ret (), snd (handle_event wc ev s))"
  unfolding Let_def
  by (intro conjI event_handled_at_most_once[THEN conjunct1])
    (simp_all add: event_id_def handle_event_def first_of_def jor_def apply_event_def endpoint_unbound_def bindS_def seqS_def Let_def)

definition demo_watcher_cfg :: watcher_cfg where
  "demo_watcher_cfg = \<lparr>wc_audit = True, wc_confirmations = 1, wc_reorg_safety_blocks = 6, wc_retry_count = 3\<rparr>"

definition demo_log :: raw_log where
  "demo_log = \<lparr>rg_event = JStr ''ResolverRevoked'', rg_args = [(''resolverIdKey'', CBytes [1, 2])], rg_block_number = 5, rg_log_index = 0\<rparr>"

definition demo_node :: node where
  "demo_node = \<lparr>nd_head = 10, nd_block_hash = (\<lambda>k b. Ret (CJson (JStr ''0xaa''))),
     nd_logs = (\<lambda>name k snake from_block to_block.
       if snake then Raise (TypeError ''from_block'') else if name = ''ResolverRevoked'' then Ret [demo_log] else Ret [])\<rparr>"

definition demo_cached :: cache_row where
  "demo_cached = \<lparr>cr_cache_key = ''k'', cr_endpoint_lookup_key = ''e'', cr_resolver_id = ''r'', cr_endpoint = [], cr_object_hash = ''h'',
     cr_object_version = 1, cr_state_root = ''s'', cr_status = ''VERIFIED'', cr_verified_at = '''', cr_soft_expire_at = '''', cr_hard_expire_at = '''',
     cr_evidence = [(''resolver_id_key'', JStr ''0x0102'')]\<rparr>"

definition demo_watcher :: watcher where
  "demo_watcher = \<lparr>wt_cache = \<lparr>cm_db = (empty_db 0)\<lparr>t_cache := [demo_cached]\<rparr>, cm_memory = [(''e'', demo_cached)], cm_owner = ''w''\<rparr>,
     wt_last_processed_block = 0, wt_last_seen_block_hash = None, wt_processed = []\<rparr>"

lemma demo_poll: "fst (poll_web3_events demo_watcher_cfg demo_node demo_watcher) = Ret (1, 9, 1, False)"
  by code_simp

lemma demo_logs: "map_res (\<lambda>name. logs_with_retry demo_watcher_cfg demo_node name 1 9) EVENT_NAMES = Ret [[], [], [demo_log], [], [], []]"
  by code_simp

lemma demo_revoked: "log_revokes demo_log demo_cached \<and> \<not> untrusted demo_cached"
  by code_simp

theorem polled_revocations_apply_witness:
  "\<exists>s'. poll_web3_events demo_watcher_cfg demo_node demo_watcher = (Ret (1, 9, 1, False), s') \<and>
     demo_cached \<in> set (t_cache (cm_db (wt_cache demo_watcher))) \<and> demo_cached \<notin> set (t_cache (cm_db (wt_cache s')))"
proof -
  obtain s' where s': "poll_web3_events demo_watcher_cfg demo_node demo_watcher = (Ret (1, 9, 1, False), s')"
    using demo_poll by (cases "poll_web3_events demo_watcher_cfg demo_node demo_watcher") simp
  have "demo_cached \<notin> set (t_cache (cm_db (wt_cache s')))"
    using polled_revocations_apply[OF s' _ _ demo_logs, of demo_log "log_id demo_log"] demo_revoked
    by (simp add: event_id_log demo_watcher_def)
  then show ?thesis using s' by (simp add: demo_watcher_def)
qed

end
