(* ===== verification/Contract.thy ===== *)
theory Contract
  imports Prelude
begin

text \<open>
  \<open>contracts/src/ResolverIdentityRegistryV1.sol\<close>, the registry contract that the Web3 backend writes to and the
  watcher follows.  A \<open>bytes32\<close> is its list of 32 bytes, \<open>uint64\<close>, \<open>uint256\<close> and \<open>address\<close> are words of
  their width; a mapping is a function whose default is the zero value.  A transaction returns the new state or the
  message of the \<open>require\<close> that reverted it, which leaves the state as it was.  \<open>keccak256\<close>, which names the
  roles, is an argument.
\<close>

section \<open>State\<close>

type_synonym address = "160 word"

definition ZERO32 :: bytes where "ZERO32 = replicate 32 0"

datatype status_code = UNKNOWN | ACTIVE | SUSPENDED | REVOKED | EXPIRED

record chain_anchor =
  ra_resolver_id_key :: bytes
  ra_object_hash :: bytes
  ra_state_root :: bytes
  ra_object_version :: "64 word"
  ra_valid_until :: "64 word"
  ra_status :: status_code

record root_record =
  rr_state_root :: bytes
  rr_status :: status_code
  rr_published_at :: "64 word"
  rr_version :: "64 word"

datatype contract_event =
    RoleGranted bytes address address
  | RoleRevoked bytes address address
  | RootPublished bytes "64 word" "64 word" status_code
  | RootRevoked bytes "64 word"
  | ResolverPublished bytes bytes bytes "64 word" "64 word" status_code
  | ResolverUpdated bytes bytes bytes "64 word" "64 word" status_code
  | ResolverRevoked bytes "64 word" bytes
  | EndpointBound bytes bytes
  | EndpointUnbound bytes bytes

record contract =
  ct_roles :: "bytes \<Rightarrow> address \<Rightarrow> bool"
  ct_endpoints :: "bytes \<Rightarrow> bytes"
  ct_anchors :: "bytes \<Rightarrow> chain_anchor"
  ct_roots :: "bytes \<Rightarrow> root_record"
  ct_admin_count :: "256 word"
  ct_events :: "contract_event list"

record msg =
  msg_sender :: address
  block_timestamp :: "256 word"

definition zero_anchor :: chain_anchor where
  "zero_anchor = \<lparr>ra_resolver_id_key = ZERO32, ra_object_hash = ZERO32, ra_state_root = ZERO32, ra_object_version = 0,
     ra_valid_until = 0, ra_status = UNKNOWN\<rparr>"

definition zero_root :: root_record where
  "zero_root = \<lparr>rr_state_root = ZERO32, rr_status = UNKNOWN, rr_published_at = 0, rr_version = 0\<rparr>"

definition empty_contract :: contract where
  "empty_contract = \<lparr>ct_roles = (\<lambda>_ _. False), ct_endpoints = (\<lambda>_. ZERO32), ct_anchors = (\<lambda>_. zero_anchor),
     ct_roots = (\<lambda>_. zero_root), ct_admin_count = 0, ct_events = []\<rparr>"

section \<open>Transactions\<close>

definition require :: "bool \<Rightarrow> string \<Rightarrow> 'a res \<Rightarrow> 'a res" where
  "require b message k = (if b then k else Raise (RuntimeError message))"

definition emit :: "contract_event \<Rightarrow> contract \<Rightarrow> contract" where
  "emit ev c = c\<lparr>ct_events := ct_events c @ [ev]\<rparr>"

definition DEFAULT_ADMIN_ROLE :: bytes where "DEFAULT_ADMIN_ROLE = ZERO32"

definition ROOT_PUBLISHER_ROLE :: "(string \<Rightarrow> bytes) \<Rightarrow> bytes" where "ROOT_PUBLISHER_ROLE keccak = keccak ''ROOT_PUBLISHER_ROLE''"
definition RESOLVER_PUBLISHER_ROLE :: "(string \<Rightarrow> bytes) \<Rightarrow> bytes" where "RESOLVER_PUBLISHER_ROLE keccak = keccak ''RESOLVER_PUBLISHER_ROLE''"
definition REVOKER_ROLE :: "(string \<Rightarrow> bytes) \<Rightarrow> bytes" where "REVOKER_ROLE keccak = keccak ''REVOKER_ROLE''"
definition ENDPOINT_MANAGER_ROLE :: "(string \<Rightarrow> bytes) \<Rightarrow> bytes" where "ENDPOINT_MANAGER_ROLE keccak = keccak ''ENDPOINT_MANAGER_ROLE''"

definition hasRole :: "contract \<Rightarrow> bytes \<Rightarrow> address \<Rightarrow> bool" where
  "hasRole c role account = ct_roles c role account"

definition only_role :: "bytes \<Rightarrow> msg \<Rightarrow> contract \<Rightarrow> 'a res \<Rightarrow> 'a res" where
  "only_role role m c k = require (hasRole c role (msg_sender m)) ''missing role'' k"

definition set_role :: "bytes \<Rightarrow> address \<Rightarrow> bool \<Rightarrow> contract \<Rightarrow> contract" where
  "set_role role account b c = c\<lparr>ct_roles := (ct_roles c)(role := (ct_roles c role)(account := b))\<rparr>"

text \<open>Solidity 0.8 reverts on overflow of \<open>adminCount += 1\<close>.\<close>

definition internal_grantRole :: "bytes \<Rightarrow> address \<Rightarrow> address \<Rightarrow> contract \<Rightarrow> contract res" where
  "internal_grantRole role account sender c =
     (if hasRole c role account then Ret c
      else if role = DEFAULT_ADMIN_ROLE
      then require (ct_admin_count c < ct_admin_count c + 1) ''panic''
        (Ret (emit (RoleGranted role account sender) ((set_role role account True c)\<lparr>ct_admin_count := ct_admin_count c + 1\<rparr>)))
      else Ret (emit (RoleGranted role account sender) (set_role role account True c)))"

definition contract_constructor :: "(string \<Rightarrow> bytes) \<Rightarrow> msg \<Rightarrow> address \<Rightarrow> contract res" where
  "contract_constructor keccak m initialAdmin =
     require (initialAdmin \<noteq> 0) ''admin required''
     (bind_res (internal_grantRole DEFAULT_ADMIN_ROLE initialAdmin (msg_sender m) empty_contract) (\<lambda>c.
      bind_res (internal_grantRole (ROOT_PUBLISHER_ROLE keccak) initialAdmin (msg_sender m) c) (\<lambda>c.
      bind_res (internal_grantRole (RESOLVER_PUBLISHER_ROLE keccak) initialAdmin (msg_sender m) c) (\<lambda>c.
      bind_res (internal_grantRole (REVOKER_ROLE keccak) initialAdmin (msg_sender m) c) (\<lambda>c.
      internal_grantRole (ENDPOINT_MANAGER_ROLE keccak) initialAdmin (msg_sender m) c)))))"

definition grantRole :: "msg \<Rightarrow> bytes \<Rightarrow> address \<Rightarrow> contract \<Rightarrow> contract res" where
  "grantRole m role account c =
     only_role DEFAULT_ADMIN_ROLE m c (require (account \<noteq> 0) ''account required'' (internal_grantRole role account (msg_sender m) c))"

definition revokeRole :: "msg \<Rightarrow> bytes \<Rightarrow> address \<Rightarrow> contract \<Rightarrow> contract res" where
  "revokeRole m role account c =
     only_role DEFAULT_ADMIN_ROLE m c (require (ct_roles c role account) ''role not granted''
     (if role = DEFAULT_ADMIN_ROLE
      then require (1 < ct_admin_count c) ''last admin required''
        (Ret (emit (RoleRevoked role account (msg_sender m)) ((set_role role account False c)\<lparr>ct_admin_count := ct_admin_count c - 1\<rparr>)))
      else Ret (emit (RoleRevoked role account (msg_sender m)) (set_role role account False c))))"

definition publishRoot :: "(string \<Rightarrow> bytes) \<Rightarrow> msg \<Rightarrow> bytes \<Rightarrow> 64 word \<Rightarrow> contract \<Rightarrow> contract res" where
  "publishRoot keccak m stateRoot version c =
     only_role (ROOT_PUBLISHER_ROLE keccak) m c
     (require (stateRoot \<noteq> ZERO32) ''root required''
     (require (rr_status (ct_roots c stateRoot) \<noteq> REVOKED) ''root permanently revoked''
     (require (rr_version (ct_roots c stateRoot) < version) ''version must increase''
     (Ret (emit (RootPublished stateRoot version (ucast (block_timestamp m)) ACTIVE)
        (c\<lparr>ct_roots := (ct_roots c)(stateRoot := \<lparr>rr_state_root = stateRoot, rr_status = ACTIVE,
            rr_published_at = ucast (block_timestamp m), rr_version = version\<rparr>)\<rparr>))))))"

definition revokeRoot :: "(string \<Rightarrow> bytes) \<Rightarrow> msg \<Rightarrow> bytes \<Rightarrow> contract \<Rightarrow> contract res" where
  "revokeRoot keccak m stateRoot c =
     only_role (REVOKER_ROLE keccak) m c
     (require (rr_state_root (ct_roots c stateRoot) \<noteq> ZERO32) ''missing root''
     (Ret (emit (RootRevoked stateRoot (rr_version (ct_roots c stateRoot)))
        (c\<lparr>ct_roots := (ct_roots c)(stateRoot := (ct_roots c stateRoot)\<lparr>rr_status := REVOKED\<rparr>)\<rparr>))))"

definition validateAnchorInput :: "msg \<Rightarrow> chain_anchor \<Rightarrow> contract \<Rightarrow> 'a res \<Rightarrow> 'a res" where
  "validateAnchorInput m a c k =
     require (ra_resolver_id_key a \<noteq> ZERO32) ''resolver id required''
     (require (ra_object_hash a \<noteq> ZERO32) ''object hash required''
     (require (ra_state_root a \<noteq> ZERO32) ''root required''
     (require (0 < ra_object_version a) ''version required''
     (require (block_timestamp m < ucast (ra_valid_until a)) ''invalid validUntil''
     (require (ra_status a = ACTIVE \<or> ra_status a = SUSPENDED) ''invalid status''
     (require (rr_status (ct_roots c (ra_state_root a)) = ACTIVE) ''root not active'' k))))))"

definition store_anchor :: "chain_anchor \<Rightarrow> contract \<Rightarrow> contract" where
  "store_anchor a c = c\<lparr>ct_anchors := (ct_anchors c)(ra_resolver_id_key a := a)\<rparr>"

definition publishResolver :: "(string \<Rightarrow> bytes) \<Rightarrow> msg \<Rightarrow> chain_anchor \<Rightarrow> contract \<Rightarrow> contract res" where
  "publishResolver keccak m a c =
     only_role (RESOLVER_PUBLISHER_ROLE keccak) m c
     (validateAnchorInput m a c
     (require (ra_object_version (ct_anchors c (ra_resolver_id_key a)) = 0) ''already exists''
     (Ret (emit (ResolverPublished (ra_resolver_id_key a) (ra_object_hash a) (ra_state_root a) (ra_object_version a) (ra_valid_until a) (ra_status a))
        (store_anchor a c)))))"

definition updateResolver :: "(string \<Rightarrow> bytes) \<Rightarrow> msg \<Rightarrow> chain_anchor \<Rightarrow> contract \<Rightarrow> contract res" where
  "updateResolver keccak m a c =
     only_role (RESOLVER_PUBLISHER_ROLE keccak) m c
     (validateAnchorInput m a c
     (require (ra_object_version (ct_anchors c (ra_resolver_id_key a)) \<noteq> 0) ''missing resolver''
     (require (ra_status (ct_anchors c (ra_resolver_id_key a)) \<noteq> REVOKED) ''resolver permanently revoked''
     (require (ra_object_version (ct_anchors c (ra_resolver_id_key a)) < ra_object_version a) ''version must increase''
     (Ret (emit (ResolverUpdated (ra_resolver_id_key a) (ra_object_hash a) (ra_state_root a) (ra_object_version a) (ra_valid_until a) (ra_status a))
        (store_anchor a c)))))))"

definition revokeResolver :: "(string \<Rightarrow> bytes) \<Rightarrow> msg \<Rightarrow> bytes \<Rightarrow> contract \<Rightarrow> contract res" where
  "revokeResolver keccak m resolverIdKey c =
     only_role (REVOKER_ROLE keccak) m c
     (require (resolverIdKey \<noteq> ZERO32) ''resolver id required''
     (require (ra_object_version (ct_anchors c resolverIdKey) \<noteq> 0) ''missing resolver''
     (Ret (emit (ResolverRevoked resolverIdKey (ra_object_version (ct_anchors c resolverIdKey)) (ra_state_root (ct_anchors c resolverIdKey)))
        (c\<lparr>ct_anchors := (ct_anchors c)(resolverIdKey := (ct_anchors c resolverIdKey)\<lparr>ra_status := REVOKED\<rparr>)\<rparr>)))))"

definition bindEndpoint :: "(string \<Rightarrow> bytes) \<Rightarrow> msg \<Rightarrow> bytes \<Rightarrow> bytes \<Rightarrow> contract \<Rightarrow> contract res" where
  "bindEndpoint keccak m endpointKey resolverIdKey c =
     only_role (ENDPOINT_MANAGER_ROLE keccak) m c
     (require (endpointKey \<noteq> ZERO32) ''endpoint required''
     (require (resolverIdKey \<noteq> ZERO32) ''resolver id required''
     (let anchor = ct_anchors c resolverIdKey; existing = ct_endpoints c endpointKey in
      require (ra_object_version anchor \<noteq> 0) ''missing resolver''
     (require (ra_status anchor = ACTIVE \<or> ra_status anchor = SUSPENDED) ''resolver not bindable''
     (require (block_timestamp m < ucast (ra_valid_until anchor)) ''resolver expired''
     (require (existing = ZERO32 \<or> existing = resolverIdKey) ''endpoint conflict''
     (Ret (emit (EndpointBound endpointKey resolverIdKey)
        (c\<lparr>ct_endpoints := (ct_endpoints c)(endpointKey := resolverIdKey)\<rparr>)))))))))"

definition unbindEndpoint :: "(string \<Rightarrow> bytes) \<Rightarrow> msg \<Rightarrow> bytes \<Rightarrow> contract \<Rightarrow> contract res" where
  "unbindEndpoint keccak m endpointKey c =
     only_role (ENDPOINT_MANAGER_ROLE keccak) m c
     (require (endpointKey \<noteq> ZERO32) ''endpoint required''
     (require (ct_endpoints c endpointKey \<noteq> ZERO32) ''missing endpoint''
     (Ret (emit (EndpointUnbound endpointKey (ct_endpoints c endpointKey))
        (c\<lparr>ct_endpoints := (ct_endpoints c)(endpointKey := ZERO32)\<rparr>)))))"

section \<open>Calls and histories\<close>

datatype contract_call =
    GrantRole bytes address
  | RevokeRole bytes address
  | PublishRoot bytes "64 word"
  | RevokeRoot bytes
  | PublishResolver chain_anchor
  | UpdateResolver chain_anchor
  | RevokeResolver bytes
  | BindEndpoint bytes bytes
  | UnbindEndpoint bytes

fun execute :: "(string \<Rightarrow> bytes) \<Rightarrow> msg \<Rightarrow> contract_call \<Rightarrow> contract \<Rightarrow> contract res" where
  "execute keccak m (GrantRole role account) c = grantRole m role account c"
| "execute keccak m (RevokeRole role account) c = revokeRole m role account c"
| "execute keccak m (PublishRoot r v) c = publishRoot keccak m r v c"
| "execute keccak m (RevokeRoot r) c = revokeRoot keccak m r c"
| "execute keccak m (PublishResolver a) c = publishResolver keccak m a c"
| "execute keccak m (UpdateResolver a) c = updateResolver keccak m a c"
| "execute keccak m (RevokeResolver k) c = revokeResolver keccak m k c"
| "execute keccak m (BindEndpoint e k) c = bindEndpoint keccak m e k c"
| "execute keccak m (UnbindEndpoint e) c = unbindEndpoint keccak m e c"

text \<open>The states of a deployed contract: any account may send any transaction, those that revert change nothing.\<close>

inductive contract_step :: "(string \<Rightarrow> bytes) \<Rightarrow> contract \<Rightarrow> contract \<Rightarrow> bool" for keccak where
  step: "execute keccak m call c = Ret c' \<Longrightarrow> contract_step keccak c c'"

inductive deployed :: "(string \<Rightarrow> bytes) \<Rightarrow> contract \<Rightarrow> bool" for keccak where
  deploy: "contract_constructor keccak m admin = Ret c \<Longrightarrow> deployed keccak c"
| next_state: "deployed keccak c \<Longrightarrow> contract_step keccak c c' \<Longrightarrow> deployed keccak c'"

section \<open>What every transaction keeps\<close>

lemma require_Ret [simp]: "require b message k = Ret x \<longleftrightarrow> b \<and> k = Ret x"
  by (simp add: require_def)

lemma only_role_Ret [simp]: "only_role role m c k = Ret x \<longleftrightarrow> hasRole c role (msg_sender m) \<and> k = Ret x"
  by (simp add: only_role_def)

lemma validate_Ret [simp]: "validateAnchorInput m a c k = Ret x \<longleftrightarrow> ra_resolver_id_key a \<noteq> ZERO32 \<and> ra_object_hash a \<noteq> ZERO32 \<and>
    ra_state_root a \<noteq> ZERO32 \<and> 0 < ra_object_version a \<and> block_timestamp m < ucast (ra_valid_until a) \<and>
    (ra_status a = ACTIVE \<or> ra_status a = SUSPENDED) \<and> rr_status (ct_roots c (ra_state_root a)) = ACTIVE \<and> k = Ret x"
  by (auto simp: validateAnchorInput_def)

lemma emit_simps [simp]:
  "ct_roles (emit ev c) = ct_roles c" "ct_endpoints (emit ev c) = ct_endpoints c" "ct_anchors (emit ev c) = ct_anchors c"
  "ct_roots (emit ev c) = ct_roots c" "ct_admin_count (emit ev c) = ct_admin_count c" "ct_events (emit ev c) = ct_events c @ [ev]"
  by (simp_all add: emit_def)

lemma set_role_simps [simp]:
  "ct_endpoints (set_role r a b c) = ct_endpoints c" "ct_anchors (set_role r a b c) = ct_anchors c" "ct_roots (set_role r a b c) = ct_roots c"
  "ct_admin_count (set_role r a b c) = ct_admin_count c" "ct_events (set_role r a b c) = ct_events c"
  "ct_roles (set_role r a b c) = (ct_roles c)(r := (ct_roles c r)(a := b))"
  by (simp_all add: set_role_def)

lemma store_anchor_simps [simp]:
  "ct_endpoints (store_anchor a c) = ct_endpoints c" "ct_roles (store_anchor a c) = ct_roles c" "ct_roots (store_anchor a c) = ct_roots c"
  "ct_admin_count (store_anchor a c) = ct_admin_count c" "ct_events (store_anchor a c) = ct_events c"
  "ct_anchors (store_anchor a c) = (ct_anchors c)(ra_resolver_id_key a := a)"
  by (simp_all add: store_anchor_def)

definition admins :: "contract \<Rightarrow> address set" where
  "admins c = {a. ct_roles c DEFAULT_ADMIN_ROLE a}"

definition admins_counted :: "contract \<Rightarrow> bool" where
  "admins_counted c \<longleftrightarrow> unat (ct_admin_count c) = card (admins c) \<and> admins c \<noteq> {}"

text \<open>Every record of the contract is either the zero value or complete, is stored under its own key and refers to
  records that exist.\<close>

definition anchor_complete :: "(bytes \<Rightarrow> root_record) \<Rightarrow> bytes \<Rightarrow> chain_anchor \<Rightarrow> bool" where
  "anchor_complete roots k a \<longleftrightarrow> a = zero_anchor \<or>
     (ra_resolver_id_key a = k \<and> k \<noteq> ZERO32 \<and> ra_object_hash a \<noteq> ZERO32 \<and> ra_object_version a \<noteq> 0 \<and>
      ra_status a \<in> {ACTIVE, SUSPENDED, REVOKED} \<and> rr_state_root (roots (ra_state_root a)) \<noteq> ZERO32)"

definition root_complete :: "bytes \<Rightarrow> root_record \<Rightarrow> bool" where
  "root_complete r rec \<longleftrightarrow> rec = zero_root \<or>
     (rr_state_root rec = r \<and> r \<noteq> ZERO32 \<and> rr_version rec \<noteq> 0 \<and> rr_status rec \<in> {ACTIVE, REVOKED})"

definition records_complete :: "contract \<Rightarrow> bool" where
  "records_complete c \<longleftrightarrow> (\<forall>k. anchor_complete (ct_roots c) k (ct_anchors c k)) \<and> (\<forall>r. root_complete r (ct_roots c r)) \<and>
     (\<forall>e. ct_endpoints c e \<noteq> ZERO32 \<longrightarrow> e \<noteq> ZERO32 \<and> ra_object_version (ct_anchors c (ct_endpoints c e)) \<noteq> 0)"

lemma unat_inc: "(x :: 'a :: len word) < x + 1 \<Longrightarrow> unat (x + 1) = unat x + 1"
proof -
  assume "x < x + 1"
  then have "1 + x \<noteq> 0" by (auto simp: add.commute[of 1])
  then show ?thesis using unatSuc[of x] by (simp add: add.commute)
qed

lemma unat_dec: "(1 :: 'a :: len word) < x \<Longrightarrow> unat (x - 1) = unat x - 1"
  by (simp add: unat_sub word_less_nat_alt word_le_nat_alt)

lemma card_admins: "card (admins c) < 2 ^ 256"
proof -
  have "card (admins c) \<le> card (UNIV :: address set)" by (rule card_mono) simp_all
  also have "\<dots> = 2 ^ 160" by (simp add: card_word)
  finally show ?thesis by simp
qed

lemma admins_after_grant: "admins (emit ev ((set_role DEFAULT_ADMIN_ROLE a True c)\<lparr>ct_admin_count := n\<rparr>)) = insert a (admins c)"
  "admins (emit ev ((set_role DEFAULT_ADMIN_ROLE a False c)\<lparr>ct_admin_count := n\<rparr>)) = admins c - {a}"
  by (auto simp: admins_def)

lemma admins_other: "r \<noteq> DEFAULT_ADMIN_ROLE \<Longrightarrow> admins (emit ev (set_role r a b c)) = admins c"
  by (simp add: admins_def)

lemma finite_admins [simp]: "finite (admins c)"
  by simp

lemma internal_grant_counted:
  assumes "internal_grantRole role a sender c = Ret c'" and "unat (ct_admin_count c) = card (admins c)"
  shows "unat (ct_admin_count c') = card (admins c') \<and> admins c \<subseteq> admins c'"
proof (cases "role = DEFAULT_ADMIN_ROLE \<and> \<not> hasRole c role a")
  case True
  then have c': "c' = emit (RoleGranted role a sender) ((set_role role a True c)\<lparr>ct_admin_count := ct_admin_count c + 1\<rparr>)" "ct_admin_count c < ct_admin_count c + 1"
    using assms(1) by (auto simp: internal_grantRole_def)
  have "a \<notin> admins c" using True by (auto simp: admins_def hasRole_def)
  then have "card (admins c') = Suc (card (admins c))" using True c' by (simp add: admins_after_grant)
  moreover have "unat (ct_admin_count c + 1) = unat (ct_admin_count c) + 1" using c'(2) by (rule unat_inc)
  ultimately show ?thesis using c' True assms(2) by (auto simp: admins_after_grant)
next
  case False
  then show ?thesis using assms by (auto simp: internal_grantRole_def admins_other split: if_splits)
qed

lemma internal_grant_rest:
  "internal_grantRole role a sender c = Ret c' \<Longrightarrow> ct_anchors c' = ct_anchors c \<and> ct_roots c' = ct_roots c \<and> ct_endpoints c' = ct_endpoints c \<and>
    (\<exists>es. ct_events c' = ct_events c @ es)"
  by (auto simp: internal_grantRole_def split: if_splits)

lemma constructor_state:
  assumes "contract_constructor keccak m admin = Ret c"
  shows "admins_counted c \<and> ct_anchors c = (\<lambda>_. zero_anchor) \<and> ct_roots c = (\<lambda>_. zero_root) \<and> ct_endpoints c = (\<lambda>_. ZERO32)"
proof -
  from assms obtain c1 c2 c3 c4 where g: "internal_grantRole DEFAULT_ADMIN_ROLE admin (msg_sender m) empty_contract = Ret c1"
    "internal_grantRole (ROOT_PUBLISHER_ROLE keccak) admin (msg_sender m) c1 = Ret c2" "internal_grantRole (RESOLVER_PUBLISHER_ROLE keccak) admin (msg_sender m) c2 = Ret c3"
    "internal_grantRole (REVOKER_ROLE keccak) admin (msg_sender m) c3 = Ret c4" "internal_grantRole (ENDPOINT_MANAGER_ROLE keccak) admin (msg_sender m) c4 = Ret c"
    unfolding contract_constructor_def by auto
  have "unat (ct_admin_count empty_contract) = card (admins empty_contract)" by (simp add: empty_contract_def admins_def)
  note a1 = internal_grant_counted[OF g(1) this]
  note a2 = internal_grant_counted[OF g(2) a1[THEN conjunct1]]
  note a3 = internal_grant_counted[OF g(3) a2[THEN conjunct1]]
  note a4 = internal_grant_counted[OF g(4) a3[THEN conjunct1]]
  note a5 = internal_grant_counted[OF g(5) a4[THEN conjunct1]]
  have "admin \<in> admins c1" using g(1) by (auto simp: internal_grantRole_def hasRole_def empty_contract_def admins_def)
  then show ?thesis
    using a2 a3 a4 a5 internal_grant_rest[OF g(1)] internal_grant_rest[OF g(2)] internal_grant_rest[OF g(3)] internal_grant_rest[OF g(4)] internal_grant_rest[OF g(5)]
    unfolding admins_counted_def by (auto simp: empty_contract_def)
qed

lemma revokeRole_counted:
  assumes "revokeRole m role a c = Ret c'" and "admins_counted c"
  shows "admins_counted c'"
proof (cases "role = DEFAULT_ADMIN_ROLE")
  case True
  then have a: "a \<in> admins c" "1 < ct_admin_count c"
    and c': "c' = emit (RoleRevoked DEFAULT_ADMIN_ROLE a (msg_sender m)) ((set_role DEFAULT_ADMIN_ROLE a False c)\<lparr>ct_admin_count := ct_admin_count c - 1\<rparr>)"
    using assms(1) by (auto simp: revokeRole_def admins_def)
  have "card (admins c') = card (admins c) - 1" using a(1) by (simp add: c' admins_after_grant)
  moreover have "1 < card (admins c)" using a(2) assms(2) by (simp add: admins_counted_def word_less_nat_alt)
  ultimately have "0 < card (admins c')" "unat (ct_admin_count c') = card (admins c')"
    using assms(2) unat_dec[OF a(2)] by (simp_all add: admins_counted_def c')
  then show ?thesis unfolding admins_counted_def by (auto simp: card_gt_0_iff)
next
  case False
  then have "c' = emit (RoleRevoked role a (msg_sender m)) (set_role role a False c)" using assms(1) by (auto simp: revokeRole_def)
  then show ?thesis using assms(2) False by (simp add: admins_counted_def admins_other)
qed

lemma execute_counted:
  assumes "execute keccak m call c = Ret c'" and "admins_counted c"
  shows "admins_counted c'"
proof (cases call)
  case (GrantRole role a)
  then show ?thesis using assms internal_grant_counted[of role a "msg_sender m" c c'] by (auto simp: grantRole_def admins_counted_def)
next
  case (RevokeRole role a)
  then show ?thesis using assms revokeRole_counted by simp
qed (use assms in \<open>auto simp: admins_counted_def admins_def publishRoot_def revokeRoot_def publishResolver_def updateResolver_def
       revokeResolver_def bindEndpoint_def unbindEndpoint_def Let_def\<close>)

lemma zero_records [simp]: "ra_object_version zero_anchor = 0" "ra_status zero_anchor = UNKNOWN" "rr_state_root zero_root = ZERO32" "rr_status zero_root = UNKNOWN" "rr_version zero_root = 0"
  by (simp_all add: zero_anchor_def zero_root_def)

lemma anchor_complete_roots:
  "anchor_complete roots k a \<Longrightarrow> (\<And>r. rr_state_root (roots r) \<noteq> ZERO32 \<Longrightarrow> rr_state_root (roots' r) \<noteq> ZERO32) \<Longrightarrow> anchor_complete roots' k a"
  by (auto simp: anchor_complete_def)

lemma complete_new_root:
  assumes "records_complete c" and "root_complete r rec" and "rr_state_root rec \<noteq> ZERO32"
  shows "records_complete (c\<lparr>ct_roots := (ct_roots c)(r := rec)\<rparr>)"
proof -
  have "anchor_complete ((ct_roots c)(r := rec)) k a" if "anchor_complete (ct_roots c) k a" for k a
    by (rule anchor_complete_roots[OF that]) (simp add: assms(3))
  then show ?thesis using assms(1,2) by (simp add: records_complete_def)
qed

lemma complete_new_anchor:
  assumes "records_complete c" and "anchor_complete (ct_roots c) k a" and "ra_object_version a \<noteq> 0"
  shows "records_complete (c\<lparr>ct_anchors := (ct_anchors c)(k := a)\<rparr>)"
  using assms unfolding records_complete_def by auto

lemma complete_emit [simp]: "records_complete (emit ev c) = records_complete c"
  by (simp add: records_complete_def)

lemma root_published: "records_complete c \<Longrightarrow> rr_status (ct_roots c r) = ACTIVE \<Longrightarrow> rr_state_root (ct_roots c r) \<noteq> ZERO32"
  unfolding records_complete_def root_complete_def by (metis status_code.distinct(1) zero_records(4))

lemma execute_complete:
  assumes "execute keccak m call c = Ret c'" and "records_complete c"
  shows "records_complete c'"
proof (cases call)
  case (GrantRole role a)
  then show ?thesis using assms internal_grant_rest[of role a "msg_sender m" c c'] by (auto simp: grantRole_def records_complete_def)
next
  case (RevokeRole role a)
  then show ?thesis using assms by (auto simp: revokeRole_def records_complete_def split: if_splits)
next
  case (PublishRoot r v)
  then show ?thesis using assms by (auto simp: publishRoot_def root_complete_def word_less_nat_alt intro!: complete_new_root)
next
  case (RevokeRoot r)
  then have c': "c' = emit (RootRevoked r (rr_version (ct_roots c r))) (c\<lparr>ct_roots := (ct_roots c)(r := (ct_roots c r)\<lparr>rr_status := REVOKED\<rparr>)\<rparr>)"
    "rr_state_root (ct_roots c r) \<noteq> ZERO32" using assms(1) by (auto simp: revokeRoot_def)
  have "root_complete r (ct_roots c r)" using assms(2) by (simp add: records_complete_def)
  then have "root_complete r ((ct_roots c r)\<lparr>rr_status := REVOKED\<rparr>)" using c'(2) by (auto simp: root_complete_def)
  then show ?thesis using complete_new_root[OF assms(2)] c' by simp
next
  case (PublishResolver a)
  then show ?thesis using assms root_published[OF assms(2), of "ra_state_root a"]
    by (auto simp: publishResolver_def anchor_complete_def store_anchor_def intro!: complete_new_anchor)
next
  case (UpdateResolver a)
  then show ?thesis using assms root_published[OF assms(2), of "ra_state_root a"]
    by (auto simp: updateResolver_def anchor_complete_def store_anchor_def intro!: complete_new_anchor)
next
  case (RevokeResolver k)
  then have c': "c' = emit (ResolverRevoked k (ra_object_version (ct_anchors c k)) (ra_state_root (ct_anchors c k)))
      (c\<lparr>ct_anchors := (ct_anchors c)(k := (ct_anchors c k)\<lparr>ra_status := REVOKED\<rparr>)\<rparr>)" "ra_object_version (ct_anchors c k) \<noteq> 0"
    using assms(1) by (auto simp: revokeResolver_def)
  have "anchor_complete (ct_roots c) k (ct_anchors c k)" using assms(2) by (simp add: records_complete_def)
  then have "anchor_complete (ct_roots c) k ((ct_anchors c k)\<lparr>ra_status := REVOKED\<rparr>)" using c'(2) by (auto simp: anchor_complete_def)
  then show ?thesis using complete_new_anchor[OF assms(2)] c' by simp
next
  case (BindEndpoint e k)
  then have c': "c' = emit (EndpointBound e k) (c\<lparr>ct_endpoints := (ct_endpoints c)(e := k)\<rparr>)" and e: "e \<noteq> ZERO32" "ra_object_version (ct_anchors c k) \<noteq> 0"
    using assms(1) by (simp_all add: bindEndpoint_def Let_def)
  show ?thesis unfolding c' using e assms(2) by (simp add: records_complete_def)
next
  case (UnbindEndpoint e)
  then have c': "c' = emit (EndpointUnbound e (ct_endpoints c e)) (c\<lparr>ct_endpoints := (ct_endpoints c)(e := ZERO32)\<rparr>)"
    using assms(1) by (simp add: unbindEndpoint_def)
  show ?thesis unfolding c' using assms(2) by (simp add: records_complete_def)
qed

lemma deployed_keeps: "deployed keccak c \<Longrightarrow> admins_counted c \<and> records_complete c"
proof (induction rule: deployed.induct)
  case (deploy m admin c)
  then show ?case using constructor_state[OF deploy] by (simp add: records_complete_def anchor_complete_def root_complete_def)
next
  case (next_state c c')
  then show ?case by (auto elim!: contract_step.cases intro: execute_counted execute_complete)
qed

definition demo_keccak :: "string \<Rightarrow> bytes" where
  "demo_keccak s = replicate 31 7 @ [of_nat (length s)]"

definition demo_msg :: msg where "demo_msg = \<lparr>msg_sender = 1, block_timestamp = 1700000000\<rparr>"

definition demo_key :: bytes where "demo_key = replicate 32 3"

definition demo_txs :: "(msg \<times> contract_call) list" where
  "demo_txs = map (Pair demo_msg) [PublishRoot (replicate 32 9) 1,
     PublishResolver \<lparr>ra_resolver_id_key = demo_key, ra_object_hash = replicate 32 4, ra_state_root = replicate 32 9, ra_object_version = 3,
       ra_valid_until = 1800000000, ra_status = ACTIVE\<rparr>, BindEndpoint (replicate 32 5) demo_key]"

definition demo_revocation :: "(msg \<times> contract_call) list" where
  "demo_revocation = map (Pair demo_msg) [RevokeResolver demo_key,
     UpdateResolver \<lparr>ra_resolver_id_key = demo_key, ra_object_hash = replicate 32 4, ra_state_root = replicate 32 9, ra_object_version = 4,
       ra_valid_until = 1800000000, ra_status = ACTIVE\<rparr>]"

text \<open>Any number of transactions; one that reverts leaves the state.\<close>

fun run_contract :: "(string \<Rightarrow> bytes) \<Rightarrow> (msg \<times> contract_call) list \<Rightarrow> contract \<Rightarrow> contract" where
  "run_contract keccak [] c = c"
| "run_contract keccak ((m, call) # txs) c = run_contract keccak txs (case execute keccak m call c of Inl _ \<Rightarrow> c | Inr c' \<Rightarrow> c')"

lemma deployed_execute: "deployed keccak c \<Longrightarrow> execute keccak m call c = Ret c' \<Longrightarrow> deployed keccak c'"
  by (rule deployed.next_state, assumption) (rule contract_step.step)

lemma run_deployed: "deployed keccak c \<Longrightarrow> deployed keccak (run_contract keccak txs c)"
  by (induction keccak txs c rule: run_contract.induct) (auto split: sum.splits dest: deployed_execute)

text \<open>C14. The registry contract keeps its records in order: in every state that a deployed contract can reach, at least one account is
  administrator and \<open>adminCount\<close> is their number, every resolver anchor and every root is either absent or complete and
  stored under its own key, an anchor refers to a root that was published, and a bound endpoint refers to a published resolver.\<close>

theorem deployed_contract_invariant:
  assumes "deployed keccak c"
  shows "admins_counted c \<and> records_complete c"
  using deployed_keeps[OF assms] .

lemma demo_deploys: "\<exists>c. contract_constructor demo_keccak demo_msg 1 = Ret c \<and>
    ct_endpoints (run_contract demo_keccak demo_txs c) (replicate 32 5) = demo_key"
proof -
  have "(case contract_constructor demo_keccak demo_msg 1 of Inl _ \<Rightarrow> False
    | Inr c \<Rightarrow> ct_endpoints (run_contract demo_keccak demo_txs c) (replicate 32 5) = demo_key)" by code_simp
  then show ?thesis by (auto split: sum.splits)
qed

theorem deployed_contract_invariant_witness:
  "\<exists>c. ct_endpoints c (replicate 32 5) = demo_key \<and> admins_counted c \<and> records_complete c"
proof -
  obtain c where c: "contract_constructor demo_keccak demo_msg 1 = Ret c" "ct_endpoints (run_contract demo_keccak demo_txs c) (replicate 32 5) = demo_key"
    using demo_deploys by blast
  show ?thesis using c(2) deployed_contract_invariant[OF run_deployed[OF deployed.deploy[OF c(1)]], of demo_txs] by blast
qed

section \<open>Revocation is permanent\<close>

definition no_rollback :: "contract \<Rightarrow> contract \<Rightarrow> bool" where
  "no_rollback c c' \<longleftrightarrow>
     (\<forall>k. ra_object_version (ct_anchors c k) \<le> ra_object_version (ct_anchors c' k) \<and>
        (ra_status (ct_anchors c k) = REVOKED \<longrightarrow> ct_anchors c' k = ct_anchors c k) \<and>
        (ra_object_version (ct_anchors c k) = ra_object_version (ct_anchors c' k) \<longrightarrow>
           ct_anchors c' k = ct_anchors c k \<or> ct_anchors c' k = (ct_anchors c k)\<lparr>ra_status := REVOKED\<rparr>)) \<and>
     (\<forall>r. rr_version (ct_roots c r) \<le> rr_version (ct_roots c' r) \<and> (rr_status (ct_roots c r) = REVOKED \<longrightarrow> ct_roots c' r = ct_roots c r)) \<and>
     (\<exists>es. ct_events c' = ct_events c @ es)"

lemma revoked_idem: "ra_status a = REVOKED \<Longrightarrow> a\<lparr>ra_status := REVOKED\<rparr> = a" "rr_status r = REVOKED \<Longrightarrow> r\<lparr>rr_status := REVOKED\<rparr> = r"
  by simp_all

lemma execute_no_rollback:
  assumes "execute keccak m call c = Ret c'" and "records_complete c"
  shows "no_rollback c c'"
proof (cases call)
  case (GrantRole role a)
  then show ?thesis using assms internal_grant_rest[of role a "msg_sender m" c c'] by (auto simp: grantRole_def no_rollback_def)
next
  case (RevokeRole role a)
  then show ?thesis using assms by (auto simp: revokeRole_def no_rollback_def split: if_splits)
next
  case (PublishRoot r v)
  then show ?thesis using assms by (auto simp: publishRoot_def no_rollback_def)
next
  case (RevokeRoot r)
  then show ?thesis using assms by (auto simp: revokeRoot_def no_rollback_def revoked_idem)
next
  case (PublishResolver a)
  then have "ct_anchors c (ra_resolver_id_key a) = zero_anchor" "0 < ra_object_version a"
    using assms by (auto simp: publishResolver_def records_complete_def anchor_complete_def)
  then show ?thesis using PublishResolver assms(1) by (auto simp: publishResolver_def no_rollback_def)
next
  case (UpdateResolver a)
  then show ?thesis using assms by (auto simp: updateResolver_def no_rollback_def)
next
  case (RevokeResolver k)
  then have "c' = emit (ResolverRevoked k (ra_object_version (ct_anchors c k)) (ra_state_root (ct_anchors c k)))
      (c\<lparr>ct_anchors := (ct_anchors c)(k := (ct_anchors c k)\<lparr>ra_status := REVOKED\<rparr>)\<rparr>)" using assms(1) by (simp add: revokeResolver_def)
  then show ?thesis by (simp add: no_rollback_def)
next
  case (BindEndpoint e k)
  then show ?thesis using assms by (auto simp: bindEndpoint_def no_rollback_def Let_def)
next
  case (UnbindEndpoint e)
  then show ?thesis using assms by (auto simp: unbindEndpoint_def no_rollback_def)
qed

lemma no_rollback_refl: "no_rollback c c"
  by (simp add: no_rollback_def)

lemma no_rollback_trans: "no_rollback a b \<Longrightarrow> no_rollback b c \<Longrightarrow> no_rollback a c"
proof -
  assume ab: "no_rollback a b" and bc: "no_rollback b c"
  have "ra_object_version (ct_anchors a k) \<le> ra_object_version (ct_anchors c k) \<and>
      (ra_status (ct_anchors a k) = REVOKED \<longrightarrow> ct_anchors c k = ct_anchors a k) \<and>
      (ra_object_version (ct_anchors a k) = ra_object_version (ct_anchors c k) \<longrightarrow>
        ct_anchors c k = ct_anchors a k \<or> ct_anchors c k = (ct_anchors a k)\<lparr>ra_status := REVOKED\<rparr>)" for k
  proof -
    have v: "ra_object_version (ct_anchors a k) \<le> ra_object_version (ct_anchors b k)" "ra_object_version (ct_anchors b k) \<le> ra_object_version (ct_anchors c k)"
      and r: "ra_status (ct_anchors a k) = REVOKED \<Longrightarrow> ct_anchors b k = ct_anchors a k" "ra_status (ct_anchors b k) = REVOKED \<Longrightarrow> ct_anchors c k = ct_anchors b k"
      and e: "ra_object_version (ct_anchors a k) = ra_object_version (ct_anchors b k) \<Longrightarrow> ct_anchors b k = ct_anchors a k \<or> ct_anchors b k = (ct_anchors a k)\<lparr>ra_status := REVOKED\<rparr>"
      "ra_object_version (ct_anchors b k) = ra_object_version (ct_anchors c k) \<Longrightarrow> ct_anchors c k = ct_anchors b k \<or> ct_anchors c k = (ct_anchors b k)\<lparr>ra_status := REVOKED\<rparr>"
      using ab bc by (simp_all add: no_rollback_def)
    have eq: "ra_object_version (ct_anchors a k) = ra_object_version (ct_anchors b k) \<and> ra_object_version (ct_anchors b k) = ra_object_version (ct_anchors c k)"
      if "ra_object_version (ct_anchors a k) = ra_object_version (ct_anchors c k)"
      using v that by (metis order_antisym)
    have "ct_anchors c k = ct_anchors a k \<or> ct_anchors c k = (ct_anchors a k)\<lparr>ra_status := REVOKED\<rparr>"
      if "ra_object_version (ct_anchors a k) = ra_object_version (ct_anchors c k)"
      using e(1)[OF eq[OF that, THEN conjunct1]] e(2)[OF eq[OF that, THEN conjunct2]] by (elim disjE) simp_all
    moreover have "ct_anchors c k = ct_anchors a k" if "ra_status (ct_anchors a k) = REVOKED" using r(1)[OF that] r(2) that by simp
    ultimately show ?thesis using order_trans[OF v] by blast
  qed
  moreover have "rr_version (ct_roots a r) \<le> rr_version (ct_roots c r) \<and> (rr_status (ct_roots a r) = REVOKED \<longrightarrow> ct_roots c r = ct_roots a r)" for r
    using ab bc unfolding no_rollback_def by (metis order_trans)
  moreover have "\<exists>es. ct_events c = ct_events a @ es" using ab bc by (auto simp: no_rollback_def)
  ultimately show ?thesis unfolding no_rollback_def by blast
qed

lemma run_contract_keeps:
  "records_complete c \<Longrightarrow> records_complete (run_contract keccak txs c) \<and> no_rollback c (run_contract keccak txs c)"
proof (induction keccak txs c rule: run_contract.induct)
  case (2 keccak m call txs c)
  then show ?case using execute_complete[of keccak m call c] execute_no_rollback[of keccak m call c]
    by (auto split: sum.splits intro: no_rollback_trans no_rollback_refl)
qed (simp add: no_rollback_refl)

text \<open>C13. Nothing comes back on the chain: from a state of a deployed contract, whatever transactions follow, sent by whatever
  accounts, object versions of resolvers and versions of roots never decrease, an anchor changes without a higher version only by being
  revoked, a revoked resolver and a revoked root keep exactly the record they have, and events are only added.\<close>

theorem contract_never_rolls_back:
  assumes "deployed keccak c"
  shows "no_rollback c (run_contract keccak txs c)"
  using run_contract_keeps deployed_keeps[OF assms] by blast

lemma demo_revokes: "\<exists>c. contract_constructor demo_keccak demo_msg 1 = Ret c \<and>
    ra_object_version (ct_anchors (run_contract demo_keccak demo_revocation (run_contract demo_keccak demo_txs c)) demo_key) = 3 \<and>
    ra_status (ct_anchors (run_contract demo_keccak demo_revocation (run_contract demo_keccak demo_txs c)) demo_key) = REVOKED"
proof -
  have "(case contract_constructor demo_keccak demo_msg 1 of Inl _ \<Rightarrow> False
    | Inr c \<Rightarrow> ra_object_version (ct_anchors (run_contract demo_keccak demo_revocation (run_contract demo_keccak demo_txs c)) demo_key) = 3 \<and>
      ra_status (ct_anchors (run_contract demo_keccak demo_revocation (run_contract demo_keccak demo_txs c)) demo_key) = REVOKED)" by code_simp
  then show ?thesis by (auto split: sum.splits)
qed

text \<open>A resolver is published, bound and revoked; the later update reverts, and no history brings it back.\<close>

theorem contract_never_rolls_back_witness:
  "\<exists>c. ra_status (ct_anchors c demo_key) = REVOKED \<and> ra_object_version (ct_anchors c demo_key) = 3 \<and>
     (\<forall>txs. ct_anchors (run_contract demo_keccak txs c) demo_key = ct_anchors c demo_key)"
proof -
  obtain c where c: "contract_constructor demo_keccak demo_msg 1 = Ret c"
    "ra_object_version (ct_anchors (run_contract demo_keccak demo_revocation (run_contract demo_keccak demo_txs c)) demo_key) = 3"
    "ra_status (ct_anchors (run_contract demo_keccak demo_revocation (run_contract demo_keccak demo_txs c)) demo_key) = REVOKED"
    using demo_revokes by blast
  note d = run_deployed[OF run_deployed[OF deployed.deploy[OF c(1)]], of demo_revocation demo_txs]
  have "\<forall>txs. ct_anchors (run_contract demo_keccak txs (run_contract demo_keccak demo_revocation (run_contract demo_keccak demo_txs c))) demo_key =
      ct_anchors (run_contract demo_keccak demo_revocation (run_contract demo_keccak demo_txs c)) demo_key"
    using contract_never_rolls_back[OF d] c(3) by (simp add: no_rollback_def)
  then show ?thesis using c(2,3) by blast
qed

end
