(* ===== verification/Web3Backend.thy ===== *)
theory Web3Backend
  imports Registry Contract
begin

text \<open>
  \<open>chain/web3_backend.py\<close>: the registry on a chain, behind the interface of \<open>chain/backend.py\<close>.  The Web3 library, the
  node, the account library, the environment and the files are arguments; an \<open>OSError\<close> of a read is written as
  \<open>ValueError\<close>, which the program treats alike where it handles it.  The last sections relate the backend, over a node
  that runs the contract of theory Contract, to the SQLite registry of theory Registry.
\<close>

section \<open>Configuration, node and signer\<close>

record web3_config =
  w3_contract_address :: string
  w3_expected_chain_id :: int
  w3_private_key_env :: "string option"
  w3_private_key_file :: "string option"
  w3_keystore_file :: "string option"
  w3_keystore_password_file :: "string option"
  w3_sender_address :: "string option"
  w3_expected_code_hash :: "string option"

text \<open>A call of a contract function, with the arguments that are passed to the encoder of the library.\<close>

datatype contract_fn =
    FnPublishRoot bytes int
  | FnRevokeRoot bytes
  | FnPublishResolver bytes bytes bytes int int int
  | FnUpdateResolver bytes bytes bytes int int int
  | FnRevokeResolver bytes
  | FnBindEndpoint bytes bytes
  | FnUnbindEndpoint bytes

record web3_tx =
  tx_from :: string
  tx_nonce :: int
  tx_chain_id :: int
  tx_function :: contract_fn

type_synonym receipt = "(string, chain_value) dict"

text \<open>The node over a chain state \<open>'c\<close>.  \<open>n_send\<close> builds, signs and sends a transaction, \<open>n_transact\<close> leaves the signing
  to the node; the flag of \<open>n_nonce\<close> and \<open>n_wait\<close> says whether the optional argument is passed.\<close>

record 'c web3_node =
  n_chain_id :: int
  n_is_address :: "string \<Rightarrow> bool"
  n_code :: "string \<Rightarrow> bytes"
  n_keccak_hex :: "bytes \<Rightarrow> string"
  n_checksum :: "string \<Rightarrow> string res"
  n_nonce :: "'c \<Rightarrow> string \<Rightarrow> bool \<Rightarrow> int res"
  n_send :: "web3_tx \<Rightarrow> 'c \<Rightarrow> bytes res \<times> 'c"
  n_transact :: "string \<Rightarrow> contract_fn \<Rightarrow> 'c \<Rightarrow> bytes res \<times> 'c"
  n_wait :: "bytes \<Rightarrow> bool \<Rightarrow> 'c \<Rightarrow> receipt res"
  n_anchor :: "'c \<Rightarrow> bytes \<Rightarrow> raw_anchor res"
  n_root_status :: "'c \<Rightarrow> bytes \<Rightarrow> json res"
  n_root_record :: "'c \<Rightarrow> bytes \<Rightarrow> chain_value list res"
  n_endpoint :: "'c \<Rightarrow> bytes \<Rightarrow> chain_value res"

datatype secret = SecretText string | SecretBytes bytes

text \<open>A private file: its mode, and its text or the exception that reading it raises.\<close>

record private_file =
  pf_mode :: "nat option"
  pf_text :: "string res"

record signer_env =
  se_files :: "string \<Rightarrow> private_file"
  se_environ :: "string \<Rightarrow> string option"
  se_decrypt :: "string \<Rightarrow> string \<Rightarrow> secret res"
  se_address :: "secret \<Rightarrow> string res"

definition truthy_text :: "string option \<Rightarrow> bool" where
  "truthy_text v \<longleftrightarrow> v \<noteq> None \<and> v \<noteq> Some []"

definition web3_error :: "string \<Rightarrow> 'a res" where
  "web3_error message = Raise (RuntimeError (''Web3RegistryError: '' @ message))"

section \<open>Construction\<close>

definition normalize_hex_hash :: "string \<Rightarrow> string" where
  "normalize_hex_hash value = (let v = py_lower value in if starts_with v ''0x'' then v else ''0x'' @ v)"

text \<open>\<open>Web3RegistryBackend.__init__\<close>; the result is the code hash it stores.\<close>

definition web3_connect :: "web3_config \<Rightarrow> 'c web3_node \<Rightarrow> string res" where
  "web3_connect cfg nd =
     (if n_chain_id nd \<noteq> w3_expected_chain_id cfg then web3_error ''chain_id mismatch''
      else if \<not> n_is_address nd (w3_contract_address cfg) then web3_error ''invalid contract address''
      else if n_code nd (w3_contract_address cfg) = [] then web3_error ''contract address has no code''
      else let actual = normalize_hex_hash (n_keccak_hex nd (n_code nd (w3_contract_address cfg))) in
        if truthy_text (w3_expected_code_hash cfg) \<and> actual \<noteq> normalize_hex_hash (the (w3_expected_code_hash cfg))
        then web3_error ''contract code hash mismatch''
        else bind_res (n_checksum nd (w3_contract_address cfg)) (\<lambda>_. Ret actual))"

section \<open>Reading\<close>

definition key_bytes :: "string \<Rightarrow> bytes res" where
  "key_bytes s = bytes32_to_bytes (CJson (JStr s))"

definition web3_get_resolver_anchor :: "'c web3_node \<Rightarrow> 'c \<Rightarrow> string \<Rightarrow> anchor option res" where
  "web3_get_resolver_anchor nd c rid_key =
     bind_res (key_bytes rid_key) (\<lambda>k. bind_res (n_anchor nd c k) (\<lambda>v. decode_anchor (Some v)))"

definition web3_get_root_status :: "'c web3_node \<Rightarrow> 'c \<Rightarrow> string \<Rightarrow> string option res" where
  "web3_get_root_status nd c state_root =
     bind_res (key_bytes state_root) (\<lambda>r. bind_res (n_root_status nd c r) (\<lambda>v. bind_res (decode_status v) (\<lambda>s. Ret (Some s))))"

record root_entry =
  re_state_root :: string
  re_status :: string
  re_published_at :: int
  re_version :: int

definition tuple_item :: "chain_value list \<Rightarrow> nat \<Rightarrow> chain_value res" where
  "tuple_item vs i = (if i < length vs then Ret (vs ! i) else Raise (IndexError ''tuple index out of range''))"

definition web3_get_root_record :: "'c web3_node \<Rightarrow> 'c \<Rightarrow> string \<Rightarrow> root_entry option res" where
  "web3_get_root_record nd c state_root =
     bind_res (key_bytes state_root) (\<lambda>r. bind_res (n_root_record nd c r) (\<lambda>v.
     bind_res (tuple_item v 0) (\<lambda>v0. bind_res (normalize_bytes32 v0) (\<lambda>root. bind_res (py_int16 root) (\<lambda>z.
     if z = 0 then Ret None
     else bind_res (tuple_item v 1) (\<lambda>v1. bind_res (cv_status v1) (\<lambda>st.
          bind_res (tuple_item v 2) (\<lambda>v2. bind_res (cv_int v2) (\<lambda>at.
          bind_res (tuple_item v 3) (\<lambda>v3. bind_res (cv_int v3) (\<lambda>ver.
          Ret (Some \<lparr>re_state_root = root, re_status = st, re_published_at = at, re_version = ver\<rparr>))))))))))))"

definition web3_get_endpoint_binding :: "'c web3_node \<Rightarrow> 'c \<Rightarrow> string \<Rightarrow> string option res" where
  "web3_get_endpoint_binding nd c endpoint_key =
     bind_res (key_bytes endpoint_key) (\<lambda>e. bind_res (n_endpoint nd c e) (\<lambda>v.
     bind_res (normalize_bytes32 v) (\<lambda>s. bind_res (py_int16 s) (\<lambda>z. Ret (if z = 0 then None else Some s)))))"

definition web3_view :: "'c web3_node \<Rightarrow> 'c \<Rightarrow> registry_view" where
  "web3_view nd c = \<lparr>rv_binding = web3_get_endpoint_binding nd c, rv_anchor = web3_get_resolver_anchor nd c, rv_root = web3_get_root_status nd c\<rparr>"

section \<open>The signer\<close>

text \<open>\<open>0o077\<close> is 63.\<close>

definition require_private_permissions :: "private_file \<Rightarrow> string \<Rightarrow> unit res" where
  "require_private_permissions f label =
     (case pf_mode f of
        None \<Rightarrow> web3_error (label @ '' file is not readable'')
      | Some mode \<Rightarrow> if mode AND 63 \<noteq> 0 then web3_error (label @ '' file must not be accessible by group or others'') else Ret ())"

definition rstrip_newlines :: "string \<Rightarrow> string" where
  "rstrip_newlines = rstrip_while (\<lambda>c. c = CHR 0x0D \<or> c = CHR 0x0A)"

text \<open>The keystore branch; \<open>OSError\<close> and \<open>ValueError\<close> of the reads and of the decryption become a registry error.\<close>

definition keystore_secret :: "signer_env \<Rightarrow> string \<Rightarrow> string \<Rightarrow> secret res" where
  "keystore_secret env keystore_path password_path =
     (case bind_res (pf_text (se_files env keystore_path)) (\<lambda>keystore.
           bind_res (pf_text (se_files env password_path)) (\<lambda>password. se_decrypt env keystore (rstrip_newlines password))) of
        Inr s \<Rightarrow> Ret s
      | Inl (ValueError _) \<Rightarrow> web3_error ''failed to decrypt transaction keystore''
      | Inl e \<Rightarrow> Raise e)"

definition secret_present :: "secret option \<Rightarrow> bool" where
  "secret_present s = (case s of None \<Rightarrow> False | Some (SecretText t) \<Rightarrow> t \<noteq> [] | Some (SecretBytes b) \<Rightarrow> b \<noteq> [])"

definition private_key :: "web3_config \<Rightarrow> signer_env \<Rightarrow> secret option res" where
  "private_key cfg env =
     (if truthy_text (w3_keystore_file cfg)
      then if \<not> truthy_text (w3_keystore_password_file cfg) then web3_error ''keystore password file is required''
           else bind_res (require_private_permissions (se_files env (the (w3_keystore_file cfg))) ''keystore'') (\<lambda>_.
                bind_res (require_private_permissions (se_files env (the (w3_keystore_password_file cfg))) ''keystore password'') (\<lambda>_.
                bind_res (keystore_secret env (the (w3_keystore_file cfg)) (the (w3_keystore_password_file cfg))) (\<lambda>s. Ret (Some s))))
      else if truthy_text (w3_private_key_file cfg)
      then bind_res (require_private_permissions (se_files env (the (w3_private_key_file cfg))) ''private key'') (\<lambda>_.
           bind_res (pf_text (se_files env (the (w3_private_key_file cfg)))) (\<lambda>t. Ret (Some (SecretText (py_strip t)))))
      else if truthy_text (w3_private_key_env cfg)
      then Ret (map_option SecretText (se_environ env (the (w3_private_key_env cfg))))
      else Ret None)"

text \<open>\<open>_account\<close>; the result is the address of the account.\<close>

definition signer_account :: "web3_config \<Rightarrow> 'c web3_node \<Rightarrow> signer_env \<Rightarrow> string res" where
  "signer_account cfg nd env =
     bind_res (private_key cfg env) (\<lambda>s.
     if \<not> secret_present s then web3_error ''write operation requires a configured signer''
     else bind_res (se_address env (the s)) (\<lambda>address.
       if truthy_text (w3_sender_address cfg)
       then bind_res (n_checksum nd (the (w3_sender_address cfg))) (\<lambda>expected.
            if address \<noteq> expected then web3_error ''configured sender address does not match signer'' else Ret address)
       else Ret address))"

section \<open>Writing\<close>

definition normalize_receipt :: "receipt \<Rightarrow> receipt" where
  "normalize_receipt r = dict_update [] (map (\<lambda>(k, v). (k, case v of CBytes b \<Rightarrow> CJson (JStr (''0x'' @ hex_of_bytes b)) | CJson j \<Rightarrow> CJson j)) r)"

definition wait_for_receipt :: "'c web3_node \<Rightarrow> bytes \<Rightarrow> ('c, receipt) op" where
  "wait_for_receipt nd h c = (case n_wait nd h True c of Inl (TypeError _) \<Rightarrow> (n_wait nd h False c, c) | r \<Rightarrow> (r, c))"

definition receipt_status :: "receipt \<Rightarrow> int res" where
  "receipt_status r = cv_int (case dict_get r ''status'' of None \<Rightarrow> CJson (JInt 0) | Some v \<Rightarrow> v)"

definition checked_receipt :: "receipt \<Rightarrow> receipt res" where
  "checked_receipt r = bind_res (receipt_status r) (\<lambda>s. if s \<noteq> 1 then web3_error ''transaction receipt status != 1'' else Ret (normalize_receipt r))"

definition account_nonce :: "'c web3_node \<Rightarrow> 'c \<Rightarrow> string \<Rightarrow> int res" where
  "account_nonce nd c address = (case n_nonce nd c address True of Inl (TypeError _) \<Rightarrow> n_nonce nd c address False | r \<Rightarrow> r)"

definition transact :: "web3_config \<Rightarrow> 'c web3_node \<Rightarrow> signer_env \<Rightarrow> contract_fn \<Rightarrow> ('c, receipt) op" where
  "transact cfg nd env f =
     (if truthy_text (w3_sender_address cfg) \<and> \<not> truthy_text (w3_private_key_env cfg) \<and> \<not> truthy_text (w3_private_key_file cfg) \<and>
         \<not> truthy_text (w3_keystore_file cfg)
      then bindS (liftS (n_checksum nd (the (w3_sender_address cfg)))) (\<lambda>sender.
           bindS (n_transact nd sender f) (\<lambda>h. bindS (wait_for_receipt nd h) (\<lambda>r. liftS (checked_receipt r))))
      else bindS (liftS (signer_account cfg nd env)) (\<lambda>address.
           bindS (\<lambda>c. (account_nonce nd c address, c)) (\<lambda>nonce.
           bindS (n_send nd \<lparr>tx_from = address, tx_nonce = nonce, tx_chain_id = w3_expected_chain_id cfg, tx_function = f\<rparr>) (\<lambda>h.
           bindS (wait_for_receipt nd h) (\<lambda>r. liftS (checked_receipt r))))))"

text \<open>The calls of the registry interface; their arguments are evaluated before anything is sent.\<close>

datatype registry_op =
    OpPublishRoot string string int
  | OpRevokeRoot string
  | OpPublishResolver string string string int int json
  | OpUpdateResolver string string string int int json
  | OpRevokeResolver string
  | OpBindEndpoint string string
  | OpUnbindEndpoint string

definition anchor_args :: "string \<Rightarrow> string \<Rightarrow> string \<Rightarrow> json \<Rightarrow> (bytes \<Rightarrow> bytes \<Rightarrow> bytes \<Rightarrow> int \<Rightarrow> contract_fn) \<Rightarrow> contract_fn res" where
  "anchor_args rid_key obj_hash state_root status mk =
     bind_res (key_bytes rid_key) (\<lambda>k. bind_res (key_bytes obj_hash) (\<lambda>h. bind_res (key_bytes state_root) (\<lambda>r.
     bind_res (encode_status status) (\<lambda>st. Ret (mk k h r st)))))"

fun registry_fn :: "registry_op \<Rightarrow> contract_fn res" where
  "registry_fn (OpPublishRoot state_root status version) =
     (if py_upper status \<noteq> ''ACTIVE'' then web3_error ''publish_root only supports ACTIVE; use revoke_root for revocation''
      else bind_res (key_bytes state_root) (\<lambda>r. Ret (FnPublishRoot r version)))"
| "registry_fn (OpRevokeRoot state_root) = bind_res (key_bytes state_root) (\<lambda>r. Ret (FnRevokeRoot r))"
| "registry_fn (OpPublishResolver rid_key obj_hash state_root object_version valid_until status) =
     anchor_args rid_key obj_hash state_root status (\<lambda>k h r st. FnPublishResolver k h r object_version valid_until st)"
| "registry_fn (OpUpdateResolver rid_key obj_hash state_root object_version valid_until status) =
     anchor_args rid_key obj_hash state_root status (\<lambda>k h r st. FnUpdateResolver k h r object_version valid_until st)"
| "registry_fn (OpRevokeResolver rid_key) = bind_res (key_bytes rid_key) (\<lambda>k. Ret (FnRevokeResolver k))"
| "registry_fn (OpBindEndpoint endpoint_key rid_key) =
     bind_res (key_bytes endpoint_key) (\<lambda>e. bind_res (key_bytes rid_key) (\<lambda>k. Ret (FnBindEndpoint e k)))"
| "registry_fn (OpUnbindEndpoint endpoint_key) = bind_res (key_bytes endpoint_key) (\<lambda>e. Ret (FnUnbindEndpoint e))"

definition web3_write :: "web3_config \<Rightarrow> 'c web3_node \<Rightarrow> signer_env \<Rightarrow> registry_op \<Rightarrow> ('c, receipt) op" where
  "web3_write cfg nd env op' = bindS (liftS (registry_fn op')) (transact cfg nd env)"

section \<open>A node that runs the registry contract\<close>

definition hex32 :: "bytes \<Rightarrow> string" where "hex32 b = ''0x'' @ hex_of_bytes b"

text \<open>The encoder of the library takes 32 bytes for \<open>bytes32\<close>, integers in range for \<open>uint64\<close>, and the numbers of the enum.\<close>

definition status_codes :: "status_code list" where
  "status_codes = [UNKNOWN, ACTIVE, SUSPENDED, REVOKED, EXPIRED]"

fun status_id :: "status_code \<Rightarrow> int" where
  "status_id UNKNOWN = 0" | "status_id ACTIVE = 1" | "status_id SUSPENDED = 2" | "status_id REVOKED = 3" | "status_id EXPIRED = 4"

fun status_text :: "status_code \<Rightarrow> string" where
  "status_text UNKNOWN = ''UNKNOWN''" | "status_text ACTIVE = ''ACTIVE''" | "status_text SUSPENDED = ''SUSPENDED''"
| "status_text REVOKED = ''REVOKED''" | "status_text EXPIRED = ''EXPIRED''"

definition is_uint64 :: "int \<Rightarrow> bool" where "is_uint64 i \<longleftrightarrow> 0 \<le> i \<and> i < 2 ^ 64"

definition abi_anchor :: "bytes \<Rightarrow> bytes \<Rightarrow> bytes \<Rightarrow> int \<Rightarrow> int \<Rightarrow> int \<Rightarrow> chain_anchor option" where
  "abi_anchor k h r v u st =
     (if length k = 32 \<and> length h = 32 \<and> length r = 32 \<and> is_uint64 v \<and> is_uint64 u \<and> 0 \<le> st \<and> st < 5
      then Some \<lparr>ra_resolver_id_key = k, ra_object_hash = h, ra_state_root = r, ra_object_version = word_of_int v,
             ra_valid_until = word_of_int u, ra_status = status_codes ! nat st\<rparr>
      else None)"

fun abi_call :: "contract_fn \<Rightarrow> contract_call option" where
  "abi_call (FnPublishRoot r v) = (if length r = 32 \<and> is_uint64 v then Some (PublishRoot r (word_of_int v)) else None)"
| "abi_call (FnRevokeRoot r) = (if length r = 32 then Some (RevokeRoot r) else None)"
| "abi_call (FnPublishResolver k h r v u st) = map_option PublishResolver (abi_anchor k h r v u st)"
| "abi_call (FnUpdateResolver k h r v u st) = map_option UpdateResolver (abi_anchor k h r v u st)"
| "abi_call (FnRevokeResolver k) = (if length k = 32 then Some (RevokeResolver k) else None)"
| "abi_call (FnBindEndpoint e k) = (if length e = 32 \<and> length k = 32 then Some (BindEndpoint e k) else None)"
| "abi_call (FnUnbindEndpoint e) = (if length e = 32 then Some (UnbindEndpoint e) else None)"

definition anchor_tuple :: "chain_anchor \<Rightarrow> raw_anchor" where
  "anchor_tuple a = RawTuple [CBytes (ra_resolver_id_key a), CBytes (ra_object_hash a), CBytes (ra_state_root a),
     CJson (JInt (uint (ra_object_version a))), CJson (JInt (uint (ra_valid_until a))), CJson (JInt (status_id (ra_status a)))]"

definition executed :: "(string \<Rightarrow> bytes) \<Rightarrow> contract_fn \<Rightarrow> contract \<Rightarrow> contract \<Rightarrow> bool" where
  "executed keccak f c c' \<longleftrightarrow> (\<exists>m call. abi_call f = Some call \<and> execute keccak m call c = Ret c')"

text \<open>What the backend relies on: a receipt with status 1 means that the contract executed the call, and the read functions
  return the fields of the contract.\<close>

definition runs_contract :: "'c web3_node \<Rightarrow> (string \<Rightarrow> bytes) \<Rightarrow> ('c \<Rightarrow> contract) \<Rightarrow> bool" where
  "runs_contract nd keccak ct \<longleftrightarrow>
     (\<forall>tx c h c' flag r. n_send nd tx c = (Ret h, c') \<and> n_wait nd h flag c' = Ret r \<and> receipt_status r = Ret 1 \<longrightarrow> executed keccak (tx_function tx) (ct c) (ct c')) \<and>
     (\<forall>sender f c h c' flag r. n_transact nd sender f c = (Ret h, c') \<and> n_wait nd h flag c' = Ret r \<and> receipt_status r = Ret 1 \<longrightarrow> executed keccak f (ct c) (ct c')) \<and>
     (\<forall>c k. length k = 32 \<longrightarrow> n_anchor nd c k = Ret (anchor_tuple (ct_anchors (ct c) k)) \<and>
        n_root_status nd c k = Ret (JInt (status_id (rr_status (ct_roots (ct c) k)))) \<and> n_endpoint nd c k = Ret (CBytes (ct_endpoints (ct c) k)))"

lemma checked_receipt_Ret: "checked_receipt r = Ret x \<Longrightarrow> receipt_status r = Ret 1"
  by (auto simp: checked_receipt_def web3_error_def split: if_splits)

lemma wait_for_receipt_Ret: "wait_for_receipt nd h c = (Ret r, c') \<Longrightarrow> c' = c \<and> (\<exists>flag. n_wait nd h flag c = Ret r)"
  by (auto simp: wait_for_receipt_def split: sum.splits pyerr.splits)

lemma wait_checked:
  assumes "bindS (wait_for_receipt nd h) (\<lambda>r. liftS (checked_receipt r)) c = (Ret x, c')"
  shows "c' = c \<and> (\<exists>flag r. n_wait nd h flag c = Ret r \<and> receipt_status r = Ret 1)"
proof -
  from assms obtain r c1 where "wait_for_receipt nd h c = (Ret r, c1)" "checked_receipt r = Ret x" "c' = c1"
    by (auto simp: bindS_Inr)
  then show ?thesis using wait_for_receipt_Ret[of nd h c r c1] checked_receipt_Ret by blast
qed

lemma transact_executes:
  assumes "runs_contract nd keccak ct" and "transact cfg nd env f c = (Ret x, c')"
  shows "executed keccak f (ct c) (ct c')"
proof (cases "truthy_text (w3_sender_address cfg) \<and> \<not> truthy_text (w3_private_key_env cfg) \<and> \<not> truthy_text (w3_private_key_file cfg) \<and>
         \<not> truthy_text (w3_keystore_file cfg)")
  case True
  then obtain sender h c1 where "n_transact nd sender f c = (Ret h, c1)"
    "bindS (wait_for_receipt nd h) (\<lambda>r. liftS (checked_receipt r)) c1 = (Ret x, c')"
    using assms(2) unfolding transact_def by (simp add: bindS_Inr[of "liftS _"] bindS_Inr[of "n_transact _ _ _"]) blast
  then show ?thesis using wait_checked assms(1) unfolding runs_contract_def by metis
next
  case False
  from assms(2) obtain address c0 where "bindS (\<lambda>c. (account_nonce nd c address, c)) (\<lambda>nonce.
      bindS (n_send nd \<lparr>tx_from = address, tx_nonce = nonce, tx_chain_id = w3_expected_chain_id cfg, tx_function = f\<rparr>) (\<lambda>h.
      bindS (wait_for_receipt nd h) (\<lambda>r. liftS (checked_receipt r)))) c0 = (Ret x, c')" and c0: "c0 = c"
    unfolding transact_def if_not_P[OF False] bindS_Inr[of "liftS (signer_account cfg nd env)"] by auto
  then obtain nonce where "bindS (n_send nd \<lparr>tx_from = address, tx_nonce = nonce, tx_chain_id = w3_expected_chain_id cfg, tx_function = f\<rparr>) (\<lambda>h.
      bindS (wait_for_receipt nd h) (\<lambda>r. liftS (checked_receipt r))) c = (Ret x, c')"
    unfolding bindS_Inr[of "\<lambda>c. (account_nonce nd c address, c)"] by blast
  then obtain tx h c1 where "n_send nd tx c = (Ret h, c1)" "tx_function tx = f"
    "bindS (wait_for_receipt nd h) (\<lambda>r. liftS (checked_receipt r)) c1 = (Ret x, c')"
    unfolding bindS_Inr[of "n_send _ _"] by (metis web3_tx.select_convs(4))
  then show ?thesis using wait_checked assms(1) unfolding runs_contract_def by metis
qed

section \<open>The chain refines the SQLite registry\<close>

definition anchor_row :: "chain_anchor \<Rightarrow> anchor" where
  "anchor_row a = \<lparr>an_resolver_id_key = hex32 (ra_resolver_id_key a), an_object_hash = hex32 (ra_object_hash a), an_state_root = hex32 (ra_state_root a),
     an_object_version = uint (ra_object_version a), an_valid_until = uint (ra_valid_until a), an_status = status_text (ra_status a)\<rparr>"

text \<open>Every \<open>bytes32\<close> that the contract holds has 32 bytes.\<close>

definition bytes32_ok :: "contract \<Rightarrow> bool" where
  "bytes32_ok c \<longleftrightarrow> (\<forall>k. length (ra_object_hash (ct_anchors c k)) = 32 \<and> length (ra_state_root (ct_anchors c k)) = 32 \<and> length (ct_endpoints c k) = 32)"

text \<open>A state of the contract and a database of the SQLite registry that hold the same registry.\<close>

definition same_registry :: "contract \<Rightarrow> db \<Rightarrow> bool" where
  "same_registry c d \<longleftrightarrow> bytes32_ok c \<and> records_complete c \<and> (\<forall>k. length k = 32 \<longrightarrow>
     dict_get (t_anchors d) (hex32 k) = (if ra_object_version (ct_anchors c k) = 0 then None else Some (anchor_row (ct_anchors c k))) \<and>
     dict_get (t_bindings d) (hex32 k) = (if ct_endpoints c k = ZERO32 then None else Some (hex32 (ct_endpoints c k))) \<and>
     dict_get (t_roots d) (hex32 k) = (if rr_state_root (ct_roots c k) = ZERO32 then None else Some (status_text (rr_status (ct_roots c k)))))"

text \<open>The same call on the SQLite registry, with the arguments in their canonical spelling.\<close>

fun sqlite_apply :: "contract_fn \<Rightarrow> unit dbop" where
  "sqlite_apply (FnPublishRoot r v) = sqlite_publish_root (hex32 r) ''ACTIVE'' v"
| "sqlite_apply (FnRevokeRoot r) = sqlite_revoke_root (hex32 r)"
| "sqlite_apply (FnPublishResolver k h r v u st) = sqlite_publish_resolver (hex32 k) (hex32 h) (hex32 r) v u (status_by_id st)"
| "sqlite_apply (FnUpdateResolver k h r v u st) = sqlite_update_resolver (hex32 k) (hex32 h) (hex32 r) v u (status_by_id st)"
| "sqlite_apply (FnRevokeResolver k) = reg_revoke_resolver (hex32 k)"
| "sqlite_apply (FnBindEndpoint e k) = reg_bind_endpoint (hex32 e) (hex32 k)"
| "sqlite_apply (FnUnbindEndpoint e) = reg_unbind_endpoint (hex32 e)"

text \<open>SQLite stores signed 64-bit integers, the contract unsigned ones.\<close>

fun fits_sqlite :: "contract_fn \<Rightarrow> bool" where
  "fits_sqlite (FnPublishResolver k h r v u st) = (v < 2 ^ 63 \<and> u < 2 ^ 63)"
| "fits_sqlite (FnUpdateResolver k h r v u st) = (v < 2 ^ 63 \<and> u < 2 ^ 63)"
| "fits_sqlite _ = True"

lemma hex32_inj [simp]: "hex32 a = hex32 b \<longleftrightarrow> a = b"
  using hex_of_bytes_inj by (auto simp: hex32_def)

lemma status_by_id_text: "0 \<le> st \<Longrightarrow> st < 5 \<Longrightarrow> status_by_id st = status_text (status_codes ! nat st)"
proof -
  assume "0 \<le> st" "st < 5"
  then have "st \<in> {0, 1, 2, 3, 4}" by auto
  then show ?thesis by (auto simp: status_by_id_def STATUS_BY_ID_def status_codes_def)
qed

lemma uint64_word: "is_uint64 i \<Longrightarrow> uint (word_of_int i :: 64 word) = i"
  by (simp add: is_uint64_def uint_word_of_int)

lemma bytes32_call:
  assumes "abi_call f = Some call" and "execute keccak m call c = Ret c'" and "bytes32_ok c"
  shows "bytes32_ok c'"
proof (cases f)
  case (FnPublishResolver k h r v u st)
  then show ?thesis using assms by (auto simp: abi_anchor_def bytes32_ok_def publishResolver_def split: if_splits)
next
  case (FnUpdateResolver k h r v u st)
  then show ?thesis using assms by (auto simp: abi_anchor_def bytes32_ok_def updateResolver_def split: if_splits)
next
  case (FnUnbindEndpoint e)
  then show ?thesis using assms by (auto simp: bytes32_ok_def unbindEndpoint_def ZERO32_def split: if_splits)
qed (use assms in \<open>auto simp: bytes32_ok_def publishRoot_def revokeRoot_def revokeResolver_def bindEndpoint_def Let_def split: if_splits\<close>)

lemma publish_anchor_fits:
  assumes "- (2 ^ 63) \<le> v" "v < 2 ^ 63" "- (2 ^ 63) \<le> u" "u < 2 ^ 63"
  obtains d' where "publish_anchor k h r v u st d = (Ret (), d')" and "t_bindings d' = t_bindings d" and "t_roots d' = t_roots d"
    and "t_anchors d' = dict_set (t_anchors d) k \<lparr>an_resolver_id_key = k, an_object_hash = h, an_state_root = r, an_object_version = v, an_valid_until = u, an_status = st\<rparr>"
proof -
  have s: "sql_int v = retS ()" "sql_int u = retS ()" using assms by (simp_all add: sql_int_def)
  obtain d' where d': "publish_anchor k h r v u st d = (Ret (), d')" by (simp add: publish_anchor_def reg_get_anchor_def s)
  show ?thesis using that[OF d'] publish_anchor_cases[OF d'] by simp
qed

lemma published_same:
  assumes "same_registry c d" and "abi_anchor k h r v u st = Some a" and "v < 2 ^ 63" and "u < 2 ^ 63"
    and "bytes32_ok c'" and "records_complete c'" and "0 < ra_object_version a"
    and "ct_anchors c' = (ct_anchors c)(k := a)" and "ct_endpoints c' = ct_endpoints c" and "ct_roots c' = ct_roots c"
  shows "\<exists>d'. publish_anchor (hex32 k) (hex32 h) (hex32 r) v u (status_by_id st) d = (Ret (), d') \<and> same_registry c' d'"
proof -
  have a: "length k = 32" "a = \<lparr>ra_resolver_id_key = k, ra_object_hash = h, ra_state_root = r, ra_object_version = word_of_int v,
      ra_valid_until = word_of_int u, ra_status = status_codes ! nat st\<rparr>" "is_uint64 v" "is_uint64 u" "0 \<le> st" "st < 5"
    using assms(2) by (auto simp: abi_anchor_def split: if_splits)
  obtain d' where d': "publish_anchor (hex32 k) (hex32 h) (hex32 r) v u (status_by_id st) d = (Ret (), d')" "t_bindings d' = t_bindings d" "t_roots d' = t_roots d"
    "t_anchors d' = dict_set (t_anchors d) (hex32 k) \<lparr>an_resolver_id_key = hex32 k, an_object_hash = hex32 h, an_state_root = hex32 r,
       an_object_version = v, an_valid_until = u, an_status = status_by_id st\<rparr>"
    by (rule publish_anchor_fits[of v u "hex32 k" "hex32 h" "hex32 r" "status_by_id st" d]) (use assms(3,4) a(3,4) in \<open>simp_all add: is_uint64_def\<close>)
  have row: "anchor_row a = \<lparr>an_resolver_id_key = hex32 k, an_object_hash = hex32 h, an_state_root = hex32 r,
       an_object_version = v, an_valid_until = u, an_status = status_by_id st\<rparr>"
    using a by (simp add: anchor_row_def uint64_word status_by_id_text)
  have "ra_object_version a \<noteq> 0" using assms(7) by simp
  then have "same_registry c' d'" using assms(1,5,6,8,9,10) d'(2-4) unfolding same_registry_def row[symmetric] by simp
  then show ?thesis using d'(1) by blast
qed

lemma anchor_row_revoked: "anchor_row (a\<lparr>ra_status := REVOKED\<rparr>) = (anchor_row a)\<lparr>an_status := ''REVOKED''\<rparr>"
  by (simp add: anchor_row_def)

lemma executed_simulates:
  assumes "abi_call f = Some call" and "execute keccak m call c = Ret c'" and "same_registry c d" and "fits_sqlite f"
  shows "\<exists>d'. sqlite_apply f d = (Ret (), d') \<and> same_registry c' d'"
proof -
  have c': "bytes32_ok c'" "records_complete c'"
    using bytes32_call[OF assms(1,2)] execute_complete[OF assms(2)] assms(3) by (simp_all add: same_registry_def)
  show ?thesis
  proof (cases f)
    case (FnPublishRoot r v)
    then have e: "call = PublishRoot r (word_of_int v)" "length r = 32" using assms(1) by (auto split: if_splits)
    have "\<exists>rec. ct_roots c' = (ct_roots c)(r := rec) \<and> rr_state_root rec \<noteq> ZERO32 \<and> rr_status rec = ACTIVE \<and> ct_anchors c' = ct_anchors c \<and> ct_endpoints c' = ct_endpoints c"
      using assms(2) e by (auto simp: publishRoot_def)
    then show ?thesis using c' assms(3) FnPublishRoot by (auto simp: sqlite_publish_root_def reg_publish_root_def same_registry_def)
  next
    case (FnRevokeRoot r)
    then have e: "call = RevokeRoot r" "length r = 32" using assms(1) by (auto split: if_splits)
    then show ?thesis using c' assms(2,3) FnRevokeRoot
      by (auto simp: sqlite_revoke_root_def reg_publish_root_def same_registry_def revokeRoot_def)
  next
    case (FnPublishResolver k h r v u st)
    then obtain a where a: "abi_anchor k h r v u st = Some a" "call = PublishResolver a" using assms(1) by auto
    then have "ra_resolver_id_key a = k" by (auto simp: abi_anchor_def split: if_splits)
    then have "0 < ra_object_version a" "ct_anchors c' = (ct_anchors c)(k := a)" "ct_endpoints c' = ct_endpoints c" "ct_roots c' = ct_roots c"
      using assms(2) a(2) by (auto simp: publishResolver_def)
    then show ?thesis using published_same[OF assms(3) a(1) _ _ c'] assms(4) FnPublishResolver by (simp add: sqlite_publish_resolver_def)
  next
    case (FnUpdateResolver k h r v u st)
    then obtain a where a: "abi_anchor k h r v u st = Some a" "call = UpdateResolver a" using assms(1) by auto
    then have "ra_resolver_id_key a = k" by (auto simp: abi_anchor_def split: if_splits)
    then have "0 < ra_object_version a" "ct_anchors c' = (ct_anchors c)(k := a)" "ct_endpoints c' = ct_endpoints c" "ct_roots c' = ct_roots c"
      using assms(2) a(2) by (auto simp: updateResolver_def)
    then show ?thesis using published_same[OF assms(3) a(1) _ _ c'] assms(4) FnUpdateResolver by (simp add: sqlite_update_resolver_def)
  next
    case (FnRevokeResolver k)
    then have e: "call = RevokeResolver k" "length k = 32" using assms(1) by (auto split: if_splits)
    have "ct_anchors c' = (ct_anchors c)(k := (ct_anchors c k)\<lparr>ra_status := REVOKED\<rparr>) \<and> ct_roots c' = ct_roots c \<and> ct_endpoints c' = ct_endpoints c"
      using assms(2) e by (auto simp: revokeResolver_def)
    then show ?thesis using c' assms(3) FnRevokeResolver
      by (simp add: reg_revoke_resolver_def same_registry_def dict_get_set_anchor_status anchor_row_revoked)
  next
    case (FnBindEndpoint x k)
    then have e: "call = BindEndpoint x k" using assms(1) by (auto split: if_splits)
    have "ct_endpoints c' = (ct_endpoints c)(x := k) \<and> ct_roots c' = ct_roots c \<and> ct_anchors c' = ct_anchors c \<and> k \<noteq> ZERO32"
      using assms(2) e by (auto simp: bindEndpoint_def Let_def)
    then show ?thesis using c' assms(3) FnBindEndpoint by (simp add: reg_bind_endpoint_def same_registry_def)
  next
    case (FnUnbindEndpoint x)
    then have e: "call = UnbindEndpoint x" using assms(1) by (auto split: if_splits)
    have "ct_endpoints c' = (ct_endpoints c)(x := ZERO32) \<and> ct_roots c' = ct_roots c \<and> ct_anchors c' = ct_anchors c"
      using assms(2) e by (auto simp: unbindEndpoint_def)
    then show ?thesis using c' assms(3) FnUnbindEndpoint by (simp add: reg_unbind_endpoint_def reg_get_endpoint_binding_def same_registry_def)
  qed
qed

section \<open>What is read\<close>

lemma hex32_lower: "py_lower (take 2 (hex32 k)) = ''0x''"
  by (simp add: hex32_def py_lower_def lower_char_def)

lemma normalize_bytes [simp]: "length k = 32 \<Longrightarrow> normalize_bytes32 (CBytes k) = Ret (hex32 k)"
  by (simp add: normalize_bytes32_def hex32_def)

lemma key_bytes_hex32 [simp]: "length k = 32 \<Longrightarrow> key_bytes (hex32 k) = Ret k"
  using normalize_bytes32_fixed[of "CBytes k" "hex32 k"] by (simp add: key_bytes_def bytes32_to_bytes_def) (simp add: hex32_def)

lemma hex_fold_zero:
  "list_all is_hex s \<Longrightarrow> foldl (\<lambda>a c. 16 * a + the (hex_val c)) (n :: nat) s = 0 \<longleftrightarrow> n = 0 \<and> list_all (\<lambda>c. hex_val c = Some 0) s"
proof (induction s arbitrary: n)
  case (Cons c s)
  then obtain v where "hex_val c = Some v" by (auto simp: is_hex_def)
  then show ?case using Cons by simp
qed simp

lemma nat_of_hex_zeros: "list_all is_hex s \<Longrightarrow> nat_of_hex s = 0 \<longleftrightarrow> list_all (\<lambda>c. hex_val c = Some 0) s"
  unfolding nat_of_hex_def by (simp only: hex_fold_zero simp_thms)

lemma hex_of_byte_zero: "list_all (\<lambda>c. hex_val c = Some 0) (hex_of_byte b) \<longleftrightarrow> b = 0"
proof -
  have "unat b div 16 < 16" by (rule less_mult_imp_div_less) simp
  then have "list_all (\<lambda>c. hex_val c = Some 0) (hex_of_byte b) \<longleftrightarrow> unat b div 16 = 0 \<and> unat b mod 16 = 0" by (simp add: hex_of_byte_def)
  also have "\<dots> \<longleftrightarrow> unat b = 0" using byte_split[of b] by auto
  finally show ?thesis by (simp add: unat_eq_zero)
qed

lemma hex_of_bytes_zero: "nat_of_hex (hex_of_bytes k) = 0 \<longleftrightarrow> k = replicate (length k) 0"
  unfolding nat_of_hex_zeros[OF hex_of_bytes_is_hex]
  by (induction k) (simp_all add: hex_of_byte_zero)

lemma int16_hex32: "length k = 32 \<Longrightarrow> py_int16 (hex32 k) = Ret 0 \<longleftrightarrow> k = ZERO32" "length k = 32 \<Longrightarrow> \<exists>z. py_int16 (hex32 k) = Ret z"
proof -
  assume k: "length k = 32"
  then have ne: "hex_of_bytes k \<noteq> []" by (metis length_hex_of_bytes list.size(3) mult_eq_0_iff zero_neq_numeral)
  have st: "py_strip (hex32 k) = hex32 k" unfolding hex32_def
    by (rule py_strip_no_space) (use hex_of_bytes_is_hex[of k] hex_facts in \<open>auto simp: list_all_iff is_space_def\<close>)
  have us: "\<not> starts_with (hex_of_bytes k) ''_''"
    using hex_of_bytes_is_hex[of k] by (cases "hex_of_bytes k") (auto simp: is_hex_def hex_val_def)
  have "py_int16 (hex32 k) = Ret (int (nat_of_hex (hex_of_bytes k)))"
    using st us hex_with_underscores_hex[OF hex_of_bytes_is_hex ne] hex32_lower[of k] by (simp add: py_int16_def int16_body_def hex32_def)
  then show "py_int16 (hex32 k) = Ret 0 \<longleftrightarrow> k = ZERO32" "\<exists>z. py_int16 (hex32 k) = Ret z"
    using hex_of_bytes_zero[of k] k by (auto simp: ZERO32_def)
qed

lemma decode_contract_anchor:
  assumes "bytes32_ok c" and "records_complete c" and "length k = 32"
  shows "decode_anchor (Some (anchor_tuple (ct_anchors c k))) =
    Ret (if ra_object_version (ct_anchors c k) = 0 then None else Some (anchor_row (ct_anchors c k)))"
proof -
  have cases: "ct_anchors c k = zero_anchor \<or> (ra_resolver_id_key (ct_anchors c k) = k \<and> k \<noteq> ZERO32 \<and> ra_object_version (ct_anchors c k) \<noteq> 0)"
    using assms(2) by (auto simp: records_complete_def anchor_complete_def)
  have len: "length (ra_object_hash (ct_anchors c k)) = 32" "length (ra_state_root (ct_anchors c k)) = 32" using assms(1) by (simp_all add: bytes32_ok_def)
  show ?thesis
  proof (cases "ct_anchors c k = zero_anchor")
    case True
    have "py_int16 (hex32 ZERO32) = Ret 0" using int16_hex32(1)[of ZERO32] by (simp add: ZERO32_def)
    then show ?thesis using True by (simp add: decode_anchor_def raw_anchor_fields_def anchor_tuple_def) (simp add: zero_anchor_def ZERO32_def)
  next
    case False
    then have id: "ra_resolver_id_key (ct_anchors c k) = k" "k \<noteq> ZERO32" "ra_object_version (ct_anchors c k) \<noteq> 0" using cases by auto
    obtain z where z: "py_int16 (hex32 k) = Ret z" using int16_hex32(2)[OF assms(3)] by blast
    then have "z \<noteq> 0" using int16_hex32(1)[OF assms(3)] id(2) by auto
    moreover have "status_by_id (status_id (ra_status (ct_anchors c k))) = status_text (ra_status (ct_anchors c k))"
      by (cases "ra_status (ct_anchors c k)") (simp_all add: status_by_id_def STATUS_BY_ID_def)
    ultimately show ?thesis using id len z assms(3)
      by (simp add: decode_anchor_def raw_anchor_fields_def anchor_tuple_def decode_status_def anchor_row_def)
  qed
qed

lemma decode_status_id: "decode_status (JInt (status_id s)) = Ret (status_text s)"
  by (cases s) (simp_all add: decode_status_def status_by_id_def STATUS_BY_ID_def)

lemma same_authorizations:
  assumes "runs_contract nd keccak ct" and "same_registry (ct c) d" and "length e = 32" and "length k = 32" and "length r = 32"
  shows "authorizes (web3_view nd c) (hex32 e) (hex32 k) h v (hex32 r) = authorizes (db_view d) (hex32 e) (hex32 k) h v (hex32 r)"
proof -
  have ok: "bytes32_ok (ct c)" "records_complete (ct c)" using assms(2) by (simp_all add: same_registry_def)
  have rd: "n_anchor nd c k = Ret (anchor_tuple (ct_anchors (ct c) k))" "n_root_status nd c r = Ret (JInt (status_id (rr_status (ct_roots (ct c) r))))"
    "n_endpoint nd c e = Ret (CBytes (ct_endpoints (ct c) e))"
    using assms(1,3-5) by (simp_all add: runs_contract_def)
  have "rv_anchor (web3_view nd c) (hex32 k) = rv_anchor (db_view d) (hex32 k)"
    using rd(1) decode_contract_anchor[OF ok assms(4)] assms(2,4) by (simp add: web3_view_def web3_get_resolver_anchor_def db_view_def same_registry_def)
  moreover have "rv_binding (web3_view nd c) (hex32 e) = rv_binding (db_view d) (hex32 e)"
  proof -
    have l: "length (ct_endpoints (ct c) e) = 32" using ok(1) by (simp add: bytes32_ok_def)
    obtain z where "py_int16 (hex32 (ct_endpoints (ct c) e)) = Ret z" using int16_hex32(2)[OF l] by blast
    then show ?thesis using rd(3) int16_hex32(1)[OF l] assms(2,3) l
      by (auto simp: web3_view_def web3_get_endpoint_binding_def db_view_def same_registry_def)
  qed
  moreover have "rv_root (web3_view nd c) (hex32 r) = Ret (Some ''ACTIVE'') \<longleftrightarrow> rv_root (db_view d) (hex32 r) = Ret (Some ''ACTIVE'')"
  proof -
    have "root_complete r (ct_roots (ct c) r)" using ok(2) by (simp add: records_complete_def)
    then have "rr_state_root (ct_roots (ct c) r) = ZERO32 \<Longrightarrow> rr_status (ct_roots (ct c) r) = UNKNOWN" by (auto simp: root_complete_def)
    then show ?thesis using rd(2) assms(2,5) by (auto simp: web3_view_def web3_get_root_status_def db_view_def same_registry_def decode_status_id)
  qed
  ultimately show ?thesis by (simp add: authorizes_def)
qed

text \<open>C12. The registry on the chain refines the SQLite registry that tests and single hosts use: over a node that runs the contract,
  every write through the Web3 backend that returns a receipt is, up to the canonical spelling of its arguments, a write that the SQLite
  registry also accepts, the two hold the same registry afterwards, and they vouch for exactly the same endpoints, resolvers and
  roots.\<close>

theorem web3_registry_refines_sqlite:
  assumes "runs_contract nd keccak ct" and "same_registry (ct c) d"
    and "registry_fn op' = Ret f" and "fits_sqlite f" and "web3_write cfg nd env op' c = (Ret receipt, c')"
  shows "\<exists>d'. sqlite_apply f d = (Ret (), d') \<and> same_registry (ct c') d' \<and>
    (\<forall>e k r h v. length e = 32 \<and> length k = 32 \<and> length r = 32 \<longrightarrow>
       authorizes (web3_view nd c') (hex32 e) (hex32 k) h v (hex32 r) = authorizes (db_view d') (hex32 e) (hex32 k) h v (hex32 r))"
proof -
  have "transact cfg nd env f c = (Ret receipt, c')" using assms(3,5) by (simp add: web3_write_def)
  from transact_executes[OF assms(1) this] obtain m call where "abi_call f = Some call" "execute keccak m call (ct c) = Ret (ct c')"
    unfolding executed_def by blast
  then obtain d' where d': "sqlite_apply f d = (Ret (), d')" "same_registry (ct c') d'"
    using executed_simulates assms(2,4) by blast
  then show ?thesis using same_authorizations[OF assms(1) d'(2)] by blast
qed

definition demo_node_step :: "contract_fn \<Rightarrow> contract \<times> bool \<Rightarrow> contract \<times> bool" where
  "demo_node_step f s = (case abi_call f of None \<Rightarrow> (fst s, False)
     | Some call \<Rightarrow> (case execute demo_keccak demo_msg call (fst s) of Inl _ \<Rightarrow> (fst s, False) | Inr c' \<Rightarrow> (c', True)))"

definition demo_web3_node :: "(contract \<times> bool) web3_node" where
  "demo_web3_node = \<lparr>n_chain_id = 1, n_is_address = (\<lambda>_. True), n_code = (\<lambda>_. [1]), n_keccak_hex = (\<lambda>_. ''ab''), n_checksum = Ret,
     n_nonce = (\<lambda>s a pending. if pending then Raise (TypeError ''block identifier'') else Ret 0),
     n_send = (\<lambda>tx s. (Ret [], demo_node_step (tx_function tx) s)), n_transact = (\<lambda>a f s. (Ret [], demo_node_step f s)),
     n_wait = (\<lambda>h flag s. Ret [(''status'', CJson (JInt (if snd s then 1 else 0)))]),
     n_anchor = (\<lambda>s k. Ret (anchor_tuple (ct_anchors (fst s) k))),
     n_root_status = (\<lambda>s r. Ret (JInt (status_id (rr_status (ct_roots (fst s) r))))),
     n_root_record = (\<lambda>s r. Ret []), n_endpoint = (\<lambda>s e. Ret (CBytes (ct_endpoints (fst s) e)))\<rparr>"

lemma demo_runs: "runs_contract demo_web3_node demo_keccak fst"
proof -
  have step: "executed demo_keccak f a (fst (demo_node_step f (a, b)))" if "snd (demo_node_step f (a, b))" for f a b
    using that by (auto simp: demo_node_step_def executed_def split: option.splits sum.splits)
  show ?thesis by (auto simp: runs_contract_def demo_web3_node_def receipt_status_def simp del: split_paired_All split: if_splits intro: step)
qed

definition demo_web3_config :: web3_config where
  "demo_web3_config = \<lparr>w3_contract_address = ''0x01'', w3_expected_chain_id = 1, w3_private_key_env = Some ''KEY'', w3_private_key_file = None,
     w3_keystore_file = None, w3_keystore_password_file = None, w3_sender_address = None, w3_expected_code_hash = None\<rparr>"

definition demo_signer :: signer_env where
  "demo_signer = \<lparr>se_files = (\<lambda>_. \<lparr>pf_mode = None, pf_text = Raise (ValueError ''no file'')\<rparr>), se_environ = (\<lambda>_. Some ''secret''),
     se_decrypt = (\<lambda>_ _. Raise (ValueError ''no keystore'')), se_address = (\<lambda>_. Ret ''0x01'')\<rparr>"

lemma demo_registry_fn: "registry_fn (OpPublishRoot (hex32 demo_key) ''active'' 1) = Ret (FnPublishRoot demo_key 1)"
  by (simp add: demo_key_def) code_simp

lemma demo_write:
  "\<exists>c c'. contract_constructor demo_keccak demo_msg 1 = Ret c \<and>
     web3_write demo_web3_config demo_web3_node demo_signer (OpPublishRoot (hex32 demo_key) ''active'' 1) (c, False) =
       (Ret [(''status'', CJson (JInt 1))], c')"
proof -
  have "(case contract_constructor demo_keccak demo_msg 1 of Inl _ \<Rightarrow> False
    | Inr c \<Rightarrow> fst (transact demo_web3_config demo_web3_node demo_signer (FnPublishRoot demo_key 1) (c, False)) =
       Ret [(''status'', CJson (JInt 1))])" by code_simp
  then obtain c where c: "contract_constructor demo_keccak demo_msg 1 = Ret c"
    "fst (transact demo_web3_config demo_web3_node demo_signer (FnPublishRoot demo_key 1) (c, False)) = Ret [(''status'', CJson (JInt 1))]"
    by (auto split: sum.splits)
  have "web3_write demo_web3_config demo_web3_node demo_signer (OpPublishRoot (hex32 demo_key) ''active'' 1) =
      transact demo_web3_config demo_web3_node demo_signer (FnPublishRoot demo_key 1)"
    by (simp only: web3_write_def demo_registry_fn bindS_simps)
  then show ?thesis using c prod.collapse by metis
qed

lemma fresh_same:
  assumes "contract_constructor keccak m admin = Ret c"
  shows "same_registry c (empty_db t)"
  using constructor_state[OF assms] deployed_keeps[OF deployed.deploy[OF assms]]
  by (simp add: same_registry_def bytes32_ok_def empty_db_def) (simp add: zero_anchor_def zero_root_def ZERO32_def)

theorem web3_registry_refines_sqlite_witness:
  "\<exists>c c' d'. web3_write demo_web3_config demo_web3_node demo_signer (OpPublishRoot (hex32 demo_key) ''active'' 1) (c, False) =
       (Ret [(''status'', CJson (JInt 1))], c') \<and>
     sqlite_publish_root (hex32 demo_key) ''ACTIVE'' 1 (empty_db 0) = (Ret (), d') \<and> same_registry (fst c') d'"
proof -
  obtain c c' where c: "contract_constructor demo_keccak demo_msg 1 = Ret c"
    "web3_write demo_web3_config demo_web3_node demo_signer (OpPublishRoot (hex32 demo_key) ''active'' 1) (c, False) = (Ret [(''status'', CJson (JInt 1))], c')"
    using demo_write by blast
  have "same_registry (fst (c, False)) (empty_db 0)" using fresh_same[OF c(1)] by simp
  from web3_registry_refines_sqlite[OF demo_runs this demo_registry_fn _ c(2)] obtain d' where "sqlite_apply (FnPublishRoot demo_key 1) (empty_db 0) = (Ret (), d')" "same_registry (fst c') d'" by auto
  then have "sqlite_publish_root (hex32 demo_key) ''ACTIVE'' 1 (empty_db 0) = (Ret (), d')" "same_registry (fst c') d'" by simp_all
  then show ?thesis using c(2) by blast
qed

end
