(* ===== verification/Settings.thy ===== *)
theory Settings
  imports Complex_Main Web3Backend Url Distributed QueryProcessor
begin

text \<open>
  \<open>common/config.py\<close>, \<open>common/agent_transport.py\<close>, \<open>common/registry_factory.py\<close>, \<open>chain/contract_loader.py\<close> and
  \<open>common/health.py\<close>: how a service reads its settings from the environment, which settings it refuses, which registry it
  builds from them, and what its readiness probe checks.  The environment, the files and the node are arguments.
\<close>

section \<open>Reading the environment\<close>

record process_env =
  pe_getenv :: "string \<Rightarrow> string option"
  pe_read_text :: "string \<Rightarrow> string res"

definition env_text :: "process_env \<Rightarrow> string \<Rightarrow> string \<Rightarrow> string" where
  "env_text e name dflt = (case pe_getenv e name of None \<Rightarrow> dflt | Some v \<Rightarrow> v)"

definition env_int :: "process_env \<Rightarrow> string \<Rightarrow> int \<Rightarrow> int res" where
  "env_int e name dflt = (case pe_getenv e name of None \<Rightarrow> Ret dflt | Some v \<Rightarrow> py_int_of_str v)"

text \<open>\<open>float(text)\<close> as an exact rational; the rounding to 64 bits is not modelled.\<close>

datatype pyfloat = Finite rat | Infinite bool | NaN

definition float_digits :: "string \<Rightarrow> string option" where
  "float_digits s = (if s = [] then Some [] else digits_with_underscores s)"

definition signed_part :: "string \<Rightarrow> int \<times> string" where
  "signed_part s = (case s of [] \<Rightarrow> (1, []) | c # cs \<Rightarrow> if c = CHR ''-'' then (- 1, cs) else if c = CHR ''+'' then (1, cs) else (1, s))"

definition float_number :: "int \<Rightarrow> string \<Rightarrow> int \<Rightarrow> rat option" where
  "float_number sg m e =
     (let (ip, _, fp) = partition_at CHR ''.'' m in
      case (float_digits ip, float_digits fp) of
        (Some a, Some b) \<Rightarrow> if a = [] \<and> b = [] then None
          else Some (of_int sg * of_nat (nat_of_dec (a @ b)) *
                 (if e \<ge> int (length b) then 10 ^ nat (e - int (length b)) else 1 / 10 ^ nat (int (length b) - e)))
      | _ \<Rightarrow> None)"

definition py_float :: "string \<Rightarrow> pyfloat res" where
  "py_float s =
     (let (sg, b) = signed_part (py_lower (py_strip s)) in
      if b = ''inf'' \<or> b = ''infinity'' then Ret (Infinite (0 < sg))
      else if b = ''nan'' then Ret NaN
      else let (m, has_e, e) = partition_at CHR ''e'' b; (esg, eb) = signed_part e in
        case (if has_e then map_option (\<lambda>d. esg * int (nat_of_dec d)) (digits_with_underscores eb) else Some 0) of
          None \<Rightarrow> Raise (ValueError ''could not convert string to float'')
        | Some ex \<Rightarrow> (case float_number sg m ex of None \<Rightarrow> Raise (ValueError ''could not convert string to float'') | Some q \<Rightarrow> Ret (Finite q)))"

fun not_positive :: "pyfloat \<Rightarrow> bool" where
  "not_positive (Finite q) = (q \<le> 0)"
| "not_positive (Infinite b) = (\<not> b)"
| "not_positive NaN = False"

definition env_float :: "process_env \<Rightarrow> string \<Rightarrow> pyfloat \<Rightarrow> pyfloat res" where
  "env_float e name dflt = (case pe_getenv e name of None \<Rightarrow> Ret dflt | Some v \<Rightarrow> py_float v)"

definition env_bool :: "process_env \<Rightarrow> string \<Rightarrow> bool \<Rightarrow> bool res" where
  "env_bool e name dflt =
     (let v = py_lower (py_strip (env_text e name (if dflt then ''true'' else ''false''))) in
      if v \<in> set [''1'', ''true'', ''yes'', ''on''] then Ret True
      else if v \<in> set [''0'', ''false'', ''no'', ''off''] then Ret False
      else Raise (ValueError (name @ '' must be a boolean'')))"

definition env_secret :: "process_env \<Rightarrow> string \<Rightarrow> string \<Rightarrow> string res" where
  "env_secret e name dflt =
     (let file_name = env_text e (name @ ''_FILE'') [] in
      if file_name \<noteq> [] then bind_res (pe_read_text e file_name) (\<lambda>t. Ret (py_strip t)) else Ret (env_text e name dflt))"

section \<open>Settings\<close>

datatype setting = SText string | SInt int | SFloat pyfloat | SBool bool

datatype setting_source =
    FromEnv string string
  | FromEnvOr string string string
  | FromInt string int
  | FromFloat string rat
  | FromBool string bool
  | FromSecret string string
  | FromSecretOr string string string

definition env_name :: "string \<Rightarrow> string" where "env_name s = ''RESOLVER_IDENTITY_'' @ s"

text \<open>The fields in their order, each with its variable, without the common prefix, and its default.\<close>

definition SETTINGS :: "(string \<times> setting_source) list" where
  "SETTINGS =
    [(''environment'', FromEnv ''ENVIRONMENT'' ''development''),
     (''db_path'', FromEnv ''DB'' ''./resolver_identity.db''),
     (''signature_secret'', FromSecret ''SIGNATURE_SECRET'' ''prototype-secret''),
     (''allow_hmac_object_signatures'', FromBool ''ALLOW_HMAC_OBJECT_SIGNATURES'' True),
     (''issuer_keys_file'', FromEnv ''ISSUER_KEYS_FILE'' []),
     (''issuer_private_key_b64'', FromSecret ''ISSUER_PRIVATE_KEY_B64'' []),
     (''admin_api_token'', FromSecret ''ADMIN_API_TOKEN'' []),
     (''upstream_ip'', FromEnv ''UPSTREAM_IP'' ''1.1.1.1''),
     (''upstream_port'', FromInt ''UPSTREAM_PORT'' 53),
     (''upstream_transport'', FromEnv ''UPSTREAM_TRANSPORT'' ''udp''),
     (''fallback_upstreams'', FromEnv ''FALLBACK_UPSTREAMS'' []),
     (''soft_ttl_seconds'', FromInt ''SOFT_TTL_SECONDS'' 600),
     (''hard_ttl_seconds'', FromInt ''HARD_TTL_SECONDS'' 3600),
     (''require_distributed_verification'', FromBool ''REQUIRE_DISTRIBUTED_VERIFICATION'' False),
     (''agent_timeout_seconds'', FromFloat ''AGENT_TIMEOUT_SECONDS'' 2),
     (''verification_deadline_seconds'', FromFloat ''VERIFICATION_DEADLINE_SECONDS'' (3 / 2)),
     (''agent_tls_ca_file'', FromEnv ''AGENT_TLS_CA_FILE'' []),
     (''agent_tls_client_cert_file'', FromEnv ''AGENT_TLS_CLIENT_CERT_FILE'' []),
     (''agent_tls_client_key_file'', FromEnv ''AGENT_TLS_CLIENT_KEY_FILE'' []),
     (''agent_plaintext_hosts'', FromEnv ''AGENT_PLAINTEXT_HOSTS'' ''localhost,127.0.0.1''),
     (''registry_mode'', FromEnv ''REGISTRY_MODE'' ''sqlite''),
     (''web3_rpc_url'', FromEnv ''WEB3_RPC_URL'' []),
     (''web3_contract_address'', FromEnv ''WEB3_CONTRACT_ADDRESS'' []),
     (''web3_chain_id'', FromInt ''WEB3_CHAIN_ID'' 31337),
     (''web3_abi_path'', FromEnv ''WEB3_ABI_PATH'' ''contracts/out/ResolverIdentityRegistryV1.sol/ResolverIdentityRegistryV1.json''),
     (''web3_sender_address'', FromEnv ''WEB3_SENDER_ADDRESS'' []),
     (''web3_private_key_env'', FromEnv ''WEB3_PRIVATE_KEY_ENV'' []),
     (''web3_private_key_file'', FromEnv ''WEB3_PRIVATE_KEY_FILE'' []),
     (''web3_keystore_file'', FromEnv ''WEB3_KEYSTORE_FILE'' []),
     (''web3_keystore_password_file'', FromEnv ''WEB3_KEYSTORE_PASSWORD_FILE'' []),
     (''web3_contract_code_hash'', FromEnv ''WEB3_CONTRACT_CODE_HASH'' []),
     (''web3_request_timeout_seconds'', FromFloat ''WEB3_REQUEST_TIMEOUT_SECONDS'' 5),
     (''web3_transaction_timeout_seconds'', FromFloat ''WEB3_TRANSACTION_TIMEOUT_SECONDS'' 120),
     (''watcher_confirmations'', FromInt ''WATCHER_CONFIRMATIONS'' 2),
     (''agent_resolver_id'', FromEnv ''AGENT_RESOLVER_ID'' ''configured/resolver''),
     (''agent_endpoint_ip'', FromEnv ''AGENT_ENDPOINT_IP'' ''127.0.0.1''),
     (''agent_endpoint_port'', FromInt ''AGENT_ENDPOINT_PORT'' 53),
     (''agent_endpoint_transport'', FromEnv ''AGENT_ENDPOINT_TRANSPORT'' ''udp''),
     (''agent_config_version'', FromEnv ''AGENT_CONFIG_VERSION'' ''1''),
     (''agent_issuer'', FromEnv ''AGENT_ISSUER'' ''resolver-agent''),
     (''agent_key_id'', FromEnv ''AGENT_KEY_ID'' ''agent-key-01''),
     (''agent_signature_secret'', FromSecretOr ''AGENT_SIGNATURE_SECRET'' ''SIGNATURE_SECRET'' ''prototype-secret''),
     (''agent_private_key_b64'', FromSecret ''AGENT_PRIVATE_KEY_B64'' []),
     (''agent_max_age_seconds'', FromInt ''AGENT_MAX_AGE_SECONDS'' 30),
     (''agent_base_urls'', FromEnv ''AGENT_BASE_URLS'' []),
     (''agent_upstream_agent_base_urls'', FromEnvOr ''AGENT_UPSTREAM_AGENT_BASE_URLS'' ''AGENT_BASE_URLS'' []),
     (''agent_terminal_upstreams'', FromEnv ''AGENT_TERMINAL_UPSTREAMS'' []),
     (''agent_max_chain_depth'', FromInt ''AGENT_MAX_CHAIN_DEPTH'' 4),
     (''metrics_host'', FromEnv ''METRICS_HOST'' ''127.0.0.1''),
     (''metrics_port'', FromInt ''METRICS_PORT'' 9108),
     (''max_inflight_queries'', FromInt ''MAX_INFLIGHT_QUERIES'' 512),
     (''persist_query_audit'', FromBool ''PERSIST_QUERY_AUDIT'' False)]"

fun read_setting :: "process_env \<Rightarrow> setting_source \<Rightarrow> setting res" where
  "read_setting e (FromEnv n d) = Ret (SText (env_text e (env_name n) d))"
| "read_setting e (FromEnvOr n n2 d) = Ret (SText (env_text e (env_name n) (env_text e (env_name n2) d)))"
| "read_setting e (FromInt n d) = bind_res (env_int e (env_name n) d) (\<lambda>i. Ret (SInt i))"
| "read_setting e (FromFloat n d) = bind_res (env_float e (env_name n) (Finite d)) (\<lambda>q. Ret (SFloat q))"
| "read_setting e (FromBool n d) = bind_res (env_bool e (env_name n) d) (\<lambda>b. Ret (SBool b))"
| "read_setting e (FromSecret n d) = bind_res (env_secret e (env_name n) d) (\<lambda>t. Ret (SText t))"
| "read_setting e (FromSecretOr n n2 d) =
     bind_res (env_secret e (env_name n2) d) (\<lambda>d2. bind_res (env_secret e (env_name n) d2) (\<lambda>t. Ret (SText t)))"

type_synonym settings = "(string, setting) dict"

definition read_settings :: "process_env \<Rightarrow> settings res" where
  "read_settings e = map_res (\<lambda>(f, src). bind_res (read_setting e src) (\<lambda>v. Ret (f, v))) SETTINGS"

definition stext :: "settings \<Rightarrow> string \<Rightarrow> string" where
  "stext st f = (case dict_get st f of Some (SText t) \<Rightarrow> t | _ \<Rightarrow> [])"

definition snum :: "settings \<Rightarrow> string \<Rightarrow> int" where
  "snum st f = (case dict_get st f of Some (SInt i) \<Rightarrow> i | _ \<Rightarrow> 0)"

definition sbool :: "settings \<Rightarrow> string \<Rightarrow> bool" where
  "sbool st f = (case dict_get st f of Some (SBool b) \<Rightarrow> b | _ \<Rightarrow> False)"

definition sfloat :: "settings \<Rightarrow> string \<Rightarrow> pyfloat" where
  "sfloat st f = (case dict_get st f of Some (SFloat q) \<Rightarrow> q | _ \<Rightarrow> NaN)"

section \<open>URLs of agents\<close>

text \<open>\<open>ParseResult.hostname\<close>\<close>

definition url_hostname :: "url_parts \<Rightarrow> string option" where
  "url_hostname u =
     (let hostinfo = after_last_at (u_netloc u); (pre, have_open, bracketed) = partition_at CHR ''['' hostinfo;
          host = (if have_open then fst (partition_at CHR '']'' bracketed) else fst (partition_at CHR '':'' hostinfo));
          (name, pct, zone) = partition_at CHR ''%'' host in
      if host = [] then None else Some (py_lower name @ (if pct then CHR ''%'' # zone else [])))"

definition check_agent_url :: "string list \<Rightarrow> string \<Rightarrow> unit res" where
  "check_agent_url plaintext_hosts entry =
     (let item = py_strip entry; (_, found, url) = partition_at CHR ''='' item in
      if item = [] then Ret ()
      else if \<not> found then Raise (ValueError ''Agent URL mapping must use endpoint=url format'')
      else bind_res (urlparse (py_strip url)) (\<lambda>p.
        case url_hostname p of
          None \<Rightarrow> Raise (ValueError ''invalid Agent URL'')
        | Some host \<Rightarrow>
            if u_scheme p \<notin> set [''http'', ''https''] then Raise (ValueError ''invalid Agent URL'')
            else if u_scheme p = ''http'' \<and> host \<notin> set plaintext_hosts then Raise (ValueError ''plaintext Agent URL host is not allowlisted'')
            else Ret ()))"

definition validate_agent_url_config :: "string \<Rightarrow> string list \<Rightarrow> unit res" where
  "validate_agent_url_config raw_mappings plaintext_hosts =
     bind_res (map_res (check_agent_url plaintext_hosts) (split_on CHR '','' raw_mappings)) (\<lambda>_. Ret ())"

text \<open>\<open>AgentTLSConfig.httpx_kwargs\<close>: the authority file, if any, and the client certificate with its key.\<close>

definition httpx_kwargs :: "string option \<Rightarrow> string option \<Rightarrow> string option \<Rightarrow> string option \<times> (string \<times> string) option" where
  "httpx_kwargs ca cert key =
     (if truthy_text ca then ca else None, if truthy_text cert \<and> truthy_text key then Some (the cert, the key) else None)"

section \<open>Validation\<close>

definition production :: "settings \<Rightarrow> bool" where
  "production st = (py_lower (py_strip (stext st ''environment'')) = ''production'')"

definition agent_plaintext_host_set :: "settings \<Rightarrow> string list" where
  "agent_plaintext_host_set st =
     map (\<lambda>item. py_lower (py_strip item)) (filter (\<lambda>item. py_strip item \<noteq> []) (split_on CHR '','' (stext st ''agent_plaintext_hosts'')))"

definition refuse :: "bool \<Rightarrow> string \<Rightarrow> 'a res \<Rightarrow> 'a res" where
  "refuse b message k = (if b then Raise (ValueError message) else k)"

lemma refuse_Ret [simp]: "refuse b message k = Ret x \<longleftrightarrow> \<not> b \<and> k = Ret x"
  by (simp add: refuse_def)

definition code_hash_ok :: "string \<Rightarrow> bool" where
  "code_hash_ok h = (starts_with h ''0x'' \<and> length h = 66 \<and> (case py_int16 (drop 2 h) of Inl _ \<Rightarrow> False | Inr z \<Rightarrow> z \<noteq> 0))"

definition validate_common :: "settings \<Rightarrow> unit res" where
  "validate_common st =
     (refuse (py_lower (py_strip (stext st ''environment'')) \<notin> set [''production'', ''development'', ''test''])
        ''RESOLVER_IDENTITY_ENVIRONMENT must be production, development, or test''
     (refuse (snum st ''soft_ttl_seconds'' \<le> 0 \<or> snum st ''hard_ttl_seconds'' \<le> 0) ''cache TTLs must be positive''
     (refuse (snum st ''hard_ttl_seconds'' < snum st ''soft_ttl_seconds'') ''soft TTL must not exceed hard TTL''
     (refuse (not_positive (sfloat st ''verification_deadline_seconds'')) ''verification deadline must be positive''
     (refuse (snum st ''max_inflight_queries'' < 1) ''maximum inflight query count must be positive'' (Ret ()))))))"

definition validate_production :: "settings \<Rightarrow> unit res" where
  "validate_production st =
     (refuse ((stext st ''agent_tls_client_cert_file'' \<noteq> []) \<noteq> (stext st ''agent_tls_client_key_file'' \<noteq> []))
        ''Agent mTLS client certificate and key must be configured together''
     (refuse (py_lower (stext st ''registry_mode'') \<noteq> ''web3'') ''production requires RESOLVER_IDENTITY_REGISTRY_MODE=web3''
     (refuse (stext st ''web3_rpc_url'' = [] \<or> stext st ''web3_contract_address'' = []) ''production requires Web3 RPC URL and contract address''
     (refuse (\<not> starts_with (py_lower (stext st ''web3_rpc_url'')) ''https://'') ''production Web3 RPC URL must use HTTPS''
     (refuse (py_lower (stext st ''web3_contract_address'') = ''0x'' @ replicate 40 CHR ''0'') ''production Registry contract address must not be the zero address''
     (refuse (stext st ''web3_contract_code_hash'' = []) ''production requires a pinned Registry contract code hash''
     (refuse (\<not> code_hash_ok (stext st ''web3_contract_code_hash'')) ''production Registry contract code hash must be a nonzero bytes32 hex value''
     (refuse (sbool st ''allow_hmac_object_signatures'') ''production must disable HMAC resolver object signatures''
     (refuse (stext st ''issuer_keys_file'' = []) ''production requires a pinned issuer key bundle'' (Ret ()))))))))))"

definition signer_sources :: "settings \<Rightarrow> nat" where
  "signer_sources st = length (filter (\<lambda>f. stext st f \<noteq> []) [''web3_private_key_env'', ''web3_private_key_file'', ''web3_keystore_file''])"

definition validate_service :: "settings \<Rightarrow> string \<Rightarrow> unit res" where
  "validate_service st service =
     bind_res (if service = ''wrapper''
       then refuse (\<not> sbool st ''require_distributed_verification'') ''production wrapper must require distributed verification''
           (refuse (stext st ''agent_base_urls'' = []) ''production wrapper requires a first-hop Agent URL''
           (validate_agent_url_config (stext st ''agent_base_urls'') (agent_plaintext_host_set st)))
       else Ret ()) (\<lambda>_.
     bind_res (if service = ''agent''
       then refuse (stext st ''agent_private_key_b64'' = []) ''production Agent requires an Ed25519 private key''
           (validate_agent_url_config (stext st ''agent_upstream_agent_base_urls'') (agent_plaintext_host_set st))
       else Ret ()) (\<lambda>_.
     bind_res (if service = ''admin''
       then refuse (stext st ''admin_api_token'' = []) ''production Admin API requires an authentication token''
           (refuse (stext st ''issuer_private_key_b64'' = []) ''production Admin requires an Ed25519 issuer private key'' (Ret ()))
       else Ret ()) (\<lambda>_.
     if service = ''registry-writer''
     then refuse (signer_sources st \<noteq> 1) ''production Registry writer requires exactly one transaction signer source''
         (refuse (stext st ''web3_keystore_file'' \<noteq> [] \<and> stext st ''web3_keystore_password_file'' = [])
            ''production Registry writer keystore requires a password file'' (Ret ()))
     else Ret ())))"

definition validate_for :: "settings \<Rightarrow> string \<Rightarrow> unit res" where
  "validate_for st service =
     bind_res (validate_common st) (\<lambda>_.
     if \<not> production st then Ret () else bind_res (validate_production st) (\<lambda>_. validate_service st service))"

definition load_settings :: "process_env \<Rightarrow> string option \<Rightarrow> settings res" where
  "load_settings e service =
     bind_res (read_settings e) (\<lambda>st.
     if truthy_text service then bind_res (validate_for st (the service)) (\<lambda>_. Ret st) else Ret st)"

section \<open>Endpoints of the settings\<close>

definition endpoint_spec :: "string \<Rightarrow> string \<Rightarrow> (string \<times> int \<times> string) res" where
  "endpoint_spec default_transport entry =
     (case split_on CHR '':'' entry of
        [ip] \<Rightarrow> Ret (ip, 53, default_transport)
      | [ip, port] \<Rightarrow> bind_res (py_int_of_str port) (\<lambda>p. Ret (ip, p, default_transport))
      | ip # port # transport # _ \<Rightarrow> bind_res (py_int_of_str port) (\<lambda>p. Ret (ip, p, transport))
      | [] \<Rightarrow> Raise (IndexError ''list index out of range''))"

definition parse_endpoint_specs :: "string \<Rightarrow> string \<Rightarrow> (string \<times> int \<times> string) list res" where
  "parse_endpoint_specs raw_value default_transport =
     map_res (endpoint_spec default_transport) (filter (\<lambda>r. r \<noteq> []) (map py_strip (split_on CHR '','' raw_value)))"

definition settings_upstream_specs :: "settings \<Rightarrow> (string \<times> int \<times> string) list res" where
  "settings_upstream_specs st =
     bind_res (parse_endpoint_specs (stext st ''fallback_upstreams'') (stext st ''upstream_transport'')) (\<lambda>specs.
     Ret ((stext st ''upstream_ip'', snum st ''upstream_port'', stext st ''upstream_transport'') # specs))"

definition spec_endpoint :: "string \<times> int \<times> string \<Rightarrow> endpoint res" where
  "spec_endpoint = (\<lambda>(ip, port, transport). normalized (endpoint_of_parts ip port transport))"

definition settings_agent_endpoint :: "settings \<Rightarrow> endpoint res" where
  "settings_agent_endpoint st = spec_endpoint (stext st ''agent_endpoint_ip'', snum st ''agent_endpoint_port'', stext st ''agent_endpoint_transport'')"

definition settings_agent_upstreams :: "settings \<Rightarrow> endpoint list res" where
  "settings_agent_upstreams st = bind_res (settings_upstream_specs st) (map_res spec_endpoint)"

definition agent_terminal_upstream_endpoints :: "settings \<Rightarrow> endpoint list res" where
  "agent_terminal_upstream_endpoints st =
     bind_res (parse_endpoint_specs (stext st ''agent_terminal_upstreams'') (stext st ''upstream_transport'')) (map_res spec_endpoint)"

section \<open>The registry of a service\<close>

definition load_contract_abi :: "json res \<Rightarrow> json list res" where
  "load_contract_abi artifact =
     bind_res artifact (\<lambda>a. bind_res (as_dict a) (\<lambda>d.
     case jget0 d ''abi'' of JArr abi \<Rightarrow> Ret abi | _ \<Rightarrow> Raise (ValueError ''contract artifact does not contain an ABI array'')))"

definition opt_setting :: "settings \<Rightarrow> string \<Rightarrow> string option" where
  "opt_setting st f = (if stext st f = [] then None else Some (stext st f))"

definition web3_config_of :: "settings \<Rightarrow> web3_config" where
  "web3_config_of st = \<lparr>w3_contract_address = stext st ''web3_contract_address'', w3_expected_chain_id = snum st ''web3_chain_id'',
     w3_private_key_env = opt_setting st ''web3_private_key_env'', w3_private_key_file = opt_setting st ''web3_private_key_file'',
     w3_keystore_file = opt_setting st ''web3_keystore_file'', w3_keystore_password_file = opt_setting st ''web3_keystore_password_file'',
     w3_sender_address = opt_setting st ''web3_sender_address'', w3_expected_code_hash = opt_setting st ''web3_contract_code_hash''\<rparr>"

datatype service_registry = SqliteRegistry | Web3Registry web3_config string

text \<open>The arguments are the artifact at the configured path and the node behind the configured URL.\<close>

definition create_registry_backend :: "settings \<Rightarrow> json res \<Rightarrow> 'c web3_node \<Rightarrow> service_registry res" where
  "create_registry_backend st artifact nd =
     (if py_lower (stext st ''registry_mode'') = ''web3''
      then if stext st ''web3_rpc_url'' = [] \<or> stext st ''web3_contract_address'' = []
           then Raise (ValueError ''web3 registry mode requires RPC URL and contract address'')
           else bind_res (load_contract_abi artifact) (\<lambda>_.
                bind_res (web3_connect (web3_config_of st) nd) (\<lambda>h. Ret (Web3Registry (web3_config_of st) h)))
      else Ret SqliteRegistry)"

definition SCHEMA_VERSION :: int where "SCHEMA_VERSION = 1"

definition probe_database :: "int \<Rightarrow> jdict res" where
  "probe_database schema_version =
     (if schema_version \<noteq> SCHEMA_VERSION then Raise (RuntimeError ''database schema version does not match supported version'')
      else Ret [(''ok'', JBool True), (''schema_version'', JInt schema_version)])"

definition probe_registry :: "service_registry \<Rightarrow> 'c web3_node \<Rightarrow> int \<Rightarrow> jdict res" where
  "probe_registry reg nd latest_block =
     (case reg of
        SqliteRegistry \<Rightarrow> Ret [(''ok'', JBool True), (''mode'', JStr ''sqlite'')]
      | Web3Registry cfg pinned \<Rightarrow>
          if n_chain_id nd \<noteq> w3_expected_chain_id cfg then Raise (RuntimeError ''Registry chain ID changed'')
          else if n_code nd (w3_contract_address cfg) = [] then Raise (RuntimeError ''Registry contract has no runtime code'')
          else let actual = normalize_hex_hash (n_keccak_hex nd (n_code nd (w3_contract_address cfg))) in
            if actual \<noteq> pinned then Raise (RuntimeError ''Registry contract runtime code hash changed'')
            else Ret [(''ok'', JBool True), (''mode'', JStr ''web3''), (''chain_id'', JInt (n_chain_id nd)),
                      (''latest_block'', JInt latest_block), (''contract_code_hash'', JStr actual)])"

end
