(* ===== verification/HttpSecurity.thy ===== *)
theory HttpSecurity
  imports Json
begin

text \<open>
  \<open>common/http_security.py\<close>: the middleware that bounds the body of a request before the application sees it.  The
  messages that the server will deliver are a list; when it ends the middleware waits.
\<close>

section \<open>Requests\<close>

record http_message =
  hm_type :: string
  hm_body :: bytes
  hm_more_body :: bool

record http_scope =
  hs_type :: string
  hs_headers :: "(string \<times> string) list"

datatype http_outcome =
    PassedThrough
  | Rejected string
  | Forwarded "http_message list" "http_message list"
  | Waiting

datatype read_outcome = TooLarge | Complete "http_message list" "http_message list" | MoreNeeded

text \<open>The loop that reads the body; \<open>seen\<close> are the messages received so far, \<open>received\<close> their size.\<close>

fun read_body :: "nat \<Rightarrow> nat \<Rightarrow> http_message list \<Rightarrow> http_message list \<Rightarrow> read_outcome" where
  "read_body max_bytes received seen [] = MoreNeeded"
| "read_body max_bytes received seen (msg # rest) =
     (if hm_type msg \<noteq> ''http.request'' then Complete (seen @ [msg]) rest
      else let total = received + length (hm_body msg) in
        if max_bytes < total then TooLarge
        else if \<not> hm_more_body msg then Complete (seen @ [msg]) rest
        else read_body max_bytes total (seen @ [msg]) rest)"

text \<open>\<open>__init__\<close>\<close>

definition middleware_limit :: "int \<Rightarrow> nat res" where
  "middleware_limit max_bytes = (if max_bytes < 1 then Raise (ValueError ''max request body size must be positive'') else Ret (nat max_bytes))"

text \<open>The last of several headers of one name counts.\<close>

definition request_header :: "http_scope \<Rightarrow> string \<Rightarrow> string option" where
  "request_header sc name = dict_get (dict_update [] (map (\<lambda>(k, v). (py_lower k, v)) (hs_headers sc))) name"

definition limit_request_body :: "nat \<Rightarrow> http_scope \<Rightarrow> http_message list \<Rightarrow> http_outcome" where
  "limit_request_body max_bytes sc messages =
     (if hs_type sc \<noteq> ''http'' then PassedThrough
      else case (case request_header sc ''content-length'' of
                   None \<Rightarrow> Ret ()
                 | Some v \<Rightarrow> (case py_int_of_str v of
                     Inl _ \<Rightarrow> Raise (ValueError ''invalid Content-Length'')
                   | Inr n \<Rightarrow> if int max_bytes < n then Raise (ValueError ''request body too large'') else Ret ())) of
             Inl (ValueError detail) \<Rightarrow> Rejected detail
           | Inl _ \<Rightarrow> Rejected ''request body too large''
           | Inr _ \<Rightarrow> (case read_body max_bytes 0 [] messages of
               TooLarge \<Rightarrow> Rejected ''request body too large''
             | Complete seen rest \<Rightarrow> Forwarded seen rest
             | MoreNeeded \<Rightarrow> Waiting))"

text \<open>\<open>_reject\<close>: the status, the length announced and the body.\<close>

definition reject_response :: "string \<Rightarrow> int \<times> nat \<times> string" where
  "reject_response detail = (let body = canonical_json_text (JObj [(''detail'', JStr detail)]) in (413, length body, body))"

text \<open>What the application receives on its \<open>n\<close>-th call: the stored messages, then empty ones.\<close>

definition replay_receive :: "http_message list \<Rightarrow> nat \<Rightarrow> http_message" where
  "replay_receive seen n = (if n < length seen then seen ! n else \<lparr>hm_type = ''http.request'', hm_body = [], hm_more_body = False\<rparr>)"

section \<open>The bound\<close>

definition body_of :: "http_message list \<Rightarrow> bytes" where
  "body_of ms = concat (map hm_body (takeWhile (\<lambda>m. hm_type m = ''http.request'') ms))"

lemma body_of_snoc: "list_all (\<lambda>m. hm_type m = ''http.request'') seen \<Longrightarrow>
    body_of (seen @ ms) = concat (map hm_body seen) @ body_of ms"
  by (induction seen) (simp_all add: body_of_def)

lemma read_body_Complete:
  assumes "read_body max_bytes received seen messages = Complete ms rest" and "list_all (\<lambda>m. hm_type m = ''http.request'') seen"
    and "received = length (concat (map hm_body seen))" and "received \<le> max_bytes"
  shows "ms @ rest = seen @ messages \<and> length (body_of ms) \<le> max_bytes"
  using assms
proof (induction max_bytes received seen messages rule: read_body.induct)
  case (2 max_bytes received seen msg rest')
  then show ?case by (auto simp: Let_def body_of_snoc split: if_splits) (simp_all add: body_of_def)
qed simp

lemma read_body_TooLarge:
  assumes "read_body max_bytes received seen messages = TooLarge"
    and "received = length (concat (map hm_body seen))"
  shows "\<exists>ms rest. messages = ms @ rest \<and> list_all (\<lambda>m. hm_type m = ''http.request'') ms \<and> max_bytes < received + length (body_of ms)"
  using assms
proof (induction max_bytes received seen messages rule: read_body.induct)
  case (2 max_bytes received seen msg rest')
  show ?case
  proof (cases "max_bytes < received + length (hm_body msg)")
    case True
    have "hm_type msg = ''http.request''" using "2.prems"(1) by (simp split: if_splits)
    then show ?thesis using True by (intro exI[of _ "[msg]"] exI[of _ rest']) (simp add: body_of_def)
  next
    case False
    then have m: "hm_type msg = ''http.request''" "hm_more_body msg"
      "read_body max_bytes (received + length (hm_body msg)) (seen @ [msg]) rest' = TooLarge"
      using "2.prems"(1) by (simp_all add: Let_def split: if_splits)
    obtain ms rest where "rest' = ms @ rest" "list_all (\<lambda>m. hm_type m = ''http.request'') ms"
      "max_bytes < received + length (hm_body msg) + length (body_of ms)"
      using "2.IH"[OF _ refl False _ m(3)] m(1,2) "2.prems"(2) by auto
    then show ?thesis using m(1) by (intro exI[of _ "msg # ms"] exI[of _ rest]) (simp add: body_of_def)
  qed
qed simp

text \<open>C26. The application never sees more than \<open>max_bytes\<close> of body: a request that is handed on was read completely, its body is within
  the limit, the application is replayed exactly the messages that came in and nothing else, and no message is lost; a request that is
  refused for its size announced more than the limit or had already sent more.\<close>

theorem request_body_bounded:
  assumes "hs_type sc = ''http''"
  shows "(case limit_request_body max_bytes sc messages of
      Forwarded seen rest \<Rightarrow> seen @ rest = messages \<and> length (body_of seen) \<le> max_bytes \<and>
        map (replay_receive seen) [0..<length seen] = seen \<and> (\<forall>n \<ge> length seen. hm_body (replay_receive seen n) = [])
    | Rejected detail \<Rightarrow> (\<exists>v. request_header sc ''content-length'' = Some v \<and> (\<forall>n. py_int_of_str v = Ret n \<longrightarrow> int max_bytes < n)) \<or>
        (\<exists>ms rest. messages = ms @ rest \<and> max_bytes < length (body_of ms))
    | PassedThrough \<Rightarrow> False
    | Waiting \<Rightarrow> True)"
proof -
  have rb: "case read_body max_bytes 0 [] messages of
      Complete seen rest \<Rightarrow> seen @ rest = messages \<and> length (body_of seen) \<le> max_bytes
    | TooLarge \<Rightarrow> (\<exists>ms rest. messages = ms @ rest \<and> max_bytes < length (body_of ms))
    | MoreNeeded \<Rightarrow> True"
    using read_body_Complete[of max_bytes 0 "[]" messages] read_body_TooLarge[of max_bytes 0 "[]" messages]
    by (auto split: read_outcome.split)
  have replay: "map (replay_receive seen) [0..<length seen] = seen \<and> (\<forall>n \<ge> length seen. hm_body (replay_receive seen n) = [])" for seen
    by (auto simp: replay_receive_def intro: nth_equalityI)
  show ?thesis
  proof (cases "request_header sc ''content-length''")
    case None
    then show ?thesis using rb replay assms by (auto simp: limit_request_body_def split: read_outcome.splits)
  next
    case (Some v)
    then show ?thesis using rb replay assms
      by (cases "py_int_of_str v") (auto simp: limit_request_body_def split: read_outcome.splits)
  qed
qed

theorem request_body_bounded_witness:
  "let m = \<lparr>hm_type = ''http.request'', hm_body = [1, 2], hm_more_body = True\<rparr>; l = \<lparr>hm_type = ''http.request'', hm_body = [3], hm_more_body = False\<rparr>;
       sc = \<lparr>hs_type = ''http'', hs_headers = [(''Content-Length'', ''3'')]\<rparr> in
     limit_request_body 3 sc [m, l] = Forwarded [m, l] [] \<and> length (body_of [m, l]) \<le> 3 \<and> replay_receive [m, l] 0 = m \<and>
     limit_request_body 2 \<lparr>hs_type = ''http'', hs_headers = []\<rparr> [m, l] = Rejected ''request body too large''"
proof -
  let ?m = "\<lparr>hm_type = ''http.request'', hm_body = [1, 2], hm_more_body = True\<rparr>" and ?l = "\<lparr>hm_type = ''http.request'', hm_body = [3], hm_more_body = False\<rparr>"
  let ?sc = "\<lparr>hs_type = ''http'', hs_headers = [(''Content-Length'', ''3'')]\<rparr>"
  have "limit_request_body 3 ?sc [?m, ?l] = Forwarded [?m, ?l] []" by code_simp
  moreover have "limit_request_body 2 \<lparr>hs_type = ''http'', hs_headers = []\<rparr> [?m, ?l] = Rejected ''request body too large''" by code_simp
  ultimately show ?thesis using request_body_bounded[of ?sc 3 "[?m, ?l]"] by (simp add: Let_def)
qed

end
