(* ===== verification/Services.thy ===== *)
theory Services
  imports Settings HttpSecurity Coordinator AgentIdentity Publisher DnsMessage Indexer
begin

text \<open>
  The services around the verifier: how the wrapper, the agent and the administration build their parts from the
  settings (\<open>wrapper/app.py\<close>, \<open>wrapper/runtime.py\<close>, \<open>agent/app.py\<close>, \<open>admin/routes_admin.py\<close>), and what the handlers of
  their routes and sockets do with a request (\<open>wrapper/routes_*.py\<close>, \<open>indexer/routes_*.py\<close>, \<open>wrapper/dns_udp.py\<close>,
  \<open>wrapper/dns_tcp.py\<close>, \<open>wrapper/monitoring.py\<close>).  Routing, sockets and the event loop are not modelled.
\<close>

text \<open>The answer of a route: a value, or an \<open>HTTPException\<close> with its status and detail; other exceptions are the server's.\<close>

datatype 'a http = Answer 'a | HttpError nat string

section \<open>The wrapper\<close>

definition service_policy :: "settings \<Rightarrow> policy" where
  "service_policy st = \<lparr>po_allowed_transports = [''udp'', ''tcp'', ''doh''], po_soft_ttl_seconds = snum st ''soft_ttl_seconds'',
     po_hard_ttl_seconds = snum st ''hard_ttl_seconds''\<rparr>"

definition service_verifier :: "ed25519 \<Rightarrow> (string \<Rightarrow> json res) \<Rightarrow> settings \<Rightarrow> verifier_cfg res" where
  "service_verifier lib read_json st =
     bind_res (load_issuer_key_registry read_json (stext st ''issuer_keys_file'')) (\<lambda>keys.
     Ret \<lparr>vc_lib = lib, vc_policy = service_policy st, vc_signature_secret = stext st ''signature_secret'', vc_issuer_keys = keys,
        vc_allow_hmac_signatures = sbool st ''allow_hmac_object_signatures''\<rparr>)"

definition wrapper_chain_provider :: "settings \<Rightarrow> (string \<Rightarrow> json res) \<Rightarrow> (string \<Rightarrow> json \<Rightarrow> json res) \<Rightarrow> chain_provider option res" where
  "wrapper_chain_provider st get post =
     (if stext st ''agent_base_urls'' \<noteq> []
      then bind_res (parse_agent_base_urls (stext st ''agent_base_urls'')) (\<lambda>urls.
           Ret (Some \<lparr>cp_agent_base_urls = urls, cp_signature_secret = stext st ''signature_secret'', cp_strict = True,
             cp_max_clock_skew_seconds = 5, cp_max_depth = 4, cp_allow_hmac_fallback = False, cp_distributed_verification = True,
             cp_require_challenge = production st, cp_has_state_repository = True, cp_get = get, cp_post = post\<rparr>))
      else if sbool st ''require_distributed_verification''
      then Raise (ValueError ''distributed verification is required but no Agent URL is configured'')
      else Ret None)"

definition wrapper_coordinator ::
  "ed25519 \<Rightarrow> (string \<Rightarrow> json res) \<Rightarrow> settings \<Rightarrow> (string \<Rightarrow> json res) \<Rightarrow> (string \<Rightarrow> json \<Rightarrow> json res) \<Rightarrow> coordinator res" where
  "wrapper_coordinator lib read_json st get post =
     bind_res (service_verifier lib read_json st) (\<lambda>cfg.
     bind_res (wrapper_chain_provider st get post) (\<lambda>p.
     Ret \<lparr>qc_cfg = cfg, qc_provider = (case p of None \<Rightarrow> FirstHop | Some cp \<Rightarrow> Agent cp), qc_audit = sbool st ''persist_query_audit'',
        qc_strict_observation = True\<rparr>))"

definition wrapper_upstreams :: "settings \<Rightarrow> upstream list res" where
  "wrapper_upstreams st = bind_res (settings_upstream_specs st) (\<lambda>specs. Ret (map (\<lambda>(ip, port, transport). new_upstream ip port transport) specs))"

section \<open>DNS over UDP and TCP\<close>

datatype datagram_action = ServeFail bytes | StartQuery bytes

text \<open>\<open>datagram_received\<close> with the number of queries in flight.\<close>

definition datagram_received :: "int \<Rightarrow> nat \<Rightarrow> bytes \<Rightarrow> datagram_action" where
  "datagram_received max_inflight inflight data = (if max_inflight \<le> int inflight then ServeFail (make_servfail data) else StartQuery data)"

text \<open>The framing of \<open>handle_tcp_dns\<close> and \<open>query_tcp\<close>; \<open>readexactly\<close> raises at the end of the stream.\<close>

definition read_exactly :: "nat \<Rightarrow> bytes \<Rightarrow> (bytes \<times> bytes) res" where
  "read_exactly n s = (if length s < n then Raise (RuntimeError ''IncompleteReadError'') else Ret (take n s, drop n s))"

definition read_frame :: "bytes \<Rightarrow> (bytes \<times> bytes) res" where
  "read_frame s = bind_res (read_exactly 2 s) (\<lambda>(size, rest). read_exactly (int_from_bytes_be size) rest)"

definition write_frame :: "bytes \<Rightarrow> bytes res" where
  "write_frame m = (if 65536 \<le> length m then Raise (OverflowError ''int too big to convert'')
     else Ret ([of_nat (length m div 256), of_nat (length m mod 256)] @ m))"

section \<open>Routes of the wrapper\<close>

definition route_verify_resolver :: "verifier_cfg \<Rightarrow> verify_env \<Rightarrow> jdict \<Rightarrow> jdict cmop" where
  "route_verify_resolver cfg env payload =
     (case dict_get payload ''endpoint'' of
        None \<Rightarrow> raiseS (KeyError ''endpoint'')
      | Some v \<Rightarrow> bindS (liftS (endpoint_of_json v)) (\<lambda>ep. bindS (verify_endpoint cfg env ep) (\<lambda>r. retS (vr_to_dict r))))"

fun verify_each :: "verifier_cfg \<Rightarrow> (nat \<Rightarrow> verify_env) \<Rightarrow> nat \<Rightarrow> endpoint list \<Rightarrow> verification_result list cmop" where
  "verify_each cfg envs i [] = retS []"
| "verify_each cfg envs i (ep # eps) =
     bindS (verify_endpoint cfg (envs i) ep) (\<lambda>r. bindS (verify_each cfg envs (Suc i) eps) (\<lambda>rs. retS (r # rs)))"

definition route_verify_query :: "verifier_cfg \<Rightarrow> (nat \<Rightarrow> verify_env) \<Rightarrow> jdict \<Rightarrow> jdict cmop" where
  "route_verify_query cfg envs payload =
     bindS (liftS (as_list (jget payload ''observed_resolvers'' (JArr [])))) (\<lambda>items.
     bindS (liftS (map_res endpoint_of_json items)) (\<lambda>eps.
     if eps = [] then retS [(''accepted'', JBool False), (''reason'', JStr ''no_observed_resolvers''), (''results'', JArr [])]
     else bindS (verify_each cfg envs 0 eps) (\<lambda>rs.
       retS [(''accepted'', JBool (list_all vr_accepted rs)), (''results'', JArr (map (\<lambda>r. JObj (vr_to_dict r)) rs))])))"

text \<open>The invalidation routes take the new status from the query string.\<close>

definition route_invalidate_resolver :: "string \<Rightarrow> string option \<Rightarrow> jdict cmop" where
  "route_invalidate_resolver resolver_id status =
     (let st = (case status of None \<Rightarrow> ''REVOKED'' | Some s \<Rightarrow> s) in
      seqS (invalidate_resolver resolver_id st) (retS [(''resolver_id'', JStr resolver_id), (''status'', JStr st)]))"

definition route_invalidate_root :: "string \<Rightarrow> string option \<Rightarrow> jdict cmop" where
  "route_invalidate_root state_root status =
     (let st = (case status of None \<Rightarrow> ''REVOKED'' | Some s \<Rightarrow> s) in
      seqS (invalidate_root state_root st) (retS [(''state_root'', JStr state_root), (''status'', JStr st)]))"

definition route_refresh_cache :: "registry_view \<Rightarrow> jdict cmop" where
  "route_refresh_cache reg =
     bindS (refresh_registry_state reg) (\<lambda>(checked, expired, revoked).
     retS [(''checked'', JInt checked), (''expired'', JInt expired), (''revoked'', JInt revoked), (''enabled'', JBool True)])"

definition route_get_proof :: "string \<Rightarrow> (journal, journal_entry http) op" where
  "route_get_proof request_id =
     bindS (journal_get request_id) (\<lambda>e. retS (case e of None \<Rightarrow> HttpError 404 ''request_id not found'' | Some x \<Rightarrow> Answer x))"

text \<open>The monitoring server: the status line and the kind of answer for the path of a request; \<open>ready\<close> is the readiness check.\<close>

definition monitoring_answer :: "unit res \<Rightarrow> string \<Rightarrow> string \<times> string" where
  "monitoring_answer ready path =
     (if path = ''/metrics'' then (''200 OK'', ''text/plain; version=0.0.4; charset=utf-8'')
      else if path = ''/healthz'' then (''200 OK'', ''application/json'')
      else if path = ''/readyz'' then (case ready of Inr _ \<Rightarrow> (''200 OK'', ''application/json'') | Inl _ \<Rightarrow> (''503 Service Unavailable'', ''application/json''))
      else (''404 Not Found'', ''application/json''))"

section \<open>Routes of the indexer\<close>

definition found_or_404 :: "'a option \<Rightarrow> 'a http" where
  "found_or_404 v = (case v of None \<Rightarrow> HttpError 404 ''not found'' | Some x \<Rightarrow> Answer x)"

definition route_lookup_ip :: "string \<Rightarrow> lookup_row http dbop" where
  "route_lookup_ip ip = bindS (liftS (ip_lookup_key ip)) (\<lambda>k. bindS (lookup k) (\<lambda>r. retS (found_or_404 r)))"

definition route_lookup_name :: "string \<Rightarrow> lookup_row http dbop" where
  "route_lookup_name name = bindS (lookup (name_lookup_key name)) (\<lambda>r. retS (found_or_404 r))"

definition route_proof :: "string \<Rightarrow> jdict http dbop" where
  "route_proof resolver_id = bindS (get_proof resolver_id) (\<lambda>r. retS (found_or_404 r))"

definition route_root :: "string \<Rightarrow> (string \<times> string) http dbop" where
  "route_root state_root = bindS (get_root state_root) (\<lambda>r. retS (found_or_404 r))"

section \<open>Administration\<close>

definition authorize_admin :: "string option \<Rightarrow> string option \<Rightarrow> unit http res" where
  "authorize_admin admin_token x_admin_token =
     (case admin_token of
        None \<Rightarrow> Ret (Answer ())
      | Some t \<Rightarrow> (case x_admin_token of
          None \<Rightarrow> Ret (HttpError 401 ''invalid admin token'')
        | Some x \<Rightarrow> bind_res (compare_digest x t) (\<lambda>ok. Ret (if ok then Answer () else HttpError 401 ''invalid admin token''))))"

text \<open>\<open>create_resolver\<close>: \<open>built\<close> is what \<open>build_resolver_object\<close> makes of the payload.\<close>

definition route_create_resolver :: "publisher \<Rightarrow> auth_object res \<Rightarrow> jdict http dbop" where
  "route_create_resolver p built d =
     (case bindS (liftS built) (\<lambda>ob. publish p ob None) d of
        (Inr r, d') \<Rightarrow> (Ret (Answer r), d')
      | (Inl (KeyError _), d') \<Rightarrow> (Ret (HttpError 422 ''invalid resolver object payload''), d')
      | (Inl (TypeError _), d') \<Rightarrow> (Ret (HttpError 422 ''invalid resolver object payload''), d')
      | (Inl (ValueError m), d') \<Rightarrow> (Ret (HttpError 409 m), d')
      | (Inl e, d') \<Rightarrow> (Inl e, d'))"

definition route_revoke_resolver :: "string \<Rightarrow> jdict dbop" where
  "route_revoke_resolver resolver_id =
     seqS (reg_revoke_resolver (resolver_id_key resolver_id)) (retS [(''resolver_id'', JStr resolver_id), (''status'', JStr ''REVOKED'')])"

definition route_publish_root :: "publisher \<Rightarrow> jdict \<Rightarrow> jdict dbop" where
  "route_publish_root p payload =
     (case dict_get payload ''state_root'' of
        None \<Rightarrow> raiseS (KeyError ''state_root'')
      | Some v \<Rightarrow>
          bindS (liftS (as_str v)) (\<lambda>r. bindS (liftS (as_str (jget payload ''status'' (JStr ''ACTIVE'')))) (\<lambda>st.
          seqS (rb_publish_root (pb_registry p) r st) (seqS (idx_publish_root r st)
          (retS [(''state_root'', v), (''status'', JStr st)])))))"

section \<open>The agent\<close>

definition identity_payload :: "ed25519 \<Rightarrow> settings \<Rightarrow> int \<Rightarrow> jdict res" where
  "identity_payload lib st now =
     bind_res (settings_agent_endpoint st) (\<lambda>ep. bind_res (settings_agent_upstreams st) (\<lambda>ups.
     if stext st ''agent_private_key_b64'' \<noteq> []
     then build_agent_identity_ed25519 lib (stext st ''agent_resolver_id'') ep ups (stext st ''agent_config_version'')
            (stext st ''agent_private_key_b64'') now (snum st ''agent_max_age_seconds'') ''ok'' (stext st ''agent_issuer'') (stext st ''agent_key_id'')
     else build_agent_identity (stext st ''agent_resolver_id'') ep ups (stext st ''agent_config_version'')
            (stext st ''agent_signature_secret'') now (snum st ''agent_max_age_seconds'') ''ok'' (stext st ''agent_issuer'') (stext st ''agent_key_id'')))"

definition distributed_agent :: "settings \<Rightarrow> verifier_cfg \<Rightarrow> (string \<Rightarrow> json \<Rightarrow> json res) \<Rightarrow> dist_agent res" where
  "distributed_agent st cfg fetch =
     bind_res (settings_agent_endpoint st) (\<lambda>ep. bind_res (settings_agent_upstreams st) (\<lambda>ups.
     bind_res (agent_terminal_upstream_endpoints st) (\<lambda>terminal.
     bind_res (if stext st ''agent_upstream_agent_base_urls'' = [] then Ret [] else parse_agent_base_urls (stext st ''agent_upstream_agent_base_urls'')) (\<lambda>urls.
     Ret \<lparr>da_resolver_id = stext st ''agent_resolver_id'', da_endpoint = ep, da_upstreams = ups, da_config_version = stext st ''agent_config_version'',
        da_private_key_b64 = stext st ''agent_private_key_b64'', da_cfg = cfg, da_agent_base_urls = urls, da_terminal_upstreams = terminal,
        da_max_age_seconds = snum st ''agent_max_age_seconds'', da_max_depth = snum st ''agent_max_chain_depth'', da_max_clock_skew_seconds = 5,
        da_issuer = stext st ''agent_issuer'', da_key_id = stext st ''agent_key_id'', da_fetch = fetch\<rparr>))))"

definition verification_chain_payload ::
  "ed25519 \<Rightarrow> (string \<Rightarrow> json res) \<Rightarrow> settings \<Rightarrow> (string \<Rightarrow> json \<Rightarrow> json res) \<Rightarrow> json \<Rightarrow> (nat \<Rightarrow> verify_env) \<Rightarrow> (nat \<Rightarrow> int) \<Rightarrow> jdict cmop" where
  "verification_chain_payload lib read_json st fetch challenge envs clock =
     (if stext st ''agent_private_key_b64'' = []
      then raiseS (RuntimeError ''distributed verification chain requires RESOLVER_IDENTITY_AGENT_PRIVATE_KEY_B64'')
      else bindS (liftS (service_verifier lib read_json st)) (\<lambda>cfg.
           bindS (liftS (distributed_agent st cfg fetch)) (\<lambda>a. build_chain_payload a challenge envs clock)))"

definition challenge_ok :: "json \<Rightarrow> bool" where
  "challenge_ok challenge = (case challenge of JStr s \<Rightarrow> 32 \<le> length s \<and> length s \<le> 256 | _ \<Rightarrow> False)"

definition challenged_verification_chain ::
  "ed25519 \<Rightarrow> (string \<Rightarrow> json res) \<Rightarrow> settings \<Rightarrow> (string \<Rightarrow> json \<Rightarrow> json res) \<Rightarrow> jdict \<Rightarrow> (nat \<Rightarrow> verify_env) \<Rightarrow> (nat \<Rightarrow> int) \<Rightarrow> jdict http cmop" where
  "challenged_verification_chain lib read_json st fetch payload envs clock =
     (if \<not> challenge_ok (jget0 payload ''challenge'') then retS (HttpError 422 ''challenge must be a 32-256 character string'')
      else bindS (verification_chain_payload lib read_json st fetch (jget0 payload ''challenge'') envs clock) (\<lambda>r. retS (Answer r)))"

definition route_upstreams :: "jdict \<Rightarrow> jdict res" where
  "route_upstreams payload = map_res (\<lambda>k. case dict_get payload k of None \<Rightarrow> Raise (KeyError k) | Some v \<Rightarrow> Ret (k, v))
     [''resolver_id'', ''endpoint'', ''upstreams'', ''config_version'', ''issued_at'', ''expires_at'', ''signature'']"

section \<open>What production settings guarantee\<close>

lemma starts_with_lower: "starts_with h ''0x'' \<Longrightarrow> starts_with (py_lower h) ''0x''"
  by (auto simp: starts_with_iff py_lower_def lower_char_def)

lemma normalize_hex_hash_0x: "starts_with h ''0x'' \<Longrightarrow> normalize_hex_hash h = py_lower h"
  by (simp add: normalize_hex_hash_def starts_with_lower)

lemma validated_production:
  assumes "load_settings e (Some service) = Ret st" and "production st" and "service \<noteq> []"
  shows "validate_production st = Ret () \<and> validate_service st service = Ret ()"
  using assms by (auto simp: load_settings_def truthy_text_def validate_for_def)

lemma web3_connect_Ret:
  assumes "web3_connect cfg nd = Ret h"
  shows "h = normalize_hex_hash (n_keccak_hex nd (n_code nd (w3_contract_address cfg))) \<and> n_chain_id nd = w3_expected_chain_id cfg \<and>
    n_code nd (w3_contract_address cfg) \<noteq> [] \<and>
    (truthy_text (w3_expected_code_hash cfg) \<longrightarrow> h = normalize_hex_hash (the (w3_expected_code_hash cfg)))"
  using assms by (auto simp: web3_connect_def web3_error_def Let_def split: if_splits)

text \<open>The registry code that a node runs is the pinned one.\<close>

definition pinned_registry :: "settings \<Rightarrow> 'c web3_node \<Rightarrow> bool" where
  "pinned_registry st nd \<longleftrightarrow> n_chain_id nd = snum st ''web3_chain_id'' \<and> n_code nd (stext st ''web3_contract_address'') \<noteq> [] \<and>
     normalize_hex_hash (n_keccak_hex nd (n_code nd (stext st ''web3_contract_address''))) = py_lower (stext st ''web3_contract_code_hash'')"

lemma created_registry_pinned:
  assumes "validate_production st = Ret ()" and "create_registry_backend st artifact nd = Ret reg"
  shows "pinned_registry st nd \<and> (\<forall>(nd' :: 'd web3_node) b r. probe_registry reg nd' b = Ret r \<longrightarrow> pinned_registry st nd')"
proof -
  have v: "py_lower (stext st ''registry_mode'') = ''web3''" "code_hash_ok (stext st ''web3_contract_code_hash'')"
    "stext st ''web3_contract_code_hash'' \<noteq> []" using assms(1) by (simp_all add: validate_production_def)
  then obtain h where h: "reg = Web3Registry (web3_config_of st) h" "web3_connect (web3_config_of st) nd = Ret h"
    using assms(2) by (auto simp: create_registry_backend_def split: if_splits)
  have "normalize_hex_hash (stext st ''web3_contract_code_hash'') = py_lower (stext st ''web3_contract_code_hash'')"
    using v(2) by (intro normalize_hex_hash_0x) (simp add: code_hash_ok_def)
  then have hh: "h = py_lower (stext st ''web3_contract_code_hash'')" and nd: "pinned_registry st nd"
    using web3_connect_Ret[OF h(2)] v(3) by (auto simp: web3_config_of_def opt_setting_def truthy_text_def pinned_registry_def)
  have "pinned_registry st nd'" if "probe_registry reg nd' b = Ret r" for nd' :: "'d web3_node" and b r
    using that hh by (auto simp: h(1) probe_registry_def pinned_registry_def web3_config_of_def Let_def split: if_splits)
  then show ?thesis using nd by blast
qed

text \<open>An agent URL that may be used: \<open>https\<close>, or \<open>http\<close> to a host of the allow-list.\<close>

definition url_allowed :: "string list \<Rightarrow> string \<Rightarrow> bool" where
  "url_allowed hosts u \<longleftrightarrow> (\<exists>p host. urlparse (py_strip u) = Ret p \<and> url_hostname p = Some host \<and>
     (u_scheme p = ''https'' \<or> (u_scheme p = ''http'' \<and> host \<in> set hosts)))"

lemma map_res_all: "map_res f xs = Ret ys \<Longrightarrow> x \<in> set xs \<Longrightarrow> \<exists>y. f x = Ret y"
  by (induction xs arbitrary: ys) auto

lemma set_dict_set: "set (dict_set d k v) \<subseteq> insert (k, v) (set d)"
  by (induction d k v rule: dict_set.induct) auto

lemma agent_url_entry_split:
  assumes "agent_url_entry item = Ret (k, u)"
  shows "\<exists>a. split_pair (CHR ''='') item = Ret (a, u)"
proof -
  obtain a b where ab: "split_pair (CHR ''='') item = Ret (a, b)" using assms by (auto simp: agent_url_entry_def)
  consider "split_on (CHR '':'') a = []" | ip where "split_on (CHR '':'') a = [ip]" | ip port rest where "split_on (CHR '':'') a = ip # port # rest"
    by (metis list.exhaust)
  then show ?thesis using assms ab by cases (auto simp: agent_url_entry_def)
qed

lemma checked_entry:
  assumes "check_agent_url hosts entry = Ret ()" and "py_strip entry \<noteq> []" and "agent_url_entry (py_strip entry) = Ret (k, u)"
  shows "url_allowed hosts u"
proof -
  have u: "u = tl (dropWhile (\<lambda>x. x \<noteq> CHR ''='') (py_strip entry))"
    using agent_url_entry_split[OF assms(3)] by (auto simp: split_pair_def split: if_splits)
  show ?thesis using assms(1,2) unfolding u
    by (auto simp: check_agent_url_def partition_at_def Let_def url_allowed_def split: option.splits if_splits)
qed

lemma added_urls_allowed:
  assumes "add_url_entries items out = Ret urls" and "\<forall>i\<in>set items. check_agent_url hosts i = Ret ()"
    and "\<forall>(k, u)\<in>set out. url_allowed hosts u"
  shows "\<forall>(k, u)\<in>set urls. url_allowed hosts u"
  using assms
proof (induction items out arbitrary: urls rule: add_url_entries.induct)
  case (2 entry items out)
  show ?case
  proof (cases "py_strip entry = []")
    case True
    then show ?thesis using "2.IH"(1)[OF refl True] "2.prems" by simp
  next
    case False
    then obtain k u where e: "agent_url_entry (py_strip entry) = Ret (k, u)" "add_url_entries items (dict_set out k u) = Ret urls"
      using "2.prems"(1) by (auto simp: Let_def)
    have "url_allowed hosts u" using checked_entry[OF _ False e(1)] "2.prems"(2) by simp
    then have "\<forall>(k, u)\<in>set (dict_set out k u). url_allowed hosts u" using "2.prems"(3) set_dict_set[of out k u] by fastforce
    then show ?thesis using "2.IH"(2)[OF refl False e(1) refl e(2)] "2.prems"(2) by simp
  qed
qed simp

lemma check_unit: "check_agent_url hosts i = Ret y \<Longrightarrow> y = ()"
  by simp

lemma validated_urls_allowed:
  assumes "validate_agent_url_config spec hosts = Ret ()" and "parse_agent_base_urls spec = Ret urls"
  shows "\<forall>(k, u)\<in>set urls. url_allowed hosts u"
proof (rule added_urls_allowed[of "split_on CHR '','' spec" "[]"])
  show "add_url_entries (split_on CHR '','' spec) [] = Ret urls" using assms(2) by (simp add: parse_agent_base_urls_def)
  obtain ys where "map_res (check_agent_url hosts) (split_on CHR '','' spec) = Ret ys"
    using assms(1) by (auto simp: validate_agent_url_config_def)
  then show "\<forall>i\<in>set (split_on CHR '','' spec). check_agent_url hosts i = Ret ()" using map_res_all by fastforce
qed simp

text \<open>C15. A wrapper that starts in production is hardened: whatever the environment says, if its settings load, then its
  registry is a contract with the pinned code on the configured chain, at start and whenever its readiness probe succeeds,
  over \<open>https\<close>; object signatures with a shared secret are not accepted; and DNS answers are gated by the chain of agents, which
  must answer a challenge and are only asked under URLs that use \<open>https\<close> or an allow-listed host.\<close>

theorem production_wrapper_hardened:
  assumes "load_settings e (Some ''wrapper'') = Ret st" and "production st"
    and "create_registry_backend st artifact nd = Ret reg" and "wrapper_coordinator lib read_json st get post = Ret co"
  shows "pinned_registry st nd \<and> (\<forall>(nd' :: 'd web3_node) b r. probe_registry reg nd' b = Ret r \<longrightarrow> pinned_registry st nd') \<and>
    starts_with (py_lower (stext st ''web3_rpc_url'')) ''https://'' \<and> \<not> vc_allow_hmac_signatures (qc_cfg co) \<and> vc_issuer_keys (qc_cfg co) \<noteq> None \<and>
    (\<exists>cp. qc_provider co = Agent cp \<and> cp_require_challenge cp \<and> cp_strict cp \<and> cp_distributed_verification cp \<and>
       (\<forall>(k, u)\<in>set (cp_agent_base_urls cp). url_allowed (agent_plaintext_host_set st) u))"
proof -
  have v: "validate_production st = Ret ()" "validate_service st ''wrapper'' = Ret ()" using validated_production[OF assms(1,2)] by simp_all
  have p: "starts_with (py_lower (stext st ''web3_rpc_url'')) ''https://''" "\<not> sbool st ''allow_hmac_object_signatures''" "stext st ''issuer_keys_file'' \<noteq> []"
    using v(1) by (simp_all add: validate_production_def)
  have w: "stext st ''agent_base_urls'' \<noteq> []" "validate_agent_url_config (stext st ''agent_base_urls'') (agent_plaintext_host_set st) = Ret ()"
    using v(2) by (auto simp: validate_service_def)
  obtain cfg cp where c: "service_verifier lib read_json st = Ret cfg" "wrapper_chain_provider st get post = Ret (Some cp)"
    "qc_cfg co = cfg" "qc_provider co = Agent cp"
    using assms(4) w(1) by (auto simp: wrapper_coordinator_def wrapper_chain_provider_def)
  have cfg: "\<not> vc_allow_hmac_signatures cfg" "vc_issuer_keys cfg \<noteq> None"
    using c(1) p(2,3) by (auto simp: service_verifier_def load_issuer_key_registry_def)
  obtain urls where urls: "parse_agent_base_urls (stext st ''agent_base_urls'') = Ret urls"
    and cp: "cp_agent_base_urls cp = urls" "cp_require_challenge cp" "cp_strict cp" "cp_distributed_verification cp"
    using c(2) w(1) assms(2) by (auto simp: wrapper_chain_provider_def)
  show ?thesis using created_registry_pinned[OF v(1) assms(3)] p(1) cfg c(3,4) cp validated_urls_allowed[OF w(2) urls] by auto
qed

section \<open>Frames and routes\<close>

lemma frame_roundtrip: "write_frame m = Ret f \<Longrightarrow> read_frame (f @ rest) = Ret (m, rest)"
proof -
  assume "write_frame m = Ret f"
  then have f: "f = [of_nat (length m div 256), of_nat (length m mod 256)] @ m" "length m < 65536"
    by (auto simp: write_frame_def split: if_splits)
  have "int_from_bytes_be [of_nat (length m div 256), of_nat (length m mod 256)] = length m"
    using f(2) by (simp add: int_from_bytes_be_def)
  then show ?thesis by (simp add: f(1) read_frame_def read_exactly_def)
qed

text \<open>A query is accepted only when every observed resolver was accepted, and an empty list never.\<close>

lemma verify_each_length: "verify_each cfg envs i eps c = (Ret rs, c') \<Longrightarrow> length rs = length eps"
  by (induction eps arbitrary: i c rs) (auto simp: bindS_Inr)

text \<open>The invalidation route takes any status, so a request with \<open>status=VERIFIED\<close> makes a revoked row a trusted one.\<close>

lemma invalidation_route_restores_trust:
  assumes "gen_is (cm_db c) n" and "t_cache (cm_db c) = [row]" and "cr_status row = ''REVOKED''"
    and "route_invalidate_resolver (cr_resolver_id row) (Some ''VERIFIED'') c = (x, c')"
  shows "t_cache (cm_db c') = [row\<lparr>cr_status := ''VERIFIED''\<rparr>]"
proof -
  obtain y c1 where i: "invalidate_resolver (cr_resolver_id row) ''VERIFIED'' c = (y, c1)" by fastforce
  note r = invalidate_resolver_rows[OF assms(1) i]
  have "c' = c1" using assms(4) r i by (simp add: route_invalidate_resolver_def seqS_def bindS_def Let_def)
  then show ?thesis using r assms(2) by simp
qed

definition demo_hash :: string where "demo_hash = ''0x'' @ replicate 64 CHR ''1''"

definition demo_environ :: process_env where
  "demo_environ = \<lparr>pe_getenv = (\<lambda>n. dict_get
     [(''ENVIRONMENT'', ''Production''), (''ALLOW_HMAC_OBJECT_SIGNATURES'', ''no''), (''ISSUER_KEYS_FILE'', ''keys.json''),
      (''REQUIRE_DISTRIBUTED_VERIFICATION'', ''yes''), (''REGISTRY_MODE'', ''web3''), (''WEB3_RPC_URL'', ''https://rpc''),
      (''WEB3_CONTRACT_ADDRESS'', ''0x01''), (''WEB3_CHAIN_ID'', ''1''), (''WEB3_CONTRACT_CODE_HASH'', demo_hash),
      (''AGENT_BASE_URLS'', ''192.0.2.53=https://agent'')] (drop 18 n)),
     pe_read_text = (\<lambda>_. Raise (ValueError ''no file''))\<rparr>"

definition demo_pinned_node :: "(contract \<times> bool) web3_node" where
  "demo_pinned_node = demo_web3_node\<lparr>n_keccak_hex := (\<lambda>_. demo_hash)\<rparr>"

definition demo_keys :: json where
  "demo_keys = JObj [(''keys'', JArr [JObj [(''issuer'', JStr ''i''), (''key_id'', JStr ''k''), (''algorithm'', JStr ''ed25519''), (''public_key'', JStr ''AA=='')]])]"

lemma demo_settings_read: "case read_settings demo_environ of Inl _ \<Rightarrow> False | Inr st \<Rightarrow>
    validate_common st = Ret () \<and> production st \<and> validate_service st ''wrapper'' = Ret () \<and>
    stext st ''agent_tls_client_cert_file'' = [] \<and> stext st ''agent_tls_client_key_file'' = [] \<and> stext st ''registry_mode'' = ''web3'' \<and>
    stext st ''web3_rpc_url'' = ''https://rpc'' \<and> stext st ''web3_contract_address'' = ''0x01'' \<and> snum st ''web3_chain_id'' = 1 \<and>
    stext st ''web3_contract_code_hash'' = demo_hash \<and> sbool st ''allow_hmac_object_signatures'' = False \<and> stext st ''issuer_keys_file'' = ''keys.json'' \<and>
    stext st ''agent_base_urls'' = ''192.0.2.53=https://agent''"
  by code_simp

lemma demo_values: "py_lower ''web3'' = ''web3''" "starts_with (py_lower ''https://rpc'') ''https://''" "py_lower ''0x01'' \<noteq> ''0x'' @ replicate 40 CHR ''0''"
    "case parse_agent_base_urls ''192.0.2.53=https://agent'' of Inl _ \<Rightarrow> False | Inr _ \<Rightarrow> True"
    "case load_issuer_key_registry (\<lambda>_. Ret demo_keys) ''keys.json'' of Inl _ \<Rightarrow> False | Inr _ \<Rightarrow> True"
  by code_simp+

lemma demo_hash_ok: "code_hash_ok demo_hash"
proof -
  have "py_int16 (replicate 64 CHR ''1'') = Ret (int (nat_of_hex (replicate 64 CHR ''1'')))" by (rule py_int16_hex[OF ones_hex]) simp
  moreover have "nat_of_hex (replicate 64 CHR ''1'') \<noteq> 0" using nat_of_hex_ones[of 63] by simp
  ultimately show ?thesis by (simp add: code_hash_ok_def demo_hash_def)
qed

lemma demo_hash_nonempty: "demo_hash \<noteq> []"
  by (simp add: demo_hash_def)

lemma demo_production:
  obtains st reg co where "load_settings demo_environ (Some ''wrapper'') = Ret st" and "production st"
    and "create_registry_backend st (Ret (JObj [(''abi'', JArr [])])) demo_pinned_node = Ret reg"
    and "wrapper_coordinator demo_ed25519 (\<lambda>_. Ret demo_keys) st (\<lambda>_. Ret JNull) (\<lambda>_ _. Ret JNull) = Ret co"
proof -
  obtain st where r: "read_settings demo_environ = Ret st" using demo_settings_read by (auto split: sum.splits)
  note f = demo_settings_read[unfolded r sum.case]
  have "validate_production st = Ret ()" using f demo_values demo_hash_ok by (simp add: validate_production_def) (simp add: demo_hash_def)
  then have 1: "load_settings demo_environ (Some ''wrapper'') = Ret st" using f r by (simp add: load_settings_def truthy_text_def validate_for_def)
  have "web3_connect (web3_config_of st) demo_pinned_node = Ret (normalize_hex_hash demo_hash)"
    using f demo_hash_nonempty by (simp add: web3_connect_def web3_config_of_def opt_setting_def demo_pinned_node_def demo_web3_node_def Let_def)
  then have 2: "create_registry_backend st (Ret (JObj [(''abi'', JArr [])])) demo_pinned_node = Ret (Web3Registry (web3_config_of st) (normalize_hex_hash demo_hash))"
    using f demo_values(1) by (simp add: create_registry_backend_def load_contract_abi_def)
  obtain urls keys where "parse_agent_base_urls ''192.0.2.53=https://agent'' = Ret urls" "load_issuer_key_registry (\<lambda>_. Ret demo_keys) ''keys.json'' = Ret keys"
    using demo_values(4,5) by (auto split: sum.splits)
  then obtain co where "wrapper_coordinator demo_ed25519 (\<lambda>_. Ret demo_keys) st (\<lambda>_. Ret JNull) (\<lambda>_ _. Ret JNull) = Ret co"
    using f by (simp add: wrapper_coordinator_def service_verifier_def wrapper_chain_provider_def)
  then show ?thesis using that 1 2 f by blast
qed

theorem production_wrapper_hardened_witness:
  "\<exists>st co. load_settings demo_environ (Some ''wrapper'') = Ret st \<and> pinned_registry st demo_pinned_node \<and>
     wrapper_coordinator demo_ed25519 (\<lambda>_. Ret demo_keys) st (\<lambda>_. Ret JNull) (\<lambda>_ _. Ret JNull) = Ret co \<and>
     \<not> vc_allow_hmac_signatures (qc_cfg co)"
proof -
  obtain st reg co where st: "load_settings demo_environ (Some ''wrapper'') = Ret st" "production st"
    "create_registry_backend st (Ret (JObj [(''abi'', JArr [])])) demo_pinned_node = Ret reg"
    "wrapper_coordinator demo_ed25519 (\<lambda>_. Ret demo_keys) st (\<lambda>_. Ret JNull) (\<lambda>_ _. Ret JNull) = Ret co"
    by (rule demo_production)
  from production_wrapper_hardened[OF st] show ?thesis using st by blast
qed

end
