(* ===== verification/PublicationPlan.thy ===== *)
theory PublicationPlan
  imports Settings PyRepr
begin

text \<open>
  \<open>tools/manage_v2_registry.py\<close>, first part: which identities may be published, the publication plan that is made of them,
  and how a plan is read back under the hash that was approved.  Theory PlanPhases applies a plan to the registry on the
  chain.  What a file holds is the JSON value it parses to; what the command line prints is not modelled.  A server id, an
  endpoint key or a status that is no text raises as a method of \<open>str\<close> does.
\<close>

section \<open>Identities\<close>

definition IDENTITY_ROLES :: "string list" where
  "IDENTITY_ROLES = [''RECURSIVE'', ''FORWARDER'', ''ROOT_AUTHORITY'', ''TLD_AUTHORITY'', ''AUTHORITATIVE'']"

text \<open>\<open>str(d.get(key, ""))\<close> and \<open>int(d.get(key, 0))\<close>.\<close>

definition text_field :: "jdict \<Rightarrow> string \<Rightarrow> string" where
  "text_field d k = py_str (jget d k (JStr []))"

definition int_field :: "jdict \<Rightarrow> string \<Rightarrow> int res" where
  "int_field d k = json_int (jget d k (JInt 0))"

definition endpoint_key_of :: "json \<Rightarrow> string res" where
  "endpoint_key_of v = bind_res (as_dict v) (\<lambda>d. bind_res (endpoint_from_dict d) endpoint_lookup_key)"

text \<open>The \<open>try\<close> block around \<open>b64decode\<close>: \<open>binascii.Error\<close> is a \<open>ValueError\<close>.\<close>

definition agent_public_key :: "jdict \<Rightarrow> bytes res" where
  "agent_public_key agent =
     (case bind_res (jitem agent ''public_key'')
             (\<lambda>v. case v of JStr s \<Rightarrow> b64decode s | _ \<Rightarrow> Raise (TypeError ''argument should be a bytes-like object or ASCII string'')) of
        Inl (KeyError _) \<Rightarrow> Raise (ValueError ''Agent public key is invalid base64'')
      | Inl (ValueError _) \<Rightarrow> Raise (ValueError ''Agent public key is invalid base64'')
      | r \<Rightarrow> r)"

definition validate_agent_binding :: "jdict \<Rightarrow> unit res" where
  "validate_agent_binding agent =
     refuse (py_lower (text_field agent ''algorithm'') \<noteq> ''ed25519'') ''Agent binding must use Ed25519''
     (bind_res (agent_public_key agent) (\<lambda>public_key.
      refuse (length public_key \<noteq> 32) ''Agent public key must contain 32 bytes''
     (refuse (py_strip (text_field agent ''key_id'') = []) ''Agent key_id is required''
     (refuse (\<not> starts_with (text_field agent ''service_url'') ''https://'') ''Agent service_url must use HTTPS'' (Ret ())))))"

definition validate_identity_structure :: "jdict \<Rightarrow> unit res" where
  "validate_identity_structure identity =
     (let role = jget0 identity ''role''; endpoints = jget0 identity ''endpoints''; agent = jget0 identity ''agent'' in
      refuse (jget0 identity ''schema_version'' \<noteq> JStr ''dns-server-identity-v2'') ''unsupported identity schema''
     (if \<not> hashable role then Raise (TypeError ''unhashable type'') else
      refuse (role \<notin> JStr ` set IDENTITY_ROLES) ''identity role is invalid''
     (refuse (jget0 identity ''status'' \<noteq> JStr ''ACTIVE'') ''only ACTIVE identities may be published''
     (case find (\<lambda>f. py_strip (text_field identity f) = []) [''server_id'', ''operator_id'', ''issuer'', ''key_id''] of
        Some f \<Rightarrow> Raise (ValueError (''identity '' @ f @ '' is required''))
      | None \<Rightarrow>
      (bind_res (int_field identity ''object_version'') (\<lambda>object_version.
      refuse (object_version \<le> 0) ''identity object_version must be positive''
     (bind_res (int_field identity ''valid_until'') (\<lambda>valid_until. bind_res (int_field identity ''valid_from'') (\<lambda>valid_from.
      refuse (valid_until \<le> valid_from) ''identity validity window is invalid''
     (refuse (\<not> truthy endpoints) ''identity must contain at least one endpoint''
     (bind_res (as_list endpoints) (\<lambda>eps.
      refuse (32 < length eps) ''identity must not contain more than 32 endpoints''
     (refuse (truthy (jget0 identity ''anycast'') \<noteq> truthy (jget0 identity ''anycast_service_id'')) ''identity anycast fields are inconsistent''
     (bind_res (map_res endpoint_key_of eps) (\<lambda>endpoint_keys.
      refuse (card (set endpoint_keys) \<noteq> length eps) ''identity contains duplicate endpoints''
     (refuse (role \<in> JStr ` set [''RECURSIVE'', ''FORWARDER''] \<and> \<not> truthy agent) ''recursive/forwarder identity must bind an Agent''
     (if truthy agent then bind_res (as_dict agent) validate_agent_binding else Ret ())))))))))))))))))"

definition validate_identity :: "ed25519 \<Rightarrow> key_registry \<Rightarrow> jdict \<Rightarrow> unit res" where
  "validate_identity lib issuers identity =
     bind_res (validate_identity_structure identity) (\<lambda>_.
     bind_res (verify_object_signature_with_registry lib identity (Some issuers) None) (\<lambda>genuine.
     refuse (\<not> genuine) (''identity signature is invalid: '' @ py_str (jget0 identity ''server_id'')) (Ret ())))"

text \<open>The endpoints of one identity are entered into the table of their owners.\<close>

fun claim_endpoints :: "json \<Rightarrow> (string, json) dict \<Rightarrow> json list \<Rightarrow> (string, json) dict res" where
  "claim_endpoints server_id owners [] = Ret owners"
| "claim_endpoints server_id owners (e # es) =
     bind_res (endpoint_key_of e) (\<lambda>k.
     (let owners' = dict_setdefault owners k server_id in
      case dict_get owners' k of
        None \<Rightarrow> Ret owners'
      | Some previous \<Rightarrow>
          if previous \<noteq> server_id
          then Raise (ValueError (''endpoint '' @ k @ '' is shared by '' @ py_str previous @ '' and '' @ py_str server_id))
          else claim_endpoints server_id owners' es))"

fun check_identities :: "ed25519 \<Rightarrow> key_registry \<Rightarrow> json set \<Rightarrow> (string, json) dict \<Rightarrow> json list \<Rightarrow> jdict list res" where
  "check_identities lib issuers server_ids owners [] = Ret []"
| "check_identities lib issuers server_ids owners (v # vs) =
     bind_res (as_dict v) (\<lambda>identity.
     bind_res (validate_identity lib issuers identity) (\<lambda>_.
     bind_res (jitem identity ''server_id'') (\<lambda>server_id.
     if \<not> hashable server_id then Raise (TypeError ''unhashable type'')
     else if server_id \<in> server_ids then Raise (ValueError (''duplicate server_id: '' @ py_str server_id))
     else bind_res (bind_res (jitem identity ''endpoints'') as_list) (\<lambda>eps.
          bind_res (claim_endpoints server_id owners eps) (\<lambda>owners'.
          bind_res (check_identities lib issuers (insert server_id server_ids) owners' vs) (\<lambda>rest. Ret (identity # rest)))))))"

definition load_identities :: "ed25519 \<Rightarrow> json res \<Rightarrow> json res \<Rightarrow> jdict list res" where
  "load_identities lib identity_file issuer_file =
     bind_res identity_file (\<lambda>payload. bind_res (as_dict payload) (\<lambda>d.
     case jget0 d ''identities'' of
       JArr (i # is) \<Rightarrow> bind_res (bind_res issuer_file registry_from_file) (\<lambda>issuers. check_identities lib issuers {} [] (i # is))
     | _ \<Rightarrow> Raise (ValueError ''identity artifact must contain a non-empty identities list'')))"

text \<open>\<open>sign_identities\<close>: every identity is brought into its canonical form, checked and signed; \<open>sign\<close> is the signing function
  for the chosen key format.\<close>

definition canonical_identity :: "jdict \<Rightarrow> jdict res" where
  "canonical_identity identity =
     (let unsigned_identity = dict_pop identity ''signature'' in
      bind_res (as_list (jget unsigned_identity ''endpoints'' (JArr []))) (\<lambda>eps.
      bind_res (map_res (\<lambda>e. bind_res (as_dict e) (\<lambda>d. bind_res (endpoint_from_dict d) (\<lambda>ep. Ret (JObj (endpoint_to_dict ep))))) eps) (\<lambda>es.
      (let d = dict_set unsigned_identity ''endpoints'' (JArr es) in
       if jget0 d ''agent'' = JNull then Ret d
       else bind_res (json_item (jget0 d ''agent'') ''algorithm'') (\<lambda>a. bind_res (as_dict (jget0 d ''agent'')) (\<lambda>agent.
            Ret (dict_set d ''agent'' (JObj (dict_set agent ''algorithm'' (JStr (py_lower (py_str a))))))))))))"

definition sign_identity :: "(jdict \<Rightarrow> string res) \<Rightarrow> json \<Rightarrow> json res" where
  "sign_identity sign v =
     bind_res (as_dict v) (\<lambda>identity. bind_res (canonical_identity identity) (\<lambda>d.
     bind_res (validate_identity_structure d) (\<lambda>_. bind_res (sign d) (\<lambda>s. Ret (JObj (dict_set d ''signature'' (JStr s)))))))"

definition sign_identities :: "(jdict \<Rightarrow> string res) \<Rightarrow> json \<Rightarrow> json res" where
  "sign_identities sign payload =
     bind_res (as_dict payload) (\<lambda>d.
     case jget0 d ''identities'' of
       JArr (i # is) \<Rightarrow> bind_res (map_res (sign_identity sign) (i # is)) (\<lambda>signed. Ret (JObj [(''identities'', JArr signed)]))
     | _ \<Rightarrow> Raise (ValueError ''unsigned artifact must contain a non-empty identities list''))"

section \<open>The target of a plan\<close>

definition nonzero_hex :: "string \<Rightarrow> nat \<Rightarrow> bool" where
  "nonzero_hex value width = (length value = width \<and> (case py_int16 value of Inl _ \<Rightarrow> False | Inr z \<Rightarrow> z \<noteq> 0))"

definition normalize_plan_target :: "json \<Rightarrow> json \<Rightarrow> json \<Rightarrow> jdict res" where
  "normalize_plan_target chain_id contract_address contract_code_hash =
     (case json_int chain_id of
        Inl _ \<Rightarrow> Raise (ValueError ''plan chain_id must be a positive integer'')
      | Inr i \<Rightarrow>
         (let address = py_lower (py_str contract_address); code_hash = py_lower (py_str contract_code_hash) in
          refuse (i \<le> 0) ''plan chain_id must be a positive integer''
         (refuse (length address \<noteq> 42 \<or> \<not> starts_with address ''0x'' \<or> \<not> nonzero_hex (drop 2 address) 40)
            ''plan contract address must be a nonzero 20-byte hex value''
         (refuse (length code_hash \<noteq> 66 \<or> \<not> starts_with code_hash ''0x'' \<or> \<not> nonzero_hex (drop 2 code_hash) 64)
            ''plan contract code hash must be a nonzero bytes32 hex value''
         (Ret [(''chain_id'', JInt i), (''contract_address'', JStr address), (''contract_code_hash'', JStr code_hash)])))))"

text \<open>\<open>==\<close> on dictionaries does not look at the order of the members and takes \<open>True\<close> for 1.\<close>

primrec bools_as_numbers :: "json \<Rightarrow> json" where
  "bools_as_numbers JNull = JNull"
| "bools_as_numbers (JBool b) = JInt (if b then 1 else 0)"
| "bools_as_numbers (JInt i) = JInt i"
| "bools_as_numbers (JStr s) = JStr s"
| "bools_as_numbers (JArr xs) = JArr (map bools_as_numbers xs)"
| "bools_as_numbers (JObj d) = JObj (map (map_prod id bools_as_numbers) d)"

definition json_same :: "json \<Rightarrow> json \<Rightarrow> bool" where
  "json_same a b = (sort_keys (bools_as_numbers a) = sort_keys (bools_as_numbers b))"

section \<open>Building a plan\<close>

definition plan_entry :: "jdict \<Rightarrow> jdict res" where
  "plan_entry identity =
     bind_res (bind_res (jitem identity ''server_id'') as_str) (\<lambda>server_id.
     let resolver_key = resolver_id_key server_id; identity_hash = object_hash identity in
     bind_res (bind_res (jitem identity ''object_version'') json_int) (\<lambda>version.
     bind_res (bind_res (jitem identity ''status'') as_str) (\<lambda>status.
     let leaf = merkle_leaf resolver_key identity_hash version status in
     bind_res (bind_res (jitem identity ''valid_until'') json_int) (\<lambda>valid_until.
     bind_res (bind_res (bind_res (jitem identity ''endpoints'') as_list) (map_res endpoint_key_of)) (\<lambda>keys.
     Ret [(''server_id'', JStr server_id), (''resolver_id_key'', JStr resolver_key), (''object_hash'', JStr identity_hash),
          (''object_version'', JInt version), (''valid_until'', JInt valid_until), (''status'', JStr status),
          (''endpoint_keys'', JArr (map JStr keys)), (''leaf_hash'', JStr leaf)])))))"

definition item_text :: "json \<Rightarrow> string \<Rightarrow> string res" where
  "item_text v k = bind_res (json_item v k) as_str"

definition item_texts :: "json \<Rightarrow> string \<Rightarrow> string list res" where
  "item_texts v k = bind_res (bind_res (json_item v k) as_list) (map_res as_str)"

text \<open>\<open>sorted(items, key=...)\<close> and the dictionary of the entries by their server id.\<close>

definition sort_by_text :: "('a \<Rightarrow> string res) \<Rightarrow> 'a list \<Rightarrow> 'a list res" where
  "sort_by_text f xs = bind_res (map_res (\<lambda>x. bind_res (f x) (\<lambda>k. Ret (k, x))) xs) (\<lambda>kxs. Ret (map snd (sort_key fst kxs)))"

definition by_server_id :: "json list \<Rightarrow> (string, json) dict res" where
  "by_server_id entries = bind_res (map_res (\<lambda>e. bind_res (item_text e ''server_id'') (\<lambda>s. Ret (s, e))) entries) (\<lambda>kes. Ret (dict_update [] kes))"

text \<open>What an entry of the previous plan must give up: the endpoints that the identity no longer has and, when the identity is
  gone, the identity.\<close>

definition unbind_item :: "string \<Rightarrow> json \<Rightarrow> string \<Rightarrow> json" where
  "unbind_item server_id rid_key k = JObj [(''server_id'', JStr server_id), (''resolver_id_key'', rid_key), (''endpoint_key'', JStr k)]"

definition revocation_item :: "string \<Rightarrow> json \<Rightarrow> json" where
  "revocation_item server_id rid_key = JObj [(''server_id'', JStr server_id), (''resolver_id_key'', rid_key)]"

definition removals_of :: "(string, json) dict \<Rightarrow> string \<times> json \<Rightarrow> (json list \<times> json list) res" where
  "removals_of current_entries = (\<lambda>(server_id, previous).
     bind_res (case dict_get current_entries server_id of None \<Rightarrow> Ret [] | Some current \<Rightarrow> item_texts current ''endpoint_keys'') (\<lambda>kept.
     bind_res (item_texts previous ''endpoint_keys'') (\<lambda>had.
     let gone = sort (filter (\<lambda>k. k \<notin> set kept) (remdups had)) in
     if gone = [] \<and> dict_get current_entries server_id \<noteq> None then Ret ([], [])
     else bind_res (json_item previous ''resolver_id_key'') (\<lambda>rid_key.
     Ret (map (unbind_item server_id rid_key) gone,
          if dict_get current_entries server_id = None then [revocation_item server_id rid_key] else [])))))"

definition previous_entries_of :: "jdict option \<Rightarrow> (string, json) dict res" where
  "previous_entries_of previous_plan =
     (case previous_plan of None \<Rightarrow> Ret [] | Some p \<Rightarrow> bind_res (as_list (jget p ''entries'' (JArr []))) by_server_id)"

definition check_previous_plan :: "jdict option \<Rightarrow> jdict \<Rightarrow> int \<Rightarrow> unit res" where
  "check_previous_plan previous_plan target root_version =
     (case previous_plan of
        None \<Rightarrow> refuse (1 < root_version) ''root versions above 1 require the previous approved plan'' (Ret ())
      | Some p \<Rightarrow>
          bind_res (jitem p ''target'') (\<lambda>t.
          refuse (\<not> json_same t (JObj target)) ''previous plan targets a different Registry deployment''
          (bind_res (bind_res (jitem p ''root_version'') json_int) (\<lambda>v.
           refuse (root_version \<le> v) ''root version must increase from the previous plan'' (Ret ())))))"

definition plan_body :: "jdict \<Rightarrow> json \<Rightarrow> int \<Rightarrow> string \<Rightarrow> jdict list \<Rightarrow> (json list \<times> json list) list \<Rightarrow> jdict" where
  "plan_body target previous_hash root_version state_root entries removals =
     [(''schema_version'', JStr ''registry-publication-plan-v2''), (''target'', JObj target),
      (''previous_plan_hash'', previous_hash), (''root_version'', JInt root_version), (''state_root'', JStr state_root),
      (''entries'', JArr (map JObj entries)), (''endpoint_unbinds'', JArr (concat (map fst removals))),
      (''resolver_revocations'', JArr (concat (map snd removals)))]"

definition with_plan_hash :: "jdict \<Rightarrow> jdict" where
  "with_plan_hash plan = dict_set plan ''plan_hash'' (JStr (object_hash plan))"

definition build_plan :: "jdict list \<Rightarrow> int \<Rightarrow> json \<Rightarrow> json \<Rightarrow> json \<Rightarrow> jdict option \<Rightarrow> jdict res" where
  "build_plan identities root_version chain_id contract_address contract_code_hash previous_plan =
     refuse (root_version \<le> 0) ''root version must be positive''
     (bind_res (normalize_plan_target chain_id contract_address contract_code_hash) (\<lambda>target.
      bind_res (check_previous_plan previous_plan target root_version) (\<lambda>_.
      bind_res (sort_by_text (\<lambda>i. bind_res (jitem i ''server_id'') as_str) identities) (\<lambda>ordered.
      bind_res (map_res plan_entry ordered) (\<lambda>entries.
      bind_res (map_res (\<lambda>e. bind_res (jitem e ''leaf_hash'') as_str) entries) (\<lambda>leaves.
      bind_res (previous_entries_of previous_plan) (\<lambda>previous_entries.
      bind_res (by_server_id (map JObj entries)) (\<lambda>current_entries.
      bind_res (map_res (removals_of current_entries) (sort_key fst previous_entries)) (\<lambda>removals.
      bind_res (case previous_plan of None \<Rightarrow> Ret JNull | Some p \<Rightarrow> jitem p ''plan_hash'') (\<lambda>previous_hash.
      bind_res (merkle_root leaves) (\<lambda>state_root.
      Ret (with_plan_hash (plan_body target previous_hash root_version state_root entries removals)))))))))))))"

section \<open>Reading a plan\<close>

definition is_jarr :: "json \<Rightarrow> bool" where
  "is_jarr v = (case v of JArr _ \<Rightarrow> True | _ \<Rightarrow> False)"

definition load_plan :: "json \<Rightarrow> string \<Rightarrow> jdict res" where
  "load_plan file expected_hash =
     bind_res (as_dict file) (\<lambda>d0.
     let embedded_hash = jget0 d0 ''plan_hash''; body = dict_pop d0 ''plan_hash''; actual_hash = object_hash body;
         plan = dict_set body ''plan_hash'' embedded_hash in
     refuse (embedded_hash \<noteq> JStr actual_hash \<or> py_lower actual_hash \<noteq> py_lower expected_hash)
       ''publication plan hash does not match the independently approved hash''
     (refuse (jget0 plan ''schema_version'' \<noteq> JStr ''registry-publication-plan-v2'') ''unsupported publication plan schema''
     (case jget0 plan ''target'' of
        JObj target \<Rightarrow>
          bind_res (normalize_plan_target (jget0 target ''chain_id'') (jget0 target ''contract_address'') (jget0 target ''contract_code_hash'')) (\<lambda>n.
          refuse (\<not> json_same (JObj target) (JObj n)) ''publication plan target is not canonical''
          (refuse (\<not> is_jarr (jget0 plan ''endpoint_unbinds'') \<or> \<not> is_jarr (jget0 plan ''resolver_revocations'')) ''publication plan removal actions are missing''
          (Ret plan)))
      | _ \<Rightarrow> Raise (ValueError ''publication plan target is missing''))))"

definition load_previous_plan :: "json \<Rightarrow> jdict res" where
  "load_previous_plan file =
     bind_res (as_dict file) (\<lambda>d. case jget0 d ''plan_hash'' of
       JStr embedded_hash \<Rightarrow> load_plan file embedded_hash
     | _ \<Rightarrow> Raise (ValueError ''previous publication plan has no integrity hash''))"

definition prepare_plan :: "ed25519 \<Rightarrow> json res \<Rightarrow> json res \<Rightarrow> int \<Rightarrow> int \<Rightarrow> string \<Rightarrow> string \<Rightarrow> json res option \<Rightarrow> jdict res" where
  "prepare_plan lib identity_file issuer_file root_version chain_id contract_address contract_code_hash previous_file =
     bind_res (case previous_file of None \<Rightarrow> Ret None | Some f \<Rightarrow> bind_res (bind_res f load_previous_plan) (\<lambda>p. Ret (Some p))) (\<lambda>previous_plan.
     bind_res (load_identities lib identity_file issuer_file) (\<lambda>identities.
     build_plan identities root_version (JInt chain_id) (JStr contract_address) (JStr contract_code_hash) previous_plan))"

section \<open>The target\<close>

lemma normalize_plan_target_fixed:
  assumes "normalize_plan_target a b c = Ret t"
  shows "normalize_plan_target (jget0 t ''chain_id'') (jget0 t ''contract_address'') (jget0 t ''contract_code_hash'') = Ret t"
  using assms by (auto simp: normalize_plan_target_def Let_def split: sum.splits)

section \<open>Built plans and loaded plans\<close>

lemma dict_pop_last: "dict_get d k = None \<Longrightarrow> dict_pop (d @ [(k, v)]) k = d"
  by (induction d) (auto simp: dict_pop_def split: if_splits)

lemma dict_set_last: "dict_get d k = None \<Longrightarrow> dict_set d k v = d @ [(k, v)]"
  by (induction d k v rule: dict_set.induct) (auto split: if_splits)

lemma load_own_plan:
  assumes "dict_get body ''plan_hash'' = None" and "jget0 body ''schema_version'' = JStr ''registry-publication-plan-v2''"
    and "jget0 body ''target'' = JObj target" and "normalize_plan_target a b c = Ret target"
    and "is_jarr (jget0 body ''endpoint_unbinds'')" and "is_jarr (jget0 body ''resolver_revocations'')"
    and "py_lower h = object_hash body"
  shows "load_plan (JObj (with_plan_hash body)) h = Ret (with_plan_hash body)"
proof -
  have "dict_pop (with_plan_hash body) ''plan_hash'' = body" using assms(1) by (simp add: with_plan_hash_def dict_pop_last dict_set_last)
  moreover have "py_lower (object_hash body) = object_hash body" by (simp add: object_hash_def)
  moreover have "jget0 (with_plan_hash body) k = (if k = ''plan_hash'' then JStr (object_hash body) else jget0 body k)" for k
    by (auto simp: with_plan_hash_def)
  ultimately show ?thesis using assms(2-7) normalize_plan_target_fixed[OF assms(4)]
    by (simp add: load_plan_def Let_def refuse_def json_same_def) (simp add: with_plan_hash_def)
qed

lemma build_plan_Ret:
  assumes "build_plan ids rv cid addr code prev = Ret plan"
  obtains target ordered entries leaves previous_entries current_entries removals previous_hash state_root u
  where "normalize_plan_target cid addr code = Ret target" and "\<not> rv \<le> 0" and "check_previous_plan prev target rv = Ret u"
    and "sort_by_text (\<lambda>i. bind_res (jitem i ''server_id'') as_str) ids = Ret ordered" and "map_res plan_entry ordered = Ret entries"
    and "map_res (\<lambda>e. bind_res (jitem e ''leaf_hash'') as_str) entries = Ret leaves" and "merkle_root leaves = Ret state_root"
    and "previous_entries_of prev = Ret previous_entries" and "by_server_id (map JObj entries) = Ret current_entries"
    and "map_res (removals_of current_entries) (sort_key fst previous_entries) = Ret removals"
    and "with_plan_hash (plan_body target previous_hash rv state_root entries removals) = plan"
  using assms unfolding build_plan_def refuse_Ret bind_res_eq_Inr sum.inject
  by (elim exE conjE) (rule that)

text \<open>A plan is read back: what \<open>build_plan\<close> returns is accepted by \<open>load_plan\<close> when its own hash is approved, in either case, and
  as the previous plan of the next publication, unchanged.\<close>

theorem built_plan_loads:
  assumes "build_plan ids rv cid addr code prev = Ret plan"
  shows "\<exists>h. dict_get plan ''plan_hash'' = Some (JStr h) \<and> load_previous_plan (JObj plan) = Ret plan \<and>
    (\<forall>approved. py_lower approved = h \<longrightarrow> load_plan (JObj plan) approved = Ret plan)" 
proof -
  obtain target previous_hash state_root entries removals where t: "normalize_plan_target cid addr code = Ret target"
    "plan = with_plan_hash (plan_body target previous_hash rv state_root entries removals)"
    using build_plan_Ret[OF assms] by metis
  let ?b = "plan_body target previous_hash rv state_root entries removals"
  have l: "load_plan (JObj plan) h = Ret plan" if "py_lower h = object_hash ?b" for h
    unfolding t(2) by (rule load_own_plan[OF _ _ _ t(1) _ _ that]) (simp_all add: plan_body_def is_jarr_def)
  have low: "py_lower (object_hash ?b) = object_hash ?b" by (simp add: object_hash_def)
  have "dict_get plan ''plan_hash'' = Some (JStr (object_hash ?b))" by (simp add: t(2) with_plan_hash_def)
  then show ?thesis using l low by (auto simp: load_previous_plan_def jget_def)
qed

lemma case_JObj_Ret: "(case v of JObj d \<Rightarrow> F d | _ \<Rightarrow> Raise e) = Ret x \<longleftrightarrow> (\<exists>d. v = JObj d \<and> F d = Ret x)"
  by (cases v) auto

lemma case_JArr_Cons_Ret: "(case v of JArr (i # is) \<Rightarrow> F i is | _ \<Rightarrow> Raise e) = Ret x \<longleftrightarrow> (\<exists>i is. v = JArr (i # is) \<and> F i is = Ret x)"
  by (cases v) (auto split: list.splits)

lemma load_plan_Ret:
  assumes "load_plan f h = Ret p"
  obtains d target where "f = JObj d" and "p = dict_set (dict_pop d ''plan_hash'') ''plan_hash'' (JStr (object_hash (dict_pop d ''plan_hash'')))"
    and "py_lower (object_hash (dict_pop d ''plan_hash'')) = py_lower h"
    and "jget0 p ''target'' = JObj target" and "is_jarr (jget0 p ''endpoint_unbinds'')" and "is_jarr (jget0 p ''resolver_revocations'')"
  using assms by (auto simp: load_plan_def Let_def case_JObj_Ret)

text \<open>An approved hash names one plan: two files that are accepted under the same approved hash hold the same plan, up to the
  order of members and members named \<open>signature\<close>, or their bodies are a SHA-256 collision.\<close>

theorem approved_hash_names_one_plan:
  assumes "load_plan f h = Ret p" and "load_plan f' h' = Ret p'" and "py_lower h = py_lower h'"
  shows "sort_keys (strip_signature (JObj (dict_pop p ''plan_hash''))) = sort_keys (strip_signature (JObj (dict_pop p' ''plan_hash''))) \<or>
    sha256_collision {canonical_json_bytes (JObj (dict_pop p ''plan_hash'')), canonical_json_bytes (JObj (dict_pop p' ''plan_hash''))}"
proof -
  have pop: "dict_pop (dict_set d k v) k = dict_pop d k" "dict_pop (dict_pop d k) k = dict_pop d k" for d :: jdict and k v
    by (induction d k v rule: dict_set.induct) (auto simp: dict_pop_def)
  have "py_lower (object_hash (dict_pop p ''plan_hash'')) = py_lower h" if "load_plan f h = Ret p" for f h p
    using that by (elim load_plan_Ret) (simp add: pop)
  then have "py_lower (object_hash (dict_pop p ''plan_hash'')) = py_lower (object_hash (dict_pop p' ''plan_hash''))"
    using assms by metis
  then have "object_hash (dict_pop p ''plan_hash'') = object_hash (dict_pop p' ''plan_hash'')" by (simp add: object_hash_def)
  then show ?thesis using collisionI[of "canonical_json_bytes (JObj (dict_pop p ''plan_hash''))" "{canonical_json_bytes (JObj (dict_pop p ''plan_hash'')), canonical_json_bytes (JObj (dict_pop p' ''plan_hash''))}"
      "canonical_json_bytes (JObj (dict_pop p' ''plan_hash''))"]
    by (auto simp: object_hash_def canonical_json_bytes_eq)
qed

section \<open>Identities that are published\<close>

definition identity_endpoints :: "jdict \<Rightarrow> json list" where
  "identity_endpoints i = (case bind_res (jitem i ''endpoints'') as_list of Inr es \<Rightarrow> es | Inl _ \<Rightarrow> [])"

lemma claim_endpoints_Ret:
  assumes "claim_endpoints sid owners es = Ret owners'"
  shows "(dict_get owners k = Some v \<longrightarrow> dict_get owners' k = Some v) \<and>
    (\<forall>e\<in>set es. \<exists>k. endpoint_key_of e = Ret k \<and> dict_get owners' k = Some sid)"
  using assms
proof (induction sid owners es arbitrary: k v rule: claim_endpoints.induct)
  case (2 sid owners e es)
  from "2.prems" obtain x where x: "endpoint_key_of e = Ret x" "dict_get (dict_setdefault owners x sid) x = Some sid"
    "claim_endpoints sid (dict_setdefault owners x sid) es = Ret owners'"
    by (auto simp: Let_def split: option.splits if_splits)
  note ih = "2.IH"[OF x(1) refl x(2) _ x(3)]
  have "dict_get owners' x = Some sid" using ih[of x sid] x(2) by simp
  moreover have "dict_get owners k = Some v \<longrightarrow> dict_get owners' k = Some v" using ih[of k v] by (auto split: if_splits)
  ultimately show ?case using ih[of k v] x(1) by auto
qed simp

lemma check_identities_Ret:
  assumes "check_identities lib issuers sids owners vs = Ret ids"
  shows "(\<forall>i\<in>set ids. validate_identity lib issuers i = Ret () \<and> jget0 i ''server_id'' \<notin> sids) \<and> vs = map JObj ids \<and>
    distinct (map (\<lambda>i. jget0 i ''server_id'') ids) \<and>
    (\<exists>owner. (\<forall>k v. dict_get owners k = Some v \<longrightarrow> owner k = Some v) \<and>
       (\<forall>i\<in>set ids. \<forall>e\<in>set (identity_endpoints i). \<exists>k. endpoint_key_of e = Ret k \<and> owner k = Some (jget0 i ''server_id'')))"
  using assms
proof (induction lib issuers sids owners vs arbitrary: ids rule: check_identities.induct)
  case (1 lib issuers sids owners)
  have "\<exists>owner. \<forall>k v. dict_get owners k = Some v \<longrightarrow> owner k = Some v" by (rule exI[of _ "dict_get owners"]) simp
  then show ?case using 1 by simp
next
  case (2 lib issuers sids owners v vs)
  then obtain i sid eps owners' rest where i: "v = JObj i" "validate_identity lib issuers i = Ret ()" "jitem i ''server_id'' = Ret sid"
    "hashable sid" "sid \<notin> sids" "bind_res (jitem i ''endpoints'') as_list = Ret eps" "claim_endpoints sid owners eps = Ret owners'"
    "check_identities lib issuers (insert sid sids) owners' vs = Ret rest" "ids = i # rest"
    by (auto split: if_splits)
  have sid: "jget0 i ''server_id'' = sid" using i(3) by (auto simp: jitem_def jget_def split: option.splits)
  have "identity_endpoints i = eps" using i(6) by (simp add: identity_endpoints_def del: bind_res_eq_Inr)
  moreover from "2.IH"[OF _ i(2) i(3) _ i(5) i(6) i(7) i(8)] i(1,4) obtain owner where
    ih: "\<forall>i\<in>set rest. validate_identity lib issuers i = Ret () \<and> jget0 i ''server_id'' \<notin> insert sid sids" "vs = map JObj rest"
      "distinct (map (\<lambda>i. jget0 i ''server_id'') rest)" "\<forall>k v. dict_get owners' k = Some v \<longrightarrow> owner k = Some v"
      "\<forall>i\<in>set rest. \<forall>e\<in>set (identity_endpoints i). \<exists>k. endpoint_key_of e = Ret k \<and> owner k = Some (jget0 i ''server_id'')"
    by auto
  moreover note claim_endpoints_Ret[OF i(7)]
  ultimately have "(\<forall>k v. dict_get owners k = Some v \<longrightarrow> owner k = Some v) \<and>
       (\<forall>j\<in>set ids. \<forall>e\<in>set (identity_endpoints j). \<exists>k. endpoint_key_of e = Ret k \<and> owner k = Some (jget0 j ''server_id''))"
    using sid i(9) by fastforce
  moreover have "sid \<notin> set (map (\<lambda>i. jget0 i ''server_id'') rest)" using ih(1) by auto
  ultimately show ?case using ih(1-3) i(1,2,5,9) sid by auto
qed

text \<open>C9. Identities are published only when each is well formed and signed by a pinned issuer key, and when no two of them share a
  server id or an endpoint.\<close>

theorem loaded_identities_sound:
  assumes "load_identities lib identity_file issuer_file = Ret ids"
  shows "\<exists>keys issuers. issuer_file = Ret keys \<and> registry_from_file keys = Ret issuers \<and> ids \<noteq> [] \<and>
    (\<forall>i\<in>set ids. validate_identity_structure i = Ret () \<and> verify_object_signature_with_registry lib i (Some issuers) None = Ret True) \<and>
    distinct (map (\<lambda>i. jget0 i ''server_id'') ids) \<and>
    (\<forall>i\<in>set ids. \<forall>j\<in>set ids. \<forall>e\<in>set (identity_endpoints i). \<forall>e'\<in>set (identity_endpoints j).
       endpoint_key_of e = endpoint_key_of e' \<longrightarrow> i = j)"
proof -
  obtain d v vs keys issuers where l: "issuer_file = Ret keys" "registry_from_file keys = Ret issuers"
    "check_identities lib issuers {} [] (v # vs) = Ret ids"
    using assms by (auto simp: load_identities_def case_JArr_Cons_Ret simp del: check_identities.simps)
  from check_identities_Ret[OF l(3)] obtain owner where c: "\<forall>i\<in>set ids. validate_identity lib issuers i = Ret ()" "v # vs = map JObj ids"
    "distinct (map (\<lambda>i. jget0 i ''server_id'') ids)"
    "\<forall>i\<in>set ids. \<forall>e\<in>set (identity_endpoints i). \<exists>k. endpoint_key_of e = Ret k \<and> owner k = Some (jget0 i ''server_id'')"
    by auto
  have "i = j" if "i \<in> set ids" "j \<in> set ids" "e \<in> set (identity_endpoints i)" "e' \<in> set (identity_endpoints j)"
      "endpoint_key_of e = endpoint_key_of e'" for i j e e'
  proof -
    note same = that
    obtain k where "endpoint_key_of e = Ret k" "owner k = Some (jget0 i ''server_id'')" using c(4) same(1,3) by blast
    moreover obtain k' where "endpoint_key_of e' = Ret k'" "owner k' = Some (jget0 j ''server_id'')" using c(4) same(2,4) by blast
    ultimately have "jget0 i ''server_id'' = jget0 j ''server_id''" using that(5) by simp
    then show ?thesis using c(3) that(1,2) by (auto simp: distinct_map dest: inj_onD)
  qed
  moreover have "\<forall>i\<in>set ids. validate_identity_structure i = Ret () \<and> verify_object_signature_with_registry lib i (Some issuers) None = Ret True"
    using c(1) by (auto simp: validate_identity_def)
  ultimately show ?thesis using l c(2,3) by auto
qed

section \<open>What a plan takes away\<close>

lemma dict_wf_update: "dict_wf (dict_update d e) \<longleftrightarrow> dict_wf d"
  by (induction d e rule: dict_update.induct) simp_all

lemma by_server_id_wf: "by_server_id es = Ret d \<Longrightarrow> dict_wf d"
  by (auto simp: by_server_id_def dict_wf_update)

lemma removals_of_items:
  assumes "removals_of current (s, e) = Ret (us, vs)"
  shows "(unbind_item t x k \<in> set us \<longrightarrow> t = s) \<and> (revocation_item t x \<in> set vs \<longrightarrow> t = s)"
  using assms by (auto simp: removals_of_def Let_def unbind_item_def revocation_item_def split: if_splits)

lemma sort_Nil: "sort l = [] \<longleftrightarrow> l = []"
  by (metis length_0_conv length_sort)

lemma list_all2_partners: "list_all2 P xs ys \<Longrightarrow> (\<forall>x\<in>set xs. \<exists>y\<in>set ys. P x y) \<and> (\<forall>y\<in>set ys. \<exists>x\<in>set xs. P x y)"
  by (induction xs ys rule: list_all2_induct) auto

lemma removals_of_Ret:
  assumes "removals_of current (s, e) = Ret (us, vs)" and "json_item e ''resolver_id_key'' = Ret x" and "item_texts e ''endpoint_keys'' = Ret had"
  shows "(unbind_item s x k \<in> set us \<longleftrightarrow>
      k \<in> set had \<and> (\<forall>c ks. dict_get current s = Some c \<and> item_texts c ''endpoint_keys'' = Ret ks \<longrightarrow> k \<notin> set ks)) \<and>
    (revocation_item s x \<in> set vs \<longleftrightarrow> dict_get current s = None)"
proof -
  have img: "unbind_item s x k \<in> unbind_item s x ` A \<longleftrightarrow> k \<in> A" for A by (auto simp: unbind_item_def)
  obtain kept where kept: "(case dict_get current s of None \<Rightarrow> Ret [] | Some c \<Rightarrow> item_texts c ''endpoint_keys'') = Ret kept"
    and run: "(let gone = sort (filter (\<lambda>k. k \<notin> set kept) (remdups had)) in
       if gone = [] \<and> dict_get current s \<noteq> None then Ret ([], [])
       else Ret (map (unbind_item s x) gone, if dict_get current s = None then [revocation_item s x] else [])) = Ret (us, vs)"
    using assms(1) unfolding removals_of_def prod.case assms(2,3) bind_res_eq_Inr bind_res_simps by auto
  have gone: "set us = unbind_item s x ` {k \<in> set had. k \<notin> set kept}" and vs: "vs = (if dict_get current s = None then [revocation_item s x] else [])"
    using run sort_Nil[of "filter (\<lambda>k. k \<notin> set kept) (remdups had)"] by (auto simp: Let_def filter_empty_conv split: if_splits)
  have free: "k \<notin> set kept \<longleftrightarrow> (\<forall>c ks. dict_get current s = Some c \<and> item_texts c ''endpoint_keys'' = Ret ks \<longrightarrow> k \<notin> set ks)"
    using kept by (cases "dict_get current s") auto
  have "unbind_item s x k \<in> set us \<longleftrightarrow> k \<in> set had \<and> k \<notin> set kept" unfolding gone img by simp
  moreover have "revocation_item s x \<in> set vs \<longleftrightarrow> dict_get current s = None" by (cases "dict_get current s = None") (simp_all only: vs if_True if_False list.set insert_iff empty_iff simp_thms)
  ultimately show ?thesis using free by blast
qed

lemma sorted_dict_set: "set (sort_key fst d) = set d"
  by simp


end
