(* ===== verification/PlanPhases.thy ===== *)
theory PlanPhases
  imports PublicationPlan
begin

text \<open>
  \<open>tools/manage_v2_registry.py\<close>, second part: a plan is applied to the registry on the chain in five phases, each run by the holder
  of one role, and the receipts are kept in a journal from which an interrupted phase is resumed.  The backend is the one of
  theory Web3Backend; its interface is the record \<open>plan_registry\<close>.
\<close>

section \<open>The backend and the receipts\<close>

record 'c plan_registry =
  pl_root_record :: "'c \<Rightarrow> string \<Rightarrow> root_entry option res"
  pl_root_status :: "'c \<Rightarrow> string \<Rightarrow> string option res"
  pl_anchor :: "'c \<Rightarrow> string \<Rightarrow> anchor option res"
  pl_binding :: "'c \<Rightarrow> string \<Rightarrow> string option res"
  pl_write :: "registry_op \<Rightarrow> ('c, jdict option) op"

text \<open>A receipt holds no byte strings once the backend has normalized it.\<close>

fun receipt_value :: "chain_value \<Rightarrow> json" where
  "receipt_value (CJson j) = j"
| "receipt_value (CBytes b) = JStr (''0x'' @ hex_of_bytes b)"

definition web3_plan_registry :: "web3_config \<Rightarrow> 'c web3_node \<Rightarrow> signer_env \<Rightarrow> 'c plan_registry" where
  "web3_plan_registry cfg nd env = \<lparr>pl_root_record = web3_get_root_record nd, pl_root_status = web3_get_root_status nd,
     pl_anchor = web3_get_resolver_anchor nd, pl_binding = web3_get_endpoint_binding nd,
     pl_write = (\<lambda>op'. bindS (web3_write cfg nd env op') (\<lambda>r. retS (Some (map (\<lambda>(k, v). (k, receipt_value v)) r))))\<rparr>"

text \<open>\<open>registry_backend\<close>: the settings of a registry writer, the artifact and the node; the code hash is what the backend stores.\<close>

definition plan_registry_backend :: "process_env \<Rightarrow> json res \<Rightarrow> 'c web3_node \<Rightarrow> (web3_config \<times> string) res" where
  "plan_registry_backend e artifact nd =
     bind_res (load_settings e None) (\<lambda>st. bind_res (validate_for st ''registry-writer'') (\<lambda>_.
     bind_res (load_contract_abi artifact) (\<lambda>_. bind_res (web3_connect (web3_config_of st) nd) (\<lambda>h. Ret (web3_config_of st, h)))))"

definition verify_plan_target :: "web3_config \<Rightarrow> string \<Rightarrow> jdict \<Rightarrow> unit res" where
  "verify_plan_target cfg code_hash plan =
     bind_res (normalize_plan_target (JInt (w3_expected_chain_id cfg)) (JStr (w3_contract_address cfg)) (JStr code_hash)) (\<lambda>expected.
     bind_res (jitem plan ''target'') (\<lambda>target.
     refuse (\<not> json_same target (JObj expected)) ''publication plan target does not match the live Registry deployment'' (Ret ())))"

definition RECEIPT_FIELDS :: "string list" where
  "RECEIPT_FIELDS = [''transactionHash'', ''blockNumber'', ''blockHash'', ''status'', ''gasUsed'']"

definition transaction_evidence :: "jdict \<Rightarrow> string \<Rightarrow> string \<Rightarrow> json \<Rightarrow> jdict res" where
  "transaction_evidence receipt role operation target_object =
     (let missing = filter (\<lambda>f. dict_get receipt f = None) RECEIPT_FIELDS in
      refuse (missing \<noteq> []) (''transaction receipt is missing fields: '' @ py_join '', '' missing)
      (bind_res (int_field receipt ''blockNumber'') (\<lambda>block_number. bind_res (int_field receipt ''status'') (\<lambda>status.
       bind_res (int_field receipt ''gasUsed'') (\<lambda>gas_used.
       Ret [(''transaction_hash'', jget0 receipt ''transactionHash''), (''sender'', jget receipt ''from'' (JStr [])), (''role'', JStr role),
            (''block_number'', JInt block_number), (''block_hash'', jget0 receipt ''blockHash''), (''status'', JInt status),
            (''gas_used'', JInt gas_used), (''operation'', JStr operation), (''target_object'', target_object)])))))"

section \<open>The receipt journal\<close>

record receipt_journal =
  rj_phase :: string
  rj_context_hash :: string
  rj_transactions :: "json list"

definition receipts_document :: "string \<Rightarrow> json \<Rightarrow> json list \<Rightarrow> json" where
  "receipts_document phase context_hash transactions =
     JObj [(''schema_version'', JStr ''registry-publication-receipts-v1''), (''phase'', JStr phase), (''context_hash'', context_hash),
       (''transactions'', JArr transactions)]"

text \<open>\<open>ReceiptJournal.__init__\<close>; the argument is what the file holds, if it exists.\<close>

definition open_journal :: "json res option \<Rightarrow> string \<Rightarrow> string \<Rightarrow> receipt_journal res" where
  "open_journal file phase context_hash =
     (let fresh = \<lparr>rj_phase = phase, rj_context_hash = py_lower context_hash, rj_transactions = []\<rparr> in
      case file of
        None \<Rightarrow> Ret fresh
      | Some f \<Rightarrow> bind_res f (\<lambda>v. bind_res (as_dict v) (\<lambda>payload.
          if jget0 payload ''schema_version'' \<noteq> JStr ''registry-publication-receipts-v1'' \<or> jget0 payload ''phase'' \<noteq> JStr phase \<or>
             py_lower (text_field payload ''context_hash'') \<noteq> rj_context_hash fresh
          then Raise (ValueError ''receipt journal does not match the requested phase and plan'')
          else case jget0 payload ''transactions'' of
                 JArr ts \<Rightarrow> Ret (fresh\<lparr>rj_transactions := ts\<rparr>)
               | _ \<Rightarrow> Raise (ValueError ''receipt journal does not match the requested phase and plan''))))"

text \<open>The chain, the journal, and the receipt file on disk.\<close>

record 'c publication =
  pu_chain :: 'c
  pu_journal :: "receipt_journal option"
  pu_file :: "json option"

definition journal_document :: "receipt_journal \<Rightarrow> json" where
  "journal_document j = receipts_document (rj_phase j) (JStr (rj_context_hash j)) (rj_transactions j)"

definition transaction_of :: "json \<Rightarrow> string res" where
  "transaction_of item = bind_res (as_dict item) (\<lambda>d. bind_res (as_str (jget d ''transaction_hash'' (JStr []))) (\<lambda>h. Ret (py_lower h)))"

definition journal_entered :: "receipt_journal \<Rightarrow> jdict \<Rightarrow> receipt_journal res" where
  "journal_entered j evidence =
     bind_res (bind_res (jitem evidence ''transaction_hash'') as_str) (\<lambda>h.
     bind_res (any_res (\<lambda>item. bind_res (transaction_of item) (\<lambda>t. Ret (t = py_lower h))) (rj_transactions j)) (\<lambda>known.
     Ret (if known then j else j\<lparr>rj_transactions := rj_transactions j @ [JObj evidence]\<rparr>)))"

text \<open>\<open>record_receipt\<close>: with a journal the evidence is entered and the file is written before the phase goes on.\<close>

definition record_receipt :: "jdict \<Rightarrow> ('c publication, json list) op" where
  "record_receipt evidence =
     bindS (getS pu_journal) (\<lambda>journal.
     case journal of
       None \<Rightarrow> retS [JObj evidence]
     | Some j \<Rightarrow> bindS (liftS (journal_entered j evidence)) (\<lambda>j'.
         seqS (modS (\<lambda>s. s\<lparr>pu_journal := Some j', pu_file := Some (journal_document j')\<rparr>)) (retS [JObj evidence])))"

section \<open>The phases\<close>

definition on_chain :: "('c, 'a) op \<Rightarrow> ('c publication, 'a) op" where
  "on_chain = zoomS pu_chain (\<lambda>c s. s\<lparr>pu_chain := c\<rparr>)"

definition chain_read :: "('c \<Rightarrow> 'a res) \<Rightarrow> ('c publication, 'a) op" where
  "chain_read f s = (f (pu_chain s), s)"

text \<open>What the evidence names is read after the write.\<close>

definition write_and_record :: "'c plan_registry \<Rightarrow> registry_op \<Rightarrow> string \<Rightarrow> string \<Rightarrow> json res \<Rightarrow> ('c publication, json list) op" where
  "write_and_record pr op' role operation target_object =
     bindS (on_chain (pl_write pr op')) (\<lambda>receipt.
     case receipt of
       None \<Rightarrow> retS []
     | Some r \<Rightarrow> bindS (liftS (bind_res target_object (transaction_evidence r role operation))) record_receipt)"

text \<open>A loop over the entries that collects the receipts.\<close>

fun for_receipts :: "(json \<Rightarrow> ('s, json list) op) \<Rightarrow> json list \<Rightarrow> ('s, json list) op" where
  "for_receipts f [] = retS []"
| "for_receipts f (x # xs) = bindS (f x) (\<lambda>rs. bindS (for_receipts f xs) (\<lambda>rs'. retS (rs @ rs')))"

definition plan_items :: "jdict \<Rightarrow> string \<Rightarrow> json list res" where
  "plan_items plan k = bind_res (jitem plan k) as_list"

definition item_int :: "json \<Rightarrow> string \<Rightarrow> int res" where
  "item_int v k = bind_res (json_item v k) json_int"

definition plan_root :: "jdict \<Rightarrow> string res" where
  "plan_root plan = bind_res (jitem plan ''state_root'') as_str"

definition plan_root_version :: "jdict \<Rightarrow> int res" where
  "plan_root_version plan = bind_res (jitem plan ''root_version'') json_int"

definition publish_root :: "'c plan_registry \<Rightarrow> jdict \<Rightarrow> ('c publication, json list) op" where
  "publish_root pr plan =
     bindS (liftS (plan_root plan)) (\<lambda>root. bindS (chain_read (\<lambda>c. pl_root_record pr c root)) (\<lambda>record.
     let write = bindS (liftS (plan_root_version plan)) (\<lambda>version.
           write_and_record pr (OpPublishRoot root ''ACTIVE'' version) ''ROOT_PUBLISHER_ROLE'' ''publish-root'' (Ret (JStr root))) in
     case record of
       None \<Rightarrow> write
     | Some r \<Rightarrow>
         if re_status r = ''REVOKED'' then raiseS (ValueError ''publication plan root has been permanently revoked'')
         else if re_status r = ''ACTIVE''
         then bindS (liftS (plan_root_version plan)) (\<lambda>version.
              if re_version r \<noteq> version then raiseS (ValueError ''active Root version conflicts with the approved plan'') else retS [])
         else write))"

text \<open>The arguments of an entry, as the tuple of the code.\<close>

definition entry_arguments :: "jdict \<Rightarrow> json \<Rightarrow> (json \<times> json \<times> int \<times> int \<times> json) res" where
  "entry_arguments plan entry =
     bind_res (json_item entry ''object_hash'') (\<lambda>h. bind_res (jitem plan ''state_root'') (\<lambda>r.
     bind_res (item_int entry ''object_version'') (\<lambda>v. bind_res (item_int entry ''valid_until'') (\<lambda>u.
     bind_res (json_item entry ''status'') (\<lambda>st. Ret (h, r, v, u, st))))))"

definition publish_entry :: "'c plan_registry \<Rightarrow> jdict \<Rightarrow> json \<Rightarrow> ('c publication, json list) op" where
  "publish_entry pr plan entry =
     bindS (liftS (item_text entry ''resolver_id_key'')) (\<lambda>key.
     bindS (chain_read (\<lambda>c. pl_anchor pr c key)) (\<lambda>current.
     bindS (liftS (entry_arguments plan entry)) (\<lambda>(h, r, v, u, st).
     let write = (\<lambda>mk operation. bindS (liftS (as_str h)) (\<lambda>hs. bindS (liftS (as_str r)) (\<lambda>rs.
           write_and_record pr (mk key hs rs v u st) ''RESOLVER_PUBLISHER_ROLE'' operation (json_item entry ''server_id'')))) in
     case current of
       None \<Rightarrow> write OpPublishResolver ''publish-resolver''
     | Some a \<Rightarrow>
         if an_object_version a < v then write OpUpdateResolver ''update-resolver''
         else if an_object_version a \<noteq> v \<or> JStr (an_object_hash a) \<noteq> h \<or> JStr (an_state_root a) \<noteq> r \<or> an_valid_until a \<noteq> u \<or> JStr (an_status a) \<noteq> st
         then raiseS (ValueError ''on-chain resolver conflicts with plan'')
         else retS [])))"

definition publish_resolvers :: "'c plan_registry \<Rightarrow> jdict \<Rightarrow> ('c publication, json list) op" where
  "publish_resolvers pr plan =
     bindS (liftS (plan_root plan)) (\<lambda>root. bindS (chain_read (\<lambda>c. pl_root_status pr c root)) (\<lambda>status.
     if status \<noteq> Some ''ACTIVE'' then raiseS (ValueError ''Root Publisher must activate the approved root first'')
     else bindS (liftS (plan_items plan ''entries'')) (for_receipts (publish_entry pr plan))))"

definition bind_one :: "'c plan_registry \<Rightarrow> string \<Rightarrow> json \<Rightarrow> ('c publication, json list) op" where
  "bind_one pr key endpoint_key =
     bindS (liftS (as_str endpoint_key)) (\<lambda>e. bindS (chain_read (\<lambda>c. pl_binding pr c e)) (\<lambda>existing.
     case existing of
       Some k \<Rightarrow> if k \<noteq> key then raiseS (ValueError (''endpoint conflict: '' @ e)) else retS []
     | None \<Rightarrow> write_and_record pr (OpBindEndpoint e key) ''ENDPOINT_MANAGER_ROLE'' ''bind-endpoint'' (Ret (JStr e))))"

definition bind_entry :: "'c plan_registry \<Rightarrow> jdict \<Rightarrow> json \<Rightarrow> ('c publication, json list) op" where
  "bind_entry pr plan entry =
     bindS (liftS (item_text entry ''resolver_id_key'')) (\<lambda>key.
     bindS (chain_read (\<lambda>c. pl_anchor pr c key)) (\<lambda>current.
     let incomplete = raiseS (ValueError ''Resolver Publisher phase incomplete'') in
     case current of
       None \<Rightarrow> incomplete
     | Some a \<Rightarrow>
         bindS (liftS (json_item entry ''object_hash'')) (\<lambda>h. bindS (liftS (jitem plan ''state_root'')) (\<lambda>r.
         if JStr (an_object_hash a) \<noteq> h \<or> JStr (an_state_root a) \<noteq> r \<or> an_status a \<noteq> ''ACTIVE'' then incomplete
         else bindS (liftS (bind_res (json_item entry ''endpoint_keys'') as_list)) (for_receipts (bind_one pr key))))))"

definition bind_endpoints :: "'c plan_registry \<Rightarrow> jdict \<Rightarrow> ('c publication, json list) op" where
  "bind_endpoints pr plan = bindS (liftS (plan_items plan ''entries'')) (for_receipts (bind_entry pr plan))"

definition unbind_one :: "'c plan_registry \<Rightarrow> json \<Rightarrow> ('c publication, json list) op" where
  "unbind_one pr removal =
     bindS (liftS (item_text removal ''endpoint_key'')) (\<lambda>e. bindS (chain_read (\<lambda>c. pl_binding pr c e)) (\<lambda>existing.
     case existing of
       None \<Rightarrow> retS []
     | Some k \<Rightarrow> bindS (liftS (json_item removal ''resolver_id_key'')) (\<lambda>owner.
         if JStr k \<noteq> owner then raiseS (ValueError (''endpoint removal owner conflict: '' @ e))
         else write_and_record pr (OpUnbindEndpoint e) ''ENDPOINT_MANAGER_ROLE'' ''unbind-endpoint'' (Ret (JStr e)))))"

definition unbind_endpoints :: "'c plan_registry \<Rightarrow> jdict \<Rightarrow> ('c publication, json list) op" where
  "unbind_endpoints pr plan = bindS (liftS (plan_items plan ''endpoint_unbinds'')) (for_receipts (unbind_one pr))"

definition revoke_one :: "'c plan_registry \<Rightarrow> json \<Rightarrow> ('c publication, json list) op" where
  "revoke_one pr removal =
     bindS (liftS (item_text removal ''resolver_id_key'')) (\<lambda>key. bindS (chain_read (\<lambda>c. pl_anchor pr c key)) (\<lambda>current.
     case current of
       None \<Rightarrow> raiseS (ValueError ''removed resolver is absent on chain'')
     | Some a \<Rightarrow> if an_status a = ''REVOKED'' then retS []
         else write_and_record pr (OpRevokeResolver key) ''REVOKER_ROLE'' ''revoke-resolver'' (json_item removal ''server_id'')))"

definition revoke_removed_resolvers :: "'c plan_registry \<Rightarrow> jdict \<Rightarrow> ('c publication, json list) op" where
  "revoke_removed_resolvers pr plan = bindS (liftS (plan_items plan ''resolver_revocations'')) (for_receipts (revoke_one pr))"

datatype plan_phase = PublishRootPhase | PublishResolversPhase | UnbindPhase | BindPhase | RevokePhase

fun phase_name :: "plan_phase \<Rightarrow> string" where
  "phase_name PublishRootPhase = ''publish-root''"
| "phase_name PublishResolversPhase = ''publish-resolvers''"
| "phase_name UnbindPhase = ''unbind-endpoints''"
| "phase_name BindPhase = ''bind-endpoints''"
| "phase_name RevokePhase = ''revoke-removed''"

fun run_phase :: "'c plan_registry \<Rightarrow> jdict \<Rightarrow> plan_phase \<Rightarrow> ('c publication, json list) op" where
  "run_phase pr plan PublishRootPhase = publish_root pr plan"
| "run_phase pr plan PublishResolversPhase = publish_resolvers pr plan"
| "run_phase pr plan UnbindPhase = unbind_endpoints pr plan"
| "run_phase pr plan BindPhase = bind_endpoints pr plan"
| "run_phase pr plan RevokePhase = revoke_removed_resolvers pr plan"

text \<open>The order in which the roles run their phases.\<close>

definition ALL_PHASES :: "plan_phase list" where
  "ALL_PHASES = [PublishRootPhase, PublishResolversPhase, UnbindPhase, BindPhase, RevokePhase]"

fun run_phases :: "'c plan_registry \<Rightarrow> jdict \<Rightarrow> plan_phase list \<Rightarrow> ('c publication, unit) op" where
  "run_phases pr plan [] = retS ()"
| "run_phases pr plan (p # ps) = seqS (run_phase pr plan p) (run_phases pr plan ps)"

text \<open>The command of a phase: the plan is read, its target compared with the live deployment, the journal of an earlier run
  opened, and the receipts written at the end.  \<open>receipt_file\<close> is absent without \<open>--receipt-output\<close>; otherwise it is
  what that file holds.\<close>

definition apply_phase ::
  "json res \<Rightarrow> string \<Rightarrow> (web3_config \<times> string) res \<Rightarrow> (web3_config \<Rightarrow> 'c plan_registry) \<Rightarrow> plan_phase \<Rightarrow> json res option option \<Rightarrow> ('c publication, unit) op" where
  "apply_phase plan_file expected_hash backend registry phase receipt_file =
     bindS (liftS (bind_res plan_file (\<lambda>f. load_plan f expected_hash))) (\<lambda>plan.
     bindS (liftS backend) (\<lambda>(cfg, code_hash).
     bindS (liftS (verify_plan_target cfg code_hash plan)) (\<lambda>_.
     bindS (liftS (case receipt_file of None \<Rightarrow> Ret None
        | Some f \<Rightarrow> bind_res (open_journal f (phase_name phase) expected_hash) (\<lambda>j. Ret (Some j)))) (\<lambda>journal.
     seqS (modS (\<lambda>s. s\<lparr>pu_journal := journal\<rparr>))
     (bindS (run_phase (registry cfg) plan phase) (\<lambda>receipts.
      modS (\<lambda>s. case pu_journal s of None \<Rightarrow> s
        | Some j \<Rightarrow> s\<lparr>pu_file := Some (receipts_document (phase_name phase) (JStr expected_hash) (rj_transactions j))\<rparr>)))))))"

text \<open>The commands \<open>revoke-resolver\<close> and \<open>revoke-root\<close> need no plan and keep no journal; the last argument says whether
  \<open>--receipt-output\<close> was given.\<close>

definition revoke_command ::
  "(web3_config \<times> string) res \<Rightarrow> (web3_config \<Rightarrow> 'c plan_registry) \<Rightarrow> registry_op \<Rightarrow> string \<Rightarrow> string \<Rightarrow> bool \<Rightarrow> ('c publication, unit) op" where
  "revoke_command backend registry op' command target_object output =
     bindS (liftS backend) (\<lambda>(cfg, _).
     bindS (on_chain (pl_write (registry cfg) op')) (\<lambda>receipt.
     case receipt of
       None \<Rightarrow> raiseS (TypeError ''argument of type NoneType is not iterable'')
     | Some r \<Rightarrow> bindS (liftS (transaction_evidence r ''REVOKER_ROLE'' command (JStr target_object))) (\<lambda>e.
         modS (\<lambda>s. if output then s\<lparr>pu_file := Some (receipts_document command JNull [JObj e])\<rparr> else s))))"

definition revoke_resolver_command ::
  "(web3_config \<times> string) res \<Rightarrow> (web3_config \<Rightarrow> 'c plan_registry) \<Rightarrow> string \<Rightarrow> bool \<Rightarrow> ('c publication, unit) op" where
  "revoke_resolver_command backend registry server_id output =
     revoke_command backend registry (OpRevokeResolver (resolver_id_key server_id)) ''revoke-resolver'' server_id output"

definition revoke_root_command ::
  "(web3_config \<times> string) res \<Rightarrow> (web3_config \<Rightarrow> 'c plan_registry) \<Rightarrow> string \<Rightarrow> bool \<Rightarrow> ('c publication, unit) op" where
  "revoke_root_command backend registry state_root output =
     revoke_command backend registry (OpRevokeRoot state_root) ''revoke-root'' state_root output"

section \<open>What a plan names\<close>

text \<open>A member that is missing reads as \<open>None\<close> here, a list that is missing as empty; a canonical plan has them all.\<close>

definition member :: "json \<Rightarrow> string \<Rightarrow> json" where
  "member v k = (case json_item v k of Inr x \<Rightarrow> x | Inl _ \<Rightarrow> JNull)"

definition members :: "json \<Rightarrow> string \<Rightarrow> json list" where
  "members v k = (case bind_res (json_item v k) as_list of Inr xs \<Rightarrow> xs | Inl _ \<Rightarrow> [])"

definition text_key :: "json \<Rightarrow> bytes" where
  "text_key v = (case bind_res (as_str v) key_bytes of Inr b \<Rightarrow> b | Inl _ \<Rightarrow> [])"

definition canonical_text :: "json \<Rightarrow> bool" where
  "canonical_text v \<longleftrightarrow> v = JStr (hex32 (text_key v)) \<and> length (text_key v) = 32"

definition entry_key :: "json \<Rightarrow> bytes" where "entry_key e = text_key (member e ''resolver_id_key'')"

text \<open>The keys and the root are written as 32 bytes in lower case hexadecimal; no two entries have the same resolver key, and no
  resolver of an entry is to be revoked.\<close>

definition plan_canonical :: "jdict \<Rightarrow> bool" where
  "plan_canonical plan \<longleftrightarrow> canonical_text (member (JObj plan) ''state_root'') \<and>
     (\<forall>e\<in>set (members (JObj plan) ''entries''). canonical_text (member e ''resolver_id_key'') \<and> list_all canonical_text (members e ''endpoint_keys'')) \<and>
     (\<forall>u\<in>set (members (JObj plan) ''endpoint_unbinds''). canonical_text (member u ''endpoint_key'')) \<and>
     (\<forall>r\<in>set (members (JObj plan) ''resolver_revocations''). canonical_text (member r ''resolver_id_key''))"

definition plan_keys_apart :: "jdict \<Rightarrow> bool" where
  "plan_keys_apart plan \<longleftrightarrow> distinct (map entry_key (members (JObj plan) ''entries'')) \<and>
     (\<forall>e\<in>set (members (JObj plan) ''entries''). \<forall>r\<in>set (members (JObj plan) ''resolver_revocations''). entry_key e \<noteq> entry_key r)"

lemma canonical_member: "canonical_text (member v k) \<Longrightarrow> json_item v k = Ret (member v k) \<and> item_text v k = Ret (hex32 (text_key (member v k)))"
  by (cases "json_item v k") (auto simp: member_def canonical_text_def item_text_def)

lemma members_Ret: "bind_res (json_item v k) as_list = Ret xs \<Longrightarrow> members v k = xs"
  by (simp add: members_def del: bind_res_eq_Inr)

lemma plan_items_Ret: "plan_items plan k = Ret xs \<Longrightarrow> members (JObj plan) k = xs"
  unfolding plan_items_def using members_Ret[of "JObj plan" k xs] by simp

section \<open>Loops\<close>

lemma for_receipts_inv:
  assumes "for_receipts f xs s = (Ret rs, s')" and "I s"
    and step: "\<And>x t rs t'. x \<in> set xs \<Longrightarrow> I t \<Longrightarrow> f x t = (Ret rs, t') \<Longrightarrow> I t' \<and> Q x t' \<and> (\<forall>y\<in>A. Q y t \<longrightarrow> Q y t')"
  shows "I s' \<and> (\<forall>x\<in>set xs. x \<in> A \<longrightarrow> Q x s') \<and> (\<forall>y\<in>A. Q y s \<longrightarrow> Q y s')"
  using assms(1,2) step
proof (induction xs arbitrary: s rs)
  case (Cons x xs)
  from Cons.prems(1) obtain r1 s1 r2 where r: "f x s = (Ret r1, s1)" "for_receipts f xs s1 = (Ret r2, s')"
    by (auto simp: bindS_Inr)
  have x: "I s1" "Q x s1" "\<forall>y\<in>A. Q y s \<longrightarrow> Q y s1" using Cons.prems(3)[OF _ Cons.prems(2) r(1)] by auto
  have "I s' \<and> (\<forall>x\<in>set xs. x \<in> A \<longrightarrow> Q x s') \<and> (\<forall>y\<in>A. Q y s1 \<longrightarrow> Q y s')"
    by (rule Cons.IH[OF r(2) x(1)], rule Cons.prems(3)) simp_all
  then show ?case using x by auto
qed simp

lemma for_receipts_nothing:
  assumes "\<And>x. x \<in> set xs \<Longrightarrow> f x s = (Ret [], s)"
  shows "for_receipts f xs s = (Ret [], s)"
  using assms by (induction xs) (simp_all add: bindS_def)

section \<open>What the contract does in a phase\<close>

lemma anchored_facts:
  assumes "executed keccak f c c'" and "f = FnPublishResolver k h r v u st \<or> f = FnUpdateResolver k h r v u st"
  shows "\<exists>a. ct_anchors c' = (ct_anchors c)(k := a) \<and> uint (ra_object_version a) = v \<and> ct_endpoints c' = ct_endpoints c \<and> ct_roots c' = ct_roots c"
proof -
  obtain a m where a: "abi_anchor k h r v u st = Some a" "execute keccak m (PublishResolver a) c = Ret c' \<or> execute keccak m (UpdateResolver a) c = Ret c'"
    using assms by (auto simp: executed_def) blast+
  have "ra_resolver_id_key a = k" "uint (ra_object_version a) = v" using a(1) by (auto simp: abi_anchor_def uint64_word split: if_splits)
  then have "ct_anchors c' = (ct_anchors c)(k := a) \<and> ct_endpoints c' = ct_endpoints c \<and> ct_roots c' = ct_roots c"
    using a(2) by (auto simp: publishResolver_def updateResolver_def)
  then show ?thesis using \<open>uint (ra_object_version a) = v\<close> by blast
qed

lemma bound_facts:
  assumes "executed keccak (FnBindEndpoint e k) c c'"
  shows "ct_endpoints c' = (ct_endpoints c)(e := k) \<and> k \<noteq> ZERO32 \<and> ct_anchors c' = ct_anchors c \<and> ct_roots c' = ct_roots c"
  using assms by (auto simp: executed_def bindEndpoint_def Let_def split: if_splits)

lemma unbound_facts:
  assumes "executed keccak (FnUnbindEndpoint e) c c'"
  shows "ct_endpoints c' = (ct_endpoints c)(e := ZERO32) \<and> ct_anchors c' = ct_anchors c \<and> ct_roots c' = ct_roots c"
  using assms by (auto simp: executed_def unbindEndpoint_def split: if_splits)

lemma revoked_facts:
  assumes "executed keccak (FnRevokeResolver k) c c'"
  shows "ct_anchors c' = (ct_anchors c)(k := (ct_anchors c k)\<lparr>ra_status := REVOKED\<rparr>) \<and> ct_endpoints c' = ct_endpoints c \<and> ct_roots c' = ct_roots c"
  using assms by (auto simp: executed_def revokeResolver_def split: if_splits)

lemma root_facts:
  assumes "executed keccak (FnPublishRoot r v) c c'"
  shows "\<exists>rec. ct_roots c' = (ct_roots c)(r := rec) \<and> rr_status rec = ACTIVE \<and> rr_state_root rec = r \<and> r \<noteq> ZERO32 \<and> uint (rr_version rec) = v \<and>
    ct_anchors c' = ct_anchors c \<and> ct_endpoints c' = ct_endpoints c"
  using assms by (auto simp: executed_def publishRoot_def uint64_word split: if_splits)

text \<open>The anchor of an entry is on the chain, is active, and holds the hash of the entry and the root of the plan; the entry lists its endpoints.\<close>

definition entry_anchored :: "jdict \<Rightarrow> (bytes \<Rightarrow> chain_anchor) \<Rightarrow> json \<Rightarrow> bool" where
  "entry_anchored plan anchors e \<longleftrightarrow> ra_object_version (anchors (entry_key e)) \<noteq> 0 \<and>
     json_item e ''object_hash'' = Ret (JStr (an_object_hash (anchor_row (anchors (entry_key e))))) \<and>
     jitem plan ''state_root'' = Ret (JStr (an_state_root (anchor_row (anchors (entry_key e))))) \<and>
     an_status (anchor_row (anchors (entry_key e))) = ''ACTIVE'' \<and>
     bind_res (json_item e ''endpoint_keys'') as_list = Ret (members e ''endpoint_keys'')"

section \<open>The interface of the backend\<close>

text \<open>The deployed contract is behind the backend: a write that returns was executed by the contract, and what is read are the records
  of the contract.\<close>

definition contract_ok :: "contract \<Rightarrow> bool" where
  "contract_ok c \<longleftrightarrow> bytes32_ok c \<and> records_complete c"

definition root_row :: "root_record \<Rightarrow> root_entry" where
  "root_row r = \<lparr>re_state_root = hex32 (rr_state_root r), re_status = status_text (rr_status r), re_published_at = uint (rr_published_at r), re_version = uint (rr_version r)\<rparr>"

locale plan_backend =
  fixes pr :: "'c plan_registry"
    and keccak :: "string \<Rightarrow> bytes"
    and ct :: "'c \<Rightarrow> contract"
  assumes write_law: "pl_write pr op' c = (Ret x, c') \<Longrightarrow> \<exists>f. registry_fn op' = Ret f \<and> executed keccak f (ct c) (ct c')"
    and anchor_law: "contract_ok (ct c) \<Longrightarrow> length k = 32 \<Longrightarrow> pl_anchor pr c (hex32 k) =
      Ret (if ra_object_version (ct_anchors (ct c) k) = 0 then None else Some (anchor_row (ct_anchors (ct c) k)))"
    and binding_law: "contract_ok (ct c) \<Longrightarrow> length e = 32 \<Longrightarrow> pl_binding pr c (hex32 e) =
      Ret (if ct_endpoints (ct c) e = ZERO32 then None else Some (hex32 (ct_endpoints (ct c) e)))"
    and status_law: "contract_ok (ct c) \<Longrightarrow> length r = 32 \<Longrightarrow> pl_root_status pr c (hex32 r) = Ret (Some (status_text (rr_status (ct_roots (ct c) r))))"
    and record_law: "contract_ok (ct c) \<Longrightarrow> length r = 32 \<Longrightarrow> pl_root_record pr c (hex32 r) =
      Ret (if rr_state_root (ct_roots (ct c) r) = ZERO32 then None else Some (root_row (ct_roots (ct c) r)))"
begin

lemma executed_ok: "executed keccak f c c' \<Longrightarrow> contract_ok c \<Longrightarrow> contract_ok c'"
  using bytes32_call execute_complete unfolding executed_def contract_ok_def by blast

lemma write_run:
  assumes "write_and_record pr op' role operation t s = (Ret rs, s')" and "contract_ok (ct (pu_chain s))"
  shows "\<exists>f. registry_fn op' = Ret f \<and> executed keccak f (ct (pu_chain s)) (ct (pu_chain s')) \<and> contract_ok (ct (pu_chain s'))"
proof -
  have rec: "record_receipt e u = (Ret y, u') \<Longrightarrow> pu_chain u' = pu_chain u" for e y and u u' :: "'c publication"
    by (auto simp: record_receipt_def bindS_Inr seqS_Inr split: option.splits)
  obtain x c' s1 where w: "pl_write pr op' (pu_chain s) = (Ret x, c')" "s1 = s\<lparr>pu_chain := c'\<rparr>"
    "(case x of None \<Rightarrow> retS [] | Some r \<Rightarrow> bindS (liftS (bind_res t (transaction_evidence r role operation))) record_receipt) s1 = (Ret rs, s')"
    using assms(1) by (auto simp: write_and_record_def bindS_Inr on_chain_def zoomS_def split: prod.splits)
  then have "pu_chain s' = c'" by (cases x) (auto simp: bindS_Inr dest: rec)
  then show ?thesis using write_law[OF w(1)] executed_ok assms(2) by blast
qed

lemma revoke_command_run:
  assumes "revoke_command (Ret (cfg, h)) (\<lambda>_. pr) op' command target_object output s = (Ret u, s')" and "contract_ok (ct (pu_chain s))"
  shows "\<exists>f. registry_fn op' = Ret f \<and> executed keccak f (ct (pu_chain s)) (ct (pu_chain s')) \<and> contract_ok (ct (pu_chain s'))"
proof -
  obtain x c' where w: "pl_write pr op' (pu_chain s) = (Ret x, c')" "pu_chain s' = c'"
    using assms(1) by (auto simp: revoke_command_def bindS_Inr on_chain_def zoomS_def split: prod.splits option.splits if_splits)
  then show ?thesis using write_law[OF w(1)] executed_ok assms(2) by blast
qed

lemma publish_entry_run:
  assumes "publish_entry pr plan e s = (Ret rs, s')" and "contract_ok (ct (pu_chain s))" and "canonical_text (member e ''resolver_id_key'')"
  shows "contract_ok (ct (pu_chain s')) \<and> ct_roots (ct (pu_chain s')) = ct_roots (ct (pu_chain s)) \<and>
    ct_endpoints (ct (pu_chain s')) = ct_endpoints (ct (pu_chain s)) \<and>
    item_int e ''object_version'' = Ret (uint (ra_object_version (ct_anchors (ct (pu_chain s')) (entry_key e)))) \<and>
    (\<forall>k. k \<noteq> entry_key e \<longrightarrow> ct_anchors (ct (pu_chain s')) k = ct_anchors (ct (pu_chain s)) k)"
proof -
  let ?k = "entry_key e"
  have k: "item_text e ''resolver_id_key'' = Ret (hex32 ?k)" "length ?k = 32"
    using canonical_member[OF assms(3)] assms(3) by (simp_all add: entry_key_def canonical_text_def)
  have cur: "pl_anchor pr (pu_chain s) (hex32 ?k) =
      Ret (if ra_object_version (ct_anchors (ct (pu_chain s)) ?k) = 0 then None else Some (anchor_row (ct_anchors (ct (pu_chain s)) ?k)))"
    by (rule anchor_law[OF assms(2) k(2)])
  have wr: ?thesis if w: "write_and_record pr op' role operation t s = (Ret rs, s')" "item_int e ''object_version'' = Ret v"
      "op' = OpPublishResolver (hex32 ?k) hs r v u st \<or> op' = OpUpdateResolver (hex32 ?k) hs r v u st" for op' role operation t hs r v u st
  proof -
    from write_run[OF w(1) assms(2)] obtain f where f: "registry_fn op' = Ret f" "executed keccak f (ct (pu_chain s)) (ct (pu_chain s'))" "contract_ok (ct (pu_chain s'))"
      by blast
    then obtain h r' sti where "f = FnPublishResolver ?k h r' v u sti \<or> f = FnUpdateResolver ?k h r' v u sti"
      using w(3) k(2) by (auto simp: anchor_args_def)
    then show ?thesis using anchored_facts[OF f(2)] f(3) w(2) by auto
  qed
  show ?thesis
  proof (cases "ra_object_version (ct_anchors (ct (pu_chain s)) ?k) = 0")
    case True
    then show ?thesis using assms(1) k cur wr unfolding publish_entry_def entry_arguments_def
      by (auto simp: bindS_Inr chain_read_def Let_def)
  next
    case False
    let ?a = "anchor_row (ct_anchors (ct (pu_chain s)) ?k)"
    from False cur have cur: "pl_anchor pr (pu_chain s) (hex32 ?k) = Ret (Some ?a)" by simp
    have v: "an_object_version ?a = uint (ra_object_version (ct_anchors (ct (pu_chain s)) ?k))" by (simp add: anchor_row_def)
    show ?thesis using assms(1,2) k cur v wr unfolding publish_entry_def entry_arguments_def
      by (auto simp: bindS_Inr chain_read_def Let_def split: if_splits)
  qed
qed

lemma publish_resolvers_run:
  assumes "publish_resolvers pr plan s = (Ret rs, s')" and "contract_ok (ct (pu_chain s))" and "plan_canonical plan" and "plan_keys_apart plan"
  shows "contract_ok (ct (pu_chain s')) \<and> ct_roots (ct (pu_chain s')) = ct_roots (ct (pu_chain s)) \<and>
    ct_endpoints (ct (pu_chain s')) = ct_endpoints (ct (pu_chain s)) \<and>
    rr_status (ct_roots (ct (pu_chain s)) (text_key (member (JObj plan) ''state_root''))) = ACTIVE \<and>
    (\<forall>e\<in>set (members (JObj plan) ''entries''). item_int e ''object_version'' = Ret (uint (ra_object_version (ct_anchors (ct (pu_chain s')) (entry_key e)))))"
proof -
  let ?es = "members (JObj plan) ''entries''" and ?r = "text_key (member (JObj plan) ''state_root'')"
  have can: "\<forall>e\<in>set ?es. canonical_text (member e ''resolver_id_key'')" and r: "canonical_text (member (JObj plan) ''state_root'')"
    using assms(3) by (simp_all add: plan_canonical_def)
  have "plan_root plan = Ret (hex32 ?r)" "length ?r = 32"
    using canonical_member[OF r] r by (simp_all add: plan_root_def item_text_def canonical_text_def)
  then obtain es where es: "plan_items plan ''entries'' = Ret es" "for_receipts (publish_entry pr plan) es s = (Ret rs, s')"
    "status_text (rr_status (ct_roots (ct (pu_chain s)) ?r)) = ''ACTIVE''"
    using assms(1,2) status_law[of "pu_chain s" ?r] by (auto simp: publish_resolvers_def bindS_Inr chain_read_def split: if_splits)
  have e: "members (JObj plan) ''entries'' = es" by (rule plan_items_Ret[OF es(1)])
  have inj: "inj_on entry_key (set es)" using assms(4) e by (simp add: plan_keys_apart_def distinct_map)
  let ?I = "\<lambda>t. contract_ok (ct (pu_chain t)) \<and> ct_roots (ct (pu_chain t)) = ct_roots (ct (pu_chain s)) \<and> ct_endpoints (ct (pu_chain t)) = ct_endpoints (ct (pu_chain s))"
    and ?Q = "\<lambda>e t. item_int e ''object_version'' = Ret (uint (ra_object_version (ct_anchors (ct (pu_chain t)) (entry_key e))))"
  have "?I s' \<and> (\<forall>x\<in>set es. x \<in> set es \<longrightarrow> ?Q x s') \<and> (\<forall>y\<in>set es. ?Q y s \<longrightarrow> ?Q y s')"
  proof (rule for_receipts_inv[OF es(2)])
    fix x t rs t' assume x: "x \<in> set es" "?I t" "publish_entry pr plan x t = (Ret rs, t')"
    have run: "contract_ok (ct (pu_chain t')) \<and> ct_roots (ct (pu_chain t')) = ct_roots (ct (pu_chain t)) \<and>
      ct_endpoints (ct (pu_chain t')) = ct_endpoints (ct (pu_chain t)) \<and> ?Q x t' \<and>
      (\<forall>k. k \<noteq> entry_key x \<longrightarrow> ct_anchors (ct (pu_chain t')) k = ct_anchors (ct (pu_chain t)) k)"
      by (rule publish_entry_run[OF x(3)]) (use x can e in auto)
    moreover have "?Q y t'" if "y \<in> set es" "?Q y t" for y
    proof (cases "entry_key y = entry_key x")
      case True
      then have "y = x" using inj that(1) x(1) by (auto dest: inj_onD)
      then show ?thesis using run by simp
    next
      case False
      then show ?thesis using run that(2) by simp
    qed
    ultimately show "?I t' \<and> ?Q x t' \<and> (\<forall>y\<in>set es. ?Q y t \<longrightarrow> ?Q y t')" using x(2) by auto
  qed (use assms(2) in simp)
  moreover have "rr_status (ct_roots (ct (pu_chain s)) ?r) = ACTIVE" using es(3) by (cases "rr_status (ct_roots (ct (pu_chain s)) ?r)") auto
  ultimately show ?thesis unfolding e by auto
qed

lemma bind_one_run:
  assumes "bind_one pr (hex32 k) x s = (Ret rs, s')" and "contract_ok (ct (pu_chain s))" and "canonical_text x" and "length k = 32"
  shows "contract_ok (ct (pu_chain s')) \<and> ct_roots (ct (pu_chain s')) = ct_roots (ct (pu_chain s)) \<and> ct_anchors (ct (pu_chain s')) = ct_anchors (ct (pu_chain s)) \<and>
    ct_endpoints (ct (pu_chain s')) (text_key x) = k \<and> k \<noteq> ZERO32 \<and>
    (\<forall>e. ct_endpoints (ct (pu_chain s)) e \<noteq> ZERO32 \<or> e \<noteq> text_key x \<longrightarrow> ct_endpoints (ct (pu_chain s')) e = ct_endpoints (ct (pu_chain s)) e)"
proof -
  have x: "as_str x = Ret (hex32 (text_key x))" "length (text_key x) = 32" using assms(3) unfolding canonical_text_def by (metis as_str_Inr, simp)
  note b = binding_law[OF assms(2) x(2)]
  show ?thesis
  proof (cases "ct_endpoints (ct (pu_chain s)) (text_key x) = ZERO32")
    case True
    then have "write_and_record pr (OpBindEndpoint (hex32 (text_key x)) (hex32 k)) ''ENDPOINT_MANAGER_ROLE'' ''bind-endpoint'' (Ret (JStr (hex32 (text_key x)))) s = (Ret rs, s')"
      using assms(1) x(1) b by (auto simp: bind_one_def bindS_Inr chain_read_def)
    from write_run[OF this assms(2)] have "executed keccak (FnBindEndpoint (text_key x) k) (ct (pu_chain s)) (ct (pu_chain s'))" "contract_ok (ct (pu_chain s'))"
      using x(2) assms(4) by auto
    then show ?thesis using bound_facts True by fastforce
  next
    case False
    then have "s' = s" "ct_endpoints (ct (pu_chain s)) (text_key x) = k"
      using assms(1) x(1) b by (auto simp: bind_one_def bindS_Inr chain_read_def split: if_splits)
    then show ?thesis using False assms(2) by auto
  qed
qed

lemma bind_entry_run:
  assumes "bind_entry pr plan e s = (Ret rs, s')" and "contract_ok (ct (pu_chain s))"
    and "canonical_text (member e ''resolver_id_key'')" and "list_all canonical_text (members e ''endpoint_keys'')"
  shows "contract_ok (ct (pu_chain s')) \<and> ct_roots (ct (pu_chain s')) = ct_roots (ct (pu_chain s)) \<and> ct_anchors (ct (pu_chain s')) = ct_anchors (ct (pu_chain s)) \<and>
    (\<forall>x\<in>set (members e ''endpoint_keys''). ct_endpoints (ct (pu_chain s')) (text_key x) = entry_key e \<and> entry_key e \<noteq> ZERO32) \<and>
    (\<forall>y. ct_endpoints (ct (pu_chain s)) y \<noteq> ZERO32 \<or> y \<notin> text_key ` set (members e ''endpoint_keys'') \<longrightarrow>
       ct_endpoints (ct (pu_chain s')) y = ct_endpoints (ct (pu_chain s)) y) \<and>
    entry_anchored plan (ct_anchors (ct (pu_chain s))) e"
proof -
  let ?k = "entry_key e"
  have k: "item_text e ''resolver_id_key'' = Ret (hex32 ?k)" "length ?k = 32"
    using canonical_member[OF assms(3)] assms(3) by (simp_all add: entry_key_def canonical_text_def)
  note cur = anchor_law[OF assms(2) k(2)]
  let ?a = "anchor_row (ct_anchors (ct (pu_chain s)) ?k)"
  obtain xs where xs: "bind_res (json_item e ''endpoint_keys'') as_list = Ret xs" "for_receipts (bind_one pr (hex32 ?k)) xs s = (Ret rs, s')"
    "ra_object_version (ct_anchors (ct (pu_chain s)) ?k) \<noteq> 0"
    "json_item e ''object_hash'' = Ret (JStr (an_object_hash ?a))" "jitem plan ''state_root'' = Ret (JStr (an_state_root ?a))" "an_status ?a = ''ACTIVE''"
    using assms(1) k(1) cur by (auto simp: bind_entry_def bindS_Inr chain_read_def Let_def split: if_splits)
  have e: "members e ''endpoint_keys'' = xs" by (rule members_Ret[OF xs(1)])
  let ?E = "\<lambda>t. ct_endpoints (ct (pu_chain t))"
  let ?I = "\<lambda>t. contract_ok (ct (pu_chain t)) \<and> ct_roots (ct (pu_chain t)) = ct_roots (ct (pu_chain s)) \<and> ct_anchors (ct (pu_chain t)) = ct_anchors (ct (pu_chain s)) \<and>
      (\<forall>y. ?E s y \<noteq> ZERO32 \<or> y \<notin> text_key ` set xs \<longrightarrow> ?E t y = ?E s y)"
    and ?Q = "\<lambda>x t. ?E t (text_key x) = ?k \<and> ?k \<noteq> ZERO32"
  have "?I s' \<and> (\<forall>x\<in>set xs. x \<in> set xs \<longrightarrow> ?Q x s') \<and> (\<forall>y\<in>set xs. ?Q y s \<longrightarrow> ?Q y s')"
  proof (rule for_receipts_inv[OF xs(2)])
    fix x t rs t' assume x: "x \<in> set xs" "?I t" "bind_one pr (hex32 ?k) x t = (Ret rs, t')"
    have run: "contract_ok (ct (pu_chain t')) \<and> ct_roots (ct (pu_chain t')) = ct_roots (ct (pu_chain t)) \<and> ct_anchors (ct (pu_chain t')) = ct_anchors (ct (pu_chain t)) \<and>
      ?Q x t' \<and> (\<forall>y. ?E t y \<noteq> ZERO32 \<or> y \<noteq> text_key x \<longrightarrow> ?E t' y = ?E t y)"
      using bind_one_run[OF x(3) _ _ k(2)] x(1,2) assms(4) e by (simp add: list_all_iff)
    moreover have "?E t' y = ?E s y" if "?E s y \<noteq> ZERO32 \<or> y \<notin> text_key ` set xs" for y
    proof -
      have "?E t y = ?E s y" using x(2) that by blast
      moreover have "?E t y \<noteq> ZERO32 \<or> y \<noteq> text_key x" using calculation that x(1) by auto
      ultimately show ?thesis using run by metis
    qed
    ultimately show "?I t' \<and> ?Q x t' \<and> (\<forall>y\<in>set xs. ?Q y t \<longrightarrow> ?Q y t')" using x(2) by auto
  qed (use assms(2) in simp)
  then show ?thesis using xs(1,3-6) unfolding e entry_anchored_def by (auto simp del: bind_res_eq_Inr)
qed

lemma bind_endpoints_run:
  assumes "bind_endpoints pr plan s = (Ret rs, s')" and "contract_ok (ct (pu_chain s))" and "plan_canonical plan"
  shows "contract_ok (ct (pu_chain s')) \<and> ct_roots (ct (pu_chain s')) = ct_roots (ct (pu_chain s)) \<and> ct_anchors (ct (pu_chain s')) = ct_anchors (ct (pu_chain s)) \<and>
    (\<forall>e\<in>set (members (JObj plan) ''entries''). entry_anchored plan (ct_anchors (ct (pu_chain s))) e \<and>
       (\<forall>x\<in>set (members e ''endpoint_keys''). ct_endpoints (ct (pu_chain s')) (text_key x) = entry_key e \<and> entry_key e \<noteq> ZERO32)) \<and>
    (\<forall>y. y \<notin> (\<Union>e\<in>set (members (JObj plan) ''entries''). text_key ` set (members e ''endpoint_keys'')) \<longrightarrow>
       ct_endpoints (ct (pu_chain s')) y = ct_endpoints (ct (pu_chain s)) y)"
proof -
  obtain es where es: "plan_items plan ''entries'' = Ret es" "for_receipts (bind_entry pr plan) es s = (Ret rs, s')"
    using assms(1) by (auto simp: bind_endpoints_def bindS_Inr)
  have e: "members (JObj plan) ''entries'' = es" by (rule plan_items_Ret[OF es(1)])
  let ?E = "\<lambda>t. ct_endpoints (ct (pu_chain t))" and ?K = "\<Union>e\<in>set es. text_key ` set (members e ''endpoint_keys'')"
  let ?I = "\<lambda>t. contract_ok (ct (pu_chain t)) \<and> ct_roots (ct (pu_chain t)) = ct_roots (ct (pu_chain s)) \<and> ct_anchors (ct (pu_chain t)) = ct_anchors (ct (pu_chain s)) \<and>
      (\<forall>y. y \<notin> ?K \<longrightarrow> ?E t y = ?E s y)"
    and ?Q = "\<lambda>e t. entry_anchored plan (ct_anchors (ct (pu_chain s))) e \<and>
       (\<forall>x\<in>set (members e ''endpoint_keys''). ?E t (text_key x) = entry_key e \<and> entry_key e \<noteq> ZERO32)"
  have "?I s' \<and> (\<forall>x\<in>set es. x \<in> set es \<longrightarrow> ?Q x s') \<and> (\<forall>y\<in>set es. ?Q y s \<longrightarrow> ?Q y s')"
  proof (rule for_receipts_inv[OF es(2)])
    fix e t rs t' assume x: "e \<in> set es" "?I t" "bind_entry pr plan e t = (Ret rs, t')"
    have "canonical_text (member e ''resolver_id_key'')" "list_all canonical_text (members e ''endpoint_keys'')"
      using assms(3) \<open>members (JObj plan) ''entries'' = es\<close> x(1) by (simp_all add: plan_canonical_def)
    from bind_entry_run[OF x(3) _ this] x(2)
    have run: "contract_ok (ct (pu_chain t'))" "ct_roots (ct (pu_chain t')) = ct_roots (ct (pu_chain t))" "ct_anchors (ct (pu_chain t')) = ct_anchors (ct (pu_chain t))"
      "\<forall>x\<in>set (members e ''endpoint_keys''). ?E t' (text_key x) = entry_key e \<and> entry_key e \<noteq> ZERO32"
      "\<forall>y. ?E t y \<noteq> ZERO32 \<or> y \<notin> text_key ` set (members e ''endpoint_keys'') \<longrightarrow> ?E t' y = ?E t y"
      "entry_anchored plan (ct_anchors (ct (pu_chain t))) e" by blast+
    have "?E t' y = ?E s y" if y: "y \<notin> ?K" for y
    proof -
      have "y \<notin> text_key ` set (members e ''endpoint_keys'')" using y x(1) by auto
      then have "?E t' y = ?E t y" using run(5) by simp
      then show ?thesis using x(2) y by simp
    qed
    moreover have "?Q y t'" if "?Q y t" for y using that run(5) by metis
    ultimately show "?I t' \<and> ?Q e t' \<and> (\<forall>y\<in>set es. ?Q y t \<longrightarrow> ?Q y t')" using x(2) run by simp
  qed (use assms(2) in simp)
  then show ?thesis unfolding e by blast
qed

lemma unbind_endpoints_run:
  assumes "unbind_endpoints pr plan s = (Ret rs, s')" and "contract_ok (ct (pu_chain s))" and "plan_canonical plan"
  shows "contract_ok (ct (pu_chain s')) \<and> ct_roots (ct (pu_chain s')) = ct_roots (ct (pu_chain s)) \<and> ct_anchors (ct (pu_chain s')) = ct_anchors (ct (pu_chain s)) \<and>
    (\<forall>u\<in>set (members (JObj plan) ''endpoint_unbinds''). ct_endpoints (ct (pu_chain s')) (text_key (member u ''endpoint_key'')) = ZERO32)"
proof -
  obtain us where us: "plan_items plan ''endpoint_unbinds'' = Ret us" "for_receipts (unbind_one pr) us s = (Ret rs, s')"
    using assms(1) by (auto simp: unbind_endpoints_def bindS_Inr)
  have u: "members (JObj plan) ''endpoint_unbinds'' = us" by (rule plan_items_Ret[OF us(1)])
  let ?I = "\<lambda>t. contract_ok (ct (pu_chain t)) \<and> ct_roots (ct (pu_chain t)) = ct_roots (ct (pu_chain s)) \<and> ct_anchors (ct (pu_chain t)) = ct_anchors (ct (pu_chain s))"
    and ?Q = "\<lambda>u t. ct_endpoints (ct (pu_chain t)) (text_key (member u ''endpoint_key'')) = ZERO32"
  have "?I s' \<and> (\<forall>x\<in>set us. x \<in> set us \<longrightarrow> ?Q x s') \<and> (\<forall>y\<in>set us. ?Q y s \<longrightarrow> ?Q y s')"
  proof (rule for_receipts_inv[OF us(2)])
    fix u t rs t' assume x: "u \<in> set us" "?I t" "unbind_one pr u t = (Ret rs, t')"
    let ?x = "text_key (member u ''endpoint_key'')"
    have can: "canonical_text (member u ''endpoint_key'')" using assms(3) \<open>members (JObj plan) ''endpoint_unbinds'' = us\<close> x(1) by (simp add: plan_canonical_def)
    then have l: "item_text u ''endpoint_key'' = Ret (hex32 ?x)" "length ?x = 32" using canonical_member by (auto simp: canonical_text_def)
    note b = binding_law[OF conjunct1[OF x(2)] l(2)]
    show "?I t' \<and> ?Q u t' \<and> (\<forall>y\<in>set us. ?Q y t \<longrightarrow> ?Q y t')"
    proof (cases "ct_endpoints (ct (pu_chain t)) ?x = ZERO32")
      case True
      then show ?thesis using x(2,3) l(1) b by (auto simp: unbind_one_def bindS_Inr chain_read_def)
    next
      case False
      then have "write_and_record pr (OpUnbindEndpoint (hex32 ?x)) ''ENDPOINT_MANAGER_ROLE'' ''unbind-endpoint'' (Ret (JStr (hex32 ?x))) t = (Ret rs, t')"
        using x(3) l(1) b by (auto simp: unbind_one_def bindS_Inr chain_read_def split: if_splits)
      from write_run[OF this conjunct1[OF x(2)]] have "executed keccak (FnUnbindEndpoint ?x) (ct (pu_chain t)) (ct (pu_chain t'))" "contract_ok (ct (pu_chain t'))"
        using l(2) by auto
      then show ?thesis using unbound_facts x(2) by fastforce
    qed
  qed (use assms(2) in simp)
  then show ?thesis unfolding u by blast
qed

lemma revoke_removed_run:
  assumes "revoke_removed_resolvers pr plan s = (Ret rs, s')" and "contract_ok (ct (pu_chain s))" and "plan_canonical plan"
  shows "contract_ok (ct (pu_chain s')) \<and> ct_roots (ct (pu_chain s')) = ct_roots (ct (pu_chain s)) \<and> ct_endpoints (ct (pu_chain s')) = ct_endpoints (ct (pu_chain s)) \<and>
    (\<forall>k. k \<notin> entry_key ` set (members (JObj plan) ''resolver_revocations'') \<longrightarrow> ct_anchors (ct (pu_chain s')) k = ct_anchors (ct (pu_chain s)) k) \<and>
    (\<forall>u\<in>set (members (JObj plan) ''resolver_revocations''). ra_status (ct_anchors (ct (pu_chain s')) (entry_key u)) = REVOKED)"
proof -
  obtain us where us: "plan_items plan ''resolver_revocations'' = Ret us" "for_receipts (revoke_one pr) us s = (Ret rs, s')"
    using assms(1) by (auto simp: revoke_removed_resolvers_def bindS_Inr)
  have u: "members (JObj plan) ''resolver_revocations'' = us" by (rule plan_items_Ret[OF us(1)])
  let ?A = "\<lambda>t. ct_anchors (ct (pu_chain t))"
  let ?I = "\<lambda>t. contract_ok (ct (pu_chain t)) \<and> ct_roots (ct (pu_chain t)) = ct_roots (ct (pu_chain s)) \<and> ct_endpoints (ct (pu_chain t)) = ct_endpoints (ct (pu_chain s)) \<and>
      (\<forall>k. k \<notin> entry_key ` set us \<longrightarrow> ?A t k = ?A s k)"
    and ?Q = "\<lambda>u t. ra_status (?A t (entry_key u)) = REVOKED"
  have "?I s' \<and> (\<forall>x\<in>set us. x \<in> set us \<longrightarrow> ?Q x s') \<and> (\<forall>y\<in>set us. ?Q y s \<longrightarrow> ?Q y s')"
  proof (rule for_receipts_inv[OF us(2)])
    fix u t rs t' assume x: "u \<in> set us" "?I t" "revoke_one pr u t = (Ret rs, t')"
    let ?k = "entry_key u"
    have can: "canonical_text (member u ''resolver_id_key'')" using assms(3) \<open>members (JObj plan) ''resolver_revocations'' = us\<close> x(1) by (simp add: plan_canonical_def)
    then have l: "item_text u ''resolver_id_key'' = Ret (hex32 ?k)" "length ?k = 32" using canonical_member by (auto simp: canonical_text_def entry_key_def)
    note b = anchor_law[OF conjunct1[OF x(2)] l(2)]
    have st: "an_status (anchor_row a) = ''REVOKED'' \<longleftrightarrow> ra_status a = REVOKED" for a by (cases "ra_status a") (simp_all add: anchor_row_def)
    show "?I t' \<and> ?Q u t' \<and> (\<forall>y\<in>set us. ?Q y t \<longrightarrow> ?Q y t')"
    proof (cases "ra_status (?A t ?k) = REVOKED")
      case True
      then show ?thesis using x(2,3) l(1) b st by (auto simp: revoke_one_def bindS_Inr chain_read_def split: if_splits)
    next
      case False
      then have "write_and_record pr (OpRevokeResolver (hex32 ?k)) ''REVOKER_ROLE'' ''revoke-resolver'' (json_item u ''server_id'') t = (Ret rs, t')"
        using x(3) l(1) b st by (auto simp: revoke_one_def bindS_Inr chain_read_def split: if_splits)
      from write_run[OF this conjunct1[OF x(2)]] have "executed keccak (FnRevokeResolver ?k) (ct (pu_chain t)) (ct (pu_chain t'))" "contract_ok (ct (pu_chain t'))"
        using l(2) by auto
      then show ?thesis using revoked_facts x(1,2) by fastforce
    qed
  qed (use assms(2) in simp)
  then show ?thesis unfolding u by blast
qed

lemma publish_root_run:
  assumes "publish_root pr plan s = (Ret rs, s')" and "contract_ok (ct (pu_chain s))" and "plan_canonical plan"
  shows "contract_ok (ct (pu_chain s')) \<and> ct_anchors (ct (pu_chain s')) = ct_anchors (ct (pu_chain s)) \<and> ct_endpoints (ct (pu_chain s')) = ct_endpoints (ct (pu_chain s)) \<and>
    (let r = text_key (member (JObj plan) ''state_root'') in rr_status (ct_roots (ct (pu_chain s')) r) = ACTIVE \<and>
       plan_root_version plan = Ret (uint (rr_version (ct_roots (ct (pu_chain s')) r))))"
proof -
  let ?r = "text_key (member (JObj plan) ''state_root'')" and ?R = "\<lambda>t. ct_roots (ct (pu_chain t))"
  have "canonical_text (member (JObj plan) ''state_root'')" using assms(3) by (simp add: plan_canonical_def)
  then have r: "plan_root plan = Ret (hex32 ?r)" "length ?r = 32"
    using canonical_member[of "JObj plan" "''state_root''"] by (simp_all add: plan_root_def item_text_def canonical_text_def)
  note rec = record_law[OF assms(2) r(2)]
  have wr: ?thesis if w: "write_and_record pr (OpPublishRoot (hex32 ?r) ''ACTIVE'' v) ''ROOT_PUBLISHER_ROLE'' ''publish-root'' (Ret (JStr (hex32 ?r))) s = (Ret rs, s')"
      "plan_root_version plan = Ret v" for v
  proof -
    have "py_upper ''ACTIVE'' = ''ACTIVE''" by code_simp
    then have "registry_fn (OpPublishRoot (hex32 ?r) ''ACTIVE'' v) = Ret (FnPublishRoot ?r v)" using r(2) by simp
    then have "executed keccak (FnPublishRoot ?r v) (ct (pu_chain s)) (ct (pu_chain s'))" "contract_ok (ct (pu_chain s'))"
      using write_run[OF w(1) assms(2)] by auto
    then show ?thesis using root_facts w(2) by fastforce
  qed
  have st: "status_text x = ''ACTIVE'' \<longleftrightarrow> x = ACTIVE" for x by (cases x) simp_all
  show ?thesis
  proof (cases "rr_state_root (?R s ?r) \<noteq> ZERO32 \<and> rr_status (?R s ?r) = ACTIVE")
    case True
    then have "s' = s \<and> plan_root_version plan = Ret (uint (rr_version (?R s ?r)))"
      using assms(1) r(1) rec by (auto simp: publish_root_def bindS_Inr chain_read_def Let_def root_row_def split: if_splits)
    then show ?thesis using True assms(2) by (simp add: Let_def)
  next
    case False
    then obtain v where "plan_root_version plan = Ret v"
      "write_and_record pr (OpPublishRoot (hex32 ?r) ''ACTIVE'' v) ''ROOT_PUBLISHER_ROLE'' ''publish-root'' (Ret (JStr (hex32 ?r))) s = (Ret rs, s')"
      using assms(1) r(1) rec st by (auto simp: publish_root_def bindS_Inr chain_read_def Let_def root_row_def split: if_splits)
    then show ?thesis using wr by blast
  qed
qed

lemma applied_plan:
  assumes "run_phases pr plan ALL_PHASES s = (Ret u, s')" and "contract_ok (ct (pu_chain s))" and "plan_canonical plan" and "plan_keys_apart plan"
  shows "contract_ok (ct (pu_chain s')) \<and> rr_status (ct_roots (ct (pu_chain s')) (text_key (member (JObj plan) ''state_root''))) = ACTIVE \<and>
    (\<forall>e\<in>set (members (JObj plan) ''entries''). entry_anchored plan (ct_anchors (ct (pu_chain s'))) e \<and>
       item_int e ''object_version'' = Ret (uint (ra_object_version (ct_anchors (ct (pu_chain s')) (entry_key e)))) \<and>
       (\<forall>x\<in>set (members e ''endpoint_keys''). ct_endpoints (ct (pu_chain s')) (text_key x) = entry_key e \<and> entry_key e \<noteq> ZERO32)) \<and>
    (\<forall>v\<in>set (members (JObj plan) ''endpoint_unbinds'').
       text_key (member v ''endpoint_key'') \<notin> (\<Union>e\<in>set (members (JObj plan) ''entries''). text_key ` set (members e ''endpoint_keys'')) \<longrightarrow>
       ct_endpoints (ct (pu_chain s')) (text_key (member v ''endpoint_key'')) = ZERO32) \<and>
    (\<forall>v\<in>set (members (JObj plan) ''resolver_revocations''). ra_status (ct_anchors (ct (pu_chain s')) (entry_key v)) = REVOKED)"
proof -
  obtain s1 s2 s3 s4 r1 r2 r3 r4 r5 where runs: "publish_root pr plan s = (Ret r1, s1)" "publish_resolvers pr plan s1 = (Ret r2, s2)"
    "unbind_endpoints pr plan s2 = (Ret r3, s3)" "bind_endpoints pr plan s3 = (Ret r4, s4)" "revoke_removed_resolvers pr plan s4 = (Ret r5, s')"
    using assms(1) by (auto simp: ALL_PHASES_def seqS_Inr)
  note p1 = publish_root_run[OF runs(1) assms(2,3), unfolded Let_def]
  note p2 = publish_resolvers_run[OF runs(2) conjunct1[OF p1] assms(3,4)]
  note p3 = unbind_endpoints_run[OF runs(3) conjunct1[OF p2] assms(3)]
  note p4 = bind_endpoints_run[OF runs(4) conjunct1[OF p3] assms(3)]
  note p5 = revoke_removed_run[OF runs(5) conjunct1[OF p4] assms(3)]
  have an: "ct_anchors (ct (pu_chain s')) (entry_key e) = ct_anchors (ct (pu_chain s2)) (entry_key e)"
    if "e \<in> set (members (JObj plan) ''entries'')" for e
  proof -
    have "entry_key e \<notin> entry_key ` set (members (JObj plan) ''resolver_revocations'')"
      using assms(4) that unfolding plan_keys_apart_def by blast
    then show ?thesis using p3 p4 p5 by metis
  qed
  have "ct_roots (ct (pu_chain s')) = ct_roots (ct (pu_chain s1))" using p2 p3 p4 p5 by metis
  moreover have "ct_endpoints (ct (pu_chain s')) = ct_endpoints (ct (pu_chain s4))" using p5 by blast
  moreover have "entry_anchored plan (ct_anchors (ct (pu_chain s'))) e" if e: "e \<in> set (members (JObj plan) ''entries'')" for e
  proof -
    have "entry_anchored plan (ct_anchors (ct (pu_chain s2))) e" using p3 p4 e by metis
    then show ?thesis unfolding entry_anchored_def an[OF e] .
  qed
  moreover have "ct_endpoints (ct (pu_chain s4)) (text_key (member v ''endpoint_key'')) = ZERO32"
    if "v \<in> set (members (JObj plan) ''endpoint_unbinds'')"
      "text_key (member v ''endpoint_key'') \<notin> (\<Union>e\<in>set (members (JObj plan) ''entries''). text_key ` set (members e ''endpoint_keys''))" for v
    using p3 p4 that by metis
  ultimately show ?thesis using p1 p2 p4 p5 an by simp
qed

end

section \<open>The Web3 backend provides the interface\<close>

definition root_tuple :: "root_record \<Rightarrow> chain_value list" where
  "root_tuple r = [CBytes (rr_state_root r), CJson (JInt (status_id (rr_status r))), CJson (JInt (uint (rr_published_at r))), CJson (JInt (uint (rr_version r)))]"

definition reads_roots :: "'c web3_node \<Rightarrow> ('c \<Rightarrow> contract) \<Rightarrow> bool" where
  "reads_roots nd ct \<longleftrightarrow> (\<forall>c r. length r = 32 \<longrightarrow> n_root_record nd c r = Ret (root_tuple (ct_roots (ct c) r)))"

lemma web3_plan_backend:
  assumes "runs_contract nd keccak ct" and "reads_roots nd ct"
  shows "plan_backend (web3_plan_registry cfg nd env) keccak ct"
proof
  fix op' c x c' assume "pl_write (web3_plan_registry cfg nd env) op' c = (Ret x, c')"
  then obtain r where w: "web3_write cfg nd env op' c = (Ret r, c')" by (auto simp: web3_plan_registry_def bindS_Inr)
  then obtain f where f: "registry_fn op' = Ret f" by (auto simp: web3_write_def bindS_Inr)
  then have "transact cfg nd env f c = (Ret r, c')" using w by (simp add: web3_write_def)
  then show "\<exists>f. registry_fn op' = Ret f \<and> executed keccak f (ct c) (ct c')" using transact_executes[OF assms(1)] f by blast
next
  fix c k assume "contract_ok (ct c)" "length (k :: bytes) = 32"
  then show "pl_anchor (web3_plan_registry cfg nd env) c (hex32 k) =
      Ret (if ra_object_version (ct_anchors (ct c) k) = 0 then None else Some (anchor_row (ct_anchors (ct c) k)))"
    using assms(1) decode_contract_anchor[of "ct c" k]
    by (simp add: web3_plan_registry_def web3_get_resolver_anchor_def runs_contract_def contract_ok_def)
next
  fix c e assume "contract_ok (ct c)" "length (e :: bytes) = 32"
  then have l: "length (ct_endpoints (ct c) e) = 32" by (simp add: contract_ok_def bytes32_ok_def)
  obtain z where "py_int16 (hex32 (ct_endpoints (ct c) e)) = Ret z" using int16_hex32(2)[OF l] by blast
  then show "pl_binding (web3_plan_registry cfg nd env) c (hex32 e) = Ret (if ct_endpoints (ct c) e = ZERO32 then None else Some (hex32 (ct_endpoints (ct c) e)))"
    using assms(1) \<open>length e = 32\<close> int16_hex32(1)[OF l] l
    by (auto simp: web3_plan_registry_def web3_get_endpoint_binding_def runs_contract_def)
next
  fix c r assume "contract_ok (ct c)" "length (r :: bytes) = 32"
  then show "pl_root_status (web3_plan_registry cfg nd env) c (hex32 r) = Ret (Some (status_text (rr_status (ct_roots (ct c) r))))"
    using assms(1) by (simp add: web3_plan_registry_def web3_get_root_status_def runs_contract_def decode_status_id)
next
  fix c r assume ok: "contract_ok (ct c)" "length (r :: bytes) = 32"
  let ?rec = "ct_roots (ct c) r"
  have "?rec = zero_root \<or> rr_state_root ?rec = r"
    using ok(1) by (auto simp: contract_ok_def records_complete_def root_complete_def)
  then have l: "length (rr_state_root ?rec) = 32" using ok(2) by (auto simp: ZERO32_def)
  obtain z where z: "py_int16 (hex32 (rr_state_root ?rec)) = Ret z" using int16_hex32(2)[OF l] by blast
  have "cv_status (CJson (JInt (status_id (rr_status ?rec)))) = Ret (status_text (rr_status ?rec))" by (simp add: decode_status_id)
  then show "pl_root_record (web3_plan_registry cfg nd env) c (hex32 r) = Ret (if rr_state_root ?rec = ZERO32 then None else Some (root_row ?rec))"
    using assms(2) ok(2) l z int16_hex32(1)[OF l]
    by (auto simp: web3_plan_registry_def web3_get_root_record_def reads_roots_def root_tuple_def tuple_item_def root_row_def)
qed

text \<open>A node that holds the contract and executes one transaction at a time; \<open>msgs\<close> gives sender and time of the transaction.\<close>

definition contract_node_step :: "(string \<Rightarrow> bytes) \<Rightarrow> (contract \<Rightarrow> msg) \<Rightarrow> contract_fn \<Rightarrow> contract \<times> bool \<Rightarrow> contract \<times> bool" where
  "contract_node_step keccak msgs f s = (case abi_call f of None \<Rightarrow> (fst s, False)
     | Some call \<Rightarrow> (case execute keccak (msgs (fst s)) call (fst s) of Inl _ \<Rightarrow> (fst s, False) | Inr c' \<Rightarrow> (c', True)))"

definition contract_node :: "(string \<Rightarrow> bytes) \<Rightarrow> (contract \<Rightarrow> msg) \<Rightarrow> int \<Rightarrow> (contract \<times> bool) web3_node" where
  "contract_node keccak msgs chain_id = \<lparr>n_chain_id = chain_id, n_is_address = (\<lambda>_. True), n_code = (\<lambda>_. [1]), n_keccak_hex = (\<lambda>_. ''ab''), n_checksum = Ret,
     n_nonce = (\<lambda>s a pending. Ret (int (length (ct_events (fst s))))),
     n_send = (\<lambda>tx s. (Ret [], contract_node_step keccak msgs (tx_function tx) s)), n_transact = (\<lambda>a f s. (Ret [], contract_node_step keccak msgs f s)),
     n_wait = (\<lambda>h flag s. Ret [(''transactionHash'', CBytes [of_nat (length (ct_events (fst s)))]), (''blockNumber'', CJson (JInt (int (length (ct_events (fst s)))))),
        (''blockHash'', CBytes []), (''status'', CJson (JInt (if snd s then 1 else 0))), (''gasUsed'', CJson (JInt 1))]),
     n_anchor = (\<lambda>s k. Ret (anchor_tuple (ct_anchors (fst s) k))),
     n_root_status = (\<lambda>s r. Ret (JInt (status_id (rr_status (ct_roots (fst s) r))))),
     n_root_record = (\<lambda>s r. Ret (root_tuple (ct_roots (fst s) r))), n_endpoint = (\<lambda>s e. Ret (CBytes (ct_endpoints (fst s) e)))\<rparr>"

lemma contract_node_runs: "runs_contract (contract_node keccak msgs chain_id) keccak fst" "reads_roots (contract_node keccak msgs chain_id) fst"
proof -
  have step: "executed keccak f a (fst (contract_node_step keccak msgs f (a, b)))" if "snd (contract_node_step keccak msgs f (a, b))" for f a b
    using that by (auto simp: contract_node_step_def executed_def split: option.splits sum.splits)
  show "runs_contract (contract_node keccak msgs chain_id) keccak fst"
    by (auto simp: runs_contract_def contract_node_def receipt_status_def simp del: split_paired_All split: if_splits intro: step)
  show "reads_roots (contract_node keccak msgs chain_id) fst" by (simp add: reads_roots_def contract_node_def)
qed

interpretation contract_plan: plan_backend "web3_plan_registry cfg (contract_node keccak msgs chain_id) env" keccak fst
  by (rule web3_plan_backend) (rule contract_node_runs)+

end
