(* ===== verification/PlanRuns.thy ===== *)
theory PlanRuns
  imports PlanPhases
begin

text \<open>
  What the commands of \<open>tools/manage_v2_registry.py\<close> achieve together: a plan that was built from a canonical plan is canonical, the
  phases bring the registry into the state that a plan describes, a phase that is run again writes nothing, and the receipt
  journal loses and repeats no transaction.
\<close>

section \<open>Built plans are canonical\<close>

lemma canonical_digest: "is_digest s \<Longrightarrow> canonical_text (JStr s)"
proof -
  assume "is_digest s"
  then obtain b where b: "length b = 32" "s = hex32 b" by (auto simp: is_digest_def bytes_to_hex_def hex32_def)
  then have "text_key (JStr s) = b" by (simp add: text_key_def)
  then show ?thesis using b by (simp add: canonical_text_def)
qed

lemma digest_sha: "is_digest (sha256_hex m)"
  using is_digest_sha[of m] by (simp add: bytes_to_hex_def sha256_hex_def)

lemma digest_lower: "is_digest s \<Longrightarrow> py_lower s = s"
proof -
  assume "is_digest s"
  then obtain b where "s = ''0x'' @ hex_of_bytes b" by (auto simp: is_digest_def bytes_to_hex_def)
  then show ?thesis using py_lower_0x[of "hex_of_bytes b"] by simp
qed

lemma merkle_level_digest: "merkle_level xs = Ret ys \<Longrightarrow> \<forall>y\<in>set ys. is_digest y"
  by (induction xs arbitrary: ys rule: merkle_level.induct) (auto simp: merkle_parent_def)

lemma merkle_reduce_digest: "merkle_reduce level = Ret r \<Longrightarrow> level \<noteq> [] \<Longrightarrow> \<forall>x\<in>set level. is_digest x \<Longrightarrow> is_digest r"
proof (induction level rule: merkle_reduce.induct)
  case (1 level)
  show ?case
  proof (cases "1 < length level")
    case True
    then obtain ys where ys: "merkle_level level = Ret ys" "merkle_reduce ys = Ret r"
      using "1.prems"(1) by (auto simp: merkle_reduce.simps[of level])
    have "ys \<noteq> []" using length_merkle_level[OF ys(1)] True by auto
    then show ?thesis using "1.IH"[OF True ys(1) ys(2)] merkle_level_digest[OF ys(1)] by simp
  next
    case False
    then show ?thesis using "1.prems" by (cases level) (simp_all add: merkle_reduce.simps)
  qed
qed

lemma merkle_root_digest: "merkle_root leaves = Ret r \<Longrightarrow> \<forall>x\<in>set leaves. is_digest x \<Longrightarrow> is_digest r"
  using merkle_reduce_digest[of "map py_lower leaves" r] digest_lower by (auto simp: merkle_root_def digest_sha split: if_splits)

lemma endpoint_key_digest: "endpoint_key_of v = Ret k \<Longrightarrow> is_digest k"
proof -
  assume "endpoint_key_of v = Ret k"
  then obtain ep where "endpoint_lookup_key ep = Ret k" by (auto simp: endpoint_key_of_def)
  then obtain n where "k = sha256_hex_str (binding_text n)" unfolding endpoint_lookup_key_def bind_res_eq_Inr by (auto split: if_splits)
  then show ?thesis using digest_sha by simp
qed

lemma plan_entry_canonical:
  assumes "plan_entry i = Ret e"
  shows "canonical_text (member (JObj e) ''resolver_id_key'') \<and> list_all canonical_text (members (JObj e) ''endpoint_keys'') \<and>
    canonical_text (member (JObj e) ''object_hash'') \<and> (\<exists>l. jitem e ''leaf_hash'' = Ret (JStr l) \<and> is_digest l)"
proof -
  obtain sid version status valid_until vs ks where i: "map_res endpoint_key_of vs = Ret ks"
    "e = [(''server_id'', JStr sid), (''resolver_id_key'', JStr (resolver_id_key sid)), (''object_hash'', JStr (object_hash i)),
          (''object_version'', JInt version), (''valid_until'', JInt valid_until), (''status'', JStr status),
          (''endpoint_keys'', JArr (map JStr ks)), (''leaf_hash'', JStr (merkle_leaf (resolver_id_key sid) (object_hash i) version status))]"
    using assms unfolding plan_entry_def Let_def bind_res_eq_Inr sum.inject by (elim exE conjE) (rule that, assumption, erule sym)
  have "\<forall>k\<in>set ks. is_digest k"
    using list_all2_partners[OF iffD1[OF map_res_Inr i(1)]] endpoint_key_digest by blast
  then show ?thesis using canonical_digest digest_sha
    by (simp add: i(2) member_def members_def jitem_def resolver_id_key_def object_hash_def merkle_leaf_def list_all_iff)
qed

lemma plan_leaves_digest:
  assumes "map_res plan_entry ordered = Ret entries" and "map_res (\<lambda>e. bind_res (jitem e ''leaf_hash'') as_str) entries = Ret leaves"
  shows "\<forall>l\<in>set leaves. is_digest l"
proof
  fix l assume "l \<in> set leaves"
  then obtain e where e: "e \<in> set entries" "bind_res (jitem e ''leaf_hash'') as_str = Ret l"
    using list_all2_partners[OF iffD1[OF map_res_Inr assms(2)]] by blast
  obtain i where "plan_entry i = Ret e" using list_all2_partners[OF iffD1[OF map_res_Inr assms(1)]] e(1) by blast
  then obtain l' where "jitem e ''leaf_hash'' = Ret (JStr l')" "is_digest l'" using plan_entry_canonical by blast
  then show "is_digest l" using e(2) by simp
qed

lemma item_texts_members: "item_texts e k = Ret ts \<Longrightarrow> members e k = map JStr ts"
proof -
  assume "item_texts e k = Ret ts"
  then obtain xs where xs: "bind_res (json_item e k) as_list = Ret xs" "map_res as_str xs = Ret ts"
    unfolding item_texts_def bind_res_eq_Inr[of "bind_res _ _"] by blast
  have "xs = map JStr ts" using xs(2) by (induction xs arbitrary: ts) auto
  then show ?thesis using members_Ret[OF xs(1)] by simp
qed

lemma by_server_id_entries: "by_server_id es = Ret d \<Longrightarrow> (s, e) \<in> set d \<Longrightarrow> e \<in> set es"
proof -
  have upd: "(a, b) \<in> set (dict_update d kes) \<Longrightarrow> (a, b) \<in> set d \<or> (a, b) \<in> set kes" for a :: string and b :: json and d kes
  proof (induction d kes rule: dict_update.induct)
    case (2 d k v kes)
    have "(a, b) \<in> set (dict_set d k v) \<Longrightarrow> (a, b) \<in> set d \<or> (a, b) = (k, v)"
      by (induction d k v rule: dict_set.induct) (auto split: if_splits)
    then show ?case using 2 by auto
  qed simp
  assume "by_server_id es = Ret d" "(s, e) \<in> set d"
  then obtain kes where k: "map_res (\<lambda>e. bind_res (item_text e ''server_id'') (\<lambda>s. Ret (s, e))) es = Ret kes" "(s, e) \<in> set kes"
    using upd[of s e "[]"] by (auto simp: by_server_id_def)
  then show ?thesis using list_all2_partners[OF iffD1[OF map_res_Inr k(1)]] by force
qed

lemma removals_of_member:
  assumes "removals_of current (s, e) = Ret (us, vs)"
  shows "(\<forall>u\<in>set us. \<exists>x k had. json_item e ''resolver_id_key'' = Ret x \<and> item_texts e ''endpoint_keys'' = Ret had \<and> k \<in> set had \<and> u = unbind_item s x k) \<and>
    (\<forall>v\<in>set vs. \<exists>x. json_item e ''resolver_id_key'' = Ret x \<and> v = revocation_item s x)"
  using assms by (auto simp: removals_of_def Let_def split: if_splits)

text \<open>Plans stay canonical: a plan that is built from nothing or from a canonical plan writes every resolver key, every endpoint
  key and the root as 32 bytes in lower case hexadecimal, in its entries and in what it takes away.\<close>

theorem built_plan_canonical:
  assumes "build_plan ids rv cid addr code prev = Ret plan" and "prev = None \<or> plan_canonical (the prev)"
  shows "plan_canonical plan"
proof -
  obtain target ordered entries leaves previous current removals previous_hash state_root where b:
    "map_res plan_entry ordered = Ret entries" "map_res (\<lambda>e. bind_res (jitem e ''leaf_hash'') as_str) entries = Ret leaves"
    "merkle_root leaves = Ret state_root" "previous_entries_of prev = Ret previous"
    "map_res (removals_of current) (sort_key fst previous) = Ret removals"
    "with_plan_hash (plan_body target previous_hash rv state_root entries removals) = plan"
    by (rule build_plan_Ret[OF assms(1)]) (rule that; assumption)
  have fields: "members (JObj plan) ''entries'' = map JObj entries" "members (JObj plan) ''endpoint_unbinds'' = concat (map fst removals)"
    "members (JObj plan) ''resolver_revocations'' = concat (map snd removals)" "member (JObj plan) ''state_root'' = JStr state_root"
    unfolding b(6)[symmetric] by (simp_all add: members_def member_def with_plan_hash_def plan_body_def jitem_def)
  have entries: "\<exists>i. plan_entry i = Ret e" if "e \<in> set entries" for e
    using list_all2_partners[OF iffD1[OF map_res_Inr b(1)]] that by blast
  have "\<forall>l\<in>set leaves. is_digest l" by (rule plan_leaves_digest[OF b(1,2)])
  then have root: "canonical_text (JStr state_root)" using merkle_root_digest[OF b(3)] canonical_digest by blast
  have removed: "(\<forall>u\<in>set us. canonical_text (member u ''endpoint_key'')) \<and> (\<forall>v\<in>set vs. canonical_text (member v ''resolver_id_key''))"
    if r: "(us, vs) \<in> set removals" for us vs
  proof -
    obtain s e where se: "(s, e) \<in> set previous" "removals_of current (s, e) = Ret (us, vs)"
      using list_all2_partners[OF iffD1[OF map_res_Inr b(5)]] r unfolding sorted_dict_set by (metis surj_pair)
    then obtain p es where p: "prev = Some p" "as_list (jget p ''entries'' (JArr [])) = Ret es" "by_server_id es = Ret previous"
      using b(4) by (auto simp: previous_entries_of_def split: option.splits)
    have "e \<in> set es" by (rule by_server_id_entries[OF p(3) se(1)])
    moreover have "members (JObj p) ''entries'' = es"
      using p(2) by (auto simp: members_def jitem_def jget_def split: option.splits)
    ultimately have e: "canonical_text (member e ''resolver_id_key'')" "list_all canonical_text (members e ''endpoint_keys'')"
      using assms(2) p(1) by (auto simp: plan_canonical_def)
    have "member (unbind_item s x k) ''endpoint_key'' = JStr k" "member (revocation_item s x) ''resolver_id_key'' = x" for x k
      by (simp_all add: member_def unbind_item_def revocation_item_def jitem_def)
    moreover have "canonical_text (JStr k)" if "item_texts e ''endpoint_keys'' = Ret had" "k \<in> set had" for had k
      using e(2) item_texts_members[OF that(1)] that(2) by (auto simp: list_all_iff)
    moreover have "canonical_text x" if "json_item e ''resolver_id_key'' = Ret x" for x using e(1) that by (simp add: member_def)
    ultimately show ?thesis using removals_of_member[OF se(2)] by metis
  qed
  have "canonical_text (member (JObj e) ''resolver_id_key'') \<and> list_all canonical_text (members (JObj e) ''endpoint_keys'')" if "e \<in> set entries" for e
    using entries[OF that] plan_entry_canonical by blast
  then show ?thesis using root removed unfolding plan_canonical_def fields by fastforce
qed

section \<open>Applying a plan\<close>

lemma web3_view_plan:
  "rv_binding (web3_view nd c) = pl_binding (web3_plan_registry cfg nd env) c" "rv_anchor (web3_view nd c) = pl_anchor (web3_plan_registry cfg nd env) c"
  "rv_root (web3_view nd c) = pl_root_status (web3_plan_registry cfg nd env) c"
  by (simp_all add: web3_view_def web3_plan_registry_def)

lemma canonical_item: "canonical_text (member v k) \<Longrightarrow> json_item v k = Ret (JStr (hex32 (text_key (member v k)))) \<and> length (text_key (member v k)) = 32"
  using canonical_member unfolding canonical_text_def by metis

lemma applied_entry_authorized:
  assumes "plan_backend (web3_plan_registry cfg nd env) keccak ct" and ok: "contract_ok (ct c)" and can: "plan_canonical plan"
    and e: "e \<in> set (members (JObj plan) ''entries'')" and x: "x \<in> set (members e ''endpoint_keys'')"
    and E: "entry_anchored plan (ct_anchors (ct c)) e" "item_int e ''object_version'' = Ret (uint (ra_object_version (ct_anchors (ct c) (entry_key e))))"
      "ct_endpoints (ct c) (text_key x) = entry_key e" "entry_key e \<noteq> ZERO32" "rr_status (ct_roots (ct c) (text_key (member (JObj plan) ''state_root''))) = ACTIVE"
  shows "\<exists>ek k h v r. x = JStr ek \<and> json_item e ''resolver_id_key'' = Ret (JStr k) \<and> json_item e ''object_hash'' = Ret (JStr h) \<and>
      item_int e ''object_version'' = Ret v \<and> jitem plan ''state_root'' = Ret (JStr r) \<and> authorizes (web3_view nd c) ek k h v r"
proof -
  let ?k = "entry_key e" and ?a = "ct_anchors (ct c) (entry_key e)" and ?r = "text_key (member (JObj plan) ''state_root'')"
  have k: "json_item e ''resolver_id_key'' = Ret (JStr (hex32 ?k))" "length ?k = 32"
    using canonical_item[of e "''resolver_id_key''"] can e by (simp_all add: entry_key_def plan_canonical_def)
  have xs: "x = JStr (hex32 (text_key x))" "length (text_key x) = 32" using can e x unfolding plan_canonical_def list_all_iff canonical_text_def by blast+
  have r: "jitem plan ''state_root'' = Ret (JStr (hex32 ?r))" "length ?r = 32" using canonical_item[of "JObj plan" "''state_root''"] can by (simp_all add: plan_canonical_def)
  have row: "an_object_version (anchor_row ?a) = uint (ra_object_version ?a)" by (simp add: anchor_row_def)
  note laws = plan_backend.anchor_law[OF assms(1) ok k(2)] plan_backend.binding_law[OF assms(1) ok xs(2)] plan_backend.status_law[OF assms(1) ok r(2)]
  have "authorizes (web3_view nd c) (hex32 (text_key x)) (hex32 ?k) (an_object_hash (anchor_row ?a)) (uint (ra_object_version ?a)) (hex32 ?r)"
    unfolding authorizes_def web3_view_plan[where cfg = cfg and env = env] using laws E r(1) row by (simp add: entry_anchored_def)
  then show ?thesis using xs(1) k(1) E(1,2) r(1) unfolding entry_anchored_def by blast
qed

lemma applied_unbind_free:
  assumes "plan_backend (web3_plan_registry cfg nd env) keccak ct" and "contract_ok (ct c)" and "canonical_text (member d ''endpoint_key'')"
    and "json_item d ''endpoint_key'' = Ret (JStr ek)" and "ct_endpoints (ct c) (text_key (member d ''endpoint_key'')) = ZERO32"
  shows "rv_binding (web3_view nd c) ek = Ret None"
proof -
  have ek: "ek = hex32 (text_key (member d ''endpoint_key''))" "length (text_key (member d ''endpoint_key'')) = 32" using canonical_item[OF assms(3)] assms(4) by simp_all
  show ?thesis unfolding web3_view_plan[where cfg = cfg and env = env] ek(1) using plan_backend.binding_law[OF assms(1,2) ek(2)] assms(5) by simp
qed

lemma applied_revocation_refuses:
  assumes "plan_backend (web3_plan_registry cfg nd env) keccak ct" and "contract_ok (ct c)" and "canonical_text (member d ''resolver_id_key'')"
    and "json_item d ''resolver_id_key'' = Ret (JStr k)" and "ra_status (ct_anchors (ct c) (entry_key d)) = REVOKED"
  shows "\<not> authorizes (web3_view nd c) ek k h v r"
proof -
  have k: "k = hex32 (entry_key d)" "length (entry_key d) = 32" using canonical_item[OF assms(3)] assms(4) by (simp_all add: entry_key_def)
  show ?thesis unfolding authorizes_def web3_view_plan[where cfg = cfg and env = env] k(1) using plan_backend.anchor_law[OF assms(1,2) k(2)] assms(5)
    by (auto simp: anchor_row_def split: if_splits)
qed

text \<open>C8. Applying a plan brings the registry into the state that the plan describes: when the five phases return, run in their order
  over a deployed contract that nobody else changes meanwhile, then the registry authorizes every endpoint of every entry for the
  resolver, the object hash and the version of the entry under the root of the plan; an endpoint that the plan unbinds and no entry
  lists is bound to nobody; and a resolver that the plan revokes is authorized for nothing.\<close>

theorem applied_plan_authorizes:
  assumes "runs_contract nd keccak ct" and "reads_roots nd ct" and "contract_ok (ct (pu_chain s))"
    and "plan_canonical plan" and "plan_keys_apart plan"
    and "run_phases (web3_plan_registry cfg nd env) plan ALL_PHASES s = (Ret u, s')"
  shows "(\<forall>e\<in>set (members (JObj plan) ''entries''). \<forall>x\<in>set (members e ''endpoint_keys''). \<exists>ek k h v r.
       x = JStr ek \<and> json_item e ''resolver_id_key'' = Ret (JStr k) \<and> json_item e ''object_hash'' = Ret (JStr h) \<and>
       item_int e ''object_version'' = Ret v \<and> jitem plan ''state_root'' = Ret (JStr r) \<and> authorizes (web3_view nd (pu_chain s')) ek k h v r) \<and>
    (\<forall>d\<in>set (members (JObj plan) ''endpoint_unbinds''). \<forall>ek. json_item d ''endpoint_key'' = Ret (JStr ek) \<and>
       (\<forall>e\<in>set (members (JObj plan) ''entries''). JStr ek \<notin> set (members e ''endpoint_keys'')) \<longrightarrow> rv_binding (web3_view nd (pu_chain s')) ek = Ret None) \<and>
    (\<forall>d\<in>set (members (JObj plan) ''resolver_revocations''). \<forall>k ek h v r. json_item d ''resolver_id_key'' = Ret (JStr k) \<longrightarrow>
       \<not> authorizes (web3_view nd (pu_chain s')) ek k h v r)"
proof -
  let ?c = "pu_chain s'" and ?es = "members (JObj plan) ''entries''"
  note b = web3_plan_backend[OF assms(1,2), where cfg = cfg and env = env]
  note post = plan_backend.applied_plan[OF b assms(6,3,4,5)]
  have ok: "contract_ok (ct ?c)" using post by blast
  have "rv_binding (web3_view nd ?c) ek = Ret None"
    if d: "d \<in> set (members (JObj plan) ''endpoint_unbinds'')" "json_item d ''endpoint_key'' = Ret (JStr ek)"
      "\<forall>e\<in>set ?es. JStr ek \<notin> set (members e ''endpoint_keys'')" for d ek
  proof (rule applied_unbind_free[OF b ok _ d(2)])
    show can: "canonical_text (member d ''endpoint_key'')" using assms(4) d(1) by (simp add: plan_canonical_def)
    have "text_key (member d ''endpoint_key'') \<noteq> text_key y" if "e \<in> set ?es" "y \<in> set (members e ''endpoint_keys'')" for e y
    proof -
      have "canonical_text y" using assms(4) that unfolding plan_canonical_def list_all_iff by blast
      then show ?thesis using canonical_item[OF can] d(2,3) that unfolding canonical_text_def by auto
    qed
    then show "ct_endpoints (ct ?c) (text_key (member d ''endpoint_key'')) = ZERO32" using post d(1) by blast
  qed
  moreover have "\<not> authorizes (web3_view nd ?c) ek k h v r"
    if d: "d \<in> set (members (JObj plan) ''resolver_revocations'')" "json_item d ''resolver_id_key'' = Ret (JStr k)" for d k ek h v r
    using applied_revocation_refuses[OF b ok _ d(2)] assms(4) post d(1) unfolding plan_canonical_def by blast
  ultimately show ?thesis using applied_entry_authorized[OF b ok assms(4)] post by blast
qed

section \<open>Running a phase again\<close>

text \<open>An entry that a second run leaves alone.\<close>

definition entry_on_chain :: "jdict \<Rightarrow> (bytes \<Rightarrow> chain_anchor) \<Rightarrow> json \<Rightarrow> bool" where
  "entry_on_chain plan anchors e \<longleftrightarrow> ra_object_version (anchors (entry_key e)) \<noteq> 0 \<and>
     (let a = anchor_row (anchors (entry_key e)) in
      entry_arguments plan e = Ret (JStr (an_object_hash a), JStr (an_state_root a), an_object_version a, an_valid_until a, JStr (an_status a)))"

text \<open>The hashes of the entries are canonical and their status is the text \<open>ACTIVE\<close>, as for every identity that may be published.\<close>

definition entries_canonical :: "jdict \<Rightarrow> bool" where
  "entries_canonical plan \<longleftrightarrow> (\<forall>e\<in>set (members (JObj plan) ''entries'').
     canonical_text (member e ''object_hash'') \<and> member e ''status'' = JStr ''ACTIVE'')"

lemma anchored_row:
  assumes "executed keccak f c c'" and "f = FnPublishResolver k h r v u st \<or> f = FnUpdateResolver k h r v u st"
  shows "anchor_row (ct_anchors c' k) = \<lparr>an_resolver_id_key = hex32 k, an_object_hash = hex32 h, an_state_root = hex32 r,
      an_object_version = v, an_valid_until = u, an_status = status_by_id st\<rparr> \<and> ra_object_version (ct_anchors c' k) \<noteq> 0"
proof -
  obtain a m where a: "abi_anchor k h r v u st = Some a" "execute keccak m (PublishResolver a) c = Ret c' \<or> execute keccak m (UpdateResolver a) c = Ret c'"
    using assms by (auto simp: executed_def) blast+
  have "ra_resolver_id_key a = k" "anchor_row a = \<lparr>an_resolver_id_key = hex32 k, an_object_hash = hex32 h, an_state_root = hex32 r,
      an_object_version = v, an_valid_until = u, an_status = status_by_id st\<rparr>"
    using a(1) by (auto simp: abi_anchor_def anchor_row_def uint64_word status_by_id_text split: if_splits)
  moreover have "ct_anchors c' = (ct_anchors c)(ra_resolver_id_key a := a) \<and> 0 < ra_object_version a"
    using a(2) by (auto simp: publishResolver_def updateResolver_def)
  ultimately show ?thesis by (simp add: word_gt_0)
qed

context plan_backend
begin

lemma publish_entry_leaves:
  assumes "publish_entry pr plan e s = (Ret rs, s')" and "contract_ok (ct (pu_chain s))" and "canonical_text (member e ''resolver_id_key'')"
    and "canonical_text (member e ''object_hash'')" and "canonical_text (member (JObj plan) ''state_root'')" and "member e ''status'' = JStr ''ACTIVE''"
  shows "entry_on_chain plan (ct_anchors (ct (pu_chain s'))) e"
proof -
  let ?k = "entry_key e" and ?h = "text_key (member e ''object_hash'')" and ?r = "text_key (member (JObj plan) ''state_root'')"
  have k: "item_text e ''resolver_id_key'' = Ret (hex32 ?k)" "length ?k = 32"
    using canonical_member[OF assms(3)] assms(3) by (simp_all add: entry_key_def canonical_text_def)
  have h: "json_item e ''object_hash'' = Ret (JStr (hex32 ?h))" "length ?h = 32" and r: "jitem plan ''state_root'' = Ret (JStr (hex32 ?r))" "length ?r = 32"
    using canonical_member[OF assms(4)] canonical_member[OF assms(5)] assms(4,5) unfolding canonical_text_def by auto
  have st: "json_item e ''status'' = Ret (JStr ''ACTIVE'')" using assms(6) by (auto simp: member_def split: sum.splits)
  obtain v u where vu: "item_int e ''object_version'' = Ret v" "item_int e ''valid_until'' = Ret u"
    using assms(1) by (auto simp: publish_entry_def bindS_Inr entry_arguments_def)
  have args: "entry_arguments plan e = Ret (JStr (hex32 ?h), JStr (hex32 ?r), v, u, JStr ''ACTIVE'')" using h r st vu by (simp add: entry_arguments_def)
  have cur: "pl_anchor pr (pu_chain s) (hex32 ?k) =
      Ret (if ra_object_version (ct_anchors (ct (pu_chain s)) ?k) = 0 then None else Some (anchor_row (ct_anchors (ct (pu_chain s)) ?k)))"
    by (rule anchor_law[OF assms(2) k(2)])
  have enc: "encode_status (JStr ''ACTIVE'') = Ret 1" "status_by_id 1 = ''ACTIVE''" by code_simp+
  have wr: ?thesis if w: "write_and_record pr op' role operation t s = (Ret rs, s')"
      "op' = OpPublishResolver (hex32 ?k) (hex32 ?h) (hex32 ?r) v u (JStr ''ACTIVE'') \<or> op' = OpUpdateResolver (hex32 ?k) (hex32 ?h) (hex32 ?r) v u (JStr ''ACTIVE'')"
    for op' role operation t
  proof -
    from write_run[OF w(1) assms(2)] obtain f where f: "registry_fn op' = Ret f" "executed keccak f (ct (pu_chain s)) (ct (pu_chain s'))" by blast
    then have "f = FnPublishResolver ?k ?h ?r v u 1 \<or> f = FnUpdateResolver ?k ?h ?r v u 1"
      using w(2) k(2) h(2) r(2) enc(1) by (auto simp: anchor_args_def)
    then show ?thesis using anchored_row[OF f(2)] args enc(2) by (simp add: entry_on_chain_def)
  qed
  show ?thesis
  proof (cases "ra_object_version (ct_anchors (ct (pu_chain s)) ?k) = 0")
    case True
    then show ?thesis using assms(1) k cur wr args unfolding publish_entry_def by (auto simp: bindS_Inr chain_read_def Let_def)
  next
    case False
    let ?a = "anchor_row (ct_anchors (ct (pu_chain s)) ?k)"
    from False cur have cur: "pl_anchor pr (pu_chain s) (hex32 ?k) = Ret (Some ?a)" by simp
    show ?thesis
    proof (cases "an_object_version ?a < v")
      case True
      then show ?thesis using assms(1) k cur wr args unfolding publish_entry_def by (auto simp: bindS_Inr chain_read_def Let_def)
    next
      case stay: False
      then have "s' = s" "an_object_version ?a = v" "an_object_hash ?a = hex32 ?h" "an_state_root ?a = hex32 ?r" "an_valid_until ?a = u" "an_status ?a = ''ACTIVE''"
        using assms(1) k cur args unfolding publish_entry_def by (auto simp: bindS_Inr chain_read_def Let_def split: if_splits)
      then show ?thesis using False args by (simp add: entry_on_chain_def Let_def)
    qed
  qed
qed

lemma publish_entry_idle:
  assumes "entry_on_chain plan (ct_anchors (ct (pu_chain s))) e" and "contract_ok (ct (pu_chain s))" and "canonical_text (member e ''resolver_id_key'')"
  shows "publish_entry pr plan e s = (Ret [], s)"
proof -
  let ?k = "entry_key e" let ?a = "anchor_row (ct_anchors (ct (pu_chain s)) ?k)"
  have k: "item_text e ''resolver_id_key'' = Ret (hex32 ?k)" "length ?k = 32"
    using canonical_member[OF assms(3)] assms(3) by (simp_all add: entry_key_def canonical_text_def)
  have "pl_anchor pr (pu_chain s) (hex32 ?k) = Ret (Some ?a)" using anchor_law[OF assms(2) k(2)] assms(1) by (simp add: entry_on_chain_def)
  then show ?thesis using k assms(1) by (simp add: publish_entry_def bindS_def chain_read_def Let_def entry_on_chain_def)
qed

lemma publish_resolvers_again:
  assumes "publish_resolvers pr plan s = (Ret rs, s')" and "contract_ok (ct (pu_chain s))" and "plan_canonical plan" and "plan_keys_apart plan"
    and "entries_canonical plan"
  shows "publish_resolvers pr plan s' = (Ret [], s')"
proof -
  let ?es = "members (JObj plan) ''entries''" and ?r = "text_key (member (JObj plan) ''state_root'')"
  have can: "\<forall>e\<in>set ?es. canonical_text (member e ''resolver_id_key'')" and r: "canonical_text (member (JObj plan) ''state_root'')"
    using assms(3) by (simp_all add: plan_canonical_def)
  have root: "plan_root plan = Ret (hex32 ?r)" "length ?r = 32"
    using canonical_member[OF r] r by (simp_all add: plan_root_def item_text_def canonical_text_def)
  obtain es where es: "plan_items plan ''entries'' = Ret es" "for_receipts (publish_entry pr plan) es s = (Ret rs, s')"
    using assms(1,2) root by (auto simp: publish_resolvers_def bindS_Inr chain_read_def split: if_splits)
  have e: "?es = es" by (rule plan_items_Ret[OF es(1)])
  have inj: "inj_on entry_key (set es)" using assms(4) e by (simp add: plan_keys_apart_def distinct_map)
  let ?I = "\<lambda>t. contract_ok (ct (pu_chain t))" and ?Q = "\<lambda>e t. entry_on_chain plan (ct_anchors (ct (pu_chain t))) e"
  have "?I s' \<and> (\<forall>x\<in>set es. x \<in> set es \<longrightarrow> ?Q x s') \<and> (\<forall>y\<in>set es. ?Q y s \<longrightarrow> ?Q y s')"
  proof (rule for_receipts_inv[OF es(2)])
    fix x t rs t' assume x: "x \<in> set es" "?I t" "publish_entry pr plan x t = (Ret rs, t')"
    have cx: "canonical_text (member x ''resolver_id_key'')" using can e x(1) by simp
    note run = publish_entry_run[OF x(3,2) cx]
    have Q: "?Q x t'" by (rule publish_entry_leaves[OF x(3,2) cx _ r]) (use assms(5) e x(1) in \<open>auto simp: entries_canonical_def\<close>)
    have "?Q y t'" if "y \<in> set es" "?Q y t" for y
    proof (cases "entry_key y = entry_key x")
      case True
      then have "y = x" using inj that(1) x(1) by (auto dest: inj_onD)
      then show ?thesis using Q by simp
    next
      case False
      then show ?thesis using run that(2) by (simp add: entry_on_chain_def)
    qed
    then show "?I t' \<and> ?Q x t' \<and> (\<forall>y\<in>set es. ?Q y t \<longrightarrow> ?Q y t')" using run Q by blast
  qed (use assms(2) in simp)
  then have "for_receipts (publish_entry pr plan) es s' = (Ret [], s')"
    using publish_entry_idle can e by (intro for_receipts_nothing) auto
  moreover have "pl_root_status pr (pu_chain s') (hex32 ?r) = Ret (Some ''ACTIVE'')"
    using publish_resolvers_run[OF assms(1-4)] status_law[of "pu_chain s'" ?r] root(2) by auto
  ultimately show ?thesis using root es(1) by (simp add: publish_resolvers_def bindS_def chain_read_def)
qed

lemma publish_root_again:
  assumes "publish_root pr plan s = (Ret rs, s')" and "contract_ok (ct (pu_chain s))" and "plan_canonical plan"
  shows "publish_root pr plan s' = (Ret [], s')"
proof -
  let ?r = "text_key (member (JObj plan) ''state_root'')" let ?rec = "ct_roots (ct (pu_chain s')) ?r"
  have r: "canonical_text (member (JObj plan) ''state_root'')" using assms(3) by (simp add: plan_canonical_def)
  have root: "plan_root plan = Ret (hex32 ?r)" "length ?r = 32"
    using canonical_member[OF r] r by (simp_all add: plan_root_def item_text_def canonical_text_def)
  note run = publish_root_run[OF assms, unfolded Let_def]
  have ok: "contract_ok (ct (pu_chain s'))" "rr_status ?rec = ACTIVE" "plan_root_version plan = Ret (uint (rr_version ?rec))" using run by blast+
  have "rr_state_root ?rec \<noteq> ZERO32" using ok(1,2) by (auto simp: contract_ok_def records_complete_def root_complete_def dest!: spec[of _ ?r])
  then have "pl_root_record pr (pu_chain s') (hex32 ?r) = Ret (Some (root_row ?rec))" using record_law[OF ok(1) root(2)] by simp
  then show ?thesis using root ok by (simp add: publish_root_def bindS_def chain_read_def Let_def root_row_def)
qed

lemma unbind_endpoints_again:
  assumes "unbind_endpoints pr plan s = (Ret rs, s')" and "contract_ok (ct (pu_chain s))" and "plan_canonical plan"
  shows "unbind_endpoints pr plan s' = (Ret [], s')"
proof -
  obtain us where us: "plan_items plan ''endpoint_unbinds'' = Ret us" using assms(1) by (auto simp: unbind_endpoints_def bindS_Inr)
  note run = unbind_endpoints_run[OF assms, unfolded plan_items_Ret[OF us]]
  have "unbind_one pr u s' = (Ret [], s')" if "u \<in> set us" for u
  proof -
    have "canonical_text (member u ''endpoint_key'')" using assms(3) that plan_items_Ret[OF us] by (simp add: plan_canonical_def)
    then show ?thesis using canonical_member binding_law[OF conjunct1[OF run]] run that
      by (simp add: unbind_one_def bindS_def chain_read_def canonical_text_def)
  qed
  then show ?thesis using us for_receipts_nothing[of us "unbind_one pr" s'] by (simp add: unbind_endpoints_def)
qed

lemma bind_endpoints_again:
  assumes "bind_endpoints pr plan s = (Ret rs, s')" and "contract_ok (ct (pu_chain s))" and "plan_canonical plan"
  shows "bind_endpoints pr plan s' = (Ret [], s')"
proof -
  obtain es where es: "plan_items plan ''entries'' = Ret es" "for_receipts (bind_entry pr plan) es s = (Ret rs, s')"
    using assms(1) by (auto simp: bind_endpoints_def bindS_Inr)
  note e = plan_items_Ret[OF es(1)]
  note run = bind_endpoints_run[OF assms, unfolded e]
  have "bind_entry pr plan x s' = (Ret [], s')" if x: "x \<in> set es" for x
  proof -
    have c: "canonical_text (member x ''resolver_id_key'')" "list_all canonical_text (members x ''endpoint_keys'')"
      using assms(3) x e by (auto simp: plan_canonical_def)
    have k: "item_text x ''resolver_id_key'' = Ret (hex32 (entry_key x))" "length (entry_key x) = 32"
      using canonical_member[OF c(1)] c(1) by (simp_all add: entry_key_def canonical_text_def)
    have a: "entry_anchored plan (ct_anchors (ct (pu_chain s'))) x" using run x by simp
    have "bind_one pr (hex32 (entry_key x)) y s' = (Ret [], s')" if y: "y \<in> set (members x ''endpoint_keys'')" for y
    proof -
      have cy: "as_str y = Ret (hex32 (text_key y))" "length (text_key y) = 32"
        using c(2) y unfolding list_all_iff canonical_text_def by (metis as_str_Inr, blast)
      have "pl_binding pr (pu_chain s') (hex32 (text_key y)) = Ret (Some (hex32 (entry_key x)))"
        using binding_law[OF conjunct1[OF run] cy(2)] run x y by simp
      then show ?thesis by (simp add: bind_one_def bindS_def chain_read_def cy(1))
    qed
    then have "for_receipts (bind_one pr (hex32 (entry_key x))) (members x ''endpoint_keys'') s' = (Ret [], s')" by (rule for_receipts_nothing)
    then show ?thesis using k a anchor_law[OF conjunct1[OF run] k(2)]
      by (simp add: bind_entry_def bindS_def chain_read_def Let_def entry_anchored_def del: bind_res_eq_Inr)
  qed
  then show ?thesis using es(1) for_receipts_nothing[of es "bind_entry pr plan" s'] by (simp add: bind_endpoints_def)
qed

lemma revoke_removed_again:
  assumes "revoke_removed_resolvers pr plan s = (Ret rs, s')" and "contract_ok (ct (pu_chain s))" and "plan_canonical plan"
  shows "revoke_removed_resolvers pr plan s' = (Ret [], s')"
proof -
  obtain us where us: "plan_items plan ''resolver_revocations'' = Ret us" using assms(1) by (auto simp: revoke_removed_resolvers_def bindS_Inr)
  note run = revoke_removed_run[OF assms, unfolded plan_items_Ret[OF us]]
  have "revoke_one pr u s' = (Ret [], s')" if u: "u \<in> set us" for u
  proof -
    let ?a = "ct_anchors (ct (pu_chain s')) (entry_key u)"
    have c: "canonical_text (member u ''resolver_id_key'')" using assms(3) u plan_items_Ret[OF us] by (simp add: plan_canonical_def)
    have k: "item_text u ''resolver_id_key'' = Ret (hex32 (entry_key u))" "length (entry_key u) = 32"
      using canonical_member[OF c] c by (simp_all add: entry_key_def canonical_text_def)
    have st: "ra_status ?a = REVOKED" using run u by blast
    have "ra_object_version ?a \<noteq> 0"
      using run st by (auto simp: contract_ok_def records_complete_def anchor_complete_def dest!: spec[of _ "entry_key u"])
    then show ?thesis using k st anchor_law[OF conjunct1[OF run] k(2)]
      by (simp add: revoke_one_def bindS_def chain_read_def anchor_row_def)
  qed
  then show ?thesis using us for_receipts_nothing[of us "revoke_one pr" s'] by (simp add: revoke_removed_resolvers_def)
qed

lemma phase_again:
  assumes "run_phase pr plan phase s = (Ret rs, s')" and "contract_ok (ct (pu_chain s))" and "plan_canonical plan" and "plan_keys_apart plan"
    and "entries_canonical plan"
  shows "run_phase pr plan phase s' = (Ret [], s')"
  using assms by (cases phase)
    (simp_all add: publish_root_again publish_resolvers_again unbind_endpoints_again bind_endpoints_again revoke_removed_again)

end

text \<open>C22. A phase may be run again: when a phase of a canonical plan has returned, running it once more sends no transaction, returns no
  receipt and changes neither the chain nor the journal.\<close>

theorem phase_again_writes_nothing:
  assumes "runs_contract nd keccak ct" and "reads_roots nd ct" and "contract_ok (ct (pu_chain s))"
    and "plan_canonical plan" and "plan_keys_apart plan" and "entries_canonical plan"
    and "run_phase (web3_plan_registry cfg nd env) plan phase s = (Ret rs, s')"
  shows "run_phase (web3_plan_registry cfg nd env) plan phase s' = (Ret [], s')"
  by (rule plan_backend.phase_again[OF web3_plan_backend[OF assms(1,2)] assms(7,3-6)])

text \<open>The command \<open>revoke-resolver\<close> leaves the resolver of that server id revoked on the chain.\<close>

lemma revoke_resolver_command_revokes:
  assumes "runs_contract nd keccak ct" and "reads_roots nd ct" and "contract_ok (ct (pu_chain s))" and "resolver_id_key server_id = hex32 k" and "length k = 32"
    and "revoke_resolver_command (Ret (cfg, h)) (\<lambda>_. web3_plan_registry cfg nd env) server_id output s = (Ret u, s')"
  shows "ra_status (ct_anchors (ct (pu_chain s')) k) = REVOKED"
proof -
  note b = web3_plan_backend[OF assms(1,2), where cfg = cfg and env = env]
  from plan_backend.revoke_command_run[OF b assms(6)[unfolded revoke_resolver_command_def] assms(3)]
  have "executed keccak (FnRevokeResolver k) (ct (pu_chain s)) (ct (pu_chain s'))" using assms(4,5) by auto
  then show ?thesis using revoked_facts by simp
qed

section \<open>The receipt journal\<close>

definition hashes_distinct :: "receipt_journal \<Rightarrow> bool" where
  "hashes_distinct j \<longleftrightarrow> distinct (map transaction_of (rj_transactions j))"

text \<open>The journal only grows, by transactions that it does not hold, and what it holds is on disk when it has grown.\<close>

definition journal_grows :: "'c publication \<Rightarrow> 'c publication \<Rightarrow> bool" where
  "journal_grows s s' \<longleftrightarrow> (case pu_journal s of
     None \<Rightarrow> pu_journal s' = None
   | Some j \<Rightarrow> \<exists>more. let j' = j\<lparr>rj_transactions := rj_transactions j @ more\<rparr> in
       pu_journal s' = Some j' \<and> (hashes_distinct j \<longrightarrow> hashes_distinct j') \<and> (more = [] \<and> pu_file s' = pu_file s \<or> pu_file s' = Some (journal_document j')))"

definition in_journal :: "json \<Rightarrow> 'c publication \<Rightarrow> bool" where
  "in_journal r s \<longleftrightarrow> (case pu_journal s of None \<Rightarrow> True | Some j \<Rightarrow> \<exists>t\<in>set (rj_transactions j). transaction_of t = transaction_of r)"

definition grows :: "('c publication, 'a) op \<Rightarrow> bool" where
  "grows m \<longleftrightarrow> (\<forall>s. journal_grows s (snd (m s)))"

definition logs :: "('c publication, json list) op \<Rightarrow> bool" where
  "logs m \<longleftrightarrow> grows m \<and> (\<forall>s rs s'. m s = (Ret rs, s') \<longrightarrow> (\<forall>r\<in>set rs. in_journal r s'))"

lemma journal_grows_refl: "journal_grows s s"
  by (auto simp: journal_grows_def Let_def split: option.splits intro!: exI[of _ "[]"])

lemma journal_grows_same: "pu_journal s' = pu_journal s \<Longrightarrow> pu_file s' = pu_file s \<Longrightarrow> journal_grows s s'"
  by (auto simp: journal_grows_def Let_def split: option.splits intro!: exI[of _ "[]"])

lemma journal_grows_trans:
  assumes "journal_grows a b" and "journal_grows b c"
  shows "journal_grows a c"
proof (cases "pu_journal a")
  case None
  then show ?thesis using assms by (auto simp: journal_grows_def)
next
  case (Some j)
  then obtain m1 where m1: "pu_journal b = Some (j\<lparr>rj_transactions := rj_transactions j @ m1\<rparr>)"
    "hashes_distinct j \<longrightarrow> hashes_distinct (j\<lparr>rj_transactions := rj_transactions j @ m1\<rparr>)"
    "m1 = [] \<and> pu_file b = pu_file a \<or> pu_file b = Some (journal_document (j\<lparr>rj_transactions := rj_transactions j @ m1\<rparr>))"
    using assms(1) by (auto simp: journal_grows_def Let_def)
  then obtain m2 where m2: "pu_journal c = Some (j\<lparr>rj_transactions := rj_transactions j @ m1 @ m2\<rparr>)"
    "hashes_distinct (j\<lparr>rj_transactions := rj_transactions j @ m1\<rparr>) \<longrightarrow> hashes_distinct (j\<lparr>rj_transactions := rj_transactions j @ m1 @ m2\<rparr>)"
    "m2 = [] \<and> pu_file c = pu_file b \<or> pu_file c = Some (journal_document (j\<lparr>rj_transactions := rj_transactions j @ m1 @ m2\<rparr>))"
    using assms(2) by (auto simp: journal_grows_def Let_def)
  show ?thesis unfolding journal_grows_def Some option.case Let_def by (rule exI[of _ "m1 @ m2"]) (use m1 m2 in auto)
qed

lemma in_journal_grows: "in_journal r s \<Longrightarrow> journal_grows s s' \<Longrightarrow> in_journal r s'"
  by (auto simp: in_journal_def journal_grows_def Let_def split: option.splits)

lemma grows_basic: "grows (retS x)" "grows (raiseS e)" "grows (liftS r)" "grows (chain_read f)"
  by (simp_all add: grows_def journal_grows_refl chain_read_def)

lemma grows_on_chain: "grows (on_chain m)"
  by (auto simp: grows_def on_chain_def zoomS_def intro: journal_grows_same split: prod.splits)

lemma grows_bindS: "grows m \<Longrightarrow> (\<And>x. grows (k x)) \<Longrightarrow> grows (bindS m k)"
  unfolding grows_def bindS_def by (auto split: prod.splits sum.splits) (metis journal_grows_trans snd_conv)+

lemma logs_basic: "logs (retS [])" "logs (raiseS e)"
  by (simp_all add: logs_def grows_basic)

lemma logs_bindS: "grows m \<Longrightarrow> (\<And>x. logs (k x)) \<Longrightarrow> logs (bindS m k)"
  by (auto simp: logs_def grows_bindS bindS_Inr)

lemma logs_cases: "logs a \<Longrightarrow> logs b \<Longrightarrow> logs (if p then a else b)" "logs a \<Longrightarrow> (\<And>x. logs (f x)) \<Longrightarrow> logs (case v of None \<Rightarrow> a | Some x \<Rightarrow> f x)"
  by (cases v; simp)+

lemma logs_for_receipts: "(\<And>x. logs (f x)) \<Longrightarrow> logs (for_receipts f xs)"
proof (induction xs)
  case (Cons x xs)
  have "grows (for_receipts f (x # xs))" using Cons by (auto simp: logs_def intro!: grows_bindS grows_basic)
  moreover have "in_journal r s'" if whole: "for_receipts f (x # xs) s = (Ret rs, s')" and r: "r \<in> set rs" for s rs s' r
  proof -
    obtain r1 s1 r2 where run: "f x s = (Ret r1, s1)" "for_receipts f xs s1 = (Ret r2, s')" "rs = r1 @ r2"
      using whole by (auto simp: bindS_Inr)
    have "journal_grows s1 s'" using Cons run(2) unfolding logs_def grows_def by (metis snd_conv)
    then show ?thesis using Cons run r in_journal_grows unfolding logs_def by (metis Un_iff set_append)
  qed
  ultimately show ?case unfolding logs_def by blast
qed (simp add: logs_basic)

lemma any_res_distinct:
  assumes "any_res (\<lambda>item. bind_res (transaction_of item) (\<lambda>t. Ret (t = h))) ts = Ret b"
  shows "if b then (\<exists>t\<in>set ts. transaction_of t = Ret h) else Ret h \<notin> transaction_of ` set ts"
proof (cases b)
  case True
  then show ?thesis using any_res_True[of _ ts] assms by fastforce
next
  case False
  have "transaction_of t \<noteq> Ret h" if "t \<in> set ts" for t
    using any_res_False[OF _ that, of "\<lambda>item. bind_res (transaction_of item) (\<lambda>t. Ret (t = h))"] assms False by auto
  then show ?thesis using False by (metis imageE)
qed

lemma record_receipt_run:
  assumes "record_receipt e s = (Ret rs, s')"
  shows "journal_grows s s' \<and> (\<forall>r\<in>set rs. in_journal r s')"
proof (cases "pu_journal s")
  case None
  then have "rs = [JObj e]" "s' = s" using assms by (simp_all add: record_receipt_def)
  then show ?thesis using None by (simp add: journal_grows_refl in_journal_def)
next
  case (Some j)
  then obtain j' where j': "journal_entered j e = Ret j'" "rs = [JObj e]" "s' = s\<lparr>pu_journal := Some j', pu_file := Some (journal_document j')\<rparr>"
    using assms by (auto simp: record_receipt_def bindS_Inr)
  then obtain h known where h: "jitem e ''transaction_hash'' = Ret (JStr h)" "any_res (\<lambda>item. bind_res (transaction_of item) (\<lambda>t. Ret (t = py_lower h))) (rj_transactions j) = Ret known"
    "j' = (if known then j else j\<lparr>rj_transactions := rj_transactions j @ [JObj e]\<rparr>)"
    by (auto simp: journal_entered_def)
  have t: "transaction_of (JObj e) = Ret (py_lower h)" using h(1) by (simp add: transaction_of_def jitem_def jget_def split: option.splits)
  note a = any_res_distinct[OF h(2)]
  show ?thesis
  proof (cases known)
    case True
    have "j' = j\<lparr>rj_transactions := rj_transactions j @ []\<rparr>" using h(3) True by simp
    then show ?thesis using Some j' a True t unfolding journal_grows_def in_journal_def Let_def
      by (auto intro!: exI[of _ "[]"])
  next
    case False
    then have j2: "j' = j\<lparr>rj_transactions := rj_transactions j @ [JObj e]\<rparr>" using h(3) by simp
    have "hashes_distinct j \<longrightarrow> hashes_distinct j'" using a False t by (simp add: hashes_distinct_def j2)
    then show ?thesis using Some j' t unfolding journal_grows_def in_journal_def Let_def j2
      by (auto intro!: exI[of _ "[JObj e]"])
  qed
qed

lemma logs_record_receipt: "logs (record_receipt e)"
proof -
  have "journal_grows s (snd (record_receipt e s))" for s :: "'c publication"
  proof (cases "fst (record_receipt e s)")
    case (Inl x)
    then have "snd (record_receipt e s) = s"
      by (auto simp: record_receipt_def bindS_def split: option.splits sum.splits)
    then show ?thesis by (simp add: journal_grows_refl)
  next
    case (Inr rs)
    then show ?thesis using record_receipt_run[of e s rs "snd (record_receipt e s)"] by (metis prod.collapse)
  qed
  then show ?thesis using record_receipt_run unfolding logs_def grows_def by blast
qed

lemma logs_write: "logs (write_and_record pr op' role operation t)"
  unfolding write_and_record_def by (intro logs_bindS logs_cases logs_basic grows_basic grows_on_chain logs_record_receipt)

lemma logs_entry: "logs (publish_entry pr plan e)"
  unfolding publish_entry_def Let_def
  by (intro logs_bindS grows_basic) (auto intro!: logs_bindS logs_cases logs_basic grows_basic logs_write split: prod.splits option.splits)

lemmas logs_intros = logs_bindS logs_cases logs_basic grows_basic grows_on_chain logs_for_receipts logs_write

lemma logs_unbind: "logs (unbind_one pr x)"
  unfolding unbind_one_def by (intro logs_intros)

lemma logs_bind_one: "logs (bind_one pr k x)"
  unfolding bind_one_def by (intro logs_intros)

lemma logs_bind_entry: "logs (bind_entry pr plan x)"
  unfolding bind_entry_def Let_def by (intro logs_intros logs_bind_one)

lemma logs_revoke: "logs (revoke_one pr x)"
  unfolding revoke_one_def by (intro logs_intros)

lemma logs_phase: "logs (run_phase pr plan phase)"
  by (cases phase; simp only: run_phase.simps publish_root_def publish_resolvers_def unbind_endpoints_def bind_endpoints_def revoke_removed_resolvers_def Let_def)
    (intro logs_intros logs_entry logs_unbind logs_bind_entry logs_revoke)+


end
