(* ===== verification/RegistrySnapshot.thy ===== *)
theory RegistrySnapshot
  imports PlanRuns
begin

text \<open>
  \<open>tools/manage_v2_registry.py\<close>, the signed snapshots: a publication plan is written down for a registry that is read at a
  checkpoint of a foreign chain (Norn, or an external one), signed by an issuer, and checked before anybody relies on it.  The time
  of publication and the parameters of the command line are arguments; the signing function and the issuer keys are those of
  theory PublicationPlan.
\<close>

section \<open>Hexadecimal values and conditions\<close>

definition HEX_DIGITS :: string where "HEX_DIGITS = ''0123456789abcdef''"

definition normalize_fixed_hex :: "json \<Rightarrow> nat \<Rightarrow> string res" where
  "normalize_fixed_hex value n =
     (let normalized = py_lower (py_str value); raw_digits = (if starts_with normalized ''0x'' then drop 2 normalized else []) in
      refuse (length raw_digits \<noteq> n * 2 \<or> \<not> list_all (\<lambda>c. c \<in> set HEX_DIGITS) raw_digits) ''value must be 0x-prefixed hex of a fixed size''
      (Ret (''0x'' @ raw_digits)))"

text \<open>A chain of \<open>or\<close>: the conditions are evaluated from the left until one holds or raises.\<close>

fun or_res :: "bool res list \<Rightarrow> bool res" where
  "or_res [] = Ret False"
| "or_res (c # cs) = bind_res c (\<lambda>b. if b then Ret True else or_res cs)"

definition at_most :: "jdict \<Rightarrow> string \<Rightarrow> int \<Rightarrow> bool res" where
  "at_most d k n = bind_res (int_field d k) (\<lambda>i. Ret (i \<le> n))"

definition blank :: "jdict \<Rightarrow> string \<Rightarrow> bool res" where
  "blank d k = Ret (py_strip (text_field d k) = [])"

text \<open>\<open>int(d.get(k, 0)) <= int(d.get(l, 0))\<close>.\<close>

definition not_after :: "jdict \<Rightarrow> string \<Rightarrow> string \<Rightarrow> bool res" where
  "not_after d k l = bind_res (int_field d k) (\<lambda>i. bind_res (int_field d l) (\<lambda>j. Ret (i \<le> j)))"

text \<open>\<open>ids == sorted(set(ids))\<close>: the set needs hashable values, and sorting two or more of them needs texts only or numbers only.\<close>

definition numbers_of :: "json list \<Rightarrow> int list res" where
  "numbers_of vs = map_res (\<lambda>v. case v of JInt i \<Rightarrow> Ret i | _ \<Rightarrow> Raise (TypeError ''values are not comparable'')) vs"

definition sorted_unique :: "json list \<Rightarrow> bool res" where
  "sorted_unique vs =
     (let ws = map bools_as_numbers vs in
      if \<not> list_all hashable vs then Raise (TypeError ''unhashable type'')
      else if length (remdups ws) \<le> 1 then Ret (length vs \<le> 1)
      else if list_ex is_jstr ws then bind_res (map_res as_str ws) (\<lambda>ss. Ret (ss = sort (remdups ss)))
      else bind_res (numbers_of ws) (\<lambda>is. Ret (is = sort (remdups is))))"

section \<open>The entries of a snapshot\<close>

definition SNAPSHOT_FIELDS :: "string list" where
  "SNAPSHOT_FIELDS = [''server_id'', ''resolver_id_key'', ''object_hash'', ''object_version'', ''valid_until'', ''status'', ''endpoint_keys'']"

definition snapshot_entry :: "json \<Rightarrow> json res" where
  "snapshot_entry entry = bind_res (map_res (\<lambda>f. bind_res (json_item entry f) (\<lambda>v. Ret (f, v))) SNAPSHOT_FIELDS) (\<lambda>fields. Ret (JObj fields))"

definition snapshot_entries :: "jdict \<Rightarrow> json list res" where
  "snapshot_entries plan = bind_res (bind_res (jitem plan ''entries'') as_list) (\<lambda>entries.
     bind_res (sort_by_text (\<lambda>e. item_text e ''server_id'') entries) (map_res snapshot_entry))"

section \<open>Norn snapshots\<close>

definition NORN_REGISTRY_SNAPSHOT_V1 :: string where
  "NORN_REGISTRY_SNAPSHOT_V1 = ''resolver-identity-norn-registry-snapshot-v1''"

definition NORN_REGISTRY_SCHEMA_HASH_V1 :: string where
  "NORN_REGISTRY_SCHEMA_HASH_V1 = ''0xadb0b846e01c44c8dcc41b612eea34999b5e10b25b3e68c7dab4a3fd70cc3499''"

definition validate_norn_snapshot_shape :: "jdict \<Rightarrow> unit res" where
  "validate_norn_snapshot_shape snapshot =
     refuse (jget0 snapshot ''schema_version'' \<noteq> JStr NORN_REGISTRY_SNAPSHOT_V1) ''Norn snapshot schema_version is invalid''
     (refuse (jget0 snapshot ''registry_schema_hash'' \<noteq> JStr NORN_REGISTRY_SCHEMA_HASH_V1) ''Norn snapshot schema hash is invalid''
     (bind_res (or_res [at_most snapshot ''chain_id'' 0, at_most snapshot ''snapshot_version'' 0, at_most snapshot ''checkpoint_height'' 0,
          at_most snapshot ''published_at'' 0, not_after snapshot ''valid_until'' ''published_at'', Ret (jget0 snapshot ''root_status'' \<noteq> JStr ''ACTIVE''),
          blank snapshot ''registry_key'', blank snapshot ''issuer'', blank snapshot ''key_id'', Ret (\<not> truthy (jget0 snapshot ''entries''))]) (\<lambda>bad.
      refuse bad ''Norn snapshot required fields are invalid''
     (bind_res (bind_res (jitem snapshot ''genesis_block_hash'') (\<lambda>v. normalize_fixed_hex v 32)) (\<lambda>_.
      bind_res (bind_res (jitem snapshot ''registry_address'') (\<lambda>v. normalize_fixed_hex v 20)) (\<lambda>_.
      bind_res (bind_res (jitem snapshot ''checkpoint_hash'') (\<lambda>v. normalize_fixed_hex v 32)) (\<lambda>_.
      bind_res (bind_res (jitem snapshot ''state_root'') (\<lambda>v. normalize_fixed_hex v 32)) (\<lambda>_.
      bind_res (bind_res (as_list (jget0 snapshot ''entries'')) (map_res (\<lambda>e. json_item e ''server_id''))) (\<lambda>server_ids.
      bind_res (sorted_unique server_ids) (\<lambda>ok. refuse (\<not> ok) ''Norn snapshot entries must be sorted by unique server_id'' (Ret ())))))))))))"

record norn_parameters =
  np_chain_id :: int
  np_genesis_block_hash :: string
  np_registry_address :: string
  np_registry_key :: string
  np_snapshot_version :: int
  np_checkpoint_height :: int
  np_checkpoint_hash :: string
  np_valid_until :: int
  np_issuer :: string
  np_key_id :: string

definition build_norn_snapshot :: "int \<Rightarrow> jdict \<Rightarrow> norn_parameters \<Rightarrow> jdict res" where
  "build_norn_snapshot published_at plan p =
     bind_res (normalize_fixed_hex (JStr (np_genesis_block_hash p)) 32) (\<lambda>genesis.
     bind_res (normalize_fixed_hex (JStr (np_registry_address p)) 20) (\<lambda>address.
     bind_res (normalize_fixed_hex (JStr (np_checkpoint_hash p)) 32) (\<lambda>checkpoint.
     bind_res (bind_res (jitem plan ''state_root'') (\<lambda>v. normalize_fixed_hex v 32)) (\<lambda>state_root.
     bind_res (snapshot_entries plan) (\<lambda>entries.
     let snapshot = [(''schema_version'', JStr NORN_REGISTRY_SNAPSHOT_V1), (''chain_id'', JInt (np_chain_id p)), (''genesis_block_hash'', JStr genesis),
       (''registry_address'', JStr address), (''registry_key'', JStr (np_registry_key p)), (''registry_schema_hash'', JStr NORN_REGISTRY_SCHEMA_HASH_V1),
       (''snapshot_version'', JInt (np_snapshot_version p)), (''checkpoint_height'', JInt (np_checkpoint_height p)), (''checkpoint_hash'', JStr checkpoint),
       (''state_root'', JStr state_root), (''root_status'', JStr ''ACTIVE''), (''published_at'', JInt published_at), (''valid_until'', JInt (np_valid_until p)),
       (''issuer'', JStr (np_issuer p)), (''key_id'', JStr (np_key_id p)), (''entries'', JArr entries)] in
     bind_res (validate_norn_snapshot_shape snapshot) (\<lambda>_. Ret snapshot))))))"

section \<open>External snapshots\<close>

definition EXTERNAL_REGISTRY_SNAPSHOT_V1 :: string where
  "EXTERNAL_REGISTRY_SNAPSHOT_V1 = ''resolver-identity-external-registry-snapshot-v1''"

text \<open>\<open>islower\<close> and \<open>isdigit\<close> of one character; the ordinal indicators count as lower case.\<close>

definition driver_char :: "char \<Rightarrow> bool" where
  "driver_char c = (let n = of_char c :: nat in
     (97 \<le> n \<and> n \<le> 122) \<or> n \<in> {170, 181, 186} \<or> (223 \<le> n \<and> n \<noteq> 247) \<or> py_isdigit [c] \<or> c = CHR ''-'')"

definition external_target :: "string \<Rightarrow> string \<Rightarrow> string \<Rightarrow> string \<Rightarrow> string \<Rightarrow> string \<Rightarrow> string \<Rightarrow> jdict" where
  "external_target adapter chain_identity registry_locator schema_hash driver issuer key_id =
     [(''adapter'', JStr adapter), (''chain_identity'', JStr chain_identity), (''registry_locator'', JStr registry_locator),
      (''registry_schema_hash'', JStr schema_hash),
      (''adapter_metadata'', JObj [(''adapter_type'', JStr ''external''), (''driver'', JStr driver),
         (''snapshot_signer_issuer'', JStr issuer), (''snapshot_signer_key_id'', JStr key_id)])]"

text \<open>The endpoint keys of one entry are added to those of the entries before it.\<close>

fun claim_endpoint_keys :: "string set \<Rightarrow> json list \<Rightarrow> string set res" where
  "claim_endpoint_keys taken [] = Ret taken"
| "claim_endpoint_keys taken (v # vs) = bind_res (normalize_fixed_hex v 32) (\<lambda>k.
     refuse (k \<in> taken) ''external snapshot endpoint ownership is ambiguous'' (claim_endpoint_keys (insert k taken) vs))"

definition duplicates :: "json \<Rightarrow> bool res" where
  "duplicates v = bind_res (as_list v) (\<lambda>vs. if \<not> list_all hashable vs then Raise (TypeError ''unhashable type'')
     else Ret (length vs \<noteq> length (remdups (map bools_as_numbers vs))))"

text \<open>The values of one entry; the result is its server id.\<close>

definition check_snapshot_entry :: "json \<Rightarrow> (string \<times> json list) res" where
  "check_snapshot_entry v =
     (case v of
        JObj entry \<Rightarrow>
          refuse (set (map fst entry) \<noteq> set SNAPSHOT_FIELDS) ''external snapshot entry fields are invalid''
          (let server_id = text_field entry ''server_id''; status = text_field entry ''status''; endpoint_keys = jget0 entry ''endpoint_keys'' in
           bind_res (or_res [Ret (server_id = []), Ret (256 < length server_id), Ret (status = []), Ret (32 < length status),
              at_most entry ''object_version'' 0, at_most entry ''valid_until'' 0, Ret (\<not> is_jarr endpoint_keys),
              bind_res (as_list endpoint_keys) (\<lambda>ks. Ret (\<not> (1 \<le> length ks \<and> length ks \<le> 32))), duplicates endpoint_keys,
              bind_res (normalize_fixed_hex (jget0 entry ''resolver_id_key'') 32) (\<lambda>k. Ret (k \<noteq> resolver_id_key server_id))]) (\<lambda>bad.
           refuse bad ''external snapshot entry values are invalid''
          (bind_res (normalize_fixed_hex (jget0 entry ''object_hash'') 32) (\<lambda>_.
           bind_res (as_list endpoint_keys) (\<lambda>ks. Ret (server_id, ks))))))
      | _ \<Rightarrow> Raise (ValueError ''external snapshot entry fields are invalid''))"

fun check_snapshot_entries :: "string set \<Rightarrow> json list \<Rightarrow> string list res" where
  "check_snapshot_entries taken [] = Ret []"
| "check_snapshot_entries taken (v # vs) =
     bind_res (check_snapshot_entry v) (\<lambda>(server_id, keys). bind_res (claim_endpoint_keys taken keys) (\<lambda>taken'.
     bind_res (check_snapshot_entries taken' vs) (\<lambda>ids. Ret (server_id # ids))))"

text \<open>The first part of the check: the target, and the fields of the snapshot.\<close>

definition validate_external_header :: "jdict \<Rightarrow> json list res" where
  "validate_external_header snapshot =
     refuse (jget0 snapshot ''schema_version'' \<noteq> JStr EXTERNAL_REGISTRY_SNAPSHOT_V1) ''external snapshot schema_version is invalid''
     (case (jget0 snapshot ''target'', jget0 snapshot ''checkpoint'') of
        (JObj target, JObj checkpoint) \<Rightarrow>
          (case jget0 target ''adapter_metadata'' of
             JObj metadata \<Rightarrow>
               (let adapter = text_field target ''adapter''; driver = text_field metadata ''driver'';
                    chain_identity = text_field target ''chain_identity''; registry_locator = text_field target ''registry_locator'';
                    signer_issuer = text_field metadata ''snapshot_signer_issuer''; signer_key_id = text_field metadata ''snapshot_signer_key_id'' in
                refuse (driver = [] \<or> 23 < length driver \<or> \<not> list_all driver_char driver) ''external snapshot adapter driver is invalid''
                (bind_res (normalize_fixed_hex (jget target ''registry_schema_hash'' (JStr [])) 32) (\<lambda>schema_hash.
                 bind_res (or_res
                   [Ret (\<not> json_same (JObj target) (JObj (external_target adapter chain_identity registry_locator schema_hash driver signer_issuer signer_key_id))),
                    Ret (adapter \<noteq> ''external''),
                    Ret (list_ex (\<lambda>t. py_strip t = [] \<or> 256 < length t) [chain_identity, registry_locator, signer_issuer, signer_key_id]),
                    Ret (signer_issuer \<noteq> text_field snapshot ''issuer''), Ret (signer_key_id \<noteq> text_field snapshot ''key_id''),
                    Ret (schema_hash = ''0x'' @ replicate 64 CHR ''0''), at_most snapshot ''generation'' 0, at_most checkpoint ''number'' 0,
                    Ret (jget0 checkpoint ''finality_type'' \<noteq> JStr ''external-signed-checkpoint''), at_most snapshot ''published_at'' 0,
                    not_after snapshot ''valid_until'' ''published_at'', Ret (jget0 snapshot ''root_status'' \<noteq> JStr ''ACTIVE''),
                    blank snapshot ''issuer'', blank snapshot ''key_id'', Ret (\<not> truthy (jget0 snapshot ''entries'')),
                    bind_res (as_list (jget0 snapshot ''entries'')) (\<lambda>es. Ret (10000 < length es))]) (\<lambda>bad.
                 refuse bad ''external snapshot required fields are invalid''
                (bind_res (normalize_fixed_hex (jget checkpoint ''hash'' (JStr [])) 32) (\<lambda>_.
                 bind_res (normalize_fixed_hex (jget snapshot ''state_root'' (JStr [])) 32) (\<lambda>_.
                 as_list (jget0 snapshot ''entries''))))))))
           | _ \<Rightarrow> Raise (ValueError ''external snapshot adapter metadata is missing''))
      | _ \<Rightarrow> Raise (ValueError ''external snapshot target or checkpoint is missing''))"

definition validate_external_snapshot_shape :: "jdict \<Rightarrow> unit res" where
  "validate_external_snapshot_shape snapshot =
     bind_res (validate_external_header snapshot) (\<lambda>entries.
     bind_res (check_snapshot_entries {} entries) (\<lambda>server_ids.
     refuse (server_ids \<noteq> sort (remdups server_ids)) ''external snapshot entries must be sorted by unique server_id'' (Ret ())))"

record external_parameters =
  ep_driver :: string
  ep_chain_identity :: string
  ep_registry_locator :: string
  ep_registry_schema_hash :: string
  ep_generation :: int
  ep_checkpoint_height :: int
  ep_checkpoint_hash :: string
  ep_valid_until :: int
  ep_issuer :: string
  ep_key_id :: string

definition build_external_snapshot :: "int \<Rightarrow> jdict \<Rightarrow> external_parameters \<Rightarrow> jdict res" where
  "build_external_snapshot published_at plan p =
     bind_res (normalize_fixed_hex (JStr (ep_registry_schema_hash p)) 32) (\<lambda>schema_hash.
     bind_res (normalize_fixed_hex (JStr (ep_checkpoint_hash p)) 32) (\<lambda>checkpoint.
     bind_res (bind_res (jitem plan ''state_root'') (\<lambda>v. normalize_fixed_hex v 32)) (\<lambda>state_root.
     bind_res (snapshot_entries plan) (\<lambda>entries.
     let snapshot = [(''schema_version'', JStr EXTERNAL_REGISTRY_SNAPSHOT_V1),
       (''target'', JObj (external_target ''external'' (ep_chain_identity p) (ep_registry_locator p) schema_hash (ep_driver p) (ep_issuer p) (ep_key_id p))),
       (''checkpoint'', JObj [(''number'', JInt (ep_checkpoint_height p)), (''hash'', JStr checkpoint), (''finality_type'', JStr ''external-signed-checkpoint'')]),
       (''generation'', JInt (ep_generation p)), (''state_root'', JStr state_root), (''root_status'', JStr ''ACTIVE''), (''published_at'', JInt published_at),
       (''valid_until'', JInt (ep_valid_until p)), (''issuer'', JStr (ep_issuer p)), (''key_id'', JStr (ep_key_id p)), (''entries'', JArr entries)] in
     bind_res (validate_external_snapshot_shape snapshot) (\<lambda>_. Ret snapshot)))))"

section \<open>The commands\<close>

text \<open>A new snapshot is signed and must verify under the issuer keys before it is written.\<close>

definition sign_snapshot :: "ed25519 \<Rightarrow> (jdict \<Rightarrow> string res) \<Rightarrow> json res \<Rightarrow> jdict \<Rightarrow> jdict res" where
  "sign_snapshot lib sign issuer_file snapshot =
     bind_res (sign snapshot) (\<lambda>signature. let signed_snapshot = dict_set snapshot ''signature'' (JStr signature) in
     bind_res (bind_res issuer_file registry_from_file) (\<lambda>keys.
     bind_res (verify_object_signature_with_registry lib signed_snapshot (Some keys) None) (\<lambda>genuine.
     refuse (\<not> genuine) ''new snapshot does not verify with issuer bundle'' (Ret signed_snapshot))))"

definition check_snapshot_signature :: "ed25519 \<Rightarrow> json res \<Rightarrow> jdict \<Rightarrow> unit res" where
  "check_snapshot_signature lib issuer_file snapshot =
     bind_res (bind_res issuer_file registry_from_file) (\<lambda>keys.
     bind_res (verify_object_signature_with_registry lib snapshot (Some keys) None) (\<lambda>genuine.
     refuse (\<not> genuine) ''snapshot signature verification failed'' (Ret ())))"

definition prepare_norn_snapshot :: "ed25519 \<Rightarrow> (jdict \<Rightarrow> string res) \<Rightarrow> json res \<Rightarrow> int \<Rightarrow> json res \<Rightarrow> string \<Rightarrow> norn_parameters \<Rightarrow> jdict res" where
  "prepare_norn_snapshot lib sign issuer_file published_at plan_file expected_hash p =
     bind_res (bind_res plan_file (\<lambda>f. load_plan f expected_hash)) (\<lambda>plan.
     bind_res (build_norn_snapshot published_at plan p) (sign_snapshot lib sign issuer_file))"

definition verify_norn_snapshot :: "ed25519 \<Rightarrow> json res \<Rightarrow> json res \<Rightarrow> unit res" where
  "verify_norn_snapshot lib issuer_file snapshot_file =
     bind_res (bind_res snapshot_file as_dict) (\<lambda>snapshot.
     bind_res (validate_norn_snapshot_shape snapshot) (\<lambda>_. check_snapshot_signature lib issuer_file snapshot))"

definition prepare_external_snapshot :: "ed25519 \<Rightarrow> (jdict \<Rightarrow> string res) \<Rightarrow> json res \<Rightarrow> int \<Rightarrow> json res \<Rightarrow> string \<Rightarrow> external_parameters \<Rightarrow> jdict res" where
  "prepare_external_snapshot lib sign issuer_file published_at plan_file expected_hash p =
     bind_res (bind_res plan_file (\<lambda>f. load_plan f expected_hash)) (\<lambda>plan.
     bind_res (build_external_snapshot published_at plan p) (sign_snapshot lib sign issuer_file))"

definition verify_external_snapshot :: "ed25519 \<Rightarrow> json res \<Rightarrow> json res \<Rightarrow> unit res" where
  "verify_external_snapshot lib issuer_file snapshot_file =
     bind_res (bind_res snapshot_file as_dict) (\<lambda>snapshot.
     bind_res (validate_external_snapshot_shape snapshot) (\<lambda>_. check_snapshot_signature lib issuer_file snapshot))"

section \<open>Lemmas\<close>

lemma or_res_False: "or_res cs = Ret False \<longleftrightarrow> (\<forall>c\<in>set cs. c = Ret False)"
  by (induction cs) (auto split: if_splits)

lemma as_list_jarr: "is_jarr v \<Longrightarrow> as_list v = Ret xs \<longleftrightarrow> v = JArr xs"
  by (cases v) (auto simp: is_jarr_def)

lemma normalize_fixed_hex_Ret:
  assumes "normalize_fixed_hex v n = Ret k" and "0 < n"
  shows "k = py_lower (py_str v) \<and> length k = 2 + 2 * n \<and> normalize_fixed_hex (JStr k) n = Ret k"
proof -
  obtain r where r: "py_lower (py_str v) = ''0x'' @ r" "length r = n * 2" "list_all (\<lambda>c. c \<in> set HEX_DIGITS) r" "k = ''0x'' @ r"
    using assms by (auto simp: normalize_fixed_hex_def Let_def starts_with_iff split: if_splits)
  have "py_lower k = k" using py_lower_idem[of "py_str v"] r(1,4) by simp
  then show ?thesis using r by (simp add: normalize_fixed_hex_def Let_def)
qed

lemma check_snapshot_entry_Ret:
  assumes "check_snapshot_entry v = Ret (sid, ks)"
  obtains e where "v = JObj e" and "set (map fst e) = set SNAPSHOT_FIELDS" and "sid = text_field e ''server_id''" and "sid \<noteq> []"
    and "jget0 e ''endpoint_keys'' = JArr ks" and "1 \<le> length ks" and "length ks \<le> 32"
    and "normalize_fixed_hex (jget0 e ''resolver_id_key'') 32 = Ret (resolver_id_key sid)"
  using assms by (auto simp: check_snapshot_entry_def Let_def case_JObj_Ret or_res_False as_list_jarr simp del: or_res.simps)

lemma claim_endpoint_keys_Ret:
  assumes "claim_endpoint_keys taken vs = Ret taken'"
  shows "\<exists>ks. map_res (\<lambda>v. normalize_fixed_hex v 32) vs = Ret ks \<and> distinct ks \<and> set ks \<inter> taken = {} \<and> taken' = taken \<union> set ks"
  using assms
proof (induction taken vs rule: claim_endpoint_keys.induct)
  case (2 taken v vs)
  then obtain k where k: "normalize_fixed_hex v 32 = Ret k" "k \<notin> taken" "claim_endpoint_keys (insert k taken) vs = Ret taken'" by auto
  from "2.IH"[OF k(1) k(3)] obtain ks where "map_res (\<lambda>v. normalize_fixed_hex v 32) vs = Ret ks" "distinct ks" "set ks \<inter> insert k taken = {}"
    "taken' = insert k taken \<union> set ks" by blast
  then show ?case using k(1,2) by auto
qed simp

text \<open>The endpoint keys of one entry in their normal form.\<close>

definition entry_endpoints :: "jdict \<Rightarrow> string list res" where
  "entry_endpoints e = bind_res (as_list (jget0 e ''endpoint_keys'')) (map_res (\<lambda>v. normalize_fixed_hex v 32))"

lemma check_snapshot_entries_Ret:
  assumes "check_snapshot_entries taken vs = Ret ids"
  shows "\<exists>es kss. vs = map JObj es \<and> ids = map (\<lambda>e. text_field e ''server_id'') es \<and> map_res entry_endpoints es = Ret kss \<and>
    distinct (concat kss) \<and> set (concat kss) \<inter> taken = {} \<and> (\<forall>ks\<in>set kss. 1 \<le> length ks \<and> length ks \<le> 32) \<and>
    (\<forall>e\<in>set es. normalize_fixed_hex (jget0 e ''resolver_id_key'') 32 = Ret (resolver_id_key (text_field e ''server_id'')))"
  using assms
proof (induction taken vs arbitrary: ids rule: check_snapshot_entries.induct)
  case (2 taken v vs)
  from "2.prems" obtain sid vks taken' ids' where s: "check_snapshot_entry v = Ret (sid, vks)" "claim_endpoint_keys taken vks = Ret taken'"
    "check_snapshot_entries taken' vs = Ret ids'" "ids = sid # ids'"
    by auto
  obtain ks where ks: "map_res (\<lambda>v. normalize_fixed_hex v 32) vks = Ret ks" "distinct ks" "set ks \<inter> taken = {}" "taken' = taken \<union> set ks"
    using claim_endpoint_keys_Ret[OF s(2)] by blast
  from "2.IH"[OF s(1) refl s(2) s(3)] obtain es kss where ih: "vs = map JObj es" "ids' = map (\<lambda>e. text_field e ''server_id'') es"
    "map_res entry_endpoints es = Ret kss" "distinct (concat kss)" "set (concat kss) \<inter> taken' = {}" "\<forall>ks\<in>set kss. 1 \<le> length ks \<and> length ks \<le> 32"
    "\<forall>e\<in>set es. normalize_fixed_hex (jget0 e ''resolver_id_key'') 32 = Ret (resolver_id_key (text_field e ''server_id''))"
    by blast
  obtain e where e: "v = JObj e" "sid = text_field e ''server_id''" "jget0 e ''endpoint_keys'' = JArr vks" "1 \<le> length vks" "length vks \<le> 32"
    "normalize_fixed_hex (jget0 e ''resolver_id_key'') 32 = Ret (resolver_id_key sid)"
    by (rule check_snapshot_entry_Ret[OF s(1)])
  have "entry_endpoints e = Ret ks" using e(3) ks(1) by (simp add: entry_endpoints_def)
  moreover have "length ks = length vks" using ks(1) by (auto simp: map_res_Inr dest: list_all2_lengthD)
  ultimately show ?case using s(4) ks ih e by (intro exI[of _ "e # es"] exI[of _ "ks # kss"]) auto
qed simp

section \<open>A snapshot that was checked\<close>

lemma as_list_dicts: "as_list v = Ret (map JObj es) \<Longrightarrow> truthy v \<Longrightarrow> v = JArr (map JObj es) \<and> es \<noteq> []"
proof -
  have "map (\<lambda>c. JStr [c]) s = map JObj es \<Longrightarrow> s = []" "map (JStr \<circ> fst) d = map JObj es \<Longrightarrow> d = []" for s :: string and d :: jdict
    by (cases s; cases es; simp) (cases d; cases es; auto)
  then show "as_list v = Ret (map JObj es) \<Longrightarrow> truthy v \<Longrightarrow> v = JArr (map JObj es) \<and> es \<noteq> []"
    by (cases v) auto
qed

lemma validate_external_header_Ret:
  assumes "validate_external_header s = Ret vs"
  obtains target metadata checkpoint where "jget0 s ''target'' = JObj target" and "jget0 target ''adapter_metadata'' = JObj metadata"
    and "text_field target ''adapter'' = ''external''" and "text_field metadata ''snapshot_signer_issuer'' = text_field s ''issuer''"
    and "text_field metadata ''snapshot_signer_key_id'' = text_field s ''key_id''" and "jget0 s ''root_status'' = JStr ''ACTIVE''"
    and "truthy (jget0 s ''entries'')" and "as_list (jget0 s ''entries'') = Ret vs" and "length vs \<le> 10000"
proof -
  obtain target checkpoint metadata where d: "jget0 s ''target'' = JObj target" "jget0 s ''checkpoint'' = JObj checkpoint" "jget0 target ''adapter_metadata'' = JObj metadata"
    using assms unfolding validate_external_header_def by (auto simp: case_JObj_Ret split: json.splits)
  show thesis
    using assms unfolding validate_external_header_def d(1,2) prod.case json.case d(3)
    by (auto simp: Let_def or_res_False simp del: or_res.simps intro!: that[OF d(1,3)])
qed

text \<open>C25. A checked external snapshot has one owner per endpoint: it names its signer as the issuer of the snapshot, its entries are
  ordered by server ids that occur once, every resolver key is the key of its server id, and no endpoint key, however it is
  written, occurs twice.\<close>

theorem external_snapshot_sound:
  assumes "validate_external_snapshot_shape s = Ret ()"
  shows "\<exists>target metadata entries keys. jget0 s ''target'' = JObj target \<and> jget0 target ''adapter_metadata'' = JObj metadata \<and>
    text_field metadata ''snapshot_signer_issuer'' = text_field s ''issuer'' \<and> text_field metadata ''snapshot_signer_key_id'' = text_field s ''key_id'' \<and>
    jget0 s ''entries'' = JArr (map JObj entries) \<and> entries \<noteq> [] \<and> length entries \<le> 10000 \<and>
    sorted (map (\<lambda>e. text_field e ''server_id'') entries) \<and> distinct (map (\<lambda>e. text_field e ''server_id'') entries) \<and>
    (\<forall>e\<in>set entries. normalize_fixed_hex (jget0 e ''resolver_id_key'') 32 = Ret (resolver_id_key (text_field e ''server_id''))) \<and>
    map_res entry_endpoints entries = Ret keys \<and> (\<forall>ks\<in>set keys. 1 \<le> length ks \<and> length ks \<le> 32) \<and> distinct (concat keys)"
proof -
  obtain vs ids where v: "validate_external_header s = Ret vs" "check_snapshot_entries {} vs = Ret ids" "ids = sort (remdups ids)"
    using assms by (auto simp: validate_external_snapshot_shape_def)
  have "sorted ids" "distinct ids" using v(3) by (metis sorted_sort, metis distinct_remdups distinct_sort)
  obtain target metadata where h: "jget0 s ''target'' = JObj target" "jget0 target ''adapter_metadata'' = JObj metadata"
    "text_field metadata ''snapshot_signer_issuer'' = text_field s ''issuer''" "text_field metadata ''snapshot_signer_key_id'' = text_field s ''key_id''"
    "truthy (jget0 s ''entries'')" "as_list (jget0 s ''entries'') = Ret vs" "length vs \<le> 10000"
    by (rule validate_external_header_Ret[OF v(1)])
  obtain es kss where e: "vs = map JObj es" "ids = map (\<lambda>e. text_field e ''server_id'') es" "map_res entry_endpoints es = Ret kss" "distinct (concat kss)"
    "\<forall>ks\<in>set kss. 1 \<le> length ks \<and> length ks \<le> 32"
    "\<forall>e\<in>set es. normalize_fixed_hex (jget0 e ''resolver_id_key'') 32 = Ret (resolver_id_key (text_field e ''server_id''))"
    using check_snapshot_entries_Ret[OF v(2)] by blast
  have "jget0 s ''entries'' = JArr (map JObj es) \<and> es \<noteq> []" using as_list_dicts h(5,6) e(1) by blast
  then show ?thesis using h e \<open>sorted ids\<close> \<open>distinct ids\<close> by (intro exI[of _ target] exI[of _ metadata] exI[of _ es] exI[of _ kss]) simp
qed

section \<open>A snapshot of a plan\<close>

text \<open>The Merkle leaf of an entry of a snapshot.\<close>

definition snapshot_leaf :: "json \<Rightarrow> string res" where
  "snapshot_leaf e = bind_res (item_text e ''resolver_id_key'') (\<lambda>k. bind_res (item_text e ''object_hash'') (\<lambda>h.
     bind_res (item_int e ''object_version'') (\<lambda>v. bind_res (item_text e ''status'') (\<lambda>st. Ret (merkle_leaf k h v st)))))"

lemma sort_by_text_sorted:
  assumes "map_res f xs = Ret ks" and "sorted ks"
  shows "sort_by_text f xs = Ret xs"
proof -
  have "map_res (\<lambda>x. bind_res (f x) (\<lambda>k. Ret (k, x))) xs = Ret (zip ks xs) \<and> length ks = length xs" using assms(1)
    by (induction xs arbitrary: ks) auto
  moreover from this have "sort_key fst (zip ks xs) = zip ks xs" using assms(2) by (simp add: sort_key_id_if_sorted)
  ultimately show ?thesis by (simp add: sort_by_text_def)
qed

lemma map_res_snd: "\<forall>z\<in>set zs. f (snd z) = Ret (fst z) \<Longrightarrow> map_res f (map snd zs) = Ret (map fst zs)"
  by (induction zs) auto

lemma sort_by_text_Ret:
  assumes "sort_by_text f xs = Ret ys"
  shows "(\<exists>ks. map_res f ys = Ret ks \<and> sorted ks) \<and> length ys = length xs"
proof -
  obtain kxs where k: "map_res (\<lambda>x. bind_res (f x) (\<lambda>k. Ret (k, x))) xs = Ret kxs" "ys = map snd (sort_key fst kxs)"
    using assms by (auto simp: sort_by_text_def)
  have "\<forall>kx\<in>set kxs. f (snd kx) = Ret (fst kx)" using list_all2_partners[OF iffD1[OF map_res_Inr k(1)]] by auto
  then have "map_res f ys = Ret (map fst (sort_key fst kxs))" unfolding k(2) by (intro map_res_snd) simp
  moreover have "length kxs = length xs" using k(1) by (auto simp: map_res_Inr dest: list_all2_lengthD)
  ultimately show ?thesis by (auto simp: k(2))
qed

lemma plan_entry_snapshot:
  assumes "plan_entry i = Ret e"
  shows "\<exists>e' sid l. bind_res (jitem i ''server_id'') as_str = Ret sid \<and> item_text (JObj e) ''server_id'' = Ret sid \<and>
    bind_res (jitem e ''leaf_hash'') as_str = Ret l \<and> snapshot_entry (JObj e) = Ret e' \<and> snapshot_leaf e' = Ret l"
proof -
  obtain sid version status valid_until ks where i: "bind_res (jitem i ''server_id'') as_str = Ret sid"
    "e = [(''server_id'', JStr sid), (''resolver_id_key'', JStr (resolver_id_key sid)), (''object_hash'', JStr (object_hash i)),
          (''object_version'', JInt version), (''valid_until'', JInt valid_until), (''status'', JStr status),
          (''endpoint_keys'', JArr (map JStr ks)), (''leaf_hash'', JStr (merkle_leaf (resolver_id_key sid) (object_hash i) version status))]"
    using assms unfolding plan_entry_def Let_def bind_res_eq_Inr[of _ _ "_ :: jdict"] sum.inject by (elim exE conjE) (rule that, assumption, erule sym)
  show ?thesis using i(1)
    by (simp add: i(2) item_text_def jitem_def snapshot_entry_def SNAPSHOT_FIELDS_def snapshot_leaf_def item_int_def del: bind_res_eq_Inr)
qed

lemma plan_entries_snapshot:
  assumes "map_res plan_entry is = Ret entries"
  shows "\<exists>sids es leaves. map_res (\<lambda>i. bind_res (jitem i ''server_id'') as_str) is = Ret sids \<and> map_res (\<lambda>e. item_text e ''server_id'') (map JObj entries) = Ret sids \<and>
    map_res (\<lambda>e. bind_res (jitem e ''leaf_hash'') as_str) entries = Ret leaves \<and> map_res snapshot_entry (map JObj entries) = Ret es \<and>
    map_res snapshot_leaf es = Ret leaves"
  using assms
proof (induction "is" arbitrary: entries)
  case (Cons i "is")
  then obtain e es' where e: "plan_entry i = Ret e" "map_res plan_entry is = Ret es'" "entries = e # es'" by auto
  obtain e1 sid l where "bind_res (jitem i ''server_id'') as_str = Ret sid" "item_text (JObj e) ''server_id'' = Ret sid"
    "bind_res (jitem e ''leaf_hash'') as_str = Ret l" "snapshot_entry (JObj e) = Ret e1" "snapshot_leaf e1 = Ret l"
    using plan_entry_snapshot[OF e(1)] by blast
  moreover obtain sids es leaves where "map_res (\<lambda>i. bind_res (jitem i ''server_id'') as_str) is = Ret sids" "map_res (\<lambda>e. item_text e ''server_id'') (map JObj es') = Ret sids"
    "map_res (\<lambda>e. bind_res (jitem e ''leaf_hash'') as_str) es' = Ret leaves" "map_res snapshot_entry (map JObj es') = Ret es" "map_res snapshot_leaf es = Ret leaves"
    using Cons.IH[OF e(2)] by blast
  ultimately show ?case
    by (intro exI[of _ "sid # sids"] exI[of _ "e1 # es"] exI[of _ "l # leaves"]) (simp add: e(3) del: bind_res_eq_Inr)
qed simp

lemma hex_digit_listed: "d < 16 \<Longrightarrow> hex_digit d \<in> set HEX_DIGITS"
proof -
  have "\<forall>d\<in>set [0..<16]. hex_digit d \<in> set HEX_DIGITS" by code_simp
  then show "d < 16 \<Longrightarrow> hex_digit d \<in> set HEX_DIGITS" by simp
qed

lemma hex_of_bytes_listed: "list_all (\<lambda>c. c \<in> set HEX_DIGITS) (hex_of_bytes b)"
proof (induction b)
  case (Cons x b)
  have "unat x div 16 < 16" by (rule less_mult_imp_div_less) simp
  then show ?case using Cons hex_digit_listed by (simp add: hex_of_byte_def)
qed simp

lemma digest_fixed_hex: "is_digest r \<Longrightarrow> normalize_fixed_hex (JStr r) 32 = Ret r"
proof -
  assume "is_digest r"
  then obtain b where b: "length b = 32" "r = ''0x'' @ hex_of_bytes b" by (auto simp: is_digest_def bytes_to_hex_def)
  then show ?thesis using digest_lower[OF \<open>is_digest r\<close>] hex_of_bytes_listed[of b] by (simp add: normalize_fixed_hex_def Let_def)
qed

lemma snapshot_entries_of_plan:
  assumes "build_plan ids rv cid addr code prev = Ret plan"
  shows "\<exists>es leaves r. snapshot_entries plan = Ret es \<and> length es = length ids \<and> map_res snapshot_leaf es = Ret leaves \<and> merkle_root leaves = Ret r \<and>
    jitem plan ''state_root'' = Ret (JStr r) \<and> normalize_fixed_hex (JStr r) 32 = Ret r"
proof -
  obtain target ordered entries leaves previous_hash removals r where b:
    "sort_by_text (\<lambda>i. bind_res (jitem i ''server_id'') as_str) ids = Ret ordered" "map_res plan_entry ordered = Ret entries"
    "map_res (\<lambda>e. bind_res (jitem e ''leaf_hash'') as_str) entries = Ret leaves" "merkle_root leaves = Ret r"
    "with_plan_hash (plan_body target previous_hash rv r entries removals) = plan"
    by (rule build_plan_Ret[OF assms]) (rule that; assumption)
  obtain sids es where e: "map_res (\<lambda>i. bind_res (jitem i ''server_id'') as_str) ordered = Ret sids" "map_res (\<lambda>e. item_text e ''server_id'') (map JObj entries) = Ret sids"
    "map_res snapshot_entry (map JObj entries) = Ret es" "map_res snapshot_leaf es = Ret leaves"
    using plan_entries_snapshot[OF b(2)] b(3) by auto
  have "sorted sids" "length ordered = length ids" using sort_by_text_Ret[OF b(1)] e(1) by auto
  then have "sort_by_text (\<lambda>e. item_text e ''server_id'') (map JObj entries) = Ret (map JObj entries)" using sort_by_text_sorted[OF e(2)] by blast
  moreover have plan: "jitem plan ''entries'' = Ret (JArr (map JObj entries))" "jitem plan ''state_root'' = Ret (JStr r)"
    unfolding b(5)[symmetric] by (simp_all add: jitem_def with_plan_hash_def plan_body_def)
  ultimately have "snapshot_entries plan = Ret es" using e(3) by (simp add: snapshot_entries_def del: bind_res_eq_Inr)
  moreover have "length es = length ids"
    using e(3) b(2) \<open>length ordered = length ids\<close> by (auto simp: map_res_Inr dest!: list_all2_lengthD)
  moreover have "is_digest r" using plan_leaves_digest[OF b(2,3)] merkle_root_digest[OF b(4)] by blast
  ultimately show ?thesis using e(4) b(4) plan(2) digest_fixed_hex by blast
qed

text \<open>A snapshot of a built plan publishes the plan: it has one entry for every identity of the plan, and the Merkle root of its
  own entries is the root that it names, for a Norn registry and for an external one.\<close>

theorem snapshot_root_covers_entries:
  assumes "build_plan ids rv cid addr code prev = Ret plan"
    and "build_norn_snapshot now plan np = Ret s \<or> build_external_snapshot now plan xp = Ret s"
  shows "\<exists>es leaves r. jget0 s ''entries'' = JArr es \<and> length es = length ids \<and> jget0 s ''state_root'' = JStr r \<and>
    jitem plan ''state_root'' = Ret (JStr r) \<and> map_res snapshot_leaf es = Ret leaves \<and> merkle_root leaves = Ret r"
proof -
  obtain es leaves r where e: "snapshot_entries plan = Ret es" "length es = length ids" "map_res snapshot_leaf es = Ret leaves" "merkle_root leaves = Ret r"
    "jitem plan ''state_root'' = Ret (JStr r)" "normalize_fixed_hex (JStr r) 32 = Ret r"
    using snapshot_entries_of_plan[OF assms(1)] by blast
  then have "jget0 s ''entries'' = JArr es \<and> jget0 s ''state_root'' = JStr r"
    using assms(2) by (auto simp: build_norn_snapshot_def build_external_snapshot_def Let_def)
  then show ?thesis using e by blast
qed

section \<open>Prepared and verified snapshots\<close>

text \<open>The checks of the shape do not look at the signature.\<close>

lemma signature_unread:
  "k \<noteq> ''signature'' \<Longrightarrow> jget (dict_set d ''signature'' v) k x = jget d k x" "k \<noteq> ''signature'' \<Longrightarrow> jitem (dict_set d ''signature'' v) k = jitem d k"
  by (simp_all add: jget_def jitem_def)

lemma signed_shape:
  "validate_norn_snapshot_shape (dict_set s ''signature'' v) = validate_norn_snapshot_shape s"
  "validate_external_snapshot_shape (dict_set s ''signature'' v) = validate_external_snapshot_shape s"
  by (simp_all add: validate_norn_snapshot_shape_def validate_external_snapshot_shape_def validate_external_header_def at_most_def blank_def not_after_def
      int_field_def text_field_def signature_unread Let_def cong: json.case_cong del: bind_res_eq_Inr)

lemma sign_snapshot_Ret:
  assumes "sign_snapshot lib sign issuer_file s = Ret s'"
  shows "(\<exists>sig. s' = dict_set s ''signature'' sig) \<and> check_snapshot_signature lib issuer_file s' = Ret ()"
  using assms by (auto simp: sign_snapshot_def check_snapshot_signature_def Let_def)

text \<open>What is prepared verifies: a snapshot that a prepare command has written is accepted by the verify command under the same
  issuer keys.\<close>

lemma prepared_norn_snapshot_verifies:
  assumes "prepare_norn_snapshot lib sign issuer_file now plan_file h np = Ret n"
  shows "verify_norn_snapshot lib issuer_file (Ret (JObj n)) = Ret ()"
proof -
  obtain plan n0 where b: "build_norn_snapshot now plan np = Ret n0" "sign_snapshot lib sign issuer_file n0 = Ret n"
    using assms by (auto simp: prepare_norn_snapshot_def)
  then have "validate_norn_snapshot_shape n0 = Ret ()" by (auto simp: build_norn_snapshot_def Let_def)
  then show ?thesis using sign_snapshot_Ret[OF b(2)] by (auto simp: verify_norn_snapshot_def signed_shape)
qed

lemma prepared_external_snapshot_verifies:
  assumes "prepare_external_snapshot lib sign issuer_file now plan_file h xp = Ret x"
  shows "verify_external_snapshot lib issuer_file (Ret (JObj x)) = Ret ()"
proof -
  obtain plan x0 where b: "build_external_snapshot now plan xp = Ret x0" "sign_snapshot lib sign issuer_file x0 = Ret x"
    using assms by (auto simp: prepare_external_snapshot_def)
  then have "validate_external_snapshot_shape x0 = Ret ()" by (auto simp: build_external_snapshot_def Let_def)
  then show ?thesis using sign_snapshot_Ret[OF b(2)] by (auto simp: verify_external_snapshot_def signed_shape)
qed

end
