(* ===== verification/PlanExamples.thy ===== *)
theory PlanExamples
  imports PlanRuns RegistrySnapshot Publisher
begin

text \<open>
  A plan of one entry that is applied to a freshly deployed contract, phase by phase, and the smaller runs at which the
  properties of the publication tool are applied to concrete inputs.
\<close>

section \<open>Running a phase step by step\<close>

lemma evidence_any:
  assumes "transaction_evidence r role operation t = Ret e"
  shows "\<exists>e'. transaction_evidence r role' operation' t' = Ret e' \<and> jitem e' ''transaction_hash'' = Ret (jget0 e ''transaction_hash'')"
  using assms by (auto simp: transaction_evidence_def Let_def jitem_def)

lemma write_step:
  assumes "registry_fn op' = Ret f" and "transact cfg nd env f (pu_chain s) = (Ret r, c')"
    and "transaction_evidence (map (\<lambda>(k, v). (k, receipt_value v)) r) role operation t = Ret e" and "pu_journal s = None"
  shows "write_and_record (web3_plan_registry cfg nd env) op' role operation (Ret t) s = (Ret [JObj e], s\<lparr>pu_chain := c'\<rparr>)"
  using assms by (simp add: write_and_record_def bindS_def on_chain_def zoomS_def web3_plan_registry_def web3_write_def record_receipt_def
      del: bind_res_eq_Inr split: prod.splits)

section \<open>A plan and its run\<close>

definition demo_state_root :: bytes where "demo_state_root = replicate 32 9"
definition demo_anchor_hash :: bytes where "demo_anchor_hash = replicate 32 4"
definition demo_endpoint_key :: bytes where "demo_endpoint_key = replicate 32 5"

definition demo_entry :: jdict where
  "demo_entry = [(''server_id'', JStr ''r1''), (''resolver_id_key'', JStr (hex32 demo_key)), (''object_hash'', JStr (hex32 demo_anchor_hash)),
     (''object_version'', JInt 1), (''valid_until'', JInt 1800000000), (''status'', JStr ''ACTIVE''),
     (''endpoint_keys'', JArr [JStr (hex32 demo_endpoint_key)])]"

definition demo_plan :: jdict where
  "demo_plan = [(''root_version'', JInt 1), (''state_root'', JStr (hex32 demo_state_root)), (''entries'', JArr [JObj demo_entry]),
     (''endpoint_unbinds'', JArr []), (''resolver_revocations'', JArr [])]"

definition demo_contract_node :: "(contract \<times> bool) web3_node" where
  "demo_contract_node = contract_node demo_keccak (\<lambda>_. demo_msg) 1"

definition demo_registry :: "(contract \<times> bool) plan_registry" where
  "demo_registry = web3_plan_registry demo_web3_config demo_contract_node demo_signer"

definition demo_transact :: "contract_fn \<Rightarrow> (contract \<times> bool, receipt) op" where
  "demo_transact = transact demo_web3_config demo_contract_node demo_signer"

definition evidenced :: "receipt res \<Rightarrow> bool" where
  "evidenced r = (case r of Inl _ \<Rightarrow> False
     | Inr x \<Rightarrow> (case transaction_evidence (map (\<lambda>(k, v). (k, receipt_value v)) x) [] [] JNull of Inl _ \<Rightarrow> False
         | Inr e \<Rightarrow> (case jget0 e ''transaction_hash'' of JStr _ \<Rightarrow> True | _ \<Rightarrow> False)))"

lemma demo_chain_run:
  "(case contract_constructor demo_keccak demo_msg 1 of Inl _ \<Rightarrow> False | Inr c \<Rightarrow>
     let (r1, c1) = demo_transact (FnPublishRoot demo_state_root 1) (c, False);
         (r2, c2) = demo_transact (FnPublishResolver demo_key demo_anchor_hash demo_state_root 1 1800000000 1) c1;
         (r3, c3) = demo_transact (FnBindEndpoint demo_endpoint_key demo_key) c2
     in evidenced r1 \<and> evidenced r2 \<and> evidenced r3 \<and>
       rr_state_root (ct_roots c demo_state_root) = ZERO32 \<and> rr_status (ct_roots (fst c1) demo_state_root) = ACTIVE \<and>
       ra_object_version (ct_anchors (fst c1) demo_key) = 0 \<and>
       ct_anchors (fst c2) demo_key = \<lparr>ra_resolver_id_key = demo_key, ra_object_hash = demo_anchor_hash, ra_state_root = demo_state_root, ra_object_version = 1,
         ra_valid_until = 1800000000, ra_status = ACTIVE\<rparr> \<and>
       ct_endpoints (fst c2) demo_endpoint_key = ZERO32)"
  by code_simp

lemma demo_node: "runs_contract demo_contract_node demo_keccak fst" "reads_roots demo_contract_node fst"
  by (simp_all add: demo_contract_node_def contract_node_runs)

interpretation demo_plan: plan_backend demo_registry demo_keccak fst
  unfolding demo_registry_def by (rule web3_plan_backend[OF demo_node])

lemma demo_chain:
  obtains c r1 c1 r2 c2 r3 c3 where "contract_ok (fst (c, False))" and "contract_ok (fst c1)" and "contract_ok (fst c2)" and "contract_ok (fst c3)"
    and "demo_transact (FnPublishRoot demo_state_root 1) (c, False) = (Ret r1, c1)"
    and "demo_transact (FnPublishResolver demo_key demo_anchor_hash demo_state_root 1 1800000000 1) c1 = (Ret r2, c2)"
    and "demo_transact (FnBindEndpoint demo_endpoint_key demo_key) c2 = (Ret r3, c3)"
    and "evidenced (Ret r1)" and "evidenced (Ret r2)" and "evidenced (Ret r3)"
    and "rr_state_root (ct_roots c demo_state_root) = ZERO32" and "rr_status (ct_roots (fst c1) demo_state_root) = ACTIVE"
    and "ra_object_version (ct_anchors (fst c1) demo_key) = 0"
    and "ct_anchors (fst c2) demo_key = \<lparr>ra_resolver_id_key = demo_key, ra_object_hash = demo_anchor_hash, ra_state_root = demo_state_root, ra_object_version = 1,
         ra_valid_until = 1800000000, ra_status = ACTIVE\<rparr>"
    and "ct_endpoints (fst c2) demo_endpoint_key = ZERO32"
proof -
  obtain c where c: "contract_constructor demo_keccak demo_msg 1 = Ret c" using demo_chain_run by (cases "contract_constructor demo_keccak demo_msg 1") simp_all
  obtain o1 c1 where t1: "demo_transact (FnPublishRoot demo_state_root 1) (c, False) = (o1, c1)" by (rule prod.exhaust)
  obtain o2 c2 where t2: "demo_transact (FnPublishResolver demo_key demo_anchor_hash demo_state_root 1 1800000000 1) c1 = (o2, c2)" by (rule prod.exhaust)
  obtain o3 c3 where t3: "demo_transact (FnBindEndpoint demo_endpoint_key demo_key) c2 = (o3, c3)" by (rule prod.exhaust)
  note run = demo_chain_run[unfolded c sum.case t1 prod.case Let_def t2 t3]
  then obtain r1 r2 r3 where r: "o1 = Ret r1" "o2 = Ret r2" "o3 = Ret r3" by (cases o1; cases o2; cases o3) (simp_all add: evidenced_def)
  have "contract_ok c" using fresh_same[OF c] by (simp add: same_registry_def contract_ok_def)
  then have ok0: "contract_ok (fst (c, False))" by simp
  note step = demo_plan.executed_ok[OF transact_executes[OF demo_node(1)]]
  note ok1 = step[OF t1[unfolded demo_transact_def r] ok0]
  note ok2 = step[OF t2[unfolded demo_transact_def r] ok1]
  note ok3 = step[OF t3[unfolded demo_transact_def r] ok2]
  show thesis using run by (intro that[OF ok0 ok1 ok2 ok3 t1[unfolded r] t2[unfolded r] t3[unfolded r]]) (simp_all add: r)
qed

lemma demo_lengths [simp]: "length demo_state_root = 32" "length demo_anchor_hash = 32" "length demo_endpoint_key = 32" "length demo_key = 32"
  by (simp_all add: demo_state_root_def demo_anchor_hash_def demo_endpoint_key_def demo_key_def)

lemma demo_write_step:
  assumes "registry_fn op' = Ret f" and "demo_transact f (pu_chain s) = (Ret r, c')" and "evidenced (Ret r)" and "pu_journal s = None"
  shows "\<exists>e. write_and_record demo_registry op' role operation (Ret t) s = (Ret [JObj e], s\<lparr>pu_chain := c'\<rparr>)"
proof -
  obtain e where "transaction_evidence (map (\<lambda>(k, v). (k, receipt_value v)) r) [] [] JNull = Ret e"
    using assms(3) by (auto simp: evidenced_def split: sum.splits)
  then obtain e' where "transaction_evidence (map (\<lambda>(k, v). (k, receipt_value v)) r) role operation t = Ret e'" using evidence_any by blast
  then show ?thesis using write_step[OF assms(1) assms(2)[unfolded demo_transact_def] _ assms(4)] unfolding demo_registry_def by blast
qed

lemma demo_fns:
  "registry_fn (OpPublishRoot (hex32 demo_state_root) ''ACTIVE'' 1) = Ret (FnPublishRoot demo_state_root 1)"
  "registry_fn (OpPublishResolver (hex32 demo_key) (hex32 demo_anchor_hash) (hex32 demo_state_root) 1 1800000000 (JStr ''ACTIVE'')) =
     Ret (FnPublishResolver demo_key demo_anchor_hash demo_state_root 1 1800000000 1)"
  "registry_fn (OpBindEndpoint (hex32 demo_endpoint_key) (hex32 demo_key)) = Ret (FnBindEndpoint demo_endpoint_key demo_key)"
proof -
  have "py_upper ''ACTIVE'' = ''ACTIVE''" "encode_status (JStr ''ACTIVE'') = Ret 1" by code_simp+
  then show "registry_fn (OpPublishRoot (hex32 demo_state_root) ''ACTIVE'' 1) = Ret (FnPublishRoot demo_state_root 1)"
    "registry_fn (OpPublishResolver (hex32 demo_key) (hex32 demo_anchor_hash) (hex32 demo_state_root) 1 1800000000 (JStr ''ACTIVE'')) =
       Ret (FnPublishResolver demo_key demo_anchor_hash demo_state_root 1 1800000000 1)"
    "registry_fn (OpBindEndpoint (hex32 demo_endpoint_key) (hex32 demo_key)) = Ret (FnBindEndpoint demo_endpoint_key demo_key)"
    by (simp_all add: anchor_args_def)
qed

lemma demo_plan_fields:
  "jitem demo_plan ''root_version'' = Ret (JInt 1)" "jitem demo_plan ''state_root'' = Ret (JStr (hex32 demo_state_root))"
  "jitem demo_plan ''entries'' = Ret (JArr [JObj demo_entry])" "jitem demo_plan ''endpoint_unbinds'' = Ret (JArr [])"
  "jitem demo_plan ''resolver_revocations'' = Ret (JArr [])"
  by (simp_all add: demo_plan_def jitem_def)

lemma demo_entry_fields:
  "jitem demo_entry ''server_id'' = Ret (JStr ''r1'')"
  "jitem demo_entry ''resolver_id_key'' = Ret (JStr (hex32 demo_key))" "jitem demo_entry ''object_hash'' = Ret (JStr (hex32 demo_anchor_hash))"
  "jitem demo_entry ''object_version'' = Ret (JInt 1)" "jitem demo_entry ''valid_until'' = Ret (JInt 1800000000)"
  "jitem demo_entry ''status'' = Ret (JStr ''ACTIVE'')"
  "jitem demo_entry ''endpoint_keys'' = Ret (JArr [JStr (hex32 demo_endpoint_key)])"
  by (simp_all add: demo_entry_def jitem_def)

lemma demo_plan_members:
  "members (JObj demo_plan) ''entries'' = [JObj demo_entry]" "members (JObj demo_plan) ''endpoint_unbinds'' = []" "members (JObj demo_plan) ''resolver_revocations'' = []"
  "members (JObj demo_entry) ''endpoint_keys'' = [JStr (hex32 demo_endpoint_key)]"
  "member (JObj demo_plan) ''state_root'' = JStr (hex32 demo_state_root)" "member (JObj demo_entry) ''resolver_id_key'' = JStr (hex32 demo_key)"
  "member (JObj demo_entry) ''object_hash'' = JStr (hex32 demo_anchor_hash)" "member (JObj demo_entry) ''status'' = JStr ''ACTIVE''"
  by (simp_all add: members_def member_def demo_plan_fields demo_entry_fields)

lemma demo_plan_ok: "plan_canonical demo_plan" "plan_keys_apart demo_plan" "entries_canonical demo_plan"
  by (simp_all add: plan_canonical_def plan_keys_apart_def entries_canonical_def demo_plan_members canonical_text_def text_key_def)

lemma demo_phases:
  obtains s s1 s2 s3 r1 r2 r3 where "contract_ok (fst (pu_chain s))" and "contract_ok (fst (pu_chain s1))" and "contract_ok (fst (pu_chain s2))"
    and "publish_root demo_registry demo_plan s = (Ret [r1], s1)" and "publish_resolvers demo_registry demo_plan s1 = (Ret [r2], s2)"
    and "unbind_endpoints demo_registry demo_plan s2 = (Ret [], s2)" and "bind_endpoints demo_registry demo_plan s2 = (Ret [r3], s3)"
    and "revoke_removed_resolvers demo_registry demo_plan s3 = (Ret [], s3)"
proof -
  obtain c r1 c1 r2 c2 r3 c3 where ok: "contract_ok (fst (c, False))" "contract_ok (fst c1)" "contract_ok (fst c2)" "contract_ok (fst c3)"
    and t: "demo_transact (FnPublishRoot demo_state_root 1) (c, False) = (Ret r1, c1)"
      "demo_transact (FnPublishResolver demo_key demo_anchor_hash demo_state_root 1 1800000000 1) c1 = (Ret r2, c2)"
      "demo_transact (FnBindEndpoint demo_endpoint_key demo_key) c2 = (Ret r3, c3)"
    and ev: "evidenced (Ret r1)" "evidenced (Ret r2)" "evidenced (Ret r3)"
    and see: "rr_state_root (ct_roots c demo_state_root) = ZERO32" "rr_status (ct_roots (fst c1) demo_state_root) = ACTIVE"
      "ra_object_version (ct_anchors (fst c1) demo_key) = 0"
      "ct_anchors (fst c2) demo_key = \<lparr>ra_resolver_id_key = demo_key, ra_object_hash = demo_anchor_hash, ra_state_root = demo_state_root, ra_object_version = 1,
         ra_valid_until = 1800000000, ra_status = ACTIVE\<rparr>"
      "ct_endpoints (fst c2) demo_endpoint_key = ZERO32"
    by (rule demo_chain)
  define s :: "(contract \<times> bool) publication" where "s = \<lparr>pu_chain = (c, False), pu_journal = None, pu_file = None\<rparr>"
  define s1 where "s1 = s\<lparr>pu_chain := c1\<rparr>"
  define s2 where "s2 = s\<lparr>pu_chain := c2\<rparr>"
  define s3 where "s3 = s\<lparr>pu_chain := c3\<rparr>"
  have chain: "pu_chain s = (c, False)" "pu_chain s1 = c1" "pu_chain s2 = c2" "pu_journal s = None" "pu_journal s1 = None" "pu_journal s2 = None"
      "s\<lparr>pu_chain := c1\<rparr> = s1" "s1\<lparr>pu_chain := c2\<rparr> = s2" "s2\<lparr>pu_chain := c3\<rparr> = s3"
    by (simp_all add: s_def s1_def s2_def s3_def)
  have t': "demo_transact (FnPublishRoot demo_state_root 1) (pu_chain s) = (Ret r1, c1)"
      "demo_transact (FnPublishResolver demo_key demo_anchor_hash demo_state_root 1 1800000000 1) (pu_chain s1) = (Ret r2, c2)"
      "demo_transact (FnBindEndpoint demo_endpoint_key demo_key) (pu_chain s2) = (Ret r3, c3)"
    using t chain(1-3) by simp_all
  obtain e1 where w1: "write_and_record demo_registry (OpPublishRoot (hex32 demo_state_root) ''ACTIVE'' 1) ''ROOT_PUBLISHER_ROLE'' ''publish-root'' (Ret (JStr (hex32 demo_state_root))) s =
      (Ret [JObj e1], s1)"
    using demo_write_step[OF demo_fns(1) t'(1) ev(1)] chain(4-9) by metis
  obtain e2 where w2: "write_and_record demo_registry (OpPublishResolver (hex32 demo_key) (hex32 demo_anchor_hash) (hex32 demo_state_root) 1 1800000000 (JStr ''ACTIVE''))
      ''RESOLVER_PUBLISHER_ROLE'' ''publish-resolver'' (Ret (JStr ''r1'')) s1 = (Ret [JObj e2], s2)"
    using demo_write_step[OF demo_fns(2) t'(2) ev(2)] chain(4-9) by metis
  obtain e3 where w3: "write_and_record demo_registry (OpBindEndpoint (hex32 demo_endpoint_key) (hex32 demo_key)) ''ENDPOINT_MANAGER_ROLE'' ''bind-endpoint''
      (Ret (JStr (hex32 demo_endpoint_key))) s2 = (Ret [JObj e3], s3)"
    using demo_write_step[OF demo_fns(3) t'(3) ev(3)] chain(4-9) by metis
  have "publish_root demo_registry demo_plan s = (Ret [JObj e1], s1)"
    using demo_plan.record_law[OF ok(1), of demo_state_root] see(1) w1
    by (simp add: publish_root_def plan_root_def plan_root_version_def demo_plan_fields bindS_def chain_read_def chain Let_def del: bind_res_eq_Inr)
  moreover have "publish_resolvers demo_registry demo_plan s1 = (Ret [JObj e2], s2)"
    using demo_plan.status_law[OF ok(2), of demo_state_root] demo_plan.anchor_law[OF ok(2), of demo_key] see(2,3) w2
    by (simp add: publish_resolvers_def publish_entry_def entry_arguments_def item_text_def item_int_def plan_items_def plan_root_def demo_plan_fields demo_entry_fields
        bindS_def chain_read_def chain Let_def del: bind_res_eq_Inr)
  moreover have "bind_endpoints demo_registry demo_plan s2 = (Ret [JObj e3], s3)"
    using demo_plan.binding_law[OF ok(3), of demo_endpoint_key] demo_plan.anchor_law[OF ok(3), of demo_key] see(4,5) w3
    by (simp add: bind_endpoints_def bind_entry_def bind_one_def item_text_def plan_items_def demo_plan_fields demo_entry_fields anchor_row_def
        bindS_def chain_read_def chain Let_def del: bind_res_eq_Inr)
  moreover have "unbind_endpoints demo_registry demo_plan s2 = (Ret [], s2)" "revoke_removed_resolvers demo_registry demo_plan s3 = (Ret [], s3)"
    by (simp_all add: unbind_endpoints_def revoke_removed_resolvers_def plan_items_def demo_plan_fields bindS_def)
  moreover have "contract_ok (fst (pu_chain s))" "contract_ok (fst (pu_chain s1))" "contract_ok (fst (pu_chain s2))" using ok chain by simp_all
  ultimately show thesis by (intro that)
qed

section \<open>The properties at the example\<close>

theorem applied_plan_authorizes_witness:
  "\<exists>s s'. run_phases demo_registry demo_plan ALL_PHASES s = (Ret (), s') \<and>
     authorizes (web3_view demo_contract_node (pu_chain s')) (hex32 demo_endpoint_key) (hex32 demo_key) (hex32 demo_anchor_hash) 1 (hex32 demo_state_root)"
proof -
  obtain s s1 s2 s3 r1 r2 r3 where ok: "contract_ok (fst (pu_chain s))"
    and p: "publish_root demo_registry demo_plan s = (Ret [r1], s1)" "publish_resolvers demo_registry demo_plan s1 = (Ret [r2], s2)"
      "unbind_endpoints demo_registry demo_plan s2 = (Ret [], s2)" "bind_endpoints demo_registry demo_plan s2 = (Ret [r3], s3)"
      "revoke_removed_resolvers demo_registry demo_plan s3 = (Ret [], s3)"
    by (rule demo_phases)
  have run: "run_phases demo_registry demo_plan ALL_PHASES s = (Ret (), s3)" using p by (simp add: ALL_PHASES_def seqS_def bindS_def)
  from applied_plan_authorizes[OF demo_node ok demo_plan_ok(1,2) run[unfolded demo_registry_def]]
  have "authorizes (web3_view demo_contract_node (pu_chain s3)) (hex32 demo_endpoint_key) (hex32 demo_key) (hex32 demo_anchor_hash) 1 (hex32 demo_state_root)"
    by (simp add: demo_plan_members demo_plan_fields demo_entry_fields item_int_def)
  then show ?thesis using run by blast
qed

theorem phase_again_writes_nothing_witness:
  "\<exists>s s' r. run_phase demo_registry demo_plan BindPhase s = (Ret [r], s') \<and> run_phase demo_registry demo_plan BindPhase s' = (Ret [], s')"
proof -
  obtain s2 s3 r3 where ok: "contract_ok (fst (pu_chain s2))" and p: "bind_endpoints demo_registry demo_plan s2 = (Ret [r3], s3)"
    by (rule demo_phases)
  have run: "run_phase demo_registry demo_plan BindPhase s2 = (Ret [r3], s3)" using p by simp
  then have "run_phase demo_registry demo_plan BindPhase s3 = (Ret [], s3)"
    unfolding demo_registry_def by (rule phase_again_writes_nothing[OF demo_node ok demo_plan_ok])
  then show ?thesis using run by blast
qed

lemma write_step_journal:
  assumes "registry_fn op' = Ret f" and "transact cfg nd env f (pu_chain s) = (Ret r, c')"
    and "transaction_evidence (map (\<lambda>(k, v). (k, receipt_value v)) r) role operation t = Ret e"
    and "jitem e ''transaction_hash'' = Ret (JStr h)" and "pu_journal s = Some j" and "rj_transactions j = []"
  shows "\<exists>s'. write_and_record (web3_plan_registry cfg nd env) op' role operation (Ret t) s = (Ret [JObj e], s')"
  using assms by (simp add: write_and_record_def bindS_def on_chain_def zoomS_def web3_plan_registry_def web3_write_def record_receipt_def journal_entered_def
      seqS_def modS_def getS_def liftS_def del: bind_res_eq_Inr split: prod.splits)


section \<open>A built plan\<close>

definition demo_address :: string where "demo_address = ''0x'' @ replicate 40 CHR ''1''"
definition demo_code_hash :: string where "demo_code_hash = ''0x'' @ replicate 64 CHR ''1''"

definition demo_identity :: jdict where
  "demo_identity = [(''schema_version'', JStr ''dns-server-identity-v2''), (''server_id'', JStr ''r1''), (''role'', JStr ''AUTHORITATIVE''),
     (''operator_id'', JStr ''op''), (''issuer'', JStr ''op''), (''key_id'', JStr ''k1''), (''status'', JStr ''ACTIVE''), (''object_version'', JInt 3),
     (''valid_from'', JInt 1700000000), (''valid_until'', JInt 1800000000), (''endpoints'', JArr [JObj (endpoint_to_dict demo_endpoint)])]"

definition demo_target :: jdict where
  "demo_target = [(''chain_id'', JInt 1), (''contract_address'', JStr demo_address), (''contract_code_hash'', JStr demo_code_hash)]"

lemma demo_nonzero: "nonzero_hex (replicate 40 CHR ''1'') 40" "nonzero_hex (replicate 64 CHR ''1'') 64"
proof -
  have "py_int16 (replicate 40 CHR ''1'') = Ret (int (nat_of_hex (replicate 40 CHR ''1'')))" by (rule py_int16_hex[OF ones_hex]) simp
  moreover have "nat_of_hex (replicate 40 CHR ''1'') \<noteq> 0" using nat_of_hex_ones[of 39] by simp
  ultimately show "nonzero_hex (replicate 40 CHR ''1'') 40" by (simp add: nonzero_hex_def)
  have "py_int16 (replicate 64 CHR ''1'') = Ret (int (nat_of_hex (replicate 64 CHR ''1'')))" by (rule py_int16_hex[OF ones_hex]) simp
  moreover have "nat_of_hex (replicate 64 CHR ''1'') \<noteq> 0" using nat_of_hex_ones[of 63] by simp
  ultimately show "nonzero_hex (replicate 64 CHR ''1'') 64" by (simp add: nonzero_hex_def)
qed

lemma demo_target: "normalize_plan_target (JInt 1) (JStr demo_address) (JStr demo_code_hash) = Ret demo_target"
proof -
  have "py_lower demo_address = demo_address" "py_lower demo_code_hash = demo_code_hash" by code_simp+
  moreover have "length demo_address = 42" "starts_with demo_address ''0x''" "drop 2 demo_address = replicate 40 CHR ''1''" by (simp_all add: demo_address_def)
  moreover have "length demo_code_hash = 66" "starts_with demo_code_hash ''0x''" "drop 2 demo_code_hash = replicate 64 CHR ''1''" by (simp_all add: demo_code_hash_def)
  ultimately show ?thesis using demo_nonzero by (simp add: normalize_plan_target_def Let_def demo_target_def)
qed

lemma demo_endpoint_key: "endpoint_key_of (JObj (endpoint_to_dict demo_endpoint)) = Ret (sha256_hex_str (binding_text demo_endpoint))"
  using endpoint_stable_roundtrip[OF demo_endpoint_stable] demo_key by (simp add: endpoint_key_of_def del: bind_res_eq_Inr)

lemma demo_plan_entry: "\<exists>e. plan_entry demo_identity = Ret e \<and> jitem e ''server_id'' = Ret (JStr ''r1'') \<and> jitem e ''resolver_id_key'' = Ret (JStr (resolver_id_key ''r1'')) \<and>
   jitem e ''endpoint_keys'' = Ret (JArr [JStr (sha256_hex_str (binding_text demo_endpoint))]) \<and> (\<exists>l. jitem e ''leaf_hash'' = Ret (JStr l))"
  by (simp add: plan_entry_def demo_identity_def jitem_def demo_endpoint_key Let_def del: bind_res_eq_Inr)

lemma demo_build: "\<exists>plan e. build_plan [demo_identity] 1 (JInt 1) (JStr demo_address) (JStr demo_code_hash) None = Ret plan \<and> plan_entry demo_identity = Ret e \<and>
   jget0 plan ''entries'' = JArr [JObj e] \<and> jitem plan ''target'' = Ret (JObj demo_target) \<and> jitem plan ''root_version'' = Ret (JInt 1) \<and>
   (\<exists>h. jitem plan ''plan_hash'' = Ret h)"
proof -
  obtain e l where e: "plan_entry demo_identity = Ret e" "jitem e ''leaf_hash'' = Ret (JStr l)" "jitem e ''server_id'' = Ret (JStr ''r1'')"
    using demo_plan_entry by blast
  have "jitem demo_identity ''server_id'' = Ret (JStr ''r1'')" by (simp add: demo_identity_def jitem_def)
  then have "sort_by_text (\<lambda>i. bind_res (jitem i ''server_id'') as_str) [demo_identity] = Ret [demo_identity]" by (simp add: sort_by_text_def)
  moreover have "by_server_id [JObj e] = Ret [(''r1'', JObj e)]" using e(3) by (simp add: by_server_id_def item_text_def)
  moreover have "merkle_root [l] = Ret (py_lower l)" by (simp add: merkle_root_def merkle_reduce.simps)
  ultimately have b: "build_plan [demo_identity] 1 (JInt 1) (JStr demo_address) (JStr demo_code_hash) None =
      Ret (with_plan_hash (plan_body demo_target JNull 1 (py_lower l) [e] []))"
    using e by (simp add: build_plan_def demo_target refuse_def check_previous_plan_def previous_entries_of_def del: bind_res_eq_Inr)
  show ?thesis
    by (rule exI, rule exI[of _ e], rule conjI[OF b]) (use e(1) in \<open>simp add: with_plan_hash_def plan_body_def jitem_def\<close>)
qed

theorem built_plan_loads_witness:
  "\<exists>plan h. build_plan [demo_identity] 1 (JInt 1) (JStr demo_address) (JStr demo_code_hash) None = Ret plan \<and>
     dict_get plan ''plan_hash'' = Some (JStr h) \<and> load_plan (JObj plan) h = Ret plan"
proof -
  obtain plan where b: "build_plan [demo_identity] 1 (JInt 1) (JStr demo_address) (JStr demo_code_hash) None = Ret plan" using demo_build by blast
  from built_plan_loads[OF b] obtain h where h: "dict_get plan ''plan_hash'' = Some (JStr h)" "load_previous_plan (JObj plan) = Ret plan" by blast
  then have "load_plan (JObj plan) h = Ret plan" by (simp add: load_previous_plan_def jget_def)
  then show ?thesis using b h by blast
qed

theorem built_plan_canonical_witness:
  "\<exists>plan. build_plan [demo_identity] 1 (JInt 1) (JStr demo_address) (JStr demo_code_hash) None = Ret plan \<and> plan_canonical plan"
proof -
  obtain plan where b: "build_plan [demo_identity] 1 (JInt 1) (JStr demo_address) (JStr demo_code_hash) None = Ret plan" using demo_build by blast
  then show ?thesis using built_plan_canonical[OF b] by blast
qed

theorem approved_hash_names_one_plan_witness:
  "\<exists>f f' h p p'. f \<noteq> f' \<and> load_plan f h = Ret p \<and> load_plan f' h = Ret p' \<and>
     (sort_keys (strip_signature (JObj (dict_pop p ''plan_hash''))) = sort_keys (strip_signature (JObj (dict_pop p' ''plan_hash''))) \<or>
      sha256_collision {canonical_json_bytes (JObj (dict_pop p ''plan_hash'')), canonical_json_bytes (JObj (dict_pop p' ''plan_hash''))})"
proof -
  let ?body = "plan_body demo_target JNull 1 [] [] []"
  let ?f = "JObj (with_plan_hash ?body)" and ?f' = "JObj ((''plan_hash'', JStr (object_hash ?body)) # ?body)"
  have l: "load_plan ?f (object_hash ?body) = Ret (with_plan_hash ?body)"
    by (rule load_own_plan[OF _ _ _ demo_target]) (simp_all add: plan_body_def is_jarr_def object_hash_def)
  have "load_plan ?f' (object_hash ?body) = load_plan ?f (object_hash ?body)"
    by (simp add: load_plan_def with_plan_hash_def plan_body_def dict_pop_def jget_def del: bind_res_eq_Inr)
  then have l': "load_plan ?f' (object_hash ?body) = Ret (with_plan_hash ?body)" unfolding l .
  have "?f \<noteq> ?f'" by (simp add: with_plan_hash_def plan_body_def)
  then show ?thesis using l l' approved_hash_names_one_plan[OF l l' refl] by blast
qed


section \<open>Loaded identities\<close>

definition demo_issuer_file :: json where
  "demo_issuer_file = JObj [(''keys'', JArr [JObj [(''issuer'', JStr ''op''), (''key_id'', JStr ''k1''), (''algorithm'', JStr ''Ed25519''),
     (''public_key'', JStr (b64encode (replicate 32 7)))]])]"

definition demo_issuers :: key_registry where
  "demo_issuers = [((JStr ''op'', JStr ''k1''), \<lparr>ik_issuer = JStr ''op'', ik_key_id = JStr ''k1'', ik_algorithm = JStr ''Ed25519'',
     ik_public_key = JStr (b64encode (replicate 32 7))\<rparr>)]"

definition demo_signed :: jdict where
  "demo_signed = dict_set demo_identity ''signature'' (JStr (sign_object_ed25519_key demo_ed25519 demo_identity (replicate 32 7)))"

lemma demo_issuers: "registry_from_file demo_issuer_file = Ret demo_issuers"
  unfolding demo_issuer_file_def demo_issuers_def by code_simp

text \<open>Whatever is signed with the demonstration key verifies under the demonstration issuers.\<close>

lemma demo_signature:
  assumes "jget d ''issuer'' (JStr []) = JStr ''op''" and "jget d ''key_id'' (JStr []) = JStr ''k1''"
  shows "verify_object_signature_with_registry demo_ed25519 (dict_set d ''signature'' (JStr (sign_object_ed25519_key demo_ed25519 d (replicate 32 7))))
    (Some demo_issuers) None = Ret True"
proof -
  have sk: "ed_private_ok demo_ed25519 (replicate 32 7)" "ed_public demo_ed25519 (replicate 32 7) = replicate 32 7" by (simp_all add: demo_ed25519_def)
  have pre: "starts_with (sign_object_ed25519_key demo_ed25519 d (replicate 32 7)) ED25519_PREFIX" by (simp add: sign_object_ed25519_key_def)
  have "py_lower ''Ed25519'' = ''ed25519''" by code_simp
  then show ?thesis
    using ed25519_check_signed[OF demo_ed25519_correct sk(1), of d] pre prefixes_apart[OF pre] sk(2) assms
    by (simp add: verify_object_signature_with_registry_def registry_get_def demo_issuers_def)
qed

lemma demo_texts: "py_strip ''r1'' \<noteq> []" "py_strip ''op'' \<noteq> []" "py_strip ''k1'' \<noteq> []" "py_strip ''chain'' \<noteq> []" "driver_char CHR ''k''" "driver_char CHR ''n''" "driver_char CHR ''o''" "driver_char CHR ''t''"
  by code_simp+

lemma demo_signed_valid: "validate_identity demo_ed25519 demo_issuers demo_signed = Ret ()"
proof -
  have "verify_object_signature_with_registry demo_ed25519 demo_signed (Some demo_issuers) None = Ret True"
    unfolding demo_signed_def by (rule demo_signature) (simp_all add: demo_identity_def jget_def)
  moreover have "validate_identity_structure demo_signed = Ret ()"
    by (simp add: validate_identity_structure_def demo_signed_def demo_identity_def refuse_def text_field_def int_field_def jget_def IDENTITY_ROLES_def
        demo_endpoint_key demo_texts del: bind_res_eq_Inr)
  ultimately show ?thesis by (simp add: validate_identity_def refuse_def)
qed

theorem loaded_identities_sound_witness:
  "load_identities demo_ed25519 (Ret (JObj [(''identities'', JArr [JObj demo_signed])])) (Ret demo_issuer_file) = Ret [demo_signed] \<and>
   verify_object_signature_with_registry demo_ed25519 demo_signed (Some demo_issuers) None = Ret True"
proof -
  have f: "jitem demo_signed ''server_id'' = Ret (JStr ''r1'')" "jitem demo_signed ''endpoints'' = Ret (JArr [JObj (endpoint_to_dict demo_endpoint)])"
    by (simp_all add: demo_signed_def demo_identity_def jitem_def)
  have l: "load_identities demo_ed25519 (Ret (JObj [(''identities'', JArr [JObj demo_signed])])) (Ret demo_issuer_file) = Ret [demo_signed]"
    by (simp add: load_identities_def demo_issuers demo_signed_valid f demo_endpoint_key Let_def del: bind_res_eq_Inr)
  from loaded_identities_sound[OF l] show ?thesis using l demo_issuers by auto
qed

section \<open>Snapshots\<close>

definition demo_norn :: norn_parameters where
  "demo_norn = \<lparr>np_chain_id = 1, np_genesis_block_hash = demo_code_hash, np_registry_address = demo_address, np_registry_key = ''chain'', np_snapshot_version = 1,
     np_checkpoint_height = 1, np_checkpoint_hash = demo_code_hash, np_valid_until = 1800000000, np_issuer = ''op'', np_key_id = ''k1''\<rparr>"

definition demo_external :: external_parameters where
  "demo_external = \<lparr>ep_driver = ''knot'', ep_chain_identity = ''chain'', ep_registry_locator = ''chain'', ep_registry_schema_hash = demo_code_hash, ep_generation = 1,
     ep_checkpoint_height = 1, ep_checkpoint_hash = demo_code_hash, ep_valid_until = 1800000000, ep_issuer = ''op'', ep_key_id = ''k1''\<rparr>"

lemma demo_hex: "normalize_fixed_hex (JStr demo_code_hash) 32 = Ret demo_code_hash" "normalize_fixed_hex (JStr demo_address) 20 = Ret demo_address"
  "demo_code_hash \<noteq> CHR ''0'' # CHR ''x'' # replicate 64 CHR ''0''"
  by code_simp+

definition demo_snapshot_entry :: jdict where
  "demo_snapshot_entry = [(''server_id'', JStr ''r1''), (''resolver_id_key'', JStr (resolver_id_key ''r1'')), (''object_hash'', JStr (object_hash demo_identity)),
      (''object_version'', JInt 3), (''valid_until'', JInt 1800000000), (''status'', JStr ''ACTIVE''),
      (''endpoint_keys'', JArr [JStr (sha256_hex_str (binding_text demo_endpoint))])]"

lemma demo_check_entry: "check_snapshot_entries {} [JObj demo_snapshot_entry] = Ret [''r1'']"
proof -
  have "normalize_fixed_hex (JStr (sha256_hex_str m)) 32 = Ret (sha256_hex_str m)" for m by (rule digest_fixed_hex) (simp add: digest_sha)
  moreover have "normalize_fixed_hex (JStr (object_hash demo_identity)) 32 = Ret (object_hash demo_identity)" unfolding object_hash_def by (rule digest_fixed_hex[OF digest_sha])
  moreover from calculation(1) have "normalize_fixed_hex (JStr (resolver_id_key t)) 32 = Ret (resolver_id_key t)" for t by (simp only: resolver_id_key_def)
  ultimately show ?thesis
    by (simp add: check_snapshot_entry_def demo_snapshot_entry_def SNAPSHOT_FIELDS_def refuse_def text_field_def at_most_def int_field_def jget_def is_jarr_def duplicates_def
        Let_def insert_commute del: bind_res_eq_Inr)
qed

lemma demo_snapshot_entries:
  assumes "build_plan [demo_identity] 1 (JInt 1) (JStr demo_address) (JStr demo_code_hash) None = Ret plan" and "plan_entry demo_identity = Ret e"
    and "jget0 plan ''entries'' = JArr [JObj e]"
  shows "snapshot_entries plan = Ret [JObj demo_snapshot_entry]"
proof -
  have e: "e = demo_snapshot_entry @ [(''leaf_hash'', JStr (merkle_leaf (resolver_id_key ''r1'') (object_hash demo_identity) 3 ''ACTIVE''))]"
    using assms(2) by (simp add: plan_entry_def demo_identity_def demo_snapshot_entry_def jitem_def demo_endpoint_key Let_def del: bind_res_eq_Inr)
  have "jitem plan ''entries'' = Ret (JArr [JObj e])" using assms(3) by (simp add: jget_def jitem_def split: option.splits)
  moreover have "item_text (JObj e) ''server_id'' = Ret ''r1''" by (simp add: item_text_def jitem_def e demo_snapshot_entry_def)
  moreover have "snapshot_entry (JObj e) = Ret (JObj demo_snapshot_entry)"
    by (simp add: e snapshot_entry_def SNAPSHOT_FIELDS_def jitem_def demo_snapshot_entry_def del: bind_res_eq_Inr)
  ultimately show ?thesis by (simp add: snapshot_entries_def sort_by_text_def del: bind_res_eq_Inr)
qed

lemma demo_snapshots:
  obtains plan h n x where "build_plan [demo_identity] 1 (JInt 1) (JStr demo_address) (JStr demo_code_hash) None = Ret plan" and "load_plan (JObj plan) h = Ret plan"
    and "build_norn_snapshot 1700000000 plan demo_norn = Ret n" and "build_external_snapshot 1700000000 plan demo_external = Ret x"
    and "validate_external_snapshot_shape x = Ret ()" and "jget n ''issuer'' (JStr []) = JStr ''op''" and "jget n ''key_id'' (JStr []) = JStr ''k1''"
    and "jget x ''issuer'' (JStr []) = JStr ''op''" and "jget x ''key_id'' (JStr []) = JStr ''k1''"
proof -
  obtain plan e where p: "build_plan [demo_identity] 1 (JInt 1) (JStr demo_address) (JStr demo_code_hash) None = Ret plan" "plan_entry demo_identity = Ret e"
    "jget0 plan ''entries'' = JArr [JObj e]"
    using demo_build by blast
  note es = demo_snapshot_entries[OF p]
  obtain r where r: "jitem plan ''state_root'' = Ret (JStr r)" "normalize_fixed_hex (JStr r) 32 = Ret r" using snapshot_entries_of_plan[OF p(1)] by blast
  obtain target previous_hash state_root entries removals where b: "normalize_plan_target (JInt 1) (JStr demo_address) (JStr demo_code_hash) = Ret target"
    "plan = with_plan_hash (plan_body target previous_hash 1 state_root entries removals)"
    using build_plan_Ret[OF p(1)] by metis
  let ?b = "plan_body target previous_hash 1 state_root entries removals"
  have l: "load_plan (JObj plan) (object_hash ?b) = Ret plan"
    unfolding b(2) by (rule load_own_plan[OF _ _ _ b(1)]) (simp_all add: plan_body_def is_jarr_def object_hash_def)
  have sid: "json_item (JObj demo_snapshot_entry) ''server_id'' = Ret (JStr ''r1'')" by (simp add: demo_snapshot_entry_def jitem_def)
  obtain n where n: "build_norn_snapshot 1700000000 plan demo_norn = Ret n" "jget n ''issuer'' (JStr []) = JStr ''op''" "jget n ''key_id'' (JStr []) = JStr ''k1''"
    using es r sid by (simp add: build_norn_snapshot_def demo_norn_def demo_hex validate_norn_snapshot_shape_def refuse_def at_most_def blank_def not_after_def int_field_def
        text_field_def jget_def jitem_def demo_texts sorted_unique_def Let_def del: bind_res_eq_Inr)
  obtain x where x: "build_external_snapshot 1700000000 plan demo_external = Ret x" "jget x ''issuer'' (JStr []) = JStr ''op''" "jget x ''key_id'' (JStr []) = JStr ''k1''"
    using es r demo_check_entry by (simp add: build_external_snapshot_def demo_external_def demo_hex validate_external_snapshot_shape_def validate_external_header_def external_target_def
        json_same_def refuse_def at_most_def blank_def not_after_def int_field_def text_field_def jget_def jitem_def demo_texts Let_def del: bind_res_eq_Inr)
  then have v: "validate_external_snapshot_shape x = Ret ()" by (auto simp: build_external_snapshot_def Let_def)
  show thesis by (rule that[OF p(1) l n(1) x(1) v n(2,3) x(2,3)])
qed

theorem snapshot_root_covers_entries_witness:
  "\<exists>plan s es l. build_external_snapshot 1700000000 plan demo_external = Ret s \<and> jget0 s ''entries'' = JArr [es] \<and> snapshot_leaf es = Ret l \<and>
     (\<exists>r. jget0 s ''state_root'' = JStr r \<and> merkle_root [l] = Ret r)"
proof -
  obtain plan s where p: "build_plan [demo_identity] 1 (JInt 1) (JStr demo_address) (JStr demo_code_hash) None = Ret plan"
    and x: "build_external_snapshot 1700000000 plan demo_external = Ret s"
    by (rule demo_snapshots)
  from snapshot_root_covers_entries[OF p disjI2[OF x]] obtain es leaves r where e: "jget0 s ''entries'' = JArr es" "length es = 1"
    "jget0 s ''state_root'' = JStr r" "map_res snapshot_leaf es = Ret leaves" "merkle_root leaves = Ret r"
    by auto
  then obtain e1 where "es = [e1]" by (auto simp: length_Suc_conv)
  then obtain l where "snapshot_leaf e1 = Ret l" "leaves = [l]" using e(4) by auto
  then show ?thesis using x e(1,3,5) \<open>es = [e1]\<close> by blast
qed

theorem external_snapshot_sound_witness:
  "\<exists>plan s e ks. build_external_snapshot 1700000000 plan demo_external = Ret s \<and> jget0 s ''entries'' = JArr [JObj e] \<and> entry_endpoints e = Ret ks \<and>
     distinct ks \<and> normalize_fixed_hex (jget0 e ''resolver_id_key'') 32 = Ret (resolver_id_key (text_field e ''server_id''))"
proof -
  obtain plan s where p: "build_plan [demo_identity] 1 (JInt 1) (JStr demo_address) (JStr demo_code_hash) None = Ret plan"
    and x: "build_external_snapshot 1700000000 plan demo_external = Ret s" "validate_external_snapshot_shape s = Ret ()"
    by (rule demo_snapshots)
  from external_snapshot_sound[OF x(2)] obtain entries keys where e: "jget0 s ''entries'' = JArr (map JObj entries)" "map_res entry_endpoints entries = Ret keys" "distinct (concat keys)"
    "\<forall>e\<in>set entries. normalize_fixed_hex (jget0 e ''resolver_id_key'') 32 = Ret (resolver_id_key (text_field e ''server_id''))"
    by blast
  obtain es where "snapshot_entries plan = Ret es" "length es = 1" using snapshot_entries_of_plan[OF p] by auto
  then have "length entries = 1" using x(1) e(1) by (auto simp: build_external_snapshot_def Let_def)
  then obtain e1 where "entries = [e1]" by (auto simp: length_Suc_conv)
  then obtain ks where "entry_endpoints e1 = Ret ks" "keys = [ks]" using e(2) by auto
  then show ?thesis using x(1) e \<open>entries = [e1]\<close> by auto
qed

definition demo_sign :: "jdict \<Rightarrow> string res" where
  "demo_sign d = Ret (sign_object_ed25519_key demo_ed25519 d (replicate 32 7))"

lemma demo_sign_snapshot:
  assumes "jget d ''issuer'' (JStr []) = JStr ''op''" and "jget d ''key_id'' (JStr []) = JStr ''k1''"
  shows "\<exists>s. sign_snapshot demo_ed25519 demo_sign (Ret demo_issuer_file) d = Ret s"
  using demo_signature[OF assms] by (simp add: sign_snapshot_def demo_sign_def demo_issuers refuse_def Let_def)

lemma demo_snapshots_verify:
  "\<exists>f h n x. prepare_norn_snapshot demo_ed25519 demo_sign (Ret demo_issuer_file) 1700000000 f h demo_norn = Ret n \<and>
     prepare_external_snapshot demo_ed25519 demo_sign (Ret demo_issuer_file) 1700000000 f h demo_external = Ret x \<and>
     verify_norn_snapshot demo_ed25519 (Ret demo_issuer_file) (Ret (JObj n)) = Ret () \<and>
     verify_external_snapshot demo_ed25519 (Ret demo_issuer_file) (Ret (JObj x)) = Ret ()"
proof -
  obtain plan h n0 x0 where p: "load_plan (JObj plan) h = Ret plan" "build_norn_snapshot 1700000000 plan demo_norn = Ret n0"
    "build_external_snapshot 1700000000 plan demo_external = Ret x0" "jget n0 ''issuer'' (JStr []) = JStr ''op''" "jget n0 ''key_id'' (JStr []) = JStr ''k1''"
    "jget x0 ''issuer'' (JStr []) = JStr ''op''" "jget x0 ''key_id'' (JStr []) = JStr ''k1''"
    by (rule demo_snapshots)
  obtain n x where s: "sign_snapshot demo_ed25519 demo_sign (Ret demo_issuer_file) n0 = Ret n" "sign_snapshot demo_ed25519 demo_sign (Ret demo_issuer_file) x0 = Ret x"
    using demo_sign_snapshot[OF p(4,5)] demo_sign_snapshot[OF p(6,7)] by blast
  have "prepare_norn_snapshot demo_ed25519 demo_sign (Ret demo_issuer_file) 1700000000 (Ret (JObj plan)) h demo_norn = Ret n"
    "prepare_external_snapshot demo_ed25519 demo_sign (Ret demo_issuer_file) 1700000000 (Ret (JObj plan)) h demo_external = Ret x"
    using p(1-3) s by (simp_all add: prepare_norn_snapshot_def prepare_external_snapshot_def del: bind_res_eq_Inr)
  from this prepared_norn_snapshot_verifies[OF this(1)] prepared_external_snapshot_verifies[OF this(2)] show ?thesis by blast
qed

end
