(* ===== verification/NornProbe.thy ===== *)
theory NornProbe
  imports PyBytes
begin

text \<open>
  The readiness probe of a Norn node in \<open>deploy/easy-install/product-kit/common/lifecycle.py\<close>: the answer to
  \<open>GetBlockNumber\<close> is one uncompressed gRPC frame that holds a protobuf message, read field by field; the probe is repeated until
  it succeeds, fails for good, or time is up.  A \<open>_NornProbeError\<close> or \<open>LifecycleError\<close> is a \<open>RuntimeError\<close> with its code.
  The connection itself is not modelled.
\<close>

section \<open>The protobuf reader\<close>

definition NORN_GRPC_INVALID :: pyerr where
  "NORN_GRPC_INVALID = RuntimeError ''NORN_GRPC_INVALID''"

function varint_loop :: "bytes \<Rightarrow> nat \<Rightarrow> nat \<Rightarrow> nat \<Rightarrow> (nat \<times> nat) res" where
  "varint_loop data offset shift val =
     (if offset < length data \<and> shift < 64
      then (let b = data ! offset; val' = val OR push_bit shift (unat (b AND 0x7F)) in
            if b AND 0x80 = 0 then Ret (val', offset + 1) else varint_loop data (offset + 1) (shift + 7) val')
      else Raise NORN_GRPC_INVALID)"
  by pat_completeness auto
termination by (relation "measure (\<lambda>(data, offset, _). length data - offset)") auto

declare varint_loop.simps [simp del]

definition grpc_varint :: "bytes \<Rightarrow> nat \<Rightarrow> (nat \<times> nat) res" where
  "grpc_varint data offset = varint_loop data offset 0 0"

text \<open>One round of the loop over the fields: the block number seen so far, and where the next field begins.\<close>

definition read_field :: "bytes \<Rightarrow> nat \<Rightarrow> nat option \<Rightarrow> (nat option \<times> nat) res" where
  "read_field payload offset number =
     bind_res (grpc_varint payload offset) (\<lambda>(key, offset).
     let field = drop_bit 3 key; wire = key AND 7 in
     bind_res
       (if field = 2 \<and> wire = 0
        then (if number \<noteq> None then Raise NORN_GRPC_INVALID
              else bind_res (grpc_varint payload offset) (\<lambda>(n, offset). Ret (Some n, offset)))
        else if wire = 0 then bind_res (grpc_varint payload offset) (\<lambda>(_, offset). Ret (number, offset))
        else if wire = 1 then Ret (number, offset + 8)
        else if wire = 2 then bind_res (grpc_varint payload offset) (\<lambda>(n, offset). Ret (number, offset + n))
        else if wire = 5 then Ret (number, offset + 4)
        else Raise NORN_GRPC_INVALID) (\<lambda>(number, offset).
     if length payload < offset then Raise NORN_GRPC_INVALID else Ret (number, offset)))"

lemma varint_loop_progress: "varint_loop data offset shift val = Ret (v, offset') \<Longrightarrow> offset < offset' \<and> offset' \<le> length data"
proof (induction data offset shift val rule: varint_loop.induct)
  case (1 data offset shift val)
  show ?case using "1.prems" "1.IH"[OF _ refl refl]
    by (subst (asm) varint_loop.simps) (auto simp: Let_def split: if_splits)
qed

lemma read_field_progress: "read_field payload offset number = Ret (number', offset') \<Longrightarrow> offset < offset' \<and> offset' \<le> length payload"
  by (auto simp: read_field_def grpc_varint_def Let_def split: if_splits dest!: varint_loop_progress)

function read_fields :: "bytes \<Rightarrow> nat \<Rightarrow> nat option \<Rightarrow> nat option res" where
  "read_fields payload offset number =
     (if offset < length payload
      then bind_res (read_field payload offset number) (\<lambda>(number, offset). read_fields payload offset number)
      else Ret number)"
  by pat_completeness auto
termination
  by (relation "measure (\<lambda>(payload, offset, _). length payload - offset)") (auto dest: read_field_progress)

declare read_fields.simps [simp del]

definition validate_norn_block_number :: "bytes \<Rightarrow> unit res" where
  "validate_norn_block_number body =
     (if length body < 5 \<or> body ! 0 \<noteq> 0 then Raise NORN_GRPC_INVALID
      else (let size = int_from_bytes_be (take 4 (drop 1 body)); payload = drop 5 body in
            if size \<noteq> length payload then Raise NORN_GRPC_INVALID
            else bind_res (read_fields payload 0 None) (\<lambda>number.
                 if number = None then Raise NORN_GRPC_INVALID else Ret ())))"

section \<open>The grammar of the answer\<close>

text \<open>A varint: at most ten bytes, of which all but the last have their top bit set; seven bits each, the low ones first.\<close>

fun varint_value :: "bytes \<Rightarrow> nat" where
  "varint_value [] = 0"
| "varint_value (b # bs) = unat b mod 128 + 128 * varint_value bs"

definition is_varint :: "bytes \<Rightarrow> bool" where
  "is_varint bs \<longleftrightarrow> bs \<noteq> [] \<and> length bs \<le> 10 \<and> (\<forall>b\<in>set (butlast bs). 128 \<le> unat b) \<and> unat (last bs) < 128"

text \<open>A field: its key is the number of the field times eight plus the wire type.  Field 2 of wire type 0, with the key 16, is the
  block number.\<close>

inductive pb_field :: "bytes \<Rightarrow> nat option \<Rightarrow> bool" where
  number: "is_varint k \<Longrightarrow> varint_value k = 16 \<Longrightarrow> is_varint v \<Longrightarrow> pb_field (k @ v) (Some (varint_value v))"
| varint: "is_varint k \<Longrightarrow> varint_value k mod 8 = 0 \<Longrightarrow> varint_value k \<noteq> 16 \<Longrightarrow> is_varint v \<Longrightarrow> pb_field (k @ v) None"
| fixed64: "is_varint k \<Longrightarrow> varint_value k mod 8 = 1 \<Longrightarrow> length v = 8 \<Longrightarrow> pb_field (k @ v) None"
| delimited: "is_varint k \<Longrightarrow> varint_value k mod 8 = 2 \<Longrightarrow> is_varint l \<Longrightarrow> length v = varint_value l \<Longrightarrow> pb_field (k @ l @ v) None"
| fixed32: "is_varint k \<Longrightarrow> varint_value k mod 8 = 5 \<Longrightarrow> length v = 4 \<Longrightarrow> pb_field (k @ v) None"

section \<open>Varints\<close>

lemma byte_bits: "unat (b AND 0x7F) = unat b mod 128" "b AND 0x80 = 0 \<longleftrightarrow> unat b < 128" for b :: byte
proof -
  have "\<forall>n\<in>set [0..<256]. unat ((of_nat n :: byte) AND 0x7F) = n mod 128 \<and> ((of_nat n :: byte) AND 0x80 = 0 \<longleftrightarrow> n < 128)" by code_simp
  moreover have "unat b \<in> set [0..<256]" using unat8_less[of b] by simp
  ultimately have "unat ((of_nat (unat b) :: byte) AND 0x7F) = unat b mod 128 \<and> ((of_nat (unat b) :: byte) AND 0x80 = 0 \<longleftrightarrow> unat b < 128)" by blast
  then show "unat (b AND 0x7F) = unat b mod 128" "b AND 0x80 = 0 \<longleftrightarrow> unat b < 128" by simp_all
qed

lemma or_push_bit: "val < 2 ^ n \<Longrightarrow> val OR push_bit n x = val + 2 ^ n * x" for val n x :: nat
proof -
  assume "val < 2 ^ n"
  then have "take_bit n val = val" by (simp add: take_bit_nat_eq_self)
  then have "\<not> bit val i" if "n \<le> i" for i using that by (metis bit_take_bit_iff not_le)
  then have "val OR push_bit n x = val + push_bit n x" by (intro disjunctive_add_eq_or[symmetric] ) (auto simp: bit_simps bit_eq_iff)
  then show ?thesis by (simp add: push_bit_eq_mult mult.commute)
qed

lemma varint_loop_iff:
  assumes "val < 2 ^ (7 * i)"
  shows "varint_loop data offset (7 * i) val = Ret (v, offset') \<longleftrightarrow>
    (\<exists>bs rest. offset \<le> length data \<and> drop offset data = bs @ rest \<and> bs \<noteq> [] \<and> length bs + i \<le> 10 \<and> (\<forall>b\<in>set (butlast bs). 128 \<le> unat b) \<and> unat (last bs) < 128 \<and>
       v = val + 2 ^ (7 * i) * varint_value bs \<and> offset' = offset + length bs)"
  using assms
proof (induction "length data - offset" arbitrary: offset i val)
  case 0
  then show ?case by (subst varint_loop.simps) auto
next
  case (Suc n)
  then have lt: "offset < length data" by simp
  define b where "b = data ! offset"
  have d: "drop offset data = b # drop (Suc offset) data" using lt by (simp add: b_def Cons_nth_drop_Suc)
  let ?val = "val + 2 ^ (7 * i) * (unat b mod 128)"
  have v: "val OR push_bit (7 * i) (unat (b AND 0x7F)) = ?val" using or_push_bit[OF Suc.prems] by (simp add: byte_bits)
  have "?val < 2 ^ (7 * Suc i)"
  proof -
    have "?val < 2 ^ (7 * i) + 2 ^ (7 * i) * (unat b mod 128)" using Suc.prems by simp
    also have "\<dots> = 2 ^ (7 * i) * Suc (unat b mod 128)" by simp
    also have "\<dots> \<le> 2 ^ (7 * i) * 128" by (rule mult_le_mono2) (simp add: Suc_leI)
    finally show ?thesis by (simp add: power_add)
  qed
  note ih = Suc.hyps(1)[OF _ this, of "Suc offset"]
  have step: "varint_loop data offset (7 * i) val = (if i \<le> 9 then if unat b < 128 then Ret (?val, Suc offset) else varint_loop data (Suc offset) (7 * Suc i) ?val else Raise NORN_GRPC_INVALID)"
    using lt v by (subst varint_loop.simps) (auto simp: Let_def b_def[symmetric] byte_bits add.commute[of 7])
  have split: "b # data' = bs @ rest \<and> bs \<noteq> [] \<longleftrightarrow> (\<exists>bs'. bs = b # bs' \<and> data' = bs' @ rest)" for bs rest data' by (cases bs) auto
  show ?case
  proof (cases "i \<le> 9 \<and> 128 \<le> unat b")
    case True
    then have "varint_loop data offset (7 * i) val = Ret (v, offset') \<longleftrightarrow>
      (\<exists>bs rest. drop (Suc offset) data = bs @ rest \<and> bs \<noteq> [] \<and> length bs + Suc i \<le> 10 \<and> (\<forall>b\<in>set (butlast bs). 128 \<le> unat b) \<and> unat (last bs) < 128 \<and>
        v = ?val + 2 ^ (7 * Suc i) * varint_value bs \<and> offset' = Suc offset + length bs)"
      using step ih Suc.hyps(2) lt by auto
    also have "\<dots> \<longleftrightarrow> (\<exists>bs rest. drop (Suc offset) data = bs @ rest \<and> length (b # bs) + i \<le> 10 \<and> (\<forall>b\<in>set (butlast (b # bs)). 128 \<le> unat b) \<and> unat (last (b # bs)) < 128 \<and>
        v = val + 2 ^ (7 * i) * varint_value (b # bs) \<and> offset' = offset + length (b # bs))"
      using True by (intro iff_exI) (auto simp: algebra_simps power_add)
    also have "\<dots> \<longleftrightarrow> (\<exists>bs rest. b # drop (Suc offset) data = bs @ rest \<and> bs \<noteq> [] \<and> length bs + i \<le> 10 \<and> (\<forall>b\<in>set (butlast bs). 128 \<le> unat b) \<and> unat (last bs) < 128 \<and>
        v = val + 2 ^ (7 * i) * varint_value bs \<and> offset' = offset + length bs)"
      unfolding conj_assoc[symmetric] split by blast
    finally show ?thesis using lt d by simp
  next
    case False
    have "(\<exists>bs rest. offset \<le> length data \<and> drop offset data = bs @ rest \<and> bs \<noteq> [] \<and> length bs + i \<le> 10 \<and> (\<forall>b\<in>set (butlast bs). 128 \<le> unat b) \<and> unat (last bs) < 128 \<and>
        v = val + 2 ^ (7 * i) * varint_value bs \<and> offset' = offset + length bs) \<longleftrightarrow> i \<le> 9 \<and> v = ?val \<and> offset' = Suc offset" (is "?l \<longleftrightarrow> ?r")
    proof
      assume ?l
      then obtain bs0 rest where b0: "b # drop (Suc offset) data = bs0 @ rest \<and> bs0 \<noteq> []" "length bs0 + i \<le> 10" "\<forall>c\<in>set (butlast bs0). 128 \<le> unat c"
        "v = val + 2 ^ (7 * i) * varint_value bs0" "offset' = offset + length bs0"
        unfolding d by blast
      obtain bs where "bs0 = b # bs" using iffD1[OF split b0(1)] by blast
      note bs = b0(2-5)[unfolded this]
      then have "bs = []" using False by (cases bs) auto
      then show ?r using bs by simp
    next
      assume ?r
      then show ?l unfolding d using lt False by - (rule exI[of _ "[b]"], rule exI[of _ "drop (Suc offset) data"], simp)
    qed
    moreover have "varint_loop data offset (7 * i) val = (if i \<le> 9 then Ret (?val, Suc offset) else Raise NORN_GRPC_INVALID)"
    proof -
      have aux: "\<not> P \<or> Q \<Longrightarrow> (if P then if Q then x else y else z) = (if P then x else z)" for P Q and x y z :: "(nat \<times> nat) res" by simp
      have "\<not> i \<le> 9 \<or> unat b < 128" using False by linarith
      then show ?thesis unfolding step by (rule aux)
    qed
    moreover have "(if i \<le> 9 then Ret (?val, Suc offset) else Raise NORN_GRPC_INVALID) = Ret (v, offset') \<longleftrightarrow> i \<le> 9 \<and> v = ?val \<and> offset' = Suc offset"
      by auto
    ultimately show ?thesis by (simp only:)
  qed
qed

lemma grpc_varint_iff:
  "grpc_varint data offset = Ret (v, offset') \<longleftrightarrow>
    (\<exists>bs rest. offset \<le> length data \<and> drop offset data = bs @ rest \<and> is_varint bs \<and> v = varint_value bs \<and> offset' = offset + length bs)"
  using varint_loop_iff[of 0 0 data offset v offset'] by (simp add: grpc_varint_def is_varint_def)

lemma grpc_varint_at:
  "is_varint k \<Longrightarrow> drop offset data = k @ rest \<Longrightarrow> offset \<le> length data \<Longrightarrow> grpc_varint data offset = Ret (varint_value k, offset + length k)"
  by (subst grpc_varint_iff) blast

lemma grpc_varint_split:
  assumes "grpc_varint data offset = Ret (v, offset')" and "drop offset data = r"
  obtains k r' where "r = k @ r'" and "is_varint k" and "v = varint_value k" and "offset' = offset + length k" and "drop offset' data = r'" and "offset' \<le> length data"
proof -
  obtain k r' where k: "offset \<le> length data" "drop offset data = k @ r'" "is_varint k" "v = varint_value k" "offset' = offset + length k"
    using assms(1) unfolding grpc_varint_iff by blast
  have "drop offset' data = r'" using k(2,5) by (metis append_eq_conv_conj drop_drop add.commute)
  moreover have "offset' \<le> length data" using k(1,2,5) by (metis add_le_cancel_left append_eq_conv_conj le_add_diff_inverse length_append length_drop le_add1)
  ultimately show thesis using that k(2-5) assms(2) by simp
qed

section \<open>Fields\<close>

lemma key_bits: "key AND 7 = key mod 8" "drop_bit 3 key = key div 8" for key :: nat
proof -
  have "key AND mask 3 = key mod 2 ^ 3" by (simp only: take_bit_eq_mask[symmetric] take_bit_eq_mod)
  then show "key AND 7 = key mod 8" by (simp add: mask_eq_exp_minus_1)
qed (simp add: drop_bit_eq_div)

definition next_number :: "nat option \<Rightarrow> nat option \<Rightarrow> nat option \<Rightarrow> bool" where
  "next_number n number number' \<longleftrightarrow> (if n = None then number' = number else number = None \<and> number' = n)"

lemma read_field_accepts:
  assumes "pb_field f n" and "drop offset payload = f @ rest" and "offset \<le> length payload" and "next_number n number number'"
  shows "read_field payload offset number = Ret (number', offset + length f)"
proof -
  have len: "length f + length rest + offset = length payload" using arg_cong[OF assms(2), of length] assms(3) by simp
  have drop2: "drop (offset + length k) payload = r" if "f @ rest = k @ r" for k r using assms(2) that by (metis append_eq_conv_conj drop_drop add.commute)
  have second: "grpc_varint payload (offset + length k) = Ret (varint_value v, offset + length k + length v)" if "is_varint v" "f @ rest = k @ v @ r" for k v r
    using grpc_varint_at[OF that(1) drop2[OF that(2)]] len arg_cong[OF that(2), of length] by simp
  have div: "a div 8 \<noteq> 2" if "a mod 8 = 0" "a \<noteq> 16" for a :: nat using that by presburger
  show ?thesis
    using assms(1)
  proof cases
    case (number k v)
    then show ?thesis using assms(2-4) grpc_varint_at[of k offset payload "v @ rest"] second[of v k rest] len
      by (simp add: read_field_def key_bits next_number_def)
  next
    case (varint k v)
    then show ?thesis using assms(2-4) grpc_varint_at[of k offset payload "v @ rest"] second[of v k rest] len div[of "varint_value k"]
      by (simp add: read_field_def key_bits next_number_def)
  next
    case (fixed64 k v)
    then show ?thesis using assms(2-4) grpc_varint_at[of k offset payload "v @ rest"] len by (simp add: read_field_def key_bits next_number_def)
  next
    case (delimited k l v)
    then show ?thesis using assms(2-4) grpc_varint_at[of k offset payload "l @ v @ rest"] second[of l k "v @ rest"] len
      by (simp add: read_field_def key_bits next_number_def)
  next
    case (fixed32 k v)
    then show ?thesis using assms(2-4) grpc_varint_at[of k offset payload "v @ rest"] len by (simp add: read_field_def key_bits next_number_def)
  qed
qed

lemma read_field_only:
  assumes "read_field payload offset number = Ret (number', offset')"
  shows "\<exists>f rest n. drop offset payload = f @ rest \<and> pb_field f n \<and> offset' = offset + length f \<and> next_number n number number'"
proof -
  obtain key o1 where k: "grpc_varint payload offset = Ret (key, o1)" using assms by (auto simp: read_field_def)
  note run = assms[unfolded read_field_def k bind_res_simps prod.case Let_def key_bits]
  obtain kb r where kb: "drop offset payload = kb @ r" "is_varint kb" "key = varint_value kb" "o1 = offset + length kb" "drop o1 payload = r" "o1 \<le> length payload"
    by (rule grpc_varint_split[OF k refl])
  have take: "\<exists>v rest. r = v @ rest \<and> length v = m" if "o1 + m \<le> length payload" for m
    using that kb(5,6) by (intro exI[of _ "take m r"] exI[of _ "drop m r"]) auto
  consider "key mod 8 = 0" | "key mod 8 = 1" | "key mod 8 = 2" | "key mod 8 = 5" using run by (auto split: if_splits)
  then show ?thesis
  proof cases
    case 1
    then obtain n where n: "grpc_varint payload o1 = Ret (n, offset')" "if key = 16 then number = None \<and> number' = Some n else number' = number"
      using run by (cases "key div 8 = 2") (auto split: if_splits prod.splits)
    obtain v rest where v: "r = v @ rest" "is_varint v" "n = varint_value v" "offset' = o1 + length v" by (rule grpc_varint_split[OF n(1) kb(5)])
    have "pb_field (kb @ v) (if key = 16 then Some n else None)" using kb(2,3) v(2,3) 1 by (auto intro: pb_field.intros)
    then show ?thesis using kb v n(2) by - (rule exI[of _ "kb @ v"], rule exI[of _ rest], rule exI[of _ "if key = 16 then Some n else None"], auto simp: next_number_def split: if_splits)
  next
    case 2
    then have "offset' = o1 + 8" "number' = number" "o1 + 8 \<le> length payload" using run by (auto split: if_splits)
    moreover then obtain v rest where "r = v @ rest" "length v = 8" using take by blast
    ultimately show ?thesis using kb 2 pb_field.fixed64[of kb v] by - (rule exI[of _ "kb @ v"], rule exI[of _ rest], rule exI[of _ None], auto simp: next_number_def)
  next
    case 3
    then obtain n o2 where n: "grpc_varint payload o1 = Ret (n, o2)" "offset' = o2 + n" "number' = number" "o2 + n \<le> length payload"
      using run by (auto split: if_splits prod.splits)
    obtain l r2 where l: "r = l @ r2" "is_varint l" "n = varint_value l" "o2 = o1 + length l" "drop o2 payload = r2" by (rule grpc_varint_split[OF n(1) kb(5)])
    have "pb_field (kb @ l @ take n r2) None" using kb(2,3) l n(4) 3 by (intro pb_field.delimited) auto
    then show ?thesis using kb l n by - (rule exI[of _ "kb @ l @ take n r2"], rule exI[of _ "drop n r2"], rule exI[of _ None], auto simp: next_number_def)
  next
    case 4
    then have "offset' = o1 + 4" "number' = number" "o1 + 4 \<le> length payload" using run by (auto split: if_splits)
    moreover then obtain v rest where "r = v @ rest" "length v = 4" using take by blast
    ultimately show ?thesis using kb 4 pb_field.fixed32[of kb v] by - (rule exI[of _ "kb @ v"], rule exI[of _ rest], rule exI[of _ None], auto simp: next_number_def)
  qed
qed

definition opt_list :: "'a option \<Rightarrow> 'a list" where
  "opt_list x = (case x of None \<Rightarrow> [] | Some y \<Rightarrow> [y])"

lemma opt_list_simps [simp]: "opt_list None = []" "opt_list (Some x) = [x]"
  by (simp_all add: opt_list_def)

lemma next_number_list: "next_number n number number' \<longleftrightarrow> opt_list number @ opt_list n = opt_list number'"
  by (cases n; cases number; cases number') (auto simp: next_number_def)

lemma pb_field_nonempty: "pb_field f n \<Longrightarrow> f \<noteq> []"
  by (auto elim!: pb_field.cases simp: is_varint_def)

lemma read_fields_only:
  assumes "read_fields payload offset number = Ret number'" and "offset \<le> length payload"
  shows "\<exists>fs ns. drop offset payload = concat fs \<and> list_all2 pb_field fs ns \<and> opt_list number @ concat (map opt_list ns) = opt_list number'"
  using assms
proof (induction payload offset number rule: read_fields.induct)
  case (1 payload offset number)
  show ?case
  proof (cases "offset < length payload")
    case True
    obtain n1 o1 where r: "read_field payload offset number = Ret (n1, o1)" "read_fields payload o1 n1 = Ret number'"
      using "1.prems"(1) True by (subst (asm) read_fields.simps) auto
    obtain f rest n where f: "drop offset payload = f @ rest" "pb_field f n" "o1 = offset + length f" "next_number n number n1"
      using read_field_only[OF r(1)] by blast
    have le: "o1 \<le> length payload" using read_field_progress[OF r(1)] by simp
    obtain fs ns where fs: "drop o1 payload = concat fs" "list_all2 pb_field fs ns" "opt_list n1 @ concat (map opt_list ns) = opt_list number'"
      using "1.IH"[OF True r(1) refl r(2) le] by blast
    have "drop o1 payload = rest" using f(1,3) by (metis append_eq_conv_conj drop_drop add.commute)
    then have "drop offset payload = concat (f # fs)" using f(1) fs(1) by simp
    moreover have "opt_list number @ concat (map opt_list (n # ns)) = opt_list number'" using f(4) fs(3) by (simp add: next_number_list flip: append_assoc)
    ultimately show ?thesis using f(2) fs(2) by (intro exI[of _ "f # fs"] exI[of _ "n # ns"]) simp
  next
    case False
    then have "number' = number" using "1.prems"(1) by (subst (asm) read_fields.simps) simp
    then show ?thesis using False by (intro exI[of _ "[]"]) simp
  qed
qed

lemma read_fields_accepts:
  assumes "list_all2 pb_field fs ns" and "drop offset payload = concat fs" and "offset \<le> length payload" and "opt_list number @ concat (map opt_list ns) = opt_list number'"
  shows "read_fields payload offset number = Ret number'"
  using assms
proof (induction fs ns arbitrary: offset number rule: list_all2_induct)
  case Nil
  then have "number' = number" "\<not> offset < length payload" by (auto simp: opt_list_def split: option.splits)
  then show ?case by (subst read_fields.simps) simp
next
  case (Cons f fs n ns)
  have "\<exists>n1. next_number n number n1 \<and> opt_list n1 @ concat (map opt_list ns) = opt_list number'"
    using Cons.prems(3) by (cases number; cases n; cases number') (auto simp: next_number_list intro: exI[of _ None] exI[of _ "Some _"])
  then obtain n1 where n1: "next_number n number n1" "opt_list n1 @ concat (map opt_list ns) = opt_list number'" by blast
  have r: "read_field payload offset number = Ret (n1, offset + length f)"
    by (rule read_field_accepts[OF Cons.hyps(1) _ Cons.prems(2) n1(1)]) (use Cons.prems(1) in simp)
  have "drop (offset + length f) payload = concat fs" using Cons.prems(1) by (metis append_eq_conv_conj concat.simps(2) drop_drop add.commute)
  then have "read_fields payload (offset + length f) n1 = Ret number'" using Cons.IH n1(2) read_field_progress[OF r] by blast
  moreover have "offset < length payload" using read_field_progress[OF r] by linarith
  ultimately show ?case using r by (subst read_fields.simps) simp
qed

text \<open>C37. The probe accepts exactly the well-formed answers: one uncompressed frame whose length is that of its payload, where the
  payload is a sequence of protobuf fields of known wire types with nothing left over, and exactly one of them is a block
  number.\<close>

theorem norn_answer_grammar:
  "validate_norn_block_number body = Ret () \<longleftrightarrow>
    (\<exists>a b c d payload fs ns number. body = 0 # a # b # c # d # payload \<and> int_from_bytes_be [a, b, c, d] = length payload \<and>
       payload = concat fs \<and> list_all2 pb_field fs ns \<and> concat (map opt_list ns) = [number])" (is "?l \<longleftrightarrow> ?r")
proof
  assume l: ?l
  then have "5 \<le> length body" "body ! 0 = 0" by (auto simp: validate_norn_block_number_def split: if_splits)
  then obtain a b c d payload where b: "body = 0 # a # b # c # d # payload"
    by (auto simp: numeral_eq_Suc Suc_le_length_iff)
  then obtain number where n: "int_from_bytes_be [a, b, c, d] = length payload" "read_fields payload 0 None = Ret (Some number)"
    using l by (auto simp: validate_norn_block_number_def split: if_splits)
  show ?r using read_fields_only[OF n(2)] b n(1) by auto
next
  assume ?r
  then obtain a b c d payload fs ns number where r: "body = 0 # a # b # c # d # payload" "int_from_bytes_be [a, b, c, d] = length payload"
    "payload = concat fs" "list_all2 pb_field fs ns" "concat (map opt_list ns) = [number]" by blast
  have "read_fields payload 0 None = Ret (Some number)" by (rule read_fields_accepts[OF r(4)]) (use r(3,5) in simp_all)
  then show ?l using r(1,2) by (simp add: validate_norn_block_number_def)
qed

theorem norn_answer_grammar_example: "validate_norn_block_number [0, 0, 0, 0, 4, 0x10, 0x96, 0x01, 0x08] = Raise NORN_GRPC_INVALID \<and>
   validate_norn_block_number [0, 0, 0, 0, 3, 0x10, 0x96, 0x01] = Ret ()"
  by code_simp

section \<open>Waiting for readiness\<close>

text \<open>What a probe may raise: a \<open>_NornProbeError\<close> with its code and whether it may be tried again, or any other exception, which is
  not caught.\<close>

datatype probe_failure = NornProbeError string bool | OtherFailure pyerr

text \<open>\<open>_wait_readiness\<close>.  The readings of the monotonic clock and the outcomes of the probes come from outside, numbered by the
  round of the loop; the reading before the loop sets the deadline.  \<open>None\<close> means that the loop does not end.\<close>

partial_function (option) wait_loop ::
  "(nat \<Rightarrow> int) \<Rightarrow> (nat \<Rightarrow> probe_failure + bool) \<Rightarrow> int \<Rightarrow> nat \<Rightarrow> string option \<Rightarrow> unit res option" where
  "wait_loop clock probe deadline round last_code =
     (if clock round < deadline
      then (case probe round of
              Inr ready \<Rightarrow> if ready then Some (Ret ()) else wait_loop clock probe deadline (Suc round) last_code
            | Inl (OtherFailure e) \<Rightarrow> Some (Raise e)
            | Inl (NornProbeError code retryable) \<Rightarrow>
                if retryable then wait_loop clock probe deadline (Suc round) (Some code) else Some (Raise (RuntimeError code)))
      else Some (Raise (RuntimeError (case last_code of None \<Rightarrow> ''RUN002'' | Some code \<Rightarrow> code))))"

definition wait_readiness :: "int \<Rightarrow> (nat \<Rightarrow> int) \<Rightarrow> int \<Rightarrow> (nat \<Rightarrow> probe_failure + bool) \<Rightarrow> unit res option" where
  "wait_readiness start clock timeout_seconds probe = wait_loop clock probe (start + timeout_seconds) 0 None"

text \<open>The probe of a round lets the loop go on.\<close>

definition goes_on :: "probe_failure + bool \<Rightarrow> bool" where
  "goes_on outcome \<longleftrightarrow> outcome = Inr False \<or> (\<exists>code. outcome = Inl (NornProbeError code True))"

lemma wait_loop_stops:
  assumes "deadline \<le> clock (round + n)"
  shows "\<exists>r. wait_loop clock probe deadline round last_code = Some r"
  using assms
proof (induction n arbitrary: round last_code)
  case 0
  then show ?case by (subst wait_loop.simps) simp
next
  case (Suc n)
  then have "\<exists>r. wait_loop clock probe deadline (Suc round) c = Some r" for c by simp
  then show ?case by (subst wait_loop.simps) (auto split: sum.splits probe_failure.splits bool.splits)
qed

lemma wait_loop_ready:
  assumes "deadline \<le> clock (round + n)"
  shows "wait_loop clock probe deadline round last_code = Some (Ret ()) \<longleftrightarrow>
    (\<exists>k\<ge>round. probe k = Inr True \<and> (\<forall>j. round \<le> j \<and> j \<le> k \<longrightarrow> clock j < deadline) \<and> (\<forall>j. round \<le> j \<and> j < k \<longrightarrow> goes_on (probe j)))"
  using assms
proof (induction n arbitrary: round last_code)
  case 0
  then have "wait_loop clock probe deadline round last_code \<noteq> Some (Ret ())" by (subst wait_loop.simps) simp
  moreover have "\<not> clock round < deadline" using 0 by simp
  ultimately show ?case by auto
next
  case (Suc n)
  then have ih: "wait_loop clock probe deadline (Suc round) c = Some (Ret ()) \<longleftrightarrow>
    (\<exists>k\<ge>Suc round. probe k = Inr True \<and> (\<forall>j. Suc round \<le> j \<and> j \<le> k \<longrightarrow> clock j < deadline) \<and> (\<forall>j. Suc round \<le> j \<and> j < k \<longrightarrow> goes_on (probe j)))" for c
    by simp
  have "wait_loop clock probe deadline round last_code = Some (Ret ()) \<longleftrightarrow> clock round < deadline \<and> (probe round = Inr True \<or>
      goes_on (probe round) \<and> (\<exists>c. wait_loop clock probe deadline (Suc round) c = Some (Ret ())))"
    by (subst wait_loop.simps) (auto simp: goes_on_def ih split: sum.splits probe_failure.splits)
  also have "\<dots> \<longleftrightarrow> (\<exists>k\<ge>round. probe k = Inr True \<and> (\<forall>j. round \<le> j \<and> j \<le> k \<longrightarrow> clock j < deadline) \<and> (\<forall>j. round \<le> j \<and> j < k \<longrightarrow> goes_on (probe j)))"
    (is "?l \<longleftrightarrow> ?r")
  proof
    assume ?l
    then show ?r
    proof (elim conjE disjE exE)
      assume "clock round < deadline" "probe round = Inr True"
      then show ?r by (intro exI[of _ round]) (auto dest: le_antisym)
    next
      fix c assume a: "clock round < deadline" "goes_on (probe round)" "wait_loop clock probe deadline (Suc round) c = Some (Ret ())"
      then obtain k where k: "Suc round \<le> k" "probe k = Inr True" "\<forall>j. Suc round \<le> j \<and> j \<le> k \<longrightarrow> clock j < deadline" "\<forall>j. Suc round \<le> j \<and> j < k \<longrightarrow> goes_on (probe j)"
        using ih by blast
      have cases_j: "j = round \<or> Suc round \<le> j" if "round \<le> j" for j using that by linarith
      have "\<forall>j. round \<le> j \<and> j \<le> k \<longrightarrow> clock j < deadline" "\<forall>j. round \<le> j \<and> j < k \<longrightarrow> goes_on (probe j)" using k a(1,2) cases_j by blast+
      then show ?r using k(1,2) Suc_leD by blast
    qed
  next
    assume ?r
    then obtain k where k: "round \<le> k" "probe k = Inr True" "\<forall>j. round \<le> j \<and> j \<le> k \<longrightarrow> clock j < deadline" "\<forall>j. round \<le> j \<and> j < k \<longrightarrow> goes_on (probe j)" by blast
    show ?l
    proof (cases "k = round")
      case True
      then show ?thesis using k by auto
    next
      case False
      then have "wait_loop clock probe deadline (Suc round) None = Some (Ret ())" using k unfolding ih by (intro exI[of _ k]) auto
      then show ?thesis using k False by auto
    qed
  qed
  finally show ?case .
qed

text \<open>C38. Waiting for readiness ends: when the clock advances by a second or more in every round, as \<open>sleep(1)\<close> makes it, the loop
  returns or raises, whatever the probes do; and it returns exactly when a probe succeeds in a round before the deadline and
  all probes before it only asked to be tried again.\<close>

theorem waiting_ends:
  assumes "start \<le> clock 0" and "\<And>k. clock k + 1 \<le> clock (Suc k)"
  shows "\<exists>r. wait_readiness start clock timeout_seconds probe = Some r \<and>
    (r = Ret () \<longleftrightarrow> (\<exists>k. probe k = Inr True \<and> clock k < start + timeout_seconds \<and> (\<forall>j<k. goes_on (probe j))))"
proof -
  have mono: "clock j + int n \<le> clock (j + n)" for j n
  proof (induction n)
    case (Suc n)
    then show ?case using assms(2)[of "j + n"] by simp
  qed simp
  have "start + timeout_seconds \<le> clock (0 + nat timeout_seconds)" using mono[of 0 "nat timeout_seconds"] assms(1) by (simp split: if_splits)
  note stops = wait_loop_stops[where clock = clock and round = 0 and n = "nat timeout_seconds" and probe = probe and last_code = None, OF this]
    and ready = wait_loop_ready[where clock = clock and round = 0 and n = "nat timeout_seconds" and probe = probe and last_code = None, OF this]
  have "(\<forall>j\<le>k. clock j < d) \<longleftrightarrow> clock k < d" for k d
  proof -
    have "clock j \<le> clock k" if "j \<le> k" for j using mono[of j "k - j"] that by simp
    then show ?thesis by (meson le_less_trans order_refl)
  qed
  then show ?thesis using stops ready unfolding wait_readiness_def by auto
qed

theorem waiting_ends_witness:
  "wait_readiness 100 (\<lambda>k. 100 + 2 * int k) 60 (\<lambda>k. if k < 3 then Inl (NornProbeError ''NORN_CONNECTION'' True) else Inr True) = Some (Ret ())"
proof -
  obtain r where r: "wait_readiness 100 (\<lambda>k. 100 + 2 * int k) 60 (\<lambda>k. if k < 3 then Inl (NornProbeError ''NORN_CONNECTION'' True) else Inr True) = Some r"
    "r = Ret () \<longleftrightarrow> (\<exists>k. (if k < 3 then Inl (NornProbeError ''NORN_CONNECTION'' True) else Inr True) = Inr True \<and> 100 + 2 * int k < 100 + 60 \<and>
      (\<forall>j<k. goes_on (if j < 3 then Inl (NornProbeError ''NORN_CONNECTION'' True) else Inr True)))"
    using waiting_ends[of 100 "\<lambda>k. 100 + 2 * int k" 60 "\<lambda>k. if k < 3 then Inl (NornProbeError ''NORN_CONNECTION'' True) else Inr True"] by auto
  have "r = Ret ()" unfolding r(2) by (intro exI[of _ 3]) (simp add: goes_on_def)
  then show ?thesis using r(1) by simp
qed

end
