(* ===== verification/HostConfig.thy ===== *)
theory HostConfig
  imports Settings
begin

text \<open>
  The configuration of an installed host, \<open>deploy/easy-install/product-kit/common/lifecycle.py\<close>: host names, the \<open>.env\<close> file, the
  rules it has to keep for a role, and the redaction of what leaves the host in a support bundle.  A \<open>LifecycleError\<close> is a
  \<open>RuntimeError\<close> with its code.  The names and addresses of the host are arguments, as are the texts of files.
\<close>

definition die :: "string \<Rightarrow> 'a res" where "die code = Raise (RuntimeError code)"

section \<open>Roles and host names\<close>

datatype role = Management | NornA | NornB | R1 | R2 | R3

fun role_text :: "role \<Rightarrow> string" where
  "role_text Management = ''management''" | "role_text NornA = ''norn-a''" | "role_text NornB = ''norn-b''"
| "role_text R1 = ''r1''" | "role_text R2 = ''r2''" | "role_text R3 = ''r3''"

definition norn_role :: "role \<Rightarrow> bool" where "norn_role r = (r \<in> {NornA, NornB})"
definition resolver_role :: "role \<Rightarrow> bool" where "resolver_role r = (r \<in> {R1, R2, R3})"

definition is_lower_alnum :: "char \<Rightarrow> bool" where
  "is_lower_alnum c = (let n = of_char c :: nat in (97 \<le> n \<and> n \<le> 122) \<or> (48 \<le> n \<and> n \<le> 57))"

definition strip_dots :: "string \<Rightarrow> string" where
  "strip_dots s = rstrip_while (\<lambda>c. c = CHR ''.'') s"

definition safe_host :: "string \<Rightarrow> string res" where
  "safe_host s = (let normalized = strip_dots (py_lower (py_strip s)) in
     if normalized \<noteq> [] \<and> is_lower_alnum (hd normalized) \<and> length normalized \<le> 253 \<and>
        list_all (\<lambda>c. is_lower_alnum c \<or> c = CHR ''.'' \<or> c = CHR ''-'') normalized
     then Ret normalized else die ''HOST000'')"

text \<open>\<open>local\<close> are the names of the running host, \<open>actual_names\<close> those that a caller gives; an empty list counts as none.\<close>

definition host_matches :: "string list \<Rightarrow> string \<Rightarrow> string list \<Rightarrow> bool res" where
  "host_matches local_names expected actual_names =
     bind_res (safe_host expected) (\<lambda>e.
     bind_res (map_res safe_host (if actual_names = [] then local_names else actual_names)) (\<lambda>names.
     let all_names = (if CHR ''.'' \<notin> set e then names @ map (\<lambda>n. takeWhile (\<lambda>c. c \<noteq> CHR ''.'') n) names else names) in
     Ret (e \<in> set all_names)))"

section \<open>The environment file\<close>

definition is_line_break :: "char \<Rightarrow> bool" where
  "is_line_break c = (let n = of_char c :: nat in (10 \<le> n \<and> n \<le> 13) \<or> (28 \<le> n \<and> n \<le> 30) \<or> n = 133)"

function py_splitlines :: "string \<Rightarrow> string list" where
  "py_splitlines [] = []"
| "py_splitlines (c # s) =
     (let l = takeWhile (\<lambda>x. \<not> is_line_break x) (c # s); r = dropWhile (\<lambda>x. \<not> is_line_break x) (c # s) in
      l # py_splitlines (if take 2 r = [CHR 0x0D, CHR 0x0A] then drop 2 r else drop 1 r))"
  by pat_completeness auto
termination
proof (relation "measure length")
  fix c s l r
  assume "r = dropWhile (\<lambda>x. \<not> is_line_break x) (c # s)"
  then have "length r \<le> length (c # s)" by (simp only: length_dropWhile_le)
  then show "(if take 2 r = [CHR 0x0D, CHR 0x0A] then drop 2 r else drop 1 r, c # s) \<in> measure length"
    by (cases r) auto
qed simp

declare py_splitlines.simps [simp del]

fun text_contains :: "string \<Rightarrow> string \<Rightarrow> bool" where
  "text_contains p [] = (p = [])"
| "text_contains p (c # s) = (starts_with (c # s) p \<or> text_contains p s)"

definition is_env_key :: "string \<Rightarrow> bool" where
  "is_env_key k = (let upper = (\<lambda>c. let n = of_char c :: nat in 65 \<le> n \<and> n \<le> 90) in
     k \<noteq> [] \<and> upper (hd k) \<and> list_all (\<lambda>c. upper c \<or> is_digit c \<or> c = CHR ''_'') k)"

definition strip_quotes :: "string \<Rightarrow> string" where
  "strip_quotes s = (let q = (\<lambda>c. c = CHR 0x27 \<or> c = CHR 0x22) in rstrip_while q (dropWhile q s))"

fun env_lines :: "(string, string) dict \<Rightarrow> string list \<Rightarrow> (string, string) dict res" where
  "env_lines vals [] = Ret vals"
| "env_lines vals (l # ls) =
     (let line = py_strip l; (key, found, val) = partition_at CHR ''='' line in
      if line = [] \<or> starts_with line ''#'' then env_lines vals ls
      else if \<not> found then die ''CFG002''
      else if \<not> is_env_key key then die ''CFG002''
      else if CHR 0x60 \<in> set val \<or> text_contains ''$('' val \<or> CHR 0x0A \<in> set val then die ''CFG002''
      else env_lines (dict_set vals key (strip_quotes val)) ls)"

text \<open>The argument is the text of the file, absent when it is no regular file.\<close>

definition load_env :: "string option \<Rightarrow> (string, string) dict res" where
  "load_env file = (case file of None \<Rightarrow> die ''CFG001'' | Some text \<Rightarrow> env_lines [] (py_splitlines text))"

definition env_get :: "(string, string) dict \<Rightarrow> string \<Rightarrow> string" where
  "env_get env k = (case dict_get env k of None \<Rightarrow> [] | Some v \<Rightarrow> v)"

definition configured_id :: "(string, string) dict \<Rightarrow> string \<Rightarrow> int option res" where
  "configured_id env k = (let v = py_strip (env_get env k) in
     if v = [] then Ret None
     else if \<not> py_isdigit v then die ''CFG006''
     else bind_res (py_int_of_str v) (\<lambda>i. if i \<le> 0 then die ''CFG006'' else Ret (Some i)))"

section \<open>The rules of a role\<close>

definition image_keys :: "role \<Rightarrow> string list" where
  "image_keys r = (case r of Management \<Rightarrow> [''RI_MANAGEMENT_IMAGE'', ''RI_NORN_IMAGE''] | NornA \<Rightarrow> [''RI_NORN_IMAGE'', ''RI_NGINX_IMAGE'']
     | NornB \<Rightarrow> [''RI_NORN_IMAGE'', ''RI_NGINX_IMAGE''] | _ \<Rightarrow> [''RI_IMAGE'', ''RI_KNOT_IMAGE''])"

text \<open>The pattern is a name without blanks and \<open>@\<close>, then \<open>:ri-\<close> and sixteen hexadecimal digits.\<close>

definition pinned_image :: "string \<Rightarrow> bool" where
  "pinned_image v = (let n = length v - 20; name = take n v; tag = drop n v in
     20 < length v \<and> list_all (\<lambda>c. \<not> is_space c \<and> c \<noteq> CHR ''@'') name \<and> take 4 tag = '':ri-'' \<and>
     list_all (\<lambda>c. c \<in> set ''0123456789abcdef'') (drop 4 tag) \<and>
     \<not> text_contains '':latest'' (py_lower v) \<and> \<not> text_contains ''localhost'' (py_lower v) \<and> \<not> text_contains ''127.0.0.1'' v)"

definition validate_images :: "(string, string) dict \<Rightarrow> role \<Rightarrow> unit res" where
  "validate_images env r = (if list_all (\<lambda>k. pinned_image (env_get env k)) (image_keys r) then Ret () else die ''CFG003'')"

text \<open>\<open>SplitResult.port\<close>\<close>

definition url_port :: "url_parts \<Rightarrow> int option res" where
  "url_port u =
     (let hostinfo = after_last_at (u_netloc u); (_, have_open, bracketed) = partition_at CHR ''['' hostinfo;
          (_, _, rest) = partition_at CHR '']'' bracketed;
          (_, _, port) = (if have_open then partition_at CHR '':'' rest else partition_at CHR '':'' hostinfo) in
      if port = [] then Ret None
      else if \<not> list_all is_digit port then Raise (ValueError ''Port could not be cast to integer value'')
      else if 65535 < int (nat_of_dec port) then Raise (ValueError ''Port out of range 0-65535'')
      else Ret (Some (int (nat_of_dec port))))"

definition upstream_host :: "url_parts \<Rightarrow> string" where
  "upstream_host p = strip_dots (py_lower (case url_hostname p of None \<Rightarrow> [] | Some h \<Rightarrow> h))"

definition check_upstream :: "string list \<Rightarrow> string list \<Rightarrow> string \<Rightarrow> string \<Rightarrow> unit res" where
  "check_upstream local_names local_ips bind item =
     bind_res (urlparse (py_strip item)) (\<lambda>p.
     let host = upstream_host p in
     case url_port p of
       Inl _ \<Rightarrow> die ''SEC108''
     | Inr port \<Rightarrow>
         if u_scheme p \<notin> {''udp'', ''tcp''} \<or> host = [] \<or> port = None then die ''SEC108''
         else if host \<in> {''localhost'', ''localhost.localdomain''} \<or> host \<in> set local_names \<or> host \<in> set local_ips then die ''SEC108''
         else if bind \<noteq> [] \<and> host = bind then die ''SEC108''
         else if port = Some 1053 then die ''SEC108''
         else Ret ())"

definition validate_wrapper_upstreams :: "string list \<Rightarrow> string list \<Rightarrow> (string, string) dict \<Rightarrow> unit res" where
  "validate_wrapper_upstreams local_names local_ips env =
     (let raw_text = env_get env ''RI_WRAPPER_UPSTREAMS''; bind = strip_dots (py_lower (py_strip (env_get env ''DNS_BIND_ADDRESS''))) in
      if py_strip raw_text = [] then die ''SEC108''
      else bind_res (map_res (check_upstream (map (\<lambda>n. strip_dots (py_lower n)) local_names) local_ips bind) (split_on CHR '','' raw_text)) (\<lambda>_. Ret ()))"

definition validate_resolver_env :: "(string, string) dict \<Rightarrow> role \<Rightarrow> unit res" where
  "validate_resolver_env env r =
     (let endpoints = split_on CHR '','' (env_get env ''RI_CHAIN_RPC_URLS''); address = env_get env ''RI_MANAGEMENT_BIND_ADDRESS'' in
      if dict_get env ''RI_RESOLVER_ROLE'' \<noteq> Some (if r = R1 then ''first-hop'' else ''upstream'') then die ''SEC103''
      else if dict_get env ''RI_CHAIN_ADAPTER'' \<noteq> Some ''norn'' then die ''SEC104''
      else if length endpoints \<noteq> 2 \<or> \<not> list_all (\<lambda>e. starts_with e ''https://'') endpoints then die ''SEC105''
      else if list_ex (\<lambda>e. text_contains ''localhost'' e \<or> text_contains ''127.0.0.1'' e) endpoints then die ''SEC105''
      else if address \<in> {[], ''0.0.0.0'', ''::'', ''127.0.0.1''} then die ''SEC106''
      else if dict_get env ''RI_TRACE_PRODUCER_UID'' = dict_get env ''RI_KNOT_RESOLVER_UID'' then die ''SEC107''
      else Ret ())"

definition validate_invariants :: "string list \<Rightarrow> string list \<Rightarrow> (string, string) dict \<Rightarrow> role \<Rightarrow> unit res" where
  "validate_invariants local_names local_ips env r =
     bind_res (validate_images env r) (\<lambda>_.
     bind_res (if r = R1 then validate_wrapper_upstreams local_names local_ips env else Ret ()) (\<lambda>_.
     bind_res (if norn_role r
               then (if dict_get env ''RI_NORN_ROLE'' \<noteq> Some (if r = NornA then ''node-a'' else ''node-b'') then die ''SEC101''
                     else if dict_get env ''RI_NORN_NATIVE_BIND_ADDRESS'' \<noteq> Some ''127.0.0.1'' then die ''SEC102''
                     else Ret ())
               else Ret ()) (\<lambda>_.
     if resolver_role r then validate_resolver_env env r else Ret ())))"

section \<open>Redaction\<close>

definition SENSITIVE_WORDS :: "string list" where
  "SENSITIVE_WORDS = [''authorization'', ''cookie'', ''credential'', ''key'', ''password'', ''passwd'', ''secret'', ''token'']"

definition sensitive_name :: "string \<Rightarrow> bool" where
  "sensitive_name k = list_ex (\<lambda>w. text_contains w (py_lower k)) SENSITIVE_WORDS"

text \<open>\<open>redact_value\<close>; \<open>redact_text\<close>, made of regular expressions, is an argument.\<close>

fun redact_value :: "(string \<Rightarrow> string) \<Rightarrow> json \<Rightarrow> string \<Rightarrow> json" where
  "redact_value rt v key =
     (if sensitive_name key then JStr ''[REDACTED]''
      else case v of
        JObj d \<Rightarrow> JObj (map (\<lambda>(k, x). (k, redact_value rt x k)) d)
      | JArr xs \<Rightarrow> JArr (map (\<lambda>x. redact_value rt x []) xs)
      | JStr s \<Rightarrow> JStr (rt s)
      | _ \<Rightarrow> v)"

declare redact_value.simps [simp del]


section \<open>What the checks ensure\<close>

lemma text_contains_append: "text_contains p s \<Longrightarrow> text_contains p (t @ s)"
  by (induction t) auto

lemma starts_with_longer: "starts_with s p \<Longrightarrow> starts_with (s @ t) p"
  by (auto simp: starts_with_iff)

lemma text_contains_prefix: "text_contains p s \<Longrightarrow> text_contains p (s @ t)"
proof (induction s)
  case Nil
  then show ?case by (cases t) auto
next
  case (Cons c s)
  then show ?case using starts_with_longer[of "c # s" p t] by auto
qed

lemma strip_quotes_within: "\<exists>a b. s = a @ strip_quotes s @ b"
proof -
  define q where "q = (\<lambda>c. c = CHR 0x27 \<or> c = CHR 0x22)"
  obtain b where "dropWhile q s = rstrip_while q (dropWhile q s) @ b"
    using rstrip_while_prefix[of "dropWhile q s" q] by blast
  then show ?thesis
    unfolding strip_quotes_def Let_def q_def[symmetric] by (metis takeWhile_dropWhile_id)
qed

lemma strip_quotes_keeps_out: "\<not> text_contains p s \<Longrightarrow> \<not> text_contains p (strip_quotes s)"
  by (metis strip_quotes_within text_contains_append text_contains_prefix)

lemma strip_quotes_chars: "set (strip_quotes s) \<subseteq> set s"
  using strip_quotes_within[of s] by (metis Un_upper1 Un_upper2 order_trans set_append)

definition static_entry :: "string \<times> string \<Rightarrow> bool" where
  "static_entry e = (is_env_key (fst e) \<and> CHR 0x60 \<notin> set (snd e) \<and> CHR 0x0A \<notin> set (snd e) \<and> \<not> text_contains ''$('' (snd e))"

lemma set_dict_set_sub: "set (dict_set d k v) \<subseteq> insert (k, v) (set d)"
  by (induction d) (auto split: if_splits)

lemma env_lines_static: "env_lines env ls = Ret out \<Longrightarrow> list_all static_entry env \<Longrightarrow> list_all static_entry out"
proof (induction env ls rule: env_lines.induct)
  case (2 vals l ls)
  obtain key found v where part: "partition_at CHR ''='' (py_strip l) = (key, found, v)" by (metis prod_cases3)
  show ?case
  proof (cases "py_strip l = [] \<or> starts_with (py_strip l) ''#''")
    case True
    then show ?thesis using 2 part by (auto simp: Let_def)
  next
    case False
    then have ok: "found" "is_env_key key" "CHR 0x60 \<notin> set v" "\<not> text_contains ''$('' v" "CHR 0x0A \<notin> set v"
      and rest: "env_lines (dict_set vals key (strip_quotes v)) ls = Ret out"
      using 2(3) part by (auto simp: Let_def die_def split: if_splits)
    have "static_entry (key, strip_quotes v)"
      using ok strip_quotes_chars[of v] strip_quotes_keeps_out[of "''$(''" v] by (auto simp: static_entry_def)
    then have "list_all static_entry (dict_set vals key (strip_quotes v))"
      using 2(4) set_dict_set_sub[of vals key "strip_quotes v"] by (auto simp: list_all_iff)
    then show ?thesis using 2(2)[OF refl refl part[symmetric] refl False] ok rest by simp
  qed
qed simp

text \<open>The environment file of a host is static text: whatever the file holds, if it is accepted, then every key is a plain name in
  capitals and no value carries a command substitution (a backquote or \<open>$(\<close>) or a line break, also after the quotes around
  it have been removed.\<close>

theorem loaded_env_is_static:
  assumes "load_env file = Ret env"
  shows "list_all static_entry env"
  using assms env_lines_static[of "[]"] by (auto simp: load_env_def die_def split: option.splits)

definition sample_env_file :: string where
  "sample_env_file = ''RI_WRAPPER_UPSTREAMS='' @ [CHR 0x22] @ ''udp://r1.example:53'' @ [CHR 0x22, CHR 0x0A]"

lemma loaded_env_is_static_witness: "list_all static_entry [(''RI_WRAPPER_UPSTREAMS'', ''udp://r1.example:53'')]"
  by (rule loaded_env_is_static[of "Some sample_env_file"]) code_simp

lemma check_upstream_Ret:
  assumes "check_upstream names ips bind item = Ret ()"
  obtains p n where "urlparse (py_strip item) = Ret p" "url_port p = Ret (Some n)" "n \<noteq> 1053" "u_scheme p \<in> {''udp'', ''tcp''}"
    "upstream_host p \<notin> {[], ''localhost'', ''localhost.localdomain'', bind} \<union> set names \<union> set ips"
proof -
  obtain p where p: "urlparse (py_strip item) = Ret p"
    using assms by (auto simp: check_upstream_def)
  have step: "(case url_port p of Inl _ \<Rightarrow> die ''SEC108''
     | Inr port \<Rightarrow>
         if u_scheme p \<notin> {''udp'', ''tcp''} \<or> upstream_host p = [] \<or> port = None then die ''SEC108''
         else if upstream_host p \<in> {''localhost'', ''localhost.localdomain''} \<or> upstream_host p \<in> set names \<or> upstream_host p \<in> set ips then die ''SEC108''
         else if bind \<noteq> [] \<and> upstream_host p = bind then die ''SEC108''
         else if port = Some 1053 then die ''SEC108'' else Ret ()) = Ret ()"
    using assms by (simp only: check_upstream_def p bind_res_simps Let_def)
  then obtain port where port: "url_port p = Ret port" by (cases "url_port p") (auto simp: die_def)
  have good: "u_scheme p \<in> {''udp'', ''tcp''}" "upstream_host p \<noteq> []" "port \<noteq> None"
    "\<not> (upstream_host p \<in> {''localhost'', ''localhost.localdomain''} \<or> upstream_host p \<in> set names \<or> upstream_host p \<in> set ips)"
    "\<not> (bind \<noteq> [] \<and> upstream_host p = bind)" "port \<noteq> Some 1053"
    using step unfolding port sum.case die_def by (simp_all only: split: if_splits) simp_all
  then obtain n where "port = Some n" by blast
  with good port show ?thesis by (intro that[OF p]) auto
qed

text \<open>C39. The first resolver of a chain never asks itself: when the configuration of an r1 host is accepted, every upstream of its
  wrapper parses as a UDP or TCP URL with an explicit port other than the wrapper's own 1053, and its host is none of the names
  or addresses of this machine, nor \<open>localhost\<close>, nor the address that the wrapper binds, so that no query loops back.\<close>

theorem accepted_upstreams_leave_the_host:
  assumes "validate_invariants local_names local_ips env R1 = Ret ()"
  shows "\<forall>item\<in>set (split_on CHR '','' (env_get env ''RI_WRAPPER_UPSTREAMS'')). \<exists>p n.
     urlparse (py_strip item) = Ret p \<and> u_scheme p \<in> {''udp'', ''tcp''} \<and> url_port p = Ret (Some n) \<and> n \<noteq> 1053 \<and>
     upstream_host p \<notin> set (map (\<lambda>x. strip_dots (py_lower x)) local_names) \<union> set local_ips \<union>
       {[], ''localhost'', ''localhost.localdomain'', strip_dots (py_lower (py_strip (env_get env ''DNS_BIND_ADDRESS'')))}"
proof -
  let ?names = "map (\<lambda>x. strip_dots (py_lower x)) local_names"
  let ?bind = "strip_dots (py_lower (py_strip (env_get env ''DNS_BIND_ADDRESS'')))"
  have "validate_wrapper_upstreams local_names local_ips env = Ret ()"
    using assms by (auto simp: validate_invariants_def)
  then obtain us where us: "map_res (check_upstream ?names local_ips ?bind) (split_on CHR '','' (env_get env ''RI_WRAPPER_UPSTREAMS'')) = Ret us"
    by (auto simp: validate_wrapper_upstreams_def Let_def die_def split: if_splits)
  show ?thesis
  proof
    fix item assume "item \<in> set (split_on CHR '','' (env_get env ''RI_WRAPPER_UPSTREAMS''))"
    then have "check_upstream ?names local_ips ?bind item = Ret ()"
      using us by (auto simp: map_res_Inr in_set_conv_nth list_all2_conv_all_nth)
    then show "\<exists>p n. urlparse (py_strip item) = Ret p \<and> u_scheme p \<in> {''udp'', ''tcp''} \<and> url_port p = Ret (Some n) \<and> n \<noteq> 1053 \<and>
       upstream_host p \<notin> set ?names \<union> set local_ips \<union> {[], ''localhost'', ''localhost.localdomain'', ?bind}"
      by (rule check_upstream_Ret) blast
  qed
qed

definition sample_r1_env :: "(string, string) dict" where
  "sample_r1_env = [(''RI_IMAGE'', ''ri/resolver:ri-0123456789abcdef''), (''RI_KNOT_IMAGE'', ''ri/knot:ri-0123456789abcdef''),
     (''RI_WRAPPER_UPSTREAMS'', ''udp://10.0.0.8:53, tcp://knot.example:53''), (''DNS_BIND_ADDRESS'', ''10.0.0.9''),
     (''RI_RESOLVER_ROLE'', ''first-hop''), (''RI_CHAIN_ADAPTER'', ''norn''), (''RI_CHAIN_RPC_URLS'', ''https://a.example,https://b.example''),
     (''RI_MANAGEMENT_BIND_ADDRESS'', ''10.0.1.9''), (''RI_TRACE_PRODUCER_UID'', ''3001''), (''RI_KNOT_RESOLVER_UID'', ''3002'')]"

lemma accepted_upstreams_leave_the_host_witness:
  "\<exists>p n. urlparse (py_strip ''udp://10.0.0.8:53'') = Ret p \<and> u_scheme p \<in> {''udp'', ''tcp''} \<and> url_port p = Ret (Some n) \<and> n \<noteq> 1053 \<and>
     upstream_host p \<notin> set (map (\<lambda>x. strip_dots (py_lower x)) [''R1.example.'']) \<union> set [''127.0.0.1''] \<union>
       {[], ''localhost'', ''localhost.localdomain'', strip_dots (py_lower (py_strip (env_get sample_r1_env ''DNS_BIND_ADDRESS'')))}"
proof -
  have ok: "validate_invariants [''R1.example.''] [''127.0.0.1''] sample_r1_env R1 = Ret ()" by code_simp
  have "''udp://10.0.0.8:53'' \<in> set (split_on CHR '','' (env_get sample_r1_env ''RI_WRAPPER_UPSTREAMS''))" by code_simp
  then show ?thesis using accepted_upstreams_leave_the_host[OF ok] by blast
qed

text \<open>A value whose every sensitive key stands for the placeholder, at any depth.\<close>

fun redacted :: "json \<Rightarrow> bool" where
  "redacted (JObj d) = list_all (\<lambda>(k, x). (if sensitive_name k then x = JStr ''[REDACTED]'' else redacted x)) d"
| "redacted (JArr xs) = list_all redacted xs"
| "redacted _ = True"

lemma redact_value_sensitive: "sensitive_name k \<Longrightarrow> redact_value rt v k = JStr ''[REDACTED]''"
  by (subst redact_value.simps) simp

text \<open>C40. Nothing leaves a host under a sensitive name: in a support bundle's redacted value, every entry of every object, at any
  depth and inside any list, whose key contains one of the sensitive words in any case, holds the placeholder only.\<close>

theorem redaction_covers_every_depth: "redacted (redact_value rt v [])"
proof -
  have "redacted (redact_value rt v k)" if "\<not> sensitive_name k" for k
    using that
  proof (induction rt v k rule: redact_value.induct)
    case (1 rt v key)
    have empty: "\<not> sensitive_name []" by code_simp
    show ?case
    proof (cases v)
      case (JObj d)
      have "if sensitive_name k then redact_value rt x k = JStr ''[REDACTED]'' else redacted (redact_value rt x k)" if "(k, x) \<in> set d" for k x
        using 1(2)[OF 1(3) JObj that refl] by (simp add: redact_value_sensitive)
      then show ?thesis using JObj 1(3) by (subst redact_value.simps) (auto simp: list_all_iff split: if_splits)
    next
      case (JArr xs)
      then show ?thesis using 1(1)[OF 1(3) JArr] 1(3) empty by (subst redact_value.simps) (auto simp: list_all_iff)
    qed (use 1 in \<open>subst redact_value.simps, simp\<close>)+
  qed
  moreover have "\<not> sensitive_name []" by code_simp
  ultimately show ?thesis .
qed

end
