(* ===== verification/HostFiles.thy ===== *)
theory HostFiles
  imports HostConfig PublicationPlan
begin

text \<open>
  The files of an installed host, \<open>deploy/easy-install/product-kit/common/lifecycle.py\<close>: paths, the hash of a directory tree, the
  installation state, the marker of a release, the owned data directory, and the lock.  The record \<open>host\<close> is what the program
  keeps on the disk, with the commands given to docker; \<open>world\<close> is what it asks of the machine (clock, resolution of symbolic
  links, user, the outcomes of docker and of the readiness probes, and whether a file can be written and the link \<open>current\<close> be changed,
  each of which may depend on the state the host is in).  A file is replaced as a whole or not at all.  The Chinese labels that go with a status are written in Latin letters.  An \<open>OSError\<close>, a failed
  subprocess and a failed assertion are a \<open>RuntimeError\<close> with the code SYS001 under which they are recorded.
\<close>

section \<open>Paths\<close>

text \<open>\<open>PurePosixPath\<close>: the root and the parts.\<close>

datatype path = Path (p_root: string) (p_parts: "string list")

definition to_path :: "string \<Rightarrow> path" where
  "to_path s =
     Path (if starts_with s ''//'' \<and> \<not> starts_with s ''///'' then ''//'' else if starts_with s ''/'' then ''/'' else [])
          (filter (\<lambda>p. p \<noteq> [] \<and> p \<noteq> ''.'') (split_on CHR ''/'' s))"

definition path_text :: "path \<Rightarrow> string" where
  "path_text p = (if p = Path [] [] then ''.'' else p_root p @ py_join ''/'' (p_parts p))"

definition path_join :: "path \<Rightarrow> path \<Rightarrow> path" where
  "path_join p q = (if p_root q \<noteq> [] then q else Path (p_root p) (p_parts p @ p_parts q))"

definition path_in :: "path \<Rightarrow> string list \<Rightarrow> path" where
  "path_in p names = Path (p_root p) (p_parts p @ names)"

definition path_parent :: "path \<Rightarrow> path" where
  "path_parent p = Path (p_root p) (butlast (p_parts p))"

definition is_absolute :: "path \<Rightarrow> bool" where
  "is_absolute p = (p_root p \<noteq> [])"

text \<open>\<open>q in p.parents\<close>\<close>

definition in_parents :: "path \<Rightarrow> path \<Rightarrow> bool" where
  "in_parents q p = (p_root q = p_root p \<and> length (p_parts q) < length (p_parts p) \<and> take (length (p_parts q)) (p_parts p) = p_parts q)"

section \<open>Hashes of directory trees\<close>

text \<open>What \<open>rglob\<close> finds below a directory, each with the parts of its path: a symbolic link, a regular file with its content,
  or something else.\<close>

datatype tree_entry = TLink | TFile bytes | TOther

definition tree_line :: "string list \<times> tree_entry \<Rightarrow> bytes" where
  "tree_line e = (case snd e of
       TFile data \<Rightarrow> utf8_encode (py_join ''/'' (fst e)) @ [0] @ utf8_encode (hex_of_bytes (sha256 data)) @ [10]
     | _ \<Rightarrow> [])"

definition tree_hash :: "(string list \<times> tree_entry) list \<Rightarrow> string res" where
  "tree_hash entries =
     (let es = sort_key fst entries in
      if list_ex (\<lambda>e. snd e = TLink) es then die ''PKG002'' else Ret (hex_of_bytes (sha256 (concat (map tree_line es)))))"

text \<open>\<open>json.dumps(value, sort_keys=True)\<close> with its default separators and escapes.\<close>

definition ascii_escape :: "char \<Rightarrow> string" where
  "ascii_escape c = (let n = of_char c :: nat in
     if n < 127 then json_escape c
     else [CHR 0x5C, CHR ''u'', CHR ''0'', CHR ''0'', hex_digit (n div 16), hex_digit (n mod 16)])"

definition ascii_str :: "string \<Rightarrow> string" where
  "ascii_str s = CHR 0x22 # concat (map ascii_escape s) @ [CHR 0x22]"

primrec spaced_dumps :: "json \<Rightarrow> string" where
  "spaced_dumps JNull = ''null''"
| "spaced_dumps (JBool b) = (if b then ''true'' else ''false'')"
| "spaced_dumps (JInt i) = dec_of_int i"
| "spaced_dumps (JStr s) = ascii_str s"
| "spaced_dumps (JArr xs) = CHR ''['' # py_join '', '' (map spaced_dumps xs) @ '']''"
| "spaced_dumps (JObj d) =
     CHR ''{'' # py_join '', '' (map (\<lambda>kt. ascii_str (fst kt) @ '': '' @ snd kt) (map (map_prod id spaced_dumps) d)) @ ''}''"

definition text_digest :: "string \<Rightarrow> string" where
  "text_digest s = hex_of_bytes (sha256 (utf8_encode s))"

definition json_digest :: "json \<Rightarrow> string" where
  "json_digest v = text_digest (spaced_dumps (sort_keys v))"

section \<open>The host and the world\<close>

text \<open>A release directory holds its marker \<open>.installed.json\<close>, as far as it is a file, parsed, and its environment file.  A directory
  of data has its permissions, its owner and its marker.\<close>

record release =
  rel_marker :: "json res option"
  rel_env :: "string option"

record dnode =
  d_dir :: bool
  d_mode :: nat
  d_uid :: int
  d_gid :: int
  d_marker :: "json res option"

text \<open>The last four fields are local variables of the operation that runs: the dictionary \<open>state\<close>, \<open>target\<close>, \<open>previous\<close> and
  \<open>activation_attempted\<close>.  Directories are filed under their resolved paths, the target of
  the link \<open>current\<close> as it is written.\<close>

record host =
  h_locked :: bool
  h_file :: "json res option"
  h_current :: "path option"
  h_previous :: "string option"
  h_releases :: "path \<Rightarrow> release option"
  h_dirs :: "path \<Rightarrow> dnode option"
  h_log :: "(path \<times> string list) list"
  h_mem :: jdict
  h_target :: "path option"
  h_prev :: "path option"
  h_attempted :: bool

record world =
  w_now :: "host \<Rightarrow> string"
  w_uuid :: string
  w_names :: "string list"
  w_machine_id :: "string option"
  w_cwd :: path
  w_home :: path
  w_data_roots :: string
  w_resolve :: "path \<Rightarrow> path"
  w_is_link :: "path \<Rightarrow> bool"
  w_euid :: int
  w_egid :: int
  w_load_images :: "host \<Rightarrow> unit res"
  w_copy :: "host \<Rightarrow> unit res"
  w_write :: "host \<Rightarrow> string \<Rightarrow> unit res"
  w_link :: "host \<Rightarrow> path option \<Rightarrow> unit res"
  w_message :: "pyerr \<Rightarrow> string"
  w_docker :: "host \<Rightarrow> path \<Rightarrow> string list \<Rightarrow> bool res"
  w_probe :: "host \<Rightarrow> string \<Rightarrow> (string, string) dict \<Rightarrow> path option \<Rightarrow> bool res"
  w_wait :: "host \<Rightarrow> string \<Rightarrow> (string, string) dict \<Rightarrow> path option \<Rightarrow> unit res"

text \<open>The arguments of the command line.\<close>

record args =
  a_role :: role
  a_host :: string
  a_root :: path
  a_secret_dir :: "path option"
  a_no_start :: bool
  a_purge :: bool

abbreviation SYS :: pyerr where "SYS \<equiv> RuntimeError ''SYS001''"

definition error_code :: "pyerr \<Rightarrow> string" where
  "error_code e = (case e of RuntimeError c \<Rightarrow> c | _ \<Rightarrow> ''SYS001'')"

definition absolute :: "world \<Rightarrow> path \<Rightarrow> path" where
  "absolute w p = path_join (w_cwd w) p"

text \<open>\<open>_machine_id\<close> of the text of the file, absent when it is no regular file.\<close>

definition is_machine_id :: "string \<Rightarrow> bool" where
  "is_machine_id s = (length s = 32 \<and> list_all (\<lambda>c. c \<in> set ''0123456789abcdef'') s)"

definition machine_id :: "world \<Rightarrow> string res" where
  "machine_id w = (case w_machine_id w of
       None \<Rightarrow> die ''HOST005''
     | Some text \<Rightarrow> if is_machine_id (py_strip text) then Ret (py_strip text) else die ''HOST005'')"

definition validate_machine_identity :: "world \<Rightarrow> jdict \<Rightarrow> unit res" where
  "validate_machine_identity w metadata =
     (case jget0 metadata ''machine_id'' of
        JNull \<Rightarrow> Ret ()
      | JStr expected \<Rightarrow>
          if \<not> is_machine_id expected then die ''HOST005''
          else bind_res (machine_id w) (\<lambda>m. if m \<noteq> expected then die ''HOST006'' else Ret ())
      | _ \<Rightarrow> die ''HOST005'')"

definition package_version :: "string option \<Rightarrow> string res" where
  "package_version version_file =
     (let v = (case version_file of None \<Rightarrow> ''0.3.0-norn-knot-rc1'' | Some text \<Rightarrow> py_strip text); alnum = (\<lambda>c. is_alpha c \<or> is_digit c) in
      if v \<noteq> [] \<and> alnum (hd v) \<and> 2 \<le> length v \<and> length v \<le> 64 \<and> list_all (\<lambda>c. alnum c \<or> c = CHR ''.'' \<or> c = CHR ''_'' \<or> c = CHR ''-'') v
      then Ret v else die ''PKG001'')"

section \<open>State, markers, pointers\<close>

definition read_state :: "host \<Rightarrow> jdict res" where
  "read_state h = (case h_file h of
       None \<Rightarrow> Ret []
     | Some (Inr (JObj d)) \<Rightarrow> Ret d
     | Some _ \<Rightarrow> die ''STATE002'')"

definition validate_state_identity :: "args \<Rightarrow> jdict \<Rightarrow> unit res" where
  "validate_state_identity a st =
     (if st = [] then Ret ()
      else bind_res (safe_host (a_host a)) (\<lambda>host.
           if jget0 st ''host'' \<noteq> JStr host \<or> jget0 st ''role'' \<noteq> JStr (role_text (a_role a)) then die ''STATE005'' else Ret ()))"

text \<open>\<open>atomic_json(state_file, state)\<close> and \<open>state.update(...)\<close>\<close>

definition stored :: "host \<Rightarrow> host" where
  "stored h = h\<lparr>h_file := Some (Ret (JObj (h_mem h)))\<rparr>"

definition write_state :: "world \<Rightarrow> (host, unit) op" where
  "write_state w h = (case w_write w h ''install-state.json'' of Inl e \<Rightarrow> (Inl e, h) | Inr _ \<Rightarrow> (Ret (), stored h))"

definition update_state :: "jdict \<Rightarrow> host \<Rightarrow> host" where
  "update_state d h = h\<lparr>h_mem := dict_update (h_mem h) d\<rparr>"

definition record_phase :: "world \<Rightarrow> string \<Rightarrow> string \<Rightarrow> (host, unit) op" where
  "record_phase w name digest h =
     (let mem = dict_setdefault (h_mem h) ''phases'' (JObj []) in
      case jget0 mem ''phases'' of
        JObj phases \<Rightarrow>
          write_state w (h\<lparr>h_mem := dict_set mem ''phases'' (JObj (dict_set phases name
             (JObj [(''status'', JStr ''complete''), (''status_zh'', JStr ''wancheng''), (''completed_at'', JStr (w_now w h)), (''input_sha256'', JStr digest)])))\<rparr>)
      | _ \<Rightarrow> (Inl SYS, h\<lparr>h_mem := mem\<rparr>))"

definition release_at :: "world \<Rightarrow> host \<Rightarrow> path \<Rightarrow> release option" where
  "release_at w h p = h_releases h (w_resolve w p)"

text \<open>\<open>(root / "current").resolve()\<close> when the link exists; a relative link starts at the installation root.\<close>

definition current_release :: "world \<Rightarrow> args \<Rightarrow> host \<Rightarrow> path option" where
  "current_release w a h = map_option (\<lambda>link. w_resolve w (path_join (a_root a) link)) (h_current h)"

definition pointing :: "path \<Rightarrow> host \<Rightarrow> host" where
  "pointing target h = h\<lparr>h_current := Some target\<rparr>"

text \<open>The link is replaced in one step; the attempt may raise and leaves it as it was.\<close>

definition set_current :: "world \<Rightarrow> path \<Rightarrow> (host, unit) op" where
  "set_current w target h = (case w_link w h (Some target) of Inl e \<Rightarrow> (Inl e, h) | Inr _ \<Rightarrow> (Ret (), pointing target h))"

definition clear_current :: "world \<Rightarrow> (host, unit) op" where
  "clear_current w h = (case w_link w h None of Inl e \<Rightarrow> (Inl e, h) | Inr _ \<Rightarrow> (Ret (), h\<lparr>h_current := None\<rparr>))"

text \<open>The marker of a release, as the callers read it with \<open>json.loads\<close>.\<close>

definition release_marker :: "world \<Rightarrow> host \<Rightarrow> path \<Rightarrow> json res" where
  "release_marker w h p =
     (case release_at w h p of
        Some r \<Rightarrow> (case rel_marker r of Some m \<Rightarrow> m | None \<Rightarrow> Raise SYS)
      | None \<Rightarrow> Raise SYS)"

definition release_env :: "world \<Rightarrow> host \<Rightarrow> path \<Rightarrow> (string, string) dict res" where
  "release_env w h p = load_env (case release_at w h p of Some r \<Rightarrow> rel_env r | None \<Rightarrow> None)"

definition marker_bound :: "args \<Rightarrow> string \<Rightarrow> jdict \<Rightarrow> jdict \<Rightarrow> bool" where
  "marker_bound a host marker st =
     (jget0 marker ''host'' = JStr host \<and> jget0 marker ''role'' = JStr (role_text (a_role a)) \<and>
      json_same (jget0 marker ''install_id'') (jget0 st ''install_id''))"

definition validate_active_install :: "world \<Rightarrow> args \<Rightarrow> (host, path) op" where
  "validate_active_install w a h =
     (bind_res (host_matches (w_names w) (a_host a) []) (\<lambda>mine.
      if \<not> mine then die ''HOST001''
      else bind_res (read_state h) (\<lambda>st.
      bind_res (validate_state_identity a st) (\<lambda>_.
      bind_res (if jget0 st ''machine_id'' = JNull then Ret ()
                else bind_res (machine_id w) (\<lambda>m. if JStr m \<noteq> jget0 st ''machine_id'' then die ''HOST006'' else Ret ())) (\<lambda>_.
      case current_release w a h of
        None \<Rightarrow> die ''STATE006''
      | Some target \<Rightarrow>
          (case release_marker w h target of
             Inl _ \<Rightarrow> die ''STATE006''
           | Inr m \<Rightarrow> bind_res (as_dict m) (\<lambda>marker. bind_res (safe_host (a_host a)) (\<lambda>host.
               if marker_bound a host marker st then Ret target else die ''STATE006''))))))),
      h\<lparr>h_mem := (case read_state h of Inr st \<Rightarrow> st | Inl _ \<Rightarrow> h_mem h)\<rparr>)"

section \<open>Docker and the lock\<close>

definition compose :: "world \<Rightarrow> path \<Rightarrow> string list \<Rightarrow> bool \<Rightarrow> (host, bool) op" where
  "compose w target action check h =
     (case bind_res (release_env w h target) (\<lambda>env. if env_get env ''RI_FIELD_COMPOSE_PROJECT'' = [] then die ''CFG004'' else Ret ()) of
        Inl e \<Rightarrow> (Inl e, h)
      | Inr _ \<Rightarrow>
          (case w_docker w h target action of
             Inl e \<Rightarrow> (Inl e, h)
           | Inr ok \<Rightarrow> (if check \<and> \<not> ok then Inl SYS else Ret ok, h\<lparr>h_log := h_log h @ [(target, action)]\<rparr>)))"

definition with_lock :: "(host, 'a) op \<Rightarrow> (host, 'a) op" where
  "with_lock body h =
     (if h_locked h then (die ''STATE001'', h)
      else case body (h\<lparr>h_locked := True\<rparr>) of (r, h') \<Rightarrow> (r, h'\<lparr>h_locked := False\<rparr>))"

section \<open>The data directory\<close>

definition allowed_data_roots :: "world \<Rightarrow> path \<Rightarrow> path list" where
  "allowed_data_roots w install_root =
     map (absolute w) (map to_path (filter (\<lambda>v. v \<noteq> []) (split_on CHR '':'' (w_data_roots w))) @
       [path_in install_root [''data''], path_in (path_parent install_root) [''data''], to_path ''/var/lib/domain-center'', to_path ''/var/lib/resolver-identity''])"

definition data_path_allowed :: "world \<Rightarrow> path \<Rightarrow> path \<Rightarrow> bool" where
  "data_path_allowed w p install_root =
     (let canonical = w_resolve w p in
      canonical \<notin> {to_path ''/'', to_path ''/var'', to_path ''/opt'', w_home w} \<and>
      list_ex (\<lambda>r. canonical = w_resolve w r \<or> in_parents (w_resolve w r) canonical) (allowed_data_roots w install_root))"

definition dir_at :: "world \<Rightarrow> host \<Rightarrow> path \<Rightarrow> dnode option" where
  "dir_at w h p = h_dirs h (w_resolve w p)"

definition load_marker :: "world \<Rightarrow> host \<Rightarrow> path \<Rightarrow> jdict res" where
  "load_marker w h p = (case dir_at w h p of
       Some n \<Rightarrow> (case d_marker n of Some (Inr (JObj d)) \<Rightarrow> if d_dir n then Ret d else die ''DATA002'' | _ \<Rightarrow> die ''DATA002'')
     | None \<Rightarrow> die ''DATA002'')"

definition expected_marker :: "world \<Rightarrow> args \<Rightarrow> string \<Rightarrow> path \<Rightarrow> json \<Rightarrow> jdict" where
  "expected_marker w a host p install_id =
     [(''canonical_path'', JStr (path_text (w_resolve w p))), (''host'', JStr host), (''role'', JStr (role_text (a_role a))),
      (''install_id'', install_id), (''install_root'', JStr (path_text (absolute w (a_root a))))]"

definition validate_marker :: "world \<Rightarrow> args \<Rightarrow> path \<Rightarrow> (host, unit) op" where
  "validate_marker w a p h =
     (bind_res (load_marker w h p) (\<lambda>marker.
      bind_res (safe_host (a_host a)) (\<lambda>host.
      if list_ex (\<lambda>(k, v). \<not> json_same (jget0 marker k) v) (expected_marker w a host p (jget0 (h_mem h) ''install_id'')) \<or>
         \<not> data_path_allowed w p (a_root a)
      then die ''DATA003'' else Ret ())), h)"

definition owner_as_configured :: "dnode \<Rightarrow> int option \<Rightarrow> int option \<Rightarrow> bool" where
  "owner_as_configured n uid gid = ((uid = None \<or> uid = Some (d_uid n)) \<and> (gid = None \<or> gid = Some (d_gid n)))"

text \<open>\<open>_set_directory_owner\<close>: only the owner and the superuser may change permissions.\<close>

definition set_directory_owner :: "world \<Rightarrow> path \<Rightarrow> int option \<Rightarrow> int option \<Rightarrow> nat \<Rightarrow> (host, unit) op" where
  "set_directory_owner w p uid gid mode h =
     (case dir_at w h p of
        None \<Rightarrow> (Inl SYS, h)
      | Some n \<Rightarrow>
          if w_euid w \<noteq> 0 \<and> w_euid w \<noteq> d_uid n then (Inl SYS, h)
          else let put = (\<lambda>m. h\<lparr>h_dirs := (h_dirs h)(w_resolve w p \<mapsto> m)\<rparr>) in
               if uid = None \<and> gid = None then (Ret (), put (n\<lparr>d_mode := mode\<rparr>))
               else if w_euid w \<noteq> 0
               then (if owner_as_configured n uid gid then Ret () else die ''DATA006'', put (n\<lparr>d_mode := mode\<rparr>))
               else (Ret (), put (n\<lparr>d_mode := mode, d_uid := (case uid of None \<Rightarrow> d_uid n | Some u \<Rightarrow> u),
                                   d_gid := (case gid of None \<Rightarrow> d_gid n | Some g \<Rightarrow> g)\<rparr>)))"

definition make_dir :: "world \<Rightarrow> path \<Rightarrow> json res option \<Rightarrow> host \<Rightarrow> host" where
  "make_dir w p marker h =
     h\<lparr>h_dirs := (h_dirs h)(w_resolve w p \<mapsto> \<lparr>d_dir = True, d_mode = 488, d_uid = w_euid w, d_gid = w_egid w, d_marker = marker\<rparr>)\<rparr>"

definition ensure_runtime_dir :: "world \<Rightarrow> path \<Rightarrow> nat \<Rightarrow> int option \<Rightarrow> int option \<Rightarrow> (host, unit) op" where
  "ensure_runtime_dir w p mode uid gid h =
     (case dir_at w h p of
        Some n \<Rightarrow>
          if w_is_link w p \<or> \<not> d_dir n then (die ''DATA005'', h)
          else if d_mode n \<noteq> mode then (die ''DATA006'', h)
          else set_directory_owner w p uid gid mode h
      | None \<Rightarrow> set_directory_owner w p uid gid mode (make_dir w p None h))"

definition new_marker :: "world \<Rightarrow> args \<Rightarrow> string \<Rightarrow> path \<Rightarrow> json \<Rightarrow> host \<Rightarrow> jdict" where
  "new_marker w a host p install_id h =
     [(''schema'', JStr ''domain-center-data-owner-v1'')] @ expected_marker w a host p install_id @ [(''created_at'', JStr (w_now w h))]"

text \<open>488 is the mode 0750, 1528 the mode 2770.  When the marker of a new directory cannot be made or written, the directory stays without one.\<close>

definition claim_data_dir :: "world \<Rightarrow> args \<Rightarrow> path \<Rightarrow> (host, unit) op" where
  "claim_data_dir w a p h =
     (case dir_at w h p of
        Some n \<Rightarrow>
          if \<not> d_dir n then (die ''DATA001'', h)
          else seqS (validate_marker w a p) (\<lambda>h. (if d_mode n \<noteq> 488 then die ''DATA006'' else Ret (), h)) h
      | None \<Rightarrow>
          (case bind_res (safe_host (a_host a)) (\<lambda>host. bind_res (jitem (h_mem h) ''install_id'') (\<lambda>i. Ret (host, i))) of
             Inl e \<Rightarrow> (Inl e, make_dir w p None h)
           | Inr (host, install_id) \<Rightarrow>
               (case w_write w (make_dir w p None h) ''.domain-center-owned-data.json'' of
                  Inl e \<Rightarrow> (Inl e, make_dir w p None h)
                | Inr _ \<Rightarrow> (Ret (), make_dir w p (Some (Ret (JObj (new_marker w a host p install_id h)))) h))))"

definition runtime_dirs :: "world \<Rightarrow> args \<Rightarrow> path \<Rightarrow> int option \<Rightarrow> int option \<Rightarrow> int option \<Rightarrow> (host, unit) op" where
  "runtime_dirs w a p owner_uid owner_gid resolver_uid =
     (if resolver_role (a_role a)
      then seqS (ensure_runtime_dir w (path_in p [''knot-cache'']) 488 resolver_uid resolver_uid)
                (ensure_runtime_dir w (path_in p [''trace'']) 1528 owner_uid owner_gid)
      else retS ())"

definition ensure_owned_data :: "world \<Rightarrow> args \<Rightarrow> path \<Rightarrow> (string, string) dict \<Rightarrow> (host, unit) op" where
  "ensure_owned_data w a p env =
     (if \<not> is_absolute p \<or> w_is_link w p \<or> \<not> data_path_allowed w p (a_root a) then liftS (die ''CFG005'')
      else bindS (liftS (configured_id env ''RI_TRACE_PRODUCER_UID'')) (\<lambda>owner_uid.
           bindS (liftS (configured_id env ''RI_TRACE_PRODUCER_GID'')) (\<lambda>owner_gid.
           bindS (liftS (configured_id env ''RI_KNOT_RESOLVER_UID'')) (\<lambda>resolver_uid.
           if owner_uid \<noteq> None \<and> w_euid w \<noteq> 0 \<and> owner_uid \<noteq> Some (w_euid w) then liftS (die ''DATA006'')
           else seqS (claim_data_dir w a p)
               (seqS (set_directory_owner w p owner_uid owner_gid 488) (runtime_dirs w a p owner_uid owner_gid resolver_uid))))))"

end
