(* ===== verification/Lifecycle.thy ===== *)
theory Lifecycle
  imports HostFiles
begin

text \<open>
  The operations that change an installed host, \<open>deploy/easy-install/product-kit/common/lifecycle.py\<close>: the ordered start of the
  services, \<open>install\<close> with its recovery, \<open>activate\<close>, \<open>rollback\<close> and \<open>uninstall\<close>, and the guard of \<open>main\<close>.  What is printed is
  left out.
\<close>

section \<open>Starting the services in order\<close>

definition resolver_sequence :: "role \<Rightarrow> (string \<times> string list) list" where
  "resolver_sequence r =
     [(''registry_ready'', [''up'', ''-d'', ''registry-sync'']),
      (''agent_trace_ready'', [''up'', ''-d'', ''agent'', ''trace-adapter'']),
      (''resolver_ready'', [''up'', ''-d'', ''trace-producer'', ''resolver''])] @
     (if r = R1 then [(''wrapper_shadow_ready'', [''--profile'', ''first-hop'', ''up'', ''-d'', ''wrapper''])] else [])"

definition phase_recorded :: "jdict \<Rightarrow> string \<Rightarrow> bool" where
  "phase_recorded st name = (case jget st ''phases'' (JObj []) of JObj phases \<Rightarrow> dict_get phases name \<noteq> None | _ \<Rightarrow> False)"

definition run_service_phase :: "world \<Rightarrow> path \<Rightarrow> (string, string) dict \<Rightarrow> path option \<Rightarrow> string \<times> string list \<Rightarrow> (host, unit) op" where
  "run_service_phase w target env secret_dir = (\<lambda>(name, action).
     seqS (compose w target action True)
    (seqS (\<lambda>h. (w_wait w h name env secret_dir, h))
          (record_phase w name (text_digest (py_join '' '' action)))))"

definition start_phase :: "world \<Rightarrow> path \<Rightarrow> (string, string) dict \<Rightarrow> path option \<Rightarrow> string \<times> string list \<Rightarrow> (host, unit) op" where
  "start_phase w target env secret_dir step h =
     (if phase_recorded (h_mem h) (fst step)
      then (case w_probe w h (fst step) env secret_dir of
              Inl e \<Rightarrow> (Inl e, h)
            | Inr ready \<Rightarrow> if ready then (Ret (), h) else run_service_phase w target env secret_dir step h)
      else run_service_phase w target env secret_dir step h)"

definition start_ordered :: "world \<Rightarrow> path \<Rightarrow> role \<Rightarrow> (string, string) dict \<Rightarrow> path option \<Rightarrow> (host, unit) op" where
  "start_ordered w target r env secret_dir =
     (if resolver_role r then forS (resolver_sequence r) (start_phase w target env secret_dir)
      else if norn_role r
      then seqS (compose w target [''up'', ''-d'', ''norn-node''] True)
          (seqS (compose w target [''up'', ''-d'', ''norn-read-proxy''] True)
          (seqS (\<lambda>h. (w_wait w h ''norn_ready'' env secret_dir, h))
                (record_phase w ''norn_ready'' [])))
      else seqS (compose w target [''--profile'', ''tools'', ''up'', ''-d'', ''management-tools''] True)
                (record_phase w ''management_started'' []))"

section \<open>Installing\<close>

text \<open>What an installation is made from: the outcome of the preflight, the version file, the trees of the package, of the
  configuration and, when given, of the images, the package's metadata and the text of the environment file.\<close>

record package =
  k_preflight :: "json res"
  k_version_file :: "string option"
  k_tree :: "(string list \<times> tree_entry) list"
  k_config_tree :: "(string list \<times> tree_entry) list"
  k_images :: "(string list \<times> tree_entry) list option"
  k_metadata :: "jdict res"
  k_env :: "string option"

definition install_identity :: "args \<Rightarrow> package \<Rightarrow> (string \<times> string \<times> jdict) res" where
  "install_identity a k =
     bind_res (package_version (k_version_file k)) (\<lambda>version.
     bind_res (tree_hash (k_tree k)) (\<lambda>role_digest.
     bind_res (tree_hash (k_config_tree k)) (\<lambda>config_digest.
     bind_res (case k_images k of None \<Rightarrow> Ret ''not-requested'' | Some t \<Rightarrow> tree_hash t) (\<lambda>images_digest.
     bind_res (k_metadata k) (\<lambda>metadata.
     bind_res (safe_host (a_host a)) (\<lambda>host.
     Ret (host, version,
       [(''schema'', JStr ''domain-center-install-state-v2''), (''host'', JStr host), (''role'', JStr (role_text (a_role a))),
        (''version'', JStr version), (''role_sha256'', JStr role_digest), (''config_sha256'', JStr config_digest),
        (''images_sha256'', JStr images_digest), (''source_commit'', jget0 metadata ''source_commit''),
        (''manifest_sha256'', jget0 metadata ''release_manifest_sha256'')] @
       (if jget0 metadata ''machine_id'' = JNull then [] else [(''machine_id'', jget0 metadata ''machine_id'')]))))))))"

definition same_input :: "jdict \<Rightarrow> jdict \<Rightarrow> bool" where
  "same_input st identity =
     (st \<noteq> [] \<and> list_all (\<lambda>k. json_same (jget0 st k) (jget0 identity k))
        [''version'', ''role_sha256'', ''config_sha256'', ''images_sha256'', ''source_commit'', ''manifest_sha256''])"

text \<open>The state with which an installation goes on; a changed input needs \<open>--no-start\<close> and a completed active installation.\<close>

definition next_state :: "world \<Rightarrow> args \<Rightarrow> host \<Rightarrow> jdict \<Rightarrow> jdict \<Rightarrow> jdict res" where
  "next_state w a h identity st =
     (if st \<noteq> [] \<and> \<not> same_input st identity
      then (if \<not> (a_no_start a \<and> jget0 st ''status'' = JStr ''complete'' \<and> h_current h \<noteq> None) then die ''STATE007''
            else bind_res (jitem st ''install_id'') (\<lambda>i.
                 Ret (dict_update identity [(''install_id'', i), (''phases'', JObj []),
                        (''active_release'', jor (jget0 st ''active_release'') (jget0 st ''release'')), (''staged_release'', JNull)])))
      else if st = [] then Ret (dict_update identity [(''install_id'', JStr (w_uuid w)), (''phases'', JObj [])])
      else Ret st)"

definition images_step :: "world \<Rightarrow> bool \<Rightarrow> json \<Rightarrow> (host, unit) op" where
  "images_step w given digest h =
     (if given
      then (if phase_recorded (h_mem h) ''images_loaded'' then (Ret (), h)
            else seqS (\<lambda>h. (w_load_images w h, h)) (record_phase w ''images_loaded'' (py_str digest)) h)
      else record_phase w ''images_not_requested'' (py_str digest) h)"

definition data_step :: "world \<Rightarrow> args \<Rightarrow> (string, string) dict \<Rightarrow> (host, unit) op" where
  "data_step w a env =
     (let data_dir = to_path (env_get env ''RI_FIELD_DATA_DIR'') in
      seqS (ensure_owned_data w a data_dir env) (modS (update_state [(''data_dir'', JStr (path_text (w_resolve w data_dir)))])))"

definition release_path :: "args \<Rightarrow> string \<Rightarrow> path" where
  "release_path a version = path_in (a_root a) [''releases'', version]"

definition put_release :: "world \<Rightarrow> path \<Rightarrow> release \<Rightarrow> host \<Rightarrow> host" where
  "put_release w p r h = h\<lparr>h_releases := (h_releases h)(w_resolve w p \<mapsto> r)\<rparr>"

text \<open>The release directory: an existing one has to carry the marker of this very input, a new one is copied and marked.\<close>

definition stage_release :: "world \<Rightarrow> args \<Rightarrow> package \<Rightarrow> string \<Rightarrow> string \<Rightarrow> jdict \<Rightarrow> (host, unit) op" where
  "stage_release w a k host version identity h0 =
     (let target = release_path a version; h = h0\<lparr>h_target := Some target\<rparr> in
      case release_at w h target of
        Some _ \<Rightarrow>
          (bind_res (release_marker w h target) (\<lambda>m.
           bind_res (jitem (h_mem h) ''install_id'') (\<lambda>install_id.
           bind_res (as_dict m) (\<lambda>installed.
           if list_ex (\<lambda>(key, v). \<not> json_same (jget0 installed key) v)
                [(''host'', JStr host), (''role'', JStr (role_text (a_role a))), (''install_id'', install_id),
                 (''role_sha256'', jget0 identity ''role_sha256''), (''config_sha256'', jget0 identity ''config_sha256'')]
           then die ''STATE003'' else Ret ()))), h)
      | None \<Rightarrow>
          (case bind_res (w_copy w h) (\<lambda>_. jitem (h_mem h) ''install_id'') of
             Inl e \<Rightarrow> (Inl e, h)
           | Inr install_id \<Rightarrow>
               (Ret (), put_release w target
                  \<lparr>rel_marker = Some (Ret (JObj [(''host'', JStr host), (''role'', JStr (role_text (a_role a))), (''version'', JStr version),
                      (''install_id'', install_id), (''role_sha256'', jget0 identity ''role_sha256''),
                      (''config_sha256'', jget0 identity ''config_sha256''), (''installed_at'', JStr (w_now w h))])),
                   rel_env = k_env k\<rparr> h)))"

definition opt_path :: "path option \<Rightarrow> json" where
  "opt_path p = (case p of None \<Rightarrow> JNull | Some q \<Rightarrow> JStr (path_text q))"

definition activated_state :: "path \<Rightarrow> jdict" where
  "activated_state target =
     [(''status'', JStr ''complete''), (''status_zh'', JStr ''wancheng''), (''release'', JStr (path_text target)),
      (''active_release'', JStr (path_text target)), (''staged_release'', JNull), (''activated'', JBool True)]"

definition staged_state :: "path option \<Rightarrow> path \<Rightarrow> jdict" where
  "staged_state previous target =
     [(''status'', JStr ''staged''), (''status_zh'', JStr ''yizancun''), (''release'', opt_path previous),
      (''active_release'', opt_path previous), (''staged_release'', JStr (path_text target)), (''activated'', JBool False)]"

definition switch_step :: "world \<Rightarrow> args \<Rightarrow> path \<Rightarrow> (string, string) dict \<Rightarrow> (host, unit) op" where
  "switch_step w a target env h0 =
     (let h = h0\<lparr>h_prev := current_release w a h0\<rparr> in
      if a_no_start a then (Ret (), update_state (staged_state (h_prev h) target) h)
      else seqS (start_ordered w target (a_role a) env (map_option (absolute w) (a_secret_dir a)))
          (seqS (set_current w target) (modS (update_state (activated_state target))))
             (h\<lparr>h_attempted := True\<rparr>))"

text \<open>\<open>atomic_text\<close> of the file \<open>previous-release\<close>\<close>

definition write_previous :: "world \<Rightarrow> path \<Rightarrow> (host, unit) op" where
  "write_previous w p h =
     (case w_write w h ''previous-release'' of
        Inl e \<Rightarrow> (Inl e, h)
      | Inr _ \<Rightarrow> (Ret (), h\<lparr>h_previous := Some (path_text p @ [CHR 0x0A])\<rparr>))"

definition note_previous :: "world \<Rightarrow> path option \<Rightarrow> path \<Rightarrow> (host, unit) op" where
  "note_previous w previous target =
     (case previous of Some p \<Rightarrow> if p \<noteq> target then write_previous w p else retS () | None \<Rightarrow> retS ())"

definition finish_install :: "world \<Rightarrow> path \<Rightarrow> (host, unit) op" where
  "finish_install w target h =
     seqS (note_previous w (h_prev h) target)
    (seqS (record_phase w ''evidence_written'' (json_digest (JObj (h_mem h)))) (write_state w)) h"

text \<open>The body of the \<open>try\<close> statement.\<close>

definition install_steps :: "world \<Rightarrow> args \<Rightarrow> package \<Rightarrow> json \<Rightarrow> string \<Rightarrow> string \<Rightarrow> jdict \<Rightarrow> (host, unit) op" where
  "install_steps w a k evidence host version identity =
     (let target = release_path a version in
      seqS (record_phase w ''validated'' (json_digest evidence))
     (seqS (images_step w (k_images k \<noteq> None) (jget0 identity ''images_sha256''))
     (bindS (liftS (load_env (k_env k))) (\<lambda>env.
      seqS (data_step w a env)
     (seqS (stage_release w a k host version identity)
     (seqS (record_phase w ''config_backed_up'' (py_str (jget0 identity ''config_sha256'')))
     (bindS (compose w target [''config'', ''--quiet''] False) (\<lambda>ok.
      if \<not> ok then liftS (die ''RUN001'')
      else seqS (switch_step w a target env) (finish_install w target)))))))))"

definition unlink_current :: "world \<Rightarrow> (host, unit) op" where
  "unlink_current w h = (if h_current h = None then (Ret (), h) else clear_current w h)"

text \<open>The services of the older release are started with a dictionary of their own, which \<open>start_ordered\<close> writes to the state file.\<close>

definition start_previous :: "world \<Rightarrow> args \<Rightarrow> path \<Rightarrow> (host, unit) op" where
  "start_previous w a p h =
     (case release_env w h p of
        Inl e \<Rightarrow> (Inl e, h)
      | Inr env \<Rightarrow>
          (case start_ordered w p (a_role a) env (map_option (absolute w) (a_secret_dir a)) (h\<lparr>h_mem := [(''phases'', JObj [])]\<rparr>) of
             (r, h') \<Rightarrow> (r, h'\<lparr>h_mem := h_mem h\<rparr>)))"

definition restore_previous_release :: "world \<Rightarrow> args \<Rightarrow> path \<Rightarrow> path option \<Rightarrow> (host, unit) op" where
  "restore_previous_release w a target previous =
     seqS (compose w target [''down'', ''--remove-orphans''] False) (\<lambda>h.
       case previous of
         None \<Rightarrow> unlink_current w h
       | Some p \<Rightarrow> if release_at w h p = None then unlink_current w h else seqS (set_current w p) (start_previous w a p) h)"

text \<open>The \<open>except\<close> clause: the pointer goes back, and the state records the failure.\<close>

definition recover :: "world \<Rightarrow> args \<Rightarrow> (host, unit) op" where
  "recover w a h =
     (case (if h_attempted h then h_target h else None) of
        Some target \<Rightarrow> restore_previous_release w a target (h_prev h) h
      | None \<Rightarrow>
          (case h_prev h of
             Some p \<Rightarrow> if release_at w h p \<noteq> None then set_current w p h
                       else if h_current h \<noteq> None \<and> current_release w a h \<noteq> h_prev h then clear_current w h
                       else (Ret (), h)
           | None \<Rightarrow> unlink_current w h))"

definition failed_state :: "world \<Rightarrow> host \<Rightarrow> pyerr \<Rightarrow> unit res \<Rightarrow> jdict" where
  "failed_state w h e recovery =
     (let active = (case h_prev h of None \<Rightarrow> False | Some p \<Rightarrow> release_at w h p \<noteq> None \<and> recovery = Ret ());
          shown = (if active then opt_path (h_prev h) else JNull) in
      [(''status'', JStr ''failed''), (''status_zh'', JStr ''shibai''), (''activated'', JBool active), (''release'', shown),
       (''active_release'', shown), (''staged_release'', opt_path (h_target h)),
       (''last_error'', JObj [(''code'', JStr (error_code e)), (''message'', JStr (w_message w e)), (''at'', JStr (w_now w h)),
          (''recovery_error'', case recovery of Inl r \<Rightarrow> JStr (w_message w r) | Inr _ \<Rightarrow> JNull)])])"

definition install_failed :: "world \<Rightarrow> args \<Rightarrow> pyerr \<Rightarrow> (host, unit) op" where
  "install_failed w a e h =
     (case recover w a h of
        (recovery, h') \<Rightarrow> seqS (write_state w) (raiseS e) (update_state (failed_state w h' e recovery) h'))"

definition install_locked :: "world \<Rightarrow> args \<Rightarrow> package \<Rightarrow> json \<Rightarrow> string \<Rightarrow> string \<Rightarrow> jdict \<Rightarrow> (host, unit) op" where
  "install_locked w a k evidence host version identity h =
     (case bind_res (read_state h) (\<lambda>st. bind_res (validate_state_identity a st) (\<lambda>_. next_state w a h identity st)) of
        Inl e \<Rightarrow> (Inl e, h)
      | Inr st \<Rightarrow>
          seqS (write_state w) (\<lambda>h1.
             case install_steps w a k evidence host version identity h1 of
               (Inr _, h2) \<Rightarrow> (Ret (), h2)
             | (Inl e, h2) \<Rightarrow> install_failed w a e h2)
            (update_state [(''status'', JStr ''running''), (''status_zh'', JStr ''zhixingzhong''), (''last_error'', JNull)]
               (h\<lparr>h_mem := st, h_prev := current_release w a h, h_target := None, h_attempted := False\<rparr>)))"

definition install :: "world \<Rightarrow> args \<Rightarrow> package \<Rightarrow> (host, unit) op" where
  "install w a k =
     bindS (liftS (k_preflight k)) (\<lambda>evidence.
     bindS (liftS (install_identity a k)) (\<lambda>(host, version, identity).
     with_lock (install_locked w a k evidence host version identity)))"

section \<open>Activating, rolling back, uninstalling\<close>

definition releases_dir :: "world \<Rightarrow> args \<Rightarrow> path" where
  "releases_dir w a = absolute w (path_in (a_root a) [''releases''])"

definition staged_target :: "world \<Rightarrow> args \<Rightarrow> host \<Rightarrow> (jdict \<times> path) res" where
  "staged_target w a h =
     bind_res (host_matches (w_names w) (a_host a) []) (\<lambda>mine.
     if \<not> mine then die ''HOST001''
     else bind_res (read_state h) (\<lambda>st.
     bind_res (validate_state_identity a st) (\<lambda>_.
     bind_res (if jget0 st ''machine_id'' = JNull then Ret ()
               else bind_res (machine_id w) (\<lambda>m. if JStr m \<noteq> jget0 st ''machine_id'' then die ''HOST006'' else Ret ())) (\<lambda>_.
     if jget0 st ''status'' \<noteq> JStr ''staged'' \<or> \<not> truthy (jget0 st ''staged_release'') then die ''STATE008''
     else let target = to_path (py_str (jget0 st ''staged_release'')) in
     if path_parent target \<noteq> releases_dir w a \<or> release_at w h target = None then die ''STATE008''
     else bind_res (bind_res (release_marker w h target) as_dict) (\<lambda>marker.
     if \<not> list_all (\<lambda>k. json_same (jget0 marker k) (jget0 st k)) [''install_id'', ''host'', ''role''] then die ''STATE008''
     else Ret (st, target))))))"

definition activate :: "world \<Rightarrow> args \<Rightarrow> (host, unit) op" where
  "activate w a h =
     (case bind_res (staged_target w a h) (\<lambda>(st, target). bind_res (release_env w h target) (\<lambda>env. Ret (st, target, env))) of
        Inl e \<Rightarrow> (Inl e, h)
      | Inr (st, target, env) \<Rightarrow>
          (let previous = current_release w a h in
           case seqS (start_ordered w target (a_role a) env (map_option (absolute w) (a_secret_dir a))) (set_current w target) (h\<lparr>h_mem := st\<rparr>) of
             (Inl e, h') \<Rightarrow> seqS (case previous of None \<Rightarrow> retS () | Some p \<Rightarrow> set_current w p) (raiseS e) h'
           | (Inr _, h') \<Rightarrow>
               seqS (note_previous w previous target)
              (seqS (modS (update_state (activated_state target @ [(''last_error'', JNull)]))) (write_state w)) h'))"

definition rollback_secret_dir :: "(string, string) dict \<Rightarrow> path option" where
  "rollback_secret_dir env =
     (case find (\<lambda>k. env_get env k \<noteq> []) [''RI_MANAGEMENT_SECRET_DIR'', ''RI_NORN_CONFIG_DIR'', ''RI_RESOLVER_SECRET_DIR''] of
        None \<Rightarrow> None
      | Some k \<Rightarrow> let candidate = to_path (env_get env k) in
                  Some (if k = ''RI_MANAGEMENT_SECRET_DIR'' then candidate else path_parent candidate))"

definition rollback_target :: "world \<Rightarrow> args \<Rightarrow> host \<Rightarrow> path res" where
  "rollback_target w a h =
     (case h_previous h of
        None \<Rightarrow> die ''ROLL001''
      | Some text \<Rightarrow>
          let previous = to_path (py_strip text) in
          case release_at w h previous of
            None \<Rightarrow> die ''ROLL002''
          | Some r \<Rightarrow>
              if rel_marker r = None \<or> path_parent previous \<noteq> releases_dir w a then die ''ROLL002''
              else bind_res (bind_res (release_marker w h previous) as_dict) (\<lambda>marker.
                   bind_res (safe_host (a_host a)) (\<lambda>host.
                   if marker_bound a host marker (h_mem h) then Ret previous else die ''ROLL002'')))"

definition rollback_locked :: "world \<Rightarrow> args \<Rightarrow> path \<Rightarrow> (host, unit) op" where
  "rollback_locked w a current =
     bindS (\<lambda>h. (rollback_target w a h, h)) (\<lambda>previous.
     bindS (compose w previous [''config'', ''--quiet''] False) (\<lambda>ok.
     if \<not> ok then liftS (die ''ROLL003'')
     else (\<lambda>h.
       case bindS (\<lambda>h. (release_env w h previous, h)) (\<lambda>env. start_ordered w previous (a_role a) env (rollback_secret_dir env)) h of
         (Inl e, h') \<Rightarrow> seqS (set_current w current) (raiseS e) h'
       | (Inr _, h') \<Rightarrow>
           seqS (set_current w previous)
          (seqS (write_previous w current)
          (seqS (modS (update_state
              [(''release'', JStr (path_text previous)), (''active_release'', JStr (path_text previous)), (''staged_release'', JNull),
               (''status'', JStr ''complete''), (''status_zh'', JStr ''wancheng''), (''activated'', JBool True), (''last_error'', JNull)]))
            (write_state w))) h')))"

definition rollback :: "world \<Rightarrow> args \<Rightarrow> (host, unit) op" where
  "rollback w a = bindS (validate_active_install w a) (\<lambda>current. with_lock (rollback_locked w a current))"

text \<open>\<open>shutil.rmtree\<close> takes the directory with everything below it, releases included, and refuses a symbolic link.\<close>

definition remove_tree :: "world \<Rightarrow> path \<Rightarrow> (host, unit) op" where
  "remove_tree w p h =
     (if w_is_link w p \<or> dir_at w h p = None then (Inl SYS, h)
      else (let gone = (\<lambda>q. q = w_resolve w p \<or> in_parents (w_resolve w p) q) in
            (Ret (), h\<lparr>h_dirs := (\<lambda>q. if gone q then None else h_dirs h q),
                      h_releases := (\<lambda>q. if gone q then None else h_releases h q)\<rparr>)))"

definition uninstall_locked :: "world \<Rightarrow> args \<Rightarrow> path \<Rightarrow> (host, unit) op" where
  "uninstall_locked w a target =
     bindS (\<lambda>h. (release_env w h target, h)) (\<lambda>env.
     (let data = to_path (env_get env ''RI_FIELD_DATA_DIR'') in
      seqS (if a_purge a
            then seqS (validate_marker w a data) (\<lambda>h.
                   (if JStr (path_text (w_resolve w data)) \<noteq> jget0 (h_mem h) ''data_dir'' then die ''UN001'' else Ret (), h))
            else retS ())
     (seqS (compose w target [''down'', ''--remove-orphans''] True)
     (seqS (clear_current w)
     (seqS (if a_purge a then remove_tree w data else retS ())
     (seqS (modS (update_state [(''status'', JStr ''uninstalled''), (''status_zh'', JStr ''yixiezai''), (''activated'', JBool False),
              (''data_purged'', JBool (a_purge a)), (''last_error'', JNull)]))
           (write_state w)))))))"

definition uninstall :: "world \<Rightarrow> args \<Rightarrow> (host, unit) op" where
  "uninstall w a = bindS (validate_active_install w a) (\<lambda>target. with_lock (uninstall_locked w a target))"

text \<open>The part of \<open>main\<close> that runs these operations: each one needs \<open>--yes\<close>.\<close>

datatype command = Install package | Activate | Rollback | Uninstall

definition perform :: "world \<Rightarrow> args \<Rightarrow> bool \<Rightarrow> command \<Rightarrow> (host, unit) op" where
  "perform w a yes c =
     (if \<not> yes then liftS (die ''ARG001'')
      else case c of Install k \<Rightarrow> install w a k | Activate \<Rightarrow> activate w a | Rollback \<Rightarrow> rollback w a | Uninstall \<Rightarrow> uninstall w a)"

end
