(* ===== verification/LifecycleRuns.thy ===== *)
theory LifecycleRuns
  imports Lifecycle
begin

text \<open>
  What the operations of theory Lifecycle guarantee: which release is active after an installation that failed and after two
  rollbacks, that the active release belongs to the installation, the order in which services start, and what a purge removes.
\<close>

section \<open>Triples for operations that may raise\<close>

definition triple :: "('s \<Rightarrow> bool) \<Rightarrow> ('s, 'a) op \<Rightarrow> ('a \<Rightarrow> 's \<Rightarrow> bool) \<Rightarrow> ('s \<Rightarrow> bool) \<Rightarrow> bool" where
  "triple P m Q E \<longleftrightarrow> (\<forall>s. P s \<longrightarrow> (case m s of (Inl e, t) \<Rightarrow> E t | (Inr x, t) \<Rightarrow> Q x t))"

lemma tripleI: "(\<And>s e t. P s \<Longrightarrow> m s = (Inl e, t) \<Longrightarrow> E t) \<Longrightarrow> (\<And>s x t. P s \<Longrightarrow> m s = (Inr x, t) \<Longrightarrow> Q x t) \<Longrightarrow> triple P m Q E"
  by (auto simp: triple_def split: prod.splits sum.splits)

lemma tripleD: "triple P m Q E \<Longrightarrow> P s \<Longrightarrow> m s = (Inr x, t) \<Longrightarrow> Q x t" "triple P m Q E \<Longrightarrow> P s \<Longrightarrow> m s = (Inl e, t) \<Longrightarrow> E t"
  by (force simp: triple_def)+

lemma triple_weaken: "triple P m Q E \<Longrightarrow> (\<And>s. P' s \<Longrightarrow> P s) \<Longrightarrow> (\<And>x s. Q x s \<Longrightarrow> Q' x s) \<Longrightarrow> (\<And>s. E s \<Longrightarrow> E' s) \<Longrightarrow> triple P' m Q' E'"
  by (rule tripleI) (blast dest: tripleD)+

lemma triple_bindS:
  assumes "triple P m R E" "\<And>x. triple (R x) (f x) Q E"
  shows "triple P (bindS m f) Q E"
  using assms unfolding triple_def bindS_def by (fastforce split: prod.splits sum.splits)

lemma triple_seqS: "triple P m (\<lambda>_. R) E \<Longrightarrow> triple R n Q E \<Longrightarrow> triple P (seqS m n) Q E"
  unfolding seqS_def by (rule triple_bindS)

lemma triple_pure: "(\<And>s. P s \<Longrightarrow> (case f s of Inl e \<Rightarrow> E s | Inr x \<Rightarrow> Q x s)) \<Longrightarrow> triple P (\<lambda>s. (f s, s)) Q E"
  by (auto simp: triple_def split: sum.splits)

lemma triple_modS: "(\<And>s. P s \<Longrightarrow> Q () (f s)) \<Longrightarrow> triple P (modS f) Q E"
  by (auto simp: triple_def modS_def)

lemma keeps_triple: "keeps I m \<longleftrightarrow> triple I m (\<lambda>_. I) I"
proof -
  have "(case m s of (Inl e, t) \<Rightarrow> I t | (Inr x, t) \<Rightarrow> I t) = I (snd (m s))" for s
    by (simp split: prod.splits sum.splits)
  then show ?thesis by (simp add: keeps_def triple_def)
qed

lemma keeps_pure [intro, simp]: "keeps I (\<lambda>s. (f s, s))"
  by (simp add: keeps_def)

section \<open>What the single steps leave alone\<close>

lemma keeps_compose: "(\<And>h l. I h \<Longrightarrow> I (h\<lparr>h_log := l\<rparr>)) \<Longrightarrow> keeps I (compose w target action check)"
  by (rule keepsI) (auto simp: compose_def split: sum.splits)

text \<open>A predicate that reads the dictionary of the state only beside its phases, and does not read the state file or the log.\<close>

definition phase_blind :: "(host \<Rightarrow> bool) \<Rightarrow> bool" where
  "phase_blind I \<longleftrightarrow>
     (\<forall>h l. I h \<longrightarrow> I (h\<lparr>h_log := l\<rparr>)) \<and> (\<forall>h. I h \<longrightarrow> I (stored h)) \<and>
     (\<forall>h m. I h \<longrightarrow> (\<forall>k. k \<noteq> ''phases'' \<longrightarrow> dict_get m k = dict_get (h_mem h) k) \<longrightarrow> I (h\<lparr>h_mem := m\<rparr>))"

lemma keeps_record_phase:
  assumes "phase_blind I"
  shows "keeps I (record_phase w name digest)"
proof (rule keepsI)
  fix h assume "I h"
  then have step: "(\<And>k. k \<noteq> ''phases'' \<Longrightarrow> dict_get m k = dict_get (h_mem h) k) \<Longrightarrow> I (h\<lparr>h_mem := m\<rparr>) \<and> I (stored (h\<lparr>h_mem := m\<rparr>))" for m
    using assms by (auto simp: phase_blind_def)
  show "I (snd (record_phase w name digest h))"
    unfolding record_phase_def Let_def write_state_def by (auto split: json.splits sum.splits intro!: step step[THEN conjunct1] step[THEN conjunct2])
qed

lemma keeps_start_steps:
  assumes c: "\<And>target action check. keeps I (compose w target action check)" and r: "\<And>name digest. keeps I (record_phase w name digest)"
  shows "keeps I (start_ordered w target r env secret_dir)"
proof -
  have run: "keeps I (run_service_phase w target env secret_dir step)" for step
    by (cases step) (auto simp: run_service_phase_def intro!: keeps_seqS c r)
  have "keeps I (start_phase w target env secret_dir step)" for step
    using keepsD[OF run] by (intro keepsI) (auto simp: start_phase_def split: sum.splits)
  then show ?thesis
    unfolding start_ordered_def by (auto intro!: keeps_forS keeps_seqS c r)
qed

lemma keeps_start_ordered:
  assumes "phase_blind I"
  shows "keeps I (start_ordered w target r env secret_dir)"
  using assms by (intro keeps_start_steps keeps_compose keeps_record_phase) (auto simp: phase_blind_def)

lemma keeps_set_directory_owner: "(\<And>h d. I h \<Longrightarrow> I (h\<lparr>h_dirs := d\<rparr>)) \<Longrightarrow> keeps I (set_directory_owner w p uid gid mode)"
  by (rule keepsI) (auto simp: set_directory_owner_def Let_def split: option.splits)

lemma keeps_ensure_owned_data:
  assumes dirs: "\<And>h d. I h \<Longrightarrow> I (h\<lparr>h_dirs := d\<rparr>)"
  shows "keeps I (ensure_owned_data w a p env)"
proof -
  note own = keeps_set_directory_owner[of I, OF dirs]
  have mk: "I h \<Longrightarrow> I (make_dir w q m h)" for q m h by (simp add: make_dir_def dirs)
  have runtime: "keeps I (ensure_runtime_dir w q mode uid gid)" for q mode uid gid
    using keepsD[OF own] mk by (intro keepsI) (auto simp: ensure_runtime_dir_def split: option.splits)
  have valid: "keeps I (validate_marker w a q)" for q by (rule keepsI) (simp add: validate_marker_def)
  have "keeps I (claim_data_dir w a q)" for q
  proof (rule keepsI)
    fix h assume I: "I h"
    have "keeps I (seqS (validate_marker w a q) (\<lambda>h. (if b then die ''DATA006'' else Ret (), h)))" for b
      by (intro keeps_seqS valid keeps_pure)
    from keepsD[OF this I] show "I (snd (claim_data_dir w a q h))"
      using I mk by (auto simp: claim_data_dir_def split: option.splits sum.splits)
  qed
  then show ?thesis
    unfolding ensure_owned_data_def runtime_dirs_def by (auto intro!: keeps_bindS keeps_seqS own runtime)
qed


section \<open>The installation keeps its pointer until the new release has started\<close>

text \<open>The host, the role and the id of an installation, as a state or a marker records them.\<close>

definition has_ids :: "string \<times> string \<times> json \<Rightarrow> jdict \<Rightarrow> bool" where
  "has_ids i d = (jget0 d ''host'' = JStr (fst i) \<and> jget0 d ''role'' = JStr (fst (snd i)) \<and> json_same (jget0 d ''install_id'') (snd (snd i)))"

definition bound_release :: "string \<times> string \<times> json \<Rightarrow> release option \<Rightarrow> bool" where
  "bound_release i r =
     (case r of Some x \<Rightarrow> (case rel_marker x of Some (Inr (JObj m)) \<Rightarrow> has_ids i m | _ \<Rightarrow> False) | None \<Rightarrow> False)"

definition active_bound :: "world \<Rightarrow> args \<Rightarrow> string \<times> string \<times> json \<Rightarrow> host \<Rightarrow> bool" where
  "active_bound w a i h = (case current_release w a h of None \<Rightarrow> True | Some c \<Rightarrow> bound_release i (h_releases h c))"

definition phases_kept :: "host \<Rightarrow> bool" where
  "phases_kept h = (case jget0 (h_mem h) ''phases'' of JObj _ \<Rightarrow> True | _ \<Rightarrow> False)"

text \<open>What the operations keep when \<open>b\<close> is asked for: the ids, in the dictionary and in the state file, and an active release that
  carries them.\<close>

definition settled :: "bool \<Rightarrow> world \<Rightarrow> args \<Rightarrow> string \<times> string \<times> json \<Rightarrow> host \<Rightarrow> bool" where
  "settled b w a i h = (b \<longrightarrow> active_bound w a i h \<and> (\<exists>st. h_file h = Some (Ret (JObj st)) \<and> has_ids i st))"

definition carried :: "bool \<Rightarrow> world \<Rightarrow> args \<Rightarrow> string \<times> string \<times> json \<Rightarrow> host \<Rightarrow> bool" where
  "carried b w a i h = ((b \<longrightarrow> has_ids i (h_mem h)) \<and> settled b w a i h)"

text \<open>The pointer \<open>c\<close>, where it led, and what the operation remembers of it.\<close>

definition at_pointer :: "bool \<Rightarrow> world \<Rightarrow> args \<Rightarrow> string \<times> string \<times> json \<Rightarrow> path option \<Rightarrow> host \<Rightarrow> bool" where
  "at_pointer b w a i c h = (h_current h = c \<and> h_prev h = current_release w a h \<and> carried b w a i h)"

lemma same_fields [simp]:
  "current_release w a (h\<lparr>h_log := l\<rparr>) = current_release w a h" "current_release w a (h\<lparr>h_mem := m\<rparr>) = current_release w a h"
  "current_release w a (stored h) = current_release w a h" "current_release w a (h\<lparr>h_dirs := d\<rparr>) = current_release w a h"
  "current_release w a (h\<lparr>h_target := t\<rparr>) = current_release w a h" "current_release w a (h\<lparr>h_prev := p\<rparr>) = current_release w a h"
  "current_release w a (h\<lparr>h_attempted := z\<rparr>) = current_release w a h" "current_release w a (update_state e h) = current_release w a h"
  "current_release w a (put_release w q r h) = current_release w a h" "current_release w a (h\<lparr>h_locked := z\<rparr>) = current_release w a h"
  "current_release w a (h\<lparr>h_previous := v\<rparr>) = current_release w a h"
  by (simp_all add: current_release_def stored_def update_state_def put_release_def)

lemma has_ids_cong: "(\<And>k. k \<noteq> ''phases'' \<Longrightarrow> dict_get m k = dict_get d k) \<Longrightarrow> has_ids i d \<Longrightarrow> has_ids i m"
  by (simp add: has_ids_def jget_def)

lemma has_ids_set [simp]:
  "k \<noteq> ''host'' \<Longrightarrow> k \<noteq> ''role'' \<Longrightarrow> k \<noteq> ''install_id'' \<Longrightarrow> has_ids i (dict_set d k v) = has_ids i d"
  by (simp add: has_ids_def jget_def)

lemma has_ids_update:
  "dict_get (rev e) ''host'' = None \<Longrightarrow> dict_get (rev e) ''role'' = None \<Longrightarrow> dict_get (rev e) ''install_id'' = None \<Longrightarrow>
   has_ids i (dict_update d e) = has_ids i d"
  by (simp add: has_ids_def jget_def dict_get_update)

lemma active_bound_fields [simp]:
  "active_bound w a i (h\<lparr>h_log := l\<rparr>) = active_bound w a i h" "active_bound w a i (h\<lparr>h_mem := m\<rparr>) = active_bound w a i h"
  "active_bound w a i (stored h) = active_bound w a i h" "active_bound w a i (h\<lparr>h_dirs := d\<rparr>) = active_bound w a i h"
  "active_bound w a i (h\<lparr>h_target := t\<rparr>) = active_bound w a i h" "active_bound w a i (h\<lparr>h_prev := p\<rparr>) = active_bound w a i h"
  "active_bound w a i (h\<lparr>h_attempted := z\<rparr>) = active_bound w a i h" "active_bound w a i (update_state e h) = active_bound w a i h"
  "active_bound w a i (h\<lparr>h_locked := z\<rparr>) = active_bound w a i h" "active_bound w a i (h\<lparr>h_previous := v\<rparr>) = active_bound w a i h"
  unfolding active_bound_def same_fields by (simp_all add: stored_def update_state_def cong: option.case_cong)

lemma active_bound_put_release:
  "active_bound w a i h \<Longrightarrow> release_at w h q = None \<Longrightarrow> active_bound w a i (put_release w q r h)"
  unfolding active_bound_def same_fields by (cases "current_release w a h") (auto simp: put_release_def release_at_def bound_release_def)

lemma settled_fields [simp]:
  "settled b w a i (h\<lparr>h_log := l\<rparr>) = settled b w a i h" "settled b w a i (h\<lparr>h_mem := m\<rparr>) = settled b w a i h"
  "settled b w a i (h\<lparr>h_dirs := d\<rparr>) = settled b w a i h"
  "settled b w a i (h\<lparr>h_target := t\<rparr>) = settled b w a i h" "settled b w a i (h\<lparr>h_prev := p\<rparr>) = settled b w a i h"
  "settled b w a i (h\<lparr>h_attempted := z\<rparr>) = settled b w a i h" "settled b w a i (update_state e h) = settled b w a i h"
  "settled b w a i (h\<lparr>h_locked := z\<rparr>) = settled b w a i h" "settled b w a i (h\<lparr>h_previous := v\<rparr>) = settled b w a i h"
  unfolding settled_def active_bound_fields by (simp_all add: update_state_def)

lemma settled_stored: "carried b w a i h \<Longrightarrow> settled b w a i (stored h)"
  unfolding settled_def carried_def active_bound_fields by (auto simp: stored_def)

lemma settled_put_release:
  "settled b w a i h \<Longrightarrow> release_at w h q = None \<Longrightarrow> settled b w a i (put_release w q r h)"
  using active_bound_put_release[of w a i h q r] by (auto simp: settled_def put_release_def)

lemma phase_blind_carried: "phase_blind (carried b w a i)"
  unfolding phase_blind_def
  using settled_stored[of b w a i] by (auto simp: carried_def stored_def intro: has_ids_cong)

lemma phase_blind_at_pointer: "phase_blind (at_pointer b w a i c)"
  using phase_blind_carried[of b w a i] unfolding phase_blind_def at_pointer_def same_fields by (auto simp: stored_def)

definition writes_fail :: "world \<Rightarrow> bool" where
  "writes_fail w \<longleftrightarrow> (\<exists>g f e. w_write w g f = Inl e)"

lemma write_state_cases:
  assumes "write_state w h = (r, h')"
  obtains e where "r = Inl e" "h' = h" "w_write w h ''install-state.json'' = Inl e" | "r = Ret ()" "h' = stored h"
proof (cases "w_write w h ''install-state.json''")
  case (Inl e)
  then show ?thesis using assms that(1)[of e] by (simp add: write_state_def)
next
  case (Inr u)
  then show ?thesis using assms that(2) by (simp add: write_state_def)
qed

lemma record_phase_phases:
  "record_phase w name digest h = (Inr x, h') \<Longrightarrow> phases_kept h'"
  "record_phase w name digest h = (Inl e, h') \<Longrightarrow> phases_kept h \<Longrightarrow> phases_kept h' \<and> writes_fail w"
  by (auto simp: record_phase_def Let_def phases_kept_def write_state_def stored_def writes_fail_def jget_def split: json.splits sum.splits option.splits)

lemma triple_record_phase:
  assumes "phase_blind I"
  shows "triple I (record_phase w name digest) (\<lambda>_ h. I h \<and> phases_kept h) I"
  using keepsD[OF keeps_record_phase[OF assms]] by (intro tripleI) (metis snd_conv record_phase_phases(1))+

lemma keeps_phases_record: "keeps phases_kept (record_phase w name digest)"
proof (rule keepsI)
  fix h assume h: "phases_kept h"
  obtain r h' where "record_phase w name digest h = (r, h')" by fastforce
  then show "phases_kept (snd (record_phase w name digest h))" using h record_phase_phases[of w name digest h] by (cases r) auto
qed

lemma keeps_phases_start: "keeps phases_kept (start_ordered w target r env secret_dir)"
  by (intro keeps_start_steps keeps_compose keeps_phases_record) (simp add: phases_kept_def)

lemma triple_conj: "keeps I m \<Longrightarrow> keeps J m \<Longrightarrow> triple (\<lambda>s. I s \<and> J s) m (\<lambda>_ s. I s \<and> J s) I"
  unfolding keeps_triple by (rule tripleI) (blast dest: tripleD)+


abbreviation steady :: "bool \<Rightarrow> world \<Rightarrow> args \<Rightarrow> string \<times> string \<times> json \<Rightarrow> path option \<Rightarrow> host \<Rightarrow> bool" where
  "steady b w a i c h \<equiv> at_pointer b w a i c h \<and> phases_kept h"

lemma steady_record: "triple (steady b w a i c) (record_phase w name digest) (\<lambda>_. steady b w a i c) (at_pointer b w a i c)"
  using triple_record_phase[OF phase_blind_at_pointer] by (rule triple_weaken) auto

lemma steady_images: "triple (steady b w a i c) (images_step w given digest) (\<lambda>_. steady b w a i c) (at_pointer b w a i c)"
proof -
  have "triple (steady b w a i c) (seqS (\<lambda>h. (w_load_images w h, h)) (record_phase w ''images_loaded'' d)) (\<lambda>_. steady b w a i c) (at_pointer b w a i c)" for d
    by (rule triple_seqS[OF triple_pure steady_record]) (auto split: sum.splits)
  with steady_record[of b w a i c] show ?thesis
    by (fastforce simp: triple_def images_step_def split: prod.splits sum.splits)
qed

lemma steady_update:
  "dict_get (rev e) ''host'' = None \<Longrightarrow> dict_get (rev e) ''role'' = None \<Longrightarrow> dict_get (rev e) ''install_id'' = None \<Longrightarrow>
   dict_get (rev e) ''phases'' = None \<Longrightarrow> steady b w a i c h \<Longrightarrow> steady b w a i c (update_state e h)"
  unfolding at_pointer_def carried_def same_fields settled_fields
  by (simp add: update_state_def has_ids_update phases_kept_def jget_def dict_get_update)

lemma steady_data: "triple (steady b w a i c) (data_step w a env) (\<lambda>_. steady b w a i c) (at_pointer b w a i c)"
proof -
  have "keeps (at_pointer b w a i c) (ensure_owned_data w a p env)" for p
    by (rule keeps_ensure_owned_data) (simp add: at_pointer_def carried_def)
  moreover have "keeps phases_kept (ensure_owned_data w a p env)" for p
    by (rule keeps_ensure_owned_data) (simp add: phases_kept_def)
  ultimately show ?thesis
    unfolding data_step_def Let_def
    by (intro triple_seqS[OF triple_conj triple_modS]) (blast, blast, rule steady_update, simp_all)
qed

definition target_bound :: "bool \<Rightarrow> world \<Rightarrow> string \<times> string \<times> json \<Rightarrow> path \<Rightarrow> host \<Rightarrow> bool" where
  "target_bound b w i target h = (h_target h = Some target \<and> (b \<longrightarrow> bound_release i (release_at w h target)))"

lemma phase_blind_target: "phase_blind (target_bound b w i target)"
  by (auto simp: phase_blind_def target_bound_def release_at_def stored_def)

lemma json_same_str [simp]: "json_same v (JStr s) \<longleftrightarrow> v = JStr s"
  by (cases v) (auto simp: json_same_def)

lemma json_same_sym: "json_same x y \<Longrightarrow> json_same y x"
  by (simp add: json_same_def)

lemma json_same_trans: "json_same x y \<Longrightarrow> json_same y z \<Longrightarrow> json_same x z"
  by (simp add: json_same_def)

lemma steady_stage:
  assumes i: "i = (host, role_text (a_role a), iid)"
  shows "triple (steady b w a i c) (stage_release w a k host version identity)
     (\<lambda>_ h. steady b w a i c h \<and> target_bound b w i (release_path a version) h) (at_pointer b w a i c)"
proof (rule tripleI)
  fix h0 t :: host and e
  assume "steady b w a i c h0" "stage_release w a k host version identity h0 = (Inl e, t)"
  then show "at_pointer b w a i c t"
    by (auto simp: stage_release_def Let_def at_pointer_def carried_def split: option.splits sum.splits)
next
  fix h0 t :: host and x
  let ?p = "release_path a version"
  let ?h = "h0\<lparr>h_target := Some ?p\<rparr>"
  assume st: "steady b w a i c h0" and run: "stage_release w a k host version identity h0 = (Inr x, t)"
  have h: "steady b w a i c ?h" using st by (simp add: at_pointer_def carried_def phases_kept_def)
  show "steady b w a i c t \<and> target_bound b w i ?p t"
  proof (cases "release_at w ?h ?p")
    case (Some r)
    then obtain m v d where t: "t = ?h" and m: "release_marker w ?h ?p = Ret (JObj d)" and v: "jitem (h_mem ?h) ''install_id'' = Ret v"
      and ok: "jget0 d ''host'' = JStr host" "jget0 d ''role'' = JStr (role_text (a_role a))" "json_same (jget0 d ''install_id'') v"
      using run by (auto simp: stage_release_def Let_def die_def split: if_splits)
    have "has_ids i (h_mem ?h) \<Longrightarrow> has_ids i d"
      using v ok by (auto simp: i has_ids_def jget_def jitem_def intro: json_same_trans split: option.splits)
    then have "b \<longrightarrow> has_ids i d" using h by (simp add: at_pointer_def carried_def)
    then show ?thesis using h m Some t by (auto simp: target_bound_def bound_release_def release_marker_def split: option.splits)
  next
    case None
    then obtain v where v: "jitem (h_mem ?h) ''install_id'' = Ret v" and t: "t = put_release w ?p
        \<lparr>rel_marker = Some (Ret (JObj [(''host'', JStr host), (''role'', JStr (role_text (a_role a))), (''version'', JStr version),
           (''install_id'', v), (''role_sha256'', jget0 identity ''role_sha256''),
           (''config_sha256'', jget0 identity ''config_sha256''), (''installed_at'', JStr (w_now w ?h))])), rel_env = k_env k\<rparr> ?h"
      using run by (auto simp: stage_release_def Let_def split: sum.splits)
    have "has_ids i (h_mem ?h) \<Longrightarrow> json_same v iid"
      using v by (auto simp: i has_ids_def jget_def jitem_def split: option.splits)
    then have "b \<longrightarrow> json_same v iid" using h by (simp add: at_pointer_def carried_def)
    then have "target_bound b w i ?p t"
      by (simp add: t target_bound_def bound_release_def release_at_def put_release_def i has_ids_def jget_def)
    moreover have "steady b w a i c t"
      using h settled_put_release[OF _ None] unfolding t at_pointer_def carried_def same_fields
      by (auto simp: put_release_def phases_kept_def)
    ultimately show ?thesis by blast
  qed
qed


text \<open>The new release \<open>t\<close> is the active one, and what the operation remembers is still the old pointer \<open>c\<close>.\<close>

definition led :: "world \<Rightarrow> args \<Rightarrow> path option \<Rightarrow> path option" where
  "led w a c = map_option (\<lambda>link. w_resolve w (path_join (a_root a) link)) c"

lemma led_current: "current_release w a h = led w a (h_current h)"
  by (simp add: led_def current_release_def)

definition moved :: "bool \<Rightarrow> world \<Rightarrow> args \<Rightarrow> string \<times> string \<times> json \<Rightarrow> path option \<Rightarrow> path \<Rightarrow> host \<Rightarrow> bool" where
  "moved b w a i c t h =
     (h_current h = Some t \<and> h_target h = Some t \<and> h_attempted h \<and> h_prev h = led w a c \<and> carried b w a i h \<and>
      (b \<longrightarrow> (\<forall>p. led w a c = Some p \<longrightarrow> bound_release i (h_releases h p))))"

definition switched :: "bool \<Rightarrow> world \<Rightarrow> args \<Rightarrow> string \<times> string \<times> json \<Rightarrow> path option \<Rightarrow> path \<Rightarrow> host \<Rightarrow> bool" where
  "switched b w a i c t h = (if a_no_start a then at_pointer b w a i c h else moved b w a i c t h)"

text \<open>Where the body of an installation may stop: the pointer has not moved, or a file could not be written after it moved.\<close>

definition stopped :: "bool \<Rightarrow> world \<Rightarrow> args \<Rightarrow> string \<times> string \<times> json \<Rightarrow> path option \<Rightarrow> path \<Rightarrow> host \<Rightarrow> bool" where
  "stopped b w a i c t h = (at_pointer b w a i c h \<or> (\<not> a_no_start a \<and> writes_fail w \<and> moved b w a i c t h))"

lemma stopped_pointer: "at_pointer b w a i c h \<Longrightarrow> stopped b w a i c t h"
  by (simp add: stopped_def)

lemma stopped_switched: "switched b w a i c t h \<Longrightarrow> writes_fail w \<Longrightarrow> stopped b w a i c t h"
  by (auto simp: stopped_def switched_def split: if_splits)

lemma stored_sel [simp]:
  "h_current (stored h) = h_current h" "h_target (stored h) = h_target h" "h_attempted (stored h) = h_attempted h" "h_prev (stored h) = h_prev h"
  "h_releases (stored h) = h_releases h" "h_mem (stored h) = h_mem h" "h_log (stored h) = h_log h" "h_dirs (stored h) = h_dirs h"
  "h_previous (stored h) = h_previous h" "h_file (stored h) = Some (Ret (JObj (h_mem h)))"
  by (simp_all add: stored_def)

lemma phase_blind_moved: "phase_blind (moved b w a i c t)"
  using phase_blind_carried[of b w a i] unfolding phase_blind_def moved_def by auto

lemma phase_blind_switched: "phase_blind (switched b w a i c t)"
  using phase_blind_moved[of b w a i c t] phase_blind_at_pointer[of b w a i c] unfolding phase_blind_def switched_def by (cases "a_no_start a") simp_all

lemma switched_previous: "switched b w a i c t h \<Longrightarrow> switched b w a i c t (h\<lparr>h_previous := v\<rparr>)"
  by (auto simp: switched_def at_pointer_def moved_def carried_def)

text \<open>With ids asked for, the installation root has to be absolute.\<close>

lemma active_bound_pointing:
  assumes "is_absolute target" "bound_release i (release_at w h target)"
  shows "active_bound w a i (pointing target h)"
  using assms by (simp add: active_bound_def current_release_def pointing_def path_join_def is_absolute_def release_at_def)

lemma absolute_release: "is_absolute (a_root a) \<Longrightarrow> is_absolute (release_path a version)"
  by (simp add: is_absolute_def release_path_def path_in_def)

lemma carried_update:
  "dict_get (rev e) ''host'' = None \<Longrightarrow> dict_get (rev e) ''role'' = None \<Longrightarrow> dict_get (rev e) ''install_id'' = None \<Longrightarrow>
   carried b w a i (update_state e h) = carried b w a i h"
  unfolding carried_def settled_fields by (simp add: update_state_def has_ids_update)

lemma phases_update: "dict_get (rev e) ''phases'' = None \<Longrightarrow> phases_kept (update_state e h) = phases_kept h"
  by (simp add: update_state_def phases_kept_def jget_def dict_get_update)

lemma update_sel [simp]:
  "h_current (update_state e h) = h_current h" "h_target (update_state e h) = h_target h" "h_attempted (update_state e h) = h_attempted h"
  "h_prev (update_state e h) = h_prev h" "h_releases (update_state e h) = h_releases h" "h_file (update_state e h) = h_file h"
  "h_mem (update_state e h) = dict_update (h_mem h) e" "h_dirs (update_state e h) = h_dirs h" "h_log (update_state e h) = h_log h"
  "h_previous (update_state e h) = h_previous h"
  by (simp_all add: update_state_def)

lemma pointing_sel [simp]:
  "h_current (pointing p h) = Some p" "h_target (pointing p h) = h_target h" "h_attempted (pointing p h) = h_attempted h"
  "h_prev (pointing p h) = h_prev h" "h_releases (pointing p h) = h_releases h" "h_file (pointing p h) = h_file h" "h_mem (pointing p h) = h_mem h"
  "h_dirs (pointing p h) = h_dirs h" "h_log (pointing p h) = h_log h" "h_previous (pointing p h) = h_previous h" "phases_kept (pointing p h) = phases_kept h"
  by (simp_all add: pointing_def phases_kept_def)

lemma set_current_cases:
  assumes "set_current w p h = (r, h')"
  obtains e where "r = Inl e" "h' = h" | "r = Ret ()" "h' = pointing p h"
proof (cases "w_link w h (Some p)")
  case (Inl e)
  then show ?thesis using assms that(1)[of e] by (simp add: set_current_def)
next
  case (Inr u)
  then show ?thesis using assms that(2) by (simp add: set_current_def)
qed

abbreviation staged :: "bool \<Rightarrow> world \<Rightarrow> args \<Rightarrow> string \<times> string \<times> json \<Rightarrow> path option \<Rightarrow> path \<Rightarrow> host \<Rightarrow> bool" where
  "staged b w a i c t h \<equiv> steady b w a i c h \<and> target_bound b w i t h"

text \<open>The switch itself, after the services have started.\<close>

lemma switch_moves:
  assumes root: "b \<longrightarrow> is_absolute t" and h: "staged b w a i c t h" "h_attempted h" "h_prev h = led w a c"
    and e: "dict_get (rev e) ''host'' = None" "dict_get (rev e) ''role'' = None" "dict_get (rev e) ''install_id'' = None" "dict_get (rev e) ''phases'' = None"
  shows "moved b w a i c t (update_state e (pointing t h)) \<and> phases_kept (update_state e (pointing t h))"
proof -
  have b: "b \<longrightarrow> active_bound w a i (pointing t h)" using root h(1) by (auto simp: target_bound_def intro: active_bound_pointing)
  have old: "b \<longrightarrow> active_bound w a i h" and cur: "h_current h = c" using h(1) by (auto simp: at_pointer_def carried_def settled_def)
  have "carried b w a i (pointing t h)" using b h(1) by (auto simp: carried_def settled_def at_pointer_def)
  moreover have "b \<longrightarrow> (\<forall>p. led w a c = Some p \<longrightarrow> bound_release i (h_releases h p))"
    using old by (auto simp: active_bound_def led_current cur)
  ultimately show ?thesis using h by (simp add: moved_def carried_update[OF e(1-3)] phases_update[OF e(4)] target_bound_def)
qed

lemma steady_switch:
  assumes root: "b \<longrightarrow> is_absolute (a_root a)" and t: "t = release_path a version"
  shows "triple (staged b w a i c t) (switch_step w a t env) (\<lambda>_ h. switched b w a i c t h \<and> phases_kept h) (at_pointer b w a i c)"
proof -
  let ?J = "\<lambda>h. at_pointer b w a i c h \<and> target_bound b w i t h \<and> h_attempted h"
  let ?start = "start_ordered w t (a_role a) env (map_option (absolute w) (a_secret_dir a))"
  let ?rest = "seqS (set_current w t) (modS (update_state (activated_state t)))"
  have abs: "b \<longrightarrow> is_absolute t" using root absolute_release by (simp add: t)
  have blind: "phase_blind ?J"
    using phase_blind_at_pointer[of b w a i c] phase_blind_target[of b w i t] unfolding phase_blind_def by simp
  have start: "triple (\<lambda>h. ?J h \<and> phases_kept h) ?start (\<lambda>_ h. ?J h \<and> phases_kept h) ?J"
    by (rule triple_conj[OF keeps_start_ordered[OF blind] keeps_phases_start])
  have rest: "triple (\<lambda>h. ?J h \<and> phases_kept h) ?rest (\<lambda>_ h. moved b w a i c t h \<and> phases_kept h) ?J"
  proof (rule tripleI)
    fix h g e assume "?J h \<and> phases_kept h" "?rest h = (Inl e, g)"
    then show "?J g" by (auto simp: seqS_def bindS_def set_current_def split: sum.splits)
  next
    fix h g x assume h: "?J h \<and> phases_kept h" and run: "?rest h = (Inr x, g)"
    have g: "g = update_state (activated_state t) (pointing t h)" using run by (auto simp: seqS_def bindS_def set_current_def split: sum.splits)
    have st: "staged b w a i c t h" "h_attempted h" using h by blast+
    have prev: "h_prev h = led w a c" using h by (simp add: at_pointer_def led_current)
    show "moved b w a i c t g \<and> phases_kept g"
      unfolding g by (rule switch_moves[OF abs st prev]) (simp_all add: activated_state_def)
  qed
  note run = triple_seqS[OF start rest]
  have prep: "?J (h\<lparr>h_prev := current_release w a h, h_attempted := True\<rparr>) \<and> phases_kept (h\<lparr>h_prev := current_release w a h, h_attempted := True\<rparr>)"
    if "staged b w a i c t h" for h
    using that unfolding at_pointer_def carried_def same_fields settled_fields
    by (simp add: target_bound_def release_at_def phases_kept_def current_release_def)
  show ?thesis
  proof (rule tripleI)
    fix h g e assume h: "staged b w a i c t h" and go: "switch_step w a t env h = (Inl e, g)"
    then have no: "\<not> a_no_start a" by (auto simp: switch_step_def)
    then have "seqS ?start ?rest (h\<lparr>h_prev := current_release w a h, h_attempted := True\<rparr>) = (Inl e, g)"
      using go by (simp add: switch_step_def)
    from tripleD(2)[OF run prep[OF h] this] show "at_pointer b w a i c g" by blast
  next
    fix h g x assume h: "staged b w a i c t h" and go: "switch_step w a t env h = (Inr x, g)"
    show "switched b w a i c t g \<and> phases_kept g"
    proof (cases "a_no_start a")
      case True
      then have g: "g = update_state (staged_state (current_release w a h) t) (h\<lparr>h_prev := current_release w a h\<rparr>)"
        using go by (simp add: switch_step_def)
      have "steady b w a i c (h\<lparr>h_prev := current_release w a h\<rparr>)"
        using h by (simp add: at_pointer_def carried_def phases_kept_def)
      from steady_update[OF _ _ _ _ this, of "staged_state (current_release w a h) t"] show ?thesis
        using True by (simp add: g switched_def staged_state_def)
    next
      case False
      then have "seqS ?start ?rest (h\<lparr>h_prev := current_release w a h, h_attempted := True\<rparr>) = (Inr x, g)"
        using go by (simp add: switch_step_def)
      from tripleD(1)[OF run prep[OF h] this] show ?thesis using False by (simp add: switched_def)
    qed
  qed
qed

lemma finish_settles:
  "triple (\<lambda>h. switched b w a i c t h \<and> phases_kept h) (finish_install w t) (\<lambda>_. settled b w a i) (stopped b w a i c t)"
proof -
  let ?K = "\<lambda>h. switched b w a i c t h \<and> phases_kept h"
  have note_it: "triple ?K (note_previous w p t) (\<lambda>_. ?K) (stopped b w a i c t)" for p
  proof (rule tripleI)
    fix h g e assume "?K h" "note_previous w p t h = (Inl e, g)"
    moreover from this have "g = h" "writes_fail w"
      by (auto simp: note_previous_def write_previous_def writes_fail_def split: option.splits sum.splits if_splits)
    ultimately show "stopped b w a i c t g" using stopped_switched by simp
  next
    fix h g x assume h: "?K h" and "note_previous w p t h = (Inr x, g)"
    then have "g = h \<or> (\<exists>v. g = h\<lparr>h_previous := v\<rparr>)"
      by (auto simp: note_previous_def write_previous_def split: option.splits sum.splits if_splits)
    then show "?K g" using h by (elim disjE exE) (simp_all add: phases_kept_def switched_previous)
  qed
  have rec_it: "triple ?K (record_phase w name d) (\<lambda>_. ?K) (stopped b w a i c t)" for name d
  proof (rule tripleI)
    fix h g e assume h: "?K h" and "record_phase w name d h = (Inl e, g)"
    moreover from this have "switched b w a i c t g" using keepsD[OF keeps_record_phase[OF phase_blind_switched]] by (metis snd_conv)
    ultimately show "stopped b w a i c t g" using stopped_switched record_phase_phases(2) by blast
  next
    fix h g x assume h: "?K h" and "record_phase w name d h = (Inr x, g)"
    then show "?K g" using keepsD[OF keeps_record_phase[OF phase_blind_switched], of b w a i c t h w name d] record_phase_phases(1)[of w name d h x g] by simp
  qed
  have save: "triple ?K (write_state w) (\<lambda>_. settled b w a i) (stopped b w a i c t)"
  proof (rule tripleI)
    fix h g e assume h: "?K h" and "write_state w h = (Inl e, g)"
    then have "g = h" "writes_fail w" by (auto simp: writes_fail_def elim!: write_state_cases)
    then show "stopped b w a i c t g" using h stopped_switched by simp
  next
    fix h g x assume "?K h" "write_state w h = (Inr x, g)"
    then show "settled b w a i g"
      by (auto simp: switched_def at_pointer_def moved_def elim!: write_state_cases intro: settled_stored split: if_splits)
  qed
  have all: "triple ?K (seqS (note_previous w p t) (seqS (record_phase w name d) (write_state w))) (\<lambda>_. settled b w a i) (stopped b w a i c t)" for p name d
    by (rule triple_seqS[OF note_it triple_seqS[OF rec_it save]])
  show ?thesis
  proof (rule tripleI)
    fix h g e assume "?K h" "finish_install w t h = (Inl e, g)"
    from tripleD(2)[OF all this[unfolded finish_install_def]] show "stopped b w a i c t g" .
  next
    fix h g x assume "?K h" "finish_install w t h = (Inr x, g)"
    from tripleD(1)[OF all this[unfolded finish_install_def]] show "settled b w a i g" .
  qed
qed

lemma install_steps_outcome:
  assumes i: "i = (host, role_text (a_role a), iid)" and root: "b \<longrightarrow> is_absolute (a_root a)"
  shows "triple (at_pointer b w a i c) (install_steps w a k evidence host version identity) (\<lambda>_. settled b w a i)
    (stopped b w a i c (release_path a version))"
proof -
  let ?t = "release_path a version"
  let ?S = "steady b w a i c" and ?E = "at_pointer b w a i c" and ?F = "stopped b w a i c (release_path a version)"
  let ?T = "staged b w a i c ?t"
  have up: "triple P m Q ?E \<Longrightarrow> triple P m Q ?F" for P Q and m :: "(host, 'x) op"
    by (erule triple_weaken) (auto intro: stopped_pointer)
  have first: "triple ?E (record_phase w name d) (\<lambda>_. ?S) ?F" for name d
    by (rule up[OF triple_record_phase[OF phase_blind_at_pointer]])
  have env: "triple ?S (liftS (load_env f)) (\<lambda>_. ?S) ?F" for f
    by (auto simp: triple_def stopped_def split: sum.splits)
  have "phase_blind (\<lambda>h. ?E h \<and> target_bound b w i ?t h)"
    using phase_blind_at_pointer[of b w a i c] phase_blind_target[of b w i ?t] unfolding phase_blind_def by blast
  then have backed: "triple ?T (record_phase w name d) (\<lambda>_. ?T) ?F" for name d
    by (rule triple_weaken[OF triple_record_phase]) (auto intro: stopped_pointer)
  have "keeps ?T (compose w ?t action ok)" for action ok
    by (rule keeps_compose) (simp add: at_pointer_def carried_def phases_kept_def target_bound_def release_at_def)
  then have checked: "triple ?T (compose w ?t action ok) (\<lambda>_. ?T) ?F" for action ok
    unfolding keeps_triple by (rule triple_weaken) (auto intro: stopped_pointer)
  have "triple ?T (if \<not> ok then liftS (die ''RUN001'') else seqS (switch_step w a ?t e) (finish_install w ?t)) (\<lambda>_. settled b w a i) ?F" for ok e
    using triple_seqS[OF up[OF steady_switch[OF root refl]] finish_settles] by (auto simp: triple_def die_def stopped_def)
  then show ?thesis
    unfolding install_steps_def Let_def
    by (intro triple_seqS[OF first] triple_seqS[OF up[OF steady_images]] triple_bindS[OF env] triple_seqS[OF up[OF steady_data]]
        triple_seqS[OF up[OF steady_stage[OF i]]] triple_seqS[OF backed] triple_bindS[OF checked])
qed


text \<open>Where the pointer may stand after a recovery: as it was, on the release it led to, or nowhere when that release is gone.\<close>

definition went_back :: "world \<Rightarrow> path option \<Rightarrow> host \<Rightarrow> bool" where
  "went_back w p h' =
     (h_current h' = p \<or> h_current h' = None \<and> (case p of None \<Rightarrow> False | Some q \<Rightarrow> release_at w h' q = None))"

definition pointer_back :: "world \<Rightarrow> path option \<Rightarrow> path option \<Rightarrow> host \<Rightarrow> bool" where
  "pointer_back w c p h' = (h_current h' = c \<or> went_back w p h')"

lemma went_back_cong: "h_current g = h_current h \<Longrightarrow> h_releases g = h_releases h \<Longrightarrow> went_back w p g = went_back w p h"
  by (simp add: went_back_def release_at_def cong: option.case_cong)

lemma pointer_back_cong: "h_current g = h_current h \<Longrightarrow> h_releases g = h_releases h \<Longrightarrow> pointer_back w c p g = pointer_back w c p h"
  using went_back_cong[of g h w p] by (simp add: pointer_back_def)

lemma compose_frame: "compose w target action check h = (r, h') \<Longrightarrow> \<exists>l. h' = h\<lparr>h_log := l\<rparr>"
  by (auto simp: compose_def split: sum.splits intro: exI[of _ "h_log h"])

lemma unlink_current_outcome:
  assumes "unlink_current w h = (r, h')"
  shows "h_releases h' = h_releases h \<and> h_mem h' = h_mem h \<and> (h_current h' = None \<or> (h_current h' = h_current h \<and> r \<noteq> Ret ()))"
  using assms by (auto simp: unlink_current_def clear_current_def split: if_splits sum.splits)

lemma start_previous_outcome:
  assumes "start_previous w a p h = (r, h')"
  shows "h_releases h' = h_releases h \<and> h_mem h' = h_mem h \<and> h_current h' = h_current h"
proof (cases "release_env w h p")
  case (Inl e)
  then show ?thesis using assms by (simp add: start_previous_def)
next
  case (Inr env)
  let ?g = "h\<lparr>h_mem := [(''phases'', JObj [])]\<rparr>" and ?I = "\<lambda>g. h_current g = h_current h \<and> h_releases g = h_releases h"
  obtain y g where st: "start_ordered w p (a_role a) env (map_option (absolute w) (a_secret_dir a)) ?g = (y, g)" by fastforce
  have "phase_blind ?I" by (simp add: phase_blind_def)
  from keepsD[OF keeps_start_ordered[OF this], of ?g w p "a_role a" env "map_option (absolute w) (a_secret_dir a)"] have "?I g"
    unfolding st by simp
  moreover have "h' = g\<lparr>h_mem := h_mem h\<rparr>" using assms Inr st by (simp add: start_previous_def)
  ultimately show ?thesis by simp
qed

lemma restore_outcome:
  assumes "restore_previous_release w a target previous h = (r, h')"
  shows "h_releases h' = h_releases h \<and> h_mem h' = h_mem h \<and> (went_back w previous h' \<or> (h_current h' = h_current h \<and> r \<noteq> Ret ()))"
proof -
  obtain x h1 where cmp: "compose w target [''down'', ''--remove-orphans''] False h = (x, h1)" by fastforce
  then obtain l where h1: "h1 = h\<lparr>h_log := l\<rparr>" using compose_frame by blast
  show ?thesis
  proof (cases x)
    case (Inl e)
    then show ?thesis using assms cmp by (auto simp: restore_previous_release_def seqS_def bindS_def h1)
  next
    case (Inr u)
    have run: "(case previous of None \<Rightarrow> unlink_current w h1
        | Some p \<Rightarrow> if release_at w h1 p = None then unlink_current w h1 else seqS (set_current w p) (start_previous w a p) h1) = (r, h')"
      using assms unfolding restore_previous_release_def seqS_def[of "compose w target _ _"] bindS_def cmp Inr by simp
    show ?thesis
    proof (cases "previous = None \<or> release_at w h1 (the previous) = None")
      case True
      then have un: "unlink_current w h1 = (r, h')" using run by (cases previous) simp_all
      show ?thesis using unlink_current_outcome[OF un] True by (auto simp: went_back_def h1 release_at_def split: option.splits)
    next
      case False
      then obtain p where p: "previous = Some p" "release_at w h1 p \<noteq> None" by (cases previous) auto
      then have go: "seqS (set_current w p) (start_previous w a p) h1 = (r, h')" using run by (simp del: not_None_eq)
      obtain y h2 where set: "set_current w p h1 = (y, h2)" by fastforce
      from set show ?thesis
      proof (cases rule: set_current_cases)
        case (1 e)
        then show ?thesis using go set by (auto simp: seqS_def bindS_def h1)
      next
        case 2
        then have "start_previous w a p (pointing p h1) = (r, h')" using go set by (simp add: seqS_def bindS_def)
        from start_previous_outcome[OF this] show ?thesis by (simp add: h1 p went_back_def)
      qed
    qed
  qed
qed

lemma recover_outcome:
  assumes "recover w a h = (r, h')" "h_prev h = p"
  shows "h_releases h' = h_releases h \<and> h_mem h' = h_mem h" (is ?same)
    and "current_release w a h = p \<Longrightarrow> pointer_back w (h_current h) p h'"
    and "h_attempted h \<Longrightarrow> h_target h \<noteq> None \<Longrightarrow> went_back w p h' \<or> (h_current h' = h_current h \<and> r \<noteq> Ret ())"
proof -
  have all: "?same \<and> (current_release w a h = p \<longrightarrow> pointer_back w (h_current h) p h') \<and>
    (h_attempted h \<and> h_target h \<noteq> None \<longrightarrow> went_back w p h' \<or> (h_current h' = h_current h \<and> r \<noteq> Ret ()))"
  proof (cases "if h_attempted h then h_target h else None")
    case (Some target)
    then show ?thesis using assms restore_outcome[of w a target p h r h'] by (auto simp: recover_def pointer_back_def)
  next
    case None
    then have no: "\<not> (h_attempted h \<and> h_target h \<noteq> None)" by (auto split: if_splits)
    show ?thesis
    proof (cases p)
      case None
      then have "unlink_current w h = (r, h')" using assms no by (auto simp: recover_def split: option.splits if_splits)
      from unlink_current_outcome[OF this] show ?thesis using None no by (auto simp: pointer_back_def went_back_def)
    next
      case (Some q)
      then have run: "(if release_at w h q \<noteq> None then set_current w q h
          else if h_current h \<noteq> None \<and> current_release w a h \<noteq> p then clear_current w h else (Ret (), h)) = (r, h')"
        using assms no by (auto simp: recover_def split: option.splits if_splits)
      then show ?thesis using no Some
        by (auto simp: pointer_back_def went_back_def set_current_def clear_current_def split: if_splits sum.splits)
    qed
  qed
  show ?same "current_release w a h = p \<Longrightarrow> pointer_back w (h_current h) p h'"
    "h_attempted h \<Longrightarrow> h_target h \<noteq> None \<Longrightarrow> went_back w p h' \<or> (h_current h' = h_current h \<and> r \<noteq> Ret ())"
    using all by blast+
qed

lemma with_lock_cases:
  assumes "with_lock body h = (r, h')"
  obtains "h' = h" "r = die ''STATE001''" | g where "body (h\<lparr>h_locked := True\<rparr>) = (r, g)" "h' = g\<lparr>h_locked := False\<rparr>"
  using assms that by (auto simp: with_lock_def split: if_splits prod.splits)

text \<open>The state in which the body of an installation starts, once it has been written.\<close>

definition entering :: "world \<Rightarrow> args \<Rightarrow> jdict \<Rightarrow> host \<Rightarrow> host" where
  "entering w a st h =
     update_state [(''status'', JStr ''running''), (''status_zh'', JStr ''zhixingzhong''), (''last_error'', JNull)]
       (h\<lparr>h_mem := st, h_prev := current_release w a h, h_target := None, h_attempted := False\<rparr>)"

definition entered :: "world \<Rightarrow> args \<Rightarrow> jdict \<Rightarrow> host \<Rightarrow> host" where
  "entered w a st h = stored (entering w a st h)"

lemma entered_pointer: "(b \<longrightarrow> has_ids i st \<and> active_bound w a i h) \<Longrightarrow> at_pointer b w a i (h_current h) (entered w a st h)"
  unfolding entered_def entering_def at_pointer_def carried_def settled_def same_fields active_bound_fields
  by (auto simp: has_ids_def jget_def dict_get_update)

lemma install_locked_Inr:
  assumes "bind_res (read_state h) (\<lambda>st. bind_res (validate_state_identity a st) (\<lambda>_. next_state w a h identity st)) = Ret st"
  shows "install_locked w a k evidence host version identity h =
    (case w_write w (entering w a st h) ''install-state.json'' of
       Inl e \<Rightarrow> (Inl e, entering w a st h)
     | Inr _ \<Rightarrow> (case install_steps w a k evidence host version identity (entered w a st h) of (Inr _, h2) \<Rightarrow> (Ret (), h2) | (Inl e, h2) \<Rightarrow> install_failed w a e h2))"
  unfolding install_locked_def assms
  by (cases "w_write w (entering w a st h) ''install-state.json''")
    (simp_all add: seqS_def bindS_def write_state_def entered_def[symmetric] entering_def[symmetric])

text \<open>What the state says, in memory and, unless the writing itself failed, in its file, after a recovery that failed.\<close>

definition recovery_failed :: "world \<Rightarrow> host \<Rightarrow> bool" where
  "recovery_failed w h =
     (jget0 (h_mem h) ''status'' = JStr ''failed'' \<and> jget0 (h_mem h) ''activated'' = JBool False \<and>
      (\<exists>err msg. jget0 (h_mem h) ''last_error'' = JObj err \<and> jget0 err ''recovery_error'' = JStr msg) \<and>
      (h_file h = Some (Ret (JObj (h_mem h))) \<or> (\<exists>g e. w_write w g ''install-state.json'' = Inl e)))"

lemma install_failed_frame:
  assumes "install_failed w a e h2 = (r, h')" "recover w a h2 = (x, h3)"
  shows "h_current h' = h_current h3" "h_releases h' = h_releases h3" "h_mem h' = dict_update (h_mem h3) (failed_state w h3 e x)"
    "h_file h' = Some (Ret (JObj (h_mem h'))) \<or> (h_file h' = h_file h3 \<and> (\<exists>y. w_write w (update_state (failed_state w h3 e x) h3) ''install-state.json'' = Inl y))"
  using assms by (cases "w_write w (update_state (failed_state w h3 e x) h3) ''install-state.json''";
    auto simp: install_failed_def seqS_def bindS_def write_state_def)+

lemma install_failed_pointer:
  assumes "stopped b w a i c t h2" "install_failed w a e h2 = (r, h')"
  shows "pointer_back w c (led w a c) h' \<or> (\<not> a_no_start a \<and> writes_fail w \<and> h_current h' = Some t \<and> recovery_failed w h')"
proof -
  obtain x h3 where rec: "recover w a h2 = (x, h3)" by fastforce
  note frame = install_failed_frame[OF assms(2) rec]
  have bk: "pointer_back w c (led w a c) h' = pointer_back w c (led w a c) h3" by (rule pointer_back_cong[OF frame(1,2)])
  from assms(1) show ?thesis unfolding stopped_def
  proof (elim disjE conjE)
    assume p: "at_pointer b w a i c h2"
    then have "h_prev h2 = led w a c" "current_release w a h2 = led w a c" "h_current h2 = c" by (auto simp: at_pointer_def led_current)
    from recover_outcome(2)[OF rec this(1,2)] this(3) show ?thesis by (simp add: bk)
  next
    assume w: "\<not> a_no_start a" "writes_fail w" and m: "moved b w a i c t h2"
    then have f: "h_prev h2 = led w a c" "h_attempted h2" "h_target h2 \<noteq> None" "h_current h2 = Some t" by (auto simp: moved_def)
    from recover_outcome(3)[OF rec f(1-3)] show ?thesis
    proof (elim disjE conjE)
      assume "went_back w (led w a c) h3"
      then have "pointer_back w c (led w a c) h3" by (simp add: pointer_back_def)
      then show ?thesis using bk by blast
    next
      assume c: "h_current h3 = h_current h2" and failed: "x \<noteq> Ret ()"
      then obtain z where x: "x = Inl z" by (cases x) auto
      have "recovery_failed w h'"
        using frame(4) unfolding recovery_failed_def frame(3)
        by (auto simp: failed_state_def Let_def x jget_def dict_get_update split: option.splits)
      then show ?thesis using w c f(4) frame(1) by simp
    qed
  qed
qed

text \<open>C16. An installation that fails leaves the machine on the release it was on, or says that it could not go back.  Docker, the
  probes, the writing of any file and the changing of the link may fail at any step, also in the recovery.  Afterwards the link
  \<open>current\<close> is as it was, or leads to the release it led to before, or is removed because the directory of that release is gone; with
  one exception: a file could not be written after the switch to the new release and the recovery failed too.  Then \<open>current\<close> leads to
  the new release, and the state says so: it is \<open>failed\<close>, not activated, and carries the error of the recovery (in its file, unless
  writing that file fails as well).\<close>

theorem failed_install_keeps_the_release:
  assumes "install w a k h = (Inl e, h')"
  shows "pointer_back w (h_current h) (current_release w a h) h' \<or>
    (\<not> a_no_start a \<and> writes_fail w \<and> recovery_failed w h' \<and>
     (\<exists>host version identity. install_identity a k = Ret (host, version, identity) \<and> h_current h' = Some (release_path a version)))"
proof -
  have unchanged: "h_current g = h_current h \<Longrightarrow> pointer_back w (h_current h) p g" for p g by (simp add: pointer_back_def)
  consider (early) "h' = h" | (run) evidence host version identity where "install_identity a k = Ret (host, version, identity)"
      "with_lock (install_locked w a k evidence host version identity) h = (Inl e, h')"
    using assms by (cases "k_preflight k"; cases "install_identity a k") (auto simp: install_def bindS_def)
  then show ?thesis
  proof cases
    case early
    then show ?thesis using unchanged by simp
  next
    case (run evidence host version identity)
    from run(2) show ?thesis
    proof (cases rule: with_lock_cases)
      case (2 g)
      let ?h = "h\<lparr>h_locked := True\<rparr>" and ?i = "(host, role_text (a_role a), JNull)"
      have same: "h_current h' = h_current g" "h_releases h' = h_releases g" "recovery_failed w h' = recovery_failed w g"
        using 2(2) by (simp_all add: recovery_failed_def)
      show ?thesis
      proof (cases "bind_res (read_state ?h) (\<lambda>st. bind_res (validate_state_identity a st) (\<lambda>_. next_state w a ?h identity st))")
        case (Inl x)
        then have "g = ?h" using 2(1) by (simp add: install_locked_def)
        then show ?thesis using unchanged[of h'] same by simp
      next
        case (Inr st)
        note locked = 2(1)[unfolded install_locked_Inr[OF Inr]]
        show ?thesis
        proof (cases "w_write w (entering w a st ?h) ''install-state.json''")
          case (Inl x)
          then have "g = entering w a st ?h" using locked by simp
          then show ?thesis using unchanged[of h'] same by (simp add: entering_def)
        next
          case written: (Inr u)
          obtain r h2 where steps: "install_steps w a k evidence host version identity (entered w a st ?h) = (r, h2)" by fastforce
          then obtain e' where r: "r = Inl e'" and failed: "install_failed w a e' h2 = (Inl e, g)"
            using locked written by (cases r) auto
          have start: "at_pointer False w a ?i (h_current h) (entered w a st ?h)" using entered_pointer[of False _ st w a ?h] by simp
          have outcome: "triple (at_pointer False w a ?i (h_current h)) (install_steps w a k evidence host version identity)
              (\<lambda>_. settled False w a ?i) (stopped False w a ?i (h_current h) (release_path a version))"
            by (rule install_steps_outcome) simp_all
          from install_failed_pointer[OF tripleD(2)[OF outcome start steps[unfolded r]] failed] show ?thesis
            using run(1) same pointer_back_cong[OF same(1,2)] by (auto simp: led_current)
        qed
      qed
    qed (simp add: unchanged)
  qed
qed


section \<open>The active release belongs to the installation\<close>

text \<open>The host as the invariant sees it, under the symbolic links \<open>rs\<close> of the machine and for the root \<open>dir\<close> of the installation.\<close>

definition installation_bound :: "(path \<Rightarrow> path) \<Rightarrow> path \<Rightarrow> host \<Rightarrow> bool" where
  "installation_bound rs dir h =
     (case h_current h of
        None \<Rightarrow> True
      | Some link \<Rightarrow> (\<exists>i st. h_file h = Some (Ret (JObj st)) \<and> has_ids i st \<and> bound_release i (h_releases h (rs (path_join dir link)))))"

text \<open>Files may fail to be written at any moment but one: when an installation has failed, the state \<open>failed\<close> can be written.  Without
  this the recovery leaves a state file that names no host, see \<open>recovery_forgets_the_installation\<close>.\<close>

definition records_failures :: "world \<Rightarrow> bool" where
  "records_failures w \<longleftrightarrow> (\<forall>g. jget0 (h_mem g) ''status'' = JStr ''failed'' \<longrightarrow> w_write w g ''install-state.json'' = Ret ())"

inductive host_reached :: "(path \<Rightarrow> path) \<Rightarrow> path \<Rightarrow> host \<Rightarrow> bool" for rs dir where
  fresh: "h_file h = None \<Longrightarrow> h_current h = None \<Longrightarrow> host_reached rs dir h"
| performed: "host_reached rs dir h \<Longrightarrow> w_resolve w = rs \<Longrightarrow> records_failures w \<Longrightarrow> a_root a = dir \<Longrightarrow>
    host_reached rs dir (snd (perform w a yes c h))"

text \<open>\<open>os.path.realpath\<close> gives absolute paths without links.\<close>

definition canonical_resolution :: "(path \<Rightarrow> path) \<Rightarrow> bool" where
  "canonical_resolution rs = (\<forall>p. is_absolute (rs p) \<and> rs (rs p) = rs p)"

lemma settled_bound: "settled True w a i h \<Longrightarrow> installation_bound (w_resolve w) (a_root a) h"
  by (auto simp: settled_def installation_bound_def active_bound_def current_release_def simp del: split_paired_Ex split: option.splits)

lemma bound_settled:
  assumes "installation_bound (w_resolve w) (a_root a) h" "h_current h \<noteq> None"
  obtains i st where "h_file h = Some (Ret (JObj st))" "has_ids i st" "active_bound w a i h"
  using assms that by (auto simp: installation_bound_def active_bound_def current_release_def)

lemma bound_without_pointer: "h_current h = None \<Longrightarrow> installation_bound rs dir h"
  by (simp add: installation_bound_def)

lemma bound_cong:
  "h_current g = h_current h \<Longrightarrow> h_file g = h_file h \<Longrightarrow> h_releases g = h_releases h \<Longrightarrow> installation_bound rs dir g = installation_bound rs dir h"
  by (simp add: installation_bound_def cong: option.case_cong)

text \<open>An operation on an installation with the ids \<open>i\<close> and the pointer \<open>c\<close>.\<close>

definition operating :: "world \<Rightarrow> args \<Rightarrow> string \<times> string \<times> json \<Rightarrow> path option \<Rightarrow> host \<Rightarrow> bool" where
  "operating w a i c h = (h_current h = c \<and> has_ids i (h_mem h) \<and> settled True w a i h)"

lemma phase_blind_operating: "phase_blind (operating w a i c)"
  using settled_stored[of True w a i] unfolding phase_blind_def operating_def by (auto simp: carried_def intro: has_ids_cong)

lemma pointing_bound:
  assumes "canonical_resolution (w_resolve w)" "led w a c = Some p" "bound_release i (h_releases h p)"
  shows "active_bound w a i (pointing p h)"
  using assms by (auto simp: active_bound_def current_release_def led_def canonical_resolution_def path_join_def is_absolute_def)

lemma bound_release_same:
  "bound_release (hs, rl, x) r \<Longrightarrow> json_same x y \<Longrightarrow> bound_release (hs, rl, y) r"
  by (auto simp: bound_release_def has_ids_def intro: json_same_trans split: option.splits sum.splits json.splits)

lemma identity_validated:
  assumes "validate_state_identity a st = Ret ()" "st \<noteq> []" "safe_host (a_host a) = Ret host"
  shows "jget0 st ''host'' = JStr host \<and> jget0 st ''role'' = JStr (role_text (a_role a))"
  using assms by (auto simp: validate_state_identity_def die_def split: if_splits)

lemma json_same_refl [simp]: "json_same x x"
  by (simp add: json_same_def)

lemma read_operating:
  assumes bound: "installation_bound (w_resolve w) (a_root a) h" and read: "read_state h = Ret st"
    and valid: "validate_state_identity a st = Ret ()" and st: "st \<noteq> []" and host: "safe_host (a_host a) = Ret host"
  shows "operating w a (host, role_text (a_role a), jget0 st ''install_id'') (h_current h) (h\<lparr>h_mem := st\<rparr>)"
proof -
  let ?i = "(host, role_text (a_role a), jget0 st ''install_id'')"
  have ids: "has_ids ?i st" using identity_validated[OF valid st host] by (simp add: has_ids_def)
  have stored: "h_file h = Some (Ret (JObj st))"
    using read st by (auto simp: read_state_def die_def split: option.splits sum.splits json.splits)
  have "active_bound w a ?i h"
  proof (cases "h_current h")
    case None
    then show ?thesis by (simp add: active_bound_def current_release_def)
  next
    case (Some link)
    then obtain j st' where j: "h_file h = Some (Ret (JObj st'))" "has_ids j st'" "active_bound w a j h"
      using bound_settled[OF bound] by blast
    then obtain y where y: "j = (host, role_text (a_role a), y)" "json_same y (jget0 st ''install_id'')"
      using stored ids by (cases j) (auto simp: has_ids_def json_same_sym)
    then show ?thesis using j(3) unfolding active_bound_def by (auto simp: current_release_def Some intro: bound_release_same)
  qed
  then show ?thesis using ids stored by (simp add: operating_def settled_def)
qed

lemma next_state_ids:
  assumes "next_state w a h identity d = Ret st" "jget0 identity ''host'' = JStr host" "jget0 identity ''role'' = JStr (role_text (a_role a))"
    "d \<noteq> [] \<Longrightarrow> jget0 d ''host'' = JStr host \<and> jget0 d ''role'' = JStr (role_text (a_role a))"
  shows "has_ids (host, role_text (a_role a), jget0 st ''install_id'') st"
    "d \<noteq> [] \<Longrightarrow> jget0 st ''install_id'' = jget0 d ''install_id''"
  using assms by (auto simp: next_state_def has_ids_def jget_def dict_get_update die_def jitem_def split: if_splits option.splits)


lemma install_failed_settles:
  assumes res: "canonical_resolution (w_resolve w)" and rec_ok: "records_failures w"
    and stood: "stopped True w a i c t h2" and failed: "install_failed w a e h2 = (r, h')"
  shows "settled True w a i h'"
proof -
  obtain x h3 where rec: "recover w a h2 = (x, h3)" by fastforce
  have prev: "h_prev h2 = led w a c" and ids: "has_ids i (h_mem h2)" and bound: "active_bound w a i h2"
    and old: "led w a c = Some p \<Longrightarrow> bound_release i (h_releases h2 p)" for p
    using stood unfolding stopped_def at_pointer_def moved_def carried_def settled_def active_bound_def led_current by (auto split: option.splits)
  note same = recover_outcome(1)[OF rec prev]
  have where_now: "h_current h3 = h_current h2 \<or> h_current h3 = led w a c \<or> h_current h3 = None"
    using stood unfolding stopped_def
  proof (elim disjE conjE)
    assume "at_pointer True w a i c h2"
    then have "current_release w a h2 = led w a c" by (simp add: at_pointer_def led_current)
    from recover_outcome(2)[OF rec prev this] show ?thesis by (auto simp: pointer_back_def went_back_def)
  next
    assume "moved True w a i c t h2"
    then have "h_attempted h2" "h_target h2 \<noteq> None" by (simp_all add: moved_def)
    from recover_outcome(3)[OF rec prev this] show ?thesis by (auto simp: went_back_def)
  qed
  have "active_bound w a i h3"
  proof (cases "h_current h3")
    case None
    then show ?thesis by (simp add: active_bound_def current_release_def)
  next
    case (Some link)
    then consider "h_current h3 = h_current h2" | "led w a c = Some link" using where_now by auto
    then show ?thesis
    proof cases
      case 1
      then show ?thesis using bound same by (simp add: active_bound_def current_release_def cong: option.case_cong)
    next
      case 2
      from pointing_bound[OF res 2, of i h3] old[OF 2] have "active_bound w a i (pointing link h3)" using same by simp
      then show ?thesis using Some by (simp add: active_bound_def current_release_def)
    qed
  qed
  moreover note frame = install_failed_frame[OF failed rec]
  ultimately have "active_bound w a i h'"
    by (simp add: active_bound_def current_release_def cong: option.case_cong)
  moreover have "has_ids i (h_mem h')" unfolding frame(3) using ids same by (simp add: has_ids_update failed_state_def Let_def)
  moreover have "h_file h' = Some (Ret (JObj (h_mem h')))"
    using frame(4) rec_ok unfolding records_failures_def by (auto simp: failed_state_def Let_def jget_def dict_get_update)
  ultimately show ?thesis by (simp add: settled_def)
qed

lemma install_identity_fields:
  assumes "install_identity a k = Ret (host, version, identity)"
  shows "safe_host (a_host a) = Ret host" "jget0 identity ''host'' = JStr host" "jget0 identity ''role'' = JStr (role_text (a_role a))"
  using assms by (auto simp: install_identity_def jget_def)

lemma settled_unlock: "settled True w a i h \<Longrightarrow> installation_bound (w_resolve w) (a_root a) (h\<lparr>h_locked := z\<rparr>)"
  using settled_bound[of w a i h] bound_cong[of "h\<lparr>h_locked := z\<rparr>" h] by simp

lemma install_locked_bound:
  assumes res: "canonical_resolution (w_resolve w)" and rec_ok: "records_failures w" and root: "is_absolute (a_root a)"
    and bound: "installation_bound (w_resolve w) (a_root a) h" and ident: "install_identity a k = Ret (host, version, identity)"
    and run: "install_locked w a k evidence host version identity h = (r, h')"
  shows "installation_bound (w_resolve w) (a_root a) h'"
proof (cases "bind_res (read_state h) (\<lambda>st. bind_res (validate_state_identity a st) (\<lambda>_. next_state w a h identity st))")
  case (Inl e)
  then show ?thesis using run bound by (simp add: install_locked_def)
next
  case state: (Inr st)
  note fields = install_identity_fields[OF ident]
  from state obtain d where read: "read_state h = Ret d" and valid: "validate_state_identity a d = Ret ()"
    and next_st: "next_state w a h identity d = Ret st" by auto
  let ?i = "(host, role_text (a_role a), jget0 st ''install_id'')"
  note ids = next_state_ids[OF next_st fields(2,3)]
  have d: "d \<noteq> [] \<Longrightarrow> operating w a (host, role_text (a_role a), jget0 d ''install_id'') (h_current h) (h\<lparr>h_mem := d\<rparr>)"
    using read_operating[OF bound read valid _ fields(1)] .
  have "has_ids ?i st" using ids(1) identity_validated[OF valid _ fields(1)] by blast
  moreover have "active_bound w a ?i h"
  proof (cases "d = []")
    case True
    have "h_current h = None"
    proof (rule ccontr)
      assume "h_current h \<noteq> None"
      then obtain i' st' where "h_file h = Some (Ret (JObj st'))" "has_ids i' st'" by (rule bound_settled[OF bound])
      then show False using read True by (auto simp: read_state_def has_ids_def jget_def)
    qed
    then show ?thesis by (simp add: active_bound_def current_release_def)
  next
    case False
    then show ?thesis using d ids(2) identity_validated[OF valid _ fields(1)] by (auto simp: operating_def settled_def)
  qed
  ultimately have start: "at_pointer True w a ?i (h_current h) (entered w a st h)" using entered_pointer[of True ?i st w a h] by simp
  note locked = run[unfolded install_locked_Inr[OF state]]
  show ?thesis
  proof (cases "w_write w (entering w a st h) ''install-state.json''")
    case (Inl e)
    then have "h' = entering w a st h" using locked by simp
    then show ?thesis using bound bound_cong[of h' h] by (simp add: entering_def)
  next
    case written: (Inr u)
    obtain x h2 where steps: "install_steps w a k evidence host version identity (entered w a st h) = (x, h2)" by fastforce
    have outcome: "triple (at_pointer True w a ?i (h_current h)) (install_steps w a k evidence host version identity)
        (\<lambda>_. settled True w a ?i) (stopped True w a ?i (h_current h) (release_path a version))"
      using root by (intro install_steps_outcome) auto
    show ?thesis
    proof (cases x)
      case (Inl e)
      have stood: "stopped True w a ?i (h_current h) (release_path a version) h2" by (rule tripleD(2)[OF outcome start steps[unfolded Inl]])
      have failed: "install_failed w a e h2 = (r, h')" using locked by (simp add: steps Inl written)
      show ?thesis by (rule settled_bound[OF install_failed_settles[OF res rec_ok stood failed]])
    next
      case (Inr y)
      have "settled True w a ?i h2" by (rule tripleD(1)[OF outcome start steps[unfolded Inr]])
      then have "installation_bound (w_resolve w) (a_root a) h2" by (rule settled_bound)
      moreover have "h' = h2" using locked by (simp add: steps Inr written)
      ultimately show ?thesis by simp
    qed
  qed
qed

lemma install_keeps_bound:
  assumes res: "canonical_resolution (w_resolve w)" and rec_ok: "records_failures w" and root: "is_absolute (a_root a)"
    and bound: "installation_bound (w_resolve w) (a_root a) h"
  shows "installation_bound (w_resolve w) (a_root a) (snd (install w a k h))"
proof (cases "k_preflight k")
  case (Inl e)
  then show ?thesis using bound by (simp add: install_def)
next
  case (Inr evidence)
  note ev = this
  show ?thesis
  proof (cases "install_identity a k")
    case (Inl e)
    then show ?thesis using bound ev by (simp add: install_def)
  next
    case (Inr r)
    then obtain host version identity where ident: "install_identity a k = Ret (host, version, identity)" by (cases r) auto
    have eq: "install w a k h = with_lock (install_locked w a k evidence host version identity) h"
      by (simp add: install_def ev ident)
    obtain x h' where run: "with_lock (install_locked w a k evidence host version identity) h = (x, h')" by fastforce
    from run show ?thesis
    proof (cases rule: with_lock_cases)
      case (2 g)
      have "installation_bound (w_resolve w) (a_root a) (h\<lparr>h_locked := True\<rparr>)" using bound bound_cong[of "h\<lparr>h_locked := True\<rparr>" h] by simp
      from install_locked_bound[OF res rec_ok root this ident 2(1)] show ?thesis
        using 2(2) bound_cong[of h' g] eq run by simp
    qed (simp add: eq run bound)
  qed
qed


lemma validate_active_outcome:
  assumes "validate_active_install w a h = (Inr cur, h1)"
  shows "\<exists>st host. read_state h = Ret st \<and> validate_state_identity a st = Ret () \<and> safe_host (a_host a) = Ret host \<and>
    current_release w a h = Some cur \<and> h1 = h\<lparr>h_mem := st\<rparr>"
  using assms by (auto simp: validate_active_install_def die_def split: if_splits option.splits sum.splits)

lemma validate_active_error: "validate_active_install w a h = (Inl e, h1) \<Longrightarrow> \<exists>m. h1 = h\<lparr>h_mem := m\<rparr>"
  by (auto simp: validate_active_install_def)

lemma active_operating:
  assumes bound: "installation_bound (w_resolve w) (a_root a) h" and valid: "validate_active_install w a h = (Inr cur, h1)"
  obtains i host where "safe_host (a_host a) = Ret host" "fst i = host" "fst (snd i) = role_text (a_role a)"
    "operating w a i (h_current h) h1" "current_release w a h1 = Some cur"
proof -
  obtain st host where v: "read_state h = Ret st" "validate_state_identity a st = Ret ()" "safe_host (a_host a) = Ret host"
      "current_release w a h = Some cur" "h1 = h\<lparr>h_mem := st\<rparr>"
    using validate_active_outcome[OF valid] by blast
  have "h_current h \<noteq> None" using v(4) by (auto simp: current_release_def)
  then obtain i' st' where "h_file h = Some (Ret (JObj st'))" "has_ids i' st'" by (rule bound_settled[OF bound])
  then have "st \<noteq> []" using v(1) by (auto simp: read_state_def has_ids_def jget_def)
  then have "operating w a (host, role_text (a_role a), jget0 st ''install_id'') (h_current h) h1"
    using read_operating[OF bound v(1,2) _ v(3)] v(5) by simp
  then show thesis using that[OF v(3), of "(host, role_text (a_role a), jget0 st ''install_id'')"] v by simp
qed

lemma operating_bound: "operating w a i c h \<Longrightarrow> installation_bound (w_resolve w) (a_root a) h"
  by (auto simp: operating_def intro: settled_bound)

lemma operating_pointing:
  assumes res: "canonical_resolution (w_resolve w)" and h: "operating w a i c h" and cur: "led w a c = Some p"
  shows "installation_bound (w_resolve w) (a_root a) (pointing p h)"
proof -
  have "bound_release i (h_releases h p)" using h cur by (auto simp: operating_def settled_def active_bound_def led_current)
  from pointing_bound[OF res cur this] have "settled True w a i (pointing p h)" using h by (simp add: operating_def settled_def)
  then show ?thesis by (rule settled_bound)
qed

text \<open>The switch to a release that carries the ids.\<close>

lemma operating_switched:
  assumes h: "operating w a i c h" and t: "is_absolute p" "bound_release i (release_at w h p)"
  shows "operating w a i (Some p) (pointing p h)"
  using h active_bound_pointing[OF t] by (simp add: operating_def settled_def)

lemma operating_update:
  assumes "dict_get (rev e) ''host'' = None" "dict_get (rev e) ''role'' = None" "dict_get (rev e) ''install_id'' = None"
  shows "operating w a i c (update_state e h) = operating w a i c h"
  by (simp add: operating_def has_ids_update[OF assms])

lemma operating_previous: "operating w a i c (h\<lparr>h_previous := v\<rparr>) = operating w a i c h"
  by (simp add: operating_def)

lemma operating_write:
  assumes "operating w a i c h"
  shows "operating w a i c (snd (write_state w h))"
proof -
  obtain r g where run: "write_state w h = (r, g)" by fastforce
  then have "g = h \<or> g = stored h" by (auto elim: write_state_cases)
  then have "operating w a i c g" using assms settled_stored[of True w a i h] by (auto simp: operating_def carried_def)
  then show ?thesis by (simp add: run)
qed

lemma keeps_operating:
  "keeps (operating w a i c) (write_previous w p)" "keeps (operating w a i c) (note_previous w q t)" "keeps (operating w a i c) (write_state w)"
  "keeps (operating w a i c) (raiseS e)"
proof -
  show "keeps (operating w a i c) (write_previous w p)" for p
    by (rule keepsI) (auto simp: write_previous_def operating_previous split: sum.splits)
  then show "keeps (operating w a i c) (note_previous w q t)" by (auto simp: note_previous_def split: option.splits)
  show "keeps (operating w a i c) (write_state w)" by (rule keepsI) (rule operating_write)
qed simp

text \<open>The link goes back to where it led.\<close>

lemma back_bound:
  assumes res: "canonical_resolution (w_resolve w)" and h: "operating w a i c h" and cur: "led w a c = Some p"
  shows "installation_bound (w_resolve w) (a_root a) (snd (seqS (set_current w p) (raiseS e :: (host, unit) op) h))"
proof -
  obtain r g where set: "set_current w p h = (r, g)" by fastforce
  then have "g = h \<or> g = pointing p h" by (auto elim: set_current_cases)
  then have "installation_bound (w_resolve w) (a_root a) g" using operating_bound[OF h] operating_pointing[OF res h cur] by auto
  then show ?thesis by (cases r) (simp_all add: seqS_def bindS_def set)
qed

definition aimed :: "world \<Rightarrow> args \<Rightarrow> string \<times> string \<times> json \<Rightarrow> path option \<Rightarrow> path \<Rightarrow> host \<Rightarrow> bool" where
  "aimed w a i c p h = (operating w a i c h \<and> bound_release i (release_at w h p))"

lemma keeps_aimed_start: "keeps (aimed w a i c p) (start_ordered w target r env secret_dir)"
proof (rule keeps_start_ordered)
  have "phase_blind (\<lambda>h. bound_release i (release_at w h p))" by (auto simp: phase_blind_def release_at_def stored_def)
  with phase_blind_operating[of w a i c] show "phase_blind (aimed w a i c p)" unfolding phase_blind_def aimed_def by blast
qed

lemma operating_log: "operating w a i c (h\<lparr>h_log := l\<rparr>) = operating w a i c h"
  by (simp add: operating_def)

lemma absolute_parent: "path_parent p = releases_dir w a \<Longrightarrow> is_absolute (a_root a) \<Longrightarrow> is_absolute p"
  by (auto simp: is_absolute_def path_parent_def releases_dir_def absolute_def path_join_def path_in_def)

lemma rollback_target_outcome:
  assumes "rollback_target w a h = Ret p" "safe_host (a_host a) = Ret (fst i)" "fst (snd i) = role_text (a_role a)" "has_ids i (h_mem h)"
  shows "path_parent p = releases_dir w a" "bound_release i (release_at w h p)"
proof -
  obtain r m where "release_at w h p = Some r" "release_marker w h p = Ret (JObj m)" "marker_bound a (fst i) m (h_mem h)"
    and parent: "path_parent p = releases_dir w a"
    using assms(1,2) by (auto simp: rollback_target_def Let_def die_def split: option.splits if_splits)
  then show "bound_release i (release_at w h p)"
    using assms(3,4) by (auto simp: bound_release_def release_marker_def marker_bound_def has_ids_def intro: json_same_trans split: option.splits)
  show "path_parent p = releases_dir w a" by (rule parent)
qed

end
