(* ===== verification/LifecycleSafety.thy ===== *)
theory LifecycleSafety
  imports LifecycleRuns
begin

text \<open>
  The invariant of an installed host over all operations, and what a rollback and a purge do: the release that \<open>current\<close> leads to
  belongs to the installation, two rollbacks cancel out, a purge removes only the directory that the installation owns, and the
  services of a resolver start in order.
\<close>

section \<open>Every operation keeps the active release bound\<close>

lemma triple_aimed_start:
  "triple (aimed w a i c p) (start_ordered w target r env secret_dir) (\<lambda>_. aimed w a i c p) (aimed w a i c p)"
  using keeps_aimed_start unfolding keeps_triple .

lemma aimed_start:
  assumes "start_ordered w target r env secret_dir h = (y, h2)" "aimed w a i c p h"
  shows "aimed w a i c p h2"
proof -
  have "keeps (aimed w a i c p) (start_ordered w target r env secret_dir)" by (rule keeps_aimed_start)
  from keepsD[OF this assms(2)] show ?thesis by (simp add: assms(1))
qed

text \<open>The switch to a release that carries the ids, and what follows it.\<close>

lemma commit_bound:
  assumes h: "operating w a i c h" and t: "is_absolute p" "bound_release i (release_at w h p)" and m: "keeps (operating w a i (Some p)) m"
  shows "installation_bound (w_resolve w) (a_root a) (snd (seqS (set_current w p) m h))"
proof -
  obtain r g where set: "set_current w p h = (r, g)" by fastforce
  from set show ?thesis
  proof (cases rule: set_current_cases)
    case (1 e)
    then show ?thesis using operating_bound[OF h] by (simp add: seqS_def bindS_def set)
  next
    case 2
    then have "operating w a i (Some p) (snd (m g))" using keepsD[OF m] operating_switched[OF h t] by simp
    then show ?thesis using 2 operating_bound by (simp add: seqS_def bindS_def set)
  qed
qed

lemma keeps_operating_update:
  assumes "dict_get (rev e) ''host'' = None" "dict_get (rev e) ''role'' = None" "dict_get (rev e) ''install_id'' = None"
  shows "keeps (operating w a i c) (modS (update_state e))"
  by (rule keeps_modS) (simp add: operating_update[OF assms])

lemma rollback_locked_bound:
  assumes res: "canonical_resolution (w_resolve w)" and root: "is_absolute (a_root a)"
    and host: "safe_host (a_host a) = Ret (fst i)" and role: "fst (snd i) = role_text (a_role a)"
    and h: "operating w a i (h_current h) h" and cur: "current_release w a h = Some cur"
    and run: "rollback_locked w a cur h = (r, h')"
  shows "installation_bound (w_resolve w) (a_root a) h'"
proof (cases "rollback_target w a h")
  case (Inl e)
  then show ?thesis using run operating_bound[OF h] by (simp add: rollback_locked_def bindS_def)
next
  case target: (Inr p)
  have ids: "has_ids i (h_mem h)" using h by (simp add: operating_def)
  note t = rollback_target_outcome[OF target host role ids]
  obtain x h1 where cmp: "compose w p [''config'', ''--quiet''] False h = (x, h1)" by fastforce
  then obtain l where h1: "h1 = h\<lparr>h_log := l\<rparr>" using compose_frame by blast
  have h1_ok: "aimed w a i (h_current h) p h1"
    using h t(2) by (simp add: aimed_def h1 operating_log release_at_def)
  show ?thesis
  proof (cases "x = Ret True")
    case False
    then have "h' = h1" using run target cmp
      by (cases x) (auto simp: rollback_locked_def bindS_def die_def)
    then show ?thesis using h1_ok operating_bound unfolding aimed_def by blast
  next
    case True
    let ?run = "bindS (\<lambda>h. (release_env w h p, h)) (\<lambda>env. start_ordered w p (a_role a) env (rollback_secret_dir env))"
    obtain y h2 where started: "?run h1 = (y, h2)" by fastforce
    have "triple (aimed w a i (h_current h) p) ?run (\<lambda>_. aimed w a i (h_current h) p) (aimed w a i (h_current h) p)"
      by (intro triple_bindS[OF triple_pure triple_aimed_start]) (auto split: sum.splits)
    then have h2: "aimed w a i (h_current h) p h2"
      using started h1_ok by (cases y) (auto dest: tripleD)
    have c: "led w a (h_current h) = Some cur" using cur by (simp add: led_current)
    have op: "operating w a i (h_current h) h2" and b: "bound_release i (release_at w h2 p)" using h2 by (simp_all add: aimed_def)
    show ?thesis
    proof (cases y)
      case (Inl e)
      then have "seqS (set_current w cur) (raiseS e) h2 = (r, h')" using run target cmp True started by (simp add: rollback_locked_def bindS_def)
      with back_bound[OF res op c, of e] show ?thesis by simp
    next
      case (Inr u)
      let ?e = "[(''release'', JStr (path_text p)), (''active_release'', JStr (path_text p)), (''staged_release'', JNull),
               (''status'', JStr ''complete''), (''status_zh'', JStr ''wancheng''), (''activated'', JBool True), (''last_error'', JNull)]"
      let ?m = "seqS (write_previous w cur) (seqS (modS (update_state ?e)) (write_state w))"
      have "seqS (set_current w p) ?m h2 = (r, h')" using run target cmp True started Inr by (simp add: rollback_locked_def bindS_def)
      moreover have "keeps (operating w a i (Some p)) ?m" by (intro keeps_seqS keeps_operating keeps_operating_update) simp_all
      ultimately show ?thesis using commit_bound[OF op absolute_parent[OF t(1) root] b] by (metis snd_conv)
    qed
  qed
qed

lemma with_lock_bound:
  assumes "\<And>r g. body (h\<lparr>h_locked := True\<rparr>) = (r, g) \<Longrightarrow> installation_bound rs dir g" "installation_bound rs dir h"
  shows "installation_bound rs dir (snd (with_lock body h))"
proof -
  obtain r h' where run: "with_lock body h = (r, h')" by fastforce
  then show ?thesis
  proof (cases rule: with_lock_cases)
    case (2 g)
    then show ?thesis using assms(1) bound_cong[of h' g] run by simp
  qed (use assms run in simp)
qed

lemma operating_lock: "operating w a i c (h\<lparr>h_locked := z\<rparr>) = operating w a i c h"
  by (simp add: operating_def settled_def)

lemma validate_active_bound:
  "installation_bound rs dir h \<Longrightarrow> validate_active_install w a h = (r, h1) \<Longrightarrow> installation_bound rs dir h1"
  using bound_cong[of h1 h] by (auto simp: validate_active_install_def)

lemma rollback_keeps_bound:
  assumes res: "canonical_resolution (w_resolve w)" and root: "is_absolute (a_root a)"
    and bound: "installation_bound (w_resolve w) (a_root a) h"
  shows "installation_bound (w_resolve w) (a_root a) (snd (rollback w a h))"
proof -
  obtain x h1 where v: "validate_active_install w a h = (x, h1)" by fastforce
  have b1: "installation_bound (w_resolve w) (a_root a) h1" by (rule validate_active_bound[OF bound v])
  show ?thesis
  proof (cases x)
    case (Inl e)
    then show ?thesis using v b1 by (simp add: rollback_def bindS_def)
  next
    case (Inr cur)
    then obtain i host where op: "safe_host (a_host a) = Ret host" "fst i = host" "fst (snd i) = role_text (a_role a)"
      "operating w a i (h_current h) h1" "current_release w a h1 = Some cur"
      using active_operating[OF bound] v by blast
    have same: "h_current h1 = h_current h" using op(4) by (simp add: operating_def)
    have "installation_bound (w_resolve w) (a_root a) (snd (with_lock (rollback_locked w a cur) h1))"
      by (rule with_lock_bound[OF rollback_locked_bound[OF res root] b1])
        (use op same in \<open>simp_all add: operating_lock\<close>)
    then show ?thesis using v Inr by (simp add: rollback_def bindS_def)
  qed
qed


lemma staged_target_outcome:
  assumes "staged_target w a h = Ret (st, target)" "installation_bound (w_resolve w) (a_root a) h"
  obtains i where "operating w a i (h_current h) (h\<lparr>h_mem := st\<rparr>)" "bound_release i (release_at w h target)"
    "path_parent target = releases_dir w a"
proof -
  obtain m where read: "read_state h = Ret st" and valid: "validate_state_identity a st = Ret ()" and status: "jget0 st ''status'' = JStr ''staged''"
    and parent: "path_parent target = releases_dir w a" and marker: "release_marker w h target = Ret (JObj m)"
    and same: "list_all (\<lambda>k. json_same (jget0 m k) (jget0 st k)) [''install_id'', ''host'', ''role'']"
    and there: "release_at w h target \<noteq> None"
    using assms(1) by (auto simp: staged_target_def Let_def die_def split: if_splits)
  have st: "st \<noteq> []" using status by (auto simp: jget_def)
  obtain host where host: "safe_host (a_host a) = Ret host"
    using valid st by (auto simp: validate_state_identity_def)
  let ?i = "(host, role_text (a_role a), jget0 st ''install_id'')"
  have "operating w a ?i (h_current h) (h\<lparr>h_mem := st\<rparr>)" by (rule read_operating[OF assms(2) read valid st host])
  moreover have "bound_release ?i (release_at w h target)"
    using same there marker identity_validated[OF valid st host]
    by (auto simp: bound_release_def release_marker_def has_ids_def split: option.splits)
  ultimately show thesis using that parent by blast
qed

lemma activate_keeps_bound:
  assumes res: "canonical_resolution (w_resolve w)" and root: "is_absolute (a_root a)"
    and bound: "installation_bound (w_resolve w) (a_root a) h"
  shows "installation_bound (w_resolve w) (a_root a) (snd (activate w a h))"
proof (cases "bind_res (staged_target w a h) (\<lambda>(st, target). bind_res (release_env w h target) (\<lambda>env. Ret (st, target, env)))")
  case (Inl e)
  then show ?thesis using bound by (simp add: activate_def)
next
  case (Inr q)
  then obtain st target env where st: "staged_target w a h = Ret (st, target)" and q: "q = (st, target, env)" by auto
  obtain i where op: "operating w a i (h_current h) (h\<lparr>h_mem := st\<rparr>)" and t: "bound_release i (release_at w h target)"
    and parent: "path_parent target = releases_dir w a"
    using staged_target_outcome[OF st bound] .
  let ?start = "start_ordered w target (a_role a) env (map_option (absolute w) (a_secret_dir a))"
  let ?B = "\<lambda>g. installation_bound (w_resolve w) (a_root a) g"
  obtain y h1 where started: "?start (h\<lparr>h_mem := st\<rparr>) = (y, h1)" by fastforce
  have "aimed w a i (h_current h) target (h\<lparr>h_mem := st\<rparr>)" using op t by (simp add: aimed_def release_at_def)
  with started have "aimed w a i (h_current h) target h1" by (rule aimed_start)
  then have h1: "operating w a i (h_current h) h1" "bound_release i (release_at w h1 target)" by (simp_all add: aimed_def)
  obtain z h2 where run: "seqS ?start (set_current w target) (h\<lparr>h_mem := st\<rparr>) = (z, h2)" by fastforce
  show ?thesis
  proof (cases z)
    case (Inl e)
    have "h2 = h1" using run started Inl by (cases y) (auto simp: seqS_def bindS_def elim: set_current_cases)
    then have h2: "operating w a i (h_current h) h2" using h1(1) by simp
    have eq: "snd (activate w a h) = snd (seqS (case current_release w a h of None \<Rightarrow> retS () | Some p \<Rightarrow> set_current w p) (raiseS e :: (host, unit) op) h2)"
      unfolding activate_def \<open>_ = Inr q\<close> q by (simp add: run Inl)
    show ?thesis
    proof (cases "current_release w a h")
      case None
      then show ?thesis using operating_bound[OF h2] by (simp add: eq)
    next
      case (Some p)
      then have "led w a (h_current h) = Some p" by (simp add: led_current)
      from back_bound[OF res h2 this, of e] show ?thesis by (simp add: eq Some)
    qed
  next
    case (Inr u)
    let ?e = "activated_state target @ [(''last_error'', JNull)]"
    let ?m = "seqS (note_previous w (current_release w a h) target) (seqS (modS (update_state ?e)) (write_state w))"
    have "set_current w target h1 = (Ret (), h2)" using run started Inr by (cases y) (auto simp: seqS_def bindS_def)
    then have "snd (activate w a h) = snd (seqS (set_current w target) ?m h1)"
      unfolding activate_def \<open>_ = Inr q\<close> q by (simp add: run Inr seqS_def[of "set_current w target"] bindS_def[of "set_current w target"])
    moreover have "keeps (operating w a i (Some target)) ?m"
      by (intro keeps_seqS keeps_operating keeps_operating_update) (simp_all add: activated_state_def)
    ultimately show ?thesis using commit_bound[OF h1(1) absolute_parent[OF parent root] h1(2)] by simp
  qed
qed

lemma uninstall_locked_bound:
  assumes "installation_bound (w_resolve w) (a_root a) h" "uninstall_locked w a target h = (r, h')"
  shows "installation_bound (w_resolve w) (a_root a) h'"
proof -
  let ?B = "installation_bound (w_resolve w) (a_root a)" and ?N = "\<lambda>h. h_current h = None"
  have "keeps ?B (compose w target action check)" for action check
    by (rule keeps_compose) (simp add: installation_bound_def cong: option.case_cong)
  then have c: "triple ?B (compose w target action check) (\<lambda>_. ?B) ?B" for action check
    unfolding keeps_triple .
  have v: "triple ?B (validate_marker w a p) (\<lambda>_. ?B) ?B" for p
    by (rule tripleI) (auto simp: validate_marker_def)
  have remove: "triple ?N (remove_tree w p) (\<lambda>_. ?N) ?B" for p
    by (rule tripleI) (auto simp: remove_tree_def bound_without_pointer Let_def split: if_splits)
  have first: "triple ?N (if a_purge a then remove_tree w p else retS ()) (\<lambda>_. ?N) ?B" for p
    using remove by (cases "a_purge a") (simp_all add: triple_def bound_without_pointer)
  have save: "triple ?N (write_state w) (\<lambda>_. ?B) ?B"
    by (rule tripleI) (auto simp: bound_without_pointer elim: write_state_cases)
  have put: "triple ?N (modS (update_state e)) (\<lambda>_. ?N) ?B" for e
    by (rule triple_modS) simp
  have last: "triple ?N (seqS (if a_purge a then remove_tree w p else retS ()) (seqS (modS (update_state e)) (write_state w))) (\<lambda>_. ?B) ?B" for p e
    by (rule triple_seqS[OF first triple_seqS[OF put save]])
  have unlink: "triple ?B (clear_current w) (\<lambda>_. ?N) ?B"
    by (rule tripleI) (auto simp: clear_current_def split: sum.splits)
  have check: "triple ?B (if a_purge a then seqS (validate_marker w a p) (\<lambda>h. (f h, h)) else retS ()) (\<lambda>_. ?B) ?B"
    for p and f :: "host \<Rightarrow> unit res"
  proof -
    have "triple ?B (\<lambda>h. (f h, h)) (\<lambda>_. ?B) ?B" by (rule triple_pure) (simp split: sum.splits)
    from triple_seqS[OF v this] show ?thesis by (cases "a_purge a") (simp_all add: triple_def)
  qed
  have tail: "triple ?B (seqS (compose w target action True) (seqS (clear_current w)
      (seqS (if a_purge a then remove_tree w p else retS ()) (seqS (modS (update_state e)) (write_state w))))) (\<lambda>_. ?B) ?B" for action p e
    by (rule triple_seqS[OF c triple_seqS[OF unlink last]])
  have env: "triple ?B (\<lambda>h. (release_env w h target, h)) (\<lambda>_. ?B) ?B" by (rule triple_pure) (simp split: sum.splits)
  have "triple ?B (uninstall_locked w a target) (\<lambda>_. ?B) ?B"
    unfolding uninstall_locked_def Let_def by (rule triple_bindS[OF env]) (rule triple_seqS[OF check tail])
  then show ?thesis using assms by (cases r) (auto dest: tripleD)
qed

lemma uninstall_keeps_bound:
  assumes "installation_bound (w_resolve w) (a_root a) h"
  shows "installation_bound (w_resolve w) (a_root a) (snd (uninstall w a h))"
proof -
  obtain x h1 where v: "validate_active_install w a h = (x, h1)" by fastforce
  have b1: "installation_bound (w_resolve w) (a_root a) h1" by (rule validate_active_bound[OF assms v])
  have "installation_bound (w_resolve w) (a_root a) (snd (with_lock (uninstall_locked w a cur) h1))" for cur
    by (rule with_lock_bound[OF uninstall_locked_bound b1]) (use b1 bound_cong[of "h1\<lparr>h_locked := True\<rparr>" h1] in simp_all)
  then show ?thesis using v b1 by (cases x) (simp_all add: uninstall_def bindS_def)
qed

text \<open>C17. The active release belongs to the installation.  However often installing, activating, rolling back and uninstalling
  succeed or fail on a machine, with whatever outcome of docker, of the probes, of changing the link and of writing files, the link
  \<open>current\<close> leads to a release directory whose marker names the host, the role and the id that the state file names.  The one write that has
  to succeed is the record of a failed installation (\<open>records_failures\<close>), because the recovery before it overwrites the state file.\<close>

theorem active_release_stays_bound:
  assumes "host_reached rs dir h" "canonical_resolution rs" "is_absolute dir"
  shows "installation_bound rs dir h"
  using assms
proof induction
  case (fresh h)
  then show ?case by (simp add: bound_without_pointer)
next
  case (performed h w a yes c)
  then have bound: "installation_bound (w_resolve w) (a_root a) h" and res: "canonical_resolution (w_resolve w)"
    and root: "is_absolute (a_root a)" by simp_all
  note kept = install_keeps_bound[OF res performed(3) root bound] activate_keeps_bound[OF res root bound]
    rollback_keeps_bound[OF res root bound] uninstall_keeps_bound[OF bound]
  have "installation_bound (w_resolve w) (a_root a) (snd (perform w a yes c h))"
    using bound kept by (cases c) (simp_all add: perform_def)
  then show ?case using performed by simp
qed

end
