(* ===== verification/LifecycleEffects.thy ===== *)
theory LifecycleEffects
  imports LifecycleSafety
begin

text \<open>
  What single operations of theory Lifecycle do: the order in which the services of a resolver start, two rollbacks, what a rollback
  starts, and what a purge removes.
\<close>

section \<open>Services start in order\<close>

lemma record_phase_recorded:
  assumes "record_phase w name digest h = (x, h')"
  shows "phase_recorded (h_mem h) n \<Longrightarrow> phase_recorded (h_mem h') n" "x = Ret () \<Longrightarrow> phase_recorded (h_mem h') name"
    "h_log h' = h_log h"
  using assms by (auto simp: record_phase_def Let_def phase_recorded_def jget_def write_state_def split: json.splits option.splits if_splits sum.splits)

text \<open>How a phase answered that it is ready in a state: to the waiting that follows its command, or, when no command was given for
  it, to a probe.\<close>

definition phase_answered :: "world \<Rightarrow> (string, string) dict \<Rightarrow> path option \<Rightarrow> string \<Rightarrow> (path \<times> string list) list \<Rightarrow> host \<Rightarrow> bool" where
  "phase_answered w env secret_dir name cmd g =
     (if cmd = [] then w_probe w g name env secret_dir = Ret True else w_wait w g name env secret_dir = Ret ())"

text \<open>A run of the phases that completed \<open>k\<close> of them: \<open>cmds ! i\<close> is what was given to docker for phase \<open>i\<close>, at most its own command, and
  nothing after the phase that follows the complete ones; phase \<open>i\<close> answered in the state \<open>gs ! i\<close>, when docker had been given exactly the
  commands up to this phase.\<close>

definition started_in_order ::
  "world \<Rightarrow> path \<Rightarrow> (string, string) dict \<Rightarrow> path option \<Rightarrow> (string \<times> string list) list \<Rightarrow> host \<Rightarrow> unit res \<Rightarrow> host \<Rightarrow>
   nat \<Rightarrow> (path \<times> string list) list list \<Rightarrow> host list \<Rightarrow> bool" where
  "started_in_order w target env secret_dir steps h x h' k cmds gs \<longleftrightarrow>
     k \<le> length steps \<and> length gs = k \<and> length cmds = length steps \<and> h_log h' = h_log h @ concat cmds \<and>
     (\<forall>i<length steps. cmds ! i = [] \<or> cmds ! i = [(target, snd (steps ! i))]) \<and>
     (\<forall>i. k < i \<longrightarrow> i < length steps \<longrightarrow> cmds ! i = []) \<and>
     (\<forall>i<k. h_log (gs ! i) = h_log h @ concat (take (Suc i) cmds) \<and>
        phase_answered w env secret_dir (fst (steps ! i)) (cmds ! i) (gs ! i) \<and> phase_recorded (h_mem h') (fst (steps ! i))) \<and>
     (x = Ret () \<longrightarrow> k = length steps)"

definition phase_run ::
  "world \<Rightarrow> path \<Rightarrow> (string, string) dict \<Rightarrow> path option \<Rightarrow> string \<times> string list \<Rightarrow> host \<Rightarrow> unit res \<Rightarrow> host \<Rightarrow> (path \<times> string list) list \<Rightarrow> bool" where
  "phase_run w target env secret_dir step h x h' cmd \<longleftrightarrow>
     (cmd = [] \<or> cmd = [(target, snd step)]) \<and> h_log h' = h_log h @ cmd \<and>
     (\<forall>n. phase_recorded (h_mem h) n \<longrightarrow> phase_recorded (h_mem h') n) \<and>
     (x = Ret () \<longrightarrow> phase_recorded (h_mem h') (fst step) \<and>
        (\<exists>g. h_log g = h_log h @ cmd \<and> phase_answered w env secret_dir (fst step) cmd g))"

lemma run_phase_steps:
  assumes run: "run_service_phase w target env secret_dir step h = (x, h')"
  shows "\<exists>cmd. phase_run w target env secret_dir step h x h' cmd"
proof -
  obtain name action where s: "step = (name, action)" by fastforce
  obtain y h1 where cmp: "compose w target action True h = (y, h1)" by fastforce
  show ?thesis
  proof (cases y)
    case (Inl e)
    then have x: "x = Inl e" "h' = h1" using run cmp by (simp_all add: run_service_phase_def s seqS_def bindS_def)
    have "h_mem h1 = h_mem h \<and> (h_log h1 = h_log h \<or> h_log h1 = h_log h @ [(target, action)])"
      using cmp by (auto simp: compose_def split: sum.splits)
    then show ?thesis unfolding x phase_run_def by (elim conjE disjE) (rule exI[of _ "[]"], simp, rule exI[of _ "[(target, action)]"], simp add: s)
  next
    case (Inr z)
    have h1: "h_mem h1 = h_mem h" "h_log h1 = h_log h @ [(target, action)]"
      using cmp Inr by (auto simp: compose_def split: sum.splits if_splits)
    show ?thesis
    proof (rule exI[of _ "[(target, action)]"], cases "w_wait w h1 name env secret_dir")
      case (Inl e)
      then have "x = Inl e" "h' = h1" using run cmp Inr by (simp_all add: run_service_phase_def s seqS_def bindS_def)
      then show "phase_run w target env secret_dir step h x h' [(target, action)]" using h1 by (simp add: phase_run_def s)
    next
      case wait: (Inr u)
      then have rec: "record_phase w name (text_digest (py_join '' '' action)) h1 = (x, h')"
        using run cmp Inr by (simp add: run_service_phase_def s seqS_def bindS_def)
      show "phase_run w target env secret_dir step h x h' [(target, action)]"
        using record_phase_recorded[OF rec] h1 wait by (auto simp: phase_run_def s phase_answered_def)
    qed
  qed
qed

lemma start_phase_steps:
  assumes "start_phase w target env secret_dir step h = (x, h')"
  shows "\<exists>cmd. phase_run w target env secret_dir step h x h' cmd"
proof (cases "phase_recorded (h_mem h) (fst step)")
  case False
  then show ?thesis using assms run_phase_steps by (simp add: start_phase_def)
next
  case True
  show ?thesis
  proof (cases "w_probe w h (fst step) env secret_dir = Ret True")
    case ready: True
    then have "x = Ret ()" "h' = h" using assms True by (simp_all add: start_phase_def)
    then show ?thesis using True ready by (intro exI[of _ "[]"]) (auto simp: phase_run_def phase_answered_def)
  next
    case False
    then consider e where "x = Inl e" "h' = h" | "run_service_phase w target env secret_dir step h = (x, h')"
      using assms True by (cases "w_probe w h (fst step) env secret_dir") (auto simp: start_phase_def)
    then show ?thesis using run_phase_steps by cases (auto simp: phase_run_def intro: exI[of _ "[]"])
  qed
qed

lemma all_less_Suc: "(\<forall>i<Suc n. P i) \<longleftrightarrow> P 0 \<and> (\<forall>i<n. P (Suc i))"
  by (auto simp: less_Suc_eq_0_disj)

lemma start_phases_in_order:
  assumes "forS steps (start_phase w target env secret_dir) h = (x, h')"
  shows "\<exists>k cmds gs. started_in_order w target env secret_dir steps h x h' k cmds gs \<and>
    (\<forall>n. phase_recorded (h_mem h) n \<longrightarrow> phase_recorded (h_mem h') n)"
  using assms
proof (induction steps arbitrary: h)
  case Nil
  then show ?case by (simp add: started_in_order_def)
next
  case (Cons s ss)
  obtain y h1 where one: "start_phase w target env secret_dir s h = (y, h1)" by fastforce
  obtain cmd where s: "phase_run w target env secret_dir s h y h1 cmd" using start_phase_steps[OF one] by blast
  show ?case
  proof (cases y)
    case (Inl e)
    then have x: "x = Inl e" "h' = h1" using Cons.prems one by (simp_all add: seqS_def bindS_def)
    have quiet: "concat (replicate n []) = []" for n by (induction n) simp_all
    have "started_in_order w target env secret_dir (s # ss) h x h' 0 (cmd # replicate (length ss) []) []"
      using s unfolding started_in_order_def x by (auto simp: phase_run_def nth_Cons quiet split: nat.splits)
    then show ?thesis using s x by (auto simp: phase_run_def)
  next
    case (Inr u)
    then have "forS ss (start_phase w target env secret_dir) h1 = (x, h')" using Cons.prems one by (simp add: seqS_def bindS_def)
    from Cons.IH[OF this] obtain k cmds gs where r: "started_in_order w target env secret_dir ss h1 x h' k cmds gs"
      and mono: "\<forall>n. phase_recorded (h_mem h1) n \<longrightarrow> phase_recorded (h_mem h') n" by blast
    obtain g where g: "h_log g = h_log h @ cmd" "phase_answered w env secret_dir (fst s) cmd g" "phase_recorded (h_mem h1) (fst s)"
      using s Inr by (auto simp: phase_run_def)
    have l: "h_log h1 = h_log h @ cmd" and c: "cmd = [] \<or> cmd = [(target, snd s)]" using s by (auto simp: phase_run_def)
    have "started_in_order w target env secret_dir (s # ss) h x h' (Suc k) (cmd # cmds) (g # gs)"
      unfolding started_in_order_def all_less_Suc length_Cons nth_Cons_0 nth_Cons_Suc
      using r g c mono unfolding started_in_order_def l by (auto simp: nth_Cons split: nat.splits)
    moreover have "\<forall>n. phase_recorded (h_mem h) n \<longrightarrow> phase_recorded (h_mem h') n" using s mono by (auto simp: phase_run_def)
    ultimately show ?thesis by blast
  qed
qed

text \<open>C18. The services of a resolver host start in order, each one only after the one before it is ready.  Whether the start succeeds
  or stops at any point, some number \<open>k\<close> of the phases is complete.  For each of them readiness was really asked and confirmed: by the
  waiting after its command, or by a probe when it was recorded already and no command was given; and this was at a moment
  when docker had been given exactly the commands of the phases up to it.  Only the phase after the complete ones may have been given
  a command, no later one.  The complete phases are recorded, and when the start succeeds, they are all.\<close>

theorem services_start_in_order:
  assumes "resolver_role r" "start_ordered w target r env secret_dir h = (x, h')"
  shows "\<exists>k cmds gs. started_in_order w target env secret_dir (resolver_sequence r) h x h' k cmds gs"
  using start_phases_in_order[of "resolver_sequence r" w target env secret_dir h x h'] assms
  by (simp add: start_ordered_def)

section \<open>Rolling back\<close>

text \<open>A path whose text determines it.\<close>

definition plain_path :: "path \<Rightarrow> bool" where
  "plain_path p = (p_root p = ''/'' \<and> p_parts p \<noteq> [] \<and> list_all (\<lambda>s. s \<noteq> [] \<and> s \<noteq> ''.'' \<and> CHR ''/'' \<notin> set s) (p_parts p) \<and>
     \<not> is_space (last (last (p_parts p))))"

lemma last_py_join: "ws \<noteq> [] \<Longrightarrow> last ws \<noteq> [] \<Longrightarrow> py_join sep ws \<noteq> [] \<and> last (py_join sep ws) = last (last ws)"
  by (induction sep ws rule: py_join.induct) auto

lemma plain_path_text:
  assumes "plain_path p"
  shows "to_path (py_strip (path_text p @ [CHR 0x0A])) = p"
proof -
  obtain ws where p: "p = Path ''/'' ws" and ws: "ws \<noteq> []" "list_all (\<lambda>s. s \<noteq> [] \<and> s \<noteq> ''.'' \<and> CHR ''/'' \<notin> set s) ws"
    and last: "\<not> is_space (last (last ws))"
    using assms by (cases p) (auto simp: plain_path_def)
  let ?t = "py_join ''/'' ws"
  have written: "path_text p = CHR ''/'' # ?t" by (simp add: path_text_def p)
  have lt: "?t \<noteq> [] \<and> last ?t = last (last ws)" using last_py_join[OF ws(1)] ws by (simp add: list_all_iff)
  have "rstrip_while is_space ((CHR ''/'' # ?t) @ [CHR 0x0A]) = rstrip_while is_space (CHR ''/'' # ?t)"
    by (simp add: rstrip_while_def is_space_def)
  also have "\<dots> = CHR ''/'' # ?t" by (rule rstrip_while_id) (use last lt in auto)
  finally have strip: "py_strip (path_text p @ [CHR 0x0A]) = CHR ''/'' # ?t"
    by (simp add: written py_strip_def py_lstrip_def is_space_def)
  have "CHR ''/'' # ?t = py_join ''/'' ([] # ws)" using ws(1) by (cases ws) auto
  then have split: "split_on CHR ''/'' (CHR ''/'' # ?t) = [] # ws"
    using split_on_join[of "[] # ws" "CHR ''/''"] ws by (simp add: list_all_iff)
  have one: "\<not> starts_with ?t ''/''"
    using ws by (cases ws rule: list.exhaust; cases "hd ws"; cases "tl ws") auto
  show ?thesis unfolding to_path_def strip split using one ws(2) by (auto simp: p list_all_iff filter_id_conv)
qed

definition rolled_back :: "path \<Rightarrow> path \<Rightarrow> host \<Rightarrow> host" where
  "rolled_back p c h = stored (update_state
     [(''release'', JStr (path_text p)), (''active_release'', JStr (path_text p)), (''staged_release'', JNull),
      (''status'', JStr ''complete''), (''status_zh'', JStr ''wancheng''), (''activated'', JBool True), (''last_error'', JNull)]
     (pointing p h\<lparr>h_previous := Some (path_text c @ [CHR 0x0A])\<rparr>))"

lemma writes_Ret:
  "write_state w h = (Ret u, g) \<Longrightarrow> g = stored h" "set_current w p h = (Ret u, g) \<Longrightarrow> g = pointing p h"
  "write_previous w p h = (Ret u, g) \<Longrightarrow> g = h\<lparr>h_previous := Some (path_text p @ [CHR 0x0A])\<rparr>"
  by (auto simp: write_state_def set_current_def write_previous_def split: sum.splits)

lemma rollback_locked_done:
  assumes "rollback_locked w a c h = (Ret (), g)"
  obtains p h1 env h2 where "rollback_target w a h = Ret p" "compose w p [''config'', ''--quiet''] False h = (Ret True, h1)"
    "release_env w h1 p = Ret env" "start_ordered w p (a_role a) env (rollback_secret_dir env) h1 = (Ret (), h2)" "g = rolled_back p c h2"
proof -
  obtain p h1 where p: "rollback_target w a h = Ret p" and cmp: "compose w p [''config'', ''--quiet''] False h = (Ret True, h1)"
    using assms by (auto simp: rollback_locked_def bindS_Inr die_def split: if_splits)
  obtain y h2 where run: "bindS (\<lambda>h. (release_env w h p, h)) (\<lambda>env. start_ordered w p (a_role a) env (rollback_secret_dir env)) h1 = (y, h2)"
    by fastforce
  note steps = bindS_eq(1)[of "\<lambda>h. (rollback_target w a h, h)"] bindS_eq(1)[of "compose w p [''config'', ''--quiet''] False"]
  have y: "y = Ret () \<and> g = rolled_back p c h2"
  proof (cases y)
    case (Inl e)
    then show ?thesis using assms p cmp run by (simp add: rollback_locked_def steps seqS_Inr)
  next
    case (Inr u)
    then show ?thesis using assms p cmp run
      by (auto simp: rollback_locked_def steps seqS_Inr rolled_back_def dest!: writes_Ret)
  qed
  with run show thesis using that[OF p cmp] by (auto simp: bindS_Inr)
qed

lemma rollback_success:
  assumes "rollback w a h = (Ret (), h')"
  obtains c st p h1 env h2 where "current_release w a h = Some c" "read_state h = Ret st"
    "rollback_target w a (h\<lparr>h_mem := st, h_locked := True\<rparr>) = Ret p"
    "compose w p [''config'', ''--quiet''] False (h\<lparr>h_mem := st, h_locked := True\<rparr>) = (Ret True, h1)"
    "start_ordered w p (a_role a) env (rollback_secret_dir env) h1 = (Ret (), h2)" "h' = rolled_back p c h2\<lparr>h_locked := False\<rparr>"
proof -
  obtain c h1 where v: "validate_active_install w a h = (Inr c, h1)" and run: "with_lock (rollback_locked w a c) h1 = (Ret (), h')"
    using assms by (auto simp: rollback_def bindS_Inr)
  obtain st where st: "read_state h = Ret st" "current_release w a h = Some c" "h1 = h\<lparr>h_mem := st\<rparr>"
    using validate_active_outcome[OF v] by blast
  obtain g where g: "rollback_locked w a c (h1\<lparr>h_locked := True\<rparr>) = (Ret (), g)" "h' = g\<lparr>h_locked := False\<rparr>"
    using run by (rule with_lock_cases) (auto simp: die_def)
  from g(1) show thesis
    by (rule rollback_locked_done) (use that[OF st(2,1)] st(3) g(2) in simp)
qed

lemma rollback_done:
  assumes "rollback w a h = (Ret (), h')"
  shows "\<exists>c line p st. current_release w a h = Some c \<and> h_previous h = Some line \<and> p = to_path (py_strip line) \<and>
    h_current h' = Some p \<and> h_previous h' = Some (path_text c @ [CHR 0x0A]) \<and>
    h_file h' = Some (Ret (JObj st)) \<and> jget0 st ''active_release'' = JStr (path_text p)"
  using assms
proof (rule rollback_success)
  fix c st p h1 env h2
  assume c: "current_release w a h = Some c" and target: "rollback_target w a (h\<lparr>h_mem := st, h_locked := True\<rparr>) = Ret p"
    and h': "h' = rolled_back p c h2\<lparr>h_locked := False\<rparr>"
  obtain line where "h_previous h = Some line" "p = to_path (py_strip line)"
    using target by (auto simp: rollback_target_def Let_def die_def split: option.splits if_splits)
  moreover have "h_current h' = Some p" "h_previous h' = Some (path_text c @ [CHR 0x0A])"
    by (simp_all add: h' rolled_back_def stored_def update_state_def pointing_def)
  moreover have "\<exists>st. h_file h' = Some (Ret (JObj st)) \<and> jget0 st ''active_release'' = JStr (path_text p)"
    by (simp add: h' rolled_back_def stored_def update_state_def pointing_def jget_def)
  ultimately show ?thesis using c by blast
qed

text \<open>C19. Two rollbacks cancel out: the second one leads back to the release that was active before the first, records it as active,
  and notes the release in between as the one to return to.\<close>

theorem two_rollbacks_return:
  assumes "rollback w a h = (Ret (), h1)" "rollback w' a h1 = (Ret (), h2)" "current_release w a h = Some c" "plain_path c"
  shows "h_current h2 = Some c \<and>
    (\<exists>st. h_file h2 = Some (Ret (JObj st)) \<and> jget0 st ''active_release'' = JStr (path_text c)) \<and>
    (\<exists>p. current_release w' a h1 = Some p \<and> h_previous h2 = Some (path_text p @ [CHR 0x0A]))"
  using rollback_done[OF assms(1)] rollback_done[OF assms(2)] assms(3) plain_path_text[OF assms(4)] by auto


lemma rollback_frame:
  assumes "rollback w a h = (Ret (), h')"
  shows "h_releases h' = h_releases h" "h_dirs h' = h_dirs h"
proof -
  let ?I = "\<lambda>g. h_releases g = h_releases h \<and> h_dirs g = h_dirs h"
  have blind: "phase_blind ?I" by (simp add: phase_blind_def)
  obtain c st p h1 env h2 where cmp: "compose w p [''config'', ''--quiet''] False (h\<lparr>h_mem := st, h_locked := True\<rparr>) = (Ret True, h1)"
    and run: "start_ordered w p (a_role a) env (rollback_secret_dir env) h1 = (Ret (), h2)" and h': "h' = rolled_back p c h2\<lparr>h_locked := False\<rparr>"
    using rollback_success[OF assms] .
  have "?I h1" using compose_frame[OF cmp] by auto
  from keepsD[OF keeps_start_ordered[OF blind] this] have "?I h2" using run by (metis (no_types, lifting) snd_conv)
  then show "h_releases h' = h_releases h" "h_dirs h' = h_dirs h"
    by (simp_all add: h' rolled_back_def stored_def update_state_def pointing_def)
qed

lemma start_phases_ready:
  assumes "\<forall>s\<in>set steps. phase_recorded (h_mem h) (fst s)" "\<forall>g n e d. w_probe w g n e d = Ret True"
  shows "forS steps (start_phase w target env secret_dir) h = (Ret (), h)"
  using assms(1) by (induction steps) (simp_all add: start_phase_def assms(2) seqS_def bindS_def)

text \<open>C21. A rollback of a resolver host whose recorded phases are complete and whose probes answer starts no service: the only
  command it gives to docker is the static check of the older release, and then \<open>current\<close> leads there, while the containers of
  the newer release go on running.\<close>

theorem rollback_starts_no_service:
  assumes "rollback w a h = (Ret (), h')" "resolver_role (a_role a)" "read_state h = Ret st"
    "\<forall>s\<in>set (resolver_sequence (a_role a)). phase_recorded st (fst s)" "\<forall>g n e d. w_probe w g n e d = Ret True"
  shows "\<exists>p. h_current h' = Some p \<and> h_log h' = h_log h @ [(p, [''config'', ''--quiet''])]"
  using assms(1)
proof (rule rollback_success)
  fix c st' p h1 env h2
  assume st: "read_state h = Ret st'" and cmp: "compose w p [''config'', ''--quiet''] False (h\<lparr>h_mem := st', h_locked := True\<rparr>) = (Ret True, h1)"
    and run: "start_ordered w p (a_role a) env (rollback_secret_dir env) h1 = (Ret (), h2)" and h': "h' = rolled_back p c h2\<lparr>h_locked := False\<rparr>"
  have h1: "h_mem h1 = st" "h_log h1 = h_log h @ [(p, [''config'', ''--quiet''])]"
    using cmp st assms(3) by (auto simp: compose_def split: sum.splits if_splits)
  have "start_ordered w p (a_role a) env (rollback_secret_dir env) h1 = (Ret (), h1)"
    unfolding start_ordered_def using assms(2,4,5) h1(1) by (simp add: start_phases_ready)
  then show ?thesis using run h1(2) by (simp add: h' rolled_back_def stored_def update_state_def pointing_def)
qed

section \<open>What a recovery does to the state file\<close>

text \<open>The recovery of an installation starts the services of the older release with a dictionary that holds nothing but its phases, and
  each phase that is recorded writes it over the state file.  When this start returns, the file names no host, no role and no
  installation; unless the record of the failure follows, every later operation is refused with \<open>STATE005\<close>.\<close>

definition only_phases :: "jdict \<Rightarrow> bool" where
  "only_phases d = (\<exists>ph. d = [(''phases'', JObj ph)])"

definition forgotten :: "host \<Rightarrow> bool" where
  "forgotten h = (only_phases (h_mem h) \<and> (\<exists>st. h_file h = Some (Ret (JObj st)) \<and> only_phases st))"

lemma record_phase_forgets: "triple (\<lambda>h. only_phases (h_mem h)) (record_phase w name digest) (\<lambda>_. forgotten) (\<lambda>_. True)"
  by (rule tripleI) (auto simp: record_phase_def Let_def only_phases_def forgotten_def dict_setdefault_def jget_def write_state_def stored_def split: sum.splits)

lemma run_service_phase_forgets: "triple (\<lambda>h. only_phases (h_mem h)) (run_service_phase w p env sd step) (\<lambda>_. forgotten) (\<lambda>_. True)"
proof -
  let ?P = "\<lambda>h. only_phases (h_mem h)"
  have cmp: "triple ?P (compose w p action True) (\<lambda>_. ?P) (\<lambda>_. True)" for action
    by (rule tripleI) (auto simp: compose_def split: sum.splits if_splits)
  have wait: "triple ?P (\<lambda>h. (w_wait w h name env sd, h)) (\<lambda>_. ?P) (\<lambda>_. True)" for name
    by (rule triple_pure) (auto split: sum.splits)
  show ?thesis unfolding run_service_phase_def
    by (cases step) (simp, rule triple_seqS[OF cmp triple_seqS[OF wait record_phase_forgets]])
qed

lemma start_phase_forgets: "triple forgotten (start_phase w p env sd step) (\<lambda>_. forgotten) (\<lambda>_. True)"
proof (rule tripleI)
  fix h h' x assume h: "forgotten h" and run: "start_phase w p env sd step h = (Inr x, h')"
  then have "h' = h \<or> run_service_phase w p env sd step h = (Inr x, h')"
    by (auto simp: start_phase_def split: if_splits sum.splits)
  then show "forgotten h'"
  proof
    assume run: "run_service_phase w p env sd step h = (Inr x, h')"
    have "only_phases (h_mem h)" using h by (simp add: forgotten_def)
    then show ?thesis using run by (rule tripleD(1)[OF run_service_phase_forgets])
  qed (use h in simp)
qed simp

lemma triple_forS:
  assumes "\<And>y. triple I (f y) (\<lambda>_. I) (\<lambda>_. True)"
  shows "triple I (forS ys f) (\<lambda>_. I) (\<lambda>_. True)"
proof (induction ys)
  case (Cons y ys)
  from triple_seqS[OF assms Cons] show ?case by simp
qed (simp add: triple_def)

lemma start_ordered_forgets:
  assumes "h_mem h = [(''phases'', JObj [])]" "start_ordered w p r env sd h = (Ret (), h')"
  shows "forgotten h'"
proof -
  let ?P = "\<lambda>h. only_phases (h_mem h)"
  have P: "?P h" by (simp add: assms(1) only_phases_def)
  have cmp: "triple ?P (compose w p action True) (\<lambda>_. ?P) (\<lambda>_. True)" for action
    by (rule tripleI) (auto simp: compose_def split: sum.splits if_splits)
  have wait: "triple ?P (\<lambda>h. (w_wait w h name env sd, h)) (\<lambda>_. ?P) (\<lambda>_. True)" for name
    by (rule triple_pure) (auto split: sum.splits)
  note rec = record_phase_forgets
  consider "resolver_role r" | "\<not> resolver_role r" "norn_role r" | "\<not> resolver_role r" "\<not> norn_role r" by blast
  then show ?thesis
  proof cases
    case 1
    obtain s ss where steps: "resolver_sequence r = s # ss" by (simp add: resolver_sequence_def)
    obtain u h1 where one: "start_phase w p env sd s h = (Ret u, h1)" and more: "forS ss (start_phase w p env sd) h1 = (Ret (), h')"
      using assms(2) 1 by (auto simp: start_ordered_def steps seqS_Inr)
    have "run_service_phase w p env sd s h = (Ret u, h1)"
      using one by (simp add: start_phase_def phase_recorded_def assms(1) jget_def)
    then have "forgotten h1" by (rule tripleD(1)[OF run_service_phase_forgets P])
    from tripleD(1)[OF triple_forS[OF start_phase_forgets] this more] show ?thesis .
  next
    case 2
    have "triple ?P (start_ordered w p r env sd) (\<lambda>_. forgotten) (\<lambda>_. True)"
      using 2 triple_seqS[OF cmp triple_seqS[OF cmp triple_seqS[OF wait rec]]] by (simp add: start_ordered_def)
    from tripleD(1)[OF this P assms(2)] show ?thesis .
  next
    case 3
    have "triple ?P (start_ordered w p r env sd) (\<lambda>_. forgotten) (\<lambda>_. True)"
      using 3 triple_seqS[OF cmp rec] by (simp add: start_ordered_def)
    from tripleD(1)[OF this P assms(2)] show ?thesis .
  qed
qed

lemma recovery_forgets_the_installation:
  assumes "start_previous w a p h = (Ret (), h')"
  shows "\<exists>st. h_file h' = Some (Ret (JObj st)) \<and> jget0 st ''host'' = JNull \<and> jget0 st ''install_id'' = JNull \<and>
    (safe_host (a_host a) = Ret host \<longrightarrow> validate_state_identity a st = die ''STATE005'')"
proof -
  obtain env g where run: "start_ordered w p (a_role a) env (map_option (absolute w) (a_secret_dir a)) (h\<lparr>h_mem := [(''phases'', JObj [])]\<rparr>) = (Ret (), g)"
    and h': "h' = g\<lparr>h_mem := h_mem h\<rparr>"
    using assms unfolding start_previous_def
    by (cases "release_env w h p"; cases "start_ordered w p (a_role a) (projr (release_env w h p)) (map_option (absolute w) (a_secret_dir a)) (h\<lparr>h_mem := [(''phases'', JObj [])]\<rparr>)") simp_all
  have "forgotten g" by (rule start_ordered_forgets[OF _ run]) simp
  then obtain ph where "h_file h' = Some (Ret (JObj [(''phases'', JObj ph)]))" by (auto simp: h' forgotten_def only_phases_def)
  then show ?thesis by (simp add: jget_def validate_state_identity_def)
qed

section \<open>Purging\<close>

text \<open>What \<open>uninstall\<close> has to have checked of a directory of data \<open>d\<close> before it removes anything there.\<close>

definition purge_allowed :: "world \<Rightarrow> args \<Rightarrow> host \<Rightarrow> jdict \<Rightarrow> path \<Rightarrow> bool" where
  "purge_allowed w a h st d =
     (a_purge a \<and> data_path_allowed w d (a_root a) \<and> jget0 st ''data_dir'' = JStr (path_text (w_resolve w d)) \<and>
      (case (load_marker w h d, safe_host (a_host a)) of
         (Inr marker, Inr host) \<Rightarrow>
           list_all (\<lambda>(k, v). json_same (jget0 marker k) v) (expected_marker w a host d (jget0 st ''install_id''))
       | _ \<Rightarrow> False))"

lemma checked_purge:
  assumes "seqS (validate_marker w a d) (\<lambda>h. (if JStr (path_text (w_resolve w d)) \<noteq> jget0 (h_mem h) ''data_dir'' then die ''UN001'' else Ret (), h)) h
     = (Ret (), h')" "a_purge a"
  shows "h' = h \<and> purge_allowed w a h (h_mem h) d"
  using assms by (auto simp: seqS_Inr validate_marker_def purge_allowed_def die_def list_all_iff list_ex_iff split: if_splits)

lemma uninstall_locked_purges:
  assumes run: "uninstall_locked w a c h = (r, g)" and lost: "h_dirs h q \<noteq> None" "h_dirs g q = None"
  shows "\<exists>d. purge_allowed w a h (h_mem h) d \<and> (q = w_resolve w d \<or> in_parents (w_resolve w d) q)"
proof (cases "release_env w h c")
  case (Inl e)
  then show ?thesis using assms by (simp add: uninstall_locked_def bindS_def)
next
  case (Inr env)
  define d where "d = to_path (env_get env ''RI_FIELD_DATA_DIR'')"
  let ?D = "\<lambda>k. h_dirs k = h_dirs h"
  let ?L = "\<lambda>k. \<forall>q. h_dirs h q \<noteq> None \<and> h_dirs k q = None \<longrightarrow> a_purge a \<and> (q = w_resolve w d \<or> in_parents (w_resolve w d) q)"
  let ?check = "if a_purge a
    then seqS (validate_marker w a d) (\<lambda>h. (if JStr (path_text (w_resolve w d)) \<noteq> jget0 (h_mem h) ''data_dir'' then die ''UN001'' else Ret (), h))
    else retS ()"
  define rest where "rest = seqS (compose w c [''down'', ''--remove-orphans''] True)
     (seqS (clear_current w) (seqS (if a_purge a then remove_tree w d else retS ())
     (seqS (modS (update_state [(''status'', JStr ''uninstalled''), (''status_zh'', JStr ''yixiezai''), (''activated'', JBool False),
              (''data_purged'', JBool (a_purge a)), (''last_error'', JNull)])) (write_state w))))"
  have eq: "uninstall_locked w a c h = seqS ?check rest h"
    by (simp add: uninstall_locked_def bindS_def[of "\<lambda>h. (release_env w h c, h)"] Inr d_def[symmetric] rest_def)
  have "triple ?D (compose w c action True) (\<lambda>_. ?D) ?D" for action
    unfolding keeps_triple[symmetric] by (rule keeps_compose) simp
  then have c: "triple ?D (compose w c action True) (\<lambda>_. ?D) ?L" for action
    by (rule triple_weaken) auto
  have remove: "triple ?D (if a_purge a then remove_tree w d else retS ()) (\<lambda>_. ?L) ?L"
    by (rule tripleI) (auto simp: remove_tree_def Let_def split: if_splits)
  have unlink: "triple ?D (clear_current w) (\<lambda>_. ?D) ?L" by (rule tripleI) (auto simp: clear_current_def split: sum.splits)
  have put: "triple ?L (modS (update_state e)) (\<lambda>_. ?L) ?L" for e by (rule triple_modS) simp
  have save: "triple ?L (write_state w) (\<lambda>_. ?L) ?L" by (rule tripleI) (auto elim!: write_state_cases)
  have rest: "triple ?D rest (\<lambda>_. ?L) ?L"
    unfolding rest_def by (rule triple_seqS[OF c triple_seqS[OF unlink triple_seqS[OF remove triple_seqS[OF put save]]]])
  obtain y h2 where check: "?check h = (y, h2)" by fastforce
  have h2: "h2 = h" using check by (auto simp: seqS_def bindS_def validate_marker_def split: if_splits sum.splits)
  show ?thesis
  proof (cases y)
    case (Inl e)
    then have "g = h" using run check h2 unfolding eq by (simp add: seqS_def bindS_def)
    then show ?thesis using lost by simp
  next
    case (Inr u)
    then have "rest h = (r, g)" using run check h2 unfolding eq by (simp add: seqS_def bindS_def)
    then have "?L g" using rest by (cases r) (auto dest: tripleD)
    then have "a_purge a" "q = w_resolve w d \<or> in_parents (w_resolve w d) q" using lost by auto
    moreover from this have "purge_allowed w a h (h_mem h) d" using checked_purge[of w a d h h2] check Inr by simp
    ultimately show ?thesis by blast
  qed
qed


end
