(* ===== verification/LifecycleDemo.thy ===== *)
theory LifecycleDemo
  imports LifecycleEffects
begin

text \<open>
  A small host on which the operations of theory Lifecycle run: two releases of a management host and of a resolver, a data directory
  with its marker, on a machine whose docker does as it is told.
\<close>

definition demo_root :: path where "demo_root = Path ''/'' [''o'']"
definition demo_old :: path where "demo_old = Path ''/'' [''o'', ''releases'', ''a1'']"
definition demo_new :: path where "demo_new = Path ''/'' [''o'', ''releases'', ''b2'']"
definition demo_data :: path where "demo_data = Path ''/'' [''o'', ''data'']"

definition short_env :: string where "short_env = ''RI_FIELD_COMPOSE_PROJECT=d''"
definition demo_env :: string where "demo_env = short_env @ [CHR 0x0A] @ ''RI_FIELD_DATA_DIR=/o/data''"

definition demo_args :: "role \<Rightarrow> bool \<Rightarrow> args" where
  "demo_args r purge = \<lparr>a_role = r, a_host = ''m1'', a_root = demo_root, a_secret_dir = None, a_no_start = False, a_purge = purge\<rparr>"

text \<open>A machine without symbolic links whose working directory is the root.\<close>

definition demo_resolve :: "path \<Rightarrow> path" where "demo_resolve p = path_join (Path ''/'' []) p"

definition demo_world :: "(path \<Rightarrow> string list \<Rightarrow> bool) \<Rightarrow> world" where
  "demo_world docker = \<lparr>w_now = (\<lambda>h. ''t''), w_uuid = ''u'', w_names = [''m1''], w_machine_id = None, w_cwd = Path ''/'' [], w_home = Path ''/'' [''root''],
     w_data_roots = [], w_resolve = demo_resolve, w_is_link = (\<lambda>p. False), w_euid = 0, w_egid = 0, w_load_images = (\<lambda>h. Ret ()), w_copy = (\<lambda>h. Ret ()), w_write = (\<lambda>h f. Ret ()), w_link = (\<lambda>h p. Ret ()),
     w_message = (\<lambda>e. ''m''), w_docker = (\<lambda>h p action. Ret (docker p action)), w_probe = (\<lambda>h n e d. Ret True), w_wait = (\<lambda>h n e d. Ret ())\<rparr>"

definition demo_release :: "role \<Rightarrow> string \<Rightarrow> release" where
  "demo_release r env = \<lparr>rel_marker = Some (Ret (JObj [(''host'', JStr ''m1''), (''role'', JStr (role_text r)), (''install_id'', JStr ''u'')])), rel_env = Some env\<rparr>"

definition demo_owned :: "role \<Rightarrow> dnode" where
  "demo_owned r = \<lparr>d_dir = True, d_mode = 488, d_uid = 0, d_gid = 0, d_marker = Some (Ret (JObj
     [(''canonical_path'', JStr ''/o/data''), (''host'', JStr ''m1''), (''role'', JStr (role_text r)), (''install_id'', JStr ''u''), (''install_root'', JStr ''/o'')]))\<rparr>"

definition demo_state :: "role \<Rightarrow> jdict" where
  "demo_state r = [(''host'', JStr ''m1''), (''role'', JStr (role_text r)), (''install_id'', JStr ''u''), (''status'', JStr ''complete''),
     (''data_dir'', JStr ''/o/data''),
     (''phases'', JObj [(''registry_ready'', JNull), (''agent_trace_ready'', JNull), (''resolver_ready'', JNull)])]"

definition demo_host :: "role \<Rightarrow> string \<Rightarrow> host" where
  "demo_host r env = \<lparr>h_locked = False, h_file = Some (Ret (JObj (demo_state r))), h_current = Some demo_new, h_previous = Some (''/o/releases/a1'' @ [CHR 0x0A]),
     h_releases = (\<lambda>p. if p = demo_old \<or> p = demo_new then Some (demo_release r env) else None),
     h_dirs = (\<lambda>p. if p = demo_data then Some (demo_owned r) else None), h_log = [], h_mem = [], h_target = None, h_prev = None, h_attempted = False\<rparr>"

lemma demo_resolve_simps [simp]: "demo_resolve (Path ''/'' ps) = Path ''/'' ps" "p_root q = ''/'' \<Longrightarrow> demo_resolve q = q"
  by (simp_all add: demo_resolve_def path_join_def)

lemma demo_resolution: "canonical_resolution demo_resolve"
  by (auto simp: canonical_resolution_def demo_resolve_def path_join_def is_absolute_def)

abbreviation calm :: world where "calm \<equiv> demo_world (\<lambda>p action. True)"

lemma calm_writes [simp]: "w_write (demo_world d) h f = Ret ()" "w_link (demo_world d) h p = Ret ()"
  by (simp_all add: demo_world_def)

lemma fst_is: "fst x = a \<Longrightarrow> x = (a, snd x)"
  by (cases x) simp

definition demo_package :: "string \<Rightarrow> package" where
  "demo_package env = \<lparr>k_preflight = Ret (JObj []), k_version_file = Some ''b2'', k_tree = [], k_config_tree = [], k_images = None,
     k_metadata = Ret [], k_env = Some env\<rparr>"

definition empty_host :: host where
  "empty_host = \<lparr>h_locked = False, h_file = None, h_current = None, h_previous = None, h_releases = (\<lambda>p. None), h_dirs = (\<lambda>p. None), h_log = [],
     h_mem = [], h_target = None, h_prev = None, h_attempted = False\<rparr>"

end
