(* ===== verification/LifecycleExamples.thy ===== *)
theory LifecycleExamples
  imports LifecycleDemo
begin

text \<open>The demonstration host of theory LifecycleDemo rolls back once and twice, starts its services and is purged.\<close>

definition demo_rolled_state :: jdict where
  "demo_rolled_state = dict_update (demo_state Management)
     [(''phases'', JObj [(''registry_ready'', JNull), (''agent_trace_ready'', JNull), (''resolver_ready'', JNull), (''management_started'',
         JObj [(''status'', JStr ''complete''), (''status_zh'', JStr ''wancheng''), (''completed_at'', JStr ''t''), (''input_sha256'', JStr [])])]),
      (''release'', JStr ''/o/releases/a1''), (''active_release'', JStr ''/o/releases/a1''), (''staged_release'', JNull),
      (''status'', JStr ''complete''), (''status_zh'', JStr ''wancheng''), (''activated'', JBool True), (''last_error'', JNull)]"

definition demo_rolled :: host where
  "demo_rolled = (demo_host Management short_env)\<lparr>h_file := Some (Ret (JObj demo_rolled_state)), h_current := Some demo_old,
     h_previous := Some (''/o/releases/b2'' @ [CHR 0x0A]),
     h_log := [(demo_old, [''config'', ''--quiet'']), (demo_old, [''--profile'', ''tools'', ''up'', ''-d'', ''management-tools''])],
     h_mem := demo_rolled_state\<rparr>"

text \<open>The fields that hold data, to compare two hosts by evaluation.\<close>

definition data_of :: "host \<Rightarrow> bool \<times> json res option \<times> path option \<times> string option \<times> (path \<times> string list) list \<times> jdict \<times> path option \<times> path option \<times> bool" where
  "data_of h = (h_locked h, h_file h, h_current h, h_previous h, h_log h, h_mem h, h_target h, h_prev h, h_attempted h)"

definition seen :: "unit res \<times> host \<Rightarrow> unit res \<times> bool \<times> json res option \<times> path option \<times> string option \<times> (path \<times> string list) list \<times> jdict \<times> path option \<times> path option \<times> bool" where
  "seen r = (fst r, data_of (snd r))"

lemma demo_rolled_seen: "seen (rollback calm (demo_args Management False) (demo_host Management short_env)) = (Ret (), data_of demo_rolled)"
  by code_simp

lemma demo_rolled: "rollback calm (demo_args Management False) (demo_host Management short_env) = (Ret (), demo_rolled)"
proof -
  have ok: "rollback calm (demo_args Management False) (demo_host Management short_env) =
      (Ret (), snd (rollback calm (demo_args Management False) (demo_host Management short_env)))"
    using demo_rolled_seen by (intro fst_is) (simp add: seen_def)
  moreover have "snd (rollback calm (demo_args Management False) (demo_host Management short_env)) = demo_rolled"
    using demo_rolled_seen rollback_frame[OF ok] by (intro host.equality) (simp_all add: seen_def data_of_def demo_rolled_def)
  ultimately show ?thesis by simp
qed

lemma demo_rollback_again: "fst (rollback calm (demo_args Management False) demo_rolled) = Ret ()"
  by code_simp

lemma demo_current: "current_release calm (demo_args Management False) (demo_host Management short_env) = Some demo_new" "plain_path demo_new"
  by code_simp+

lemma two_rollbacks_return_witness:
  "h_current (snd (rollback calm (demo_args Management False) demo_rolled)) = Some demo_new \<and> h_current demo_rolled = Some demo_old"
  using two_rollbacks_return[OF demo_rolled fst_is[OF demo_rollback_again] demo_current] by (simp add: demo_rolled_def)

lemma demo_resolver_rollback: "fst (rollback calm (demo_args R2 False) (demo_host R2 short_env)) = Ret ()"
  by code_simp

lemma rollback_starts_no_service_witness:
  "\<exists>p. h_current (snd (rollback calm (demo_args R2 False) (demo_host R2 short_env))) = Some p \<and>
     h_log (snd (rollback calm (demo_args R2 False) (demo_host R2 short_env))) = [(p, [''config'', ''--quiet''])]"
proof -
  have "resolver_role (a_role (demo_args R2 False))" "read_state (demo_host R2 short_env) = Ret (demo_state R2)"
    "\<forall>s\<in>set (resolver_sequence (a_role (demo_args R2 False))). phase_recorded (demo_state R2) (fst s)" by code_simp+
  moreover have "\<forall>g n e d. w_probe calm g n e d = Ret True" by (simp add: demo_world_def)
  ultimately show ?thesis
    using rollback_starts_no_service[OF fst_is[OF demo_resolver_rollback]] by (simp add: demo_host_def)
qed

lemma demo_purge:
  "h_dirs (demo_host Management demo_env) demo_data \<noteq> None"
  "h_dirs (snd (uninstall calm (demo_args Management True) (demo_host Management demo_env))) demo_data = None"
  by code_simp+



text \<open>A start that finds the registry ready and starts the agent and the resolver.\<close>

definition half_started :: host where
  "half_started = (demo_host R2 short_env)\<lparr>h_mem := [(''phases'', JObj [(''registry_ready'', JNull)])]\<rparr>"

lemma short_env_read: "load_env (Some short_env) = Ret [(''RI_FIELD_COMPOSE_PROJECT'', ''d'')]"
  by code_simp

lemma half_start: "fst (start_ordered calm demo_old R2 [] None half_started) = Ret ()"
  by (simp add: start_ordered_def resolver_role_def resolver_sequence_def start_phase_def phase_recorded_def half_started_def jget_def
      run_service_phase_def seqS_def bindS_def compose_def release_env_def release_at_def demo_host_def demo_release_def short_env_read env_get_def demo_old_def
      record_phase_def write_state_def stored_def dict_setdefault_def Let_def demo_world_def)

lemma services_start_in_order_witness:
  "\<exists>h' cmds gs. start_ordered calm demo_old R2 [] None half_started = (Ret (), h') \<and>
     started_in_order calm demo_old [] None (resolver_sequence R2) half_started (Ret ()) h' 3 cmds gs"
proof -
  have role: "resolver_role R2" by (simp add: resolver_role_def)
  from services_start_in_order[OF role fst_is[OF half_start]] obtain k cmds gs where
    "started_in_order calm demo_old [] None (resolver_sequence R2) half_started (Ret ()) (snd (start_ordered calm demo_old R2 [] None half_started)) k cmds gs"
    by blast
  moreover from this have "k = 3" by (simp add: started_in_order_def resolver_sequence_def)
  ultimately show ?thesis using fst_is[OF half_start] by blast
qed

end
