(* ===== verification/InstallExamples.thy ===== *)
theory InstallExamples
  imports LifecycleDemo
begin

text \<open>
  Installations on the demonstration host of theory LifecycleDemo: one that fails and one that succeeds.  The digests stay as they are
  written; everything else is evaluated.
\<close>

lemma demo_reads:
  "package_version (Some ''b2'') = Ret ''b2''" "safe_host ''m1'' = Ret ''m1''"
  "load_env (Some short_env) = Ret [(''RI_FIELD_COMPOSE_PROJECT'', ''d'')]"
  "load_env (Some demo_env) = Ret [(''RI_FIELD_COMPOSE_PROJECT'', ''d''), (''RI_FIELD_DATA_DIR'', ''/o/data'')]"
  "to_path ''/o/data'' = demo_data" "to_path [] = Path [] []" "demo_resolve demo_data = demo_data" "demo_resolve (path_in demo_root [''releases'', ''b2'']) = path_in demo_root [''releases'', ''b2'']" "path_text demo_data = ''/o/data''" "path_text (path_in demo_root [''releases'', ''b2'']) = ''/o/releases/b2''"
  by code_simp+

lemma demo_data_allowed: "data_path_allowed calm demo_data demo_root"
  by code_simp

lemma tree_hash_Nil: "tree_hash [] = Ret (hex_of_bytes (sha256 []))"
  by (simp add: tree_hash_def)

definition demo_identity :: jdict where
  "demo_identity = [(''schema'', JStr ''domain-center-install-state-v2''), (''host'', JStr ''m1''), (''role'', JStr ''management''),
        (''version'', JStr ''b2''), (''role_sha256'', JStr (hex_of_bytes (sha256 []))), (''config_sha256'', JStr (hex_of_bytes (sha256 []))),
        (''images_sha256'', JStr ''not-requested''), (''source_commit'', JNull), (''manifest_sha256'', JNull)]"

lemma demo_install_identity:
  "install_identity (demo_args Management z) (demo_package env) = Ret (''m1'', ''b2'', demo_identity)"
  by (simp add: install_identity_def demo_package_def demo_args_def demo_reads tree_hash_Nil demo_identity_def jget_def)

lemma demo_install_run:
  assumes "bind_res (read_state (h\<lparr>h_locked := True\<rparr>)) (\<lambda>d. bind_res (validate_state_identity (demo_args Management False) d) (\<lambda>_.
    next_state w (demo_args Management False) (h\<lparr>h_locked := True\<rparr>) demo_identity d)) = Ret st" "\<not> h_locked h"
    "\<And>g. w_write w g ''install-state.json'' = Ret ()"
  shows "install w (demo_args Management False) (demo_package env) h =
   (case install_steps w (demo_args Management False) (demo_package env) (JObj []) ''m1'' ''b2'' demo_identity
       (entered w (demo_args Management False) st (h\<lparr>h_locked := True\<rparr>)) of
      (Inr u, g) \<Rightarrow> (Ret (), g\<lparr>h_locked := False\<rparr>)
    | (Inl e, g) \<Rightarrow> (case install_failed w (demo_args Management False) e g of (r, f) \<Rightarrow> (r, f\<lparr>h_locked := False\<rparr>)))"
proof -
  have "k_preflight (demo_package env) = Ret (JObj [])" by (simp add: demo_package_def)
  with assms(2) show ?thesis
    unfolding install_def by (simp add: demo_install_identity with_lock_def install_locked_Inr[OF assms(1)] assms(3) split: prod.splits sum.splits)
qed

lemma demo_configuration:
  "env_get [(''RI_FIELD_COMPOSE_PROJECT'', ''d''), (''RI_FIELD_DATA_DIR'', ''/o/data'')] ''RI_FIELD_DATA_DIR'' = ''/o/data''"
  "env_get [(''RI_FIELD_COMPOSE_PROJECT'', ''d''), (''RI_FIELD_DATA_DIR'', ''/o/data'')] ''RI_FIELD_COMPOSE_PROJECT'' = ''d''"
  "k \<in> {''RI_TRACE_PRODUCER_UID'', ''RI_TRACE_PRODUCER_GID'', ''RI_KNOT_RESOLVER_UID''} \<Longrightarrow>
     configured_id [(''RI_FIELD_COMPOSE_PROJECT'', ''d''), (''RI_FIELD_DATA_DIR'', ''/o/data'')] k = Ret None"
  by (simp_all add: env_get_def) (auto simp: configured_id_def env_get_def py_strip_def py_lstrip_def rstrip_while_def)

section \<open>A failure after the switch\<close>

text \<open>The version \<open>b2\<close> is installed over \<open>a1\<close> on a disk that does not take the file \<open>previous-release\<close>.\<close>

definition flaky :: world where
  "flaky = calm\<lparr>w_write := (\<lambda>h f. if f = ''previous-release'' then Raise SYS else Ret ())\<rparr>"

lemma flaky_sel:
  "w_now flaky = (\<lambda>h. ''t'')" "w_cwd flaky = Path ''/'' []" "w_resolve flaky = demo_resolve" "w_is_link flaky = (\<lambda>p. False)" "w_euid flaky = 0"
  "w_egid flaky = 0" "w_copy flaky = (\<lambda>h. Ret ())" "w_write flaky = (\<lambda>h f. if f = ''previous-release'' then Raise SYS else Ret ())"
  "w_link flaky = (\<lambda>h p. Ret ())" "w_docker flaky = (\<lambda>h p action. Ret True)"
  by (simp_all add: flaky_def demo_world_def)

definition demo_known :: jdict where
  "demo_known = dict_update demo_identity [(''install_id'', JStr ''u''), (''phases'', JObj []), (''status'', JStr ''staged'')]"

definition old_host :: host where
  "old_host = (demo_host Management demo_env)\<lparr>h_file := Some (Ret (JObj demo_known)), h_current := Some demo_old,
     h_releases := (\<lambda>p. if p = demo_old then Some (demo_release Management demo_env) else None)\<rparr>"

lemma old_enter: "bind_res (read_state (old_host\<lparr>h_locked := True\<rparr>)) (\<lambda>d. bind_res (validate_state_identity (demo_args Management False) d) (\<lambda>_.
    next_state flaky (demo_args Management False) (old_host\<lparr>h_locked := True\<rparr>) demo_identity d)) = Ret demo_known"
  by (simp add: read_state_def old_host_def validate_state_identity_def next_state_def same_input_def demo_known_def demo_identity_def jget_def
      demo_args_def demo_reads)

lemma demo_fails: "\<exists>g. install flaky (demo_args Management False) (demo_package demo_env) old_host = (Inl SYS, g) \<and> h_current g = Some demo_old"
proof -
  have unlocked: "\<not> h_locked old_host" by (simp add: old_host_def demo_host_def)
  have writes: "w_write flaky g ''install-state.json'' = Ret ()" for g by (simp add: flaky_def)
  have abs: "is_absolute demo_data" by (simp add: demo_data_def is_absolute_def)
  have paths: "path_in demo_root [''releases'', ''b2''] \<noteq> demo_old" "demo_old \<noteq> path_in demo_root [''releases'', ''b2'']" "demo_resolve demo_old = demo_old" "path_join demo_root demo_old = demo_old"
    "path_text demo_old = ''/o/releases/a1''"
    by code_simp+
  have allowed: "data_path_allowed flaky demo_data demo_root" by code_simp
  have absolute_root: "path_text (absolute flaky demo_root) = ''/o''" by code_simp
  show ?thesis
    unfolding demo_install_run[OF old_enter unlocked writes]
    by (simp add: install_steps_def Let_def seqS_def bindS_def record_phase_def entered_def entering_def write_state_def stored_def update_state_def demo_known_def demo_identity_def jget_def
      demo_package_def demo_reads images_step_def data_step_def demo_configuration abs allowed absolute_root ensure_owned_data_def demo_args_def flaky_sel old_host_def demo_host_def
      claim_data_dir_def dir_at_def jitem_def set_directory_owner_def make_dir_def runtime_dirs_def resolver_role_def demo_release_def
      stage_release_def release_path_def release_at_def put_release_def compose_def release_env_def switch_step_def start_ordered_def norn_role_def
      dict_setdefault_def finish_install_def note_previous_def write_previous_def set_current_def pointing_def current_release_def activated_state_def paths
      install_failed_def recover_def restore_previous_release_def start_previous_def
      validate_marker_def load_marker_def demo_owned_def expected_marker_def)

qed

lemma failed_install_keeps_the_release_witness:
  "\<exists>e g. install flaky (demo_args Management False) (demo_package demo_env) old_host = (Inl e, g) \<and> h_current g = Some demo_old \<and>
     (pointer_back flaky (Some demo_old) (Some demo_old) g \<or>
      (\<not> a_no_start (demo_args Management False) \<and> writes_fail flaky \<and> recovery_failed flaky g \<and>
       (\<exists>host version identity. install_identity (demo_args Management False) (demo_package demo_env) = Ret (host, version, identity) \<and>
          h_current g = Some (release_path (demo_args Management False) version))))"
proof -
  obtain g where g: "install flaky (demo_args Management False) (demo_package demo_env) old_host = (Inl SYS, g)" "h_current g = Some demo_old"
    using demo_fails by blast
  have c: "h_current old_host = Some demo_old" "current_release flaky (demo_args Management False) old_host = Some demo_old"
    by (simp_all add: old_host_def current_release_def flaky_def demo_world_def demo_args_def demo_root_def demo_old_def path_join_def)
  from failed_install_keeps_the_release[OF g(1), unfolded c] show ?thesis using g by blast
qed

section \<open>A first installation\<close>

definition demo_started :: jdict where
  "demo_started = dict_update demo_identity [(''install_id'', JStr ''u''), (''phases'', JObj [])]"

lemma demo_enter: "bind_res (read_state (empty_host\<lparr>h_locked := True\<rparr>)) (\<lambda>st. bind_res (validate_state_identity (demo_args Management False) st) (\<lambda>_.
    next_state calm (demo_args Management False) (empty_host\<lparr>h_locked := True\<rparr>) demo_identity st)) = Ret demo_started"
  by (simp add: read_state_def empty_host_def validate_state_identity_def next_state_def same_input_def demo_started_def demo_world_def)

lemma demo_installs: "\<exists>g. install calm (demo_args Management False) (demo_package demo_env) empty_host = (Ret (), g) \<and>
   h_current g = Some (path_in demo_root [''releases'', ''b2''])"
proof -
  have unlocked: "\<not> h_locked empty_host" by (simp add: empty_host_def)
  note r = demo_configuration
  have abs: "is_absolute demo_data" by (simp add: demo_data_def is_absolute_def)
  note allowed = demo_data_allowed[unfolded demo_world_def]
  show ?thesis
    unfolding demo_install_run[OF demo_enter unlocked calm_writes(1)]
    by (simp add: install_steps_def Let_def seqS_def bindS_def record_phase_def entered_def entering_def write_state_def stored_def update_state_def demo_started_def demo_identity_def jget_def
      demo_package_def demo_reads images_step_def data_step_def r abs allowed ensure_owned_data_def demo_args_def demo_world_def empty_host_def
      claim_data_dir_def dir_at_def jitem_def set_directory_owner_def make_dir_def runtime_dirs_def resolver_role_def
      stage_release_def release_path_def release_at_def put_release_def compose_def release_env_def switch_step_def start_ordered_def norn_role_def
      dict_setdefault_def finish_install_def note_previous_def set_current_def pointing_def current_release_def activated_state_def)
qed

lemma active_release_stays_bound_witness:
  "\<exists>g. install calm (demo_args Management False) (demo_package demo_env) empty_host = (Ret (), g) \<and>
     h_current g = Some (path_in demo_root [''releases'', ''b2'']) \<and> installation_bound demo_resolve demo_root g"
proof -
  obtain g where g: "install calm (demo_args Management False) (demo_package demo_env) empty_host = (Ret (), g)"
      "h_current g = Some (path_in demo_root [''releases'', ''b2''])"
    using demo_installs by blast
  have "host_reached demo_resolve demo_root empty_host" by (rule host_reached.fresh) (simp_all add: empty_host_def)
  then have "host_reached demo_resolve demo_root (snd (perform calm (demo_args Management False) True (Install (demo_package demo_env)) empty_host))"
    by (rule host_reached.performed) (simp_all add: records_failures_def demo_world_def demo_args_def)
  then have "host_reached demo_resolve demo_root g" using g(1) by (simp add: perform_def)
  moreover have "is_absolute demo_root" by (simp add: demo_root_def is_absolute_def)
  ultimately have "installation_bound demo_resolve demo_root g"
    by (intro active_release_stays_bound demo_resolution)
  then show ?thesis using g by blast
qed

end
