(* ===== verification/Spec2Isabelle.thy ===== *)
theory Spec2Isabelle
  imports EndToEnd Coordinator EventWatcher Web3Backend Services PlanExamples NornProbe LifecycleExamples InstallExamples
begin

text \<open>
  Verification of the Python implementation of the resolver identity system (\<open>src/resolver_identity/\<close>, the registry tool
  \<open>tools/manage_v2_registry.py\<close> and the lifecycle tool of an installed host,
  \<open>deploy/easy-install/product-kit/common/lifecycle.py\<close>) and of the registry contract it writes to
  (\<open>contracts/src/ResolverIdentityRegistryV1.sol\<close>).

  \<^bold>\<open>The system.\<close>  An administrator signs an authenticity object for every resolver, anchors its hash, its version and a Merkle root
  in a registry, binds the resolver's endpoints to it and stores the object in an index.  A verifier decides for an endpoint whether
  the registry and the index vouch for it; it keeps its decisions in a trusted cache.  The wrapper forwards a DNS query to an upstream,
  learns which resolvers took part in the answer (from its configuration or from signed statements of the resolvers' agents) and
  releases the answer only if all of them are verified; otherwise the client receives SERVFAIL.  A watcher follows the events of the
  registry and takes revoked rows out of the cache.

  \<^bold>\<open>Theories, from the bottom.\<close>
  \<^item> Prelude, Effects: exceptions as values (\<open>pyerr + 'a\<close>), insertion-ordered dictionaries, state with exceptions (an operation
    returns its outcome and the state it leaves, so effects before an exception remain), invariants of operations (\<open>keeps\<close>).
  \<^item> PyText, PyBytes, PyRepr, Base64, Sha256, IpAddress, Url: what the program uses of Python's library, executable.
  \<^item> Json, Hashes, Merkle, Signatures: \<open>crypto/\<close>.  The canonical text of a value determines the value; the object hash binds the object;
    proofs are complete and sound for the root; a signature is accepted only from the key it names.
  \<^item> Endpoint, EndpointKeys, Objects, RfcTime: \<open>models/\<close>, \<open>common/time.py\<close>, the keys of endpoints, round trips of the dictionary forms.
  \<^item> Database, Registry, Indexer, TrustedCache: \<open>db/\<close>, \<open>chain/backend.py\<close>, \<open>chain/sqlite_backend.py\<close> and
    \<open>verifier/cache_manager.py\<close> on one record of tables.  The interface \<open>registry_backend\<close> states what publishing, binding and
    revoking promise and is interpreted by the SQLite registry; \<open>generation_store\<close> states the promise of the cache generation
    (what was invalidated since a read is not stored) and is interpreted by the cache.
  \<^item> Verifier, EndToEnd: \<open>verifier/\<close>.  Every branch of the cold and the cached path; an acceptance rests on registry, index, signature,
    proof and policy; a withdrawal at the second reading of the registry, or an invalidation that another process makes between the
    first reading of the cache generation and the commit, wins.
  \<^item> Publisher: \<open>admin/publisher.py\<close>.  Publishing never rolls back a version, and what it published verifies.
  \<^item> AgentIdentity, VerificationChain, Distributed: \<open>agent/\<close>.  Identities, signed hops and chains, how an agent builds them and how they
    are flattened; a chain that validates is sound at every node.
  \<^item> DnsMessage, QueryProcessor, ResolverChain, Coordinator: \<open>wrapper/\<close>.  Which resolvers a query involves, the vouching order of keys in
    a signed chain, versions that never step back between neighbours, the release decision with the recheck of generation
    and agent identity in the state of release.
  \<^item> EventWatcher: \<open>chain/event_watcher.py\<close>, with polls, reorganisations and retries over a node.
  \<^item> Contract, Web3Backend: the contract with words of its widths, the Web3 adapter over a node, and the refinement between the two
    registries.
  \<^item> Settings, HttpSecurity, Services: \<open>common/\<close> and the construction and handlers of the services.
  \<^item> PublicationPlan, PlanPhases, PlanRuns, RegistrySnapshot, PlanExamples: \<open>tools/manage_v2_registry.py\<close>.  PublicationPlan decides which
    identities may be published, builds a plan and reads it back under its hash; PlanPhases applies a plan in five phases with a journal of
    receipts; PlanRuns shows that a finished plan is in force, that phases can be run again and that no receipt is lost, through the
    interface \<open>plan_backend\<close>; RegistrySnapshot has the signed snapshots; PlanExamples runs all of it on concrete input.
  \<^item> NornProbe, HostConfig, HostFiles, Lifecycle: \<open>lifecycle.py\<close>.  NornProbe decodes the answer of a node and waits for readiness;
    HostConfig has the environment file, the rules of a role and the redaction; HostFiles has paths, tree hashes, markers, the data
    directory and the lock; Lifecycle installs, activates, rolls back and uninstalls on the record \<open>host\<close>.  LifecycleRuns has triples
    with a postcondition for the return and one for the exception, and the recovery of a failed installation; writing a file and
    changing the link may fail at each use.  LifecycleSafety has the invariant over all operations; LifecycleEffects the order of
    services with the readiness confirmed between them, rollbacks, what a recovery does to the state file, and the purge;
    LifecycleDemo, LifecycleExamples and InstallExamples run them on a small host.

  \<^bold>\<open>How state is represented.\<close>  The tables of SQLite are the record \<open>db\<close>, the in-memory part of the cache, the request journal, the state of
  the watcher and of the chain provider are records of their own, and an operation of the program is a function on the record it uses.
  The files of a host and the commands given to docker are the record \<open>host\<close>; what docker, the probes and the disk do is the record
  \<open>world\<close>.
  Where several processes share a table, the steps of the others appear as arguments: \<open>interfere\<close> runs an arbitrary change between two reads,
  \<open>peer_runs\<close> the cache calls of another process, and every read of the registry may see another registry.  Threads of one process run their verifications in list order.

  \<^bold>\<open>Conventions.\<close>  A JSON value has no floating-point numbers, and a boolean never equals a number.  Text has the characters up to 255.  The
  message of an exception is kept where the program shows or compares it and abbreviated where it interpolates values only for a log.
  \<open>ChainDiscoveryError\<close> and \<open>Web3RegistryError\<close> are \<open>RuntimeError\<close>, an \<open>OSError\<close> of a read is a \<open>ValueError\<close>.  Floating-point
  settings are exact rationals.  Times are microseconds since the epoch.

  \<^bold>\<open>Bounds and termination.\<close>  Nothing runs on fuel.  The recursion of \<open>merkle_reduce\<close> and of the proof loop ends because a level has half the
  length of the one below; chains and hops are finite trees and the recursion follows them; the discovery of agents is bounded by
  \<open>max_depth\<close> and the recursion of the wrapper by the same number, which is an argument of the model; the retry loops of the watcher count down the
  configured number of attempts.  The readiness loop of a host may not end when its clock stands still; it is a partial function, and
  \<open>waiting_ends\<close> shows when it returns and with what.  The limits of the code (64 nodes, 32 endpoints, 65535 bytes of a frame, 10000 journal entries) are its numbers.

  \<^bold>\<open>Parameters.\<close>  Ed25519 (record \<open>ed25519\<close>; \<open>ed25519_correct\<close> says that a signature made with a key verifies under its public key), keccak256,
  the node of the chain, the HTTP answers of agents, the forwarding of a DNS query, clocks, random identifiers, the environment and the content
  of files.  SHA-256 and HMAC are defined; facts that rest on collision resistance name the messages that would collide.

  \<^bold>\<open>Not modelled.\<close>  The sockets of \<open>wrapper/upstream.py\<close> and \<open>wrapper/doh.py\<close>, routing by FastAPI and the event loop, the command line of
  \<open>admin/cli.py\<close>, the background refresh of the wrapper, latencies and the text of the metrics; of \<open>lifecycle.py\<close> the machine checks of the
  preflight, the checks of secret files, the regular expressions of \<open>redact_text\<close>, backup, status and the support bundle; the other acceptance,
  packaging and deployment scripts of \<open>tools/\<close>, \<open>deploy/\<close> and \<open>installer/\<close>, which run containers, processes and file trees; the Rust crates and
  the patched resolver.
\<close>

end
